(* ===== verification/Efa_Prelude.thy ===== *)
theory Efa_Prelude
  imports Main "HOL-Library.Word" "HOL-Library.Monad_Syntax"
begin

unbundle bit_operations_syntax

text \<open>
  What every theory of the development shares.

  Machine integers are words of the width the C type has on the platform the library is
  built for (64-bit Windows: \<open>int\<close> and \<open>unsigned long\<close> have 32 bits, \<open>size_t\<close> and pointers
  have 64). A C \<open>int\<close> is a 32-bit word read with \<open>sint\<close> wherever its sign matters.

  A C function that can run into undefined behaviour (an access outside an object, a use
  after free, a failed \<open>assert\<close>, a division by zero, a call through a null pointer) returns
  an \<open>option\<close>: \<open>None\<close> is the execution that has no defined result. Error codes are ordinary
  results, never \<open>None\<close>.
\<close>

section \<open>Types and error codes\<close>

type_synonym u8 = "8 word"
type_synonym u16 = "16 word"
type_synonym u32 = "32 word"
type_synonym u64 = "64 word"
type_synonym i32 = "32 word"

type_synonym ptr = nat
  \<comment> \<open>the identity of a heap object; NULL is \<open>None\<close> of \<open>ptr option\<close>\<close>

text \<open>The values of \<open><errno.h>\<close> of the Windows C runtime and of the Windows headers.\<close>

abbreviation ENOENT :: int where "ENOENT \<equiv> 2"
abbreviation ENOMEM :: int where "ENOMEM \<equiv> 12"
abbreviation ENODEV :: int where "ENODEV \<equiv> 19"
abbreviation EINVAL :: int where "EINVAL \<equiv> 22"
abbreviation EALREADY :: int where "EALREADY \<equiv> 103"
abbreviation ENOBUFS :: int where "ENOBUFS \<equiv> 119"
abbreviation ENOTSUP :: int where "ENOTSUP \<equiv> 129"
abbreviation EOPNOTSUPP :: int where "EOPNOTSUPP \<equiv> 130"
abbreviation E_INVALIDARG :: int where "E_INVALIDARG \<equiv> - 2147024809"
abbreviation E_FAIL :: int where "E_FAIL \<equiv> - 2147467259"
abbreviation (input) ERROR_SUCCESS :: int where "ERROR_SUCCESS \<equiv> 0"

named_theorems ub_simps \<open>evaluation of the operations that may be undefined\<close>
named_theorems layout_simps \<open>sizes of the encoded structures\<close>

section \<open>Undefined behaviour as \<open>None\<close>\<close>

definition c_assert :: "bool \<Rightarrow> unit option" where
  "c_assert b = (if b then Some () else None)"

lemma c_assert_simps [simp, ub_simps]:
  "c_assert True = Some ()" "c_assert False = None"
  by (simp_all add: c_assert_def)

lemma c_assert_eq_Some [simp]: "c_assert b = Some u \<longleftrightarrow> b"
  by (simp add: c_assert_def)

lemma bind_c_assert: "Option.bind (c_assert b) f = (if b then f () else None)"
  by (simp add: c_assert_def)

text \<open>A checked array access and a checked array store.\<close>

definition arr_get :: "'a list \<Rightarrow> nat \<Rightarrow> 'a option" where
  "arr_get xs i = (if i < length xs then Some (xs ! i) else None)"

definition arr_set :: "'a list \<Rightarrow> nat \<Rightarrow> 'a \<Rightarrow> 'a list option" where
  "arr_set xs i v = (if i < length xs then Some (xs[i := v]) else None)"

lemma arr_get_in [simp, ub_simps]: "i < length xs \<Longrightarrow> arr_get xs i = Some (xs ! i)"
  by (simp add: arr_get_def)

lemma arr_set_in [simp, ub_simps]: "i < length xs \<Longrightarrow> arr_set xs i v = Some (xs[i := v])"
  by (simp add: arr_set_def)

lemma arr_get_eq_Some: "arr_get xs i = Some v \<longleftrightarrow> i < length xs \<and> v = xs ! i"
  by (auto simp: arr_get_def)

lemma arr_set_eq_Some: "arr_set xs i v = Some ys \<longleftrightarrow> i < length xs \<and> ys = xs[i := v]"
  by (auto simp: arr_set_def)

text \<open>
  A heap array reached through a pointer: the null pointer, a live allocation with its
  contents, or a dangling pointer to memory that was freed.
\<close>

datatype 'a cbuf = Null | Live "'a list" | Dangling

fun cb_get :: "'a cbuf \<Rightarrow> nat \<Rightarrow> 'a option" where
  "cb_get (Live xs) i = arr_get xs i"
| "cb_get _ i = None"

fun cb_set :: "'a cbuf \<Rightarrow> nat \<Rightarrow> 'a \<Rightarrow> 'a cbuf option" where
  "cb_set (Live xs) i v = map_option Live (arr_set xs i v)"
| "cb_set _ i v = None"

text \<open>\<open>free\<close>: nothing for NULL, undefined for memory already freed.\<close>

fun cb_free :: "'a cbuf \<Rightarrow> 'a cbuf option" where
  "cb_free Null = Some Null"
| "cb_free (Live xs) = Some Dangling"
| "cb_free Dangling = None"

fun cb_list :: "'a cbuf \<Rightarrow> 'a list" where
  "cb_list (Live xs) = xs"
| "cb_list _ = []"

lemma cb_get_eq_Some: "cb_get b i = Some v \<longleftrightarrow> (\<exists>xs. b = Live xs \<and> i < length xs \<and> v = xs ! i)"
  by (cases b) (auto simp: arr_get_def)

lemma cb_set_eq_Some:
  "cb_set b i v = Some b' \<longleftrightarrow> (\<exists>xs. b = Live xs \<and> i < length xs \<and> b' = Live (xs[i := v]))"
  by (cases b) (auto simp: arr_set_def)

section \<open>Counted loops\<close>

text \<open>\<open>for (i = a; i < a + k; i++) body\<close> over a state, stopping at undefined behaviour.\<close>

primrec for_range :: "nat \<Rightarrow> nat \<Rightarrow> (nat \<Rightarrow> 's \<Rightarrow> 's option) \<Rightarrow> 's \<Rightarrow> 's option" where
  "for_range a 0 f s = Some s"
| "for_range a (Suc k) f s = Option.bind (f a s) (for_range (Suc a) k f)"

lemma for_range_rule:
  assumes "P a s"
    and "\<And>i t. a \<le> i \<Longrightarrow> i < a + k \<Longrightarrow> P i t \<Longrightarrow> \<exists>t'. f i t = Some t' \<and> P (Suc i) t'"
  shows "\<exists>t. for_range a k f s = Some t \<and> P (a + k) t"
  using assms
proof (induction k arbitrary: a s)
  case 0
  then show ?case by simp
next
  case (Suc k)
  obtain t' where t': "f a s = Some t'" "P (Suc a) t'"
    using Suc.prems(2) [of a s] Suc.prems(1) by auto
  have "\<exists>t. for_range (Suc a) k f t' = Some t \<and> P (Suc a + k) t"
    by (rule Suc.IH [OF t'(2)]) (use Suc.prems(2) in auto)
  then show ?case using t' by simp
qed

lemma for_range_inv:
  assumes "for_range a k f s = Some t" and "P a s"
    and "\<And>i u u'. a \<le> i \<Longrightarrow> i < a + k \<Longrightarrow> P i u \<Longrightarrow> f i u = Some u' \<Longrightarrow> P (Suc i) u'"
  shows "P (a + k) t"
  using assms
proof (induction k arbitrary: a s)
  case 0
  then show ?case by simp
next
  case (Suc k)
  from Suc.prems(1) obtain u where u: "f a s = Some u" "for_range (Suc a) k f u = Some t"
    by (auto simp: Option.bind_eq_Some_conv)
  have "P (Suc a) u" using Suc.prems(2,3) u(1) by auto
  then have "P (Suc a + k) t"
    by (rule Suc.IH [OF u(2)]) (use Suc.prems(3) in auto)
  then show ?case by simp
qed

lemma for_range_cong:
  assumes "\<And>i s. a \<le> i \<Longrightarrow> i < a + k \<Longrightarrow> f i s = g i s"
  shows "for_range a k f s = for_range a k g s"
  using assms
proof (induction k arbitrary: a s)
  case 0
  then show ?case by simp
next
  case (Suc k)
  have "for_range (Suc a) k f = for_range (Suc a) k g"
    by (rule ext) (rule Suc.IH, use Suc.prems in auto)
  then show ?case using Suc.prems by simp
qed

lemma for_range_append:
  "for_range a (j + k) f s = Option.bind (for_range a j f s) (for_range (a + j) k f)"
proof (induction j arbitrary: a s)
  case 0
  then show ?case by simp
next
  case (Suc j)
  then show ?case by (cases "f a s") simp_all
qed

section \<open>Words\<close>

lemma unat_and_mask:
  fixes w :: "'a::len word"
  shows "unat (w AND mask k) = unat w mod 2 ^ k"
  by (metis take_bit_eq_mask take_bit_eq_mod unsigned_take_bit_eq)

lemma of_nat_pow2_minus_1: "(of_nat (2 ^ k - 1) :: 'a::len word) = mask k"
  by (simp add: mask_eq_exp_minus_1 of_nat_diff)

lemma unat_ucast_mod:
  fixes w :: "'a::len word"
  shows "unat (ucast w :: 'b::len word) = unat w mod 2 ^ LENGTH('b)"
  by (simp add: unsigned_ucast_eq take_bit_eq_mod)

lemma unat_ucast_widen:
  fixes w :: "'a::len word"
  assumes "LENGTH('a) \<le> LENGTH('b)"
  shows "unat (ucast w :: 'b::len word) = unat w"
proof -
  have "unat w < 2 ^ LENGTH('a)" by (rule unsigned_less)
  also have "\<dots> \<le> 2 ^ LENGTH('b)" using assms by simp
  finally show ?thesis by (simp add: unat_ucast_mod)
qed

lemma sint_nonneg_uint:
  fixes n :: i32
  assumes "0 \<le> sint n"
  shows "sint n = uint n"
proof -
  have nb: "\<not> bit (uint n) 31" using assms by (simp add: sint_uint)
  have "take_bit (Suc 31) (uint n) = uint n"
    using uint_lt2p [of n] by (simp add: take_bit_int_eq_self)
  then have "take_bit 31 (uint n) = uint n"
    using nb take_bit_Suc_from_most [of 31 "uint n"] by simp
  then show ?thesis using nb by (simp add: sint_uint signed_take_bit_def concat_bit_def)
qed

text \<open>An \<open>int\<close> converted to \<open>size_t\<close>: the sign is extended.\<close>

definition size_of_int :: "i32 \<Rightarrow> u64" where
  "size_of_int n = scast n"

lemma unat_size_of_int:
  assumes "0 \<le> sint n"
  shows "unat (size_of_int n) = unat n"
proof -
  have "size_of_int n = word_of_int (uint n)"
    unfolding size_of_int_def by (metis of_int_sint sint_nonneg_uint [OF assms])
  then have "size_of_int n = ucast n" by simp
  then show ?thesis by (simp add: unat_ucast_widen)
qed

end
