(* ===== verification/Efa_Bytes.thy ===== *)
theory Efa_Bytes
  imports Efa_Prelude
begin

text \<open>
  Byte buffers: the little-endian layout of machine integers in memory, and checked loads
  and stores. A C union and a structure that is copied to the device byte by byte are
  modelled on these. A load or store outside the buffer is undefined behaviour.
\<close>

section \<open>Little-endian integers\<close>

definition le_bytes :: "nat \<Rightarrow> 'a::len word \<Rightarrow> u8 list" where
  "le_bytes n w = map (\<lambda>i. ucast (drop_bit (8 * i) w)) [0..<n]"

primrec le_word :: "u8 list \<Rightarrow> 'a::len word" where
  "le_word [] = 0"
| "le_word (b # bs) = ucast b OR push_bit 8 (le_word bs)"

lemma length_le_bytes [simp, layout_simps]: "length (le_bytes n w) = n"
  by (simp add: le_bytes_def)

lemma bit_le_word:
  "bit (le_word bs :: 'a::len word) k \<longleftrightarrow>
     k < LENGTH('a) \<and> k div 8 < length bs \<and> bit (bs ! (k div 8)) (k mod 8)"
proof (induction bs arbitrary: k)
  case Nil
  then show ?case by simp
next
  case (Cons b bs)
  show ?case
  proof (cases "k < 8")
    case True
    then show ?thesis by (auto simp: bit_simps)
  next
    case False
    then obtain j where k: "k = j + 8" by (metis le_Suc_ex not_less add.commute)
    have b8: "\<not> bit b (j + 8)" by (auto dest: bit_imp_le_length)
    have d8: "(j + 8) div 8 = Suc (j div 8)" "(j + 8) mod 8 = j mod 8" by simp_all
    show ?thesis using b8 by (auto simp: k d8 bit_simps Cons.IH)
  qed
qed

lemma le_word_le_bytes:
  assumes "LENGTH('a::len) \<le> 8 * n"
  shows "le_word (le_bytes n w) = (w :: 'a word)"
proof (rule bit_word_eqI)
  fix k assume k: "k < LENGTH('a)"
  then have "k div 8 < n" using assms by linarith
  then show "bit (le_word (le_bytes n w) :: 'a word) k = bit w k"
    using k by (simp add: bit_le_word le_bytes_def bit_simps)
qed

lemma le_bytes_le_word:
  assumes "length bs = n" and "8 * n \<le> LENGTH('a::len)"
  shows "le_bytes n (le_word bs :: 'a word) = bs"
proof (rule nth_equalityI)
  fix i assume "i < length (le_bytes n (le_word bs :: 'a word))"
  then have i: "i < n" by simp
  have "ucast (drop_bit (8 * i) (le_word bs :: 'a word)) = bs ! i"
  proof (rule bit_word_eqI)
    fix k assume "k < LENGTH(8)"
    then have k: "k < 8" by simp
    have "8 * i + k < LENGTH('a)" using i k assms(2) by linarith
    moreover have "(8 * i + k) div 8 = i" "(8 * i + k) mod 8 = k" using k by simp_all
    ultimately show "bit (ucast (drop_bit (8 * i) (le_word bs :: 'a word)) :: u8) k = bit (bs ! i) k"
      using i k assms(1) by (simp add: bit_simps bit_le_word)
  qed
  then show "le_bytes n (le_word bs :: 'a word) ! i = bs ! i"
    using i by (simp add: le_bytes_def)
qed (use assms in simp)

section \<open>Loads and stores\<close>

definition mem_store :: "nat \<Rightarrow> 'a list \<Rightarrow> 'a list \<Rightarrow> 'a list option" where
  "mem_store off bs buf =
     (if off + length bs \<le> length buf
      then Some (take off buf @ bs @ drop (off + length bs) buf) else None)"

definition mem_load :: "nat \<Rightarrow> nat \<Rightarrow> 'a list \<Rightarrow> 'a list option" where
  "mem_load off n buf = (if off + n \<le> length buf then Some (take n (drop off buf)) else None)"

lemma mem_store_Some:
  "off + length bs \<le> length buf \<Longrightarrow>
     mem_store off bs buf = Some (take off buf @ bs @ drop (off + length bs) buf)"
  by (simp add: mem_store_def)

lemma mem_store_length: "mem_store off bs buf = Some buf' \<Longrightarrow> length buf' = length buf"
  by (auto simp: mem_store_def split: if_splits)

lemma mem_store_defined: "mem_store off bs buf \<noteq> None \<longleftrightarrow> off + length bs \<le> length buf"
  by (simp add: mem_store_def)

lemma mem_load_store_same:
  assumes "mem_store off bs buf = Some buf'"
  shows "mem_load off (length bs) buf' = Some bs"
  using assms by (auto simp: mem_store_def mem_load_def split: if_splits)

lemma nth_mem_store:
  assumes "mem_store off bs buf = Some buf'" and "i < length buf"
  shows "buf' ! i = (if off \<le> i \<and> i < off + length bs then bs ! (i - off) else buf ! i)"
  using assms by (auto simp: mem_store_def nth_append split: if_splits)

lemma mem_load_store_other:
  assumes "mem_store off bs buf = Some buf'"
    and "off' + n \<le> off \<or> off + length bs \<le> off'"
  shows "mem_load off' n buf' = mem_load off' n buf"
proof (cases "off' + n \<le> length buf")
  case True
  have l: "length buf' = length buf" by (rule mem_store_length [OF assms(1)])
  have "take n (drop off' buf') = take n (drop off' buf)"
    by (rule nth_equalityI)
      (use True l assms in \<open>auto simp: nth_mem_store [OF assms(1)]\<close>)
  then show ?thesis by (simp add: mem_load_def l)
next
  case False
  then show ?thesis using mem_store_length [OF assms(1)] by (simp add: mem_load_def)
qed

text \<open>Typed access: an integer of \<open>n\<close> bytes at a byte offset.\<close>

definition load_le :: "nat \<Rightarrow> nat \<Rightarrow> u8 list \<Rightarrow> 'a::len word option" where
  "load_le off n buf = map_option le_word (mem_load off n buf)"

definition store_le :: "nat \<Rightarrow> nat \<Rightarrow> 'a::len word \<Rightarrow> u8 list \<Rightarrow> u8 list option" where
  "store_le off n w buf = mem_store off (le_bytes n w) buf"

lemma load_store_le:
  fixes w :: "'a::len word"
  assumes "store_le off n w buf = Some buf'" and "LENGTH('a) \<le> 8 * n"
  shows "load_le off n buf' = Some w"
  using mem_load_store_same [OF assms(1) [unfolded store_le_def]] assms(2)
  by (simp add: load_le_def le_word_le_bytes)

lemma load_store_le_other:
  assumes "store_le off n w buf = Some buf'" and "off' + k \<le> off \<or> off + n \<le> off'"
  shows "load_le off' k buf' = load_le off' k buf"
  using mem_load_store_other [OF assms(1) [unfolded store_le_def], of off' k] assms(2)
  by (simp add: load_le_def)

lemma store_le_length: "store_le off n w buf = Some buf' \<Longrightarrow> length buf' = length buf"
  by (auto simp: store_le_def dest: mem_store_length)

lemma store_le_Some:
  "off + n \<le> length buf \<Longrightarrow> \<exists>buf'. store_le off n w buf = Some buf' \<and> length buf' = length buf"
  by (simp add: store_le_def mem_store_def)

lemma store_le_eq_None: "store_le off n w buf = None \<longleftrightarrow> length buf < off + n"
  by (auto simp: store_le_def mem_store_def)

text \<open>The application's memory, as far as the library reads it.\<close>

type_synonym umem = "u64 \<Rightarrow> u8"

definition read_bytes :: "umem \<Rightarrow> u64 \<Rightarrow> nat \<Rightarrow> u8 list" where
  "read_bytes mem addr n = map (\<lambda>i. mem (addr + of_nat i)) [0..<n]"

lemma length_read_bytes [simp, layout_simps]: "length (read_bytes mem addr n) = n"
  by (simp add: read_bytes_def)

end
