(* ===== verification/Efa_Util.thy ===== *)
theory Efa_Util
  imports Efa_Bytes
begin

text \<open>
  \<open>util/util.h\<close>, the register macros of \<open>include/efa.h\<close> and the compatibility macros of
  \<open>interface/efacompat.h\<close>, as the Windows branch of each compiles them: \<open>unsigned long\<close> has
  32 bits, \<open>min_t\<close> and \<open>max_t\<close> ignore their type argument, \<open>roundup_pow_of_two\<close> is the loop
  and \<open>EFA_SET\<close> finds the shift with \<open>_BitScanForward64\<close>.
\<close>

section \<open>Formatting and masks\<close>

definition good_snprintf :: "u64 \<Rightarrow> i32 \<Rightarrow> bool" where
  "good_snprintf len rc \<longleftrightarrow> size_of_int rc < len \<and> 0 \<le> sint rc"

text \<open>\<open>snprintf(buf, bufsz, "%u.%u.%u.%u", a, b, c, d)\<close>: at most \<open>bufsz - 1\<close> characters are kept.\<close>

fun print_u :: "nat \<Rightarrow> string" where
  "print_u n = (if n < 10 then [char_of (48 + n)] else print_u (n div 10) @ [char_of (48 + n mod 10)])"

declare print_u.simps [simp del]

definition snprintf_quad :: "nat \<Rightarrow> u32 \<Rightarrow> u32 \<Rightarrow> u32 \<Rightarrow> u32 \<Rightarrow> string" where
  "snprintf_quad bufsz a b c d =
     take (bufsz - 1) (print_u (unat a) @ ''.'' @ print_u (unat b) @ ''.'' @
                      print_u (unat c) @ ''.'' @ print_u (unat d))"

definition GENMASK :: "nat \<Rightarrow> nat \<Rightarrow> u32" where
  "GENMASK h l = ((NOT 0) - push_bit l 1 + 1) AND drop_bit (32 - 1 - h) (NOT 0)"

definition BIT :: "nat \<Rightarrow> u32" where
  "BIT nr = push_bit nr 1"

text \<open>\<open>_BitScanForward64\<close>: the index of the lowest set bit; the callers' index starts at 0.\<close>

definition BitScanForward64 :: "u64 \<Rightarrow> nat" where
  "BitScanForward64 m = (case filter (bit m) [0..<64] of [] \<Rightarrow> 0 | i # is \<Rightarrow> i)"

definition FIELD_GET :: "u64 \<Rightarrow> u64 \<Rightarrow> u64" where
  "FIELD_GET msk reg = drop_bit (BitScanForward64 msk) (reg AND msk)"

definition EFA_GET :: "'r::len word \<Rightarrow> u32 \<Rightarrow> u64" where
  "EFA_GET reg msk = FIELD_GET (ucast msk) (ucast reg)"

definition EFA_SET :: "'r::len word \<Rightarrow> u32 \<Rightarrow> u32 \<Rightarrow> 'r word" where
  "EFA_SET reg msk val =
     ucast ((ucast reg AND NOT msk) OR (push_bit (BitScanForward64 (ucast msk)) val AND msk))"

section \<open>Alignment and rounding\<close>

definition align :: "u32 \<Rightarrow> u32 \<Rightarrow> u32" where
  "align val al = (val + al - 1) AND NOT (al - 1)"

partial_function (option) roundup_loop :: "u32 \<Rightarrow> u64 \<Rightarrow> u32 option" where
  "roundup_loop roundup n =
     (if ucast roundup < n then roundup_loop (push_bit 1 roundup) n else Some roundup)"

definition roundup_pow_of_two :: "u64 \<Rightarrow> u64 option" where
  "roundup_pow_of_two n =
     (if n = 1 then Some (ucast (push_bit 1 (1 :: u32)))
      else map_option ucast (roundup_loop 1 n))"

definition DIV_ROUND_UP :: "u32 \<Rightarrow> u32 \<Rightarrow> u32 option" where
  "DIV_ROUND_UP n d = (if d = 0 then None else Some ((n + d - 1) div d))"

section \<open>Masks and extension fields\<close>

definition check_comp_mask :: "u64 \<Rightarrow> u64 \<Rightarrow> bool" where
  "check_comp_mask input supported \<longleftrightarrow> input AND NOT supported = 0"

definition vext_field_avail :: "nat \<Rightarrow> u32 \<Rightarrow> bool" where
  "vext_field_avail offset sz \<longleftrightarrow> offset < unat sz"

text \<open>The loop of \<open>is_buf_cleared\<close> at index \<open>i\<close> with \<open>k\<close> bytes to go.\<close>

primrec is_buf_cleared_from :: "u8 list \<Rightarrow> nat \<Rightarrow> nat \<Rightarrow> bool option" where
  "is_buf_cleared_from buf i 0 = Some True"
| "is_buf_cleared_from buf i (Suc k) =
     do { b \<leftarrow> arr_get buf i;
          if b \<noteq> 0 then Some False else is_buf_cleared_from buf (Suc i) k }"

definition is_buf_cleared :: "u8 list \<Rightarrow> u64 \<Rightarrow> bool option" where
  "is_buf_cleared buf len = is_buf_cleared_from buf 0 (unat len)"

section \<open>Byte order\<close>

definition byteswap_ulong :: "u32 \<Rightarrow> u32" where
  "byteswap_ulong v = le_word (rev (le_bytes 4 v))"

definition htobe32 :: "u32 \<Rightarrow> u32" where "htobe32 v = byteswap_ulong v"
definition be32toh :: "u32 \<Rightarrow> u32" where "be32toh v = byteswap_ulong v"


section \<open>Bit fields\<close>

lemma BitScanForward64_eqI:
  assumes "bit m s" and "\<And>i. i < s \<Longrightarrow> \<not> bit m i"
  shows "BitScanForward64 m = s"
proof -
  have s: "s < 64" using bit_imp_le_length [OF assms(1)] by simp
  then have "[0..<64] = [0..<s] @ s # [Suc s..<64]"
    using upt_add_eq_append [of 0 s "64 - s"] by (simp add: upt_conv_Cons)
  moreover have "filter (bit m) [0..<s] = []"
    using assms(2) by (auto simp: filter_empty_conv)
  ultimately show ?thesis using assms(1) by (simp add: BitScanForward64_def)
qed

lemma BitScanForward64_field:
  assumes "0 < n" and "s + n \<le> 32"
  shows "BitScanForward64 (ucast (push_bit s (mask n) :: u32)) = s"
  by (rule BitScanForward64_eqI) (use assms in \<open>auto simp: bit_simps\<close>)

lemma bit_EFA_SET:
  fixes w :: "'r::len word"
  assumes "LENGTH('r) \<le> 32"
  shows "bit (EFA_SET w (push_bit s (mask n)) v) k \<longleftrightarrow>
           k < LENGTH('r) \<and>
           (if s \<le> k \<and> k < s + n
            then BitScanForward64 (ucast (push_bit s (mask n) :: u32)) \<le> k
                 \<and> bit v (k - BitScanForward64 (ucast (push_bit s (mask n) :: u32)))
            else bit w k)"
  using assms by (auto simp: EFA_SET_def bit_simps dest: bit_imp_le_length)

lemma bit_EFA_GET:
  fixes w :: "'r::len word"
  assumes "LENGTH('r) \<le> 32" and "0 < n" and "s + n \<le> 32"
  shows "bit (EFA_GET w (push_bit s (mask n))) k \<longleftrightarrow> k < n \<and> bit w (s + k)"
  using assms
  by (auto simp: EFA_GET_def FIELD_GET_def BitScanForward64_field bit_simps
      dest: bit_imp_le_length)

text \<open>Reading a field back gives the value written, cut to the field's width.\<close>

lemma EFA_GET_SET_same:
  fixes w :: "'r::len word"
  assumes "LENGTH('r) \<le> 32" and "0 < n" and "s + n \<le> LENGTH('r)"
  shows "EFA_GET (EFA_SET w (push_bit s (mask n)) v) (push_bit s (mask n)) = ucast (take_bit n v)"
  by (rule bit_word_eqI)
    (use assms in \<open>auto simp: bit_EFA_GET bit_EFA_SET BitScanForward64_field bit_simps
                     dest: bit_imp_le_length\<close>)

text \<open>Writing a field leaves every field outside its mask as it was.\<close>

lemma EFA_GET_SET_other:
  fixes w :: "'r::len word"
  assumes "LENGTH('r) \<le> 32" and "0 < n" and "s + n \<le> 32" and "0 < n'" and "s' + n' \<le> 32"
    and "s + n \<le> s' \<or> s' + n' \<le> s"
  shows "EFA_GET (EFA_SET w (push_bit s (mask n)) v) (push_bit s' (mask n'))
         = EFA_GET w (push_bit s' (mask n'))"
  by (rule bit_word_eqI)
    (use assms in \<open>auto simp: bit_EFA_GET bit_EFA_SET dest: bit_imp_le_length\<close>)

lemma EFA_SET_SET_same:
  fixes w :: "'r::len word"
  assumes "LENGTH('r) \<le> 32"
  shows "EFA_SET (EFA_SET w (push_bit s (mask n)) v) (push_bit s (mask n)) v'
         = EFA_SET w (push_bit s (mask n)) v'"
  by (rule bit_word_eqI) (use assms in \<open>auto simp: bit_EFA_SET\<close>)

lemma EFA_SET_commute:
  fixes w :: "'r::len word"
  assumes "LENGTH('r) \<le> 32" and "s + n \<le> s' \<or> s' + n' \<le> s"
  shows "EFA_SET (EFA_SET w (push_bit s (mask n)) v) (push_bit s' (mask n')) v'
         = EFA_SET (EFA_SET w (push_bit s' (mask n')) v') (push_bit s (mask n)) v"
  by (rule bit_word_eqI) (use assms in \<open>auto simp: bit_EFA_SET\<close>)

text \<open>The contract of one field of a register, and of two fields that share a register.\<close>

locale reg_field =
  fixes get :: "'r \<Rightarrow> u64" and set :: "'r \<Rightarrow> u32 \<Rightarrow> 'r" and width :: nat
  assumes get_set: "get (set w v) = ucast (take_bit width v)"
    and set_set: "set (set w v) v' = set w v'"
    and width: "0 < width" "width \<le> 32"
begin

lemma get_set_small:
  assumes "unat v < 2 ^ width"
  shows "get (set w v) = ucast v"
proof -
  have "take_bit width v = v"
    using assms by (metis word_eq_iff_unsigned unsigned_take_bit_eq take_bit_nat_eq_self)
  then show ?thesis by (simp add: get_set)
qed

lemma get_bounded: "unat (get (set w v)) < 2 ^ width"
proof -
  have "unat (ucast (take_bit width v) :: u64) = unat (take_bit width v)"
    by (rule unat_ucast_widen) simp
  then show ?thesis by (simp add: get_set unsigned_take_bit_eq)
qed

lemma set_inj_get: "take_bit width v = take_bit width v' \<Longrightarrow> get (set w v) = get (set w' v')"
  by (simp add: get_set)

end

locale reg_field_pair =
  a: reg_field get_a set_a width_a + b: reg_field get_b set_b width_b
  for get_a :: "'r \<Rightarrow> u64" and set_a width_a and get_b :: "'r \<Rightarrow> u64" and set_b width_b +
  assumes get_a_set_b: "get_a (set_b w v) = get_a w"
    and get_b_set_a: "get_b (set_a w v) = get_b w"
    and commute: "set_a (set_b w v') v = set_b (set_a w v) v'"
begin

lemma get_both:
  "get_a (set_b (set_a w v) v') = ucast (take_bit width_a v)"
  "get_b (set_a (set_b w v') v) = ucast (take_bit width_b v')"
  by (simp_all add: get_a_set_b get_b_set_a a.get_set b.get_set)

lemma set_a_twice: "set_a (set_b (set_a w v) v') v'' = set_b (set_a w v'') v'"
  by (simp add: commute a.set_set)

end


section \<open>Rounding up to a power of two\<close>

lemma unat_2_power:
  assumes "k < LENGTH('a::len)"
  shows "unat (2 ^ k :: 'a word) = 2 ^ k"
proof -
  have "unat (push_bit k 1 :: 'a word) = take_bit LENGTH('a) (2 ^ k)"
    by (simp only: unsigned_push_bit_eq) (simp add: push_bit_eq_mult take_bit_nat_eq_self assms)
  then show ?thesis using assms by (simp add: take_bit_nat_eq_self)
qed

lemma unat_ucast_2_power:
  assumes "k < 32"
  shows "unat (ucast (2 ^ k :: u32) :: u64) = 2 ^ k"
  using assms by (simp add: unat_ucast_widen unat_2_power)

lemma roundup_loop_step:
  assumes "k < 32"
  shows "roundup_loop (2 ^ k) n =
           (if 2 ^ k < unat n then roundup_loop (2 ^ Suc k) n else Some (2 ^ k))"
proof -
  have "(ucast (2 ^ k :: u32) < n) = (2 ^ k < unat n)"
    using unat_ucast_2_power [OF assms] by (simp add: word_less_nat_alt)
  moreover have "push_bit 1 (2 ^ k :: u32) = 2 ^ Suc k" by (simp add: push_bit_eq_mult mult.commute)
  ultimately show ?thesis by (subst roundup_loop.simps) (simp only: split: if_split)
qed

lemma roundup_loop_pow:
  assumes "k \<le> 31" and "unat n \<le> 2 ^ 31"
  shows "\<exists>m. k \<le> m \<and> m \<le> 31 \<and> roundup_loop (2 ^ k) n = Some (2 ^ m)
             \<and> unat n \<le> 2 ^ m \<and> (m = k \<or> 2 ^ (m - 1) < unat n)"
  using assms
proof (induction "31 - k" arbitrary: k)
  case 0
  then have "k = 31" by simp
  then show ?case using 0 roundup_loop_step [of 31 n] by auto
next
  case (Suc j)
  show ?case
  proof (cases "2 ^ k < unat n")
    case False
    then show ?thesis using Suc.prems roundup_loop_step [of k n] by auto
  next
    case True
    have "k < 31" and j: "j = 31 - Suc k" using Suc.hyps(2) by simp_all
    obtain m where "Suc k \<le> m" "m \<le> 31" "unat n \<le> 2 ^ m"
      "roundup_loop (2 ^ Suc k) n = Some (2 ^ m)"
      "m = Suc k \<or> 2 ^ (m - 1) < unat n"
      using Suc.hyps(1) [OF j _ Suc.prems(2)] \<open>k < 31\<close> by (auto simp del: power_Suc)
    then show ?thesis
      using True roundup_loop_step [of k n] \<open>k < 31\<close> by (intro exI [of _ m]) auto
  qed
qed

text \<open>The loop can only return a shifted copy of its start value.\<close>

lemma roundup_loop_shape:
  assumes ret: "roundup_loop r n = Some y"
  shows "\<not> ucast y < n \<and> (\<exists>j. y = push_bit j r)"
proof (rule roundup_loop.raw_induct
    [where P = "\<lambda>r n y. \<not> ucast y < n \<and> (\<exists>j. y = push_bit j r)", OF _ ret])
  fix f r n y
  assume IH: "\<And>r n y. f r n = Some y \<Longrightarrow> \<not> ucast y < n \<and> (\<exists>j. y = push_bit j r)"
    and eq: "(if ucast r < n then f (push_bit 1 r) n else Some r) = Some y"
  show "\<not> ucast y < n \<and> (\<exists>j. y = push_bit j r)"
  proof (cases "ucast r < n")
    case True
    then have "f (push_bit 1 r) n = Some y" using eq by simp
    from IH [OF this] obtain j where "\<not> ucast y < n" "y = push_bit j (push_bit 1 r)" by blast
    then show ?thesis by (auto intro: exI [of _ "Suc j"] simp: push_bit_push_bit)
  next
    case False
    then have "y = push_bit 0 r" using eq by simp
    moreover have "\<not> ucast y < n" using False calculation by simp
    ultimately show ?thesis by blast
  qed
qed

lemma roundup_pow_of_two_0: "roundup_pow_of_two 0 = Some 1"
  using roundup_loop_step [of 0 0] by (simp add: roundup_pow_of_two_def)

lemma roundup_pow_of_two_1: "roundup_pow_of_two 1 = Some 2"
  by (simp add: roundup_pow_of_two_def)

lemma roundup_pow_of_two_returns:
  assumes "2 \<le> unat n" and "unat n \<le> 2 ^ 31"
  shows "\<exists>k r. roundup_pow_of_two n = Some r \<and> unat r = 2 ^ k \<and> 1 \<le> k \<and> k \<le> 31
             \<and> unat n \<le> unat r \<and> unat r < 2 * unat n"
proof -
  have n1: "n \<noteq> 1" using assms(1) by auto
  obtain m where m: "m \<le> 31" "roundup_loop (2 ^ 0) n = Some (2 ^ m)"
    "unat n \<le> 2 ^ m" "m = 0 \<or> 2 ^ (m - 1) < unat n"
    using roundup_loop_pow [of 0 n] assms(2) by auto
  have "m \<noteq> 0" using m(3) assms(1) by (metis le_antisym numeral_le_one_iff one_le_numeral
        order_trans power_0 semiring_norm(69))
  then have lt: "2 ^ m < 2 * unat n" using m(4) by (cases m) auto
  have "roundup_pow_of_two n = Some (ucast (2 ^ m :: u32))"
    using m(2) n1 by (simp add: roundup_pow_of_two_def)
  moreover have "unat (ucast (2 ^ m :: u32) :: u64) = 2 ^ m"
    using m(1) by (intro unat_ucast_2_power) simp
  ultimately show ?thesis using m lt \<open>m \<noteq> 0\<close> by (intro exI conjI) auto
qed

text \<open>
  C15: for every argument the 32-bit loop can reach, \<open>roundup_pow_of_two\<close> terminates with the
  least power of two that is not below the argument, except that 1 is rounded to 2 (and 0
  to 1).
\<close>

theorem roundup_pow_of_two_spec:
  assumes "unat n \<le> 2 ^ 31"
  shows "\<exists>k r. roundup_pow_of_two n = Some r \<and> unat r = 2 ^ k \<and> k \<le> 31 \<and> unat n \<le> unat r
             \<and> (2 \<le> unat n \<longrightarrow> unat r < 2 * unat n)
             \<and> (n = 1 \<longrightarrow> unat r = 2) \<and> (n = 0 \<longrightarrow> unat r = 1)"
proof -
  consider "n = 0" | "n = 1" | "2 \<le> unat n"
    by (metis One_nat_def Suc_leI unat_eq_zero word_unat_eq_iff unsigned_1 le_neq_implies_less
        numeral_2_eq_2 not_gr0)
  then show ?thesis
  proof cases
    case 1
    then show ?thesis by (intro exI [of _ 0] exI [of _ 1]) (simp add: roundup_pow_of_two_0)
  next
    case 2
    then show ?thesis by (intro exI [of _ 1] exI [of _ 2]) (simp add: roundup_pow_of_two_1)
  next
    case 3
    then show ?thesis using roundup_pow_of_two_returns [OF 3 assms] by fastforce
  qed
qed

theorem roundup_pow_of_two_spec_witness:
  "unat (5 :: u64) \<le> 2 ^ 31 \<and> (\<exists>k r. roundup_pow_of_two 5 = Some r \<and> unat r = 2 ^ k \<and> unat r < 10)"
  using roundup_pow_of_two_spec [of 5] by fastforce

text \<open>
  Above \<open>2^31\<close> the 32-bit accumulator of the Windows branch overflows to 0 and the loop
  never ends; the call does not return.
\<close>

theorem roundup_pow_of_two_diverges:
  assumes "2 ^ 31 < unat n"
  shows "roundup_pow_of_two n = None"
proof -
  have "roundup_loop 1 n = None"
  proof (rule ccontr)
    assume "roundup_loop 1 n \<noteq> None"
    then obtain y where "roundup_loop 1 n = Some y" by blast
    from roundup_loop_shape [OF this] obtain j where j: "\<not> ucast y < n" "y = push_bit j 1"
      by blast
    have "unat y \<le> 2 ^ 31"
    proof (cases "j < 32")
      case True
      then have "unat y = 2 ^ j" by (simp add: j(2) unat_2_power)
      also have "\<dots> \<le> 2 ^ 31" using True by (intro power_increasing) auto
      finally show ?thesis .
    next
      case False
      then have "y = 0" by (simp add: j(2) exp_eq_zero_iff)
      then show ?thesis by simp
    qed
    moreover have "unat (ucast y :: u64) = unat y" by (rule unat_ucast_widen) simp
    ultimately show False using j(1) assms by (simp add: word_less_nat_alt)
  qed
  moreover have "n \<noteq> 1" using assms by auto
  ultimately show ?thesis by (simp add: roundup_pow_of_two_def)
qed

theorem roundup_pow_of_two_diverges_witness:
  "2 ^ 31 < unat (2147483649 :: u64) \<and> roundup_pow_of_two 2147483649 = None"
  using roundup_pow_of_two_diverges [of 2147483649] by simp


section \<open>The remaining helpers\<close>

lemma align_pow2:
  assumes "k < 32" and "unat val + 2 ^ k - 1 < 2 ^ 32"
  shows "unat (align val (2 ^ k)) = (unat val + 2 ^ k - 1) div 2 ^ k * 2 ^ k"
proof -
  have k: "unat (2 ^ k :: u32) = 2 ^ k" using assms(1) by (simp add: unat_2_power)
  have v: "unat (val + 2 ^ k - 1) = unat val + 2 ^ k - 1"
  proof -
    have "of_nat (unat val + 2 ^ k - 1) = (of_nat (unat val + 2 ^ k) :: u32) - of_nat 1"
      by (rule of_nat_diff) (simp add: add_increasing)
    then have "val + 2 ^ k - 1 = of_nat (unat val + 2 ^ k - 1)" by simp
    then show ?thesis using assms(2)
      by (simp add: unsigned_of_nat take_bit_nat_eq_self)
  qed
  have "align val (2 ^ k) = (val + 2 ^ k - 1) AND NOT (mask k)"
    by (simp add: align_def mask_eq_exp_minus_1)
  also have "\<dots> = push_bit k (drop_bit k (val + 2 ^ k - 1))"
    by (rule bit_word_eqI) (auto simp: bit_simps)
  finally have "align val (2 ^ k) = push_bit k (drop_bit k (val + 2 ^ k - 1))" .
  moreover have "(unat val + 2 ^ k - 1) div 2 ^ k * 2 ^ k < 2 ^ 32"
    using assms(2) by (metis div_times_less_eq_dividend le_less_trans)
  moreover have "unat (push_bit k (drop_bit k (val + 2 ^ k - 1)))
      = take_bit 32 ((unat val + 2 ^ k - 1) div 2 ^ k * 2 ^ k)"
    by (simp only: unsigned_push_bit_eq unsigned_drop_bit_eq v)
      (use assms(2) in \<open>simp add: push_bit_eq_mult drop_bit_eq_div take_bit_nat_eq_self\<close>)
  ultimately show ?thesis by (simp only: take_bit_nat_eq_self)
qed

lemma check_comp_mask_iff:
  "check_comp_mask input supported \<longleftrightarrow> (\<forall>k. bit input k \<longrightarrow> bit supported k)"
  unfolding check_comp_mask_def bit_eq_iff
  by (simp add: bit_simps) (use bit_imp_le_length in fastforce)

lemma is_buf_cleared_from_eq:
  "i + k \<le> length buf \<Longrightarrow>
     is_buf_cleared_from buf i k = Some (list_all (\<lambda>j. buf ! j = 0) [i..<i + k])"
proof (induction k arbitrary: i)
  case 0
  then show ?case by simp
next
  case (Suc k)
  then show ?case by (simp add: upt_conv_Cons del: upt_Suc)
qed

lemma is_buf_cleared_iff:
  "unat len \<le> length buf \<Longrightarrow>
     is_buf_cleared buf len = Some (\<forall>i<unat len. buf ! i = 0)"
  by (auto simp: is_buf_cleared_def is_buf_cleared_from_eq list_all_iff)

lemma byteswap_ulong_involution: "byteswap_ulong (byteswap_ulong v) = v"
  by (simp add: byteswap_ulong_def le_bytes_le_word le_word_le_bytes)

lemma be32toh_htobe32 [simp]: "be32toh (htobe32 v) = v"
  by (simp add: be32toh_def htobe32_def byteswap_ulong_involution)

lemma unat_less_iff_word: "unat a < unat b \<longleftrightarrow> a < b"
  by (simp add: word_less_nat_alt)

end
