(* ===== verification/Efa_Io_Defs.thy ===== *)
theory Efa_Io_Defs
  imports Efa_Util
begin

text \<open>
  \<open>include/efa_io_defs.h\<close>: the descriptors the library exchanges with the device, their bit
  masks, and their layout in memory (the encoders follow the order and size of the C fields).
  The union of \<open>struct efa_io_tx_wqe\<close> is its 32 bytes.
\<close>

section \<open>Constants\<close>

definition EFA_IO_TX_DESC_NUM_BUFS :: u64 where "EFA_IO_TX_DESC_NUM_BUFS = 2"
definition EFA_IO_TX_DESC_NUM_RDMA_BUFS :: u64 where "EFA_IO_TX_DESC_NUM_RDMA_BUFS = 1"
definition EFA_IO_TX_DESC_INLINE_MAX_SIZE :: nat where "EFA_IO_TX_DESC_INLINE_MAX_SIZE = 32"

definition EFA_IO_SEND_QUEUE :: u64 where "EFA_IO_SEND_QUEUE = 1"
definition EFA_IO_RECV_QUEUE :: u64 where "EFA_IO_RECV_QUEUE = 2"

text \<open>\<open>enum efa_io_send_op_type\<close>.\<close>

definition EFA_IO_SEND :: u32 where "EFA_IO_SEND = 0"
definition EFA_IO_RDMA_READ :: u32 where "EFA_IO_RDMA_READ = 1"

text \<open>\<open>enum efa_io_comp_status\<close>, with the value each enumerator has in the descriptor.\<close>

datatype efa_io_comp_status =
    EFA_IO_COMP_STATUS_OK
  | EFA_IO_COMP_STATUS_FLUSHED
  | EFA_IO_COMP_STATUS_LOCAL_ERROR_QP_INTERNAL_ERROR
  | EFA_IO_COMP_STATUS_LOCAL_ERROR_INVALID_OP_TYPE
  | EFA_IO_COMP_STATUS_LOCAL_ERROR_INVALID_AH
  | EFA_IO_COMP_STATUS_LOCAL_ERROR_INVALID_LKEY
  | EFA_IO_COMP_STATUS_LOCAL_ERROR_BAD_LENGTH
  | EFA_IO_COMP_STATUS_REMOTE_ERROR_BAD_ADDRESS
  | EFA_IO_COMP_STATUS_REMOTE_ERROR_ABORT
  | EFA_IO_COMP_STATUS_REMOTE_ERROR_BAD_DEST_QPN
  | EFA_IO_COMP_STATUS_REMOTE_ERROR_RNR
  | EFA_IO_COMP_STATUS_REMOTE_ERROR_BAD_LENGTH
  | EFA_IO_COMP_STATUS_REMOTE_ERROR_BAD_STATUS

fun efa_io_comp_status_val :: "efa_io_comp_status \<Rightarrow> u8" where
  "efa_io_comp_status_val EFA_IO_COMP_STATUS_OK = 0"
| "efa_io_comp_status_val EFA_IO_COMP_STATUS_FLUSHED = 1"
| "efa_io_comp_status_val EFA_IO_COMP_STATUS_LOCAL_ERROR_QP_INTERNAL_ERROR = 2"
| "efa_io_comp_status_val EFA_IO_COMP_STATUS_LOCAL_ERROR_INVALID_OP_TYPE = 3"
| "efa_io_comp_status_val EFA_IO_COMP_STATUS_LOCAL_ERROR_INVALID_AH = 4"
| "efa_io_comp_status_val EFA_IO_COMP_STATUS_LOCAL_ERROR_INVALID_LKEY = 5"
| "efa_io_comp_status_val EFA_IO_COMP_STATUS_LOCAL_ERROR_BAD_LENGTH = 6"
| "efa_io_comp_status_val EFA_IO_COMP_STATUS_REMOTE_ERROR_BAD_ADDRESS = 7"
| "efa_io_comp_status_val EFA_IO_COMP_STATUS_REMOTE_ERROR_ABORT = 8"
| "efa_io_comp_status_val EFA_IO_COMP_STATUS_REMOTE_ERROR_BAD_DEST_QPN = 9"
| "efa_io_comp_status_val EFA_IO_COMP_STATUS_REMOTE_ERROR_RNR = 10"
| "efa_io_comp_status_val EFA_IO_COMP_STATUS_REMOTE_ERROR_BAD_LENGTH = 11"
| "efa_io_comp_status_val EFA_IO_COMP_STATUS_REMOTE_ERROR_BAD_STATUS = 12"

section \<open>Masks\<close>

definition EFA_IO_TX_META_DESC_OP_TYPE_MASK :: u32 where
  "EFA_IO_TX_META_DESC_OP_TYPE_MASK = GENMASK 3 0"
definition EFA_IO_TX_META_DESC_HAS_IMM_MASK :: u32 where
  "EFA_IO_TX_META_DESC_HAS_IMM_MASK = BIT 4"
definition EFA_IO_TX_META_DESC_INLINE_MSG_MASK :: u32 where
  "EFA_IO_TX_META_DESC_INLINE_MSG_MASK = BIT 5"
definition EFA_IO_TX_META_DESC_META_EXTENSION_MASK :: u32 where
  "EFA_IO_TX_META_DESC_META_EXTENSION_MASK = BIT 6"
definition EFA_IO_TX_META_DESC_META_DESC_MASK :: u32 where
  "EFA_IO_TX_META_DESC_META_DESC_MASK = BIT 7"
definition EFA_IO_TX_META_DESC_PHASE_MASK :: u32 where
  "EFA_IO_TX_META_DESC_PHASE_MASK = BIT 0"
definition EFA_IO_TX_META_DESC_FIRST_MASK :: u32 where
  "EFA_IO_TX_META_DESC_FIRST_MASK = BIT 2"
definition EFA_IO_TX_META_DESC_LAST_MASK :: u32 where
  "EFA_IO_TX_META_DESC_LAST_MASK = BIT 3"
definition EFA_IO_TX_META_DESC_COMP_REQ_MASK :: u32 where
  "EFA_IO_TX_META_DESC_COMP_REQ_MASK = BIT 4"
definition EFA_IO_TX_BUF_DESC_LKEY_MASK :: u32 where
  "EFA_IO_TX_BUF_DESC_LKEY_MASK = GENMASK 23 0"
definition EFA_IO_RX_DESC_LKEY_MASK :: u32 where
  "EFA_IO_RX_DESC_LKEY_MASK = GENMASK 23 0"
definition EFA_IO_RX_DESC_FIRST_MASK :: u32 where
  "EFA_IO_RX_DESC_FIRST_MASK = BIT 30"
definition EFA_IO_RX_DESC_LAST_MASK :: u32 where
  "EFA_IO_RX_DESC_LAST_MASK = BIT 31"
definition EFA_IO_CDESC_COMMON_PHASE_MASK :: u32 where
  "EFA_IO_CDESC_COMMON_PHASE_MASK = BIT 0"
definition EFA_IO_CDESC_COMMON_Q_TYPE_MASK :: u32 where
  "EFA_IO_CDESC_COMMON_Q_TYPE_MASK = GENMASK 2 1"
definition EFA_IO_CDESC_COMMON_HAS_IMM_MASK :: u32 where
  "EFA_IO_CDESC_COMMON_HAS_IMM_MASK = BIT 3"

text \<open>Every mask is a run of ones: its shift and its width.\<close>

lemma mask_forms:
  "EFA_IO_TX_META_DESC_OP_TYPE_MASK = push_bit 0 (mask 4)"
  "EFA_IO_TX_META_DESC_HAS_IMM_MASK = push_bit 4 (mask 1)"
  "EFA_IO_TX_META_DESC_INLINE_MSG_MASK = push_bit 5 (mask 1)"
  "EFA_IO_TX_META_DESC_META_DESC_MASK = push_bit 7 (mask 1)"
  "EFA_IO_TX_META_DESC_PHASE_MASK = push_bit 0 (mask 1)"
  "EFA_IO_TX_META_DESC_FIRST_MASK = push_bit 2 (mask 1)"
  "EFA_IO_TX_META_DESC_LAST_MASK = push_bit 3 (mask 1)"
  "EFA_IO_TX_META_DESC_COMP_REQ_MASK = push_bit 4 (mask 1)"
  "EFA_IO_TX_BUF_DESC_LKEY_MASK = push_bit 0 (mask 24)"
  "EFA_IO_RX_DESC_LKEY_MASK = push_bit 0 (mask 24)"
  "EFA_IO_RX_DESC_FIRST_MASK = push_bit 30 (mask 1)"
  "EFA_IO_RX_DESC_LAST_MASK = push_bit 31 (mask 1)"
  "EFA_IO_CDESC_COMMON_PHASE_MASK = push_bit 0 (mask 1)"
  "EFA_IO_CDESC_COMMON_Q_TYPE_MASK = push_bit 1 (mask 2)"
  "EFA_IO_CDESC_COMMON_HAS_IMM_MASK = push_bit 3 (mask 1)"
  by (simp_all add: EFA_IO_TX_META_DESC_OP_TYPE_MASK_def EFA_IO_TX_META_DESC_HAS_IMM_MASK_def
      EFA_IO_TX_META_DESC_INLINE_MSG_MASK_def EFA_IO_TX_META_DESC_META_DESC_MASK_def
      EFA_IO_TX_META_DESC_PHASE_MASK_def EFA_IO_TX_META_DESC_FIRST_MASK_def
      EFA_IO_TX_META_DESC_LAST_MASK_def EFA_IO_TX_META_DESC_COMP_REQ_MASK_def
      EFA_IO_TX_BUF_DESC_LKEY_MASK_def EFA_IO_RX_DESC_LKEY_MASK_def
      EFA_IO_RX_DESC_FIRST_MASK_def EFA_IO_RX_DESC_LAST_MASK_def
      EFA_IO_CDESC_COMMON_PHASE_MASK_def EFA_IO_CDESC_COMMON_Q_TYPE_MASK_def
      EFA_IO_CDESC_COMMON_HAS_IMM_MASK_def GENMASK_def BIT_def mask_eq_exp_minus_1)


section \<open>Descriptors\<close>

record efa_io_tx_meta_desc =
  txm_req_id :: u16
  txm_ctrl1 :: u8
  txm_ctrl2 :: u8
  txm_dest_qp_num :: u16
  txm_length :: u16
  txm_immediate_data :: u32
  txm_ah :: u16
  txm_reserved :: u16
  txm_qkey :: u32
  txm_reserved2 :: "u8 list"

record efa_io_tx_buf_desc =
  txb_length :: u32
  txb_lkey :: u32
  txb_buf_addr_lo :: u32
  txb_buf_addr_hi :: u32

record efa_io_remote_mem_addr =
  rma_length :: u32
  rma_rkey :: u32
  rma_buf_addr_lo :: u32
  rma_buf_addr_hi :: u32

text \<open>A send work-queue entry; \<open>wqe_data\<close> is the 32-byte union behind the meta descriptor.\<close>

record efa_io_tx_wqe =
  wqe_meta :: efa_io_tx_meta_desc
  wqe_data :: "u8 list"

record efa_io_rx_desc =
  rxd_buf_addr_lo :: u32
  rxd_buf_addr_hi :: u32
  rxd_req_id :: u16
  rxd_length :: u16
  rxd_lkey_ctrl :: u32

record efa_io_cdesc_common =
  cd_req_id :: u16
  cd_status :: u8
  cd_flags :: u8
  cd_qp_num :: u16
  cd_length :: u16

record efa_io_rx_cdesc =
  rcd_common :: efa_io_cdesc_common
  rcd_ah :: u16
  rcd_src_qp_num :: u16
  rcd_imm :: u32

text \<open>The all-zero objects that \<open>memset\<close> and \<open>= {0}\<close> produce.\<close>

definition zero_tx_meta_desc :: efa_io_tx_meta_desc where
  "zero_tx_meta_desc = \<lparr>txm_req_id = 0, txm_ctrl1 = 0, txm_ctrl2 = 0, txm_dest_qp_num = 0,
     txm_length = 0, txm_immediate_data = 0, txm_ah = 0, txm_reserved = 0, txm_qkey = 0,
     txm_reserved2 = replicate 12 0\<rparr>"

definition zero_tx_wqe :: efa_io_tx_wqe where
  "zero_tx_wqe = \<lparr>wqe_meta = zero_tx_meta_desc, wqe_data = replicate 32 0\<rparr>"

definition zero_rx_desc :: efa_io_rx_desc where
  "zero_rx_desc = \<lparr>rxd_buf_addr_lo = 0, rxd_buf_addr_hi = 0, rxd_req_id = 0, rxd_length = 0,
     rxd_lkey_ctrl = 0\<rparr>"

text \<open>The structures' well-formedness: their arrays have the C length.\<close>

definition wf_tx_meta :: "efa_io_tx_meta_desc \<Rightarrow> bool" where
  "wf_tx_meta m \<longleftrightarrow> length (txm_reserved2 m) = 12"

definition wf_tx_wqe :: "efa_io_tx_wqe \<Rightarrow> bool" where
  "wf_tx_wqe w \<longleftrightarrow> wf_tx_meta (wqe_meta w) \<and> length (wqe_data w) = 32"

lemma wf_zero_tx_wqe [simp]: "wf_tx_wqe zero_tx_wqe"
  by (simp add: wf_tx_wqe_def wf_tx_meta_def zero_tx_wqe_def zero_tx_meta_desc_def)

section \<open>Layout in memory\<close>

definition tx_meta_bytes :: "efa_io_tx_meta_desc \<Rightarrow> u8 list" where
  "tx_meta_bytes m =
     le_bytes 2 (txm_req_id m) @ le_bytes 1 (txm_ctrl1 m) @ le_bytes 1 (txm_ctrl2 m) @
     le_bytes 2 (txm_dest_qp_num m) @ le_bytes 2 (txm_length m) @
     le_bytes 4 (txm_immediate_data m) @ le_bytes 2 (txm_ah m) @ le_bytes 2 (txm_reserved m) @
     le_bytes 4 (txm_qkey m) @ txm_reserved2 m"

definition tx_wqe_bytes :: "efa_io_tx_wqe \<Rightarrow> u8 list" where
  "tx_wqe_bytes w = tx_meta_bytes (wqe_meta w) @ wqe_data w"

definition tx_buf_bytes :: "efa_io_tx_buf_desc \<Rightarrow> u8 list" where
  "tx_buf_bytes b = le_bytes 4 (txb_length b) @ le_bytes 4 (txb_lkey b) @
     le_bytes 4 (txb_buf_addr_lo b) @ le_bytes 4 (txb_buf_addr_hi b)"

definition remote_mem_bytes :: "efa_io_remote_mem_addr \<Rightarrow> u8 list" where
  "remote_mem_bytes r = le_bytes 4 (rma_length r) @ le_bytes 4 (rma_rkey r) @
     le_bytes 4 (rma_buf_addr_lo r) @ le_bytes 4 (rma_buf_addr_hi r)"

definition rx_desc_bytes :: "efa_io_rx_desc \<Rightarrow> u8 list" where
  "rx_desc_bytes d = le_bytes 4 (rxd_buf_addr_lo d) @ le_bytes 4 (rxd_buf_addr_hi d) @
     le_bytes 2 (rxd_req_id d) @ le_bytes 2 (rxd_length d) @ le_bytes 4 (rxd_lkey_ctrl d)"

definition cdesc_common_bytes :: "efa_io_cdesc_common \<Rightarrow> u8 list" where
  "cdesc_common_bytes c = le_bytes 2 (cd_req_id c) @ le_bytes 1 (cd_status c) @
     le_bytes 1 (cd_flags c) @ le_bytes 2 (cd_qp_num c) @ le_bytes 2 (cd_length c)"

definition rx_cdesc_bytes :: "efa_io_rx_cdesc \<Rightarrow> u8 list" where
  "rx_cdesc_bytes c = cdesc_common_bytes (rcd_common c) @ le_bytes 2 (rcd_ah c) @
     le_bytes 2 (rcd_src_qp_num c) @ le_bytes 4 (rcd_imm c)"

text \<open>The fields of a descriptor read back from its bytes.\<close>

definition tx_meta_of_bytes :: "u8 list \<Rightarrow> efa_io_tx_meta_desc" where
  "tx_meta_of_bytes bs = \<lparr>
     txm_req_id = le_word (take 2 bs), txm_ctrl1 = le_word (take 1 (drop 2 bs)),
     txm_ctrl2 = le_word (take 1 (drop 3 bs)), txm_dest_qp_num = le_word (take 2 (drop 4 bs)),
     txm_length = le_word (take 2 (drop 6 bs)),
     txm_immediate_data = le_word (take 4 (drop 8 bs)),
     txm_ah = le_word (take 2 (drop 12 bs)), txm_reserved = le_word (take 2 (drop 14 bs)),
     txm_qkey = le_word (take 4 (drop 16 bs)), txm_reserved2 = take 12 (drop 20 bs)\<rparr>"

definition tx_wqe_of_bytes :: "u8 list \<Rightarrow> efa_io_tx_wqe" where
  "tx_wqe_of_bytes bs = \<lparr>wqe_meta = tx_meta_of_bytes bs, wqe_data = take 32 (drop 32 bs)\<rparr>"

definition rx_desc_of_bytes :: "u8 list \<Rightarrow> efa_io_rx_desc" where
  "rx_desc_of_bytes bs = \<lparr>
     rxd_buf_addr_lo = le_word (take 4 bs), rxd_buf_addr_hi = le_word (take 4 (drop 4 bs)),
     rxd_req_id = le_word (take 2 (drop 8 bs)), rxd_length = le_word (take 2 (drop 10 bs)),
     rxd_lkey_ctrl = le_word (take 4 (drop 12 bs))\<rparr>"

definition cdesc_common_of_bytes :: "u8 list \<Rightarrow> efa_io_cdesc_common" where
  "cdesc_common_of_bytes bs = \<lparr>
     cd_req_id = le_word (take 2 bs), cd_status = le_word (take 1 (drop 2 bs)),
     cd_flags = le_word (take 1 (drop 3 bs)), cd_qp_num = le_word (take 2 (drop 4 bs)),
     cd_length = le_word (take 2 (drop 6 bs))\<rparr>"

definition rx_cdesc_of_bytes :: "u8 list \<Rightarrow> efa_io_rx_cdesc" where
  "rx_cdesc_of_bytes bs = \<lparr>
     rcd_common = cdesc_common_of_bytes bs, rcd_ah = le_word (take 2 (drop 8 bs)),
     rcd_src_qp_num = le_word (take 2 (drop 10 bs)), rcd_imm = le_word (take 4 (drop 12 bs))\<rparr>"

lemma length_descriptor_bytes [simp, layout_simps]:
  "length (tx_buf_bytes b) = 16" "length (remote_mem_bytes r) = 16"
  "length (rx_desc_bytes d) = 16" "length (cdesc_common_bytes c) = 8"
  "length (rx_cdesc_bytes rc) = 16"
  by (simp_all add: tx_buf_bytes_def remote_mem_bytes_def rx_desc_bytes_def
      cdesc_common_bytes_def rx_cdesc_bytes_def)

lemma length_tx_meta_bytes: "wf_tx_meta m \<Longrightarrow> length (tx_meta_bytes m) = 32"
  by (simp add: tx_meta_bytes_def wf_tx_meta_def)

lemma length_tx_wqe_bytes: "wf_tx_wqe w \<Longrightarrow> length (tx_wqe_bytes w) = 64"
  by (simp add: tx_wqe_bytes_def wf_tx_wqe_def length_tx_meta_bytes)

lemma tx_meta_of_bytes_append:
  assumes "wf_tx_meta m"
  shows "tx_meta_of_bytes (tx_meta_bytes m @ rest) = m"
  using assms
  by (simp add: tx_meta_of_bytes_def tx_meta_bytes_def wf_tx_meta_def le_word_le_bytes)

text \<open>
  The 64 bytes that describe a send work-queue entry determine every field of it: a
  device that reads the documented offsets recovers the meta descriptor and the union.
\<close>

theorem tx_wqe_roundtrip:
  assumes "wf_tx_wqe w"
  shows "length (tx_wqe_bytes w) = 64 \<and> tx_wqe_of_bytes (tx_wqe_bytes w) = w"
  using assms
  by (simp add: tx_wqe_of_bytes_def tx_wqe_bytes_def tx_meta_of_bytes_append wf_tx_wqe_def
      length_tx_meta_bytes)

theorem tx_wqe_roundtrip_witness:
  "wf_tx_wqe zero_tx_wqe \<and> tx_wqe_of_bytes (tx_wqe_bytes zero_tx_wqe) = zero_tx_wqe"
  using tx_wqe_roundtrip [OF wf_zero_tx_wqe] by simp

text \<open>
  Receive descriptors and completion descriptors are determined by their bytes, too.
\<close>

theorem rx_desc_cdesc_roundtrip:
  "rx_desc_of_bytes (rx_desc_bytes d) = d \<and> rx_cdesc_of_bytes (rx_cdesc_bytes c @ rest) = c"
  by (simp add: rx_desc_of_bytes_def rx_desc_bytes_def rx_cdesc_of_bytes_def rx_cdesc_bytes_def
      cdesc_common_of_bytes_def cdesc_common_bytes_def le_word_le_bytes)


section \<open>The register fields\<close>

lemma reg_field_mask:
  assumes "LENGTH('r::len) \<le> 32" and "0 < n" and "s + n \<le> LENGTH('r)"
  shows "reg_field (\<lambda>w :: 'r word. EFA_GET w (push_bit s (mask n)))
                   (\<lambda>w. EFA_SET w (push_bit s (mask n))) n"
proof (unfold_locales)
  show "n \<le> 32" using assms by simp
qed (rule EFA_GET_SET_same [OF assms] EFA_SET_SET_same [OF assms(1)] assms(2))+

lemma reg_field_pair_mask:
  assumes "LENGTH('r::len) \<le> 32" and "0 < n" and "s + n \<le> LENGTH('r)"
    and "0 < n'" and "s' + n' \<le> LENGTH('r)" and "s + n \<le> s' \<or> s' + n' \<le> s"
  shows "reg_field_pair (\<lambda>w :: 'r word. EFA_GET w (push_bit s (mask n)))
                        (\<lambda>w. EFA_SET w (push_bit s (mask n))) n
                        (\<lambda>w. EFA_GET w (push_bit s' (mask n')))
                        (\<lambda>w. EFA_SET w (push_bit s' (mask n'))) n'"
proof -
  have le: "s + n \<le> 32" "s' + n' \<le> 32" using assms by auto
  show ?thesis
    unfolding reg_field_pair_def reg_field_pair_axioms_def
    using assms le
    by (intro conjI allI reg_field_mask EFA_GET_SET_other EFA_SET_commute) auto
qed

text \<open>
  Every pair of fields that share a register meets the pair contract: writing one leaves the
  other, and the writes commute.
\<close>

interpretation tx_lkey: reg_field "\<lambda>w :: u32. EFA_GET w EFA_IO_TX_BUF_DESC_LKEY_MASK"
    "\<lambda>w. EFA_SET w EFA_IO_TX_BUF_DESC_LKEY_MASK" 24
  unfolding mask_forms by (rule reg_field_mask) simp_all

interpretation op_type_has_imm: reg_field_pair "\<lambda>w :: u8. EFA_GET w EFA_IO_TX_META_DESC_OP_TYPE_MASK"
    "\<lambda>w. EFA_SET w EFA_IO_TX_META_DESC_OP_TYPE_MASK" 4 "\<lambda>w. EFA_GET w EFA_IO_TX_META_DESC_HAS_IMM_MASK" "\<lambda>w. EFA_SET w EFA_IO_TX_META_DESC_HAS_IMM_MASK" 1
  unfolding mask_forms by (rule reg_field_pair_mask) simp_all

interpretation op_type_inline_msg: reg_field_pair "\<lambda>w :: u8. EFA_GET w EFA_IO_TX_META_DESC_OP_TYPE_MASK"
    "\<lambda>w. EFA_SET w EFA_IO_TX_META_DESC_OP_TYPE_MASK" 4 "\<lambda>w. EFA_GET w EFA_IO_TX_META_DESC_INLINE_MSG_MASK" "\<lambda>w. EFA_SET w EFA_IO_TX_META_DESC_INLINE_MSG_MASK" 1
  unfolding mask_forms by (rule reg_field_pair_mask) simp_all

interpretation op_type_meta_desc: reg_field_pair "\<lambda>w :: u8. EFA_GET w EFA_IO_TX_META_DESC_OP_TYPE_MASK"
    "\<lambda>w. EFA_SET w EFA_IO_TX_META_DESC_OP_TYPE_MASK" 4 "\<lambda>w. EFA_GET w EFA_IO_TX_META_DESC_META_DESC_MASK" "\<lambda>w. EFA_SET w EFA_IO_TX_META_DESC_META_DESC_MASK" 1
  unfolding mask_forms by (rule reg_field_pair_mask) simp_all

interpretation has_imm_inline_msg: reg_field_pair "\<lambda>w :: u8. EFA_GET w EFA_IO_TX_META_DESC_HAS_IMM_MASK"
    "\<lambda>w. EFA_SET w EFA_IO_TX_META_DESC_HAS_IMM_MASK" 1 "\<lambda>w. EFA_GET w EFA_IO_TX_META_DESC_INLINE_MSG_MASK" "\<lambda>w. EFA_SET w EFA_IO_TX_META_DESC_INLINE_MSG_MASK" 1
  unfolding mask_forms by (rule reg_field_pair_mask) simp_all

interpretation has_imm_meta_desc: reg_field_pair "\<lambda>w :: u8. EFA_GET w EFA_IO_TX_META_DESC_HAS_IMM_MASK"
    "\<lambda>w. EFA_SET w EFA_IO_TX_META_DESC_HAS_IMM_MASK" 1 "\<lambda>w. EFA_GET w EFA_IO_TX_META_DESC_META_DESC_MASK" "\<lambda>w. EFA_SET w EFA_IO_TX_META_DESC_META_DESC_MASK" 1
  unfolding mask_forms by (rule reg_field_pair_mask) simp_all

interpretation inline_msg_meta_desc: reg_field_pair "\<lambda>w :: u8. EFA_GET w EFA_IO_TX_META_DESC_INLINE_MSG_MASK"
    "\<lambda>w. EFA_SET w EFA_IO_TX_META_DESC_INLINE_MSG_MASK" 1 "\<lambda>w. EFA_GET w EFA_IO_TX_META_DESC_META_DESC_MASK" "\<lambda>w. EFA_SET w EFA_IO_TX_META_DESC_META_DESC_MASK" 1
  unfolding mask_forms by (rule reg_field_pair_mask) simp_all

interpretation tx_phase_tx_first: reg_field_pair "\<lambda>w :: u8. EFA_GET w EFA_IO_TX_META_DESC_PHASE_MASK"
    "\<lambda>w. EFA_SET w EFA_IO_TX_META_DESC_PHASE_MASK" 1 "\<lambda>w. EFA_GET w EFA_IO_TX_META_DESC_FIRST_MASK" "\<lambda>w. EFA_SET w EFA_IO_TX_META_DESC_FIRST_MASK" 1
  unfolding mask_forms by (rule reg_field_pair_mask) simp_all

interpretation tx_phase_tx_last: reg_field_pair "\<lambda>w :: u8. EFA_GET w EFA_IO_TX_META_DESC_PHASE_MASK"
    "\<lambda>w. EFA_SET w EFA_IO_TX_META_DESC_PHASE_MASK" 1 "\<lambda>w. EFA_GET w EFA_IO_TX_META_DESC_LAST_MASK" "\<lambda>w. EFA_SET w EFA_IO_TX_META_DESC_LAST_MASK" 1
  unfolding mask_forms by (rule reg_field_pair_mask) simp_all

interpretation tx_phase_comp_req: reg_field_pair "\<lambda>w :: u8. EFA_GET w EFA_IO_TX_META_DESC_PHASE_MASK"
    "\<lambda>w. EFA_SET w EFA_IO_TX_META_DESC_PHASE_MASK" 1 "\<lambda>w. EFA_GET w EFA_IO_TX_META_DESC_COMP_REQ_MASK" "\<lambda>w. EFA_SET w EFA_IO_TX_META_DESC_COMP_REQ_MASK" 1
  unfolding mask_forms by (rule reg_field_pair_mask) simp_all

interpretation tx_first_tx_last: reg_field_pair "\<lambda>w :: u8. EFA_GET w EFA_IO_TX_META_DESC_FIRST_MASK"
    "\<lambda>w. EFA_SET w EFA_IO_TX_META_DESC_FIRST_MASK" 1 "\<lambda>w. EFA_GET w EFA_IO_TX_META_DESC_LAST_MASK" "\<lambda>w. EFA_SET w EFA_IO_TX_META_DESC_LAST_MASK" 1
  unfolding mask_forms by (rule reg_field_pair_mask) simp_all

interpretation tx_first_comp_req: reg_field_pair "\<lambda>w :: u8. EFA_GET w EFA_IO_TX_META_DESC_FIRST_MASK"
    "\<lambda>w. EFA_SET w EFA_IO_TX_META_DESC_FIRST_MASK" 1 "\<lambda>w. EFA_GET w EFA_IO_TX_META_DESC_COMP_REQ_MASK" "\<lambda>w. EFA_SET w EFA_IO_TX_META_DESC_COMP_REQ_MASK" 1
  unfolding mask_forms by (rule reg_field_pair_mask) simp_all

interpretation tx_last_comp_req: reg_field_pair "\<lambda>w :: u8. EFA_GET w EFA_IO_TX_META_DESC_LAST_MASK"
    "\<lambda>w. EFA_SET w EFA_IO_TX_META_DESC_LAST_MASK" 1 "\<lambda>w. EFA_GET w EFA_IO_TX_META_DESC_COMP_REQ_MASK" "\<lambda>w. EFA_SET w EFA_IO_TX_META_DESC_COMP_REQ_MASK" 1
  unfolding mask_forms by (rule reg_field_pair_mask) simp_all

interpretation rx_lkey_rx_first: reg_field_pair "\<lambda>w :: u32. EFA_GET w EFA_IO_RX_DESC_LKEY_MASK"
    "\<lambda>w. EFA_SET w EFA_IO_RX_DESC_LKEY_MASK" 24 "\<lambda>w. EFA_GET w EFA_IO_RX_DESC_FIRST_MASK" "\<lambda>w. EFA_SET w EFA_IO_RX_DESC_FIRST_MASK" 1
  unfolding mask_forms by (rule reg_field_pair_mask) simp_all

interpretation rx_lkey_rx_last: reg_field_pair "\<lambda>w :: u32. EFA_GET w EFA_IO_RX_DESC_LKEY_MASK"
    "\<lambda>w. EFA_SET w EFA_IO_RX_DESC_LKEY_MASK" 24 "\<lambda>w. EFA_GET w EFA_IO_RX_DESC_LAST_MASK" "\<lambda>w. EFA_SET w EFA_IO_RX_DESC_LAST_MASK" 1
  unfolding mask_forms by (rule reg_field_pair_mask) simp_all

interpretation rx_first_rx_last: reg_field_pair "\<lambda>w :: u32. EFA_GET w EFA_IO_RX_DESC_FIRST_MASK"
    "\<lambda>w. EFA_SET w EFA_IO_RX_DESC_FIRST_MASK" 1 "\<lambda>w. EFA_GET w EFA_IO_RX_DESC_LAST_MASK" "\<lambda>w. EFA_SET w EFA_IO_RX_DESC_LAST_MASK" 1
  unfolding mask_forms by (rule reg_field_pair_mask) simp_all

interpretation cd_phase_cd_q_type: reg_field_pair "\<lambda>w :: u8. EFA_GET w EFA_IO_CDESC_COMMON_PHASE_MASK"
    "\<lambda>w. EFA_SET w EFA_IO_CDESC_COMMON_PHASE_MASK" 1 "\<lambda>w. EFA_GET w EFA_IO_CDESC_COMMON_Q_TYPE_MASK" "\<lambda>w. EFA_SET w EFA_IO_CDESC_COMMON_Q_TYPE_MASK" 2
  unfolding mask_forms by (rule reg_field_pair_mask) simp_all

interpretation cd_phase_cd_has_imm: reg_field_pair "\<lambda>w :: u8. EFA_GET w EFA_IO_CDESC_COMMON_PHASE_MASK"
    "\<lambda>w. EFA_SET w EFA_IO_CDESC_COMMON_PHASE_MASK" 1 "\<lambda>w. EFA_GET w EFA_IO_CDESC_COMMON_HAS_IMM_MASK" "\<lambda>w. EFA_SET w EFA_IO_CDESC_COMMON_HAS_IMM_MASK" 1
  unfolding mask_forms by (rule reg_field_pair_mask) simp_all

interpretation cd_q_type_cd_has_imm: reg_field_pair "\<lambda>w :: u8. EFA_GET w EFA_IO_CDESC_COMMON_Q_TYPE_MASK"
    "\<lambda>w. EFA_SET w EFA_IO_CDESC_COMMON_Q_TYPE_MASK" 2 "\<lambda>w. EFA_GET w EFA_IO_CDESC_COMMON_HAS_IMM_MASK" "\<lambda>w. EFA_SET w EFA_IO_CDESC_COMMON_HAS_IMM_MASK" 1
  unfolding mask_forms by (rule reg_field_pair_mask) simp_all

lemmas ctrl1_fields =
  op_type_has_imm.a.get_set op_type_has_imm.b.get_set op_type_inline_msg.b.get_set
  op_type_meta_desc.b.get_set op_type_has_imm.get_a_set_b op_type_has_imm.get_b_set_a
  op_type_inline_msg.get_a_set_b op_type_inline_msg.get_b_set_a
  op_type_meta_desc.get_a_set_b op_type_meta_desc.get_b_set_a has_imm_inline_msg.get_a_set_b
  has_imm_inline_msg.get_b_set_a has_imm_meta_desc.get_a_set_b has_imm_meta_desc.get_b_set_a
  inline_msg_meta_desc.get_a_set_b inline_msg_meta_desc.get_b_set_a

lemmas ctrl2_fields =
  tx_phase_tx_first.a.get_set tx_phase_tx_first.b.get_set tx_phase_tx_last.b.get_set
  tx_phase_comp_req.b.get_set tx_phase_tx_first.get_a_set_b tx_phase_tx_first.get_b_set_a
  tx_phase_tx_last.get_a_set_b tx_phase_tx_last.get_b_set_a tx_phase_comp_req.get_a_set_b
  tx_phase_comp_req.get_b_set_a tx_first_tx_last.get_a_set_b tx_first_tx_last.get_b_set_a
  tx_first_comp_req.get_a_set_b tx_first_comp_req.get_b_set_a tx_last_comp_req.get_a_set_b
  tx_last_comp_req.get_b_set_a

lemmas lkey_ctrl_fields =
  rx_lkey_rx_first.a.get_set rx_lkey_rx_first.b.get_set rx_lkey_rx_last.b.get_set
  rx_lkey_rx_first.get_a_set_b rx_lkey_rx_first.get_b_set_a rx_lkey_rx_last.get_a_set_b
  rx_lkey_rx_last.get_b_set_a rx_first_rx_last.get_a_set_b rx_first_rx_last.get_b_set_a

lemmas cdesc_flag_fields =
  cd_phase_cd_q_type.a.get_set cd_phase_cd_q_type.b.get_set cd_phase_cd_has_imm.b.get_set
  cd_phase_cd_q_type.get_a_set_b cd_phase_cd_q_type.get_b_set_a
  cd_phase_cd_has_imm.get_a_set_b cd_phase_cd_has_imm.get_b_set_a
  cd_q_type_cd_has_imm.get_a_set_b cd_q_type_cd_has_imm.get_b_set_a

end
