(* ===== verification/Efa_Mmio.thy ===== *)
theory Efa_Mmio
  imports Efa_Io_Defs
begin

text \<open>
  \<open>include/win-mmio.h\<close>, \<open>util/udma_barrier.h\<close> and the locks of \<open>include/pthread.h\<close>. What the
  device can observe is a trace of events in program order: 64-bit and 32-bit register
  writes, copies into the receive ring in host memory, and memory barriers.

  A \<open>CRITICAL_SECTION\<close> is recursive: its state, as the calling thread sees it, is how many
  times that thread has entered it. Leaving one that is not held is undefined.
\<close>

section \<open>Locks\<close>

type_synonym lock = nat

definition pthread_spin_lock :: "lock \<Rightarrow> lock" where
  "pthread_spin_lock l = Suc l"

definition pthread_spin_unlock :: "lock \<Rightarrow> lock option" where
  "pthread_spin_unlock l = (case l of 0 \<Rightarrow> None | Suc n \<Rightarrow> Some n)"

lemma spin_unlock_lock [simp, ub_simps]: "pthread_spin_unlock (pthread_spin_lock l) = Some l"
  by (simp add: pthread_spin_unlock_def pthread_spin_lock_def)

lemma spin_unlock_Suc [simp]: "pthread_spin_unlock (Suc l) = Some l"
  by (simp add: pthread_spin_unlock_def)

section \<open>Device-visible events\<close>

datatype dev_event =
    Wr64 u64 u64
  | Wr32 u64 u32
  | Host_copy u64 "u8 list"
  | Fence

type_synonym trace = "dev_event list"

definition mmio_write32 :: "u64 \<Rightarrow> u32 \<Rightarrow> trace \<Rightarrow> trace" where
  "mmio_write32 addr v tr = tr @ [Wr32 addr v]"

definition mmio_write64 :: "u64 \<Rightarrow> u64 \<Rightarrow> trace \<Rightarrow> trace" where
  "mmio_write64 addr v tr = tr @ [Wr64 addr v]"

definition mmio_flush_writes :: "trace \<Rightarrow> trace" where
  "mmio_flush_writes tr = tr @ [Fence]"

definition mmio_wc_start :: "trace \<Rightarrow> trace" where
  "mmio_wc_start tr = mmio_flush_writes tr"

definition udma_to_device_barrier :: "trace \<Rightarrow> trace" where
  "udma_to_device_barrier tr = tr @ [Fence]"

definition mmio_wc_spinlock :: "lock \<Rightarrow> trace \<Rightarrow> lock \<times> trace" where
  "mmio_wc_spinlock l tr = (pthread_spin_lock l, mmio_wc_start tr)"

definition mmio_wc_spinunlock :: "lock \<Rightarrow> trace \<Rightarrow> (lock \<times> trace) option" where
  "mmio_wc_spinunlock l tr =
     map_option (\<lambda>l'. (l', mmio_flush_writes tr)) (pthread_spin_unlock l)"

section \<open>The 64-byte copy\<close>

text \<open>
  The native word has 8 bytes, so the first branch of \<open>mmio_memcpy_x64\<close> is the one compiled:
  a do-while loop that writes eight 64-bit words per round. \<open>src\<close> is what is left of the
  source object, in 64-bit words; reading beyond it is undefined. \<open>bytecnt\<close> wraps.
\<close>

fun mmio_memcpy_x64 :: "u64 \<Rightarrow> u64 list \<Rightarrow> u64 \<Rightarrow> trace \<Rightarrow> trace option" where
  "mmio_memcpy_x64 dst_p src_p bytecnt tr =
     (if length src_p < 8 then None
      else
        let tr1 = mmio_write64 dst_p (src_p ! 0) tr;
            tr2 = mmio_write64 (dst_p + 8) (src_p ! 1) tr1;
            tr3 = mmio_write64 (dst_p + 16) (src_p ! 2) tr2;
            tr4 = mmio_write64 (dst_p + 24) (src_p ! 3) tr3;
            tr5 = mmio_write64 (dst_p + 32) (src_p ! 4) tr4;
            tr6 = mmio_write64 (dst_p + 40) (src_p ! 5) tr5;
            tr7 = mmio_write64 (dst_p + 48) (src_p ! 6) tr6;
            tr8 = mmio_write64 (dst_p + 56) (src_p ! 7) tr7;
            bytecnt' = bytecnt - 64
        in if bytecnt' > 0 then mmio_memcpy_x64 (dst_p + 64) (drop 8 src_p) bytecnt' tr8
           else Some tr8)"

declare mmio_memcpy_x64.simps [simp del]

text \<open>The specification: consecutive 64-bit writes.\<close>

primrec qword_writes :: "u64 \<Rightarrow> u64 list \<Rightarrow> trace" where
  "qword_writes a [] = []"
| "qword_writes a (q # qs) = Wr64 a q # qword_writes (a + 8) qs"

lemma qword_writes_append:
  "qword_writes a (xs @ ys) = qword_writes a xs @ qword_writes (a + 8 * of_nat (length xs)) ys"
  by (induction xs arbitrary: a) (simp_all add: algebra_simps)

lemma take_8_nth:
  assumes "8 \<le> length xs"
  shows "take 8 xs = [xs ! 0, xs ! 1, xs ! 2, xs ! 3, xs ! 4, xs ! 5, xs ! 6, xs ! 7]"
  by (rule nth_equalityI)
    (use assms in \<open>auto simp: nth_Cons' less_Suc_eq numeral_eq_Suc\<close>)

lemma mmio_memcpy_x64_round:
  assumes "8 \<le> length src"
  shows "mmio_memcpy_x64 dst src bytecnt tr =
     (if bytecnt - 64 > 0
      then mmio_memcpy_x64 (dst + 64) (drop 8 src) (bytecnt - 64) (tr @ qword_writes dst (take 8 src))
      else Some (tr @ qword_writes dst (take 8 src)))"
proof -
  have "qword_writes dst (take 8 src) =
      [Wr64 dst (src ! 0), Wr64 (dst + 8) (src ! 1), Wr64 (dst + 16) (src ! 2),
       Wr64 (dst + 24) (src ! 3), Wr64 (dst + 32) (src ! 4), Wr64 (dst + 40) (src ! 5),
       Wr64 (dst + 48) (src ! 6), Wr64 (dst + 56) (src ! 7)]"
    by (simp add: take_8_nth [OF assms] add.assoc)
  then show ?thesis using assms
    by (subst mmio_memcpy_x64.simps) (simp add: Let_def mmio_write64_def)
qed

lemma blocks_pos:
  assumes "1 \<le> n" and "n < 2 ^ 58"
  shows "(of_nat (64 * n) :: u64) > 0"
proof -
  have "unat (of_nat (64 * n) :: u64) = take_bit 64 (64 * n)"
    by (simp only: unsigned_of_nat) simp
  then have "unat (of_nat (64 * n) :: u64) = 64 * n"
    using assms(2) by (simp add: take_bit_nat_eq_self)
  then show ?thesis using assms(1) by (simp only: word_less_nat_alt) simp
qed

lemma blocks_step: "(of_nat (64 * Suc n) :: u64) - 64 = of_nat (64 * n)"
  by simp

lemma mmio_memcpy_x64_blocks:
  assumes "1 \<le> n" and "8 * n \<le> length src" and "n < 2 ^ 58"
  shows "mmio_memcpy_x64 dst src (of_nat (64 * n)) tr = Some (tr @ qword_writes dst (take (8 * n) src))"
  using assms
proof (induction n arbitrary: dst src tr)
  case 0
  then show ?case by simp
next
  case (Suc n)
  have len: "8 \<le> length src" using Suc.prems(2) by simp
  show ?case
  proof (cases "n = 0")
    case True
    then show ?thesis by (simp add: mmio_memcpy_x64_round [OF len])
  next
    case False
    have pos: "(of_nat (64 * n) :: u64) > 0" by (rule blocks_pos) (use False Suc.prems in auto)
    have "mmio_memcpy_x64 dst src (of_nat (64 * Suc n)) tr =
        mmio_memcpy_x64 (dst + 64) (drop 8 src) (of_nat (64 * n)) (tr @ qword_writes dst (take 8 src))"
      by (simp only: mmio_memcpy_x64_round [OF len] blocks_step pos if_True)
    also have "\<dots> = Some ((tr @ qword_writes dst (take 8 src)) @
        qword_writes (dst + 64) (take (8 * n) (drop 8 src)))"
      by (rule Suc.IH) (use False Suc.prems in auto)
    also have "(tr @ qword_writes dst (take 8 src)) @
        qword_writes (dst + 64) (take (8 * n) (drop 8 src))
        = tr @ qword_writes dst (take (8 * Suc n) src)"
      using len by (simp add: take_add [of 8 "8 * n"] qword_writes_append min_absorb2)
    finally show ?thesis .
  qed
qed

text \<open>A copy longer than its source runs off the end of it.\<close>

lemma mmio_memcpy_x64_short:
  assumes "length src < 8 * n" and "n \<le> 2 ^ 58"
  shows "mmio_memcpy_x64 dst src (of_nat (64 * n)) tr = None"
  using assms
proof (induction n arbitrary: dst src tr)
  case 0
  then show ?case by simp
next
  case (Suc n)
  show ?case
  proof (cases "length src < 8")
    case True
    then show ?thesis by (simp add: mmio_memcpy_x64.simps)
  next
    case False
    then have len: "8 \<le> length src" by simp
    then have n: "1 \<le> n" using Suc.prems(1) by (cases n) auto
    have pos: "(of_nat (64 * n) :: u64) > 0" by (rule blocks_pos) (use n Suc.prems in auto)
    have "mmio_memcpy_x64 dst src (of_nat (64 * Suc n)) tr =
        mmio_memcpy_x64 (dst + 64) (drop 8 src) (of_nat (64 * n)) (tr @ qword_writes dst (take 8 src))"
      by (simp only: mmio_memcpy_x64_round [OF len] blocks_step pos if_True)
    also have "\<dots> = None" by (rule Suc.IH) (use Suc.prems len in auto)
    finally show ?thesis .
  qed
qed

text \<open>A byte count of 0 is not a no-op: the body runs before the test and the count wraps.\<close>

lemma mmio_memcpy_x64_zero:
  assumes "length src < 2 ^ 61"
  shows "mmio_memcpy_x64 dst src 0 tr = None"
proof -
  have z: "(of_nat (64 * 2 ^ 58) :: u64) = 0"
    by (simp only: word_of_nat_eq_0_iff) simp
  have "length src < 8 * 2 ^ 58" using assms by simp
  from mmio_memcpy_x64_short [OF this order_refl, of dst tr] show ?thesis
    by (simp only: z)
qed

section \<open>Bytes as 64-bit words\<close>

fun qwords_of :: "u8 list \<Rightarrow> u64 list" where
  "qwords_of bs = (if length bs < 8 then [] else le_word (take 8 bs) # qwords_of (drop 8 bs))"

declare qwords_of.simps [simp del]

definition bytes_of_qwords :: "u64 list \<Rightarrow> u8 list" where
  "bytes_of_qwords qs = concat (map (le_bytes 8) qs)"

lemma qwords_of_Nil [simp]: "qwords_of [] = []"
  by (simp add: qwords_of.simps)

lemma qwords_of_step: "8 \<le> length bs \<Longrightarrow> qwords_of bs = le_word (take 8 bs) # qwords_of (drop 8 bs)"
  by (subst qwords_of.simps) simp

lemma qwords_of_append:
  assumes "length xs = 8 * n"
  shows "qwords_of (xs @ ys) = qwords_of xs @ qwords_of ys"
  using assms
proof (induction n arbitrary: xs)
  case 0
  then show ?case by simp
next
  case (Suc n)
  then have "8 \<le> length xs" "length (drop 8 xs) = 8 * n" by simp_all
  then show ?case using Suc.IH [of "drop 8 xs"] by (simp add: qwords_of_step)
qed

lemma length_qwords_of: "length bs = 8 * n \<Longrightarrow> length (qwords_of bs) = n"
proof (induction n arbitrary: bs)
  case 0
  then show ?case by simp
next
  case (Suc n)
  then show ?case by (simp add: qwords_of_step)
qed

lemma bytes_of_qwords_of: "length bs = 8 * n \<Longrightarrow> bytes_of_qwords (qwords_of bs) = bs"
proof (induction n arbitrary: bs)
  case 0
  then show ?case by (simp add: bytes_of_qwords_def)
next
  case (Suc n)
  then have "8 \<le> length bs" "bytes_of_qwords (qwords_of (drop 8 bs)) = drop 8 bs" by simp_all
  then show ?case
    by (simp add: qwords_of_step bytes_of_qwords_def le_bytes_le_word)
qed

text \<open>The events that place one send work-queue entry at an address.\<close>

definition wqe_writes :: "u64 \<Rightarrow> efa_io_tx_wqe \<Rightarrow> trace" where
  "wqe_writes a w = qword_writes a (qwords_of (tx_wqe_bytes w))"

lemma length_qwords_tx_wqe: "wf_tx_wqe w \<Longrightarrow> length (qwords_of (tx_wqe_bytes w)) = 8"
  by (rule length_qwords_of) (simp add: length_tx_wqe_bytes)

lemma memcpy_tx_wqe:
  assumes "wf_tx_wqe w"
  shows "mmio_memcpy_x64 dst (qwords_of (tx_wqe_bytes w)) 64 tr = Some (tr @ wqe_writes dst w)"
  using mmio_memcpy_x64_blocks [of 1 "qwords_of (tx_wqe_bytes w)" dst tr]
  by (simp add: length_qwords_tx_wqe [OF assms] wqe_writes_def)

primrec wqes_writes :: "u64 \<Rightarrow> efa_io_tx_wqe list \<Rightarrow> trace" where
  "wqes_writes a [] = []"
| "wqes_writes a (w # ws) = wqe_writes a w @ wqes_writes (a + 64) ws"

definition wqes_qwords :: "efa_io_tx_wqe list \<Rightarrow> u64 list" where
  "wqes_qwords ws = qwords_of (concat (map tx_wqe_bytes ws))"

lemma wqes_qwords_Cons:
  assumes "wf_tx_wqe w"
  shows "wqes_qwords (w # ws) = qwords_of (tx_wqe_bytes w) @ wqes_qwords ws"
  using qwords_of_append [of "tx_wqe_bytes w" 8] length_tx_wqe_bytes [OF assms]
  by (simp add: wqes_qwords_def)

lemma length_wqes_qwords: "list_all wf_tx_wqe ws \<Longrightarrow> length (wqes_qwords ws) = 8 * length ws"
  by (induction ws) (simp_all add: wqes_qwords_Cons length_qwords_tx_wqe, simp add: wqes_qwords_def)

lemma qword_writes_wqes:
  "list_all wf_tx_wqe ws \<Longrightarrow> qword_writes a (wqes_qwords ws) = wqes_writes a ws"
proof (induction ws arbitrary: a)
  case Nil
  then show ?case by (simp add: wqes_qwords_def)
next
  case (Cons w ws)
  then show ?case
    by (simp add: wqes_qwords_Cons qword_writes_append length_qwords_tx_wqe wqe_writes_def)
qed

lemma memcpy_wqes:
  assumes "list_all wf_tx_wqe ws" and "ws \<noteq> []" and "length ws < 2 ^ 58"
  shows "mmio_memcpy_x64 dst (wqes_qwords (ws @ rest)) (of_nat (64 * length ws)) tr
           = Some (tr @ wqes_writes dst ws)"
proof -
  have len: "length (concat (map tx_wqe_bytes ws)) = 8 * (8 * length ws)"
    using assms(1) by (induction ws) (simp_all add: length_tx_wqe_bytes)
  have app: "wqes_qwords (ws @ rest) = wqes_qwords ws @ wqes_qwords rest"
    using qwords_of_append [OF len] by (simp add: wqes_qwords_def)
  have n: "1 \<le> length ws" using assms(2) by (cases ws) auto
  have "mmio_memcpy_x64 dst (wqes_qwords (ws @ rest)) (of_nat (64 * length ws)) tr =
      Some (tr @ qword_writes dst (take (8 * length ws) (wqes_qwords (ws @ rest))))"
    by (rule mmio_memcpy_x64_blocks [OF n _ assms(3)])
      (simp add: app length_wqes_qwords [OF assms(1)])
  also have "take (8 * length ws) (wqes_qwords (ws @ rest)) = wqes_qwords ws"
    by (simp add: app length_wqes_qwords [OF assms(1)])
  finally show ?thesis by (simp only: qword_writes_wqes [OF assms(1)])
qed

text \<open>
  C12: copying \<open>n\<close> work-queue entries with the 64-byte loop has exactly the effect of writing
  the entries one after the other at 64-byte strides, and the bytes that arrive in each
  64-byte block are the bytes of the entry.
\<close>

theorem mmio_memcpy_wqes:
  assumes "list_all wf_tx_wqe ws" and "ws \<noteq> []" and "length ws < 2 ^ 58"
  shows "mmio_memcpy_x64 dst (wqes_qwords (ws @ rest)) (of_nat (64 * length ws)) tr
           = Some (tr @ wqes_writes dst ws)
         \<and> (\<forall>w\<in>set ws. bytes_of_qwords (qwords_of (tx_wqe_bytes w)) = tx_wqe_bytes w)"
  using memcpy_wqes [OF assms] assms(1)
  by (auto simp: list_all_iff length_tx_wqe_bytes intro!: bytes_of_qwords_of [where n = 8])

theorem mmio_memcpy_wqes_witness:
  "\<exists>tr. mmio_memcpy_x64 4096 (wqes_qwords [zero_tx_wqe, zero_tx_wqe]) 128 [] = Some tr
        \<and> tr = wqes_writes 4096 [zero_tx_wqe, zero_tx_wqe]"
  using mmio_memcpy_wqes [of "[zero_tx_wqe, zero_tx_wqe]" 4096 "[]" "[]"] by simp

end
