(* ===== verification/Efa_Objects.thy ===== *)
theory Efa_Objects
  imports Efa_Mmio
begin

text \<open>
  The objects of the verbs interface (\<open>interface/infiniband/verbs.h\<close>, \<open>driver.h\<close>) and the
  library's private objects behind them (\<open>include/efa.h\<close>).

  A pointer to an object of the heap is a \<open>ptr\<close>; a possibly null one a \<open>ptr option\<close>. The
  addresses the device sees (the descriptor rings, the doorbells) are 64-bit words. A linked
  list of work requests is a HOL list, whose suffixes stand for the pointers into it.
\<close>

section \<open>Enumerations of the verbs interface\<close>

datatype ibv_qp_state =
    IBV_QPS_RESET | IBV_QPS_INIT | IBV_QPS_RTR | IBV_QPS_RTS | IBV_QPS_SQD | IBV_QPS_SQE
  | IBV_QPS_ERR | IBV_QPS_UNKNOWN

fun ibv_qp_state_val :: "ibv_qp_state \<Rightarrow> u32" where
  "ibv_qp_state_val IBV_QPS_RESET = 0"
| "ibv_qp_state_val IBV_QPS_INIT = 1"
| "ibv_qp_state_val IBV_QPS_RTR = 2"
| "ibv_qp_state_val IBV_QPS_RTS = 3"
| "ibv_qp_state_val IBV_QPS_SQD = 4"
| "ibv_qp_state_val IBV_QPS_SQE = 5"
| "ibv_qp_state_val IBV_QPS_ERR = 6"
| "ibv_qp_state_val IBV_QPS_UNKNOWN = 7"

datatype ibv_qp_type =
    IBV_QPT_RC | IBV_QPT_UC | IBV_QPT_UD | IBV_QPT_RAW_PACKET | IBV_QPT_XRC_SEND
  | IBV_QPT_XRC_RECV | IBV_QPT_DRIVER

fun ibv_qp_type_val :: "ibv_qp_type \<Rightarrow> i32" where
  "ibv_qp_type_val IBV_QPT_RC = 2"
| "ibv_qp_type_val IBV_QPT_UC = 3"
| "ibv_qp_type_val IBV_QPT_UD = 4"
| "ibv_qp_type_val IBV_QPT_RAW_PACKET = 8"
| "ibv_qp_type_val IBV_QPT_XRC_SEND = 9"
| "ibv_qp_type_val IBV_QPT_XRC_RECV = 10"
| "ibv_qp_type_val IBV_QPT_DRIVER = 255"

datatype ibv_wr_opcode =
    IBV_WR_RDMA_WRITE | IBV_WR_RDMA_WRITE_WITH_IMM | IBV_WR_SEND | IBV_WR_SEND_WITH_IMM
  | IBV_WR_RDMA_READ | IBV_WR_ATOMIC_CMP_AND_SWP | IBV_WR_ATOMIC_FETCH_AND_ADD
  | IBV_WR_LOCAL_INV | IBV_WR_BIND_MW | IBV_WR_SEND_WITH_INV | IBV_WR_TSO | IBV_WR_DRIVER1

definition IBV_SEND_SIGNALED :: u32 where "IBV_SEND_SIGNALED = push_bit 1 1"
definition IBV_SEND_INLINE :: u32 where "IBV_SEND_INLINE = push_bit 3 1"

datatype ibv_wc_status =
    IBV_WC_SUCCESS | IBV_WC_LOC_LEN_ERR | IBV_WC_LOC_QP_OP_ERR | IBV_WC_LOC_EEC_OP_ERR
  | IBV_WC_LOC_PROT_ERR | IBV_WC_WR_FLUSH_ERR | IBV_WC_MW_BIND_ERR | IBV_WC_BAD_RESP_ERR
  | IBV_WC_LOC_ACCESS_ERR | IBV_WC_REM_INV_REQ_ERR | IBV_WC_REM_ACCESS_ERR
  | IBV_WC_REM_OP_ERR | IBV_WC_RETRY_EXC_ERR | IBV_WC_RNR_RETRY_EXC_ERR
  | IBV_WC_LOC_RDD_VIOL_ERR | IBV_WC_REM_INV_RD_REQ_ERR | IBV_WC_REM_ABORT_ERR
  | IBV_WC_INV_EECN_ERR | IBV_WC_INV_EEC_STATE_ERR | IBV_WC_FATAL_ERR
  | IBV_WC_RESP_TIMEOUT_ERR | IBV_WC_GENERAL_ERR | IBV_WC_TM_ERR
  | IBV_WC_TM_RNDV_INCOMPLETE

datatype ibv_wc_opcode =
    IBV_WC_SEND | IBV_WC_RDMA_WRITE | IBV_WC_RDMA_READ | IBV_WC_COMP_SWAP
  | IBV_WC_FETCH_ADD | IBV_WC_BIND_MW | IBV_WC_LOCAL_INV | IBV_WC_TSO | IBV_WC_RECV
  | IBV_WC_RECV_RDMA_WITH_IMM | IBV_WC_TM_ADD | IBV_WC_TM_DEL | IBV_WC_TM_SYNC
  | IBV_WC_TM_RECV | IBV_WC_TM_NO_TAG | IBV_WC_DRIVER1

definition IBV_WC_WITH_IMM :: u32 where "IBV_WC_WITH_IMM = push_bit 1 1"

definition IBV_WC_EX_WITH_BYTE_LEN :: u64 where "IBV_WC_EX_WITH_BYTE_LEN = push_bit 0 1"
definition IBV_WC_EX_WITH_IMM :: u64 where "IBV_WC_EX_WITH_IMM = push_bit 1 1"
definition IBV_WC_EX_WITH_QP_NUM :: u64 where "IBV_WC_EX_WITH_QP_NUM = push_bit 2 1"
definition IBV_WC_EX_WITH_SRC_QP :: u64 where "IBV_WC_EX_WITH_SRC_QP = push_bit 3 1"
definition IBV_WC_EX_WITH_SLID :: u64 where "IBV_WC_EX_WITH_SLID = push_bit 4 1"
definition IBV_WC_EX_WITH_SL :: u64 where "IBV_WC_EX_WITH_SL = push_bit 5 1"
definition IBV_WC_EX_WITH_DLID_PATH_BITS :: u64 where
  "IBV_WC_EX_WITH_DLID_PATH_BITS = push_bit 6 1"

definition IBV_WC_STANDARD_FLAGS :: u64 where
  "IBV_WC_STANDARD_FLAGS = IBV_WC_EX_WITH_BYTE_LEN OR IBV_WC_EX_WITH_IMM OR
     IBV_WC_EX_WITH_QP_NUM OR IBV_WC_EX_WITH_SRC_QP OR IBV_WC_EX_WITH_SLID OR
     IBV_WC_EX_WITH_SL OR IBV_WC_EX_WITH_DLID_PATH_BITS"

definition IBV_QP_INIT_ATTR_PD :: u32 where "IBV_QP_INIT_ATTR_PD = push_bit 0 1"
definition IBV_QP_INIT_ATTR_SEND_OPS_FLAGS :: u32 where
  "IBV_QP_INIT_ATTR_SEND_OPS_FLAGS = push_bit 6 1"

definition IBV_QP_EX_WITH_SEND :: u64 where "IBV_QP_EX_WITH_SEND = push_bit 2 1"
definition IBV_QP_EX_WITH_SEND_WITH_IMM :: u64 where
  "IBV_QP_EX_WITH_SEND_WITH_IMM = push_bit 3 1"
definition IBV_QP_EX_WITH_RDMA_READ :: u64 where "IBV_QP_EX_WITH_RDMA_READ = push_bit 4 1"

definition VERBS_QP_EX :: u32 where "VERBS_QP_EX = push_bit 1 1"

lemma wr_flag_values:
  "IBV_SEND_SIGNALED = 2" "IBV_SEND_INLINE = 8" "IBV_WC_WITH_IMM = 2"
  "IBV_QP_INIT_ATTR_PD = 1" "IBV_QP_INIT_ATTR_SEND_OPS_FLAGS = 64" "IBV_QP_EX_WITH_SEND = 4"
  "IBV_QP_EX_WITH_SEND_WITH_IMM = 8" "IBV_QP_EX_WITH_RDMA_READ = 16" "VERBS_QP_EX = 2"
  "IBV_WC_STANDARD_FLAGS = 127"
  by (simp_all add: IBV_SEND_SIGNALED_def IBV_SEND_INLINE_def IBV_WC_WITH_IMM_def
      IBV_QP_INIT_ATTR_PD_def IBV_QP_INIT_ATTR_SEND_OPS_FLAGS_def IBV_QP_EX_WITH_SEND_def
      IBV_QP_EX_WITH_SEND_WITH_IMM_def IBV_QP_EX_WITH_RDMA_READ_def VERBS_QP_EX_def
      IBV_WC_STANDARD_FLAGS_def IBV_WC_EX_WITH_BYTE_LEN_def IBV_WC_EX_WITH_IMM_def
      IBV_WC_EX_WITH_QP_NUM_def IBV_WC_EX_WITH_SRC_QP_def IBV_WC_EX_WITH_SLID_def
      IBV_WC_EX_WITH_SL_def IBV_WC_EX_WITH_DLID_PATH_BITS_def)

section \<open>Work requests and completions\<close>

record ibv_sge =
  sge_addr :: u64
  sge_length :: u32
  sge_lkey :: u32

record ibv_data_buf =
  db_addr :: u64
  db_length :: u64

text \<open>
  \<open>sw_sg_list\<close> is the array behind \<open>sg_list\<close>; \<open>next\<close> is the tail of the list the request is in.
  Of the union \<open>wr\<close> the library reads the \<open>ud\<close> member only.
\<close>

record ibv_send_wr =
  sw_wr_id :: u64
  sw_sg_list :: "ibv_sge list"
  sw_num_sge :: i32
  sw_opcode :: ibv_wr_opcode
  sw_send_flags :: u32
  sw_imm_data :: u32
  sw_ud_ah :: "ptr option"
  sw_ud_remote_qpn :: u32
  sw_ud_remote_qkey :: u32

record ibv_recv_wr =
  rw_wr_id :: u64
  rw_sg_list :: "ibv_sge list"
  rw_num_sge :: i32

record ibv_wc =
  wc_wr_id :: u64
  wc_status :: ibv_wc_status
  wc_opcode :: ibv_wc_opcode
  wc_vendor_err :: u32
  wc_byte_len :: u32
  wc_imm_data :: u32
  wc_qp_num :: u32
  wc_src_qp :: u32
  wc_wc_flags :: u32
  wc_pkey_index :: u16
  wc_slid :: u16
  wc_sl :: u8
  wc_dlid_path_bits :: u8

section \<open>The library's queues\<close>

text \<open>
  \<open>struct efa_wq\<close>. \<open>wrid\<close> holds the application's tags, \<open>wrid_idx_pool\<close> the free indexes from
  position \<open>wrid_idx_pool_next\<close> on.
\<close>

record efa_wq =
  wrid :: "u64 cbuf"
  wrid_idx_pool :: "u32 cbuf"
  wqe_cnt :: u32
  wqe_posted :: u32
  wqe_completed :: u32
  wq_pc :: u16
  desc_mask :: u16
  wrid_idx_pool_next :: u16
  wq_max_sge :: i32
  wq_phase :: i32
  wqlock :: lock
  wq_db :: u64
  wq_sub_cq_idx :: u16

record efa_rq =
  rq_wq :: efa_wq
  rq_buf :: u64
  rq_buf_size :: u64

text \<open>
  \<open>local_queue\<close> is a byte buffer used as an array of entries; \<open>curr_tx_wqe\<close> points into it and
  is its index there.
\<close>

record efa_sq =
  sq_wq :: efa_wq
  sq_desc :: u64
  desc_offset :: u32
  desc_ring_mmap_size :: u64
  max_inline_data :: u64
  max_wr_rdma_sge :: u64
  max_batch_wr :: u16
  local_queue :: "efa_io_tx_wqe cbuf"
  num_wqe_pending :: u32
  phase_rb :: i32
  curr_tx_wqe :: "nat option"

text \<open>
  The function pointers of \<open>struct ibv_qp_ex\<close>, by the function they are set to; a null
  pointer is \<open>None\<close>.
\<close>

datatype qp_ex_fn =
    Fn_send_wr_start | Fn_send_wr_complete | Fn_send_wr_abort | Fn_send_wr_send
  | Fn_send_wr_send_imm | Fn_send_wr_rdma_read | Fn_send_wr_set_inline_data
  | Fn_send_wr_set_inline_data_list | Fn_send_wr_set_sge | Fn_send_wr_set_sge_list
  | Fn_send_wr_set_addr

text \<open>
  \<open>struct verbs_qp\<close>: the union of \<open>ibv_qp\<close> and \<open>ibv_qp_ex\<close> (whose first member is the
  \<open>ibv_qp\<close>), and its own \<open>comp_mask\<close>.
\<close>

record verbs_qp =
  qp_context_ptr :: "ptr option"
  qp_qp_context :: u64
  qp_pd :: "ptr option"
  qp_send_cq :: "ptr option"
  qp_recv_cq :: "ptr option"
  qp_srq :: "ptr option"
  qp_handle :: u32
  qp_num :: u32
  qp_state :: ibv_qp_state
  qp_type :: i32
  qp_events_completed :: u32
  qpx_wr_id :: u64
  qpx_wr_flags :: u32
  wr_atomic_cmp_swp :: "qp_ex_fn option"
  wr_atomic_fetch_add :: "qp_ex_fn option"
  wr_bind_mw :: "qp_ex_fn option"
  wr_local_inv :: "qp_ex_fn option"
  wr_rdma_read :: "qp_ex_fn option"
  wr_rdma_write :: "qp_ex_fn option"
  wr_rdma_write_imm :: "qp_ex_fn option"
  wr_send :: "qp_ex_fn option"
  wr_send_imm :: "qp_ex_fn option"
  wr_send_inv :: "qp_ex_fn option"
  wr_send_tso :: "qp_ex_fn option"
  wr_set_ud_addr :: "qp_ex_fn option"
  wr_set_xrc_srqn :: "qp_ex_fn option"
  wr_set_inline_data :: "qp_ex_fn option"
  wr_set_inline_data_list :: "qp_ex_fn option"
  wr_set_sge :: "qp_ex_fn option"
  wr_set_sge_list :: "qp_ex_fn option"
  wr_start :: "qp_ex_fn option"
  wr_complete :: "qp_ex_fn option"
  wr_abort :: "qp_ex_fn option"
  verbs_qp_comp_mask :: u32

record efa_qp =
  verbs_qp :: verbs_qp
  qp_sq :: efa_sq
  qp_rq :: efa_rq
  qp_page_size :: i32
  sq_sig_all :: i32
  wr_session_err :: int

record efa_sub_cq =
  consumed_cnt :: u16
  sub_phase :: i32
  sub_buf :: nat
  sub_qmask :: i32
  sub_cqe_size :: i32
  sub_ref_cnt :: u32

text \<open>The pointer \<open>cq->cur_wq\<close>: the send or the receive queue of a queue pair.\<close>

datatype wq_ref = Sq_wq ptr | Rq_wq ptr

datatype cq_ex_fn =
    Fn_start_poll | Fn_end_poll | Fn_next_poll | Fn_wc_read_opcode | Fn_wc_read_vendor_err
  | Fn_wc_read_wc_flags | Fn_wc_read_byte_len | Fn_wc_read_imm_data | Fn_wc_read_qp_num
  | Fn_wc_read_src_qp | Fn_wc_read_slid | Fn_wc_read_sl | Fn_wc_read_dlid_path_bits

text \<open>\<open>struct ibv_cq_ex\<close>, which begins with the members of \<open>struct ibv_cq\<close>.\<close>

record ibv_cq_ex =
  cq_context_ptr :: "ptr option"
  cq_channel :: "ptr option"
  cq_cq_context :: u64
  cq_handle :: u32
  cq_cqe :: i32
  cq_comp_events_completed :: u32
  cq_async_events_completed :: u32
  cqx_comp_mask :: u32
  cqx_status :: ibv_wc_status
  cqx_wr_id :: u64
  start_poll :: "cq_ex_fn option"
  next_poll :: "cq_ex_fn option"
  end_poll :: "cq_ex_fn option"
  read_opcode :: "cq_ex_fn option"
  read_vendor_err :: "cq_ex_fn option"
  read_byte_len :: "cq_ex_fn option"
  read_imm_data :: "cq_ex_fn option"
  read_qp_num :: "cq_ex_fn option"
  read_src_qp :: "cq_ex_fn option"
  read_wc_flags :: "cq_ex_fn option"
  read_slid :: "cq_ex_fn option"
  read_sl :: "cq_ex_fn option"
  read_dlid_path_bits :: "cq_ex_fn option"

text \<open>
  \<open>struct efa_cq\<close>. \<open>cq_buf\<close> is the contents of the completion ring the device writes (\<open>None\<close>
  while \<open>buf\<close> is null); the pointers into it (\<open>sub_buf\<close>, \<open>cur_cqe\<close>) are byte offsets.
\<close>

record efa_cq =
  verbs_cq :: ibv_cq_ex
  cqn :: u32
  cq_cqe_size :: u64
  cq_buf :: "u8 list option"
  cq_buf_size :: u64
  num_sub_cqs :: u16
  next_poll_idx :: u16
  cq_lock :: lock
  cur_wq :: "wq_ref option"
  cur_cqe :: "nat option"
  sub_cq_arr :: "efa_sub_cq list"

section \<open>The context, the device and the other objects\<close>

text \<open>
  The functions the provider installs, and the members of \<open>struct verbs_context\<close> they are
  installed in: the extended operations, the operations of \<open>struct ibv_context_ops\<close>, and its
  \<open>_compat_\<close> members.
\<close>

datatype efa_op =
    Op_alloc_pd | Op_create_ah | Op_create_cq | Op_create_cq_ex | Op_create_qp | Op_create_qp_ex
  | Op_dealloc_pd | Op_dereg_mr | Op_destroy_ah | Op_destroy_cq | Op_destroy_qp | Op_modify_qp
  | Op_poll_cq | Op_post_recv | Op_post_send | Op_query_device_ex | Op_query_port | Op_query_qp
  | Op_reg_mr | Op_free_context

datatype ops_slot = Vctx string | Ctx string | Compat string

record efa_context =
  ctx_device :: "ptr option"
  cmds_supp_udata_mask :: u32
  sub_cqs_per_cq :: u16
  inline_buf_size :: u16
  max_llq_size :: u32
  device_caps :: u32
  ctx_max_sq_wr :: u32
  ctx_max_rq_wr :: u32
  ctx_max_sq_sge :: u16
  ctx_max_rq_sge :: u16
  max_rdma_size :: u32
  ctx_max_wr_rdma_sge :: u16
  max_tx_batch :: u16
  min_sq_wr :: u16
  max_mr_size :: u64
  ctx_cqe_size :: u64
  qp_table :: "ptr option cbuf"
  qp_table_sz_m1 :: u32
  qp_table_lock :: lock
  ctx_ops :: "ops_slot \<rightharpoonup> efa_op"
  ctx_abi_compat :: u64
  vctx_sz :: u64

record efa_pd =
  pd_context :: "ptr option"
  pd_handle :: u32
  pdn :: u16

record efa_ah =
  ah_context :: "ptr option"
  ah_pd :: "ptr option"
  ah_handle :: u32
  ah_efa_ah :: u16

record efa_mr =
  mr_context :: "ptr option"
  mr_pd :: "ptr option"
  mr_addr :: u64
  mr_length :: u64
  mr_handle :: u32
  mr_lkey :: u32
  mr_rkey :: u32

section \<open>Attributes\<close>

record ibv_qp_cap =
  max_send_wr :: u32
  max_recv_wr :: u32
  max_send_sge :: u32
  max_recv_sge :: u32
  cap_max_inline_data :: u32

record ibv_qp_init_attr =
  ia_qp_context :: u64
  ia_send_cq :: "ptr option"
  ia_recv_cq :: "ptr option"
  ia_srq :: "ptr option"
  ia_cap :: ibv_qp_cap
  ia_qp_type :: ibv_qp_type
  ia_sq_sig_all :: i32

text \<open>
  \<open>struct ibv_qp_init_attr_ex\<close> begins with the members of \<open>struct ibv_qp_init_attr\<close>; the
  library copies the one over the other with \<open>memcpy\<close>.
\<close>

record ibv_qp_init_attr_ex =
  iax_base :: ibv_qp_init_attr
  iax_comp_mask :: u32
  iax_pd :: "ptr option"
  iax_send_ops_flags :: u64

record ibv_cq_init_attr_ex =
  ca_cqe :: u32
  ca_cq_context :: u64
  ca_channel :: "ptr option"
  ca_comp_vector :: u32
  ca_wc_flags :: u64
  ca_comp_mask :: u32

record efadv_qp_init_attr =
  ea_comp_mask :: u64
  ea_driver_qp_type :: u32
  ea_reserved :: "u8 list"

definition EFADV_QP_DRIVER_TYPE_SRD :: u32 where "EFADV_QP_DRIVER_TYPE_SRD = 0"

definition EFA_QUERY_DEVICE_CAPS_RDMA_READ :: u32 where
  "EFA_QUERY_DEVICE_CAPS_RDMA_READ = push_bit 0 1"
definition EFA_QUERY_DEVICE_CAPS_RNR_RETRY :: u32 where
  "EFA_QUERY_DEVICE_CAPS_RNR_RETRY = push_bit 1 1"

text \<open>\<open>EFA_DEV_CAP(ctx, cap)\<close>.\<close>

definition EFA_DEV_CAP :: "efa_context \<Rightarrow> u32 \<Rightarrow> u32" where
  "EFA_DEV_CAP ctx cap = device_caps ctx AND cap"

text \<open>\<open>malloc\<close> of an array: null, or memory with arbitrary contents.\<close>

definition malloc_arr :: "(nat \<Rightarrow> 'a) option \<Rightarrow> nat \<Rightarrow> 'a cbuf" where
  "malloc_arr m n = (case m of None \<Rightarrow> Null | Some g \<Rightarrow> Live (map g [0..<n]))"

section \<open>The all-zero objects of \<open>calloc\<close>\<close>

definition zero_wq :: efa_wq where
  "zero_wq = \<lparr>wrid = Null, wrid_idx_pool = Null, wqe_cnt = 0, wqe_posted = 0, wqe_completed = 0,
     wq_pc = 0, desc_mask = 0, wrid_idx_pool_next = 0, wq_max_sge = 0, wq_phase = 0, wqlock = 0,
     wq_db = 0, wq_sub_cq_idx = 0\<rparr>"

definition zero_sq :: efa_sq where
  "zero_sq = \<lparr>sq_wq = zero_wq, sq_desc = 0, desc_offset = 0, desc_ring_mmap_size = 0,
     max_inline_data = 0, max_wr_rdma_sge = 0, max_batch_wr = 0, local_queue = Null,
     num_wqe_pending = 0, phase_rb = 0, curr_tx_wqe = None\<rparr>"

definition zero_rq :: efa_rq where
  "zero_rq = \<lparr>rq_wq = zero_wq, rq_buf = 0, rq_buf_size = 0\<rparr>"

definition zero_verbs_qp :: verbs_qp where
  "zero_verbs_qp = \<lparr>qp_context_ptr = None, qp_qp_context = 0, qp_pd = None, qp_send_cq = None,
     qp_recv_cq = None, qp_srq = None, qp_handle = 0, qp_num = 0, qp_state = IBV_QPS_RESET,
     qp_type = 0, qp_events_completed = 0, qpx_wr_id = 0, qpx_wr_flags = 0,
     wr_atomic_cmp_swp = None, wr_atomic_fetch_add = None, wr_bind_mw = None, wr_local_inv = None,
     wr_rdma_read = None, wr_rdma_write = None, wr_rdma_write_imm = None, wr_send = None,
     wr_send_imm = None, wr_send_inv = None, wr_send_tso = None, wr_set_ud_addr = None,
     wr_set_xrc_srqn = None, wr_set_inline_data = None, wr_set_inline_data_list = None,
     wr_set_sge = None, wr_set_sge_list = None, wr_start = None, wr_complete = None,
     wr_abort = None, verbs_qp_comp_mask = 0\<rparr>"

definition zero_qp :: efa_qp where
  "zero_qp = \<lparr>verbs_qp = zero_verbs_qp, qp_sq = zero_sq, qp_rq = zero_rq, qp_page_size = 0,
     sq_sig_all = 0, wr_session_err = 0\<rparr>"

definition zero_sub_cq :: efa_sub_cq where
  "zero_sub_cq = \<lparr>consumed_cnt = 0, sub_phase = 0, sub_buf = 0, sub_qmask = 0, sub_cqe_size = 0,
     sub_ref_cnt = 0\<rparr>"

definition zero_cq_ex :: ibv_cq_ex where
  "zero_cq_ex = \<lparr>cq_context_ptr = None, cq_channel = None, cq_cq_context = 0, cq_handle = 0,
     cq_cqe = 0, cq_comp_events_completed = 0, cq_async_events_completed = 0, cqx_comp_mask = 0,
     cqx_status = IBV_WC_SUCCESS, cqx_wr_id = 0, start_poll = None, next_poll = None,
     end_poll = None, read_opcode = None, read_vendor_err = None, read_byte_len = None,
     read_imm_data = None, read_qp_num = None, read_src_qp = None, read_wc_flags = None,
     read_slid = None, read_sl = None, read_dlid_path_bits = None\<rparr>"

text \<open>\<open>calloc(1, sizeof(struct efa_cq) + n * sizeof(struct efa_sub_cq))\<close>.\<close>

definition zero_cq :: "nat \<Rightarrow> efa_cq" where
  "zero_cq n = \<lparr>verbs_cq = zero_cq_ex, cqn = 0, cq_cqe_size = 0, cq_buf = None, cq_buf_size = 0,
     num_sub_cqs = 0, next_poll_idx = 0, cq_lock = 0, cur_wq = None, cur_cqe = None,
     sub_cq_arr = replicate n zero_sub_cq\<rparr>"

definition zero_context :: efa_context where
  "zero_context = \<lparr>ctx_device = None, cmds_supp_udata_mask = 0, sub_cqs_per_cq = 0,
     inline_buf_size = 0, max_llq_size = 0, device_caps = 0, ctx_max_sq_wr = 0, ctx_max_rq_wr = 0,
     ctx_max_sq_sge = 0, ctx_max_rq_sge = 0, max_rdma_size = 0, ctx_max_wr_rdma_sge = 0,
     max_tx_batch = 0, min_sq_wr = 0, max_mr_size = 0, ctx_cqe_size = 0, qp_table = Null,
     qp_table_sz_m1 = 0, qp_table_lock = 0, ctx_ops = (\<lambda>_. None),
     ctx_abi_compat = 0, vctx_sz = 0\<rparr>"

definition zero_pd :: efa_pd where
  "zero_pd = \<lparr>pd_context = None, pd_handle = 0, pdn = 0\<rparr>"

definition zero_ah :: efa_ah where
  "zero_ah = \<lparr>ah_context = None, ah_pd = None, ah_handle = 0, ah_efa_ah = 0\<rparr>"

definition zero_mr :: efa_mr where
  "zero_mr = \<lparr>mr_context = None, mr_pd = None, mr_addr = 0, mr_length = 0, mr_handle = 0,
     mr_lkey = 0, mr_rkey = 0\<rparr>"

end
