(* ===== verification/Efa_Wq.thy ===== *)
theory Efa_Wq
  imports Efa_Objects
begin

text \<open>
  The work queue shared by the send and the receive side (\<open>struct efa_wq\<close> and the functions
  \<open>efa_wq_*\<close> of \<open>efawin/verbs.c\<close>): the pool of request identifiers, the tag array behind it,
  the producer counter. The contract of the pool is the locale \<open>tag_store\<close>: what it holds is
  a finite map from identifiers to the application's tags.
\<close>

section \<open>The operations\<close>

definition efa_wq_get_next_wrid_idx_locked :: "efa_wq \<Rightarrow> u64 \<Rightarrow> (u32 \<times> efa_wq) option" where
  "efa_wq_get_next_wrid_idx_locked wq wr_id =
     do {
       wrid_idx \<leftarrow> cb_get (wrid_idx_pool wq) (unat (wrid_idx_pool_next wq));
       wrid' \<leftarrow> cb_set (wrid wq) (unat wrid_idx) wr_id;
       let wq = wq\<lparr>wrid := wrid', wrid_idx_pool_next := wrid_idx_pool_next wq + 1\<rparr>;
       c_assert (ucast (wrid_idx_pool_next wq) \<le> wqe_cnt wq);
       Some (wrid_idx, wq)
     }"

definition efa_wq_put_wrid_idx_unlocked :: "efa_wq \<Rightarrow> u32 \<Rightarrow> efa_wq option" where
  "efa_wq_put_wrid_idx_unlocked wq wrid_idx =
     do {
       let wq = wq\<lparr>wqlock := pthread_spin_lock (wqlock wq)\<rparr>;
       let wq = wq\<lparr>wrid_idx_pool_next := wrid_idx_pool_next wq - 1\<rparr>;
       pool \<leftarrow> cb_set (wrid_idx_pool wq) (unat (wrid_idx_pool_next wq)) wrid_idx;
       let wq = wq\<lparr>wrid_idx_pool := pool, wqe_completed := wqe_completed wq + 1\<rparr>;
       l \<leftarrow> pthread_spin_unlock (wqlock wq);
       Some (wq\<lparr>wqlock := l\<rparr>)
     }"

definition efa_wq_terminate :: "efa_wq \<Rightarrow> efa_wq option" where
  "efa_wq_terminate wq =
     do {
       pool \<leftarrow> cb_free (wrid_idx_pool wq);
       let wq = wq\<lparr>wrid_idx_pool := pool\<rparr>;
       w \<leftarrow> cb_free (wrid wq);
       Some (wq\<lparr>wrid := w\<rparr>)
     }"

text \<open>
  \<open>m1\<close> and \<open>m2\<close> are the outcomes of the two \<open>malloc\<close> calls. The byte counts
  (\<open>wqe_cnt\<close> times the element size, in \<open>size_t\<close>) cannot wrap for a 32-bit \<open>wqe_cnt\<close>. The
  doorbell is mapped by the driver on this platform, so \<open>attr\<close> carries the sub-queue index.
\<close>

definition efa_wq_initialize ::
  "(nat \<Rightarrow> u64) option \<Rightarrow> (nat \<Rightarrow> u32) option \<Rightarrow> efa_wq \<Rightarrow> u16 \<Rightarrow> (int \<times> efa_wq) option" where
  "efa_wq_initialize m1 m2 wq attr_sub_cq_idx =
     (let wq = wq\<lparr>wrid := malloc_arr m1 (unat (wqe_cnt wq))\<rparr> in
      if wrid wq = Null then Some (ENOMEM, wq)
      else
        let wq = wq\<lparr>wrid_idx_pool := malloc_arr m2 (unat (wqe_cnt wq))\<rparr> in
        if wrid_idx_pool wq = Null then
          do {
            w \<leftarrow> cb_free (wrid wq);
            Some (ENOMEM, wq\<lparr>wrid := w\<rparr>)
          }
        else
          do {
            pool \<leftarrow> for_range 0 (unat (wqe_cnt wq)) (\<lambda>i p. cb_set p i (of_nat i)) (wrid_idx_pool wq);
            Some (0, wq\<lparr>wrid_idx_pool := pool, wqlock := 0, wq_sub_cq_idx := attr_sub_cq_idx\<rparr>)
          })"

section \<open>The invariant\<close>

text \<open>The identifiers that are free, and those handed out and not yet returned.\<close>

definition wq_free :: "efa_wq \<Rightarrow> nat list" where
  "wq_free wq = map unat (drop (unat (wrid_idx_pool_next wq)) (cb_list (wrid_idx_pool wq)))"

definition wq_outstanding :: "efa_wq \<Rightarrow> nat set" where
  "wq_outstanding wq = {0..<unat (wqe_cnt wq)} - set (wq_free wq)"

text \<open>The tags of the outstanding identifiers: what the pool means to its clients.\<close>

definition wq_tags :: "efa_wq \<Rightarrow> nat \<rightharpoonup> u64" where
  "wq_tags wq i = (if i \<in> wq_outstanding wq then Some (cb_list (wrid wq) ! i) else None)"

definition wq_inv :: "efa_wq \<Rightarrow> bool" where
  "wq_inv wq \<longleftrightarrow>
     (\<exists>w p. wrid wq = Live w \<and> wrid_idx_pool wq = Live p \<and>
        length w = unat (wqe_cnt wq) \<and> length p = unat (wqe_cnt wq)) \<and>
     unat (wqe_cnt wq) < 2 ^ 16 \<and>
     unat (wrid_idx_pool_next wq) \<le> unat (wqe_cnt wq) \<and>
     distinct (wq_free wq) \<and> set (wq_free wq) \<subseteq> {0..<unat (wqe_cnt wq)}"

text \<open>The counters agree with the pool: what is posted and not completed is outstanding.\<close>

definition wq_counts :: "efa_wq \<Rightarrow> bool" where
  "wq_counts wq \<longleftrightarrow> wqe_posted wq - wqe_completed wq = ucast (wrid_idx_pool_next wq)"

lemma dom_wq_tags [simp]: "dom (wq_tags wq) = wq_outstanding wq"
  by (auto simp: wq_tags_def dom_def)

lemma finite_wq_outstanding [simp]: "finite (wq_outstanding wq)"
  by (simp add: wq_outstanding_def)

lemma wq_invE:
  assumes "wq_inv wq"
  obtains w p where "wrid wq = Live w" "wrid_idx_pool wq = Live p"
    "length w = unat (wqe_cnt wq)" "length p = unat (wqe_cnt wq)" "unat (wqe_cnt wq) < 2 ^ 16"
    "unat (wrid_idx_pool_next wq) \<le> unat (wqe_cnt wq)"
    "distinct (wq_free wq)" "set (wq_free wq) \<subseteq> {0..<unat (wqe_cnt wq)}"
  using assms unfolding wq_inv_def by blast

lemma card_wq_outstanding:
  assumes "wq_inv wq"
  shows "card (wq_outstanding wq) = unat (wrid_idx_pool_next wq)"
proof -
  obtain w p where wp: "wrid_idx_pool wq = Live p" "length p = unat (wqe_cnt wq)"
    "unat (wrid_idx_pool_next wq) \<le> unat (wqe_cnt wq)"
    "distinct (wq_free wq)" "set (wq_free wq) \<subseteq> {0..<unat (wqe_cnt wq)}"
    using assms by (elim wq_invE)
  have "card (set (wq_free wq)) = unat (wqe_cnt wq) - unat (wrid_idx_pool_next wq)"
    using wp by (simp add: distinct_card) (simp add: wq_free_def)
  then show ?thesis
    using wp by (simp add: wq_outstanding_def card_Diff_subset)
qed

text \<open>The parts of a work queue that the pool does not own do not matter to it.\<close>

lemma wq_view_cong:
  assumes "wrid wq' = wrid wq" "wrid_idx_pool wq' = wrid_idx_pool wq" "wqe_cnt wq' = wqe_cnt wq"
    "wrid_idx_pool_next wq' = wrid_idx_pool_next wq"
  shows "wq_free wq' = wq_free wq" "wq_outstanding wq' = wq_outstanding wq"
    "wq_tags wq' = wq_tags wq" "wq_inv wq' = wq_inv wq"
proof -
  show f: "wq_free wq' = wq_free wq" using assms by (simp add: wq_free_def)
  show o': "wq_outstanding wq' = wq_outstanding wq" using assms f by (simp add: wq_outstanding_def)
  show "wq_tags wq' = wq_tags wq" using assms o' by (simp add: wq_tags_def fun_eq_iff)
  show "wq_inv wq' = wq_inv wq" using assms f by (simp add: wq_inv_def)
qed

section \<open>What the operations do to the pool\<close>

lemma unat_u16_Suc:
  fixes x :: u16
  assumes "unat x + 1 < 2 ^ 16"
  shows "unat (x + 1) = unat x + 1"
  using assms by (simp add: unat_add_lem [THEN iffD1])

lemma unat_u16_pred:
  fixes x :: u16
  assumes "0 < unat x"
  shows "unat (x - 1) = unat x - 1"
  using assms by (metis gr0I less_irrefl unat_eq_zero unat_minus_one)

lemma ucast_le_u32:
  fixes x :: u16 and c :: u32
  shows "(ucast x \<le> c) = (unat x \<le> unat c)"
  by (simp add: word_le_nat_alt unat_ucast_widen)

lemma get_wrid_spec:
  assumes inv: "wq_inv wq" and room: "unat (wrid_idx_pool_next wq) < unat (wqe_cnt wq)"
  obtains i wq' where
    "efa_wq_get_next_wrid_idx_locked wq tag = Some (i, wq')"
    "wq' = wq\<lparr>wrid := wrid wq', wrid_idx_pool_next := wrid_idx_pool_next wq + 1\<rparr>"
    "wq_inv wq'" "unat i \<notin> wq_outstanding wq" "unat i < unat (wqe_cnt wq)"
    "wq_tags wq' = (wq_tags wq)(unat i \<mapsto> tag)"
    "cb_list (wrid wq') = (cb_list (wrid wq))[unat i := tag]"
    "i = cb_list (wrid_idx_pool wq) ! unat (wrid_idx_pool_next wq)"
proof -
  obtain w p where wp: "wrid wq = Live w" "wrid_idx_pool wq = Live p"
    "length w = unat (wqe_cnt wq)" "length p = unat (wqe_cnt wq)" "unat (wqe_cnt wq) < 2 ^ 16"
    "distinct (wq_free wq)" "set (wq_free wq) \<subseteq> {0..<unat (wqe_cnt wq)}"
    using inv by (elim wq_invE)
  define n where "n = unat (wrid_idx_pool_next wq)"
  define i where "i = p ! n"
  define wq' where "wq' = wq\<lparr>wrid := Live (w[unat i := tag]),
    wrid_idx_pool_next := wrid_idx_pool_next wq + 1\<rparr>"
  have n: "n < length p" using room wp n_def by simp
  have n': "unat (wrid_idx_pool_next wq + 1) = n + 1"
    using room wp unfolding n_def by (intro unat_u16_Suc) simp
  have free: "wq_free wq = unat i # wq_free wq'"
    using n n' wp unfolding wq_free_def wq'_def i_def
    by (simp add: n_def [symmetric] Cons_nth_drop_Suc [symmetric])
  have i: "unat i < unat (wqe_cnt wq)" "unat i \<notin> set (wq_free wq')"
    "distinct (wq_free wq')" "set (wq_free wq') \<subseteq> {0..<unat (wqe_cnt wq)}"
    using wp(6,7) by (simp_all add: free)
  have out: "wq_outstanding wq' = insert (unat i) (wq_outstanding wq)"
    using i by (auto simp: wq_outstanding_def free) (simp_all add: wq'_def)
  have ni: "unat i \<notin> wq_outstanding wq" by (simp add: wq_outstanding_def free)
  have tags: "wq_tags wq' = (wq_tags wq)(unat i \<mapsto> tag)"
  proof
    fix j
    show "wq_tags wq' j = ((wq_tags wq)(unat i \<mapsto> tag)) j"
      using i wp ni unfolding wq_tags_def out by (auto simp: wq'_def nth_list_update)
  qed
  have inv': "wq_inv wq'"
    using wp i n n' unfolding wq_inv_def by (simp add: wq'_def)
  have get: "efa_wq_get_next_wrid_idx_locked wq tag = Some (i, wq')"
    using wp n i n' room unfolding efa_wq_get_next_wrid_idx_locked_def
    by (simp add: n_def [symmetric] i_def [symmetric] wq'_def bind_c_assert ucast_le_u32)
  show ?thesis
    by (rule that [OF get _ inv' ni i(1) tags])
      (use wp in \<open>simp_all add: wq'_def i_def n_def\<close>)
qed

lemma put_wrid_spec:
  assumes inv: "wq_inv wq" and i: "unat i \<in> wq_outstanding wq"
  obtains wq' where
    "efa_wq_put_wrid_idx_unlocked wq i = Some wq'"
    "wq' = wq\<lparr>wrid_idx_pool_next := wrid_idx_pool_next wq - 1,
       wrid_idx_pool := wrid_idx_pool wq', wqe_completed := wqe_completed wq + 1\<rparr>"
    "wq_inv wq'" "wq_tags wq' = (wq_tags wq)(unat i := None)"
proof -
  obtain w p where wp: "wrid wq = Live w" "wrid_idx_pool wq = Live p"
    "length w = unat (wqe_cnt wq)" "length p = unat (wqe_cnt wq)" "unat (wqe_cnt wq) < 2 ^ 16"
    "unat (wrid_idx_pool_next wq) \<le> unat (wqe_cnt wq)"
    "distinct (wq_free wq)" "set (wq_free wq) \<subseteq> {0..<unat (wqe_cnt wq)}"
    using inv by (elim wq_invE)
  define n where "n = unat (wrid_idx_pool_next wq)"
  have pos: "0 < n"
  proof (rule ccontr)
    assume "\<not> 0 < n"
    then have "card (wq_outstanding wq) = 0"
      using card_wq_outstanding [OF inv] n_def by simp
    then show False using i by (simp add: card_eq_0_iff)
  qed
  have n': "unat (wrid_idx_pool_next wq - 1) = n - 1"
    using pos n_def unat_u16_pred by simp
  have nlen: "n - 1 < length p" using pos wp n_def by simp
  define wq' where "wq' = wq\<lparr>wrid_idx_pool_next := wrid_idx_pool_next wq - 1,
    wrid_idx_pool := Live (p[n - 1 := i]), wqe_completed := wqe_completed wq + 1\<rparr>"
  have "drop (n - 1) (p[n - 1 := i]) = i # drop n p"
    using nlen pos by (simp add: Cons_nth_drop_Suc [symmetric])
  then have free: "wq_free wq' = unat i # wq_free wq"
    using wp n' by (simp add: wq_free_def wq'_def n_def)
  have ni: "unat i < unat (wqe_cnt wq)" "unat i \<notin> set (wq_free wq)"
    using i by (simp_all add: wq_outstanding_def)
  have out: "wq_outstanding wq' = wq_outstanding wq - {unat i}"
    by (auto simp: wq_outstanding_def free) (simp_all add: wq'_def)
  have tags: "wq_tags wq' = (wq_tags wq)(unat i := None)"
  proof
    fix j
    show "wq_tags wq' j = ((wq_tags wq)(unat i := None)) j"
      unfolding wq_tags_def out by (auto simp: wq'_def)
  qed
  have inv': "wq_inv wq'"
    unfolding wq_inv_def free using wp ni n' by (simp add: wq'_def n_def)
  have put: "efa_wq_put_wrid_idx_unlocked wq i = Some wq'"
    using wp nlen n' unfolding efa_wq_put_wrid_idx_unlocked_def by (simp add: wq'_def)
  show ?thesis by (rule that [OF put _ inv' tags]) (simp add: wq'_def)
qed

section \<open>The contract of the pool\<close>

text \<open>
  What a client of the pool sees: it takes an identifier for a tag, later gives it back.
\<close>

datatype 'v tag_event = Got u32 'v | Ret u32

inductive tag_steps ::
  "('s \<Rightarrow> nat \<rightharpoonup> 'v) \<Rightarrow> ('s \<Rightarrow> nat) \<Rightarrow> ('s \<Rightarrow> 'v \<Rightarrow> (u32 \<times> 's) option) \<Rightarrow>
   ('s \<Rightarrow> u32 \<Rightarrow> 's option) \<Rightarrow> 's \<Rightarrow> 'v tag_event list \<Rightarrow> 's \<Rightarrow> bool"
  for tags cap get put where
  tag_nil: "tag_steps tags cap get put s [] s"
| tag_got: "card (dom (tags s)) < cap s \<Longrightarrow> get s v = Some (i, s1) \<Longrightarrow>
     tag_steps tags cap get put s1 es s' \<Longrightarrow> tag_steps tags cap get put s (Got i v # es) s'"
| tag_ret: "unat i \<in> dom (tags s) \<Longrightarrow> put s i = Some s1 \<Longrightarrow>
     tag_steps tags cap get put s1 es s' \<Longrightarrow> tag_steps tags cap get put s (Ret i # es) s'"

inductive_simps tag_steps_Nil: "tag_steps tags cap get put s [] s'"
inductive_cases tag_steps_GotE: "tag_steps tags cap get put s (Got i v # es) s'"
inductive_cases tag_steps_RetE: "tag_steps tags cap get put s (Ret i # es) s'"

text \<open>The abstract store: a finite map. A new identifier must be a fresh key.\<close>

fun tag_replay :: "'v tag_event list \<Rightarrow> (nat \<rightharpoonup> 'v) \<Rightarrow> (nat \<rightharpoonup> 'v) option" where
  "tag_replay [] m = Some m"
| "tag_replay (Got i v # es) m =
     (if m (unat i) = None then tag_replay es (m(unat i \<mapsto> v)) else None)"
| "tag_replay (Ret i # es) m =
     (if m (unat i) = None then None else tag_replay es (m(unat i := None)))"

locale tag_store =
  fixes inv :: "'s \<Rightarrow> bool"
    and tags :: "'s \<Rightarrow> nat \<rightharpoonup> 'v"
    and cap :: "'s \<Rightarrow> nat"
    and get :: "'s \<Rightarrow> 'v \<Rightarrow> (u32 \<times> 's) option"
    and put :: "'s \<Rightarrow> u32 \<Rightarrow> 's option"
  assumes finite_tags: "finite (dom (tags s))"
    and tags_below: "dom (tags s) \<subseteq> {0..<cap s}"
    and get_law: "inv s \<Longrightarrow> card (dom (tags s)) < cap s \<Longrightarrow>
      \<exists>i s'. get s v = Some (i, s') \<and> inv s' \<and> cap s' = cap s \<and> unat i < cap s \<and>
        tags s (unat i) = None \<and> tags s' = (tags s)(unat i \<mapsto> v)"
    and put_law: "inv s \<Longrightarrow> unat i \<in> dom (tags s) \<Longrightarrow>
      \<exists>s'. put s i = Some s' \<and> inv s' \<and> cap s' = cap s \<and> tags s' = (tags s)(unat i := None)"
begin

abbreviation steps :: "'s \<Rightarrow> 'v tag_event list \<Rightarrow> 's \<Rightarrow> bool" where
  "steps \<equiv> tag_steps tags cap get put"

lemma steps_refine:
  assumes "steps s es s'" and "inv s"
  shows "inv s' \<and> cap s' = cap s \<and> tag_replay es (tags s) = Some (tags s')"
  using assms
proof (induction rule: tag_steps.induct)
  case (tag_nil s)
  then show ?case by simp
next
  case (tag_got s v i s1 es s')
  then have "inv s1 \<and> cap s1 = cap s \<and> tags s (unat i) = None \<and>
      tags s1 = (tags s)(unat i \<mapsto> v)"
    using get_law [of s v] by auto
  then show ?case using tag_got by (simp del: fun_upd_apply)
next
  case (tag_ret i s s1 es s')
  then have "inv s1 \<and> cap s1 = cap s \<and> tags s1 = (tags s)(unat i := None)"
    using put_law [of s i] by auto
  moreover have "tags s (unat i) \<noteq> None" using tag_ret by auto
  ultimately show ?case using tag_ret by (simp del: fun_upd_apply)
qed

lemma get_total:
  assumes "inv s" and "card (dom (tags s)) < cap s"
  shows "\<exists>i s'. get s v = Some (i, s') \<and> steps s [Got i v] s'"
  using get_law [OF assms, of v] assms(2) by (auto intro: tag_got tag_nil)

lemma full_iff: "card (dom (tags s)) = cap s \<longleftrightarrow> dom (tags s) = {0..<cap s}"
  using tags_below [of s] finite_tags [of s]
  by (metis card_atLeastLessThan card_subset_eq diff_zero finite_atLeastLessThan)

text \<open>From an empty store any list of at most \<open>cap\<close> tags can be taken, at distinct identifiers.\<close>

lemma fill:
  assumes "inv s" and "card (dom (tags s)) + length vs \<le> cap s"
  shows "\<exists>is s'. length is = length vs \<and> steps s (map2 Got is vs) s'"
  using assms
proof (induction vs arbitrary: s)
  case Nil
  then show ?case by (auto intro: tag_nil)
next
  case (Cons v vs)
  obtain i s1 where g: "get s v = Some (i, s1)" "inv s1" "cap s1 = cap s"
    "tags s (unat i) = None" "tags s1 = (tags s)(unat i \<mapsto> v)"
    using get_law [of s v] Cons.prems by auto
  have "card (dom (tags s1)) = Suc (card (dom (tags s)))"
    using g finite_tags [of s] by (simp add: card_insert_if domIff)
  then have "card (dom (tags s1)) + length vs \<le> cap s1" using Cons.prems g(3) by simp
  then obtain is' s' where "length is' = length vs" "steps s1 (map2 Got is' vs) s'"
    using Cons.IH [OF g(2)] by blast
  then have "length (i # is') = length (v # vs) \<and> steps s (map2 Got (i # is') (v # vs)) s'"
    using Cons.prems g by (auto intro: tag_got)
  then show ?case by blast
qed

end

interpretation wq_store: tag_store wq_inv wq_tags "\<lambda>wq. unat (wqe_cnt wq)"
  efa_wq_get_next_wrid_idx_locked efa_wq_put_wrid_idx_unlocked
proof (unfold_locales)
  fix wq :: efa_wq and v i
  show "finite (dom (wq_tags wq))" by simp
  show "dom (wq_tags wq) \<subseteq> {0..<unat (wqe_cnt wq)}" by (auto simp: wq_outstanding_def)
  assume inv: "wq_inv wq"
  show "\<exists>i wq'. efa_wq_get_next_wrid_idx_locked wq v = Some (i, wq') \<and> wq_inv wq' \<and>
      unat (wqe_cnt wq') = unat (wqe_cnt wq) \<and> unat i < unat (wqe_cnt wq) \<and>
      wq_tags wq (unat i) = None \<and> wq_tags wq' = (wq_tags wq)(unat i \<mapsto> v)"
    if "card (dom (wq_tags wq)) < unat (wqe_cnt wq)"
  proof -
    have "unat (wrid_idx_pool_next wq) < unat (wqe_cnt wq)"
      using that card_wq_outstanding [OF inv] by simp
    from get_wrid_spec [OF inv this, of v] obtain i wq' where g:
      "efa_wq_get_next_wrid_idx_locked wq v = Some (i, wq')"
      "wq' = wq\<lparr>wrid := wrid wq', wrid_idx_pool_next := wrid_idx_pool_next wq + 1\<rparr>"
      "wq_inv wq'" "unat i \<notin> wq_outstanding wq" "unat i < unat (wqe_cnt wq)"
      "wq_tags wq' = (wq_tags wq)(unat i \<mapsto> v)" by blast
    have "wqe_cnt wq' = wqe_cnt wq" by (subst g(2)) simp
    then show ?thesis using g by (auto simp: wq_tags_def)
  qed
  show "\<exists>wq'. efa_wq_put_wrid_idx_unlocked wq i = Some wq' \<and> wq_inv wq' \<and>
      unat (wqe_cnt wq') = unat (wqe_cnt wq) \<and> wq_tags wq' = (wq_tags wq)(unat i := None)"
    if "unat i \<in> dom (wq_tags wq)"
  proof -
    have "unat i \<in> wq_outstanding wq" using that by simp
    from put_wrid_spec [OF inv this] obtain wq' where p:
      "efa_wq_put_wrid_idx_unlocked wq i = Some wq'"
      "wq' = wq\<lparr>wrid_idx_pool_next := wrid_idx_pool_next wq - 1,
         wrid_idx_pool := wrid_idx_pool wq', wqe_completed := wqe_completed wq + 1\<rparr>"
      "wq_inv wq'" "wq_tags wq' = (wq_tags wq)(unat i := None)" by blast
    have "wqe_cnt wq' = wqe_cnt wq" by (subst p(2)) simp
    then show ?thesis using p by auto
  qed
qed

section \<open>Creation and destruction\<close>

lemma pool_init_loop:
  fixes p :: "u32 list"
  assumes "n \<le> length p"
  shows "for_range 0 n (\<lambda>i q. cb_set q i (of_nat i)) (Live p) =
    Some (Live (map of_nat [0..<n] @ drop n p))"
proof -
  have "for_range a k (\<lambda>i q. cb_set q i (of_nat i)) (Live p) =
      Some (Live (take a p @ map of_nat [a..<a + k] @ drop (a + k) p))"
    if "a + k \<le> length p" for a k and p :: "u32 list"
    using that
  proof (induction k arbitrary: a p)
    case 0
    then show ?case by simp
  next
    case (Suc k)
    have "take (Suc a) (p[a := of_nat a]) = take a p @ [of_nat a]"
      using Suc.prems by (simp add: take_Suc_conv_app_nth)
    moreover have "[a..<a + Suc k] = a # [Suc a..<Suc a + k]"
      by (simp add: upt_conv_Cons)
    ultimately show ?case
      using Suc.IH [of "Suc a" "p[a := of_nat a]"] Suc.prems by (simp add: arr_set_def)
  qed
  from this [of 0 n p] show ?thesis using assms by simp
qed

lemma efa_wq_initialize_ok:
  "efa_wq_initialize (Some g) (Some h) wq sub =
     Some (0, wq\<lparr>wrid := Live (map g [0..<unat (wqe_cnt wq)]),
       wrid_idx_pool := Live (map of_nat [0..<unat (wqe_cnt wq)]),
       wqlock := 0, wq_sub_cq_idx := sub\<rparr>)"
  unfolding efa_wq_initialize_def
  by (simp add: malloc_arr_def Let_def pool_init_loop)

lemma efa_wq_initialize_nomem1:
  "efa_wq_initialize None m2 wq sub = Some (ENOMEM, wq\<lparr>wrid := Null\<rparr>)"
  by (simp add: efa_wq_initialize_def malloc_arr_def)

lemma efa_wq_initialize_nomem2:
  "efa_wq_initialize (Some g) None wq sub =
     Some (ENOMEM, wq\<lparr>wrid := Dangling, wrid_idx_pool := Null\<rparr>)"
  by (simp add: efa_wq_initialize_def malloc_arr_def Let_def)

lemmas efa_wq_initialize_cases =
  efa_wq_initialize_ok efa_wq_initialize_nomem1 efa_wq_initialize_nomem2

lemma map_unat_of_nat_upt:
  assumes "n \<le> 2 ^ 32"
  shows "map (unat \<circ> (of_nat :: nat \<Rightarrow> u32)) [0..<n] = [0..<n]"
proof -
  have "map (unat \<circ> (of_nat :: nat \<Rightarrow> u32)) [0..<n] = map id [0..<n]"
    by (rule map_cong) (use assms in \<open>auto simp: unat_of_nat take_bit_nat_eq_self\<close>)
  then show ?thesis by simp
qed

lemma wq_initialized:
  assumes "efa_wq_initialize (Some g) (Some h) wq sub = Some (e, wq')"
    and "unat (wqe_cnt wq) < 2 ^ 16" and "wrid_idx_pool_next wq = 0"
  shows "wq_inv wq' \<and> wq_free wq' = [0..<unat (wqe_cnt wq)] \<and> wq_tags wq' = Map.empty"
proof -
  have wq': "wq' = wq\<lparr>wrid := Live (map g [0..<unat (wqe_cnt wq)]),
       wrid_idx_pool := Live (map of_nat [0..<unat (wqe_cnt wq)]),
       wqlock := 0, wq_sub_cq_idx := sub\<rparr>"
    using assms(1) by (simp add: efa_wq_initialize_ok)
  have free: "wq_free wq' = [0..<unat (wqe_cnt wq)]"
    using assms(2,3) by (simp add: wq' wq_free_def map_unat_of_nat_upt)
  have "wq_inv wq'"
    unfolding wq_inv_def free using assms(2,3) by (simp add: wq')
  moreover have "wq_outstanding wq' = {}"
    unfolding wq_outstanding_def free by (simp add: wq')
  then have "wq_tags wq' = Map.empty" by (simp add: wq_tags_def fun_eq_iff)
  ultimately show ?thesis using free by simp
qed

text \<open>
  C1: the identifier pool implements a finite map. Along every sequence of takes and returns a
  work queue's invariant holds, the pool behaves exactly as the map from outstanding
  identifiers to the application's tags (a taken identifier is fresh, a returned one is
  removed, every other tag is kept), and as long as the map is smaller than the queue a take
  succeeds.
\<close>

theorem wq_pool_refines_map:
  assumes "wq_inv wq"
    and "tag_steps wq_tags (\<lambda>w. unat (wqe_cnt w)) efa_wq_get_next_wrid_idx_locked
           efa_wq_put_wrid_idx_unlocked wq es wq'"
  shows "wq_inv wq' \<and> tag_replay es (wq_tags wq) = Some (wq_tags wq') \<and>
         (card (dom (wq_tags wq')) < unat (wqe_cnt wq') \<longrightarrow>
           (\<exists>i wq''. efa_wq_get_next_wrid_idx_locked wq' tag = Some (i, wq'') \<and>
              wq_tags wq' (unat i) = None \<and> wq_tags wq'' = (wq_tags wq')(unat i \<mapsto> tag)))"
proof -
  have "wq_inv wq'" "tag_replay es (wq_tags wq) = Some (wq_tags wq')"
    using wq_store.steps_refine [OF assms(2,1)] by simp_all
  then show ?thesis using wq_store.get_law [of wq' tag] by blast
qed

definition wq_example :: efa_wq where
  "wq_example = \<lparr>wrid = Live [0, 0, 0, 0], wrid_idx_pool = Live [0, 1, 2, 3], wqe_cnt = 4,
     wqe_posted = 0, wqe_completed = 0, wq_pc = 0, desc_mask = 3, wrid_idx_pool_next = 0,
     wq_max_sge = 2, wq_phase = 0, wqlock = 0, wq_db = 0, wq_sub_cq_idx = 0\<rparr>"

lemma wq_example_inv: "wq_inv wq_example"
  by (simp add: wq_inv_def wq_free_def wq_example_def)

theorem wq_pool_refines_map_witness:
  "\<exists>wq'. tag_replay [Got 0 9, Got 1 8, Ret 0] (wq_tags wq_example) = Some (wq_tags wq') \<and> wq_inv wq'"
proof -
  have "\<exists>wq'. tag_steps wq_tags (\<lambda>w. unat (wqe_cnt w)) efa_wq_get_next_wrid_idx_locked
      efa_wq_put_wrid_idx_unlocked wq_example [Got 0 9, Got 1 8, Ret 0] wq'"
    by (intro exI tag_got tag_ret tag_nil)
      (simp_all add: wq_example_def efa_wq_get_next_wrid_idx_locked_def
        efa_wq_put_wrid_idx_unlocked_def wq_outstanding_def wq_free_def
        pthread_spin_lock_def wq_tags_def, (simp add: atLeastLessThan_upt card_set upt_rec)+, rule tag_nil)
  then show ?thesis using wq_pool_refines_map [OF wq_example_inv] by blast
qed

text \<open>
  C14: creating a work queue is all or nothing, and destroying one gives back what creating it
  took. When both allocations succeed every identifier is free and no tag is recorded, and
  \<open>efa_wq_terminate\<close> then frees both arrays. When one fails the result is \<open>ENOMEM\<close> and no
  array is left allocated.
\<close>

theorem efa_wq_initialize_terminate:
  assumes "unat (wqe_cnt wq) < 2 ^ 16" and "wrid_idx_pool_next wq = 0"
  shows "\<exists>e wq'. efa_wq_initialize m1 m2 wq sub = Some (e, wq') \<and>
    (if m1 \<noteq> None \<and> m2 \<noteq> None
     then e = 0 \<and> wq_inv wq' \<and> wq_tags wq' = Map.empty \<and> wq_sub_cq_idx wq' = sub \<and>
       (\<exists>wq''. efa_wq_terminate wq' = Some wq'' \<and>
          wrid wq'' = Dangling \<and> wrid_idx_pool wq'' = Dangling)
     else e = ENOMEM \<and> (\<forall>xs. wrid wq' \<noteq> Live xs) \<and>
       (wrid_idx_pool wq' = wrid_idx_pool wq \<or> wrid_idx_pool wq' = Null))"
proof (cases m1; cases m2)
  fix g h
  assume m: "m1 = Some g" "m2 = Some h"
  then obtain e wq' where r: "efa_wq_initialize (Some g) (Some h) wq sub = Some (e, wq')"
    by (simp add: efa_wq_initialize_ok)
  then show ?thesis
    using m wq_initialized [OF r assms]
    by (auto simp: efa_wq_initialize_ok efa_wq_terminate_def)
qed (simp_all add: efa_wq_initialize_cases)

theorem efa_wq_initialize_terminate_witness:
  "\<exists>e wq'. efa_wq_initialize (Some (\<lambda>_. 7)) None wq_example 1 = Some (e, wq') \<and> e = ENOMEM"
  using efa_wq_initialize_terminate [of wq_example "Some (\<lambda>_. 7)" None 1]
  by (auto simp: wq_example_def)

end
