(* ===== verification/Efa_Cq.thy ===== *)
theory Efa_Cq
  imports Efa_Wq
begin

text \<open>
  Polling of completion queues (\<open>efawin/verbs.c\<close>, from \<open>efa_sub_cq_get_current_index\<close> to
  \<open>efa_sub_cq_initialize\<close>) and the inline dispatchers of \<open>verbs.h\<close> that reach it.

  The device writes completions into the ring \<open>cq_buf\<close>; during a call its contents are fixed,
  between calls they may change. The queue pairs are a heap from pointers to objects, the
  context's table maps queue pair numbers to pointers.
\<close>

section \<open>One sub-queue\<close>

definition efa_sub_cq_get_current_index :: "efa_sub_cq \<Rightarrow> u32" where
  "efa_sub_cq_get_current_index sub_cq = ucast (consumed_cnt sub_cq) AND sub_qmask sub_cq"

definition efa_cqe_is_pending :: "efa_io_cdesc_common \<Rightarrow> i32 \<Rightarrow> bool" where
  "efa_cqe_is_pending cqe_common phase \<longleftrightarrow>
     EFA_GET (cd_flags cqe_common) EFA_IO_CDESC_COMMON_PHASE_MASK = size_of_int phase"

text \<open>The pointer \<open>buf + entry * cqe_size\<close>; one before the buffer is not an object.\<close>

definition efa_sub_cq_get_cqe :: "efa_sub_cq \<Rightarrow> i32 \<Rightarrow> nat option" where
  "efa_sub_cq_get_cqe sub_cq entry =
     (let off = int (sub_buf sub_cq) + sint (entry * sub_cqe_size sub_cq)
      in if off < 0 then None else Some (nat off))"

text \<open>Reading a completion descriptor through its pointer.\<close>

definition deref_cdesc :: "u8 list option \<Rightarrow> nat \<Rightarrow> efa_io_cdesc_common option" where
  "deref_cdesc buf off =
     (case buf of None \<Rightarrow> None
      | Some m \<Rightarrow> if off + 8 \<le> length m then Some (cdesc_common_of_bytes (drop off m)) else None)"

definition deref_rx_cdesc :: "u8 list option \<Rightarrow> nat \<Rightarrow> efa_io_rx_cdesc option" where
  "deref_rx_cdesc buf off =
     (case buf of None \<Rightarrow> None
      | Some m \<Rightarrow> if off + 16 \<le> length m then Some (rx_cdesc_of_bytes (drop off m)) else None)"

definition cq_next_sub_cqe_get ::
  "u8 list option \<Rightarrow> efa_sub_cq \<Rightarrow> (nat option \<times> efa_sub_cq) option" where
  "cq_next_sub_cqe_get buf sub_cq =
     do {
       let current_index = efa_sub_cq_get_current_index sub_cq;
       cqe \<leftarrow> efa_sub_cq_get_cqe sub_cq current_index;
       c \<leftarrow> deref_cdesc buf cqe;
       if efa_cqe_is_pending c (sub_phase sub_cq) then
         (let sub_cq = sub_cq\<lparr>consumed_cnt := consumed_cnt sub_cq + 1\<rparr>;
              sub_cq = (if efa_sub_cq_get_current_index sub_cq = 0
                        then sub_cq\<lparr>sub_phase := 1 - sub_phase sub_cq\<rparr> else sub_cq)
          in Some (Some cqe, sub_cq))
       else Some (None, sub_cq)
     }"

definition efa_sub_cq_initialize :: "efa_sub_cq \<Rightarrow> nat \<Rightarrow> i32 \<Rightarrow> i32 \<Rightarrow> efa_sub_cq" where
  "efa_sub_cq_initialize sub_cq buf sub_cq_size cqe_size =
     sub_cq\<lparr>consumed_cnt := 0, sub_phase := 1, sub_buf := buf, sub_qmask := sub_cq_size - 1,
       sub_cqe_size := cqe_size, sub_ref_cnt := 0\<rparr>"

text \<open>The switch falls through to \<open>IBV_WC_GENERAL_ERR\<close> for every value it does not name.\<close>

definition to_ibv_status :: "u8 \<Rightarrow> ibv_wc_status" where
  "to_ibv_status status =
     (if status = efa_io_comp_status_val EFA_IO_COMP_STATUS_OK then IBV_WC_SUCCESS
      else if status = efa_io_comp_status_val EFA_IO_COMP_STATUS_FLUSHED then IBV_WC_WR_FLUSH_ERR
      else if status = efa_io_comp_status_val EFA_IO_COMP_STATUS_LOCAL_ERROR_QP_INTERNAL_ERROR \<or>
              status = efa_io_comp_status_val EFA_IO_COMP_STATUS_LOCAL_ERROR_INVALID_OP_TYPE \<or>
              status = efa_io_comp_status_val EFA_IO_COMP_STATUS_LOCAL_ERROR_INVALID_AH
        then IBV_WC_LOC_QP_OP_ERR
      else if status = efa_io_comp_status_val EFA_IO_COMP_STATUS_LOCAL_ERROR_INVALID_LKEY
        then IBV_WC_LOC_PROT_ERR
      else if status = efa_io_comp_status_val EFA_IO_COMP_STATUS_LOCAL_ERROR_BAD_LENGTH
        then IBV_WC_LOC_LEN_ERR
      else if status = efa_io_comp_status_val EFA_IO_COMP_STATUS_REMOTE_ERROR_ABORT
        then IBV_WC_REM_ABORT_ERR
      else if status = efa_io_comp_status_val EFA_IO_COMP_STATUS_REMOTE_ERROR_RNR
        then IBV_WC_RNR_RETRY_EXC_ERR
      else if status = efa_io_comp_status_val EFA_IO_COMP_STATUS_REMOTE_ERROR_BAD_DEST_QPN
        then IBV_WC_REM_INV_RD_REQ_ERR
      else if status = efa_io_comp_status_val EFA_IO_COMP_STATUS_REMOTE_ERROR_BAD_STATUS
        then IBV_WC_BAD_RESP_ERR
      else if status = efa_io_comp_status_val EFA_IO_COMP_STATUS_REMOTE_ERROR_BAD_LENGTH
        then IBV_WC_REM_INV_REQ_ERR
      else IBV_WC_GENERAL_ERR)"

section \<open>The queue a completion belongs to\<close>

type_synonym qp_heap = "ptr \<rightharpoonup> efa_qp"

fun wq_at :: "qp_heap \<Rightarrow> wq_ref \<Rightarrow> efa_wq option" where
  "wq_at qps (Sq_wq p) = map_option (\<lambda>qp. sq_wq (qp_sq qp)) (qps p)"
| "wq_at qps (Rq_wq p) = map_option (\<lambda>qp. rq_wq (qp_rq qp)) (qps p)"

fun wq_upd :: "qp_heap \<Rightarrow> wq_ref \<Rightarrow> efa_wq \<Rightarrow> qp_heap" where
  "wq_upd qps (Sq_wq p) wq =
     (case qps p of None \<Rightarrow> qps
      | Some qp \<Rightarrow> qps(p \<mapsto> qp\<lparr>qp_sq := (qp_sq qp)\<lparr>sq_wq := wq\<rparr>\<rparr>))"
| "wq_upd qps (Rq_wq p) wq =
     (case qps p of None \<Rightarrow> qps
      | Some qp \<Rightarrow> qps(p \<mapsto> qp\<lparr>qp_rq := (qp_rq qp)\<lparr>rq_wq := wq\<rparr>\<rparr>))"

text \<open>\<open>efa_wq_put_wrid_idx_unlocked(cq->cur_wq, id)\<close> on the heap.\<close>

definition put_wrid_at :: "qp_heap \<Rightarrow> wq_ref option \<Rightarrow> u32 \<Rightarrow> qp_heap option" where
  "put_wrid_at qps ref wrid_idx =
     do {
       r \<leftarrow> ref;
       wq \<leftarrow> wq_at qps r;
       wq' \<leftarrow> efa_wq_put_wrid_idx_unlocked wq wrid_idx;
       Some (wq_upd qps r wq')
     }"

definition efa_process_cqe ::
  "efa_cq \<Rightarrow> ibv_wc \<Rightarrow> qp_heap \<Rightarrow> ptr \<Rightarrow> (efa_cq \<times> ibv_wc) option" where
  "efa_process_cqe cq wc qps qp =
     do {
       off \<leftarrow> cur_cqe cq;
       cqe \<leftarrow> deref_cdesc (cq_buf cq) off;
       let wc = wc\<lparr>wc_status := to_ibv_status (cd_status cqe), wc_vendor_err := ucast (cd_status cqe),
                  wc_wc_flags := 0, wc_qp_num := ucast (cd_qp_num cqe)\<rparr>;
       (cq, wc) \<leftarrow>
         (if EFA_GET (cd_flags cqe) EFA_IO_CDESC_COMMON_Q_TYPE_MASK = EFA_IO_SEND_QUEUE then
            Some (cq\<lparr>cur_wq := Some (Sq_wq qp)\<rparr>, wc\<lparr>wc_opcode := IBV_WC_SEND\<rparr>)
          else
            do {
              rcqe \<leftarrow> deref_rx_cdesc (cq_buf cq) off;
              let wc = wc\<lparr>wc_byte_len := ucast (cd_length cqe), wc_opcode := IBV_WC_RECV,
                          wc_src_qp := ucast (rcd_src_qp_num rcqe), wc_sl := 0,
                          wc_slid := rcd_ah rcqe\<rparr>;
              let wc = (if EFA_GET (cd_flags cqe) EFA_IO_CDESC_COMMON_HAS_IMM_MASK \<noteq> 0
                        then wc\<lparr>wc_imm_data := htobe32 (rcd_imm rcqe),
                                wc_wc_flags := wc_wc_flags wc OR IBV_WC_WITH_IMM\<rparr>
                        else wc);
              Some (cq\<lparr>cur_wq := Some (Rq_wq qp)\<rparr>, wc)
            });
       r \<leftarrow> cur_wq cq;
       wq \<leftarrow> wq_at qps r;
       tag \<leftarrow> cb_get (wrid wq) (unat (cd_req_id cqe));
       Some (cq, wc\<lparr>wc_wr_id := tag\<rparr>)
     }"

definition efa_process_ex_cqe :: "efa_cq \<Rightarrow> qp_heap \<Rightarrow> ptr \<Rightarrow> efa_cq option" where
  "efa_process_ex_cqe cq qps qp =
     do {
       off \<leftarrow> cur_cqe cq;
       cqe \<leftarrow> deref_cdesc (cq_buf cq) off;
       let r = (if EFA_GET (cd_flags cqe) EFA_IO_CDESC_COMMON_Q_TYPE_MASK = EFA_IO_SEND_QUEUE
                then Sq_wq qp else Rq_wq qp);
       let cq = cq\<lparr>cur_wq := Some r\<rparr>;
       wq \<leftarrow> wq_at qps r;
       tag \<leftarrow> cb_get (wrid wq) (unat (cd_req_id cqe));
       Some (cq\<lparr>verbs_cq := (verbs_cq cq)\<lparr>cqx_wr_id := tag,
                  cqx_status := to_ibv_status (cd_status cqe)\<rparr>\<rparr>)
     }"

section \<open>The polling loops\<close>

text \<open>
  What a poll works on: the completion queue, the queue pairs, the queue pair of the last
  completion (\<open>cur_qp\<close>) and the caller's completion record.
\<close>

record poll_state =
  ps_cq :: efa_cq
  ps_qps :: qp_heap
  ps_cur_qp :: "ptr option"
  ps_wc :: ibv_wc

text \<open>The test \<open>!*cur_qp || qpn != (*cur_qp)->...qp_num\<close> and the lookup it guards.\<close>

definition lookup_cur_qp ::
  "efa_context \<Rightarrow> qp_heap \<Rightarrow> ptr option \<Rightarrow> u32 \<Rightarrow> (ptr option) option" where
  "lookup_cur_qp ctx qps cur_qp qpn =
     (case cur_qp of
        None \<Rightarrow> cb_get (qp_table ctx) (unat (qpn AND qp_table_sz_m1 ctx))
      | Some p \<Rightarrow>
          do {
            qp \<leftarrow> qps p;
            if qpn \<noteq> qp_num (verbs_qp qp)
            then cb_get (qp_table ctx) (unat (qpn AND qp_table_sz_m1 ctx))
            else Some (Some p)
          })"

definition efa_poll_sub_cq ::
  "efa_context \<Rightarrow> nat \<Rightarrow> bool \<Rightarrow> poll_state \<Rightarrow> (int \<times> poll_state) option" where
  "efa_poll_sub_cq ctx k extended st =
     do {
       sub \<leftarrow> arr_get (sub_cq_arr (ps_cq st)) k;
       (cqe, sub') \<leftarrow> cq_next_sub_cqe_get (cq_buf (ps_cq st)) sub;
       let cq = (ps_cq st)\<lparr>sub_cq_arr := (sub_cq_arr (ps_cq st))[k := sub'], cur_cqe := cqe\<rparr>;
       case cqe of
         None \<Rightarrow> Some (ENOENT, st\<lparr>ps_cq := cq\<rparr>)
       | Some off \<Rightarrow>
           do {
             c \<leftarrow> deref_cdesc (cq_buf cq) off;
             cur_qp \<leftarrow> lookup_cur_qp ctx (ps_qps st) (ps_cur_qp st) (ucast (cd_qp_num c));
             case cur_qp of
               None \<Rightarrow> Some (EINVAL, st\<lparr>ps_cq := cq, ps_cur_qp := None\<rparr>)
             | Some qp \<Rightarrow>
                 (if extended then
                    do {
                      cq' \<leftarrow> efa_process_ex_cqe cq (ps_qps st) qp;
                      Some (0, st\<lparr>ps_cq := cq', ps_cur_qp := cur_qp\<rparr>)
                    }
                  else
                    do {
                      (cq', wc') \<leftarrow> efa_process_cqe cq (ps_wc st) (ps_qps st) qp;
                      qps' \<leftarrow> put_wrid_at (ps_qps st) (cur_wq cq') (ucast (cd_req_id c));
                      Some (0, st\<lparr>ps_cq := cq', ps_qps := qps', ps_cur_qp := cur_qp, ps_wc := wc'\<rparr>)
                    })
           }
     }"

text \<open>
  The body of the loop over the sub-queues: the first component says whether it breaks.
  \<open>n\<close> is the number of iterations left.
\<close>

primrec poll_sub_cqs_loop ::
  "efa_context \<Rightarrow> bool \<Rightarrow> nat \<Rightarrow> int \<Rightarrow> poll_state \<Rightarrow> (int \<times> poll_state) option" where
  "poll_sub_cqs_loop ctx extended 0 err st = Some (err, st)"
| "poll_sub_cqs_loop ctx extended (Suc n) err st =
     (let k = unat (next_poll_idx (ps_cq st));
          idx = (next_poll_idx (ps_cq st) + 1) mod num_sub_cqs (ps_cq st);
          st = st\<lparr>ps_cq := (ps_cq st)\<lparr>next_poll_idx := idx\<rparr>\<rparr>
      in do {
           sub \<leftarrow> arr_get (sub_cq_arr (ps_cq st)) k;
           if sub_ref_cnt sub = 0 then poll_sub_cqs_loop ctx extended n err st
           else
             do {
               (err, st) \<leftarrow> efa_poll_sub_cq ctx k extended st;
               if err \<noteq> ENOENT then Some (err, st)
               else poll_sub_cqs_loop ctx extended n err st
             }
         })"

definition efa_poll_sub_cqs ::
  "efa_context \<Rightarrow> bool \<Rightarrow> efa_cq \<Rightarrow> qp_heap \<Rightarrow> ibv_wc \<Rightarrow>
   (int \<times> efa_cq \<times> qp_heap \<times> ibv_wc) option" where
  "efa_poll_sub_cqs ctx extended cq qps wc =
     do {
       (err, st) \<leftarrow> poll_sub_cqs_loop ctx extended (unat (num_sub_cqs cq)) ENOENT
         \<lparr>ps_cq = cq, ps_qps = qps, ps_cur_qp = None, ps_wc = wc\<rparr>;
       Some (err, ps_cq st, ps_qps st, ps_wc st)
     }"

primrec poll_cq_loop ::
  "efa_context \<Rightarrow> nat \<Rightarrow> nat \<Rightarrow> efa_cq \<Rightarrow> qp_heap \<Rightarrow> ibv_wc list \<Rightarrow>
   (nat \<times> int \<times> efa_cq \<times> qp_heap \<times> ibv_wc list) option" where
  "poll_cq_loop ctx 0 i cq qps wcs = Some (i, 0, cq, qps, wcs)"
| "poll_cq_loop ctx (Suc n) i cq qps wcs =
     do {
       wc \<leftarrow> arr_get wcs i;
       (ret, cq, qps, wc) \<leftarrow> efa_poll_sub_cqs ctx False cq qps wc;
       if ret \<noteq> 0
       then Some (i, (if ret = ENOENT then 0 else ret), cq, qps, wcs[i := wc])
       else poll_cq_loop ctx n (Suc i) cq qps (wcs[i := wc])
     }"

definition efa_poll_cq ::
  "efa_context \<Rightarrow> efa_cq \<Rightarrow> qp_heap \<Rightarrow> i32 \<Rightarrow> ibv_wc list \<Rightarrow>
   (int \<times> efa_cq \<times> qp_heap \<times> ibv_wc list) option" where
  "efa_poll_cq ctx cq qps nwc wcs =
     do {
       let cq = cq\<lparr>cq_lock := pthread_spin_lock (cq_lock cq)\<rparr>;
       (i, ret, cq, qps, wcs) \<leftarrow> poll_cq_loop ctx (nat (sint nwc)) 0 cq qps wcs;
       l \<leftarrow> pthread_spin_unlock (cq_lock cq);
       Some (if i \<noteq> 0 then int i else - ret, cq\<lparr>cq_lock := l\<rparr>, qps, wcs)
     }"

section \<open>The extended polling interface\<close>

text \<open>In these calls \<open>wc\<close> is the null pointer and is never used; any value stands for it.\<close>

definition null_wc :: ibv_wc where
  "null_wc = \<lparr>wc_wr_id = 0, wc_status = IBV_WC_SUCCESS, wc_opcode = IBV_WC_SEND, wc_vendor_err = 0,
     wc_byte_len = 0, wc_imm_data = 0, wc_qp_num = 0, wc_src_qp = 0, wc_wc_flags = 0,
     wc_pkey_index = 0, wc_slid = 0, wc_sl = 0, wc_dlid_path_bits = 0\<rparr>"

definition efa_start_poll ::
  "efa_context \<Rightarrow> efa_cq \<Rightarrow> qp_heap \<Rightarrow> u32 \<Rightarrow> (int \<times> efa_cq \<times> qp_heap) option" where
  "efa_start_poll ctx cq qps attr_comp_mask =
     (if attr_comp_mask \<noteq> 0 then Some (EINVAL, cq, qps)
      else
        do {
          let cq = cq\<lparr>cq_lock := pthread_spin_lock (cq_lock cq)\<rparr>;
          (ret, cq, qps, _) \<leftarrow> efa_poll_sub_cqs ctx True cq qps null_wc;
          if ret \<noteq> 0 then
            do {
              l \<leftarrow> pthread_spin_unlock (cq_lock cq);
              Some (ret, cq\<lparr>cq_lock := l\<rparr>, qps)
            }
          else Some (ret, cq, qps)
        })"

definition cur_req_id :: "efa_cq \<Rightarrow> u16 option" where
  "cur_req_id cq =
     do {
       off \<leftarrow> cur_cqe cq;
       c \<leftarrow> deref_cdesc (cq_buf cq) off;
       Some (cd_req_id c)
     }"

definition efa_next_poll ::
  "efa_context \<Rightarrow> efa_cq \<Rightarrow> qp_heap \<Rightarrow> (int \<times> efa_cq \<times> qp_heap) option" where
  "efa_next_poll ctx cq qps =
     do {
       req_id \<leftarrow> cur_req_id cq;
       qps \<leftarrow> put_wrid_at qps (cur_wq cq) (ucast req_id);
       (ret, cq, qps, _) \<leftarrow> efa_poll_sub_cqs ctx True cq qps null_wc;
       Some (ret, cq, qps)
     }"

definition efa_end_poll :: "efa_cq \<Rightarrow> qp_heap \<Rightarrow> (efa_cq \<times> qp_heap) option" where
  "efa_end_poll cq qps =
     do {
       qps \<leftarrow> (if cur_cqe cq \<noteq> None then
                 do {
                   req_id \<leftarrow> cur_req_id cq;
                   put_wrid_at qps (cur_wq cq) (ucast req_id)
                 }
               else Some qps);
       l \<leftarrow> pthread_spin_unlock (cq_lock cq);
       Some (cq\<lparr>cq_lock := l\<rparr>, qps)
     }"

text \<open>The accessors of the current completion.\<close>

definition cur_cdesc :: "efa_cq \<Rightarrow> efa_io_cdesc_common option" where
  "cur_cdesc cq = Option.bind (cur_cqe cq) (deref_cdesc (cq_buf cq))"

definition cur_rx_cdesc :: "efa_cq \<Rightarrow> efa_io_rx_cdesc option" where
  "cur_rx_cdesc cq = Option.bind (cur_cqe cq) (deref_rx_cdesc (cq_buf cq))"

definition efa_wc_read_opcode :: "efa_cq \<Rightarrow> ibv_wc_opcode option" where
  "efa_wc_read_opcode cq =
     do {
       cqe \<leftarrow> cur_cdesc cq;
       Some (if EFA_GET (cd_flags cqe) EFA_IO_CDESC_COMMON_Q_TYPE_MASK = EFA_IO_SEND_QUEUE
             then IBV_WC_SEND else IBV_WC_RECV)
     }"

definition efa_wc_read_vendor_err :: "efa_cq \<Rightarrow> u32 option" where
  "efa_wc_read_vendor_err cq = do { cqe \<leftarrow> cur_cdesc cq; Some (ucast (cd_status cqe)) }"

definition efa_wc_read_wc_flags :: "efa_cq \<Rightarrow> u32 option" where
  "efa_wc_read_wc_flags cq =
     do {
       cqe \<leftarrow> cur_cdesc cq;
       let wc_flags = 0;
       Some (if EFA_GET (cd_flags cqe) EFA_IO_CDESC_COMMON_HAS_IMM_MASK \<noteq> 0
             then wc_flags OR IBV_WC_WITH_IMM else wc_flags)
     }"

definition efa_wc_read_byte_len :: "efa_cq \<Rightarrow> u32 option" where
  "efa_wc_read_byte_len cq = do { cqe \<leftarrow> cur_cdesc cq; Some (ucast (cd_length cqe)) }"

definition efa_wc_read_imm_data :: "efa_cq \<Rightarrow> u32 option" where
  "efa_wc_read_imm_data cq = do { rcqe \<leftarrow> cur_rx_cdesc cq; Some (htobe32 (rcd_imm rcqe)) }"

definition efa_wc_read_qp_num :: "efa_cq \<Rightarrow> u32 option" where
  "efa_wc_read_qp_num cq = do { cqe \<leftarrow> cur_cdesc cq; Some (ucast (cd_qp_num cqe)) }"

definition efa_wc_read_src_qp :: "efa_cq \<Rightarrow> u32 option" where
  "efa_wc_read_src_qp cq = do { rcqe \<leftarrow> cur_rx_cdesc cq; Some (ucast (rcd_src_qp_num rcqe)) }"

definition efa_wc_read_slid :: "efa_cq \<Rightarrow> u32 option" where
  "efa_wc_read_slid cq = do { rcqe \<leftarrow> cur_rx_cdesc cq; Some (ucast (rcd_ah rcqe)) }"

definition efa_wc_read_sl :: "efa_cq \<Rightarrow> u8 option" where
  "efa_wc_read_sl cq = Some 0"

definition efa_wc_read_dlid_path_bits :: "efa_cq \<Rightarrow> u8 option" where
  "efa_wc_read_dlid_path_bits cq = Some 0"

text \<open>The function table; what the flags do not ask for stays null.\<close>

definition efa_cq_fill_pfns :: "ibv_cq_ex \<Rightarrow> u64 \<Rightarrow> ibv_cq_ex" where
  "efa_cq_fill_pfns x wc_flags =
     (let x = x\<lparr>start_poll := Some Fn_start_poll, end_poll := Some Fn_end_poll,
               next_poll := Some Fn_next_poll, read_opcode := Some Fn_wc_read_opcode,
               read_vendor_err := Some Fn_wc_read_vendor_err,
               read_wc_flags := Some Fn_wc_read_wc_flags\<rparr>;
          x = (if wc_flags AND IBV_WC_EX_WITH_BYTE_LEN \<noteq> 0
               then x\<lparr>read_byte_len := Some Fn_wc_read_byte_len\<rparr> else x);
          x = (if wc_flags AND IBV_WC_EX_WITH_IMM \<noteq> 0
               then x\<lparr>read_imm_data := Some Fn_wc_read_imm_data\<rparr> else x);
          x = (if wc_flags AND IBV_WC_EX_WITH_QP_NUM \<noteq> 0
               then x\<lparr>read_qp_num := Some Fn_wc_read_qp_num\<rparr> else x);
          x = (if wc_flags AND IBV_WC_EX_WITH_SRC_QP \<noteq> 0
               then x\<lparr>read_src_qp := Some Fn_wc_read_src_qp\<rparr> else x);
          x = (if wc_flags AND IBV_WC_EX_WITH_SLID \<noteq> 0
               then x\<lparr>read_slid := Some Fn_wc_read_slid\<rparr> else x);
          x = (if wc_flags AND IBV_WC_EX_WITH_SL \<noteq> 0
               then x\<lparr>read_sl := Some Fn_wc_read_sl\<rparr> else x)
      in if wc_flags AND IBV_WC_EX_WITH_DLID_PATH_BITS \<noteq> 0
         then x\<lparr>read_dlid_path_bits := Some Fn_wc_read_dlid_path_bits\<rparr> else x)"

text \<open>
  The inline functions of \<open>verbs.h\<close>: a call through the table. A null or a wrong pointer in
  the slot is undefined.
\<close>

definition ibv_start_poll ::
  "efa_context \<Rightarrow> efa_cq \<Rightarrow> qp_heap \<Rightarrow> u32 \<Rightarrow> (int \<times> efa_cq \<times> qp_heap) option" where
  "ibv_start_poll ctx cq qps attr_comp_mask =
     (if start_poll (verbs_cq cq) = Some Fn_start_poll
      then efa_start_poll ctx cq qps attr_comp_mask else None)"

definition ibv_next_poll ::
  "efa_context \<Rightarrow> efa_cq \<Rightarrow> qp_heap \<Rightarrow> (int \<times> efa_cq \<times> qp_heap) option" where
  "ibv_next_poll ctx cq qps =
     (if next_poll (verbs_cq cq) = Some Fn_next_poll then efa_next_poll ctx cq qps else None)"

definition ibv_end_poll :: "efa_cq \<Rightarrow> qp_heap \<Rightarrow> (efa_cq \<times> qp_heap) option" where
  "ibv_end_poll cq qps =
     (if end_poll (verbs_cq cq) = Some Fn_end_poll then efa_end_poll cq qps else None)"

definition ibv_wc_read_opcode :: "efa_cq \<Rightarrow> ibv_wc_opcode option" where
  "ibv_wc_read_opcode cq =
     (if read_opcode (verbs_cq cq) = Some Fn_wc_read_opcode then efa_wc_read_opcode cq else None)"

definition ibv_wc_read_vendor_err :: "efa_cq \<Rightarrow> u32 option" where
  "ibv_wc_read_vendor_err cq =
     (if read_vendor_err (verbs_cq cq) = Some Fn_wc_read_vendor_err
      then efa_wc_read_vendor_err cq else None)"

definition ibv_wc_read_byte_len :: "efa_cq \<Rightarrow> u32 option" where
  "ibv_wc_read_byte_len cq =
     (if read_byte_len (verbs_cq cq) = Some Fn_wc_read_byte_len
      then efa_wc_read_byte_len cq else None)"

definition ibv_wc_read_imm_data :: "efa_cq \<Rightarrow> u32 option" where
  "ibv_wc_read_imm_data cq =
     (if read_imm_data (verbs_cq cq) = Some Fn_wc_read_imm_data
      then efa_wc_read_imm_data cq else None)"

definition ibv_wc_read_qp_num :: "efa_cq \<Rightarrow> u32 option" where
  "ibv_wc_read_qp_num cq =
     (if read_qp_num (verbs_cq cq) = Some Fn_wc_read_qp_num
      then efa_wc_read_qp_num cq else None)"

definition ibv_wc_read_src_qp :: "efa_cq \<Rightarrow> u32 option" where
  "ibv_wc_read_src_qp cq =
     (if read_src_qp (verbs_cq cq) = Some Fn_wc_read_src_qp
      then efa_wc_read_src_qp cq else None)"

definition ibv_wc_read_wc_flags :: "efa_cq \<Rightarrow> u32 option" where
  "ibv_wc_read_wc_flags cq =
     (if read_wc_flags (verbs_cq cq) = Some Fn_wc_read_wc_flags
      then efa_wc_read_wc_flags cq else None)"

definition ibv_wc_read_slid :: "efa_cq \<Rightarrow> u32 option" where
  "ibv_wc_read_slid cq =
     (if read_slid (verbs_cq cq) = Some Fn_wc_read_slid then efa_wc_read_slid cq else None)"

definition ibv_wc_read_sl :: "efa_cq \<Rightarrow> u8 option" where
  "ibv_wc_read_sl cq =
     (if read_sl (verbs_cq cq) = Some Fn_wc_read_sl then efa_wc_read_sl cq else None)"

definition ibv_wc_read_dlid_path_bits :: "efa_cq \<Rightarrow> u8 option" where
  "ibv_wc_read_dlid_path_bits cq =
     (if read_dlid_path_bits (verbs_cq cq) = Some Fn_wc_read_dlid_path_bits
      then efa_wc_read_dlid_path_bits cq else None)"

lemma comp_status_byte_cases:
  fixes b :: u8
  shows "b \<in> {0, 1, 2, 3, 4, 5, 6, 7, 8, 9, 10, 11, 12} \<or> 12 < b"
proof (cases "12 < b")
  case False
  then have "unat b \<le> 12" by (simp add: word_less_nat_alt)
  then have "unat b \<in> {0, 1, 2, 3, 4, 5, 6, 7, 8, 9, 10, 11, 12}" by simp presburger
  then have "(of_nat (unat b) :: u8) \<in> of_nat ` {0, 1, 2, 3, 4, 5, 6, 7, 8, 9, 10, 11, 12}"
    by (rule imageI)
  then show ?thesis by simp
qed simp

text \<open>
  Every status byte the device can put into a completion is reported as the verbs status
  of the table below, values the library does not know as a general error, and a completion
  is reported as successful exactly if its status byte is \<open>EFA_IO_COMP_STATUS_OK\<close>.
\<close>

theorem to_ibv_status_table:
  "map (to_ibv_status \<circ> efa_io_comp_status_val)
     [EFA_IO_COMP_STATUS_OK, EFA_IO_COMP_STATUS_FLUSHED,
      EFA_IO_COMP_STATUS_LOCAL_ERROR_QP_INTERNAL_ERROR,
      EFA_IO_COMP_STATUS_LOCAL_ERROR_INVALID_OP_TYPE, EFA_IO_COMP_STATUS_LOCAL_ERROR_INVALID_AH,
      EFA_IO_COMP_STATUS_LOCAL_ERROR_INVALID_LKEY, EFA_IO_COMP_STATUS_LOCAL_ERROR_BAD_LENGTH,
      EFA_IO_COMP_STATUS_REMOTE_ERROR_BAD_ADDRESS, EFA_IO_COMP_STATUS_REMOTE_ERROR_ABORT,
      EFA_IO_COMP_STATUS_REMOTE_ERROR_BAD_DEST_QPN, EFA_IO_COMP_STATUS_REMOTE_ERROR_RNR,
      EFA_IO_COMP_STATUS_REMOTE_ERROR_BAD_LENGTH, EFA_IO_COMP_STATUS_REMOTE_ERROR_BAD_STATUS] =
   [IBV_WC_SUCCESS, IBV_WC_WR_FLUSH_ERR, IBV_WC_LOC_QP_OP_ERR, IBV_WC_LOC_QP_OP_ERR,
    IBV_WC_LOC_QP_OP_ERR, IBV_WC_LOC_PROT_ERR, IBV_WC_LOC_LEN_ERR, IBV_WC_GENERAL_ERR,
    IBV_WC_REM_ABORT_ERR, IBV_WC_REM_INV_RD_REQ_ERR, IBV_WC_RNR_RETRY_EXC_ERR,
    IBV_WC_REM_INV_REQ_ERR, IBV_WC_BAD_RESP_ERR] \<and>
   (to_ibv_status b = IBV_WC_SUCCESS) = (b = efa_io_comp_status_val EFA_IO_COMP_STATUS_OK) \<and>
   (to_ibv_status b = IBV_WC_GENERAL_ERR) =
     (b = efa_io_comp_status_val EFA_IO_COMP_STATUS_REMOTE_ERROR_BAD_ADDRESS \<or> 12 < b)"
  by (use comp_status_byte_cases [of b] in \<open>auto simp: to_ibv_status_def\<close>)

end
