(* ===== verification/Efa_Cq_Ring.thy ===== *)
theory Efa_Cq_Ring
  imports Efa_Cq
begin

text \<open>
  The completion ring as a queue. The device fills the slots of a sub-queue in order and marks
  each entry with a phase bit that flips on every pass; the library (\<open>cq_next_sub_cqe_get\<close>)
  reads them in order and compares the bit. The locale \<open>fifo_channel\<close> is the contract of a
  bounded first-in first-out channel; the ring with the device's side is an instance of it.
\<close>

section \<open>The contract\<close>

datatype 'e chan_event = Enq 'e | Deq "'e option"

inductive chan_run ::
  "('s \<Rightarrow> 'e list) \<Rightarrow> nat \<Rightarrow> ('e \<Rightarrow> bool) \<Rightarrow> ('e \<Rightarrow> 's \<Rightarrow> 's) \<Rightarrow> ('s \<Rightarrow> ('e option \<times> 's) option) \<Rightarrow>
   's \<Rightarrow> 'e chan_event list \<Rightarrow> 's \<Rightarrow> bool"
  for queue cap ok enq deq where
  run_nil: "chan_run queue cap ok enq deq s [] s"
| run_enq: "ok e \<Longrightarrow> length (queue s) < cap \<Longrightarrow> chan_run queue cap ok enq deq (enq e s) es s' \<Longrightarrow>
     chan_run queue cap ok enq deq s (Enq e # es) s'"
| run_deq: "deq s = Some (x, s1) \<Longrightarrow> chan_run queue cap ok enq deq s1 es s' \<Longrightarrow>
     chan_run queue cap ok enq deq s (Deq x # es) s'"

inductive_simps chan_run_Nil: "chan_run queue cap ok enq deq s [] s'"
inductive_cases chan_run_DeqE: "chan_run queue cap ok enq deq s (Deq x # es) s'"

fun chan_in :: "'e chan_event list \<Rightarrow> 'e list" where
  "chan_in [] = []"
| "chan_in (Enq e # es) = e # chan_in es"
| "chan_in (Deq x # es) = chan_in es"

fun chan_out :: "'e chan_event list \<Rightarrow> 'e list" where
  "chan_out [] = []"
| "chan_out (Enq e # es) = chan_out es"
| "chan_out (Deq None # es) = chan_out es"
| "chan_out (Deq (Some x) # es) = x # chan_out es"

locale fifo_channel =
  fixes inv :: "'s \<Rightarrow> bool"
    and queue :: "'s \<Rightarrow> 'e list"
    and cap :: nat
    and ok :: "'e \<Rightarrow> bool"
    and enq :: "'e \<Rightarrow> 's \<Rightarrow> 's"
    and deq :: "'s \<Rightarrow> ('e option \<times> 's) option"
  assumes enq_law: "inv s \<Longrightarrow> ok e \<Longrightarrow> length (queue s) < cap \<Longrightarrow>
      inv (enq e s) \<and> queue (enq e s) = queue s @ [e]"
    and deq_law: "inv s \<Longrightarrow>
      \<exists>s'. deq s = Some (case queue s of [] \<Rightarrow> None | x # _ \<Rightarrow> Some x, s') \<and>
           inv s' \<and> queue s' = tl (queue s)"
begin

lemma run_fifo:
  assumes "chan_run queue cap ok enq deq s es s'" and "inv s"
  shows "inv s' \<and> queue s @ chan_in es = chan_out es @ queue s'"
  using assms
proof (induction rule: chan_run.induct)
  case (run_nil s)
  then show ?case by simp
next
  case (run_enq e s es s')
  then show ?case using enq_law [of s e] by auto
next
  case (run_deq s x s1 es s')
  have d: "x = (case queue s of [] \<Rightarrow> None | y # _ \<Rightarrow> Some y)" "inv s1" "queue s1 = tl (queue s)"
    using deq_law [OF run_deq.prems] run_deq.hyps(1) by auto
  then show ?case using run_deq.IH by (cases "queue s") auto
qed

lemma deq_total: "inv s \<Longrightarrow> deq s \<noteq> None"
  using deq_law by fastforce

lemma deq_None_iff: "inv s \<Longrightarrow> deq s = Some (x, s') \<Longrightarrow> x = None \<longleftrightarrow> queue s = []"
  using deq_law [of s] by (auto split: list.splits)

text \<open>A channel that is left alone is drained by as many reads as it has entries.\<close>

lemma drain:
  assumes "inv s"
  shows "\<exists>s'. chan_run queue cap ok enq deq s (map (Deq \<circ> Some) (queue s)) s' \<and> queue s' = []"
  using assms
proof (induction "queue s" arbitrary: s)
  case Nil
  then show ?case by (metis list.map_disc_iff run_nil)
next
  case (Cons x xs)
  have q: "queue s = x # xs" using Cons.hyps(2) by simp
  obtain s1 where s1: "deq s = Some (Some x, s1)" "inv s1" "queue s1 = xs"
    using deq_law [OF Cons.prems] unfolding q by auto
  then obtain s' where s': "chan_run queue cap ok enq deq s1 (map (Deq \<circ> Some) xs) s'" "queue s' = []"
    using Cons.hyps(1) [of s1] by blast
  have "chan_run queue cap ok enq deq s (map (Deq \<circ> Some) (queue s)) s'"
    unfolding q using run_deq [of deq s "Some x" s1, OF s1(1) s'(1)] by simp
  then show ?case using s'(2) by blast
qed

end

section \<open>The ring and the device's side of it\<close>

text \<open>
  \<open>cr_prod\<close> and \<open>cr_cons\<close> count all completions ever written and read; the library keeps only
  the latter, modulo \<open>2^16\<close> and as a phase.
\<close>

record cq_ring =
  cr_mem :: "u8 list"
  cr_sub :: efa_sub_cq
  cr_prod :: nat
  cr_cons :: nat

text \<open>The phase of the \<open>j\<close>-th completion in a ring of \<open>n\<close> slots: 1 on the first pass.\<close>

definition phase_of :: "nat \<Rightarrow> nat \<Rightarrow> nat" where
  "phase_of n j = 1 - (j div n) mod 2"

definition set_cqe_phase :: "u8 list \<Rightarrow> nat \<Rightarrow> u8 list" where
  "set_cqe_phase bs ph = bs[3 := EFA_SET (bs ! 3) EFA_IO_CDESC_COMMON_PHASE_MASK (of_nat ph)]"

definition slot_off :: "nat \<Rightarrow> nat \<Rightarrow> nat \<Rightarrow> nat \<Rightarrow> nat" where
  "slot_off base z n j = base + (j mod n) * z"

definition dev_complete :: "nat \<Rightarrow> nat \<Rightarrow> nat \<Rightarrow> u8 list \<Rightarrow> cq_ring \<Rightarrow> cq_ring" where
  "dev_complete base z n bs r =
     (case mem_store (slot_off base z n (cr_prod r)) (set_cqe_phase bs (phase_of n (cr_prod r))) (cr_mem r) of
        None \<Rightarrow> r
      | Some m \<Rightarrow> r\<lparr>cr_mem := m, cr_prod := cr_prod r + 1\<rparr>)"

text \<open>The library's side: the bytes of the entry the returned pointer leads to, without the phase.\<close>

definition lib_poll :: "nat \<Rightarrow> cq_ring \<Rightarrow> (u8 list option \<times> cq_ring) option" where
  "lib_poll z r =
     do {
       (cqe, sub) \<leftarrow> cq_next_sub_cqe_get (Some (cr_mem r)) (cr_sub r);
       case cqe of
         None \<Rightarrow> Some (None, r\<lparr>cr_sub := sub\<rparr>)
       | Some off \<Rightarrow> Some (Some (set_cqe_phase (take z (drop off (cr_mem r))) 0),
                         r\<lparr>cr_sub := sub, cr_cons := cr_cons r + 1\<rparr>)
     }"

definition ring_queue :: "nat \<Rightarrow> nat \<Rightarrow> nat \<Rightarrow> cq_ring \<Rightarrow> u8 list list" where
  "ring_queue base z n r =
     map (\<lambda>j. set_cqe_phase (take z (drop (slot_off base z n j) (cr_mem r))) 0) [cr_cons r..<cr_prod r]"

definition cqe_ok :: "nat \<Rightarrow> u8 list \<Rightarrow> bool" where
  "cqe_ok z bs \<longleftrightarrow> length bs = z \<and> set_cqe_phase bs 0 = bs"

text \<open>The phase bit stored in a slot.\<close>

definition slot_phase :: "u8 list \<Rightarrow> nat \<Rightarrow> u64" where
  "slot_phase m off = EFA_GET (m ! (off + 3)) EFA_IO_CDESC_COMMON_PHASE_MASK"

text \<open>The shape \<open>efa_sub_cq_initialize\<close> and \<open>create_cq\<close> give a sub-queue.\<close>

definition ring_geom :: "nat \<Rightarrow> nat \<Rightarrow> nat \<Rightarrow> nat \<Rightarrow> nat \<Rightarrow> bool" where
  "ring_geom base z k n len \<longleftrightarrow>
     n = 2 ^ k \<and> k \<le> 15 \<and> 8 \<le> z \<and> n * z < 2 ^ 31 \<and> base + n * z \<le> len"

definition ring_inv :: "nat \<Rightarrow> nat \<Rightarrow> nat \<Rightarrow> nat \<Rightarrow> cq_ring \<Rightarrow> bool" where
  "ring_inv base z k n r \<longleftrightarrow>
     ring_geom base z k n (length (cr_mem r)) \<and>
     consumed_cnt (cr_sub r) = of_nat (cr_cons r) \<and>
     sub_phase (cr_sub r) = of_nat (phase_of n (cr_cons r)) \<and>
     sub_buf (cr_sub r) = base \<and> sub_qmask (cr_sub r) = of_nat (n - 1) \<and>
     sub_cqe_size (cr_sub r) = of_nat z \<and>
     cr_cons r \<le> cr_prod r \<and> cr_prod r \<le> cr_cons r + n \<and>
     (\<forall>j. cr_prod r \<le> j \<and> j < cr_prod r + n \<longrightarrow>
        slot_phase (cr_mem r) (slot_off base z n j) = of_nat (1 - phase_of n j))"

lemma ring_geom_pos: "ring_geom base z k n len \<Longrightarrow> 0 < n"
  by (simp add: ring_geom_def)

lemma ring_inv_free_slot:
  "ring_inv base z k n r \<Longrightarrow> cr_prod r \<le> j \<Longrightarrow> j < cr_prod r + n \<Longrightarrow>
     slot_phase (cr_mem r) (slot_off base z n j) = of_nat (1 - phase_of n j)"
  unfolding ring_inv_def by blast

lemma phase_of_le: "phase_of n j \<le> 1"
  by (simp add: phase_of_def)

lemma phase_of_add: "0 < n \<Longrightarrow> phase_of n (j + n) = 1 - phase_of n j"
  by (simp add: phase_of_def div_add_self2 mod_Suc)

lemma phase_of_Suc:
  assumes "0 < n"
  shows "phase_of n (Suc j) = (if Suc j mod n = 0 then 1 - phase_of n j else phase_of n j)"
  using assms by (simp add: phase_of_def div_Suc mod_Suc)

lemma slot_off_add [simp]: "slot_off base z n (j + n) = slot_off base z n j"
  by (simp add: slot_off_def)

lemma slot_off_bound:
  assumes "0 < n"
  shows "slot_off base z n j + z \<le> base + n * z"
proof -
  have "(j mod n) * z + z = (j mod n + 1) * z" by simp
  also have "\<dots> \<le> n * z" using assms by (intro mult_right_mono) (simp_all add: Suc_le_eq)
  finally show ?thesis by (simp add: slot_off_def)
qed

lemma slot_off_disjoint:
  assumes "0 < n" and "i mod n \<noteq> j mod n"
  shows "slot_off base z n i + z \<le> slot_off base z n j \<or> slot_off base z n j + z \<le> slot_off base z n i"
proof -
  have le: "(a + 1) * z \<le> b * z" if "a < b" for a b :: nat
    using that by (intro mult_right_mono) simp_all
  from assms(2) consider "i mod n < j mod n" | "j mod n < i mod n" by linarith
  then show ?thesis
    by cases (use le in \<open>auto simp: slot_off_def add.commute\<close>)
qed

lemma mod_window_inj:
  fixes n i j :: nat
  assumes "p \<le> i" "i < p + n" "p \<le> j" "j < p + n" "i mod n = j mod n"
  shows "i = j"
proof -
  have "n dvd (max i j - min i j)"
    using assms(5) by (metis max_def min_def mod_eq_dvd_iff_nat nat_le_linear)
  moreover have "max i j - min i j < n" using assms by (auto simp: max_def min_def)
  ultimately have "max i j - min i j = 0" using nat_dvd_not_less by blast
  then show ?thesis by (auto simp: max_def min_def split: if_splits)
qed

section \<open>Reading\<close>

lemma current_index:
  assumes "consumed_cnt sub = of_nat c" and "sub_qmask sub = of_nat (2 ^ k - 1)" and "k \<le> 16"
  shows "efa_sub_cq_get_current_index sub = of_nat (c mod 2 ^ k)"
proof -
  have "unat (efa_sub_cq_get_current_index sub) = (c mod 2 ^ 16) mod 2 ^ k"
    unfolding efa_sub_cq_get_current_index_def assms(1,2) of_nat_pow2_minus_1 unat_and_mask
    by (simp only: unat_ucast_mod unsigned_of_nat take_bit_eq_mod) (simp add: mod_mod_cancel)
  also have "\<dots> = c mod 2 ^ k"
    by (rule mod_mod_cancel) (rule le_imp_power_dvd [OF assms(3)])
  finally show ?thesis by (metis of_nat_unat ucast_id)
qed

lemma sint_of_nat_small: "x < 2 ^ 31 \<Longrightarrow> sint (of_nat x :: i32) = int x"
  by (simp add: signed_of_nat signed_take_bit_int_eq_self)

lemma get_cqe_offset:
  assumes "sub_buf sub = base" and "sub_cqe_size sub = of_nat z" and "i * z < 2 ^ 31"
  shows "efa_sub_cq_get_cqe sub (of_nat i) = Some (base + i * z)"
proof -
  have "int base + sint (of_nat i * sub_cqe_size sub) = int (base + i * z)"
    using assms(2) sint_of_nat_small [OF assms(3)] by simp
  then show ?thesis
    unfolding efa_sub_cq_get_cqe_def Let_def assms(1) by (simp only: nat_int of_nat_less_0_iff if_False)
qed

lemma slot_lt_int:
  fixes c n z :: nat
  assumes "0 < n" and "n * z < 2 ^ 31"
  shows "(c mod n) * z < 2 ^ 31"
proof -
  have "c mod n \<le> n" using assms(1) by (metis assms(1) less_imp_le mod_less_divisor)
  then have "(c mod n) * z \<le> n * z" by (rule mult_le_mono1)
  then show ?thesis using assms(2) by linarith
qed

lemma cd_flags_at:
  assumes "off + 8 \<le> length m"
  shows "cd_flags (cdesc_common_of_bytes (drop off m)) = m ! (off + 3)"
proof -
  have "take (Suc 0) (drop 3 (drop off m)) = [m ! (off + 3)]"
    using assms by (simp add: take_Suc_conv_app_nth add.commute)
  then show ?thesis
    by (simp add: cdesc_common_of_bytes_def le_word_def)
qed

text \<open>What one call does: the entry is there exactly if its phase bit is the expected one.\<close>

lemma cq_next_sub_cqe_get_spec:
  assumes k: "n = 2 ^ k" "k \<le> 15" and z: "8 \<le> z" "n * z < 2 ^ 31" "base + n * z \<le> length m"
    and sub: "consumed_cnt sub = of_nat c" "sub_phase sub = of_nat (phase_of n c)"
      "sub_buf sub = base" "sub_qmask sub = of_nat (n - 1)" "sub_cqe_size sub = of_nat z"
  shows "cq_next_sub_cqe_get (Some m) sub =
    (if slot_phase m (slot_off base z n c) = of_nat (phase_of n c)
     then Some (Some (slot_off base z n c),
            sub\<lparr>consumed_cnt := of_nat (Suc c), sub_phase := of_nat (phase_of n (Suc c))\<rparr>)
     else Some (None, sub))"
proof -
  have n: "0 < n" using k by simp
  have idx: "efa_sub_cq_get_current_index sub = of_nat (c mod n)"
    using current_index [of sub c k] sub k by simp
  have idx': "efa_sub_cq_get_current_index (sub\<lparr>consumed_cnt := consumed_cnt sub + 1\<rparr>)
      = of_nat (Suc c mod n)"
    by (rule current_index [of _ "Suc c" k, folded k(1)]) (use sub k in simp_all)
  have "Suc c mod n < n" "n \<le> 2 ^ 15" using n power_increasing [OF k(2), of "2::nat"] k(1) by simp_all
  then have lt: "Suc c mod n < 2 ^ 32" by simp
  then have z0: "(of_nat (Suc c mod n) :: u32) = 0 \<longleftrightarrow> Suc c mod n = 0"
    by (simp only: word_of_nat_eq_0_iff) (use lt nat_dvd_not_less in \<open>auto simp: dvd_def\<close>)
  have off: "efa_sub_cq_get_cqe sub (efa_sub_cq_get_current_index sub) = Some (slot_off base z n c)"
    unfolding idx slot_off_def
    by (rule get_cqe_offset [OF sub(3,5) slot_lt_int [OF n z(2)]])
  have b: "slot_off base z n c + z \<le> length m"
    using slot_off_bound [OF n, of base z c] z(3) by linarith
  have der: "deref_cdesc (Some m) (slot_off base z n c) =
      Some (cdesc_common_of_bytes (drop (slot_off base z n c) m))"
    using b z(1) by (simp add: deref_cdesc_def)
  have "phase_of n c = 0 \<or> phase_of n c = 1" using phase_of_le [of n c] by linarith
  then have "size_of_int (of_nat (phase_of n c)) = of_nat (phase_of n c)"
    by (auto simp: size_of_int_def)
  then have pend: "efa_cqe_is_pending (cdesc_common_of_bytes (drop (slot_off base z n c) m)) (sub_phase sub)
      \<longleftrightarrow> slot_phase m (slot_off base z n c) = of_nat (phase_of n c)"
    using b z(1) by (simp add: efa_cqe_is_pending_def cd_flags_at slot_phase_def sub(2))
  have flip: "1 - (of_nat (phase_of n c) :: i32) = of_nat (1 - phase_of n c)"
    using phase_of_le [of n c] by (simp add: of_nat_diff)
  have upd: "(if efa_sub_cq_get_current_index (sub\<lparr>consumed_cnt := consumed_cnt sub + 1\<rparr>) = 0
        then sub\<lparr>consumed_cnt := consumed_cnt sub + 1, sub_phase := 1 - sub_phase sub\<rparr>
        else sub\<lparr>consumed_cnt := consumed_cnt sub + 1\<rparr>)
      = sub\<lparr>consumed_cnt := of_nat (Suc c), sub_phase := of_nat (phase_of n (Suc c))\<rparr>"
    unfolding idx' z0 phase_of_Suc [OF n] using sub(1,2) flip by (cases sub) (auto simp: add.commute)
  show ?thesis
    unfolding cq_next_sub_cqe_get_def Let_def using off der pend upd
    by (cases "efa_sub_cq_get_current_index (sub\<lparr>consumed_cnt := consumed_cnt sub + 1\<rparr>) = 0")
      simp_all
qed

section \<open>The ring is a first-in first-out channel\<close>

text \<open>Every slot the consumer has not passed carries the phase of the entry written there.\<close>

lemma ring_slot_phase:
  assumes "ring_inv base z k n r" and "cr_prod r \<le> j + n" and "j < cr_prod r"
  shows "slot_phase (cr_mem r) (slot_off base z n j) = of_nat (phase_of n j)"
proof -
  have n: "0 < n" using assms(1) ring_geom_pos by (auto simp: ring_inv_def)
  have "slot_phase (cr_mem r) (slot_off base z n (j + n)) = of_nat (1 - phase_of n (j + n))"
    by (rule ring_inv_free_slot [OF assms(1)]) (use assms in auto)
  then show ?thesis using phase_of_le [of n j] by (simp add: phase_of_add [OF n])
qed

lemma set_cqe_phase_clear: "set_cqe_phase (set_cqe_phase bs ph) 0 = set_cqe_phase bs 0"
proof (cases "3 < length bs")
  case True
  then show ?thesis by (simp add: set_cqe_phase_def cd_phase_cd_q_type.a.set_set)
next
  case False
  then show ?thesis by (simp add: set_cqe_phase_def list_update_beyond)
qed

lemma length_set_cqe_phase [simp]: "length (set_cqe_phase bs ph) = length bs"
  by (simp add: set_cqe_phase_def)

lemma mem_load_take: "off + n \<le> length m \<Longrightarrow> mem_load off n m = Some (take n (drop off m))"
  by (simp add: mem_load_def)

lemma phase_bit_get:
  assumes "ph \<le> 1"
  shows "EFA_GET (EFA_SET (w :: u8) EFA_IO_CDESC_COMMON_PHASE_MASK (of_nat ph))
    EFA_IO_CDESC_COMMON_PHASE_MASK = of_nat ph"
proof -
  have "ph = 0 \<or> ph = 1" using assms by linarith
  then show ?thesis by (auto simp: cd_phase_cd_q_type.a.get_set)
qed

lemma ring_enq:
  assumes inv: "ring_inv base z k n r" and ok: "cqe_ok z bs"
    and room: "length (ring_queue base z n r) < n"
  shows "ring_inv base z k n (dev_complete base z n bs r) \<and>
    ring_queue base z n (dev_complete base z n bs r) = ring_queue base z n r @ [bs]"
proof -
  define p where "p = cr_prod r"
  define off where "off = slot_off base z n p"
  define st where "st = set_cqe_phase bs (phase_of n p)"
  have I: "0 < n" "8 \<le> z" "base + n * z \<le> length (cr_mem r)" "cr_cons r \<le> p" "p < cr_cons r + n"
    using inv room ring_geom_pos by (auto simp: ring_inv_def ring_geom_def ring_queue_def p_def)
  have lst: "length st = z" using ok by (simp add: st_def cqe_ok_def)
  have offb: "off + z \<le> length (cr_mem r)"
    using slot_off_bound [OF I(1), of base z p] I(3) unfolding off_def by linarith
  then obtain m where m: "mem_store off st (cr_mem r) = Some m"
    using lst by (simp add: mem_store_def)
  have lm: "length m = length (cr_mem r)" by (rule mem_store_length [OF m])
  have dc: "dev_complete base z n bs r = r\<lparr>cr_mem := m, cr_prod := p + 1\<rparr>"
    using m by (simp add: dev_complete_def p_def off_def st_def)
  have same: "mem_load off z m = Some st" using mem_load_store_same [OF m] lst by simp
  have inb: "slot_off base z n j + z \<le> length (cr_mem r)" for j
    using slot_off_bound [OF I(1), of base z j] I(3) by linarith
  have other: "mem_load (slot_off base z n j) z m = mem_load (slot_off base z n j) z (cr_mem r)"
    if "j mod n \<noteq> p mod n" for j
    using slot_off_disjoint [OF I(1) that, of base z] lst
    by (intro mem_load_store_other [OF m]) (auto simp: off_def)
  have nth: "m ! (slot_off base z n j + 3) = cr_mem r ! (slot_off base z n j + 3)"
    if "j mod n \<noteq> p mod n" for j
    using slot_off_disjoint [OF I(1) that, of base z] inb [of j] I(2) lst
    by (subst nth_mem_store [OF m]) (auto simp: off_def)
  have "m ! (off + 3) = st ! 3"
    using offb I(2) lst by (subst nth_mem_store [OF m]) auto
  then have here: "slot_phase m off = of_nat (phase_of n p)"
    using lst I(2) ok phase_bit_get [OF phase_of_le [of n p]]
    by (simp add: slot_phase_def st_def set_cqe_phase_def cqe_ok_def)
  have ph: "slot_phase m (slot_off base z n j) = of_nat (1 - phase_of n j)"
    if "p + 1 \<le> j" "j < p + 1 + n" for j
  proof (cases "j = p + n")
    case True
    then show ?thesis
      using here phase_of_le [of n p] by (simp add: phase_of_add [OF I(1)] off_def)
  next
    case False
    then have "j mod n \<noteq> p mod n" using mod_window_inj [of p j n p] that by auto
    moreover have "slot_phase (cr_mem r) (slot_off base z n j) = of_nat (1 - phase_of n j)"
      by (rule ring_inv_free_slot [OF inv]) (use that False p_def in auto)
    ultimately show ?thesis using nth by (simp add: slot_phase_def)
  qed
  have inv': "ring_inv base z k n (dev_complete base z n bs r)"
    using inv I ph by (simp add: ring_inv_def dc lm p_def)
  have "take z (drop (slot_off base z n j) m) = take z (drop (slot_off base z n j) (cr_mem r))"
    if "cr_cons r \<le> j" "j < p" for j
  proof -
    have "j mod n \<noteq> p mod n" using mod_window_inj [of "cr_cons r" j n p] that I by auto
    then show ?thesis using other inb lm by (simp add: mem_load_take)
  qed
  moreover have "set_cqe_phase (take z (drop off m)) 0 = bs"
    using same offb lm ok by (simp add: mem_load_take st_def set_cqe_phase_clear cqe_ok_def)
  moreover have "[cr_cons r..<Suc p] = [cr_cons r..<p] @ [p]" using I(4) by simp
  ultimately have "ring_queue base z n (dev_complete base z n bs r) = ring_queue base z n r @ [bs]"
    by (simp add: ring_queue_def dc p_def [symmetric] off_def)
  then show ?thesis using inv' by simp
qed

lemma ring_deq:
  assumes inv: "ring_inv base z k n r"
  shows "\<exists>r'. lib_poll z r = Some (case ring_queue base z n r of [] \<Rightarrow> None | x # _ \<Rightarrow> Some x, r') \<and>
    ring_inv base z k n r' \<and> ring_queue base z n r' = tl (ring_queue base z n r)"
proof -
  have G: "n = 2 ^ k" "k \<le> 15" "8 \<le> z" "n * z < 2 ^ 31" "base + n * z \<le> length (cr_mem r)"
    using inv by (auto simp: ring_inv_def ring_geom_def)
  have I: "cr_cons r \<le> cr_prod r" "cr_prod r \<le> cr_cons r + n"
    "consumed_cnt (cr_sub r) = of_nat (cr_cons r)"
    "sub_phase (cr_sub r) = of_nat (phase_of n (cr_cons r))" "sub_buf (cr_sub r) = base"
    "sub_qmask (cr_sub r) = of_nat (n - 1)" "sub_cqe_size (cr_sub r) = of_nat z"
    using inv by (auto simp: ring_inv_def)
  note get = cq_next_sub_cqe_get_spec [OF G I(3-7)]
  have n: "0 < n" using G(1) by simp
  show ?thesis
  proof (cases "cr_cons r < cr_prod r")
    case True
    have "slot_phase (cr_mem r) (slot_off base z n (cr_cons r)) = of_nat (phase_of n (cr_cons r))"
      using ring_slot_phase [OF inv _ True] I(2) by simp
    then have g: "lib_poll z r = Some (Some (set_cqe_phase
        (take z (drop (slot_off base z n (cr_cons r)) (cr_mem r))) 0),
        r\<lparr>cr_sub := (cr_sub r)\<lparr>consumed_cnt := of_nat (Suc (cr_cons r)),
            sub_phase := of_nat (phase_of n (Suc (cr_cons r)))\<rparr>, cr_cons := cr_cons r + 1\<rparr>)"
      by (simp add: lib_poll_def get)
    have "[cr_cons r..<cr_prod r] = cr_cons r # [Suc (cr_cons r)..<cr_prod r]"
      using True by (simp add: upt_conv_Cons)
    then show ?thesis using g inv True by (simp add: ring_queue_def ring_inv_def)
  next
    case False
    then have e: "cr_prod r = cr_cons r" using I(1) by simp
    have "slot_phase (cr_mem r) (slot_off base z n (cr_cons r)) = of_nat (1 - phase_of n (cr_cons r))"
      by (rule ring_inv_free_slot [OF inv]) (use e n in auto)
    moreover have "phase_of n (cr_cons r) = 0 \<or> phase_of n (cr_cons r) = 1"
      using phase_of_le [of n "cr_cons r"] by linarith
    ultimately have "slot_phase (cr_mem r) (slot_off base z n (cr_cons r)) \<noteq> of_nat (phase_of n (cr_cons r))"
      by auto
    then have "lib_poll z r = Some (None, r\<lparr>cr_sub := cr_sub r\<rparr>)"
      by (simp add: lib_poll_def get)
    then show ?thesis using e inv by (simp add: ring_queue_def)
  qed
qed

interpretation cq_channel: fifo_channel "ring_inv base z k n" "ring_queue base z n" n "cqe_ok z"
  "dev_complete base z n" "lib_poll z"
  by unfold_locales (use ring_enq ring_deq in blast)+

text \<open>The ring as the library sets it up over memory the driver has cleared.\<close>

definition ring_start :: "nat \<Rightarrow> nat \<Rightarrow> nat \<Rightarrow> nat \<Rightarrow> efa_sub_cq \<Rightarrow> cq_ring" where
  "ring_start base z n len sub =
     \<lparr>cr_mem = replicate len 0,
      cr_sub = efa_sub_cq_initialize sub base (of_nat n) (of_nat z), cr_prod = 0, cr_cons = 0\<rparr>"

lemma ring_start_inv:
  assumes "ring_geom base z k n len"
  shows "ring_inv base z k n (ring_start base z n len sub) \<and>
    ring_queue base z n (ring_start base z n len sub) = []"
proof -
  have n: "0 < n" and g: "8 \<le> z" "base + n * z \<le> len"
    using assms by (auto simp: ring_geom_def)
  have ph: "slot_phase (replicate len 0) (slot_off base z n j) = of_nat (1 - phase_of n j)"
    if "j < n" for j
  proof -
    have "slot_off base z n j + 3 < len" using slot_off_bound [OF n, of base z j] g by linarith
    then have "slot_phase (replicate len 0) (slot_off base z n j) = 0"
      by (simp add: slot_phase_def EFA_GET_def FIELD_GET_def)
    then show ?thesis using that by (simp add: phase_of_def)
  qed
  have one: "phase_of n 0 = 1" by (simp add: phase_of_def)
  have "(of_nat n :: i32) - 1 = of_nat (n - 1)" using n by (simp add: of_nat_diff)
  then show ?thesis
    using assms ph n one
    by (simp add: ring_inv_def ring_start_def efa_sub_cq_initialize_def ring_queue_def)
qed

text \<open>
  C3: a sub-queue is a first-in first-out channel. Start from a ring the library has
  initialised over cleared memory, and let the device write completions (never more than the
  ring holds) and the library poll, interleaved in any way, over any number of wrap-arounds.
  Then the completions polled are exactly the completions written, in order and without loss
  or repetition; no poll is undefined; and a poll finds nothing exactly when everything
  written has been polled.
\<close>

theorem cq_ring_is_fifo:
  assumes "ring_geom base z k n len"
    and "chan_run (ring_queue base z n) n (cqe_ok z) (dev_complete base z n) (lib_poll z)
           (ring_start base z n len sub) es r"
  shows "chan_in es = chan_out es @ ring_queue base z n r \<and>
         (\<exists>x r'. lib_poll z r = Some (x, r') \<and> (x = None) = (chan_out es = chan_in es))"
proof -
  note start = ring_start_inv [OF assms(1), of sub]
  have r: "ring_inv base z k n r" "chan_in es = chan_out es @ ring_queue base z n r"
    using cq_channel.run_fifo [OF assms(2) conjunct1 [OF start]] start by simp_all
  obtain x r' where p: "lib_poll z r = Some (x, r')"
    using cq_channel.deq_total [OF r(1)] by auto
  then have "(x = None) = (ring_queue base z n r = [])"
    by (rule cq_channel.deq_None_iff [OF r(1)])
  then show ?thesis using p r(2) by auto
qed

theorem cq_ring_is_fifo_witness:
  "\<exists>r. chan_in [Enq (replicate 16 4), Enq (replicate 16 6), Deq (Some (replicate 16 4))] =
       [replicate 16 4] @ ring_queue 0 16 2 r"
proof -
  define sub :: efa_sub_cq where "sub = \<lparr>consumed_cnt = 9, sub_phase = 0, sub_buf = 0, sub_qmask = 0,
    sub_cqe_size = 0, sub_ref_cnt = 0\<rparr>"
  have g: "ring_geom 0 16 1 2 32" by (simp add: ring_geom_def)
  define r0 where "r0 = ring_start 0 16 2 32 sub"
  define r1 where "r1 = dev_complete 0 16 2 (replicate 16 4) r0"
  define r2 where "r2 = dev_complete 0 16 2 (replicate 16 6) r1"
  have "EFA_SET (4 :: u8) EFA_IO_CDESC_COMMON_PHASE_MASK 0 = 4"
    "EFA_SET (6 :: u8) EFA_IO_CDESC_COMMON_PHASE_MASK 0 = 6"
    by (simp_all add: EFA_SET_def EFA_IO_CDESC_COMMON_PHASE_MASK_def BIT_def)
  then have ok: "cqe_ok 16 (replicate 16 4)" "cqe_ok 16 (replicate 16 6)"
    using list_update_id [of "replicate 16 (4 :: u8)" 3] list_update_id [of "replicate 16 (6 :: u8)" 3]
    by (simp_all add: cqe_ok_def set_cqe_phase_def)
  have i0: "ring_inv 0 16 1 2 r0" "ring_queue 0 16 2 r0 = []"
    using ring_start_inv [OF g, of sub] by (simp_all add: r0_def)
  have i1: "ring_inv 0 16 1 2 r1" "ring_queue 0 16 2 r1 = [replicate 16 4]"
    using cq_channel.enq_law [OF i0(1) ok(1)] i0(2) by (simp_all add: r1_def)
  have i2: "ring_inv 0 16 1 2 r2" "ring_queue 0 16 2 r2 = [replicate 16 4, replicate 16 6]"
    using cq_channel.enq_law [OF i1(1) ok(2)] i1(2) by (simp_all add: r2_def)
  obtain r3 where d: "lib_poll 16 r2 = Some (Some (replicate 16 4), r3)"
    using cq_channel.deq_law [OF i2(1)] i2(2) by auto
  have "chan_run (ring_queue 0 16 2) 2 (cqe_ok 16) (dev_complete 0 16 2) (lib_poll 16) r0
      [Enq (replicate 16 4), Enq (replicate 16 6), Deq (Some (replicate 16 4))] r3"
    by (intro run_enq run_deq run_nil)
      (use ok i0 i1 d in \<open>simp_all add: chan_run_Nil r1_def [symmetric] r2_def [symmetric]\<close>)
  then show ?thesis using cq_ring_is_fifo [OF g] unfolding r0_def by (metis chan_out.simps)
qed

end
