(* ===== verification/Efa_Poll.thy ===== *)
theory Efa_Poll
  imports Efa_Cq_Ring
begin

text \<open>
  What the polling loops guarantee: the order in which the sub-queues are visited, what a
  completion does to the work queue it belongs to, the return value of \<open>efa_poll_cq\<close> and the
  lock protocol of the extended interface.
\<close>

section \<open>What a poll leaves alone\<close>

text \<open>The parts of a completion queue that polling never writes.\<close>

definition cq_frame :: "efa_cq \<Rightarrow> efa_cq \<Rightarrow> bool" where
  "cq_frame cq cq' \<longleftrightarrow>
     cq_lock cq' = cq_lock cq \<and> num_sub_cqs cq' = num_sub_cqs cq \<and> cq_buf cq' = cq_buf cq \<and>
     length (sub_cq_arr cq') = length (sub_cq_arr cq) \<and>
     map sub_ref_cnt (sub_cq_arr cq') = map sub_ref_cnt (sub_cq_arr cq)"

lemma cq_frame_refl [simp]: "cq_frame cq cq"
  by (simp add: cq_frame_def)

lemma cq_frame_trans: "cq_frame a b \<Longrightarrow> cq_frame b c \<Longrightarrow> cq_frame a c"
  by (simp add: cq_frame_def)

lemma next_cqe_ref_cnt:
  "cq_next_sub_cqe_get buf sub = Some (x, sub') \<Longrightarrow> sub_ref_cnt sub' = sub_ref_cnt sub"
  by (auto simp: cq_next_sub_cqe_get_def Let_def bind_eq_Some_conv split: if_splits)

lemma next_cqe_None:
  "cq_next_sub_cqe_get buf sub = Some (None, sub') \<Longrightarrow> sub' = sub"
  by (auto simp: cq_next_sub_cqe_get_def Let_def bind_eq_Some_conv split: if_splits)

lemma process_cqe_frame:
  assumes "efa_process_cqe cq wc qps qp = Some (cq', wc')"
  shows "\<exists>r. cq' = cq\<lparr>cur_wq := Some r\<rparr> \<and> (r = Sq_wq qp \<or> r = Rq_wq qp)"
  using assms
  by (auto simp: efa_process_cqe_def Let_def bind_eq_Some_conv split: if_splits)

lemma process_ex_cqe_frame:
  assumes "efa_process_ex_cqe cq qps qp = Some cq'"
  shows "\<exists>r v. cq' = cq\<lparr>cur_wq := Some r, verbs_cq := v\<rparr> \<and> (r = Sq_wq qp \<or> r = Rq_wq qp)"
  using assms
  by (auto simp: efa_process_ex_cqe_def Let_def bind_eq_Some_conv split: if_splits)

text \<open>Every outcome of \<open>efa_poll_sub_cq\<close>.\<close>

lemma poll_sub_cq_cases:
  assumes "efa_poll_sub_cq ctx k extended st = Some (err, st')"
  obtains
    (empty) "err = ENOENT" "k < length (sub_cq_arr (ps_cq st))"
      "cq_next_sub_cqe_get (cq_buf (ps_cq st)) (sub_cq_arr (ps_cq st) ! k) =
         Some (None, sub_cq_arr (ps_cq st) ! k)"
      "st' = st\<lparr>ps_cq := (ps_cq st)\<lparr>cur_cqe := None\<rparr>\<rparr>"
  | (found) off sub' cq1 where "err = 0 \<or> err = EINVAL" "k < length (sub_cq_arr (ps_cq st))"
      "cq_next_sub_cqe_get (cq_buf (ps_cq st)) (sub_cq_arr (ps_cq st) ! k) = Some (Some off, sub')"
      "cq1 = (ps_cq st)\<lparr>sub_cq_arr := (sub_cq_arr (ps_cq st))[k := sub'], cur_cqe := Some off\<rparr>"
      "\<exists>w v. ps_cq st' = cq1\<lparr>cur_wq := w, verbs_cq := v\<rparr>"
      "err = EINVAL \<Longrightarrow> ps_wc st' = ps_wc st \<and> ps_qps st' = ps_qps st"
      "err = 0 \<Longrightarrow> cur_wq (ps_cq st') \<noteq> None"
proof (cases "cq_next_sub_cqe_get (cq_buf (ps_cq st)) (sub_cq_arr (ps_cq st) ! k)")
  case None
  then show ?thesis using assms by (auto simp: efa_poll_sub_cq_def Let_def bind_eq_Some_conv arr_get_eq_Some)
next
  case (Some xs)
  obtain x sub' where xs: "xs = (x, sub')" by (cases xs)
  have k: "k < length (sub_cq_arr (ps_cq st))"
    using assms by (auto simp: efa_poll_sub_cq_def Let_def bind_eq_Some_conv arr_get_eq_Some)
  show ?thesis
  proof (cases x)
    case None
    then have s: "sub' = sub_cq_arr (ps_cq st) ! k" using Some xs next_cqe_None by auto
    show ?thesis
      using assms k Some xs None s by (intro empty) (auto simp: efa_poll_sub_cq_def Let_def)
  next
    case x: (Some off)
    define cq1 where
      "cq1 = (ps_cq st)\<lparr>sub_cq_arr := (sub_cq_arr (ps_cq st))[k := sub'], cur_cqe := Some off\<rparr>"
    have cq1': "\<exists>w v. cq1 = cq1\<lparr>cur_wq := w, verbs_cq := v\<rparr>"
      by (rule exI [of _ "cur_wq cq1"], rule exI [of _ "verbs_cq cq1"]) simp
    obtain c where c: "deref_cdesc (cq_buf (ps_cq st)) off = Some c"
      using assms k Some xs x by (auto simp: efa_poll_sub_cq_def Let_def bind_eq_Some_conv cq1_def)
    obtain q where q: "lookup_cur_qp ctx (ps_qps st) (ps_cur_qp st) (ucast (cd_qp_num c)) = Some q"
      using assms k Some xs x c by (auto simp: efa_poll_sub_cq_def Let_def bind_eq_Some_conv cq1_def)
    have P: "(err = 0 \<or> err = EINVAL) \<and> (\<exists>w v. ps_cq st' = cq1\<lparr>cur_wq := w, verbs_cq := v\<rparr>) \<and>
      (err = EINVAL \<longrightarrow> ps_wc st' = ps_wc st \<and> ps_qps st' = ps_qps st) \<and>
      (err = 0 \<longrightarrow> cur_wq (ps_cq st') \<noteq> None)"
    proof (cases q)
      case None
      have "(err, st') = (EINVAL, st\<lparr>ps_cq := cq1, ps_cur_qp := None\<rparr>)"
        using assms k Some xs x c q None
        by (simp add: efa_poll_sub_cq_def Let_def cq1_def)
      then show ?thesis using cq1' by simp
    next
      case qp: (Some qp)
      have r: "(if extended
          then Option.bind (efa_process_ex_cqe cq1 (ps_qps st) qp)
            (\<lambda>cq'. Some (0, st\<lparr>ps_cq := cq', ps_cur_qp := q\<rparr>))
          else Option.bind (efa_process_cqe cq1 (ps_wc st) (ps_qps st) qp)
            (\<lambda>(cq', wc'). Option.bind (put_wrid_at (ps_qps st) (cur_wq cq') (ucast (cd_req_id c)))
              (\<lambda>qps'. Some (0, st\<lparr>ps_cq := cq', ps_qps := qps', ps_cur_qp := q, ps_wc := wc'\<rparr>))))
          = Some (err, st')"
        using assms k Some xs x c q qp
        by (cases extended) (simp_all add: efa_poll_sub_cq_def Let_def cq1_def)
      show ?thesis
      proof (cases extended)
        case True
        then obtain cq' where "efa_process_ex_cqe cq1 (ps_qps st) qp = Some cq'"
          "err = 0" "ps_cq st' = cq'"
          using r by (auto simp: bind_eq_Some_conv)
        then show ?thesis using process_ex_cqe_frame by fastforce
      next
        case False
        then obtain cq' wc' where p: "efa_process_cqe cq1 (ps_wc st) (ps_qps st) qp = Some (cq', wc')"
          "err = 0" "ps_cq st' = cq'"
          using r by (auto simp: bind_eq_Some_conv)
        then obtain w where "cq' = cq1\<lparr>cur_wq := Some w\<rparr>" using process_cqe_frame by blast
        then have e: "ps_cq st' = cq1\<lparr>cur_wq := Some w, verbs_cq := verbs_cq cq1\<rparr>"
          using p(3) by simp
        moreover have "cur_wq (ps_cq st') = Some w" unfolding e by simp
        ultimately show ?thesis using p(2) by fastforce
      qed
    qed
    show ?thesis
      by (rule found [of off sub' cq1]) (use P k Some xs x in \<open>auto simp: cq1_def\<close>)
  qed
qed

lemma poll_sub_cq_frame:
  assumes "efa_poll_sub_cq ctx k extended st = Some (err, st')"
  shows "cq_frame (ps_cq st) (ps_cq st') \<and> next_poll_idx (ps_cq st') = next_poll_idx (ps_cq st)"
  using assms
proof (cases rule: poll_sub_cq_cases)
  case empty
  then show ?thesis by (simp add: cq_frame_def)
next
  case (found off sub' cq1)
  obtain w v where st': "ps_cq st' = cq1\<lparr>cur_wq := w, verbs_cq := v\<rparr>" using found(5) by blast
  have "map sub_ref_cnt ((sub_cq_arr (ps_cq st))[k := sub']) = map sub_ref_cnt (sub_cq_arr (ps_cq st))"
    using next_cqe_ref_cnt [OF found(3)] found(2)
    by (simp add: map_update) (metis list_update_id nth_map)
  then show ?thesis unfolding st' found(4) by (simp add: cq_frame_def)
qed

section \<open>The order of the visits\<close>

text \<open>Nothing to read in sub-queue \<open>k\<close>: no queue pair uses it, or no entry is pending.\<close>

definition sub_idle :: "efa_cq \<Rightarrow> nat \<Rightarrow> bool" where
  "sub_idle cq k \<longleftrightarrow>
     sub_ref_cnt (sub_cq_arr cq ! k) = 0 \<or>
     cq_next_sub_cqe_get (cq_buf cq) (sub_cq_arr cq ! k) = Some (None, sub_cq_arr cq ! k)"

definition sub_pending :: "efa_cq \<Rightarrow> nat \<Rightarrow> bool" where
  "sub_pending cq k \<longleftrightarrow>
     sub_ref_cnt (sub_cq_arr cq ! k) \<noteq> 0 \<and>
     (\<exists>off sub'. cq_next_sub_cqe_get (cq_buf cq) (sub_cq_arr cq ! k) = Some (Some off, sub'))"

lemma next_idx:
  fixes i num :: u16
  assumes "i < num"
  shows "unat ((i + 1) mod num) = (unat i + 1) mod unat num"
proof -
  have "unat i + 1 < 2 ^ 16"
  proof -
    have "unat num < 2 ^ LENGTH(16)" by (rule unsigned_less)
    then show ?thesis using assms by (simp add: word_less_nat_alt)
  qed
  then show ?thesis by (simp add: unat_mod_distrib unat_u16_Suc)
qed

lemma idle_pending_cong:
  assumes "sub_cq_arr cq' = sub_cq_arr cq" and "cq_buf cq' = cq_buf cq"
  shows "sub_idle cq' k = sub_idle cq k" "sub_pending cq' k = sub_pending cq k"
  using assms by (simp_all add: sub_idle_def sub_pending_def)

text \<open>The outcome of the loop, started at \<open>next_poll_idx\<close> with \<open>n\<close> rounds left.\<close>

definition loop_outcome :: "nat \<Rightarrow> poll_state \<Rightarrow> int \<Rightarrow> poll_state \<Rightarrow> bool" where
  "loop_outcome n st err st' \<longleftrightarrow>
     (let cq = ps_cq st; cq' = ps_cq st'; num = unat (num_sub_cqs cq);
          at = (\<lambda>d. (unat (next_poll_idx cq) + d) mod num)
      in cq_frame cq cq' \<and>
         (if err = ENOENT
          then (\<forall>d<n. sub_idle cq (at d)) \<and> sub_cq_arr cq' = sub_cq_arr cq \<and>
            unat (next_poll_idx cq') = at n \<and> ps_qps st' = ps_qps st \<and> ps_wc st' = ps_wc st
          else (\<exists>d<n. (\<forall>d'<d. sub_idle cq (at d')) \<and> sub_pending cq (at d) \<and>
            unat (next_poll_idx cq') = at (Suc d) \<and>
            (\<forall>k. k \<noteq> at d \<longrightarrow> sub_cq_arr cq' ! k = sub_cq_arr cq ! k) \<and>
            (err = 0 \<or> err = EINVAL) \<and> (err = 0 \<longrightarrow> cur_wq cq' \<noteq> None) \<and> cur_cqe cq' \<noteq> None \<and>
            (err = EINVAL \<longrightarrow> ps_qps st' = ps_qps st \<and> ps_wc st' = ps_wc st))))"

lemma loop_outcome_shift:
  assumes lt: "next_poll_idx (ps_cq st) < num_sub_cqs (ps_cq st)"
    and idle: "sub_idle (ps_cq st) (unat (next_poll_idx (ps_cq st)))"
    and idx: "next_poll_idx (ps_cq st2) = (next_poll_idx (ps_cq st) + 1) mod num_sub_cqs (ps_cq st)"
    and same: "cq_lock (ps_cq st2) = cq_lock (ps_cq st)" "num_sub_cqs (ps_cq st2) = num_sub_cqs (ps_cq st)"
      "cq_buf (ps_cq st2) = cq_buf (ps_cq st)" "sub_cq_arr (ps_cq st2) = sub_cq_arr (ps_cq st)"
      "ps_qps st2 = ps_qps st" "ps_wc st2 = ps_wc st"
    and out: "loop_outcome n st2 err st'"
  shows "loop_outcome (Suc n) st err st'"
proof -
  let ?cq = "ps_cq st" and ?num = "unat (num_sub_cqs (ps_cq st))"
  define at where "at = (\<lambda>d. (unat (next_poll_idx ?cq) + d) mod ?num)"
  have frame: "cq_frame ?cq (ps_cq st2)" by (simp add: same cq_frame_def)
  have pos: "0 < ?num" using lt by (simp add: word_less_nat_alt)
  have at0: "at 0 = unat (next_poll_idx ?cq)"
    using lt by (simp add: at_def word_less_nat_alt)
  have idx2: "unat (next_poll_idx (ps_cq st2)) = (unat (next_poll_idx ?cq) + 1) mod ?num"
    using next_idx [OF lt] by (simp add: idx)
  have at2: "(unat (next_poll_idx (ps_cq st2)) + d) mod ?num = at (Suc d)" for d
    unfolding idx2 at_def by (simp add: mod_add_left_eq)
  note cong = idle_pending_cong [OF same(4,3)]
  have idle_ext: "(\<forall>d<Suc m. sub_idle ?cq (at d)) = (\<forall>d<m. sub_idle ?cq (at (Suc d)))" for m
    using idle at0 by (auto simp: less_Suc_eq_0_disj)
  have fr: "cq_frame ?cq (ps_cq st')"
    using out frame unfolding loop_outcome_def Let_def by (blast intro: cq_frame_trans)
  show ?thesis
  proof (cases "err = ENOENT")
    case True
    then have "\<forall>d<Suc n. sub_idle ?cq (at d)" "sub_cq_arr (ps_cq st') = sub_cq_arr ?cq"
      "unat (next_poll_idx (ps_cq st')) = at (Suc n)" "ps_qps st' = ps_qps st" "ps_wc st' = ps_wc st"
      using out unfolding idle_ext loop_outcome_def Let_def same at2 cong by simp_all
    then show ?thesis
      using True fr unfolding loop_outcome_def Let_def at_def by simp
  next
    case False
    obtain d where d: "d < n" "\<forall>d'<d. sub_idle ?cq (at (Suc d'))" "sub_pending ?cq (at (Suc d))"
      "unat (next_poll_idx (ps_cq st')) = at (Suc (Suc d))"
      "\<forall>k. k \<noteq> at (Suc d) \<longrightarrow> sub_cq_arr (ps_cq st') ! k = sub_cq_arr ?cq ! k"
      and e: "err = 0 \<or> err = EINVAL" "err = 0 \<longrightarrow> cur_wq (ps_cq st') \<noteq> None"
        "cur_cqe (ps_cq st') \<noteq> None"
        "err = EINVAL \<longrightarrow> ps_qps st' = ps_qps st \<and> ps_wc st' = ps_wc st"
      using out False unfolding loop_outcome_def Let_def same at2 cong by auto
    then have "\<exists>d<Suc n. (\<forall>d'<d. sub_idle ?cq (at d')) \<and> sub_pending ?cq (at d) \<and>
        unat (next_poll_idx (ps_cq st')) = at (Suc d) \<and>
        (\<forall>k. k \<noteq> at d \<longrightarrow> sub_cq_arr (ps_cq st') ! k = sub_cq_arr ?cq ! k)"
      using idle_ext [of d] by (intro exI [of _ "Suc d"]) simp
    then show ?thesis
      using False fr e unfolding loop_outcome_def Let_def by (auto simp: at_def)
  qed
qed

lemma poll_loop_outcome:
  assumes "poll_sub_cqs_loop ctx extended n ENOENT st = Some (err, st')"
    and "next_poll_idx (ps_cq st) < num_sub_cqs (ps_cq st)"
  shows "loop_outcome n st err st'"
  using assms
proof (induction n arbitrary: st)
  case 0
  then show ?case by (simp add: loop_outcome_def Let_def word_less_nat_alt)
next
  case (Suc n)
  let ?cq = "ps_cq st" and ?k = "unat (next_poll_idx (ps_cq st))"
  let ?idx = "(next_poll_idx ?cq + 1) mod num_sub_cqs ?cq"
  define st1 where "st1 = st\<lparr>ps_cq := ?cq\<lparr>next_poll_idx := ?idx\<rparr>\<rparr>"
  have pos: "0 < num_sub_cqs ?cq" using Suc.prems(2) by (simp add: word_less_nat_alt)
  have lt1: "?idx < num_sub_cqs ?cq"
    using pos by (simp add: word_less_nat_alt unat_mod_distrib)
  have k: "?k < length (sub_cq_arr ?cq)"
    using Suc.prems(1) by (auto simp: Let_def bind_eq_Some_conv arr_get_eq_Some)
  show ?case
  proof (cases "sub_ref_cnt (sub_cq_arr ?cq ! ?k) = 0")
    case True
    then have "poll_sub_cqs_loop ctx extended n ENOENT st1 = Some (err, st')"
      using Suc.prems(1) k by (simp add: Let_def st1_def)
    then have "loop_outcome n st1 err st'"
      by (rule Suc.IH) (simp add: st1_def lt1)
    then show ?thesis
      by (intro loop_outcome_shift [OF Suc.prems(2)])
        (use True in \<open>simp_all add: st1_def sub_idle_def\<close>)
  next
    case False
    then obtain e st2 where p: "efa_poll_sub_cq ctx ?k extended st1 = Some (e, st2)"
      and rest: "(if e \<noteq> ENOENT then Some (e, st2)
        else poll_sub_cqs_loop ctx extended n e st2) = Some (err, st')"
      using Suc.prems(1) k by (auto simp: Let_def st1_def bind_eq_Some_conv)
    from p show ?thesis
    proof (cases rule: poll_sub_cq_cases)
      case empty
      have out: "loop_outcome n st2 err st'"
        by (rule Suc.IH) (use rest empty lt1 in \<open>simp_all add: st1_def\<close>)
      show ?thesis
        by (rule loop_outcome_shift [OF Suc.prems(2) _ _ _ _ _ _ _ _ out])
          (use empty in \<open>simp_all add: st1_def sub_idle_def\<close>)
    next
      case (found off sub' cq1)
      have e: "e \<noteq> ENOENT" "err = e" "st' = st2" using found(1) rest by auto
      have fr: "cq_frame ?cq (ps_cq st2)" "next_poll_idx (ps_cq st2) = ?idx"
        using poll_sub_cq_frame [OF p] by (simp_all add: st1_def cq_frame_def)
      obtain w v where st2: "ps_cq st2 = cq1\<lparr>cur_wq := w, verbs_cq := v\<rparr>" using found(5) by blast
      have at: "(?k + 0) mod unat (num_sub_cqs ?cq) = ?k"
        using Suc.prems(2) by (simp add: word_less_nat_alt)
      have pend: "sub_pending ?cq ?k"
        using found(3) False by (auto simp: sub_pending_def st1_def)
      have arr: "\<forall>j. j \<noteq> ?k \<longrightarrow> sub_cq_arr (ps_cq st2) ! j = sub_cq_arr ?cq ! j"
        unfolding st2 found(4) by (simp add: st1_def)
      have cur: "cur_cqe (ps_cq st2) \<noteq> None" unfolding st2 found(4) by simp
      have "loop_outcome (Suc n) st e st2"
        unfolding loop_outcome_def Let_def
        using fr e(1) found(1,6,7) pend arr cur next_idx [OF Suc.prems(2)] Suc.prems(2)
        by (auto intro!: exI [of _ 0] simp: at [simplified] st1_def)
      then show ?thesis using e by simp
    qed
  qed
qed

text \<open>
  C11: the sub-queues are polled round robin. A poll looks at them in cyclic order from
  \<open>next_poll_idx\<close>. If it reports that there is nothing (\<open>ENOENT\<close>) then every sub-queue in use
  was empty and the queue is as before. Otherwise it consumed one entry, from the first
  sub-queue in that order that had one, left the other sub-queues alone, and the next poll
  will start right behind the sub-queue it served.
\<close>

theorem poll_round_robin:
  assumes "efa_poll_sub_cqs ctx extended cq qps wc = Some (err, cq', qps', wc')"
    and "next_poll_idx cq < num_sub_cqs cq"
  shows "if err = ENOENT
    then (\<forall>k. k < unat (num_sub_cqs cq) \<longrightarrow> sub_idle cq k) \<and> sub_cq_arr cq' = sub_cq_arr cq \<and>
         next_poll_idx cq' = next_poll_idx cq \<and> qps' = qps \<and> wc' = wc
    else (err = 0 \<or> err = EINVAL) \<and>
         (\<exists>d k. d < unat (num_sub_cqs cq) \<and> k = (unat (next_poll_idx cq) + d) mod unat (num_sub_cqs cq) \<and>
            sub_pending cq k \<and>
            (\<forall>d'<d. sub_idle cq ((unat (next_poll_idx cq) + d') mod unat (num_sub_cqs cq))) \<and>
            (\<forall>j. j \<noteq> k \<longrightarrow> sub_cq_arr cq' ! j = sub_cq_arr cq ! j) \<and>
            unat (next_poll_idx cq') = (k + 1) mod unat (num_sub_cqs cq))"
proof -
  let ?num = "unat (num_sub_cqs cq)"
  obtain st' where loop: "poll_sub_cqs_loop ctx extended ?num ENOENT
      \<lparr>ps_cq = cq, ps_qps = qps, ps_cur_qp = None, ps_wc = wc\<rparr> = Some (err, st')"
    and st': "cq' = ps_cq st'" "qps' = ps_qps st'" "wc' = ps_wc st'"
    using assms(1) by (auto simp: efa_poll_sub_cqs_def bind_eq_Some_conv)
  have out: "loop_outcome ?num \<lparr>ps_cq = cq, ps_qps = qps, ps_cur_qp = None, ps_wc = wc\<rparr> err st'"
    by (rule poll_loop_outcome [OF loop]) (use assms(2) in simp)
  have lt: "unat (next_poll_idx cq) < ?num" using assms(2) by (simp add: word_less_nat_alt)
  show ?thesis
  proof (cases "err = ENOENT")
    case True
    have "sub_idle cq k" if "k < ?num" for k
    proof -
      define d where "d = (k + ?num - unat (next_poll_idx cq)) mod ?num"
      have "d < ?num" using that by (simp add: d_def)
      moreover have "(unat (next_poll_idx cq) + d) mod ?num = k"
        using lt that by (simp add: d_def mod_add_right_eq)
      ultimately show ?thesis
        using out True by (auto simp: loop_outcome_def Let_def)
    qed
    then show ?thesis
      using out True st' lt by (simp add: loop_outcome_def Let_def word_unat_eq_iff)
  next
    case False
    then show ?thesis
      using out st' by (auto simp: loop_outcome_def Let_def mod_Suc_eq)
  qed
qed

text \<open>
  A small completion queue for the instances below: one sub-queue of two 16-byte entries, the
  first of which is a completed send of queue pair 5, request 0.
\<close>

definition ex_qp :: efa_qp where
  "ex_qp = zero_qp\<lparr>verbs_qp := zero_verbs_qp\<lparr>qp_num := 5\<rparr>,
     qp_sq := zero_sq\<lparr>sq_wq := wq_example\<lparr>wrid := Live [42, 0, 0, 0], wqe_posted := 1,
       wrid_idx_pool_next := 1\<rparr>\<rparr>\<rparr>"

definition ex_ring :: "u8 list" where
  "ex_ring = [0, 0, 0, 3, 5, 0, 0, 0] @ replicate 24 0"

definition ex_cq :: efa_cq where
  "ex_cq = (zero_cq 0)\<lparr>cq_buf := Some ex_ring, num_sub_cqs := 1,
     sub_cq_arr := [\<lparr>consumed_cnt = 0, sub_phase = 1, sub_buf = 0, sub_qmask = 1, sub_cqe_size = 16,
       sub_ref_cnt = 1\<rparr>]\<rparr>"

definition ex_ctx :: efa_context where
  "ex_ctx = zero_context\<lparr>qp_table := Live [None, Some 7], qp_table_sz_m1 := 1\<rparr>"

definition ex_qps :: qp_heap where
  "ex_qps = [7 \<mapsto> ex_qp]"

lemma ex_poll_run:
  "map_option (\<lambda>(err, cq, qps, wc). (err, wc_wr_id wc, wc_qp_num wc, wc_status wc, next_poll_idx cq))
     (efa_poll_sub_cqs ex_ctx False ex_cq ex_qps null_wc) = Some (0, 42, 5, IBV_WC_SUCCESS, 0)"
  by code_simp

theorem poll_round_robin_witness:
  "\<exists>cq' qps' wc'. efa_poll_sub_cqs ex_ctx False ex_cq ex_qps null_wc = Some (0, cq', qps', wc') \<and>
     (\<exists>d k. d < unat (num_sub_cqs ex_cq) \<and> sub_pending ex_cq k \<and>
        unat (next_poll_idx cq') = (k + 1) mod unat (num_sub_cqs ex_cq))"
proof -
  obtain cq' qps' wc' where p: "efa_poll_sub_cqs ex_ctx False ex_cq ex_qps null_wc = Some (0, cq', qps', wc')"
    using ex_poll_run by auto
  have "next_poll_idx ex_cq < num_sub_cqs ex_cq" by code_simp
  from poll_round_robin [OF p this] show ?thesis using p by auto
qed

section \<open>What a completion does\<close>

lemma wq_at_upd:
  assumes "wq_at qps r = Some wq"
  shows "wq_at (wq_upd qps r wq') r = Some wq'"
    and "r' \<noteq> r \<Longrightarrow> wq_at (wq_upd qps r wq') r' = wq_at qps r'"
  using assms by (cases r; cases r'; auto split: option.splits)+

lemma deref_rx_common:
  assumes "deref_rx_cdesc buf off = Some rc"
  shows "deref_cdesc buf off = Some (rcd_common rc)"
  using assms
  by (auto simp: deref_rx_cdesc_def deref_cdesc_def rx_cdesc_of_bytes_def split: option.splits if_splits)

lemma cb_get_tag:
  assumes "wq_inv wq" and "wq_tags wq i = Some tag"
  shows "cb_get (wrid wq) i = Some tag"
  using assms by (auto simp: wq_tags_def wq_outstanding_def wq_inv_def split: if_splits)

text \<open>
  The completion record for the entry \<open>rc\<close> of a request with the tag \<open>tag\<close> on the queue \<open>r\<close>.
\<close>

definition wc_reports :: "efa_io_rx_cdesc \<Rightarrow> wq_ref \<Rightarrow> u64 \<Rightarrow> ibv_wc \<Rightarrow> bool" where
  "wc_reports rc r tag wc \<longleftrightarrow>
     wc_wr_id wc = tag \<and> wc_status wc = to_ibv_status (cd_status (rcd_common rc)) \<and>
     wc_vendor_err wc = ucast (cd_status (rcd_common rc)) \<and>
     wc_qp_num wc = ucast (cd_qp_num (rcd_common rc)) \<and>
     (case r of Sq_wq _ \<Rightarrow> wc_opcode wc = IBV_WC_SEND
      | Rq_wq _ \<Rightarrow> wc_opcode wc = IBV_WC_RECV \<and>
          wc_byte_len wc = ucast (cd_length (rcd_common rc)) \<and>
          wc_src_qp wc = ucast (rcd_src_qp_num rc) \<and> wc_slid wc = rcd_ah rc)"

definition cqe_queue :: "efa_io_rx_cdesc \<Rightarrow> ptr \<Rightarrow> wq_ref" where
  "cqe_queue rc p =
     (if EFA_GET (cd_flags (rcd_common rc)) EFA_IO_CDESC_COMMON_Q_TYPE_MASK = EFA_IO_SEND_QUEUE
      then Sq_wq p else Rq_wq p)"

lemma sub_cq_delivers:
  assumes sub: "k < length (sub_cq_arr (ps_cq st))"
      "cq_next_sub_cqe_get (cq_buf (ps_cq st)) (sub_cq_arr (ps_cq st) ! k) = Some (Some off, sub')"
    and cqe: "deref_rx_cdesc (cq_buf (ps_cq st)) off = Some rc"
    and qp: "ps_cur_qp st = None"
      "cb_get (qp_table ctx) (unat (ucast (cd_qp_num (rcd_common rc)) AND qp_table_sz_m1 ctx)) = Some (Some p)"
    and r: "r = cqe_queue rc p"
    and wq: "wq_at (ps_qps st) r = Some wq" "wq_inv wq"
      "wq_tags wq (unat (cd_req_id (rcd_common rc))) = Some tag"
  shows "\<exists>wq' wc'. efa_poll_sub_cq ctx k False st = Some (0, st\<lparr>ps_cq := (ps_cq st)
        \<lparr>sub_cq_arr := (sub_cq_arr (ps_cq st))[k := sub'], cur_cqe := Some off, cur_wq := Some r\<rparr>,
        ps_qps := wq_upd (ps_qps st) r wq', ps_cur_qp := Some p, ps_wc := wc'\<rparr>) \<and>
    wc_reports rc r tag wc' \<and>
    efa_wq_put_wrid_idx_unlocked wq (ucast (cd_req_id (rcd_common rc))) = Some wq' \<and>
    wq' = wq\<lparr>wrid_idx_pool_next := wrid_idx_pool_next wq - 1,
      wrid_idx_pool := wrid_idx_pool wq', wqe_completed := wqe_completed wq + 1\<rparr> \<and>
    wq_inv wq' \<and> wq_tags wq' = (wq_tags wq)(unat (cd_req_id (rcd_common rc)) := None)"
proof -
  let ?c = "rcd_common rc"
  have id: "unat (ucast (cd_req_id ?c) :: u32) = unat (cd_req_id ?c)" by (simp add: unat_ucast_widen)
  have "unat (ucast (cd_req_id ?c) :: u32) \<in> wq_outstanding wq"
    unfolding id using wq(3) by (auto simp: wq_tags_def split: if_splits)
  from put_wrid_spec [OF wq(2) this] obtain wq' where put:
    "efa_wq_put_wrid_idx_unlocked wq (ucast (cd_req_id ?c)) = Some wq'"
    "wq' = wq\<lparr>wrid_idx_pool_next := wrid_idx_pool_next wq - 1,
       wrid_idx_pool := wrid_idx_pool wq', wqe_completed := wqe_completed wq + 1\<rparr>"
    "wq_inv wq'" "wq_tags wq' = (wq_tags wq)(unat (cd_req_id ?c) := None)"
    unfolding id by blast
  define cq where "cq = (ps_cq st)\<lparr>sub_cq_arr := (sub_cq_arr (ps_cq st))[k := sub'], cur_cqe := Some off\<rparr>"
  have buf: "cq_buf cq = cq_buf (ps_cq st)" "cur_cqe cq = Some off" by (simp_all add: cq_def)
  note common = deref_rx_common [OF cqe]
  have tag: "cb_get (wrid wq) (unat (cd_req_id ?c)) = Some tag" by (rule cb_get_tag [OF wq(2,3)])
  define wc0 where "wc0 = (ps_wc st)\<lparr>wc_status := to_ibv_status (cd_status ?c),
    wc_vendor_err := ucast (cd_status ?c), wc_wc_flags := 0, wc_qp_num := ucast (cd_qp_num ?c)\<rparr>"
  define wc1 where "wc1 = (case r of Sq_wq _ \<Rightarrow> wc0\<lparr>wc_opcode := IBV_WC_SEND\<rparr>
    | Rq_wq _ \<Rightarrow>
       (let wc = wc0\<lparr>wc_byte_len := ucast (cd_length ?c), wc_opcode := IBV_WC_RECV,
            wc_src_qp := ucast (rcd_src_qp_num rc), wc_sl := 0, wc_slid := rcd_ah rc\<rparr>
        in if EFA_GET (cd_flags ?c) EFA_IO_CDESC_COMMON_HAS_IMM_MASK \<noteq> 0
           then wc\<lparr>wc_imm_data := htobe32 (rcd_imm rc), wc_wc_flags := wc_wc_flags wc OR IBV_WC_WITH_IMM\<rparr>
           else wc))"
  have proc: "efa_process_cqe cq (ps_wc st) (ps_qps st) p =
      Some (cq\<lparr>cur_wq := Some r\<rparr>, wc1\<lparr>wc_wr_id := tag\<rparr>)"
    using wq(1) tag buf common cqe
    by (cases "EFA_GET (cd_flags ?c) EFA_IO_CDESC_COMMON_Q_TYPE_MASK = EFA_IO_SEND_QUEUE")
      (simp_all add: efa_process_cqe_def r cqe_queue_def wc1_def wc0_def Let_def del: wq_at.simps)
  have "lookup_cur_qp ctx (ps_qps st) (ps_cur_qp st) (ucast (cd_qp_num ?c)) = Some (Some p)"
    using qp by (simp add: lookup_cur_qp_def)
  then have run: "efa_poll_sub_cq ctx k False st = Some (0, st\<lparr>ps_cq := cq\<lparr>cur_wq := Some r\<rparr>,
      ps_qps := wq_upd (ps_qps st) r wq', ps_cur_qp := Some p, ps_wc := wc1\<lparr>wc_wr_id := tag\<rparr>\<rparr>)"
    using sub common proc put(1) wq(1)
    by (simp add: efa_poll_sub_cq_def Let_def cq_def put_wrid_at_def del: wq_at.simps)
  have "wc_reports rc r tag (wc1\<lparr>wc_wr_id := tag\<rparr>)"
    by (simp add: wc_reports_def wc1_def wc0_def Let_def split: wq_ref.split)
  then show ?thesis using run put unfolding cq_def by (intro exI conjI) simp_all
qed

text \<open>
  C2: a completion is delivered to the right request. When the entry at the head of a
  sub-queue names a queue pair of the table and a request of it that is outstanding, the poll
  succeeds; the completion record carries the tag the application gave that request, the
  status, queue pair and opcode of the entry, and for a receive its length and source; the
  request's identifier is free again, and no other request of any queue is touched.
\<close>

theorem poll_delivers_completion:
  assumes sub: "k < length (sub_cq_arr (ps_cq st))"
      "cq_next_sub_cqe_get (cq_buf (ps_cq st)) (sub_cq_arr (ps_cq st) ! k) = Some (Some off, sub')"
    and cqe: "deref_rx_cdesc (cq_buf (ps_cq st)) off = Some rc"
    and qp: "ps_cur_qp st = None"
      "cb_get (qp_table ctx) (unat (ucast (cd_qp_num (rcd_common rc)) AND qp_table_sz_m1 ctx)) = Some (Some p)"
    and r: "r = (if EFA_GET (cd_flags (rcd_common rc)) EFA_IO_CDESC_COMMON_Q_TYPE_MASK = EFA_IO_SEND_QUEUE
                 then Sq_wq p else Rq_wq p)"
    and wq: "wq_at (ps_qps st) r = Some wq" "wq_inv wq"
      "wq_tags wq (unat (cd_req_id (rcd_common rc))) = Some tag"
  shows "\<exists>st' wq'. efa_poll_sub_cq ctx k False st = Some (0, st') \<and>
    wc_wr_id (ps_wc st') = tag \<and> wc_status (ps_wc st') = to_ibv_status (cd_status (rcd_common rc)) \<and>
    wc_vendor_err (ps_wc st') = ucast (cd_status (rcd_common rc)) \<and>
    wc_qp_num (ps_wc st') = ucast (cd_qp_num (rcd_common rc)) \<and>
    (case r of Sq_wq _ \<Rightarrow> wc_opcode (ps_wc st') = IBV_WC_SEND
     | Rq_wq _ \<Rightarrow> wc_opcode (ps_wc st') = IBV_WC_RECV \<and>
         wc_byte_len (ps_wc st') = ucast (cd_length (rcd_common rc)) \<and>
         wc_src_qp (ps_wc st') = ucast (rcd_src_qp_num rc) \<and> wc_slid (ps_wc st') = rcd_ah rc) \<and>
    wq_at (ps_qps st') r = Some wq' \<and> wq_inv wq' \<and>
    wq_tags wq' = (wq_tags wq)(unat (cd_req_id (rcd_common rc)) := None) \<and>
    wqe_completed wq' = wqe_completed wq + 1 \<and> wqlock wq' = wqlock wq \<and>
    (\<forall>r'. r' = r \<or> wq_at (ps_qps st') r' = wq_at (ps_qps st) r')"
proof -
  have r': "r = cqe_queue rc p" using r by (simp add: cqe_queue_def)
  obtain wq' wc' where d: "efa_poll_sub_cq ctx k False st = Some (0, st\<lparr>ps_cq := (ps_cq st)
        \<lparr>sub_cq_arr := (sub_cq_arr (ps_cq st))[k := sub'], cur_cqe := Some off, cur_wq := Some r\<rparr>,
        ps_qps := wq_upd (ps_qps st) r wq', ps_cur_qp := Some p, ps_wc := wc'\<rparr>)"
    "wc_reports rc r tag wc'"
    "wq' = wq\<lparr>wrid_idx_pool_next := wrid_idx_pool_next wq - 1,
      wrid_idx_pool := wrid_idx_pool wq', wqe_completed := wqe_completed wq + 1\<rparr>"
    "wq_inv wq'" "wq_tags wq' = (wq_tags wq)(unat (cd_req_id (rcd_common rc)) := None)"
    using sub_cq_delivers [OF sub cqe qp r' wq] by blast
  have fields: "wqe_completed wq' = wqe_completed wq + 1" "wqlock wq' = wqlock wq"
    by (subst d(3), simp)+
  have others: "\<forall>r'. r' = r \<or> wq_at (wq_upd (ps_qps st) r wq') r' = wq_at (ps_qps st) r'"
    using wq_at_upd(2) [OF wq(1)] by blast
  show ?thesis
    by (rule exI, rule exI [of _ wq'], rule conjI [OF d(1)])
      (use d(2,4,5) fields wq_at_upd(1) [OF wq(1)] others in
        \<open>simp add: wc_reports_def del: wq_at.simps wq_upd.simps split: wq_ref.split_asm wq_ref.split\<close>)
qed

theorem poll_delivers_completion_witness:
  "\<exists>st'. efa_poll_sub_cq ex_ctx 0 False
       \<lparr>ps_cq = ex_cq, ps_qps = ex_qps, ps_cur_qp = None, ps_wc = null_wc\<rparr> = Some (0, st') \<and>
     wc_wr_id (ps_wc st') = 42"
proof -
  define st where "st = \<lparr>ps_cq = ex_cq, ps_qps = ex_qps, ps_cur_qp = None, ps_wc = null_wc\<rparr>"
  define wq where "wq = sq_wq (qp_sq ex_qp)"
  define rc where "rc = rx_cdesc_of_bytes ex_ring"
  have sub: "0 < length (sub_cq_arr ex_cq)" by code_simp
  have "\<exists>sub'. cq_next_sub_cqe_get (cq_buf ex_cq) (sub_cq_arr ex_cq ! 0) = Some (Some 0, sub')"
  proof -
    have "map_option fst (cq_next_sub_cqe_get (cq_buf ex_cq) (sub_cq_arr ex_cq ! 0)) = Some (Some 0)"
      by code_simp
    then show ?thesis by auto
  qed
  then obtain sub' where next_cqe:
    "cq_next_sub_cqe_get (cq_buf ex_cq) (sub_cq_arr ex_cq ! 0) = Some (Some 0, sub')" ..
  have rc: "deref_rx_cdesc (cq_buf ex_cq) 0 = Some rc"
    by (simp add: deref_rx_cdesc_def rc_def ex_cq_def ex_ring_def)
  have tab: "cb_get (qp_table ex_ctx) (unat (ucast (cd_qp_num (rcd_common rc)) AND qp_table_sz_m1 ex_ctx))
      = Some (Some 7)"
    unfolding rc_def by code_simp
  have q: "EFA_GET (cd_flags (rcd_common rc)) EFA_IO_CDESC_COMMON_Q_TYPE_MASK = EFA_IO_SEND_QUEUE"
    unfolding rc_def by code_simp
  have inv: "wq_inv wq" "wq_tags wq (unat (cd_req_id (rcd_common rc))) = Some 42"
  proof -
    have id: "cd_req_id (rcd_common rc) = 0" unfolding rc_def by code_simp
    show "wq_inv wq" "wq_tags wq (unat (cd_req_id (rcd_common rc))) = Some 42"
      unfolding id by (simp_all add: wq_def ex_qp_def wq_inv_def wq_free_def wq_tags_def
          wq_outstanding_def wq_example_def)
  qed
  have at: "wq_at ex_qps (Sq_wq 7) = Some wq" by (simp add: ex_qps_def wq_def)
  show ?thesis
    using poll_delivers_completion [of 0 st 0 sub' rc ex_ctx 7 "Sq_wq 7" wq 42]
      sub next_cqe rc tab q inv at
    by (auto simp: st_def)
qed

section \<open>The return value of \<open>efa_poll_cq\<close>\<close>

lemma poll_sub_cqs_frame:
  assumes "efa_poll_sub_cqs ctx extended cq qps wc = Some (err, cq', qps', wc')"
  shows "cq_frame cq cq'"
proof -
  have "cq_frame (ps_cq st) (ps_cq st')"
    if "poll_sub_cqs_loop ctx extended n e st = Some (e', st')" for n e e' st st'
    using that
  proof (induction n arbitrary: e st)
    case 0
    then show ?case by simp
  next
    case (Suc n)
    let ?st = "st\<lparr>ps_cq := (ps_cq st)\<lparr>next_poll_idx :=
        (next_poll_idx (ps_cq st) + 1) mod num_sub_cqs (ps_cq st)\<rparr>\<rparr>"
    have st: "cq_frame (ps_cq st) (ps_cq ?st)" by (simp add: cq_frame_def)
    have "cq_frame (ps_cq ?st) (ps_cq st')"
      using Suc.prems
      by (auto simp: Let_def bind_eq_Some_conv split: if_splits
          dest!: Suc.IH poll_sub_cq_frame intro: cq_frame_trans)
    then show ?case by (rule cq_frame_trans [OF st])
  qed
  note loop = this
  obtain st' where "poll_sub_cqs_loop ctx extended (unat (num_sub_cqs cq)) ENOENT
      \<lparr>ps_cq = cq, ps_qps = qps, ps_cur_qp = None, ps_wc = wc\<rparr> = Some (err, st')" "cq' = ps_cq st'"
    using assms by (auto simp: efa_poll_sub_cqs_def bind_eq_Some_conv)
  then show ?thesis using loop by fastforce
qed

lemma poll_idx_lt:
  assumes "efa_poll_sub_cqs ctx extended cq qps wc = Some (err, cq', qps', wc')"
    and "next_poll_idx cq < num_sub_cqs cq"
  shows "next_poll_idx cq' < num_sub_cqs cq'"
proof -
  have "unat (next_poll_idx cq') < unat (num_sub_cqs cq)"
    if "poll_sub_cqs_loop ctx extended n ENOENT \<lparr>ps_cq = cq, ps_qps = qps, ps_cur_qp = None, ps_wc = wc\<rparr>
      = Some (err, st')" "cq' = ps_cq st'" for n st'
    using poll_loop_outcome [OF that(1)] assms(2) that(2)
    by (auto simp: loop_outcome_def Let_def word_less_nat_alt split: if_splits)
  then have "unat (next_poll_idx cq') < unat (num_sub_cqs cq)"
    using assms(1) by (auto simp: efa_poll_sub_cqs_def bind_eq_Some_conv)
  then show ?thesis using poll_sub_cqs_frame [OF assms(1)] by (simp add: cq_frame_def word_less_nat_alt)
qed

text \<open>What is pending in the whole queue.\<close>

definition cq_idle :: "efa_cq \<Rightarrow> bool" where
  "cq_idle cq \<longleftrightarrow> (\<forall>k. k < unat (num_sub_cqs cq) \<longrightarrow> sub_idle cq k)"

lemma poll_sub_cqs_results:
  assumes "efa_poll_sub_cqs ctx extended cq qps wc = Some (err, cq', qps', wc')"
    and "next_poll_idx cq < num_sub_cqs cq"
  shows "err = 0 \<or> err = EINVAL \<or> err = ENOENT" and "err \<noteq> 0 \<Longrightarrow> wc' = wc"
    and "err = ENOENT \<Longrightarrow> cq_idle cq'" and "err \<noteq> 0 \<Longrightarrow> qps' = qps"
    and "err \<noteq> ENOENT \<Longrightarrow> cur_cqe cq' \<noteq> None" and "err = 0 \<Longrightarrow> cur_wq cq' \<noteq> None"
proof -
  obtain st' where loop: "poll_sub_cqs_loop ctx extended (unat (num_sub_cqs cq)) ENOENT
      \<lparr>ps_cq = cq, ps_qps = qps, ps_cur_qp = None, ps_wc = wc\<rparr> = Some (err, st')"
    and st': "cq' = ps_cq st'" "qps' = ps_qps st'" "wc' = ps_wc st'"
    using assms(1) by (auto simp: efa_poll_sub_cqs_def bind_eq_Some_conv)
  have out: "loop_outcome (unat (num_sub_cqs cq))
      \<lparr>ps_cq = cq, ps_qps = qps, ps_cur_qp = None, ps_wc = wc\<rparr> err st'"
    by (rule poll_loop_outcome [OF loop]) (use assms(2) in simp)
  show "err = 0 \<or> err = EINVAL \<or> err = ENOENT" "err \<noteq> 0 \<Longrightarrow> wc' = wc" "err \<noteq> 0 \<Longrightarrow> qps' = qps"
    "err \<noteq> ENOENT \<Longrightarrow> cur_cqe cq' \<noteq> None" "err = 0 \<Longrightarrow> cur_wq cq' \<noteq> None"
    using out unfolding st' loop_outcome_def Let_def by (auto split: if_splits)
  assume e: "err = ENOENT"
  have arr: "sub_cq_arr cq' = sub_cq_arr cq" "cq_frame cq cq'"
    using out e unfolding st' loop_outcome_def Let_def by auto
  have lt: "unat (next_poll_idx cq) < unat (num_sub_cqs cq)" using assms(2) by (simp add: word_less_nat_alt)
  have "sub_idle cq k" if "k < unat (num_sub_cqs cq)" for k
  proof -
    let ?d = "(k + unat (num_sub_cqs cq) - unat (next_poll_idx cq)) mod unat (num_sub_cqs cq)"
    have "(unat (next_poll_idx cq) + ?d) mod unat (num_sub_cqs cq) = k"
      using lt that by (simp add: mod_add_right_eq)
    moreover have "?d < unat (num_sub_cqs cq)" using lt by simp
    ultimately show ?thesis using out e unfolding loop_outcome_def Let_def by auto
  qed
  then show "cq_idle cq'"
    using arr idle_pending_cong [OF arr(1)] by (simp add: cq_idle_def cq_frame_def)
qed

lemma poll_cq_loop_spec:
  assumes "poll_cq_loop ctx n i cq qps wcs = Some (i', ret, cq', qps', wcs')"
    and "next_poll_idx cq < num_sub_cqs cq"
  shows "i \<le> i' \<and> i' \<le> i + n \<and> (ret = 0 \<or> ret = EINVAL) \<and> cq_frame cq cq' \<and>
    length wcs' = length wcs \<and> (\<forall>j. j < i \<or> i' \<le> j \<longrightarrow> wcs' ! j = wcs ! j) \<and>
    (ret = 0 \<and> i' < i + n \<longrightarrow> cq_idle cq')"
  using assms
proof (induction n arbitrary: i cq qps wcs)
  case 0
  then show ?case by simp
next
  case (Suc n)
  obtain e cq1 qps1 wc1 where i: "i < length wcs"
    and p: "efa_poll_sub_cqs ctx False cq qps (wcs ! i) = Some (e, cq1, qps1, wc1)"
    using Suc.prems(1) by (auto simp: bind_eq_Some_conv arr_get_eq_Some)
  note res = poll_sub_cqs_results [OF p Suc.prems(2)]
  note fr = poll_sub_cqs_frame [OF p]
  show ?case
  proof (cases "e = 0")
    case False
    then have "i' = i" "ret = (if e = ENOENT then 0 else e)" "cq' = cq1" "wcs' = wcs[i := wc1]"
      using Suc.prems(1) i p by auto
    then show ?thesis using False res fr by auto
  next
    case True
    then have loop: "poll_cq_loop ctx n (Suc i) cq1 qps1 (wcs[i := wc1]) = Some (i', ret, cq', qps', wcs')"
      using Suc.prems(1) i p by simp
    from Suc.IH [OF loop poll_idx_lt [OF p Suc.prems(2)]] show ?thesis
      using fr by (auto intro: cq_frame_trans)
  qed
qed

text \<open>
  \<open>polls ctx cq qps ws ws' cq' qps'\<close>: one successful \<open>efa_poll_sub_cqs\<close> after the other, from the
  queue \<open>cq\<close> to the queue \<open>cq'\<close>, the \<open>j\<close>-th of which turns the record \<open>ws ! j\<close> into \<open>ws' ! j\<close>.
\<close>

inductive polls ::
  "efa_context \<Rightarrow> efa_cq \<Rightarrow> qp_heap \<Rightarrow> ibv_wc list \<Rightarrow> ibv_wc list \<Rightarrow> efa_cq \<Rightarrow> qp_heap \<Rightarrow> bool"
  for ctx where
  polls_none: "polls ctx cq qps [] [] cq qps"
| polls_more: "efa_poll_sub_cqs ctx False cq qps w = Some (0, cq1, qps1, w1) \<Longrightarrow>
     polls ctx cq1 qps1 ws ws' cq' qps' \<Longrightarrow> polls ctx cq qps (w # ws) (w1 # ws') cq' qps'"

inductive_simps polls_Nil [simp]: "polls ctx cq qps [] ws' cq' qps'"
inductive_simps polls_Cons [simp]: "polls ctx cq qps (w # ws) ws' cq' qps'"

text \<open>How the loop ends after \<open>k\<close> of at most \<open>n\<close> completions: it has all of them, or one more poll fails.\<close>

definition polls_end ::
  "efa_context \<Rightarrow> nat \<Rightarrow> nat \<Rightarrow> efa_cq \<Rightarrow> qp_heap \<Rightarrow> ibv_wc list \<Rightarrow> int \<Rightarrow> efa_cq \<Rightarrow> qp_heap \<Rightarrow> bool" where
  "polls_end ctx n k cq1 qps1 wcs e cq' qps' \<longleftrightarrow>
     (if k = n then e = 0 \<and> cq' = cq1 \<and> qps' = qps1
      else k < n \<and> e \<noteq> 0 \<and> k < length wcs \<and>
        efa_poll_sub_cqs ctx False cq1 qps1 (wcs ! k) = Some (e, cq', qps', wcs ! k))"

lemma poll_cq_loop_polls:
  assumes "poll_cq_loop ctx n i cq qps wcs = Some (i', ret, cq', qps', wcs')"
    and "next_poll_idx cq < num_sub_cqs cq" and "i \<le> length wcs"
  shows "\<exists>ws ws' cq1 qps1 e. polls ctx cq qps ws ws' cq1 qps1 \<and> i' = i + length ws \<and>
    wcs = take i wcs @ ws @ drop i' wcs \<and> wcs' = take i wcs @ ws' @ drop i' wcs \<and>
    polls_end ctx (i + n) i' cq1 qps1 wcs e cq' qps' \<and> ret = (if e = ENOENT then 0 else e)"
  using assms
proof (induction n arbitrary: i cq qps wcs)
  case 0
  then show ?case
    by (intro exI [of _ "[]"] exI [of _ cq] exI [of _ qps] exI [of _ 0]) (simp add: polls_end_def)
next
  case (Suc n)
  obtain e cq1 qps1 wc1 where i: "i < length wcs"
    and p: "efa_poll_sub_cqs ctx False cq qps (wcs ! i) = Some (e, cq1, qps1, wc1)"
    using Suc.prems(1) by (auto simp: bind_eq_Some_conv arr_get_eq_Some)
  show ?case
  proof (cases "e = 0")
    case False
    have same: "wc1 = wcs ! i" using poll_sub_cqs_results(2) [OF p Suc.prems(2) False] .
    have "i' = i" "ret = (if e = ENOENT then 0 else e)" "cq' = cq1" "qps' = qps1" "wcs' = wcs"
      using Suc.prems(1) i p False same by auto
    then show ?thesis using False i p same
      by (intro exI [of _ "[]"] exI [of _ cq] exI [of _ qps] exI [of _ e]) (simp add: polls_end_def)
  next
    case True
    let ?ws = "wcs[i := wc1]"
    have loop: "poll_cq_loop ctx n (Suc i) cq1 qps1 ?ws = Some (i', ret, cq', qps', wcs')"
      using Suc.prems(1) i p True by simp
    have len: "Suc i \<le> length ?ws" using i by simp
    obtain ws ws' cq2 qps2 e' where r: "polls ctx cq1 qps1 ws ws' cq2 qps2" "i' = Suc i + length ws"
      "?ws = take (Suc i) ?ws @ ws @ drop i' ?ws" "wcs' = take (Suc i) ?ws @ ws' @ drop i' ?ws"
      "polls_end ctx (Suc i + n) i' cq2 qps2 ?ws e' cq' qps'" "ret = (if e' = ENOENT then 0 else e')"
      using Suc.IH [OF loop poll_idx_lt [OF p Suc.prems(2)] len] by (elim exE conjE) (rule that)
    have d: "drop i' ?ws = drop i' wcs" using r(2) by simp
    have t: "take (Suc i) ?ws = take i wcs @ [wc1]" using i by (simp add: take_Suc_conv_app_nth)
    have "drop (Suc i) ?ws = ws @ drop i' ?ws"
      by (metis append_eq_conv_conj append_take_drop_id r(3) same_append_eq)
    then have "drop (Suc i) wcs = ws @ drop i' wcs" using d by simp
    then have split: "wcs = take i wcs @ (wcs ! i # ws) @ drop i' wcs"
      using i by (metis append_Cons append_take_drop_id Cons_nth_drop_Suc)
    have "polls_end ctx (i + Suc n) i' cq2 qps2 wcs e' cq' qps'"
      using r(2,5) by (simp add: polls_end_def split: if_splits)
    moreover have "polls ctx cq qps (wcs ! i # ws) (wc1 # ws') cq2 qps2" using p r(1) True by simp
    ultimately show ?thesis using r(2,4,6) d t split
      by (intro exI [of _ "wcs ! i # ws"] exI [of _ "wc1 # ws'"] exI [of _ cq2] exI [of _ qps2] exI [of _ e']) simp
  qed
qed

lemma polls_length: "polls ctx cq qps ws ws' cq' qps' \<Longrightarrow> length ws' = length ws"
  by (induction rule: polls.induct) auto

text \<open>
  C10: the contract of \<open>efa_poll_cq\<close>. Under the lock of the completion queue it reports \<open>k\<close>
  completions, \<open>k\<close> being at most \<open>nwc\<close>: one poll of the sub-queues after the other, the \<open>j\<close>-th of
  which fills the record \<open>wc[j]\<close>, and no record beyond is written. It stops when it has \<open>nwc\<close> or
  when one more poll fails. It returns \<open>k\<close> when it reported any, whatever the last poll said;
  otherwise 0 if nothing was there and \<open>-EINVAL\<close> if a completion of an unknown queue pair was. The
  lock is released on every path, and a return of 0 for a positive \<open>nwc\<close> means that the queue had
  nothing left to report.
\<close>

theorem efa_poll_cq_contract:
  assumes "efa_poll_cq ctx cq qps nwc wcs = Some (r, cq', qps', wcs')"
    and "next_poll_idx cq < num_sub_cqs cq"
  shows "(\<exists>k cq1 qps1 e cq2.
      polls ctx (cq\<lparr>cq_lock := Suc (cq_lock cq)\<rparr>) qps (take k wcs) (take k wcs') cq1 qps1 \<and>
      k \<le> length wcs \<and> drop k wcs' = drop k wcs \<and>
      polls_end ctx (nat (sint nwc)) k cq1 qps1 wcs e cq2 qps' \<and>
      r = (if k \<noteq> 0 then int k else if e = ENOENT then 0 else - e) \<and>
      cq' = cq2\<lparr>cq_lock := cq_lock cq\<rparr>) \<and>
    r \<le> max 0 (sint nwc) \<and> (0 \<le> r \<or> r = - EINVAL) \<and> cq_lock cq' = cq_lock cq \<and>
    length wcs' = length wcs \<and> (\<forall>j. nat r \<le> j \<longrightarrow> wcs' ! j = wcs ! j) \<and>
    (r = 0 \<and> 0 < sint nwc \<longrightarrow> cq_idle cq')"
proof -
  obtain i ret cq2 where loop: "poll_cq_loop ctx (nat (sint nwc)) 0
      (cq\<lparr>cq_lock := Suc (cq_lock cq)\<rparr>) qps wcs = Some (i, ret, cq2, qps', wcs')"
    and r: "r = (if i \<noteq> 0 then int i else - ret)"
    and cq': "\<exists>l. pthread_spin_unlock (cq_lock cq2) = Some l \<and> cq' = cq2\<lparr>cq_lock := l\<rparr>"
    using assms(1) by (auto simp: efa_poll_cq_def Let_def bind_eq_Some_conv pthread_spin_lock_def)
  note spec = poll_cq_loop_spec [OF loop, simplified, OF assms(2)]
  have "cq_lock cq2 = Suc (cq_lock cq)" using spec by (simp add: cq_frame_def)
  then have cq2: "cq' = cq2\<lparr>cq_lock := cq_lock cq\<rparr>" using cq' by (auto simp: pthread_spin_unlock_def)
  have "cq_idle cq' = cq_idle cq2" by (simp add: cq2 cq_idle_def sub_idle_def)
  then have rest: "r \<le> max 0 (sint nwc) \<and> (0 \<le> r \<or> r = - EINVAL) \<and> cq_lock cq' = cq_lock cq \<and>
    length wcs' = length wcs \<and> (\<forall>j. nat r \<le> j \<longrightarrow> wcs' ! j = wcs ! j) \<and>
    (r = 0 \<and> 0 < sint nwc \<longrightarrow> cq_idle cq')" using spec r cq2 by auto
  obtain ws ws' cq1 qps1 e where p: "polls ctx (cq\<lparr>cq_lock := Suc (cq_lock cq)\<rparr>) qps ws ws' cq1 qps1"
    "i = length ws" "wcs = ws @ drop i wcs" "wcs' = ws' @ drop i wcs"
    "polls_end ctx (nat (sint nwc)) i cq1 qps1 wcs e cq2 qps'" "ret = (if e = ENOENT then 0 else e)"
    using poll_cq_loop_polls [OF loop, simplified, OF assms(2)] by (elim exE conjE) (rule that; simp)
  have l: "length ws' = i" using polls_length [OF p(1)] p(2) by simp
  have "take i wcs = ws" "take i wcs' = ws'" "drop i wcs' = drop i wcs" "i \<le> length wcs"
    using p(2-4) l by (metis append_eq_conv_conj length_append le_add1)+
  then show ?thesis using rest p(1,5,6) r cq2
    by (intro conjI exI [of _ i] exI [of _ cq1] exI [of _ qps1] exI [of _ e] exI [of _ cq2]) auto
qed

theorem efa_poll_cq_contract_witness:
  "\<exists>r cq' qps' wcs'. efa_poll_cq ex_ctx ex_cq ex_qps 2 [null_wc, null_wc] = Some (r, cq', qps', wcs') \<and>
     r = 1 \<and> cq_lock cq' = cq_lock ex_cq \<and> wcs' ! 1 = null_wc"
proof -
  have "map_option fst (efa_poll_cq ex_ctx ex_cq ex_qps 2 [null_wc, null_wc]) = Some 1" by code_simp
  then obtain cq' qps' wcs' where
    p: "efa_poll_cq ex_ctx ex_cq ex_qps 2 [null_wc, null_wc] = Some (1, cq', qps', wcs')"
    by auto
  have "next_poll_idx ex_cq < num_sub_cqs ex_cq" by code_simp
  from efa_poll_cq_contract [OF p this] have "cq_lock cq' = cq_lock ex_cq \<and> wcs' ! 1 = null_wc" by simp
  then show ?thesis using p by blast
qed

section \<open>The protocol of the extended interface\<close>

text \<open>
  The states a caller goes through after a \<open>start_poll\<close> that left \<open>cq1\<close>: any number of \<open>next_poll\<close>,
  whatever they return.
\<close>

inductive in_session :: "efa_context \<Rightarrow> efa_cq \<Rightarrow> qp_heap \<Rightarrow> efa_cq \<Rightarrow> qp_heap \<Rightarrow> bool"
  for ctx cq1 qps1 where
  session_start: "in_session ctx cq1 qps1 cq1 qps1"
| session_next: "in_session ctx cq1 qps1 cq qps \<Longrightarrow> efa_next_poll ctx cq qps = Some (ret, cq', qps') \<Longrightarrow>
     in_session ctx cq1 qps1 cq' qps'"

lemma start_poll_cases:
  assumes "efa_start_poll ctx cq qps m = Some (ret, cq', qps')"
  shows "(m \<noteq> 0 \<and> ret = EINVAL \<and> cq' = cq \<and> qps' = qps) \<or>
    (m = 0 \<and> ret = 0 \<and> cq_lock cq' = Suc (cq_lock cq) \<and>
       cq_frame (cq\<lparr>cq_lock := pthread_spin_lock (cq_lock cq)\<rparr>) cq') \<or>
    (m = 0 \<and> ret \<noteq> 0 \<and> cq_lock cq' = cq_lock cq)"
proof (cases "m = 0")
  case True
  then obtain cq1 qps1 wc1 l where
    p: "efa_poll_sub_cqs ctx True (cq\<lparr>cq_lock := pthread_spin_lock (cq_lock cq)\<rparr>) qps null_wc =
        Some (ret, cq1, qps1, wc1)"
    and r: "if ret \<noteq> 0 then pthread_spin_unlock (cq_lock cq1) = Some l \<and> cq' = cq1\<lparr>cq_lock := l\<rparr>
            else cq' = cq1"
    using assms by (auto simp: efa_start_poll_def Let_def bind_eq_Some_conv split: if_splits)
  have "cq_lock cq1 = Suc (cq_lock cq)"
    using poll_sub_cqs_frame [OF p] by (simp add: cq_frame_def pthread_spin_lock_def)
  then show ?thesis
    using True r poll_sub_cqs_frame [OF p] by (auto split: if_splits)
next
  case False
  then show ?thesis using assms by (auto simp: efa_start_poll_def)
qed

lemma next_poll_frame:
  assumes "efa_next_poll ctx cq qps = Some (ret, cq', qps')"
  shows "cq_frame cq cq'"
  using assms
  by (auto simp: efa_next_poll_def bind_eq_Some_conv dest!: poll_sub_cqs_frame)

lemma session_lock: "in_session ctx cq1 qps1 cq qps \<Longrightarrow> cq_lock cq = cq_lock cq1"
  by (induction rule: in_session.induct) (auto dest: next_poll_frame simp: cq_frame_def)

text \<open>
  C13: the lock protocol of \<open>start_poll\<close>, \<open>next_poll\<close> and \<open>end_poll\<close>. A \<open>start_poll\<close> that fails, for
  an unknown mask, an empty queue or an erroneous completion, leaves the lock as it was. One that
  succeeds takes it exactly once; it is held through any number of \<open>next_poll\<close> calls, whatever they
  return; and \<open>end_poll\<close> releases it, so that after the session the lock has the state it had before.
\<close>

theorem poll_session_lock:
  assumes "efa_start_poll ctx cq0 qps0 m = Some (ret, cq1, qps1)"
  shows "if ret = 0
    then \<forall>cq qps. in_session ctx cq1 qps1 cq qps \<longrightarrow>
      cq_lock cq = Suc (cq_lock cq0) \<and>
      (\<forall>cq' qps'. efa_end_poll cq qps = Some (cq', qps') \<longrightarrow> cq_lock cq' = cq_lock cq0)
    else cq_lock cq1 = cq_lock cq0"
proof (cases "ret = 0")
  case True
  then have "cq_lock cq1 = Suc (cq_lock cq0)" using start_poll_cases [OF assms] by auto
  then show ?thesis using True session_lock
    by (fastforce simp: efa_end_poll_def bind_eq_Some_conv pthread_spin_unlock_def split: nat.splits if_splits)
next
  case False
  then show ?thesis using start_poll_cases [OF assms] by auto
qed

theorem poll_session_lock_witness:
  "\<exists>cq1 qps1 cq' qps'. efa_start_poll ex_ctx ex_cq ex_qps 0 = Some (0, cq1, qps1) \<and>
     efa_end_poll cq1 qps1 = Some (cq', qps') \<and> cq_lock cq1 = 1 \<and> cq_lock cq' = 0"
proof -
  have "(case efa_start_poll ex_ctx ex_cq ex_qps 0 of None \<Rightarrow> False
    | Some (r, cq1, qps1) \<Rightarrow> r = 0 \<and> efa_end_poll cq1 qps1 \<noteq> None)" by code_simp
  then obtain cq1 qps1 cq' qps' where s: "efa_start_poll ex_ctx ex_cq ex_qps 0 = Some (0, cq1, qps1)"
    "efa_end_poll cq1 qps1 = Some (cq', qps')"
    by (auto split: option.splits)
  have lock: "cq_lock ex_cq = 0" by code_simp
  note run = poll_session_lock [OF s(1), simplified lock, simplified]
  have "cq_lock cq1 = 1 \<and> cq_lock cq' = 0"
    using run session_start [of ex_ctx cq1 qps1] s(2) by (metis One_nat_def)
  then show ?thesis using s by blast
qed

section \<open>Where the code departs from its contract\<close>

text \<open>
  The same ring with a second entry, which names a queue pair that is not in the table.
\<close>

definition ex_cq_bad :: efa_cq where
  "ex_cq_bad = ex_cq\<lparr>cq_buf := Some ([0, 0, 0, 3, 5, 0, 0, 0] @ replicate 8 0 @
     [2, 0, 0, 3, 4, 0, 0, 0] @ replicate 8 0)\<rparr>"

text \<open>
  A poll for two completions reports one and 0 errors although the second entry was consumed
  with \<open>EINVAL\<close>: a count below \<open>nwc\<close> does not mean that the queue was emptied.
\<close>

lemma poll_cq_hides_error:
  "map_option (\<lambda>(r, cq, qps, wcs). (r, map consumed_cnt (sub_cq_arr cq)))
     (efa_poll_cq ex_ctx ex_cq_bad ex_qps 2 [null_wc, null_wc]) = Some (1, [2])"
  by code_simp

text \<open>
  After a \<open>next_poll\<close> that failed with \<open>EINVAL\<close>, \<open>cur_cqe\<close> is the entry that failed while
  \<open>cur_wq\<close> still is the queue of the previous one. \<open>end_poll\<close> returns the identifier of the
  former to the pool of the latter. Here requests 0 and 1 are outstanding, 0 completes, and
  the entry that fails carries 2: the pool then holds 2 twice as a free identifier, identifier
  1 is lost, and both requests count as completed although only one is.
\<close>

definition ex_qps2 :: qp_heap where
  "ex_qps2 = [7 \<mapsto> ex_qp\<lparr>qp_sq := (qp_sq ex_qp)\<lparr>sq_wq := (sq_wq (qp_sq ex_qp))
     \<lparr>wqe_posted := 2, wrid_idx_pool_next := 2\<rparr>\<rparr>\<rparr>]"

lemma end_poll_after_failed_next_poll:
  "(case efa_start_poll ex_ctx ex_cq_bad ex_qps2 0 of None \<Rightarrow> False
    | Some (r, cq1, qps1) \<Rightarrow> r = 0 \<and>
       (case efa_next_poll ex_ctx cq1 qps1 of None \<Rightarrow> False
        | Some (r', cq2, qps2) \<Rightarrow> r' = EINVAL \<and>
           (case efa_end_poll cq2 qps2 of None \<Rightarrow> False
            | Some (cq3, qps3) \<Rightarrow>
                map_option (\<lambda>wq. (wq_free wq, wqe_posted wq, wqe_completed wq))
                  (wq_at qps3 (Sq_wq 7)) = Some ([2, 0, 2, 3], 2, 2))))"
  by code_simp

end
