(* ===== verification/Efa_Sq.thy ===== *)
theory Efa_Sq
  imports Efa_Wq
begin

text \<open>
  Posting sends (\<open>efawin/verbs.c\<close>, from \<open>efa_set_tx_buf\<close> to \<open>efa_qp_fill_wr_pfns\<close>): the list
  interface \<open>efa_post_send\<close> and the session interface \<open>efa_send_wr_*\<close>, with the inline
  dispatchers \<open>ibv_wr_*\<close> of \<open>verbs.h\<close>.

  \<open>mem\<close> is the application's memory, which inline sends read; \<open>ahs\<close> the heap of address
  handles. A store beyond the 32-byte union of an entry is undefined.
\<close>

section \<open>Building entries\<close>

text \<open>\<open>tx_buf\<close> is the address of the buffer descriptor: its byte offset in the union.\<close>

definition efa_set_tx_buf :: "u8 list \<Rightarrow> nat \<Rightarrow> u64 \<Rightarrow> u32 \<Rightarrow> u32 \<Rightarrow> u8 list option" where
  "efa_set_tx_buf d tx_buf addr lkey len =
     do {
       d \<leftarrow> store_le tx_buf 4 len d;
       old \<leftarrow> load_le (tx_buf + 4) 4 d;
       d \<leftarrow> store_le (tx_buf + 4) 4 (EFA_SET (old :: u32) EFA_IO_TX_BUF_DESC_LKEY_MASK lkey) d;
       d \<leftarrow> store_le (tx_buf + 8) 4 (ucast (addr AND 0xffffffff) :: u32) d;
       store_le (tx_buf + 12) 4 (ucast (drop_bit 32 addr) :: u32) d
     }"

text \<open>
  The loop counter is a \<open>size_t\<close>, so a negative \<open>num_sge\<close> counts as \<open>2^64 + num_sge\<close>.
\<close>

definition efa_post_send_sgl :: "nat \<Rightarrow> ibv_sge list \<Rightarrow> i32 \<Rightarrow> u8 list \<Rightarrow> u8 list option" where
  "efa_post_send_sgl tx_bufs sg_list num_sge d =
     for_range 0 (unat (size_of_int num_sge))
       (\<lambda>i d. do {
          sge \<leftarrow> arr_get sg_list i;
          efa_set_tx_buf d (tx_bufs + 16 * i) (sge_addr sge) (sge_lkey sge) (sge_length sge)
        }) d"

definition efa_post_send_inline_data ::
  "umem \<Rightarrow> ibv_send_wr \<Rightarrow> efa_io_tx_wqe \<Rightarrow> efa_io_tx_wqe option" where
  "efa_post_send_inline_data mem wr tx_wqe =
     do {
       (total_length, d) \<leftarrow> for_range 0 (unat (size_of_int (sw_num_sge wr)))
         (\<lambda>i (total_length :: u32, d). do {
            sge \<leftarrow> arr_get (sw_sg_list wr) i;
            d \<leftarrow> mem_store (unat total_length)
                   (read_bytes mem (sge_addr sge) (unat (sge_length sge))) d;
            Some (total_length + sge_length sge, d)
          }) (0, wqe_data tx_wqe);
       let meta = wqe_meta tx_wqe;
       let meta = meta\<lparr>txm_ctrl1 := EFA_SET (txm_ctrl1 meta) EFA_IO_TX_META_DESC_INLINE_MSG_MASK 1,
                       txm_length := ucast total_length\<rparr>;
       Some (tx_wqe\<lparr>wqe_meta := meta, wqe_data := d\<rparr>)
     }"

definition efa_sge_total_bytes :: "ibv_sge list \<Rightarrow> i32 \<Rightarrow> u64 option" where
  "efa_sge_total_bytes sg_list num_sge =
     for_range 0 (unat (size_of_int num_sge))
       (\<lambda>i bytes. do { sge \<leftarrow> arr_get sg_list i; Some (bytes + ucast (sge_length sge)) }) 0"

definition efa_buf_list_total_bytes :: "ibv_data_buf list \<Rightarrow> u64 \<Rightarrow> u64 option" where
  "efa_buf_list_total_bytes buf_list num_buf =
     for_range 0 (unat num_buf)
       (\<lambda>i bytes. do { b \<leftarrow> arr_get buf_list i; Some (bytes + db_length b) }) 0"

definition wq_advance :: "efa_wq \<Rightarrow> efa_wq" where
  "wq_advance wq =
     (let wq = wq\<lparr>wqe_posted := wqe_posted wq + 1, wq_pc := wq_pc wq + 1\<rparr>
      in if wq_pc wq AND desc_mask wq = 0 then wq\<lparr>wq_phase := wq_phase wq + 1\<rparr> else wq)"

definition efa_sq_advance_post_idx :: "efa_sq \<Rightarrow> efa_sq" where
  "efa_sq_advance_post_idx sq = sq\<lparr>sq_wq := wq_advance (sq_wq sq)\<rparr>"

definition efa_sq_ring_doorbell :: "efa_sq \<Rightarrow> u16 \<Rightarrow> trace \<Rightarrow> trace" where
  "efa_sq_ring_doorbell sq pc tr = mmio_write32 (wq_db (sq_wq sq)) (ucast pc) tr"

definition efa_set_common_ctrl_flags ::
  "efa_io_tx_meta_desc \<Rightarrow> efa_sq \<Rightarrow> u32 \<Rightarrow> efa_io_tx_meta_desc" where
  "efa_set_common_ctrl_flags desc sq op_type =
     (let desc = desc\<lparr>txm_ctrl1 := EFA_SET (txm_ctrl1 desc) EFA_IO_TX_META_DESC_META_DESC_MASK 1\<rparr>;
          desc = desc\<lparr>txm_ctrl1 := EFA_SET (txm_ctrl1 desc) EFA_IO_TX_META_DESC_OP_TYPE_MASK op_type\<rparr>;
          desc = desc\<lparr>txm_ctrl2 := EFA_SET (txm_ctrl2 desc) EFA_IO_TX_META_DESC_PHASE_MASK
                                     (wq_phase (sq_wq sq))\<rparr>;
          desc = desc\<lparr>txm_ctrl2 := EFA_SET (txm_ctrl2 desc) EFA_IO_TX_META_DESC_FIRST_MASK 1\<rparr>;
          desc = desc\<lparr>txm_ctrl2 := EFA_SET (txm_ctrl2 desc) EFA_IO_TX_META_DESC_LAST_MASK 1\<rparr>
      in desc\<lparr>txm_ctrl2 := EFA_SET (txm_ctrl2 desc) EFA_IO_TX_META_DESC_COMP_REQ_MASK 1\<rparr>)"

section \<open>Validation\<close>

definition efa_post_send_validate :: "efa_qp \<Rightarrow> u32 \<Rightarrow> int" where
  "efa_post_send_validate qp wr_flags =
     (let wq = sq_wq (qp_sq qp) in
      if qp_state (verbs_qp qp) \<noteq> IBV_QPS_RTS \<and> qp_state (verbs_qp qp) \<noteq> IBV_QPS_SQD then EINVAL
      else if wr_flags AND IBV_SEND_SIGNALED = 0 \<and> sq_sig_all qp = 0 then EINVAL
      else if wr_flags AND NOT (IBV_SEND_SIGNALED OR IBV_SEND_INLINE) \<noteq> 0 then EINVAL
      else if wqe_posted wq - wqe_completed wq = wqe_cnt wq then ENOMEM
      else 0)"

definition efa_post_send_validate_wr :: "efa_qp \<Rightarrow> ibv_send_wr \<Rightarrow> int option" where
  "efa_post_send_validate_wr qp wr =
     (let err = efa_post_send_validate qp (sw_send_flags wr) in
      if err \<noteq> 0 then Some err
      else if sw_opcode wr \<noteq> IBV_WR_SEND \<and> sw_opcode wr \<noteq> IBV_WR_SEND_WITH_IMM then Some EINVAL
      else if sw_send_flags wr AND IBV_SEND_INLINE \<noteq> 0 then
        do {
          bytes \<leftarrow> efa_sge_total_bytes (sw_sg_list wr) (sw_num_sge wr);
          Some (if bytes > max_inline_data (qp_sq qp) then EINVAL else 0)
        }
      else Some (if sint (sw_num_sge wr) > sint (wq_max_sge (sq_wq (qp_sq qp))) then EINVAL else 0))"

section \<open>\<open>efa_post_send\<close>\<close>

type_synonym ah_heap = "ptr \<rightharpoonup> efa_ah"

text \<open>
  The entry for one request: the payload and the control flags, then the identifier and the
  destination.
\<close>

definition send_wqe_body :: "umem \<Rightarrow> efa_sq \<Rightarrow> ibv_send_wr \<Rightarrow> efa_io_tx_wqe option" where
  "send_wqe_body mem sq wr =
     do {
       let tx_wqe = zero_tx_wqe;
       tx_wqe \<leftarrow>
         (if sw_send_flags wr AND IBV_SEND_INLINE \<noteq> 0
          then efa_post_send_inline_data mem wr tx_wqe
          else
            do {
              let tx_wqe = tx_wqe\<lparr>wqe_meta := (wqe_meta tx_wqe)\<lparr>txm_length := ucast (sw_num_sge wr)\<rparr>\<rparr>;
              d \<leftarrow> efa_post_send_sgl 0 (sw_sg_list wr) (sw_num_sge wr) (wqe_data tx_wqe);
              Some (tx_wqe\<lparr>wqe_data := d\<rparr>)
            });
       let meta = wqe_meta tx_wqe;
       let meta = (if sw_opcode wr = IBV_WR_SEND_WITH_IMM
                   then meta\<lparr>txm_immediate_data := be32toh (sw_imm_data wr),
                             txm_ctrl1 := EFA_SET (txm_ctrl1 meta) EFA_IO_TX_META_DESC_HAS_IMM_MASK 1\<rparr>
                   else meta);
       Some (tx_wqe\<lparr>wqe_meta := efa_set_common_ctrl_flags meta sq EFA_IO_SEND\<rparr>)
     }"

definition send_wqe_address ::
  "ah_heap \<Rightarrow> ibv_send_wr \<Rightarrow> u32 \<Rightarrow> efa_io_tx_wqe \<Rightarrow> efa_io_tx_wqe option" where
  "send_wqe_address ahs wr wrid_idx tx_wqe =
     do {
       ahp \<leftarrow> sw_ud_ah wr;
       ah \<leftarrow> ahs ahp;
       Some (tx_wqe\<lparr>wqe_meta := (wqe_meta tx_wqe)\<lparr>txm_req_id := ucast wrid_idx,
         txm_dest_qp_num := ucast (sw_ud_remote_qpn wr), txm_ah := ah_efa_ah ah,
         txm_qkey := sw_ud_remote_qkey wr\<rparr>\<rparr>)
     }"

definition build_send_wqe ::
  "umem \<Rightarrow> ah_heap \<Rightarrow> efa_sq \<Rightarrow> ibv_send_wr \<Rightarrow> (efa_io_tx_wqe \<times> efa_sq) option" where
  "build_send_wqe mem ahs sq wr =
     do {
       tx_wqe \<leftarrow> send_wqe_body mem sq wr;
       (wrid_idx, wq) \<leftarrow> efa_wq_get_next_wrid_idx_locked (sq_wq sq) (sw_wr_id wr);
       tx_wqe \<leftarrow> send_wqe_address ahs wr wrid_idx tx_wqe;
       Some (tx_wqe, sq\<lparr>sq_wq := wq\<rparr>)
     }"

text \<open>The address of the ring slot the producer counter stands on.\<close>

definition sq_desc_addr :: "u64 \<Rightarrow> u16 \<Rightarrow> u16 \<Rightarrow> u64" where
  "sq_desc_addr desc msk pc = (let sq_desc_offset = ucast (pc AND msk) * 64 :: u32
                                in desc + ucast sq_desc_offset)"

text \<open>The loop of \<open>efa_post_send\<close>; the third component is what \<open>*bad\<close> was set to.\<close>

fun post_send_loop ::
  "umem \<Rightarrow> ah_heap \<Rightarrow> efa_qp \<Rightarrow> u32 \<Rightarrow> trace \<Rightarrow> ibv_send_wr list \<Rightarrow>
   (int \<times> ibv_send_wr list option \<times> efa_qp \<times> u32 \<times> trace) option" where
  "post_send_loop mem ahs qp curbatch tr [] = Some (0, None, qp, curbatch, tr)"
| "post_send_loop mem ahs qp curbatch tr (wr # wrs) =
     do {
       err \<leftarrow> efa_post_send_validate_wr qp wr;
       if err \<noteq> 0 then Some (err, Some (wr # wrs), qp, curbatch, tr)
       else
         do {
           (tx_wqe, sq) \<leftarrow> build_send_wqe mem ahs (qp_sq qp) wr;
           tr \<leftarrow> mmio_memcpy_x64 (sq_desc_addr (sq_desc sq) (desc_mask (sq_wq sq)) (wq_pc (sq_wq sq)))
                   (qwords_of (tx_wqe_bytes tx_wqe)) 64 tr;
           let sq = efa_sq_advance_post_idx sq;
           let qp = qp\<lparr>qp_sq := sq\<rparr>;
           let curbatch = curbatch + 1;
           if curbatch = ucast (max_batch_wr sq) then
             post_send_loop mem ahs qp 0
               (mmio_wc_start (efa_sq_ring_doorbell sq (wq_pc (sq_wq sq)) (mmio_flush_writes tr))) wrs
           else post_send_loop mem ahs qp curbatch tr wrs
         }
     }"

definition set_sq_lock :: "efa_qp \<Rightarrow> lock \<Rightarrow> efa_qp" where
  "set_sq_lock qp l = qp\<lparr>qp_sq := (qp_sq qp)\<lparr>sq_wq := (sq_wq (qp_sq qp))\<lparr>wqlock := l\<rparr>\<rparr>\<rparr>"

definition efa_post_send ::
  "umem \<Rightarrow> ah_heap \<Rightarrow> efa_qp \<Rightarrow> ibv_send_wr list \<Rightarrow> trace \<Rightarrow>
   (int \<times> ibv_send_wr list option \<times> efa_qp \<times> trace) option" where
  "efa_post_send mem ahs qp wrs tr =
     (let (l, tr) = mmio_wc_spinlock (wqlock (sq_wq (qp_sq qp))) tr;
          qp = set_sq_lock qp l
      in do {
           (err, bad, qp, curbatch, tr) \<leftarrow> post_send_loop mem ahs qp 0 tr wrs;
           let tr = (if curbatch \<noteq> 0
                     then efa_sq_ring_doorbell (qp_sq qp) (wq_pc (sq_wq (qp_sq qp))) (mmio_flush_writes tr)
                     else tr);
           l \<leftarrow> pthread_spin_unlock (wqlock (sq_wq (qp_sq qp)));
           Some (err, bad, set_sq_lock qp l, tr)
         })"

section \<open>The session interface\<close>

text \<open>A change of the entry \<open>curr_tx_wqe\<close> points to.\<close>

definition with_curr_wqe :: "efa_qp \<Rightarrow> (efa_io_tx_wqe \<Rightarrow> efa_io_tx_wqe option) \<Rightarrow> efa_qp option" where
  "with_curr_wqe qp f =
     do {
       i \<leftarrow> curr_tx_wqe (qp_sq qp);
       w \<leftarrow> cb_get (local_queue (qp_sq qp)) i;
       w' \<leftarrow> f w;
       q \<leftarrow> cb_set (local_queue (qp_sq qp)) i w';
       Some (qp\<lparr>qp_sq := (qp_sq qp)\<lparr>local_queue := q\<rparr>\<rparr>)
     }"

definition efa_send_wr_common :: "efa_qp \<Rightarrow> u32 \<Rightarrow> (int \<times> efa_qp) option" where
  "efa_send_wr_common qp op_type =
     (if wr_session_err qp \<noteq> 0 then Some (wr_session_err qp, qp)
      else
        let err = efa_post_send_validate qp (qpx_wr_flags (verbs_qp qp)) in
        if err \<noteq> 0 then Some (err, qp\<lparr>wr_session_err := err\<rparr>)
        else
          do {
            let qp = qp\<lparr>qp_sq := (qp_sq qp)\<lparr>curr_tx_wqe := Some (unat (num_wqe_pending (qp_sq qp)))\<rparr>\<rparr>;
            qp \<leftarrow> with_curr_wqe qp (\<lambda>_. Some zero_tx_wqe);
            qp \<leftarrow> with_curr_wqe qp
                   (\<lambda>w. Some (w\<lparr>wqe_meta := efa_set_common_ctrl_flags (wqe_meta w) (qp_sq qp) op_type\<rparr>));
            (wrid_idx, wq) \<leftarrow> efa_wq_get_next_wrid_idx_locked (sq_wq (qp_sq qp)) (qpx_wr_id (verbs_qp qp));
            let qp = qp\<lparr>qp_sq := (qp_sq qp)\<lparr>sq_wq := wq\<rparr>\<rparr>;
            qp \<leftarrow> with_curr_wqe qp
                   (\<lambda>w. Some (w\<lparr>wqe_meta := (wqe_meta w)\<lparr>txm_req_id := ucast wrid_idx\<rparr>\<rparr>));
            let sq = efa_sq_advance_post_idx (qp_sq qp);
            Some (0, qp\<lparr>qp_sq := sq\<lparr>num_wqe_pending := num_wqe_pending sq + 1\<rparr>\<rparr>)
          })"

definition efa_send_wr_send :: "efa_qp \<Rightarrow> efa_qp option" where
  "efa_send_wr_send qp = map_option snd (efa_send_wr_common qp EFA_IO_SEND)"

definition efa_send_wr_send_imm :: "efa_qp \<Rightarrow> u32 \<Rightarrow> efa_qp option" where
  "efa_send_wr_send_imm qp imm_data =
     do {
       (err, qp) \<leftarrow> efa_send_wr_common qp EFA_IO_SEND;
       if err \<noteq> 0 then Some qp
       else with_curr_wqe qp
         (\<lambda>w. Some (w\<lparr>wqe_meta := (wqe_meta w)\<lparr>txm_immediate_data := be32toh imm_data,
            txm_ctrl1 := EFA_SET (txm_ctrl1 (wqe_meta w)) EFA_IO_TX_META_DESC_HAS_IMM_MASK 1\<rparr>\<rparr>))
     }"

text \<open>
  \<open>rdma_req\<close> is the union read as a remote address (bytes 0 to 15) and a local buffer (16 to 31).
\<close>

definition efa_send_wr_rdma_read :: "efa_qp \<Rightarrow> u32 \<Rightarrow> u64 \<Rightarrow> efa_qp option" where
  "efa_send_wr_rdma_read qp rkey remote_addr =
     do {
       (err, qp) \<leftarrow> efa_send_wr_common qp EFA_IO_RDMA_READ;
       if err \<noteq> 0 then Some qp
       else with_curr_wqe qp
         (\<lambda>w. do {
            d \<leftarrow> store_le 4 4 rkey (wqe_data w);
            d \<leftarrow> store_le 8 4 (ucast (remote_addr AND 0xFFFFFFFF) :: u32) d;
            d \<leftarrow> store_le 12 4 (ucast (drop_bit 32 remote_addr) :: u32) d;
            Some (w\<lparr>wqe_data := d\<rparr>)
          })
     }"

definition efa_send_wr_set_sge :: "efa_qp \<Rightarrow> u32 \<Rightarrow> u64 \<Rightarrow> u32 \<Rightarrow> efa_qp option" where
  "efa_send_wr_set_sge qp lkey addr len =
     (if wr_session_err qp \<noteq> 0 then Some qp
      else with_curr_wqe qp
        (\<lambda>w. do {
           let w = w\<lparr>wqe_meta := (wqe_meta w)\<lparr>txm_length := 1\<rparr>\<rparr>;
           let op_type = (ucast (EFA_GET (txm_ctrl1 (wqe_meta w)) EFA_IO_TX_META_DESC_OP_TYPE_MASK) :: u8);
           if op_type = ucast EFA_IO_SEND then
             do {
               d \<leftarrow> efa_set_tx_buf (wqe_data w) 0 addr lkey len;
               Some (w\<lparr>wqe_data := d\<rparr>)
             }
           else if op_type = ucast EFA_IO_RDMA_READ then
             do {
               d \<leftarrow> store_le 0 4 len (wqe_data w);
               d \<leftarrow> efa_set_tx_buf d 16 addr lkey len;
               Some (w\<lparr>wqe_data := d\<rparr>)
             }
           else Some w
         }))"

definition curr_op_type :: "efa_qp \<Rightarrow> u8 option" where
  "curr_op_type qp =
     do {
       i \<leftarrow> curr_tx_wqe (qp_sq qp);
       w \<leftarrow> cb_get (local_queue (qp_sq qp)) i;
       Some (ucast (EFA_GET (txm_ctrl1 (wqe_meta w)) EFA_IO_TX_META_DESC_OP_TYPE_MASK))
     }"

text \<open>
  \<open>num_sge\<close> is a \<open>size_t\<close> here; the comparison with the \<open>int\<close> \<open>max_sge\<close> converts the latter,
  the calls convert \<open>num_sge\<close> to \<open>int\<close>.
\<close>

definition efa_send_wr_set_sge_list :: "efa_qp \<Rightarrow> u64 \<Rightarrow> ibv_sge list \<Rightarrow> efa_qp option" where
  "efa_send_wr_set_sge_list qp num_sge sg_list =
     (if wr_session_err qp \<noteq> 0 then Some qp
      else
        do {
          op_type \<leftarrow> curr_op_type qp;
          if op_type = ucast EFA_IO_SEND then
            (if num_sge > size_of_int (wq_max_sge (sq_wq (qp_sq qp)))
             then Some (qp\<lparr>wr_session_err := EINVAL\<rparr>)
             else with_curr_wqe qp
               (\<lambda>w. do {
                  d \<leftarrow> efa_post_send_sgl 0 sg_list (ucast num_sge) (wqe_data w);
                  Some (w\<lparr>wqe_data := d, wqe_meta := (wqe_meta w)\<lparr>txm_length := ucast num_sge\<rparr>\<rparr>)
                }))
          else if op_type = ucast EFA_IO_RDMA_READ then
            (if num_sge > max_wr_rdma_sge (qp_sq qp)
             then Some (qp\<lparr>wr_session_err := EINVAL\<rparr>)
             else with_curr_wqe qp
               (\<lambda>w. do {
                  bytes \<leftarrow> efa_sge_total_bytes sg_list (ucast num_sge);
                  d \<leftarrow> store_le 0 4 (ucast bytes :: u32) (wqe_data w);
                  d \<leftarrow> efa_post_send_sgl 16 sg_list (ucast num_sge) d;
                  Some (w\<lparr>wqe_data := d, wqe_meta := (wqe_meta w)\<lparr>txm_length := ucast num_sge\<rparr>\<rparr>)
                }))
          else Some qp
        })"

definition efa_send_wr_set_inline_data :: "umem \<Rightarrow> efa_qp \<Rightarrow> u64 \<Rightarrow> u64 \<Rightarrow> efa_qp option" where
  "efa_send_wr_set_inline_data mem qp addr len =
     (if wr_session_err qp \<noteq> 0 then Some qp
      else if len > max_inline_data (qp_sq qp) then Some (qp\<lparr>wr_session_err := EINVAL\<rparr>)
      else with_curr_wqe qp
        (\<lambda>w. do {
           let meta = wqe_meta w;
           let meta = meta\<lparr>txm_ctrl1 := EFA_SET (txm_ctrl1 meta) EFA_IO_TX_META_DESC_INLINE_MSG_MASK 1\<rparr>;
           d \<leftarrow> mem_store 0 (read_bytes mem addr (unat len)) (wqe_data w);
           Some (w\<lparr>wqe_meta := meta\<lparr>txm_length := ucast len\<rparr>, wqe_data := d\<rparr>)
         }))"

text \<open>The loop counts the length of a buffer in 32 bits.\<close>

definition efa_send_wr_set_inline_data_list ::
  "umem \<Rightarrow> efa_qp \<Rightarrow> u64 \<Rightarrow> ibv_data_buf list \<Rightarrow> efa_qp option" where
  "efa_send_wr_set_inline_data_list mem qp num_buf buf_list =
     (if wr_session_err qp \<noteq> 0 then Some qp
      else
        do {
          bytes \<leftarrow> efa_buf_list_total_bytes buf_list num_buf;
          if bytes > max_inline_data (qp_sq qp) then Some (qp\<lparr>wr_session_err := EINVAL\<rparr>)
          else with_curr_wqe qp
            (\<lambda>w. do {
               (total_length, d) \<leftarrow> for_range 0 (unat num_buf)
                 (\<lambda>i (total_length :: u32, d). do {
                    b \<leftarrow> arr_get buf_list i;
                    let length = (ucast (db_length b) :: u32);
                    d \<leftarrow> mem_store (unat total_length) (read_bytes mem (db_addr b) (unat length)) d;
                    Some (total_length + length, d)
                  }) (0, wqe_data w);
               let meta = wqe_meta w;
               let meta = meta\<lparr>txm_ctrl1 := EFA_SET (txm_ctrl1 meta) EFA_IO_TX_META_DESC_INLINE_MSG_MASK 1,
                               txm_length := ucast total_length\<rparr>;
               Some (w\<lparr>wqe_meta := meta, wqe_data := d\<rparr>)
             })
        })"

definition efa_send_wr_set_addr ::
  "ah_heap \<Rightarrow> efa_qp \<Rightarrow> ptr option \<Rightarrow> u32 \<Rightarrow> u32 \<Rightarrow> efa_qp option" where
  "efa_send_wr_set_addr ahs qp ibvah remote_qpn remote_qkey =
     (if wr_session_err qp \<noteq> 0 then Some qp
      else with_curr_wqe qp
        (\<lambda>w. do {
           ahp \<leftarrow> ibvah;
           ah \<leftarrow> ahs ahp;
           Some (w\<lparr>wqe_meta := (wqe_meta w)\<lparr>txm_dest_qp_num := ucast remote_qpn,
             txm_ah := ah_efa_ah ah, txm_qkey := remote_qkey\<rparr>\<rparr>)
         }))"

definition efa_send_wr_start :: "efa_qp \<Rightarrow> trace \<Rightarrow> efa_qp \<times> trace" where
  "efa_send_wr_start qp tr =
     (let (l, tr) = mmio_wc_spinlock (wqlock (sq_wq (qp_sq qp))) tr;
          qp = (set_sq_lock qp l)\<lparr>wr_session_err := 0\<rparr>
      in (qp\<lparr>qp_sq := (qp_sq qp)\<lparr>num_wqe_pending := 0, phase_rb := wq_phase (sq_wq (qp_sq qp))\<rparr>\<rparr>, tr))"

definition efa_sq_roll_back :: "efa_sq \<Rightarrow> efa_sq" where
  "efa_sq_roll_back sq =
     (let wq = sq_wq sq in
      sq\<lparr>sq_wq := wq\<lparr>wqe_posted := wqe_posted wq - num_wqe_pending sq,
        wq_pc := wq_pc wq - ucast (num_wqe_pending sq),
        wrid_idx_pool_next := wrid_idx_pool_next wq - ucast (num_wqe_pending sq),
        wq_phase := phase_rb sq\<rparr>\<rparr>)"

text \<open>
  The copy loop of \<open>efa_send_wr_complete\<close>. It is a partial function: a loop that never ends has
  no result. All its sizes are 32 bits wide, \<open>local_idx\<close>, \<open>curbatch\<close>, \<open>pc\<close> and \<open>sq_desc_idx\<close> 16.
\<close>

partial_function (option) send_complete_loop ::
  "efa_sq \<Rightarrow> u32 \<Rightarrow> u16 \<Rightarrow> u16 \<Rightarrow> u16 \<Rightarrow> u16 \<Rightarrow> trace \<Rightarrow> (efa_sq \<times> u16 \<times> trace) option" where
  "send_complete_loop sq max_txbatch local_idx curbatch pc sq_desc_idx tr =
     (if num_wqe_pending sq = 0 then Some (sq, curbatch, tr)
      else
        (let n = min (min (num_wqe_pending sq) (wqe_cnt (sq_wq sq) - ucast sq_desc_idx))
                     (max_txbatch - ucast curbatch)
         in Option.bind
              (mmio_memcpy_x64 (sq_desc sq + 64 * ucast sq_desc_idx)
                 (wqes_qwords (drop (unat local_idx) (cb_list (local_queue sq)))) (ucast n * 64) tr)
              (\<lambda>tr.
                 let sq = sq\<lparr>num_wqe_pending := num_wqe_pending sq - n\<rparr>;
                     local_idx = local_idx + ucast n;
                     curbatch = curbatch + ucast n;
                     pc = pc + ucast n;
                     sq_desc_idx = (sq_desc_idx + ucast n) AND desc_mask (sq_wq sq)
                 in if ucast curbatch = max_txbatch
                    then send_complete_loop sq max_txbatch local_idx 0 pc sq_desc_idx
                           (mmio_wc_start (efa_sq_ring_doorbell sq pc (mmio_flush_writes tr)))
                    else send_complete_loop sq max_txbatch local_idx curbatch pc sq_desc_idx tr)))"

definition efa_send_wr_complete :: "efa_qp \<Rightarrow> trace \<Rightarrow> (int \<times> efa_qp \<times> trace) option" where
  "efa_send_wr_complete qp tr =
     do {
       (sq, tr) \<leftarrow>
         (if wr_session_err qp \<noteq> 0 then Some (efa_sq_roll_back (qp_sq qp), tr)
          else
            do {
              let sq = qp_sq qp;
              let pc = wq_pc (sq_wq sq) - ucast (num_wqe_pending sq);
              let sq_desc_idx = pc AND desc_mask (sq_wq sq);
              (sq, curbatch, tr) \<leftarrow>
                send_complete_loop sq (ucast (max_batch_wr sq)) 0 0 pc sq_desc_idx tr;
              Some (sq, if curbatch \<noteq> 0
                        then efa_sq_ring_doorbell sq (wq_pc (sq_wq sq)) (mmio_flush_writes tr) else tr)
            });
       let qp = qp\<lparr>qp_sq := sq\<rparr>;
       l \<leftarrow> pthread_spin_unlock (wqlock (sq_wq (qp_sq qp)));
       Some (wr_session_err qp, set_sq_lock qp l, tr)
     }"

definition efa_send_wr_abort :: "efa_qp \<Rightarrow> efa_qp option" where
  "efa_send_wr_abort qp =
     do {
       let qp = qp\<lparr>qp_sq := efa_sq_roll_back (qp_sq qp)\<rparr>;
       l \<leftarrow> pthread_spin_unlock (wqlock (sq_wq (qp_sq qp)));
       Some (set_sq_lock qp l)
     }"

section \<open>The function table and the dispatchers\<close>

definition efa_qp_fill_wr_pfns :: "verbs_qp \<Rightarrow> u64 \<Rightarrow> verbs_qp" where
  "efa_qp_fill_wr_pfns x send_ops_flags =
     (let x = x\<lparr>wr_start := Some Fn_send_wr_start, wr_complete := Some Fn_send_wr_complete,
               wr_abort := Some Fn_send_wr_abort\<rparr>;
          x = (if send_ops_flags AND IBV_QP_EX_WITH_SEND \<noteq> 0
               then x\<lparr>wr_send := Some Fn_send_wr_send\<rparr> else x);
          x = (if send_ops_flags AND IBV_QP_EX_WITH_SEND_WITH_IMM \<noteq> 0
               then x\<lparr>wr_send_imm := Some Fn_send_wr_send_imm\<rparr> else x);
          x = (if send_ops_flags AND IBV_QP_EX_WITH_RDMA_READ \<noteq> 0
               then x\<lparr>wr_rdma_read := Some Fn_send_wr_rdma_read\<rparr> else x)
      in x\<lparr>wr_set_inline_data := Some Fn_send_wr_set_inline_data,
           wr_set_inline_data_list := Some Fn_send_wr_set_inline_data_list,
           wr_set_sge := Some Fn_send_wr_set_sge, wr_set_sge_list := Some Fn_send_wr_set_sge_list,
           wr_set_ud_addr := Some Fn_send_wr_set_addr\<rparr>)"

definition ibv_wr_start :: "efa_qp \<Rightarrow> trace \<Rightarrow> (efa_qp \<times> trace) option" where
  "ibv_wr_start qp tr =
     (if wr_start (verbs_qp qp) = Some Fn_send_wr_start then Some (efa_send_wr_start qp tr) else None)"

definition ibv_wr_complete :: "efa_qp \<Rightarrow> trace \<Rightarrow> (int \<times> efa_qp \<times> trace) option" where
  "ibv_wr_complete qp tr =
     (if wr_complete (verbs_qp qp) = Some Fn_send_wr_complete then efa_send_wr_complete qp tr else None)"

definition ibv_wr_abort :: "efa_qp \<Rightarrow> efa_qp option" where
  "ibv_wr_abort qp =
     (if wr_abort (verbs_qp qp) = Some Fn_send_wr_abort then efa_send_wr_abort qp else None)"

definition ibv_wr_send :: "efa_qp \<Rightarrow> efa_qp option" where
  "ibv_wr_send qp =
     (if wr_send (verbs_qp qp) = Some Fn_send_wr_send then efa_send_wr_send qp else None)"

definition ibv_wr_send_imm :: "efa_qp \<Rightarrow> u32 \<Rightarrow> efa_qp option" where
  "ibv_wr_send_imm qp imm_data =
     (if wr_send_imm (verbs_qp qp) = Some Fn_send_wr_send_imm
      then efa_send_wr_send_imm qp imm_data else None)"

definition ibv_wr_rdma_read :: "efa_qp \<Rightarrow> u32 \<Rightarrow> u64 \<Rightarrow> efa_qp option" where
  "ibv_wr_rdma_read qp rkey remote_addr =
     (if wr_rdma_read (verbs_qp qp) = Some Fn_send_wr_rdma_read
      then efa_send_wr_rdma_read qp rkey remote_addr else None)"

definition ibv_wr_set_sge :: "efa_qp \<Rightarrow> u32 \<Rightarrow> u64 \<Rightarrow> u32 \<Rightarrow> efa_qp option" where
  "ibv_wr_set_sge qp lkey addr len =
     (if wr_set_sge (verbs_qp qp) = Some Fn_send_wr_set_sge
      then efa_send_wr_set_sge qp lkey addr len else None)"

definition ibv_wr_set_sge_list :: "efa_qp \<Rightarrow> u64 \<Rightarrow> ibv_sge list \<Rightarrow> efa_qp option" where
  "ibv_wr_set_sge_list qp num_sge sg_list =
     (if wr_set_sge_list (verbs_qp qp) = Some Fn_send_wr_set_sge_list
      then efa_send_wr_set_sge_list qp num_sge sg_list else None)"

definition ibv_wr_set_inline_data :: "umem \<Rightarrow> efa_qp \<Rightarrow> u64 \<Rightarrow> u64 \<Rightarrow> efa_qp option" where
  "ibv_wr_set_inline_data mem qp addr len =
     (if wr_set_inline_data (verbs_qp qp) = Some Fn_send_wr_set_inline_data
      then efa_send_wr_set_inline_data mem qp addr len else None)"

definition ibv_wr_set_inline_data_list ::
  "umem \<Rightarrow> efa_qp \<Rightarrow> u64 \<Rightarrow> ibv_data_buf list \<Rightarrow> efa_qp option" where
  "ibv_wr_set_inline_data_list mem qp num_buf buf_list =
     (if wr_set_inline_data_list (verbs_qp qp) = Some Fn_send_wr_set_inline_data_list
      then efa_send_wr_set_inline_data_list mem qp num_buf buf_list else None)"

definition ibv_wr_set_ud_addr ::
  "ah_heap \<Rightarrow> efa_qp \<Rightarrow> ptr option \<Rightarrow> u32 \<Rightarrow> u32 \<Rightarrow> efa_qp option" where
  "ibv_wr_set_ud_addr ahs qp ah remote_qpn remote_qkey =
     (if wr_set_ud_addr (verbs_qp qp) = Some Fn_send_wr_set_addr
      then efa_send_wr_set_addr ahs qp ah remote_qpn remote_qkey else None)"

end
