(* ===== verification/Efa_Payload.thy ===== *)
theory Efa_Payload
  imports Efa_Sq
begin

text \<open>
  The contents of a send work-queue entry: the scatter-gather descriptors or the inline bytes
  in its 32-byte union, and the fields of its meta descriptor, as the device decodes them.
\<close>

section \<open>The payload of an entry\<close>

lemma store_le_mid:
  "length pre = off \<Longrightarrow> length mid = n \<Longrightarrow>
     store_le off n w (pre @ mid @ post) = Some (pre @ le_bytes n w @ post)"
  by (simp add: store_le_def mem_store_def)

lemma load_le_mid:
  "length pre = off \<Longrightarrow> length mid = n \<Longrightarrow> load_le off n (pre @ mid @ post) = Some (le_word mid)"
  by (simp add: load_le_def mem_load_def)

text \<open>The descriptor a scatter-gather element becomes.\<close>

definition sge_desc :: "ibv_sge \<Rightarrow> efa_io_tx_buf_desc" where
  "sge_desc sge = \<lparr>txb_length = sge_length sge, txb_lkey = take_bit 24 (sge_lkey sge),
     txb_buf_addr_lo = ucast (sge_addr sge), txb_buf_addr_hi = ucast (drop_bit 32 (sge_addr sge))\<rparr>"

lemma le_word_zeros [simp]: "le_word (replicate n 0) = (0 :: 'a::len word)"
  by (rule bit_word_eqI) (simp add: bit_le_word)

lemma EFA_SET_lkey_zero: "EFA_SET (0 :: u32) EFA_IO_TX_BUF_DESC_LKEY_MASK v = take_bit 24 v"
proof -
  have "BitScanForward64 (ucast (push_bit 0 (mask 24) :: u32)) = 0"
    by (rule BitScanForward64_field) simp_all
  then show ?thesis
    unfolding mask_forms by - (rule bit_word_eqI, subst bit_EFA_SET, auto simp: bit_simps)
qed

lemma ucast_and_mask32: "(ucast ((a :: u64) AND 0xffffffff) :: u32) = ucast a"
proof -
  have "(0xffffffff :: u64) = mask 32" by (simp add: mask_eq_exp_minus_1)
  then have "a AND 0xffffffff = a AND mask 32" by (simp only:)
  then show ?thesis by (simp only:) (rule bit_word_eqI, simp add: bit_simps del: mask_numeral)
qed

lemma set_tx_buf_zero:
  assumes "length pre = off"
  shows "efa_set_tx_buf (pre @ replicate 16 0 @ post) off (sge_addr sge) (sge_lkey sge) (sge_length sge) =
    Some (pre @ tx_buf_bytes (sge_desc sge) @ post)"
proof -
  let ?z = "replicate 4 (0 :: u8)"
  let ?b = "sge_desc sge"
  have z: "replicate 16 0 = ?z @ ?z @ ?z @ ?z" by (simp add: replicate_add [symmetric])
  have 1: "store_le off 4 (sge_length sge) (pre @ replicate 16 0 @ post) =
      Some ((pre @ le_bytes 4 (sge_length sge)) @ ?z @ (?z @ ?z @ post))"
    unfolding z using store_le_mid [of pre off ?z 4 "sge_length sge" "?z @ ?z @ ?z @ post"] assms by simp
  have 2: "load_le (off + 4) 4 ((pre @ le_bytes 4 (sge_length sge)) @ ?z @ (?z @ ?z @ post)) = Some (0 :: u32)"
    using load_le_mid [of "pre @ le_bytes 4 (sge_length sge)" "off + 4" ?z 4 "?z @ ?z @ post"] assms by simp
  have 3: "store_le (off + 4) 4 (take_bit 24 (sge_lkey sge)) ((pre @ le_bytes 4 (sge_length sge)) @ ?z @ (?z @ ?z @ post)) =
      Some ((pre @ le_bytes 4 (sge_length sge) @ le_bytes 4 (take_bit 24 (sge_lkey sge))) @ ?z @ (?z @ post))"
    using store_le_mid [of "pre @ le_bytes 4 (sge_length sge)" "off + 4" ?z 4 "take_bit 24 (sge_lkey sge)" "?z @ ?z @ post"] assms
    by simp
  have 4: "store_le (off + 8) 4 (ucast (sge_addr sge) :: u32)
      ((pre @ le_bytes 4 (sge_length sge) @ le_bytes 4 (take_bit 24 (sge_lkey sge))) @ ?z @ (?z @ post)) =
      Some ((pre @ le_bytes 4 (sge_length sge) @ le_bytes 4 (take_bit 24 (sge_lkey sge)) @
        le_bytes 4 (ucast (sge_addr sge) :: u32)) @ ?z @ post)"
    using store_le_mid [of "pre @ le_bytes 4 (sge_length sge) @ le_bytes 4 (take_bit 24 (sge_lkey sge))"
        "off + 8" ?z 4 "ucast (sge_addr sge) :: u32" "?z @ post"] assms by simp
  have 5: "store_le (off + 12) 4 (ucast (drop_bit 32 (sge_addr sge)) :: u32)
      ((pre @ le_bytes 4 (sge_length sge) @ le_bytes 4 (take_bit 24 (sge_lkey sge)) @
        le_bytes 4 (ucast (sge_addr sge) :: u32)) @ ?z @ post) =
      Some (pre @ tx_buf_bytes ?b @ post)"
    using store_le_mid [of "pre @ le_bytes 4 (sge_length sge) @ le_bytes 4 (take_bit 24 (sge_lkey sge)) @
        le_bytes 4 (ucast (sge_addr sge) :: u32)" "off + 12" ?z 4
        "ucast (drop_bit 32 (sge_addr sge)) :: u32" post] assms
    by (simp add: tx_buf_bytes_def sge_desc_def)
  show ?thesis
    unfolding efa_set_tx_buf_def 1 by (simp only: Option.bind.simps 2 EFA_SET_lkey_zero 3 ucast_and_mask32 4 5)
qed

text \<open>The union after the scatter-gather list was written at byte \<open>off\<close>.\<close>

definition sgl_bytes :: "ibv_sge list \<Rightarrow> u8 list" where
  "sgl_bytes sgl = concat (map (tx_buf_bytes \<circ> sge_desc) sgl)"

lemma length_sgl_bytes [simp]: "length (sgl_bytes sgl) = 16 * length sgl"
  by (induction sgl) (simp_all add: sgl_bytes_def)

lemma post_send_sgl_spec:
  assumes "0 \<le> sint n" and "unat n \<le> length sgl" and "length pre = off" and "16 * unat n \<le> m"
  shows "efa_post_send_sgl off sgl n (pre @ replicate m 0) =
    Some (pre @ sgl_bytes (take (unat n) sgl) @ replicate (m - 16 * unat n) 0)"
proof -
  let ?body = "\<lambda>i d. do {
          sge \<leftarrow> arr_get sgl i;
          efa_set_tx_buf d (off + 16 * i) (sge_addr sge) (sge_lkey sge) (sge_length sge) }"
  let ?st = "\<lambda>i. pre @ sgl_bytes (take i sgl) @ replicate (m - 16 * i) 0"
  have step: "?body i (?st i) = Some (?st (Suc i))" if i: "i < unat n" for i
  proof -
    have il: "i < length sgl" using i assms(2) by simp
    have rep: "replicate (m - 16 * i) (0 :: u8) = replicate 16 0 @ replicate (m - 16 * Suc i) 0"
      using i assms(4) by (simp add: replicate_add [symmetric])
    have "efa_set_tx_buf ((pre @ sgl_bytes (take i sgl)) @ replicate 16 0 @ replicate (m - 16 * Suc i) 0)
        (off + 16 * i) (sge_addr (sgl ! i)) (sge_lkey (sgl ! i)) (sge_length (sgl ! i)) =
      Some ((pre @ sgl_bytes (take i sgl)) @ tx_buf_bytes (sge_desc (sgl ! i)) @ replicate (m - 16 * Suc i) 0)"
      by (rule set_tx_buf_zero) (use assms(3) il in simp)
    then show ?thesis
      using il by (simp add: rep take_Suc_conv_app_nth sgl_bytes_def)
  qed
  have "\<exists>t. for_range 0 (unat n) ?body (?st 0) = Some t \<and> t = ?st (0 + unat n)"
    by (rule for_range_rule) (use step in auto)
  then show ?thesis
    by (simp add: efa_post_send_sgl_def unat_size_of_int [OF assms(1)] sgl_bytes_def)
qed

lemma inline_loop_spec:
  assumes len: "\<And>x. x \<in> set xs \<Longrightarrow> length (bs x) = unat (ln x)"
    and k: "k \<le> length xs" and fits: "length (concat (map bs (take k xs))) \<le> m" and m: "m < 2 ^ 32"
  shows "for_range 0 k (\<lambda>i (total_length :: u32, d). do {
      x \<leftarrow> arr_get xs i;
      d \<leftarrow> mem_store (unat total_length) (bs x) d;
      Some (total_length + ln x, d) }) (0, replicate m 0) =
    Some (of_nat (length (concat (map bs (take k xs)))),
      concat (map bs (take k xs)) @ replicate (m - length (concat (map bs (take k xs)))) 0)"
proof -
  let ?body = "\<lambda>i (total_length :: u32, d). do {
      x \<leftarrow> arr_get xs i;
      d \<leftarrow> mem_store (unat total_length) (bs x) d;
      Some (total_length + ln x, d) }"
  define B where "B = (\<lambda>i. concat (map bs (take i xs)))"
  let ?st = "\<lambda>i. (of_nat (length (B i)) :: u32, B i @ replicate (m - length (B i)) 0)"
  have step: "?body i (?st i) = Some (?st (Suc i))" if i: "i < k" for i
  proof -
    have il: "i < length xs" using i k by simp
    have BS: "B (Suc i) = B i @ bs (xs ! i)" using il by (simp add: B_def take_Suc_conv_app_nth)
    have pre: "take (Suc i) xs = take (Suc i) (take k xs)" using i by simp
    have "concat (map bs (take k xs)) =
        concat (map bs (take (Suc i) (take k xs))) @ concat (map bs (drop (Suc i) (take k xs)))"
      by (simp only: concat_append [symmetric] map_append [symmetric] append_take_drop_id)
    then have "length (B (Suc i)) \<le> length (concat (map bs (take k xs)))"
      unfolding B_def pre by simp
    then have fit: "length (B (Suc i)) \<le> m" using fits by linarith
    have lt: "length (B i) < 2 ^ 32" using fit m BS by simp
    have un: "unat (of_nat (length (B i)) :: u32) = length (B i)"
      using lt by (simp add: unat_of_nat take_bit_nat_eq_self)
    have lb: "length (bs (xs ! i)) = unat (ln (xs ! i))" using len il by simp
    have "mem_store (length (B i)) (bs (xs ! i)) (B i @ replicate (m - length (B i)) 0) =
        Some (B i @ bs (xs ! i) @ replicate (m - length (B (Suc i))) 0)"
      using fit BS by (simp add: mem_store_def)
    moreover have "of_nat (length (B i)) + ln (xs ! i) = (of_nat (length (B (Suc i))) :: u32)"
      using lb BS by (simp add: of_nat_add)
    ultimately show ?thesis using il BS by (simp add: un)
  qed
  have "\<exists>t. for_range 0 k ?body (?st 0) = Some t \<and> t = ?st (0 + k)"
    by (rule for_range_rule) (use step in auto)
  then show ?thesis by (simp add: B_def)
qed

text \<open>The bytes an inline send carries, and how many there are.\<close>

definition inline_bytes :: "umem \<Rightarrow> ibv_sge list \<Rightarrow> u8 list" where
  "inline_bytes mem sgl = concat (map (\<lambda>s. read_bytes mem (sge_addr s) (unat (sge_length s))) sgl)"

definition sgl_total :: "ibv_sge list \<Rightarrow> nat" where
  "sgl_total sgl = sum_list (map (unat \<circ> sge_length) sgl)"

lemma length_inline_bytes [simp]: "length (inline_bytes mem sgl) = sgl_total sgl"
  by (induction sgl) (simp_all add: inline_bytes_def sgl_total_def)

lemma sge_total_bytes_spec:
  assumes "0 \<le> sint n" and "unat n \<le> length sgl"
  shows "efa_sge_total_bytes sgl n = Some (of_nat (sgl_total (take (unat n) sgl)))"
proof -
  let ?st = "\<lambda>i. of_nat (sgl_total (take i sgl)) :: u64"
  have "\<exists>t. for_range 0 (unat n) (\<lambda>i bytes. do { sge \<leftarrow> arr_get sgl i; Some (bytes + ucast (sge_length sge)) })
      (?st 0) = Some t \<and> t = ?st (0 + unat n)"
    by (rule for_range_rule)
      (use assms(2) in \<open>auto simp: take_Suc_conv_app_nth sgl_total_def\<close>)
  then show ?thesis
    by (simp add: efa_sge_total_bytes_def unat_size_of_int [OF assms(1)] sgl_total_def)
qed

lemma ucast_of_nat_u16: "n < 2 ^ 32 \<Longrightarrow> ucast (of_nat n :: u32) = (of_nat n :: u16)"
  by (simp add: unsigned_of_nat take_bit_nat_eq_self)

lemma post_send_inline_spec:
  assumes "0 \<le> sint (sw_num_sge wr)" and "unat (sw_num_sge wr) \<le> length (sw_sg_list wr)"
    and "sgl_total (take (unat (sw_num_sge wr)) (sw_sg_list wr)) \<le> 32"
  shows "efa_post_send_inline_data mem wr zero_tx_wqe =
    (let sgl = take (unat (sw_num_sge wr)) (sw_sg_list wr) in
     Some (zero_tx_wqe\<lparr>
       wqe_meta := zero_tx_meta_desc\<lparr>txm_ctrl1 := EFA_SET 0 EFA_IO_TX_META_DESC_INLINE_MSG_MASK 1,
         txm_length := of_nat (sgl_total sgl)\<rparr>,
       wqe_data := inline_bytes mem sgl @ replicate (32 - sgl_total sgl) 0\<rparr>))"
proof -
  let ?n = "unat (sw_num_sge wr)" and ?sgl = "take (unat (sw_num_sge wr)) (sw_sg_list wr)"
  have "for_range 0 ?n (\<lambda>i (total_length :: u32, d). do {
      sge \<leftarrow> arr_get (sw_sg_list wr) i;
      d \<leftarrow> mem_store (unat total_length) (read_bytes mem (sge_addr sge) (unat (sge_length sge))) d;
      Some (total_length + sge_length sge, d) }) (0, replicate 32 0) =
    Some (of_nat (length (inline_bytes mem ?sgl)),
      inline_bytes mem ?sgl @ replicate (32 - length (inline_bytes mem ?sgl)) 0)"
    unfolding inline_bytes_def
    by (rule inline_loop_spec) (use assms in \<open>simp_all flip: inline_bytes_def\<close>)
  then show ?thesis
    using assms(3)
    by (simp add: efa_post_send_inline_data_def Let_def unat_size_of_int [OF assms(1)]
        zero_tx_wqe_def zero_tx_meta_desc_def ucast_of_nat_u16)
qed

section \<open>The whole entry\<close>

text \<open>The requests whose payload fits the entry.\<close>

definition wr_sgl :: "ibv_send_wr \<Rightarrow> ibv_sge list" where
  "wr_sgl wr = take (unat (sw_num_sge wr)) (sw_sg_list wr)"

definition wr_inline :: "ibv_send_wr \<Rightarrow> bool" where
  "wr_inline wr \<longleftrightarrow> sw_send_flags wr AND IBV_SEND_INLINE \<noteq> 0"

definition payload_ok :: "ibv_send_wr \<Rightarrow> bool" where
  "payload_ok wr \<longleftrightarrow>
     0 \<le> sint (sw_num_sge wr) \<and> unat (sw_num_sge wr) \<le> length (sw_sg_list wr) \<and>
     (if wr_inline wr then sgl_total (wr_sgl wr) \<le> EFA_IO_TX_DESC_INLINE_MAX_SIZE
      else unat (sw_num_sge wr) \<le> unat EFA_IO_TX_DESC_NUM_BUFS)"

definition payload_bytes :: "umem \<Rightarrow> ibv_send_wr \<Rightarrow> u8 list" where
  "payload_bytes mem wr =
     (let bs = (if wr_inline wr then inline_bytes mem (wr_sgl wr) else sgl_bytes (wr_sgl wr))
      in bs @ replicate (32 - length bs) 0)"

definition payload_length :: "ibv_send_wr \<Rightarrow> u16" where
  "payload_length wr =
     (if wr_inline wr then of_nat (sgl_total (wr_sgl wr)) else ucast (sw_num_sge wr))"

lemma ctrl1_commute:
  "EFA_SET (EFA_SET w EFA_IO_TX_META_DESC_META_DESC_MASK a) EFA_IO_TX_META_DESC_HAS_IMM_MASK b =
     EFA_SET (EFA_SET (w :: u8) EFA_IO_TX_META_DESC_HAS_IMM_MASK b) EFA_IO_TX_META_DESC_META_DESC_MASK a"
  "EFA_SET (EFA_SET w EFA_IO_TX_META_DESC_OP_TYPE_MASK a) EFA_IO_TX_META_DESC_HAS_IMM_MASK b =
     EFA_SET (EFA_SET (w :: u8) EFA_IO_TX_META_DESC_HAS_IMM_MASK b) EFA_IO_TX_META_DESC_OP_TYPE_MASK a"
  "EFA_SET (EFA_SET w EFA_IO_TX_META_DESC_META_DESC_MASK a) EFA_IO_TX_META_DESC_INLINE_MSG_MASK b =
     EFA_SET (EFA_SET (w :: u8) EFA_IO_TX_META_DESC_INLINE_MSG_MASK b) EFA_IO_TX_META_DESC_META_DESC_MASK a"
  "EFA_SET (EFA_SET w EFA_IO_TX_META_DESC_OP_TYPE_MASK a) EFA_IO_TX_META_DESC_INLINE_MSG_MASK b =
     EFA_SET (EFA_SET (w :: u8) EFA_IO_TX_META_DESC_INLINE_MSG_MASK b) EFA_IO_TX_META_DESC_OP_TYPE_MASK a"
  "EFA_SET (EFA_SET w EFA_IO_TX_META_DESC_HAS_IMM_MASK a) EFA_IO_TX_META_DESC_INLINE_MSG_MASK b =
     EFA_SET (EFA_SET (w :: u8) EFA_IO_TX_META_DESC_INLINE_MSG_MASK b) EFA_IO_TX_META_DESC_HAS_IMM_MASK a"
  by (simp_all only: has_imm_meta_desc.commute op_type_has_imm.commute inline_msg_meta_desc.commute
      op_type_inline_msg.commute has_imm_inline_msg.commute)

text \<open>The control bytes, with the fields in the order \<open>efa_post_send\<close> sets them.\<close>

definition send_ctrl1 :: "bool \<Rightarrow> bool \<Rightarrow> u8" where
  "send_ctrl1 inline imm =
     (let c = (if inline then EFA_SET 0 EFA_IO_TX_META_DESC_INLINE_MSG_MASK 1 else 0);
          c = (if imm then EFA_SET c EFA_IO_TX_META_DESC_HAS_IMM_MASK 1 else c);
          c = EFA_SET c EFA_IO_TX_META_DESC_META_DESC_MASK 1
      in EFA_SET c EFA_IO_TX_META_DESC_OP_TYPE_MASK EFA_IO_SEND)"

definition send_ctrl2 :: "i32 \<Rightarrow> u8" where
  "send_ctrl2 phase =
     EFA_SET (EFA_SET (EFA_SET (EFA_SET 0 EFA_IO_TX_META_DESC_PHASE_MASK phase)
       EFA_IO_TX_META_DESC_FIRST_MASK 1) EFA_IO_TX_META_DESC_LAST_MASK 1)
       EFA_IO_TX_META_DESC_COMP_REQ_MASK 1"

definition send_entry :: "umem \<Rightarrow> ibv_send_wr \<Rightarrow> i32 \<Rightarrow> u32 \<Rightarrow> u16 \<Rightarrow> efa_io_tx_wqe" where
  "send_entry mem wr phase i ah =
     \<lparr>wqe_meta = zero_tx_meta_desc
        \<lparr>txm_req_id := ucast i,
         txm_ctrl1 := send_ctrl1 (wr_inline wr) (sw_opcode wr = IBV_WR_SEND_WITH_IMM),
         txm_ctrl2 := send_ctrl2 phase,
         txm_dest_qp_num := ucast (sw_ud_remote_qpn wr),
         txm_length := payload_length wr,
         txm_immediate_data := (if sw_opcode wr = IBV_WR_SEND_WITH_IMM then be32toh (sw_imm_data wr) else 0),
         txm_ah := ah, txm_qkey := sw_ud_remote_qkey wr\<rparr>,
      wqe_data = payload_bytes mem wr\<rparr>"

lemma send_wqe_body_spec:
  assumes "payload_ok wr"
  shows "send_wqe_body mem sq wr =
    Some (\<lparr>wqe_meta = zero_tx_meta_desc
        \<lparr>txm_ctrl1 := send_ctrl1 (wr_inline wr) (sw_opcode wr = IBV_WR_SEND_WITH_IMM),
         txm_ctrl2 := send_ctrl2 (wq_phase (sq_wq sq)),
         txm_length := payload_length wr,
         txm_immediate_data := (if sw_opcode wr = IBV_WR_SEND_WITH_IMM then be32toh (sw_imm_data wr) else 0)\<rparr>,
      wqe_data = payload_bytes mem wr\<rparr>)"
proof (cases "wr_inline wr")
  case True
  have "efa_post_send_inline_data mem wr zero_tx_wqe = Some (zero_tx_wqe\<lparr>
       wqe_meta := zero_tx_meta_desc\<lparr>txm_ctrl1 := EFA_SET 0 EFA_IO_TX_META_DESC_INLINE_MSG_MASK 1,
         txm_length := payload_length wr\<rparr>, wqe_data := payload_bytes mem wr\<rparr>)"
    using post_send_inline_spec [of wr mem] assms True
    by (simp add: payload_ok_def EFA_IO_TX_DESC_INLINE_MAX_SIZE_def wr_sgl_def payload_length_def
        payload_bytes_def Let_def)
  then show ?thesis
    using True [unfolded wr_inline_def] True
    by (simp add: send_wqe_body_def Let_def efa_set_common_ctrl_flags_def send_ctrl1_def send_ctrl2_def
        zero_tx_wqe_def zero_tx_meta_desc_def)
next
  case False
  have "efa_post_send_sgl 0 (sw_sg_list wr) (sw_num_sge wr) (replicate 32 0) = Some (payload_bytes mem wr)"
    using post_send_sgl_spec [of "sw_num_sge wr" "sw_sg_list wr" "[]" 0 32] assms False
    by (simp add: payload_ok_def EFA_IO_TX_DESC_NUM_BUFS_def wr_sgl_def payload_bytes_def Let_def min_absorb2)
  then show ?thesis
    using False [unfolded wr_inline_def] False
    by (simp add: send_wqe_body_def Let_def efa_set_common_ctrl_flags_def send_ctrl1_def send_ctrl2_def
        zero_tx_wqe_def zero_tx_meta_desc_def payload_length_def)
qed

lemma build_send_wqe_spec:
  assumes "payload_ok wr" and "sw_ud_ah wr = Some p" and "ahs p = Some ah"
  shows "build_send_wqe mem ahs sq wr =
    map_option (\<lambda>(i, wq). (send_entry mem wr (wq_phase (sq_wq sq)) i (ah_efa_ah ah), sq\<lparr>sq_wq := wq\<rparr>))
      (efa_wq_get_next_wrid_idx_locked (sq_wq sq) (sw_wr_id wr))"
  using assms(2,3)
  by (cases "efa_wq_get_next_wrid_idx_locked (sq_wq sq) (sw_wr_id wr)")
    (auto simp: build_send_wqe_def send_wqe_body_spec [OF assms(1)] send_wqe_address_def send_entry_def)

lemma one_bit [simp]: "take_bit (Suc 0) (1 :: 'a::len word) = 1"
  by (simp add: take_bit_eq_mod)

lemma send_ctrl1_values:
  "send_ctrl1 False False = 0x80" "send_ctrl1 False True = 0x90"
  "send_ctrl1 True False = 0xA0" "send_ctrl1 True True = 0xB0"
  by code_simp+

lemma send_ctrl_fields:
  "EFA_GET (send_ctrl1 inline imm) EFA_IO_TX_META_DESC_OP_TYPE_MASK = ucast EFA_IO_SEND"
  "EFA_GET (send_ctrl1 inline imm) EFA_IO_TX_META_DESC_INLINE_MSG_MASK = of_bool inline"
  "EFA_GET (send_ctrl1 inline imm) EFA_IO_TX_META_DESC_HAS_IMM_MASK = of_bool imm"
  "EFA_GET (send_ctrl1 inline imm) EFA_IO_TX_META_DESC_META_DESC_MASK = 1"
  "EFA_GET (send_ctrl2 phase) EFA_IO_TX_META_DESC_PHASE_MASK = ucast (take_bit 1 phase)"
  "EFA_GET (send_ctrl2 phase) EFA_IO_TX_META_DESC_FIRST_MASK = 1"
  "EFA_GET (send_ctrl2 phase) EFA_IO_TX_META_DESC_LAST_MASK = 1"
  "EFA_GET (send_ctrl2 phase) EFA_IO_TX_META_DESC_COMP_REQ_MASK = 1"
proof -
  show "EFA_GET (send_ctrl1 inline imm) EFA_IO_TX_META_DESC_OP_TYPE_MASK = ucast EFA_IO_SEND"
    "EFA_GET (send_ctrl1 inline imm) EFA_IO_TX_META_DESC_INLINE_MSG_MASK = of_bool inline"
    "EFA_GET (send_ctrl1 inline imm) EFA_IO_TX_META_DESC_HAS_IMM_MASK = of_bool imm"
    "EFA_GET (send_ctrl1 inline imm) EFA_IO_TX_META_DESC_META_DESC_MASK = 1"
    by (cases inline; cases imm; simp only: send_ctrl1_values; code_simp)+
qed (simp_all add: send_ctrl2_def ctrl2_fields)

lemma sgl_bytes_nth:
  "j < length sgl \<Longrightarrow> take 16 (drop (16 * j) (sgl_bytes sgl @ rest)) = tx_buf_bytes (sge_desc (sgl ! j))"
proof (induction sgl arbitrary: j)
  case Nil
  then show ?case by simp
next
  case (Cons s sgl)
  have split: "sgl_bytes (s # sgl) = tx_buf_bytes (sge_desc s) @ sgl_bytes sgl"
    by (simp add: sgl_bytes_def)
  show ?case
  proof (cases j)
    case 0
    then show ?thesis by (simp add: split)
  next
    case (Suc k)
    then show ?thesis using Cons by (simp add: split)
  qed
qed

text \<open>
  C5: the entry \<open>efa_post_send\<close> builds says what the request says. The device reads from it the
  identifier that was taken, the destination of the request, a plain send with first, last and
  completion flags and the phase of the queue, the immediate data in host order exactly if the
  opcode asks for it; for an inline request the bytes of the application's buffers one after
  the other and their total length, otherwise one descriptor per scatter-gather element (with
  the 24 bits of the key that fit) and their number.
\<close>

theorem send_entry_contents:
  assumes "payload_ok wr" and "sw_ud_ah wr = Some p" and "ahs p = Some ah"
    and "efa_wq_get_next_wrid_idx_locked (sq_wq sq) (sw_wr_id wr) = Some (i, wq)"
  shows "\<exists>w. build_send_wqe mem ahs sq wr = Some (w, sq\<lparr>sq_wq := wq\<rparr>) \<and> wf_tx_wqe w \<and>
    txm_req_id (wqe_meta w) = ucast i \<and>
    txm_dest_qp_num (wqe_meta w) = ucast (sw_ud_remote_qpn wr) \<and>
    txm_qkey (wqe_meta w) = sw_ud_remote_qkey wr \<and> txm_ah (wqe_meta w) = ah_efa_ah ah \<and>
    EFA_GET (txm_ctrl1 (wqe_meta w)) EFA_IO_TX_META_DESC_OP_TYPE_MASK = ucast EFA_IO_SEND \<and>
    EFA_GET (txm_ctrl1 (wqe_meta w)) EFA_IO_TX_META_DESC_META_DESC_MASK = 1 \<and>
    EFA_GET (txm_ctrl1 (wqe_meta w)) EFA_IO_TX_META_DESC_HAS_IMM_MASK =
      of_bool (sw_opcode wr = IBV_WR_SEND_WITH_IMM) \<and>
    EFA_GET (txm_ctrl1 (wqe_meta w)) EFA_IO_TX_META_DESC_INLINE_MSG_MASK = of_bool (wr_inline wr) \<and>
    EFA_GET (txm_ctrl2 (wqe_meta w)) EFA_IO_TX_META_DESC_PHASE_MASK = ucast (take_bit 1 (wq_phase (sq_wq sq))) \<and>
    EFA_GET (txm_ctrl2 (wqe_meta w)) EFA_IO_TX_META_DESC_FIRST_MASK = 1 \<and>
    EFA_GET (txm_ctrl2 (wqe_meta w)) EFA_IO_TX_META_DESC_LAST_MASK = 1 \<and>
    EFA_GET (txm_ctrl2 (wqe_meta w)) EFA_IO_TX_META_DESC_COMP_REQ_MASK = 1 \<and>
    txm_immediate_data (wqe_meta w) =
      (if sw_opcode wr = IBV_WR_SEND_WITH_IMM then be32toh (sw_imm_data wr) else 0) \<and>
    (if wr_inline wr
     then unat (txm_length (wqe_meta w)) = sgl_total (wr_sgl wr) \<and>
       take (sgl_total (wr_sgl wr)) (wqe_data w) = inline_bytes mem (wr_sgl wr)
     else txm_length (wqe_meta w) = ucast (sw_num_sge wr) \<and>
       (\<forall>j. j < unat (sw_num_sge wr) \<longrightarrow>
          take 16 (drop (16 * j) (wqe_data w)) = tx_buf_bytes (sge_desc (sw_sg_list wr ! j))))"
proof -
  let ?w = "send_entry mem wr (wq_phase (sq_wq sq)) i (ah_efa_ah ah)"
  have b: "build_send_wqe mem ahs sq wr = Some (?w, sq\<lparr>sq_wq := wq\<rparr>)"
    using build_send_wqe_spec [where ahs = ahs, OF assms(1-3)] assms(4) by simp
  have len: "length (wr_sgl wr) = unat (sw_num_sge wr)"
    using assms(1) by (simp add: payload_ok_def wr_sgl_def min_absorb2)
  have pl: "length (payload_bytes mem wr) = 32"
    using assms(1) len
    by (auto simp: payload_bytes_def Let_def payload_ok_def EFA_IO_TX_DESC_INLINE_MAX_SIZE_def
        EFA_IO_TX_DESC_NUM_BUFS_def)
  have wf: "wf_tx_wqe ?w"
    using pl by (simp add: wf_tx_wqe_def wf_tx_meta_def send_entry_def zero_tx_meta_desc_def)
  have payload: "if wr_inline wr
     then unat (payload_length wr) = sgl_total (wr_sgl wr) \<and>
       take (sgl_total (wr_sgl wr)) (payload_bytes mem wr) = inline_bytes mem (wr_sgl wr)
     else payload_length wr = ucast (sw_num_sge wr) \<and>
       (\<forall>j. j < unat (sw_num_sge wr) \<longrightarrow>
          take 16 (drop (16 * j) (payload_bytes mem wr)) = tx_buf_bytes (sge_desc (sw_sg_list wr ! j)))"
  proof (cases "wr_inline wr")
    case True
    then have "sgl_total (wr_sgl wr) \<le> 32"
      using assms(1) by (simp add: payload_ok_def EFA_IO_TX_DESC_INLINE_MAX_SIZE_def)
    then show ?thesis
      using True by (simp add: payload_length_def payload_bytes_def Let_def unat_of_nat take_bit_nat_eq_self)
  next
    case False
    have "take 16 (drop (16 * j) (payload_bytes mem wr)) = tx_buf_bytes (sge_desc (sw_sg_list wr ! j))"
      if "j < unat (sw_num_sge wr)" for j
    proof -
      have "wr_sgl wr ! j = sw_sg_list wr ! j" using that by (simp add: wr_sgl_def)
      then show ?thesis
        using False that len sgl_bytes_nth [of j "wr_sgl wr"] by (simp add: payload_bytes_def Let_def)
    qed
    then show ?thesis using False by (simp add: payload_length_def)
  qed
  show ?thesis
    by (rule exI, rule conjI [OF b], rule conjI [OF wf])
      (use payload in \<open>simp add: send_entry_def send_ctrl_fields\<close>)
qed

definition ex_wr :: ibv_send_wr where
  "ex_wr = \<lparr>sw_wr_id = 77, sw_sg_list = [\<lparr>sge_addr = 0x100000002, sge_length = 5, sge_lkey = 0x1000003\<rparr>],
     sw_num_sge = 1, sw_opcode = IBV_WR_SEND_WITH_IMM, sw_send_flags = 2, sw_imm_data = 1,
     sw_ud_ah = Some 9, sw_ud_remote_qpn = 11, sw_ud_remote_qkey = 13\<rparr>"

definition ex_ahs :: ah_heap where
  "ex_ahs = [9 \<mapsto> zero_ah\<lparr>ah_efa_ah := 21\<rparr>]"

definition ex_sq :: efa_sq where
  "ex_sq = zero_sq\<lparr>sq_wq := wq_example, sq_desc := 0x4000, max_batch_wr := 2,
     local_queue := Live (replicate 4 zero_tx_wqe), max_inline_data := 32\<rparr>"

theorem send_entry_contents_witness:
  "\<exists>w sq'. build_send_wqe (\<lambda>_. 0) ex_ahs ex_sq ex_wr = Some (w, sq') \<and> txm_ah (wqe_meta w) = 21 \<and>
     txm_immediate_data (wqe_meta w) = 0x1000000 \<and>
     take 16 (wqe_data w) = tx_buf_bytes
       \<lparr>txb_length = 5, txb_lkey = 3, txb_buf_addr_lo = 2, txb_buf_addr_hi = 1\<rparr>"
proof -
  have ok: "payload_ok ex_wr" by code_simp
  have op: "sw_opcode ex_wr = IBV_WR_SEND_WITH_IMM" "\<not> wr_inline ex_wr" by code_simp+
  have ah: "sw_ud_ah ex_wr = Some 9" "ex_ahs 9 = Some (zero_ah\<lparr>ah_efa_ah := 21\<rparr>)"
    by (simp_all add: ex_wr_def ex_ahs_def)
  have "efa_wq_get_next_wrid_idx_locked (sq_wq ex_sq) (sw_wr_id ex_wr) \<noteq> None" by code_simp
  then obtain i wq where g: "efa_wq_get_next_wrid_idx_locked (sq_wq ex_sq) (sw_wr_id ex_wr) = Some (i, wq)"
    by auto
  have sge: "sge_desc (sw_sg_list ex_wr ! 0) =
      \<lparr>txb_length = 5, txb_lkey = 3, txb_buf_addr_lo = 2, txb_buf_addr_hi = 1\<rparr>"
    by code_simp
  have imm: "be32toh (sw_imm_data ex_wr) = 0x1000000" by code_simp
  have n: "unat (sw_num_sge ex_wr) = 1" by (simp add: ex_wr_def)
  obtain w where w: "build_send_wqe (\<lambda>_. 0) ex_ahs ex_sq ex_wr = Some (w, ex_sq\<lparr>sq_wq := wq\<rparr>)"
    "txm_ah (wqe_meta w) = 21" "txm_immediate_data (wqe_meta w) = 0x1000000"
    "\<forall>j. j < unat (sw_num_sge ex_wr) \<longrightarrow>
       take 16 (drop (16 * j) (wqe_data w)) = tx_buf_bytes (sge_desc (sw_sg_list ex_wr ! j))"
    using send_entry_contents [where ahs = ex_ahs and mem = "\<lambda>_. 0", OF ok ah g] op imm by auto
  from w(4) have "take 16 (drop (16 * 0) (wqe_data w)) = tx_buf_bytes (sge_desc (sw_sg_list ex_wr ! 0))"
    unfolding n by blast
  then show ?thesis using w(1-3) unfolding sge by auto
qed

text \<open>
  \<open>max_inline_data\<close> comes from the caller of \<open>create_qp\<close>, who may ask for any value. When it is
  above 32, a longer inline request passes validation and is copied beyond the entry.
\<close>

definition ex_wr_long :: ibv_send_wr where
  "ex_wr_long = ex_wr\<lparr>sw_send_flags := 10, sw_sg_list := [\<lparr>sge_addr = 0, sge_length = 33, sge_lkey = 0\<rparr>]\<rparr>"

definition ex_qp_inline :: efa_qp where
  "ex_qp_inline = zero_qp\<lparr>verbs_qp := zero_verbs_qp\<lparr>qp_state := IBV_QPS_RTS\<rparr>,
     qp_sq := ex_sq\<lparr>max_inline_data := 64\<rparr>\<rparr>"

lemma inline_overflow:
  "efa_post_send_validate_wr ex_qp_inline ex_wr_long = Some 0 \<and>
   build_send_wqe (\<lambda>_. 0) ex_ahs (qp_sq ex_qp_inline) ex_wr_long = None"
  by code_simp

end
