(* ===== verification/Efa_Poster.thy ===== *)
theory Efa_Poster
  imports Efa_Wq
begin

text \<open>
  What the send and the receive path have in common: a queue that accepts one request at a
  time, hands every accepted request an identifier that was free, remembers its tag under it and
  has room for one request less. What follows for a list of requests is proved here once.
\<close>

primrec post_all :: "('q \<Rightarrow> 'r \<Rightarrow> ('w \<times> 'q) option) \<Rightarrow> 'q \<Rightarrow> 'r list \<Rightarrow> ('w list \<times> 'q) option" where
  "post_all step q [] = Some ([], q)"
| "post_all step q (r # rs) =
     do {
       (w, q1) \<leftarrow> step q r;
       (ws, q2) \<leftarrow> post_all step q1 rs;
       Some (w # ws, q2)
     }"

locale poster =
  fixes step :: "'q \<Rightarrow> 'r \<Rightarrow> ('w \<times> 'q) option"
    and inv :: "'q \<Rightarrow> bool"
    and room :: "'q \<Rightarrow> nat"
    and tags :: "'q \<Rightarrow> nat \<rightharpoonup> 't"
    and good :: "'q \<Rightarrow> 'r \<Rightarrow> bool"
    and tag :: "'r \<Rightarrow> 't"
    and idx :: "'w \<Rightarrow> nat"
  assumes accepts: "inv q \<Longrightarrow> good q r \<Longrightarrow> 0 < room q \<Longrightarrow>
      \<exists>w q'. step q r = Some (w, q') \<and> inv q' \<and> room q' = room q - 1 \<and>
        tags q (idx w) = None \<and> tags q' = (tags q)(idx w \<mapsto> tag r)"
    and stays_good: "good q r \<Longrightarrow> step q s = Some (w, q') \<Longrightarrow> good q' r"
begin

lemma post_all_ok:
  assumes "inv q" and "\<forall>r \<in> set rs. good q r" and "length rs \<le> room q"
  shows "\<exists>ws q'. post_all step q rs = Some (ws, q') \<and> inv q' \<and> room q' = room q - length rs \<and>
    length ws = length rs \<and> distinct (map idx ws) \<and>
    (\<forall>w \<in> set ws. tags q (idx w) = None) \<and>
    tags q' = tags q ++ map_of (zip (map idx ws) (map tag rs))"
  using assms
proof (induction rs arbitrary: q)
  case Nil
  then show ?case by simp
next
  case (Cons r rs)
  have pre: "good q r" "0 < room q" using Cons.prems by auto
  obtain w q1 where s: "step q r = Some (w, q1)" "inv q1" "room q1 = room q - 1"
    "tags q (idx w) = None" "tags q1 = (tags q)(idx w \<mapsto> tag r)"
    using accepts [OF Cons.prems(1) pre] by blast
  have "\<forall>r \<in> set rs. good q1 r" using Cons.prems(2) stays_good [OF _ s(1)] by simp
  moreover have "length rs \<le> room q1" using Cons.prems(3) s(3) by simp
  ultimately obtain ws q' where r: "post_all step q1 rs = Some (ws, q')" "inv q'" "room q' = room q1 - length rs"
    "length ws = length rs" "distinct (map idx ws)" "\<forall>w \<in> set ws. tags q1 (idx w) = None"
    "tags q' = tags q1 ++ map_of (zip (map idx ws) (map tag rs))"
    using Cons.IH [OF s(2)] by blast
  have fresh: "idx w \<notin> set (map idx ws)" "\<forall>w \<in> set ws. tags q (idx w) = None"
    using r(6) s(5) by (auto split: if_splits)
  then have "map_of (zip (map idx ws) (map tag rs)) (idx w) = None"
    using r(4) by (metis length_map map_of_zip_is_None)
  then have "tags q' = tags q ++ map_of (zip (map idx (w # ws)) (map tag (r # rs)))"
    by (simp add: r(7) s(5) fun_eq_iff map_add_def split: option.split)
  then show ?case
    using s r(1-5) fresh by auto
qed

text \<open>A list longer than the room is accepted up to the room.\<close>

lemma post_all_prefix:
  assumes "inv q" and "\<forall>r \<in> set rs. good q r"
  shows "\<exists>ws q'. post_all step q (take (room q) rs) = Some (ws, q') \<and> inv q' \<and>
    room q' = room q - length rs \<and> length ws = min (length rs) (room q)"
proof -
  have "\<forall>r \<in> set (take (room q) rs). good q r" using assms(2) by (auto dest: in_set_takeD)
  from post_all_ok [OF assms(1) this] show ?thesis by (auto simp: min_def)
qed

end

section \<open>The outcome for a list\<close>

text \<open>What a queue with room for \<open>room\<close> more requests returns for a list: the error and \<open>*bad\<close>.\<close>

definition room_err :: "nat \<Rightarrow> 'a list \<Rightarrow> int" where
  "room_err room wrs = (if length wrs \<le> room then 0 else ENOMEM)"

definition room_rest :: "nat \<Rightarrow> 'a list \<Rightarrow> 'a list option" where
  "room_rest room wrs = (if length wrs \<le> room then None else Some (drop room wrs))"

lemma room_Cons:
  assumes "0 < room"
  shows "room_err room (wr # wrs) = room_err (room - 1) wrs"
    and "room_rest room (wr # wrs) = room_rest (room - 1) wrs"
  using assms by (cases room; simp add: room_err_def room_rest_def)+

section \<open>Taking one identifier\<close>

definition wq_ready :: "efa_wq \<Rightarrow> bool" where
  "wq_ready wq \<longleftrightarrow> wq_inv wq \<and> wq_counts wq"

definition wq_room :: "efa_wq \<Rightarrow> nat" where
  "wq_room wq = unat (wqe_cnt wq) - card (wq_outstanding wq)"

lemma get_wrid_frame:
  assumes "efa_wq_get_next_wrid_idx_locked wq tag = Some (i, wq')"
  shows "wq_pc wq' = wq_pc wq" "desc_mask wq' = desc_mask wq" "wq_db wq' = wq_db wq"
    "wqlock wq' = wqlock wq" "wq_max_sge wq' = wq_max_sge wq" "wqe_cnt wq' = wqe_cnt wq"
    "wqe_posted wq' = wqe_posted wq" "wqe_completed wq' = wqe_completed wq"
    "wq_phase wq' = wq_phase wq" "wrid_idx_pool_next wq' = wrid_idx_pool_next wq + 1"
    "wrid_idx_pool wq' = wrid_idx_pool wq"
  using assms
  by (auto simp: efa_wq_get_next_wrid_idx_locked_def Let_def bind_eq_Some_conv)

text \<open>The lock does not matter to it.\<close>

lemma get_wrid_lock:
  "efa_wq_get_next_wrid_idx_locked (wq\<lparr>wqlock := l\<rparr>) tag =
     map_option (\<lambda>(i, wq). (i, wq\<lparr>wqlock := l\<rparr>)) (efa_wq_get_next_wrid_idx_locked wq tag)"
  by (simp add: efa_wq_get_next_wrid_idx_locked_def Let_def map_option_bind o_def bind_c_assert)
    (intro bind_option_cong refl, simp)

text \<open>The full test of both validation functions says that there is no room.\<close>

lemma counts_full:
  assumes "wq_ready wq"
  shows "wqe_posted wq - wqe_completed wq = wqe_cnt wq \<longleftrightarrow> wq_room wq = 0"
proof -
  have inv: "wq_inv wq" and cnt: "wq_counts wq" using assms by (simp_all add: wq_ready_def)
  have "unat (wrid_idx_pool_next wq) \<le> unat (wqe_cnt wq)" using inv by (simp add: wq_inv_def)
  then show ?thesis
    using cnt by (auto simp: wq_counts_def word_unat_eq_iff unat_ucast_widen wq_room_def
        card_wq_outstanding [OF inv])
qed

lemma wq_take:
  assumes "wq_ready wq" and "0 < wq_room wq"
  obtains i wq1 where "efa_wq_get_next_wrid_idx_locked wq tag = Some (i, wq1)"
    "wq_tags wq (unat i) = None" "unat i < 2 ^ 16"
    "\<And>wq2 :: efa_wq. wrid wq2 = wrid wq1 \<Longrightarrow> wrid_idx_pool wq2 = wrid_idx_pool wq1 \<Longrightarrow> wqe_cnt wq2 = wqe_cnt wq1 \<Longrightarrow>
       wrid_idx_pool_next wq2 = wrid_idx_pool_next wq1 \<Longrightarrow> wqe_completed wq2 = wqe_completed wq1 \<Longrightarrow>
       wqe_posted wq2 = wqe_posted wq1 + 1 \<Longrightarrow>
       wq_ready wq2 \<and> wq_room wq2 = wq_room wq - 1 \<and> wq_tags wq2 = (wq_tags wq)(unat i \<mapsto> tag)"
proof -
  have inv: "wq_inv wq" and cnt: "wq_counts wq" using assms(1) by (simp_all add: wq_ready_def)
  have room: "unat (wrid_idx_pool_next wq) < unat (wqe_cnt wq)"
    using assms(2) by (simp add: wq_room_def card_wq_outstanding [OF inv])
  from get_wrid_spec [OF inv room, of tag] obtain i wq1 where g:
    "efa_wq_get_next_wrid_idx_locked wq tag = Some (i, wq1)" "wq_inv wq1"
    "unat i \<notin> wq_outstanding wq" "unat i < unat (wqe_cnt wq)"
    "wq_tags wq1 = (wq_tags wq)(unat i \<mapsto> tag)" by blast
  note fr = get_wrid_frame [OF g(1)]
  have lt: "unat (wqe_cnt wq) < 2 ^ 16" using inv by (simp add: wq_inv_def)
  have u: "ucast (wrid_idx_pool_next wq + 1) = (ucast (wrid_idx_pool_next wq) + 1 :: u32)"
    using room lt by (simp add: word_unat_eq_iff unat_ucast_widen unat_u16_Suc unat_add_lem [THEN iffD1])
  have out: "wq_outstanding wq1 = insert (unat i) (wq_outstanding wq)"
    using g(5) by (metis dom_fun_upd dom_wq_tags option.distinct(1))
  show ?thesis
  proof (rule that [OF g(1)])
    show "wq_tags wq (unat i) = None" using g(3) by (simp add: wq_tags_def)
    show "unat i < 2 ^ 16" using g(4) lt by simp
    fix wq2 :: efa_wq
    assume same: "wrid wq2 = wrid wq1" "wrid_idx_pool wq2 = wrid_idx_pool wq1" "wqe_cnt wq2 = wqe_cnt wq1"
       "wrid_idx_pool_next wq2 = wrid_idx_pool_next wq1" "wqe_completed wq2 = wqe_completed wq1"
       "wqe_posted wq2 = wqe_posted wq1 + 1"
    note view = wq_view_cong [OF same(1-4)]
    have "wq_counts wq2" using cnt fr same u by (simp add: wq_counts_def algebra_simps)
    then show "wq_ready wq2 \<and> wq_room wq2 = wq_room wq - 1 \<and> wq_tags wq2 = (wq_tags wq)(unat i \<mapsto> tag)"
      using g(2,3,5) fr(6) same(3) by (simp add: wq_ready_def wq_room_def view out)
  qed
qed

lemma wq_ready_lock [simp]:
  "wq_ready (wq\<lparr>wqlock := l\<rparr>) = wq_ready wq" "wq_room (wq\<lparr>wqlock := l\<rparr>) = wq_room wq"
  "wq_tags (wq\<lparr>wqlock := l\<rparr>) = wq_tags wq"
proof -
  have v: "wq_inv (wq\<lparr>wqlock := l\<rparr>) = wq_inv wq"
    "wq_outstanding (wq\<lparr>wqlock := l\<rparr>) = wq_outstanding wq" "wq_tags (wq\<lparr>wqlock := l\<rparr>) = wq_tags wq"
    by (rule wq_view_cong; simp)+
  then show "wq_ready (wq\<lparr>wqlock := l\<rparr>) = wq_ready wq" "wq_room (wq\<lparr>wqlock := l\<rparr>) = wq_room wq"
    "wq_tags (wq\<lparr>wqlock := l\<rparr>) = wq_tags wq"
    by (simp_all add: wq_ready_def wq_room_def wq_counts_def)
qed

end
