(* ===== verification/Efa_Send.thy ===== *)
theory Efa_Send
  imports Efa_Payload Efa_Poster
begin

text \<open>
  What posting a list of sends does: the requests that pass validation become well-formed
  entries, in order, at consecutive slots of the ring, followed by a doorbell per batch.
\<close>

section \<open>Building entries\<close>

lemma set_tx_buf_length:
  "efa_set_tx_buf d off addr lkey len = Some d' \<Longrightarrow> length d' = length d"
  by (auto simp: efa_set_tx_buf_def bind_eq_Some_conv dest!: store_le_length)

lemma post_send_sgl_length:
  assumes "efa_post_send_sgl off sgl n d = Some d'"
  shows "length d' = length d"
proof -
  have "length d' = length d"
    by (rule for_range_inv [OF assms [unfolded efa_post_send_sgl_def], where P = "\<lambda>_ x. length x = length d"])
      (auto simp: bind_eq_Some_conv dest: set_tx_buf_length)
  then show ?thesis .
qed

lemma inline_loop_length:
  assumes "for_range 0 n (\<lambda>i (total_length :: u32, d). do {
      x \<leftarrow> g i;
      d' \<leftarrow> mem_store (unat total_length) (bs x) d;
      Some (total_length + ln x, d') }) (t, d) = Some (t', d')"
  shows "length d' = length d"
proof -
  have "length (snd (t', d')) = length d"
    by (rule for_range_inv [OF assms, where P = "\<lambda>_ x. length (snd x) = length d"])
      (auto simp: bind_eq_Some_conv split: prod.splits dest: mem_store_length)
  then show ?thesis by simp
qed

lemma post_send_inline_wf:
  assumes "efa_post_send_inline_data mem wr w = Some w'" and "wf_tx_wqe w"
  shows "wf_tx_wqe w'"
proof -
  obtain t d where loop: "for_range 0 (unat (size_of_int (sw_num_sge wr)))
      (\<lambda>i (total_length :: u32, d). do {
         sge \<leftarrow> arr_get (sw_sg_list wr) i;
         d' \<leftarrow> mem_store (unat total_length)
                 (read_bytes mem (sge_addr sge) (unat (sge_length sge))) d;
         Some (total_length + sge_length sge, d')
       }) (0, wqe_data w) = Some (t, d)"
    and w': "wqe_data w' = d" "txm_reserved2 (wqe_meta w') = txm_reserved2 (wqe_meta w)"
    using assms(1) by (auto simp: efa_post_send_inline_data_def bind_eq_Some_conv Let_def)
  then show ?thesis
    using inline_loop_length [OF loop] assms(2) by (simp add: wf_tx_wqe_def wf_tx_meta_def)
qed

lemma common_ctrl_reserved [simp]:
  "txm_reserved2 (efa_set_common_ctrl_flags m sq op) = txm_reserved2 m"
  by (simp add: efa_set_common_ctrl_flags_def Let_def)

lemma send_wqe_body_wf:
  assumes "send_wqe_body mem sq wr = Some w"
  shows "wf_tx_wqe w"
proof -
  obtain w0 where w0: "wf_tx_wqe w0"
    "w = w0\<lparr>wqe_meta := wqe_meta w\<rparr>" "txm_reserved2 (wqe_meta w) = txm_reserved2 (wqe_meta w0)"
  proof (cases "sw_send_flags wr AND IBV_SEND_INLINE = 0")
    case True
    then obtain d where "efa_post_send_sgl 0 (sw_sg_list wr) (sw_num_sge wr) (wqe_data zero_tx_wqe) = Some d"
      and "w = zero_tx_wqe\<lparr>wqe_data := d, wqe_meta := wqe_meta w\<rparr>"
      "txm_reserved2 (wqe_meta w) = txm_reserved2 (wqe_meta zero_tx_wqe)"
      using assms by (auto simp: send_wqe_body_def Let_def bind_eq_Some_conv)
    then show ?thesis
      using that [of "zero_tx_wqe\<lparr>wqe_data := d\<rparr>"] post_send_sgl_length
      by (fastforce simp: wf_tx_wqe_def wf_tx_meta_def zero_tx_wqe_def zero_tx_meta_desc_def)
  next
    case False
    then obtain w0 where w0: "efa_post_send_inline_data mem wr zero_tx_wqe = Some w0"
      "w = w0\<lparr>wqe_meta := wqe_meta w\<rparr>" "txm_reserved2 (wqe_meta w) = txm_reserved2 (wqe_meta w0)"
      using assms by (auto simp: send_wqe_body_def Let_def bind_eq_Some_conv)
    show ?thesis
      by (rule that [OF post_send_inline_wf [OF w0(1) wf_zero_tx_wqe] w0(2,3)])
  qed
  have "wqe_data w = wqe_data w0" by (subst w0(2)) simp
  then show ?thesis using w0(1,3) by (simp add: wf_tx_wqe_def wf_tx_meta_def)
qed

lemma send_wqe_address_wf:
  "send_wqe_address ahs wr i w = Some w' \<Longrightarrow> wf_tx_wqe w \<Longrightarrow> wf_tx_wqe w'"
  by (auto simp: send_wqe_address_def bind_eq_Some_conv wf_tx_wqe_def wf_tx_meta_def)

lemma build_send_wqe_wf:
  "build_send_wqe mem ahs sq wr = Some (w, sq') \<Longrightarrow> wf_tx_wqe w"
  by (auto simp: build_send_wqe_def bind_eq_Some_conv dest!: send_wqe_body_wf send_wqe_address_wf)

lemma build_send_wqe_sq:
  assumes "build_send_wqe mem ahs sq wr = Some (w, sq')"
  obtains i wq where "efa_wq_get_next_wrid_idx_locked (sq_wq sq) (sw_wr_id wr) = Some (i, wq)"
    "sq' = sq\<lparr>sq_wq := wq\<rparr>" "txm_req_id (wqe_meta w) = ucast i"
  using assms by (auto simp: build_send_wqe_def send_wqe_address_def bind_eq_Some_conv)

section \<open>What the device sees\<close>

text \<open>
  The abstract effect of posting entries: each is written to the slot the producer counter
  stands on; after every \<open>maxb\<close> entries, and at the end if entries are left over, the writes
  are flushed and the doorbell is rung with the counter behind the last entry. \<open>cur\<close> counts
  the entries since the last doorbell.
\<close>

definition ring_rest :: "u64 \<Rightarrow> u16 \<Rightarrow> nat \<Rightarrow> trace" where
  "ring_rest db pc cur = (if cur = 0 then [] else [Fence, Wr32 db (ucast pc)])"

fun post_trace ::
  "u64 \<Rightarrow> u64 \<Rightarrow> u16 \<Rightarrow> nat \<Rightarrow> nat \<Rightarrow> u16 \<Rightarrow> efa_io_tx_wqe list \<Rightarrow> trace" where
  "post_trace desc db msk maxb cur pc [] = ring_rest db pc cur"
| "post_trace desc db msk maxb cur pc (w # ws) =
     wqe_writes (sq_desc_addr desc msk pc) w @
     (if Suc cur = maxb
      then [Fence, Wr32 db (ucast (pc + 1)), Fence] @ post_trace desc db msk maxb 0 (pc + 1) ws
      else post_trace desc db msk maxb (Suc cur) (pc + 1) ws)"

text \<open>Building all entries of a list, without any device access.\<close>

fun build_all ::
  "umem \<Rightarrow> ah_heap \<Rightarrow> efa_sq \<Rightarrow> ibv_send_wr list \<Rightarrow> (efa_io_tx_wqe list \<times> efa_sq) option" where
  "build_all mem ahs sq [] = Some ([], sq)"
| "build_all mem ahs sq (wr # wrs) =
     do {
       (w, sq1) \<leftarrow> build_send_wqe mem ahs sq wr;
       (ws, sq2) \<leftarrow> build_all mem ahs (efa_sq_advance_post_idx sq1) wrs;
       Some (w # ws, sq2)
     }"

lemma wq_advance_fields [simp]:
  "wq_pc (wq_advance wq) = wq_pc wq + 1" "desc_mask (wq_advance wq) = desc_mask wq"
  "wq_db (wq_advance wq) = wq_db wq" "wqlock (wq_advance wq) = wqlock wq"
  "wq_max_sge (wq_advance wq) = wq_max_sge wq" "wqe_cnt (wq_advance wq) = wqe_cnt wq"
  "wqe_posted (wq_advance wq) = wqe_posted wq + 1" "wqe_completed (wq_advance wq) = wqe_completed wq"
  "wrid (wq_advance wq) = wrid wq" "wrid_idx_pool (wq_advance wq) = wrid_idx_pool wq"
  "wrid_idx_pool_next (wq_advance wq) = wrid_idx_pool_next wq"
  by (simp_all add: wq_advance_def Let_def)

text \<open>What building leaves alone.\<close>

definition sq_frame :: "efa_sq \<Rightarrow> efa_sq \<Rightarrow> bool" where
  "sq_frame sq sq' \<longleftrightarrow>
     sq_desc sq' = sq_desc sq \<and> max_batch_wr sq' = max_batch_wr sq \<and>
     max_inline_data sq' = max_inline_data sq \<and> local_queue sq' = local_queue sq \<and>
     desc_mask (sq_wq sq') = desc_mask (sq_wq sq) \<and> wq_db (sq_wq sq') = wq_db (sq_wq sq) \<and>
     wqlock (sq_wq sq') = wqlock (sq_wq sq) \<and> wq_max_sge (sq_wq sq') = wq_max_sge (sq_wq sq) \<and>
     wqe_cnt (sq_wq sq') = wqe_cnt (sq_wq sq)"

lemma sq_frame_refl [simp]: "sq_frame sq sq"
  by (simp add: sq_frame_def)

lemma sq_frame_trans: "sq_frame a b \<Longrightarrow> sq_frame b c \<Longrightarrow> sq_frame a c"
  by (simp add: sq_frame_def)

lemma build_send_wqe_frame:
  assumes "build_send_wqe mem ahs sq wr = Some (w, sq1)"
  shows "sq_frame sq (efa_sq_advance_post_idx sq1) \<and> sq_frame sq sq1 \<and>
    wq_pc (sq_wq sq1) = wq_pc (sq_wq sq)"
  using assms
proof (rule build_send_wqe_sq)
  fix i wq
  assume g: "efa_wq_get_next_wrid_idx_locked (sq_wq sq) (sw_wr_id wr) = Some (i, wq)"
    "sq1 = sq\<lparr>sq_wq := wq\<rparr>"
  show ?thesis
    using get_wrid_frame [OF g(1)] g(2) by (simp add: sq_frame_def efa_sq_advance_post_idx_def)
qed

text \<open>The loop posts a prefix of the list: exactly the requests before the first bad one.\<close>

lemma post_send_loop_prefix:
  assumes "post_send_loop mem ahs qp cb tr wrs = Some (err, bad, qp', cb', tr')"
    and "unat cb < unat (max_batch_wr (qp_sq qp))"
  shows "\<exists>good rest ws sq'. wrs = good @ rest \<and>
    build_all mem ahs (qp_sq qp) good = Some (ws, sq') \<and> qp' = qp\<lparr>qp_sq := sq'\<rparr> \<and>
    sq_frame (qp_sq qp) sq' \<and> unat cb' < unat (max_batch_wr (qp_sq qp)) \<and>
    (if err = 0 then rest = [] \<and> bad = None
     else rest \<noteq> [] \<and> bad = Some rest \<and> efa_post_send_validate_wr qp' (hd rest) = Some err) \<and>
    tr' @ ring_rest (wq_db (sq_wq (qp_sq qp))) (wq_pc (sq_wq sq')) (unat cb') =
      tr @ post_trace (sq_desc (qp_sq qp)) (wq_db (sq_wq (qp_sq qp))) (desc_mask (sq_wq (qp_sq qp)))
        (unat (max_batch_wr (qp_sq qp))) (unat cb) (wq_pc (sq_wq (qp_sq qp))) ws"
  using assms
proof (induction wrs arbitrary: qp cb tr)
  case Nil
  then show ?case by auto
next
  case (Cons wr wrs)
  obtain e where v: "efa_post_send_validate_wr qp wr = Some e"
    using Cons.prems(1) by (auto simp: bind_eq_Some_conv)
  show ?case
  proof (cases "e = 0")
    case False
    then have "err = e" "bad = Some (wr # wrs)" "qp' = qp" "cb' = cb" "tr' = tr"
      using Cons.prems(1) v by auto
    then show ?thesis
      using False v Cons.prems(2)
      by - (rule exI [of _ "[]"], rule exI [of _ "wr # wrs"], rule exI [of _ "[]"],
          rule exI [of _ "qp_sq qp"], simp)
  next
    case True
    let ?sq = "qp_sq qp"
    obtain w sq1 tr1 where b: "build_send_wqe mem ahs ?sq wr = Some (w, sq1)"
      and m: "mmio_memcpy_x64 (sq_desc_addr (sq_desc sq1) (desc_mask (sq_wq sq1)) (wq_pc (sq_wq sq1)))
         (qwords_of (tx_wqe_bytes w)) 64 tr = Some tr1"
      using Cons.prems(1) v True by (auto simp: bind_eq_Some_conv)
    note fr = build_send_wqe_frame [OF b]
    have tr1: "tr1 = tr @ wqe_writes (sq_desc_addr (sq_desc ?sq) (desc_mask (sq_wq ?sq)) (wq_pc (sq_wq ?sq))) w"
      using m memcpy_tx_wqe [OF build_send_wqe_wf [OF b]] fr by (simp add: sq_frame_def)
    let ?sq2 = "efa_sq_advance_post_idx sq1"
    have pc2: "wq_pc (sq_wq ?sq2) = wq_pc (sq_wq ?sq) + 1"
      using fr by (simp add: efa_sq_advance_post_idx_def)
    have mb: "max_batch_wr ?sq2 = max_batch_wr ?sq" "wq_db (sq_wq ?sq2) = wq_db (sq_wq ?sq)"
      using fr by (simp_all add: sq_frame_def)
    have mlt: "unat (max_batch_wr ?sq) < 2 ^ 16"
    proof -
      have "unat (max_batch_wr ?sq) < 2 ^ LENGTH(16)" by (rule unsigned_less)
      then show ?thesis by simp
    qed
    have cb1: "unat (cb + 1) = Suc (unat cb)"
      using Cons.prems(2) mlt by (simp add: unat_add_lem [THEN iffD1])
    have eq: "cb + 1 = ucast (max_batch_wr ?sq) \<longleftrightarrow> Suc (unat cb) = unat (max_batch_wr ?sq)"
      by (simp add: word_unat_eq_iff cb1 unat_ucast_widen)
    define full where "full \<longleftrightarrow> Suc (unat cb) = unat (max_batch_wr ?sq)"
    define cb2 :: u32 where "cb2 = (if full then 0 else cb + 1)"
    define tr2 where "tr2 = (if full then tr1 @ [Fence, Wr32 (wq_db (sq_wq ?sq)) (ucast (wq_pc (sq_wq ?sq) + 1)), Fence] else tr1)"
    have loop: "post_send_loop mem ahs (qp\<lparr>qp_sq := ?sq2\<rparr>) cb2 tr2 wrs = Some (err, bad, qp', cb', tr')"
      using Cons.prems(1) v True b m
      by (simp add: mb eq pc2 full_def [symmetric] cb2_def tr2_def mmio_wc_start_def mmio_flush_writes_def
          efa_sq_ring_doorbell_def mmio_write32_def Let_def split: if_splits)
    have lt2: "unat cb2 < unat (max_batch_wr (qp_sq (qp\<lparr>qp_sq := ?sq2\<rparr>)))"
      using Cons.prems(2) cb1 by (auto simp: cb2_def full_def mb)
    from Cons.IH [OF loop lt2] obtain good rest ws sq' where IH: "wrs = good @ rest"
      "build_all mem ahs ?sq2 good = Some (ws, sq')" "qp' = qp\<lparr>qp_sq := sq'\<rparr>"
      "sq_frame ?sq2 sq'" "unat cb' < unat (max_batch_wr ?sq)"
      "if err = 0 then rest = [] \<and> bad = None
       else rest \<noteq> [] \<and> bad = Some rest \<and> efa_post_send_validate_wr qp' (hd rest) = Some err"
      "tr' @ ring_rest (wq_db (sq_wq ?sq)) (wq_pc (sq_wq sq')) (unat cb') =
       tr2 @ post_trace (sq_desc ?sq2) (wq_db (sq_wq ?sq)) (desc_mask (sq_wq ?sq2))
         (unat (max_batch_wr ?sq)) (unat cb2) (wq_pc (sq_wq ?sq) + 1) ws"
      by (auto simp: mb pc2)
    have pt: "tr2 @ post_trace (sq_desc ?sq2) (wq_db (sq_wq ?sq)) (desc_mask (sq_wq ?sq2))
        (unat (max_batch_wr ?sq)) (unat cb2) (wq_pc (sq_wq ?sq) + 1) ws =
      tr @ post_trace (sq_desc ?sq) (wq_db (sq_wq ?sq)) (desc_mask (sq_wq ?sq))
        (unat (max_batch_wr ?sq)) (unat cb) (wq_pc (sq_wq ?sq)) (w # ws)"
      using fr cb1 by (simp add: tr2_def tr1 cb2_def full_def sq_frame_def)
    show ?thesis
      by (rule exI [of _ "wr # good"], rule exI [of _ rest], rule exI [of _ "w # ws"], rule exI [of _ sq'])
        (use IH b fr pt in \<open>auto intro: sq_frame_trans\<close>)
  qed
qed

section \<open>The lock does not matter to building\<close>

definition lk :: "lock \<Rightarrow> efa_sq \<Rightarrow> efa_sq" where
  "lk l sq = sq\<lparr>sq_wq := (sq_wq sq)\<lparr>wqlock := l\<rparr>\<rparr>"

lemma set_sq_lock_lk: "set_sq_lock qp l = qp\<lparr>qp_sq := lk l (qp_sq qp)\<rparr>"
  by (simp add: set_sq_lock_def lk_def)

lemma body_lock: "send_wqe_body mem (lk l sq) wr = send_wqe_body mem sq wr"
  by (simp add: send_wqe_body_def lk_def efa_set_common_ctrl_flags_def)

lemma build_lock:
  "build_send_wqe mem ahs (lk l sq) wr = map_option (\<lambda>(w, sq). (w, lk l sq)) (build_send_wqe mem ahs sq wr)"
proof -
  have "efa_wq_get_next_wrid_idx_locked (sq_wq (lk l sq)) (sw_wr_id wr) =
      map_option (\<lambda>(i, wq). (i, wq\<lparr>wqlock := l\<rparr>)) (efa_wq_get_next_wrid_idx_locked (sq_wq sq) (sw_wr_id wr))"
    by (simp add: lk_def get_wrid_lock)
  then show ?thesis
    unfolding build_send_wqe_def body_lock
    by (cases "send_wqe_body mem sq wr"; cases "efa_wq_get_next_wrid_idx_locked (sq_wq sq) (sw_wr_id wr)")
      (auto simp: map_option_bind o_def lk_def split: prod.splits intro!: bind_option_cong)
qed

lemma advance_lock: "efa_sq_advance_post_idx (lk l sq) = lk l (efa_sq_advance_post_idx sq)"
  by (simp add: efa_sq_advance_post_idx_def lk_def wq_advance_def Let_def)

lemma build_all_lock:
  "build_all mem ahs (lk l sq) wrs = map_option (\<lambda>(ws, sq). (ws, lk l sq)) (build_all mem ahs sq wrs)"
proof (induction wrs arbitrary: sq)
  case Nil
  then show ?case by simp
next
  case (Cons wr wrs)
  show ?case
  proof (cases "build_send_wqe mem ahs sq wr")
    case None
    then show ?thesis by (simp add: build_lock)
  next
    case (Some x)
    obtain w sq1 where x: "x = (w, sq1)" by (cases x)
    show ?thesis
      using Some x by (cases "build_all mem ahs (efa_sq_advance_post_idx sq1) wrs")
        (auto simp: build_lock advance_lock Cons.IH)
  qed
qed

lemma validate_lock: "efa_post_send_validate_wr (qp\<lparr>qp_sq := lk l sq\<rparr>) wr = efa_post_send_validate_wr (qp\<lparr>qp_sq := sq\<rparr>) wr"
  by (simp add: efa_post_send_validate_wr_def efa_post_send_validate_def lk_def Let_def)

lemma lk_lk [simp]: "lk l (lk l' sq) = lk l sq"
  by (simp add: lk_def)

lemma lk_same: "wqlock (sq_wq sq) = l \<Longrightarrow> lk l sq = sq"
  by (simp add: lk_def)

lemma post_send_prefix:
  assumes "efa_post_send mem ahs qp wrs tr = Some (err, bad, qp', tr')"
    and "0 < max_batch_wr (qp_sq qp)"
  shows "\<exists>good rest ws sq'. wrs = good @ rest \<and>
    build_all mem ahs (qp_sq qp) good = Some (ws, sq') \<and> qp' = qp\<lparr>qp_sq := sq'\<rparr> \<and>
    (if err = 0 then rest = [] \<and> bad = None
     else rest \<noteq> [] \<and> bad = Some rest \<and> efa_post_send_validate_wr qp' (hd rest) = Some err) \<and>
    wqlock (sq_wq sq') = wqlock (sq_wq (qp_sq qp)) \<and>
    tr' = tr @ [Fence] @ post_trace (sq_desc (qp_sq qp)) (wq_db (sq_wq (qp_sq qp)))
      (desc_mask (sq_wq (qp_sq qp))) (unat (max_batch_wr (qp_sq qp))) 0 (wq_pc (sq_wq (qp_sq qp))) ws"
proof -
  let ?sq = "qp_sq qp" and ?old = "wqlock (sq_wq (qp_sq qp))"
  let ?l = "pthread_spin_lock ?old"
  obtain qp1 cb tr1 l where loop:
    "post_send_loop mem ahs (set_sq_lock qp ?l) 0 (tr @ [Fence]) wrs = Some (err, bad, qp1, cb, tr1)"
    and un: "pthread_spin_unlock (wqlock (sq_wq (qp_sq qp1))) = Some l" "qp' = set_sq_lock qp1 l"
    and tr': "tr' = tr1 @ ring_rest (wq_db (sq_wq (qp_sq qp1))) (wq_pc (sq_wq (qp_sq qp1))) (unat cb)"
    using assms(1)
    by (auto simp: efa_post_send_def mmio_wc_spinlock_def mmio_wc_start_def mmio_flush_writes_def Let_def
        bind_eq_Some_conv ring_rest_def efa_sq_ring_doorbell_def mmio_write32_def unat_eq_zero
        split: if_splits)
  have q: "qp_sq (set_sq_lock qp ?l) = lk ?l ?sq" "set_sq_lock qp ?l = qp\<lparr>qp_sq := lk ?l ?sq\<rparr>"
    by (simp_all add: set_sq_lock_lk)
  have f: "max_batch_wr (lk ?l ?sq) = max_batch_wr ?sq" "wq_db (sq_wq (lk ?l ?sq)) = wq_db (sq_wq ?sq)"
    "sq_desc (lk ?l ?sq) = sq_desc ?sq" "desc_mask (sq_wq (lk ?l ?sq)) = desc_mask (sq_wq ?sq)"
    "wq_pc (sq_wq (lk ?l ?sq)) = wq_pc (sq_wq ?sq)" "wqlock (sq_wq (lk ?l ?sq)) = ?l"
    by (simp_all add: lk_def)
  have pos: "unat (0 :: u32) < unat (max_batch_wr (qp_sq (set_sq_lock qp ?l)))"
    using assms(2) by (simp add: q f word_less_nat_alt)
  from post_send_loop_prefix [OF loop pos] obtain good rest ws sq1 where P: "wrs = good @ rest"
    "build_all mem ahs (lk ?l ?sq) good = Some (ws, sq1)" "qp1 = qp\<lparr>qp_sq := sq1\<rparr>"
    "sq_frame (lk ?l ?sq) sq1"
    "if err = 0 then rest = [] \<and> bad = None
     else rest \<noteq> [] \<and> bad = Some rest \<and> efa_post_send_validate_wr qp1 (hd rest) = Some err"
    "tr1 @ ring_rest (wq_db (sq_wq ?sq)) (wq_pc (sq_wq sq1)) (unat cb) =
      (tr @ [Fence]) @ post_trace (sq_desc ?sq) (wq_db (sq_wq ?sq)) (desc_mask (sq_wq ?sq))
        (unat (max_batch_wr ?sq)) 0 (wq_pc (sq_wq ?sq)) ws"
    by (auto simp: q f)
  have fr: "wqlock (sq_wq sq1) = ?l" "wq_db (sq_wq sq1) = wq_db (sq_wq ?sq)"
    using P(4) by (simp_all add: sq_frame_def f)
  obtain sq2 where b2: "build_all mem ahs ?sq good = Some (ws, sq2)" "sq1 = lk ?l sq2"
    using P(2) by (auto simp: build_all_lock)
  have l: "l = ?old"
    using un(1) by (simp add: P(3) fr(1))
  have sq2: "wqlock (sq_wq sq2) = ?old"
  proof -
    have "build_all mem ahs (lk ?old ?sq) good = Some (ws, lk ?old sq2)"
      using b2(1) by (simp add: build_all_lock)
    then have "sq2 = lk ?old sq2" using b2(1) by (simp add: lk_same)
    then show ?thesis by (metis efa_sq.select_convs(1) efa_wq.select_convs(11) efa_wq.surjective
          efa_wq.update_convs(11) lk_def efa_sq.surjective efa_sq.update_convs(1))
  qed
  have qp': "qp' = qp\<lparr>qp_sq := sq2\<rparr>"
    using un(2) P(3) b2(2) l lk_same [OF sq2] by (simp add: set_sq_lock_lk)
  have v: "efa_post_send_validate_wr qp1 wr = efa_post_send_validate_wr qp' wr" for wr
    unfolding qp' P(3) b2(2) by (rule validate_lock)
  show ?thesis
    by (rule exI [of _ good], rule exI [of _ rest], rule exI [of _ ws], rule exI [of _ sq2])
      (use P(1,5,6) b2(1) qp' sq2 tr' fr(2) P(3) v in auto)
qed

text \<open>
  C4: \<open>efa_post_send\<close> posts a prefix of the list, and says which. Whenever it returns, the
  requests before \<open>*bad\<close> (all of them when it returns 0) have become entries, in order, at the
  next slots of the ring, with a flush and a doorbell after every \<open>max_batch_wr\<close> entries and
  after the last one; nothing was written for \<open>*bad\<close> and the requests behind it; the error is
  the one the validation gives for \<open>*bad\<close> in the state the posted requests left; and the
  queue's lock is back where it was.
\<close>

theorem efa_post_send_posts_prefix:
  assumes "efa_post_send mem ahs qp wrs tr = Some (err, bad, qp', tr')"
    and "0 < max_batch_wr (qp_sq qp)"
  shows "\<exists>good rest ws sq'. wrs = good @ rest \<and>
    build_all mem ahs (qp_sq qp) good = Some (ws, sq') \<and> qp' = qp\<lparr>qp_sq := sq'\<rparr> \<and>
    (if err = 0 then rest = [] \<and> bad = None
     else rest \<noteq> [] \<and> bad = Some rest \<and> efa_post_send_validate_wr qp' (hd rest) = Some err) \<and>
    wqlock (sq_wq sq') = wqlock (sq_wq (qp_sq qp)) \<and>
    tr' = tr @ [Fence] @ post_trace (sq_desc (qp_sq qp)) (wq_db (sq_wq (qp_sq qp)))
      (desc_mask (sq_wq (qp_sq qp))) (unat (max_batch_wr (qp_sq qp))) 0 (wq_pc (sq_wq (qp_sq qp))) ws"
  by (rule post_send_prefix [OF assms])

definition ex_send_qp :: efa_qp where
  "ex_send_qp = zero_qp\<lparr>verbs_qp := zero_verbs_qp\<lparr>qp_state := IBV_QPS_RTS\<rparr>,
     qp_sq := ex_sq\<lparr>sq_wq := wq_example\<lparr>wq_db := 0x8000\<rparr>\<rparr>\<rparr>"

theorem efa_post_send_posts_prefix_witness:
  "\<exists>qp' tr' ws sq'. efa_post_send (\<lambda>_. 0) ex_ahs ex_send_qp
       [ex_wr, ex_wr\<lparr>sw_opcode := IBV_WR_TSO\<rparr>, ex_wr] [] =
     Some (EINVAL, Some [ex_wr\<lparr>sw_opcode := IBV_WR_TSO\<rparr>, ex_wr], qp', tr') \<and>
     build_all (\<lambda>_. 0) ex_ahs (qp_sq ex_send_qp) [ex_wr] = Some (ws, sq') \<and>
     tr' = Fence # post_trace 0x4000 0x8000 3 2 0 0 ws"
proof -
  let ?wrs = "[ex_wr, ex_wr\<lparr>sw_opcode := IBV_WR_TSO\<rparr>, ex_wr]"
  have "map_option (\<lambda>(e, b, r). (e, map_option length b))
      (efa_post_send (\<lambda>_. 0) ex_ahs ex_send_qp ?wrs []) = Some (EINVAL, Some 2)"
    by code_simp
  then obtain bad qp' tr' where run:
    "efa_post_send (\<lambda>_. 0) ex_ahs ex_send_qp ?wrs [] = Some (EINVAL, Some bad, qp', tr')" "length bad = 2"
    by auto
  have mb: "0 < max_batch_wr (qp_sq ex_send_qp)" by code_simp
  have f: "sq_desc (qp_sq ex_send_qp) = 0x4000" "wq_db (sq_wq (qp_sq ex_send_qp)) = 0x8000"
    "desc_mask (sq_wq (qp_sq ex_send_qp)) = 3" "unat (max_batch_wr (qp_sq ex_send_qp)) = 2"
    "wq_pc (sq_wq (qp_sq ex_send_qp)) = 0"
    by code_simp+
  obtain good rest ws sq' where P: "?wrs = good @ rest" "bad = rest"
    "build_all (\<lambda>_. 0) ex_ahs (qp_sq ex_send_qp) good = Some (ws, sq')"
    "tr' = [] @ [Fence] @ post_trace 0x4000 0x8000 3 2 0 0 ws"
    using efa_post_send_posts_prefix [OF run(1) mb] unfolding f by auto
  have "length ?wrs = length good + length rest" by (simp only: P(1) length_append)
  then have "length good = 1" using P(2) run(2) by simp
  moreover have "good = take (length good) ?wrs" "rest = drop (length good) ?wrs"
    by (metis P(1) append_eq_conv_conj)+
  ultimately have "good = [ex_wr]" "bad = [ex_wr\<lparr>sw_opcode := IBV_WR_TSO\<rparr>, ex_wr]"
    using P(2) by simp_all
  then show ?thesis using run(1) P(3,4) by auto
qed

end
