(* ===== verification/Efa_Capacity.thy ===== *)
theory Efa_Capacity
  imports Efa_Send
begin

text \<open>
  How many sends fit. A send queue of \<open>wqe_cnt\<close> entries with \<open>k\<close> requests outstanding takes
  \<open>wqe_cnt - k\<close> more: \<open>efa_post_send\<close> accepts that many good requests, refuses the next one
  with \<open>ENOMEM\<close>, and remembers under every index it handed out the tag of its request.
\<close>

section \<open>How many requests fit\<close>

definition sq_ok :: "efa_sq \<Rightarrow> bool" where
  "sq_ok sq \<longleftrightarrow> wq_ready (sq_wq sq) \<and> 0 < max_batch_wr sq"

definition sq_room :: "efa_sq \<Rightarrow> nat" where
  "sq_room sq = wq_room (sq_wq sq)"

definition can_send :: "efa_qp \<Rightarrow> bool" where
  "can_send qp \<longleftrightarrow> qp_state (verbs_qp qp) = IBV_QPS_RTS \<or> qp_state (verbs_qp qp) = IBV_QPS_SQD"

text \<open>A request that nothing is wrong with.\<close>

definition request_ok :: "ah_heap \<Rightarrow> efa_qp \<Rightarrow> ibv_send_wr \<Rightarrow> bool" where
  "request_ok ahs qp wr \<longleftrightarrow>
     (sw_send_flags wr AND IBV_SEND_SIGNALED \<noteq> 0 \<or> sq_sig_all qp \<noteq> 0) \<and>
     sw_send_flags wr AND NOT (IBV_SEND_SIGNALED OR IBV_SEND_INLINE) = 0 \<and>
     (sw_opcode wr = IBV_WR_SEND \<or> sw_opcode wr = IBV_WR_SEND_WITH_IMM) \<and> payload_ok wr \<and>
     (if wr_inline wr then sgl_total (wr_sgl wr) \<le> unat (max_inline_data (qp_sq qp))
      else sint (sw_num_sge wr) \<le> sint (wq_max_sge (sq_wq (qp_sq qp)))) \<and>
     (\<exists>p ah. sw_ud_ah wr = Some p \<and> ahs p = Some ah)"

lemma validate_request_ok:
  assumes "request_ok ahs qp wr" and "can_send qp" and "sq_ok (qp_sq qp)"
  shows "efa_post_send_validate_wr qp wr = Some (if sq_room (qp_sq qp) = 0 then ENOMEM else 0)"
proof -
  have full: "wqe_posted (sq_wq (qp_sq qp)) - wqe_completed (sq_wq (qp_sq qp)) = wqe_cnt (sq_wq (qp_sq qp))
      \<longleftrightarrow> sq_room (qp_sq qp) = 0"
    using assms(3) by (simp add: counts_full sq_ok_def sq_room_def)
  have base: "efa_post_send_validate qp (sw_send_flags wr) = (if sq_room (qp_sq qp) = 0 then ENOMEM else 0)"
    using assms(1,2) full by (auto simp: efa_post_send_validate_def Let_def request_ok_def can_send_def)
  have n: "0 \<le> sint (sw_num_sge wr)" "unat (sw_num_sge wr) \<le> length (sw_sg_list wr)"
    using assms(1) by (auto simp: request_ok_def payload_ok_def)
  have total: "sgl_total (wr_sgl wr) < 2 ^ 64" if "wr_inline wr"
    using that assms(1) by (auto simp: request_ok_def payload_ok_def EFA_IO_TX_DESC_INLINE_MAX_SIZE_def)
  have "efa_sge_total_bytes (sw_sg_list wr) (sw_num_sge wr) = Some (of_nat (sgl_total (wr_sgl wr)))"
    using sge_total_bytes_spec [OF n] by (simp add: wr_sgl_def)
  moreover have "\<not> of_nat (sgl_total (wr_sgl wr)) > max_inline_data (qp_sq qp)" if "wr_inline wr"
    using that assms(1) total
    by (auto simp: request_ok_def word_less_nat_alt unat_of_nat take_bit_nat_eq_self)
  ultimately show ?thesis
    using assms(1) by (auto simp: efa_post_send_validate_wr_def base Let_def request_ok_def wr_inline_def)
qed

text \<open>Posting one good request with room for it.\<close>

definition sq_step :: "umem \<Rightarrow> ah_heap \<Rightarrow> efa_qp \<Rightarrow> ibv_send_wr \<Rightarrow> (efa_io_tx_wqe \<times> efa_qp) option" where
  "sq_step mem ahs qp wr =
     do {
       (w, sq) \<leftarrow> build_send_wqe mem ahs (qp_sq qp) wr;
       Some (w, qp\<lparr>qp_sq := efa_sq_advance_post_idx sq\<rparr>)
     }"

lemma post_all_sq_step:
  "post_all (sq_step mem ahs) qp wrs =
    map_option (\<lambda>(ws, sq). (ws, qp\<lparr>qp_sq := sq\<rparr>)) (build_all mem ahs (qp_sq qp) wrs)"
proof (induction wrs arbitrary: qp)
  case Nil
  then show ?case by simp
next
  case (Cons wr wrs)
  show ?case
  proof (cases "build_send_wqe mem ahs (qp_sq qp) wr")
    case None
    then show ?thesis by (simp add: sq_step_def)
  next
    case (Some x)
    obtain w sq1 where x: "x = (w, sq1)" by (cases x)
    have s: "sq_step mem ahs qp wr = Some (w, qp\<lparr>qp_sq := efa_sq_advance_post_idx sq1\<rparr>)"
      using Some x by (simp add: sq_step_def)
    show ?thesis
      using Some x by (cases "build_all mem ahs (efa_sq_advance_post_idx sq1) wrs") (auto simp: s Cons.IH)
  qed
qed

lemma post_one_ok:
  assumes "sq_ok (qp_sq qp)" and "request_ok ahs qp wr" and "0 < sq_room (qp_sq qp)"
  shows "\<exists>w sq1. build_send_wqe mem ahs (qp_sq qp) wr = Some (w, sq1) \<and>
    sq_ok (efa_sq_advance_post_idx sq1) \<and>
    sq_room (efa_sq_advance_post_idx sq1) = sq_room (qp_sq qp) - 1 \<and>
    wq_tags (sq_wq (qp_sq qp)) (unat (txm_req_id (wqe_meta w))) = None \<and>
    wq_tags (sq_wq (efa_sq_advance_post_idx sq1)) =
      (wq_tags (sq_wq (qp_sq qp)))(unat (txm_req_id (wqe_meta w)) \<mapsto> sw_wr_id wr)"
proof -
  let ?sq = "qp_sq qp" and ?wq = "sq_wq (qp_sq qp)"
  have ready: "wq_ready ?wq" "0 < wq_room ?wq" and mb: "0 < max_batch_wr ?sq"
    using assms(1,3) by (simp_all add: sq_ok_def sq_room_def)
  obtain i wq1 where g: "efa_wq_get_next_wrid_idx_locked ?wq (sw_wr_id wr) = Some (i, wq1)"
    "wq_tags ?wq (unat i) = None" "unat i < 2 ^ 16"
    "wq_ready (wq_advance wq1) \<and> wq_room (wq_advance wq1) = wq_room ?wq - 1 \<and>
     wq_tags (wq_advance wq1) = (wq_tags ?wq)(unat i \<mapsto> sw_wr_id wr)"
    using wq_take [OF ready, of "sw_wr_id wr"] by (metis wq_advance_fields)
  obtain p ah where ah: "payload_ok wr" "sw_ud_ah wr = Some p" "ahs p = Some ah"
    using assms(2) by (auto simp: request_ok_def)
  have b: "build_send_wqe mem ahs ?sq wr =
      Some (send_entry mem wr (wq_phase ?wq) i (ah_efa_ah ah), ?sq\<lparr>sq_wq := wq1\<rparr>)"
    using build_send_wqe_spec [where ahs = ahs, OF ah] g(1) by simp
  have "unat (txm_req_id (wqe_meta (send_entry mem wr (wq_phase ?wq) i (ah_efa_ah ah)))) = unat i"
    using g(3) by (simp add: send_entry_def unat_ucast_mod)
  then show ?thesis
    using b g(2,4) mb by (simp add: sq_ok_def sq_room_def efa_sq_advance_post_idx_def)
qed

text \<open>What a request needs does not depend on the parts of the queue that posting moves.\<close>

lemma request_ok_frame:
  assumes "sq_frame (qp_sq qp) sq"
  shows "request_ok ahs (qp\<lparr>qp_sq := sq\<rparr>) wr \<longleftrightarrow> request_ok ahs qp wr"
  using assms by (simp add: request_ok_def sq_frame_def)

lemma can_send_sq [simp]: "can_send (qp\<lparr>qp_sq := sq\<rparr>) = can_send qp"
  by (simp add: can_send_def)

interpretation sq_poster: poster "sq_step mem ahs" "\<lambda>qp. sq_ok (qp_sq qp)" "\<lambda>qp. sq_room (qp_sq qp)"
    "\<lambda>qp. wq_tags (sq_wq (qp_sq qp))" "request_ok ahs" sw_wr_id
    "\<lambda>w. unat (txm_req_id (wqe_meta w))" for mem ahs
proof (unfold_locales, goal_cases)
  case (1 qp wr)
  obtain w sq1 where b: "build_send_wqe mem ahs (qp_sq qp) wr = Some (w, sq1)"
    "sq_ok (efa_sq_advance_post_idx sq1)"
    "sq_room (efa_sq_advance_post_idx sq1) = sq_room (qp_sq qp) - 1"
    "wq_tags (sq_wq (qp_sq qp)) (unat (txm_req_id (wqe_meta w))) = None"
    "wq_tags (sq_wq (efa_sq_advance_post_idx sq1)) =
      (wq_tags (sq_wq (qp_sq qp)))(unat (txm_req_id (wqe_meta w)) \<mapsto> sw_wr_id wr)"
    using post_one_ok [OF 1] by blast
  then show ?case by (simp add: sq_step_def)
next
  case (2 qp wr s w qp')
  then show ?case by (auto simp: sq_step_def bind_eq_Some_conv request_ok_frame dest!: build_send_wqe_frame)
qed

text \<open>The loop returns: after \<open>sq_room\<close> requests, or at the end of the list.\<close>

lemma post_send_loop_total:
  assumes "sq_ok (qp_sq qp)" and "can_send qp" and "\<forall>wr \<in> set wrs. request_ok ahs qp wr"
  shows "\<exists>qp' cb' tr'. post_send_loop mem ahs qp cb tr wrs =
    Some (room_err (sq_room (qp_sq qp)) wrs, room_rest (sq_room (qp_sq qp)) wrs, qp', cb', tr')"
  using assms
proof (induction wrs arbitrary: qp cb tr)
  case Nil
  then show ?case by (simp add: room_err_def room_rest_def)
next
  case (Cons wr wrs)
  have r: "request_ok ahs qp wr" using Cons.prems(3) by simp
  note v = validate_request_ok [OF r Cons.prems(2,1)]
  show ?case
  proof (cases "sq_room (qp_sq qp) = 0")
    case True
    then show ?thesis using v by (simp add: room_err_def room_rest_def)
  next
    case False
    then obtain w sq1 where b: "build_send_wqe mem ahs (qp_sq qp) wr = Some (w, sq1)"
      "sq_ok (efa_sq_advance_post_idx sq1)"
      "sq_room (efa_sq_advance_post_idx sq1) = sq_room (qp_sq qp) - 1"
      using post_one_ok [OF Cons.prems(1) r] by (metis not_gr_zero)
    let ?qp = "qp\<lparr>qp_sq := efa_sq_advance_post_idx sq1\<rparr>"
    have fr: "sq_frame (qp_sq qp) (efa_sq_advance_post_idx sq1)"
      using build_send_wqe_frame [OF b(1)] by simp
    have ok: "\<forall>wr \<in> set wrs. request_ok ahs ?qp wr"
      using Cons.prems(3) by (simp add: request_ok_frame [OF fr])
    obtain tr1 where m: "mmio_memcpy_x64 (sq_desc_addr (sq_desc sq1) (desc_mask (sq_wq sq1)) (wq_pc (sq_wq sq1)))
         (qwords_of (tx_wqe_bytes w)) 64 tr = Some tr1"
      using memcpy_tx_wqe [OF build_send_wqe_wf [OF b(1)]] by blast
    have IH: "\<exists>qp' cb' tr'. post_send_loop mem ahs ?qp cb2 tr2 wrs =
      Some (room_err (sq_room (qp_sq qp) - 1) wrs, room_rest (sq_room (qp_sq qp) - 1) wrs,
        qp', cb', tr')" for cb2 tr2
      using Cons.IH [of ?qp cb2 tr2] b(2,3) Cons.prems(2) ok by simp
    have "0 < sq_room (qp_sq qp)" using False by simp
    then show ?thesis
      using v False b(1) m IH by (simp add: room_Cons Let_def del: One_nat_def)
  qed
qed

text \<open>What the entries of good requests do to the pool.\<close>

lemma build_all_ok:
  assumes "build_all mem ahs (qp_sq qp) wrs = Some (ws, sq')"
    and "sq_ok (qp_sq qp)" and "\<forall>wr \<in> set wrs. request_ok ahs qp wr"
    and "length wrs \<le> sq_room (qp_sq qp)"
  shows "sq_ok sq' \<and> sq_room sq' = sq_room (qp_sq qp) - length wrs \<and>
    (let idxs = map (\<lambda>w. unat (txm_req_id (wqe_meta w))) ws in
      length idxs = length wrs \<and> distinct idxs \<and>
      set idxs \<inter> wq_outstanding (sq_wq (qp_sq qp)) = {} \<and>
      wq_tags (sq_wq sq') = wq_tags (sq_wq (qp_sq qp)) ++ map_of (zip idxs (map sw_wr_id wrs)))"
proof -
  have none: "wq_tags wq i = None \<longleftrightarrow> i \<notin> wq_outstanding wq" for wq i by (simp add: wq_tags_def)
  show ?thesis
    using sq_poster.post_all_ok [OF assms(2-4), of mem] assms(1)
    by (auto simp: post_all_sq_step none Let_def)
qed

lemma sq_ok_lk [simp]: "sq_ok (lk l sq) = sq_ok sq" "sq_room (lk l sq) = sq_room sq"
  by (simp_all add: sq_ok_def sq_room_def lk_def)

lemma request_ok_lk [simp]: "request_ok ahs (qp\<lparr>qp_sq := lk l (qp_sq qp)\<rparr>) wr = request_ok ahs qp wr"
  by (simp add: request_ok_def lk_def)

lemma efa_post_send_total:
  assumes "sq_ok (qp_sq qp)" and "can_send qp" and "\<forall>wr \<in> set wrs. request_ok ahs qp wr"
  shows "\<exists>qp' tr'. efa_post_send mem ahs qp wrs tr =
    Some (room_err (sq_room (qp_sq qp)) wrs, room_rest (sq_room (qp_sq qp)) wrs, qp', tr')"
proof -
  let ?l = "pthread_spin_lock (wqlock (sq_wq (qp_sq qp)))"
  let ?qp = "qp\<lparr>qp_sq := lk ?l (qp_sq qp)\<rparr>"
  obtain qp' cb tr1 where loop: "post_send_loop mem ahs ?qp 0 (tr @ [Fence]) wrs =
      Some (room_err (sq_room (qp_sq qp)) wrs, room_rest (sq_room (qp_sq qp)) wrs, qp', cb, tr1)"
    using post_send_loop_total [of ?qp wrs ahs mem 0 "tr @ [Fence]"] assms by auto
  have "0 < max_batch_wr (qp_sq qp)" using assms(1) by (simp add: sq_ok_def)
  then have "unat (0 :: u32) < unat (max_batch_wr (qp_sq ?qp))"
    by (simp add: lk_def word_less_nat_alt)
  from post_send_loop_prefix [OF loop this]
  have "wqlock (sq_wq (qp_sq qp')) = ?l"
    by (auto simp: sq_frame_def lk_def)
  then show ?thesis
    using loop
    by (simp add: efa_post_send_def mmio_wc_spinlock_def mmio_wc_start_def mmio_flush_writes_def
        set_sq_lock_lk Let_def)
qed

text \<open>
  C16: the capacity of a send queue. On a well-formed queue with room for \<open>k\<close> more requests,
  \<open>efa_post_send\<close> returns for every list of good requests: 0 when at most \<open>k\<close> were given,
  otherwise \<open>ENOMEM\<close> with \<open>*bad\<close> at the request number \<open>k\<close>. The queue stays well formed,
  its room shrinks by the number of posted requests, and every posted entry carries an index of
  its own, that was free before and now stands for the \<open>wr_id\<close> of its request.
\<close>

theorem efa_post_send_capacity:
  assumes "sq_ok (qp_sq qp)" and "can_send qp" and "\<forall>wr \<in> set wrs. request_ok ahs qp wr"
  shows "\<exists>qp' tr' ws idxs.
    efa_post_send mem ahs qp wrs tr =
      Some (if length wrs \<le> sq_room (qp_sq qp) then 0 else ENOMEM,
        if length wrs \<le> sq_room (qp_sq qp) then None else Some (drop (sq_room (qp_sq qp)) wrs),
        qp', tr') \<and>
    sq_ok (qp_sq qp') \<and> sq_room (qp_sq qp') = sq_room (qp_sq qp) - length wrs \<and>
    tr' = tr @ [Fence] @ post_trace (sq_desc (qp_sq qp)) (wq_db (sq_wq (qp_sq qp)))
      (desc_mask (sq_wq (qp_sq qp))) (unat (max_batch_wr (qp_sq qp))) 0 (wq_pc (sq_wq (qp_sq qp))) ws \<and>
    idxs = map (\<lambda>w. unat (txm_req_id (wqe_meta w))) ws \<and>
    length idxs = min (length wrs) (sq_room (qp_sq qp)) \<and> distinct idxs \<and>
    set idxs \<inter> wq_outstanding (sq_wq (qp_sq qp)) = {} \<and>
    wq_tags (sq_wq (qp_sq qp')) = wq_tags (sq_wq (qp_sq qp)) ++ map_of (zip idxs (map sw_wr_id wrs))"
proof -
  let ?k = "sq_room (qp_sq qp)"
  obtain qp' tr' where run:
    "efa_post_send mem ahs qp wrs tr = Some (room_err ?k wrs, room_rest ?k wrs, qp', tr')"
    using efa_post_send_total [OF assms] by blast
  have mb: "0 < max_batch_wr (qp_sq qp)" using assms(1) by (simp add: sq_ok_def)
  obtain good rest ws sq' where P: "wrs = good @ rest"
    "build_all mem ahs (qp_sq qp) good = Some (ws, sq')" "qp' = qp\<lparr>qp_sq := sq'\<rparr>"
    "if room_err ?k wrs = 0 then rest = [] \<and> room_rest ?k wrs = None
     else rest \<noteq> [] \<and> room_rest ?k wrs = Some rest"
    "tr' = tr @ [Fence] @ post_trace (sq_desc (qp_sq qp)) (wq_db (sq_wq (qp_sq qp)))
      (desc_mask (sq_wq (qp_sq qp))) (unat (max_batch_wr (qp_sq qp))) 0 (wq_pc (sq_wq (qp_sq qp))) ws"
    using post_send_prefix [OF run mb] by (metis (no_types, lifting))
  have rest: "rest = drop ?k wrs"
    using P(4) by (auto simp: room_err_def room_rest_def split: if_splits)
  then have good: "good = take ?k wrs"
    using P(1) by (metis append_same_eq append_take_drop_id)
  have len: "length good = min (length wrs) ?k" by (simp add: good)
  let ?idxs = "map (\<lambda>w. unat (txm_req_id (wqe_meta w))) ws"
  have g: "\<forall>wr \<in> set good. request_ok ahs qp wr" using assms(3) P(1) by simp
  have l: "length good \<le> ?k" by (simp add: len)
  note ok = build_all_ok [OF P(2) assms(1) g l, unfolded Let_def]
  have room: "sq_room sq' = ?k - length wrs" using ok len by linarith
  have z: "zip ?idxs (map sw_wr_id good) = zip ?idxs (map sw_wr_id wrs)"
    using ok by (simp add: P(1) zip_append1 zip_append2 del: map_of_zip_map)
  show ?thesis
  proof (rule exI [of _ qp'], rule exI [of _ tr'], rule exI [of _ ws], rule exI [of _ ?idxs],
      intro conjI)
    show "efa_post_send mem ahs qp wrs tr =
      Some (if length wrs \<le> ?k then 0 else ENOMEM,
        if length wrs \<le> ?k then None else Some (drop ?k wrs), qp', tr')"
      using run by (simp only: room_err_def room_rest_def)
  qed (use ok room z len P(3,5) in auto)
qed

text \<open>The example queue of four entries: five requests are one too many.\<close>

lemma ex_send_qp_ok: "sq_ok (qp_sq ex_send_qp)" "sq_room (qp_sq ex_send_qp) = 4" "can_send ex_send_qp"
proof -
  have wq: "sq_wq (qp_sq ex_send_qp) = wq_example\<lparr>wq_db := 0x8000\<rparr>"
    by (simp add: ex_send_qp_def)
  have v: "wq_inv (wq_example\<lparr>wq_db := 0x8000\<rparr>) = wq_inv wq_example"
    "wq_outstanding (wq_example\<lparr>wq_db := 0x8000\<rparr>) = wq_outstanding wq_example"
    by (rule wq_view_cong; simp)+
  have "max_batch_wr (qp_sq ex_send_qp) = 2" by (simp add: ex_send_qp_def ex_sq_def)
  then show "sq_ok (qp_sq ex_send_qp)"
    by (simp add: sq_ok_def wq_ready_def wq v wq_example_inv) (simp add: wq_counts_def wq_example_def)
  show "sq_room (qp_sq ex_send_qp) = 4"
    by (simp add: sq_room_def wq_room_def wq v card_wq_outstanding [OF wq_example_inv])
      (simp add: wq_example_def)
  show "can_send ex_send_qp" by (simp add: can_send_def ex_send_qp_def)
qed

lemma ex_wr_ok: "request_ok ex_ahs ex_send_qp ex_wr"
  unfolding request_ok_def
proof (intro conjI)
  show "\<exists>p ah. sw_ud_ah ex_wr = Some p \<and> ex_ahs p = Some ah"
    by (simp add: ex_wr_def ex_ahs_def)
qed code_simp+

theorem efa_post_send_capacity_witness:
  "\<exists>qp' tr'. efa_post_send (\<lambda>_. 0) ex_ahs ex_send_qp (replicate 5 ex_wr) [] =
     Some (ENOMEM, Some [ex_wr], qp', tr') \<and> sq_room (qp_sq qp') = 0"
  using efa_post_send_capacity [OF ex_send_qp_ok(1,3), of "replicate 5 ex_wr" ex_ahs "\<lambda>_. 0" "[]"] ex_wr_ok
  by (auto simp: ex_send_qp_ok(2) numeral_eq_Suc)

end
