(* ===== verification/Efa_Session.thy ===== *)
theory Efa_Session
  imports Efa_Send
begin

text \<open>
  The session interface of the send path: what \<open>ibv_wr_complete\<close> copies to the device, and what
  an aborted session leaves behind.
\<close>

section \<open>Slots of the ring\<close>

text \<open>The geometry \<open>efa_wq_initialize\<close> sets up: a power of two below 65536 and its mask.\<close>

definition sq_geom :: "nat \<Rightarrow> efa_sq \<Rightarrow> bool" where
  "sq_geom k sq \<longleftrightarrow> k < 16 \<and> wqe_cnt (sq_wq sq) = 2 ^ k \<and> desc_mask (sq_wq sq) = mask k"

lemma unat_slot: "unat (pc AND mask k :: u16) = unat pc mod 2 ^ k"
  by (metis take_bit_eq_mask take_bit_eq_mod unsigned_take_bit_eq)

lemma two_pow_u16: "k < 16 \<Longrightarrow> (2 :: nat) ^ k < 2 ^ 16"
  by (rule power_strict_increasing) simp_all

lemma slot_step:
  assumes "k < 16"
  shows "((pc AND mask k) + n) AND mask k = (pc + n :: u16) AND mask k"
proof (rule word_unat_eq_iff [THEN iffD2])
  have d: "(2 :: nat) ^ k dvd 2 ^ 16" using assms by (intro le_imp_power_dvd) simp
  have "unat (((pc AND mask k) + n) AND mask k) = ((unat pc mod 2 ^ k + unat n) mod 2 ^ 16) mod 2 ^ k"
    by (simp add: unat_slot unat_word_ariths)
  also have "\<dots> = ((unat pc + unat n) mod 2 ^ 16) mod 2 ^ k"
    by (simp only: mod_mod_cancel [OF d] mod_add_left_eq)
  finally show "unat (((pc AND mask k) + n) AND mask k) = unat ((pc + n) AND mask k)"
    by (simp add: unat_slot unat_word_ariths)
qed

lemma unat_two_pow: "k < 16 \<Longrightarrow> unat (2 ^ k :: u32) = 2 ^ k"
proof -
  assume "k < 16"
  then have "(2 :: nat) ^ k < 2 ^ 32" using two_pow_u16 [of k] by simp
  then have "unat (of_nat (2 ^ k) :: u32) = 2 ^ k" by (simp only: unat_of_nat) (simp add: take_bit_nat_eq_self)
  then show ?thesis by simp
qed

lemma sq_desc_addr_slot: "sq_desc_addr desc msk pc = desc + 64 * ucast (pc AND msk)"
proof -
  have lt: "unat (pc AND msk) < 2 ^ LENGTH(16)" by (rule unsigned_less)
  have "unat (ucast (pc AND msk) * 64 :: u32) = unat (pc AND msk) * 64"
    using lt by (simp add: unat_mult_lem [THEN iffD1] unat_ucast_widen)
  moreover have "unat (64 * ucast (pc AND msk) :: u64) = 64 * unat (pc AND msk)"
    using lt by (simp add: unat_mult_lem [THEN iffD1] unat_ucast_widen)
  ultimately have "ucast (ucast (pc AND msk) * 64 :: u32) = (64 * ucast (pc AND msk) :: u64)"
    by (simp add: word_unat_eq_iff unat_ucast_widen)
  then show ?thesis by (simp add: sq_desc_addr_def)
qed

lemma slot_add:
  assumes "k < 16" and "unat (pc AND mask k :: u16) + n < 2 ^ k"
  shows "unat ((pc + of_nat n) AND mask k) = unat (pc AND mask k) + n"
proof -
  have lt: "n < 2 ^ LENGTH(16)" "unat (pc AND mask k) + n < 2 ^ LENGTH(16)"
    using assms(2) two_pow_u16 [OF assms(1)] by simp_all
  then have "unat ((pc AND mask k) + of_nat n) = unat (pc AND mask k) + n"
    by (simp add: unat_add_lem [THEN iffD1] unat_of_nat take_bit_nat_eq_self)
  then have "unat (((pc AND mask k) + of_nat n) AND mask k) = unat (pc AND mask k) + n"
    using assms(2) by (simp only: unat_slot) (metis mod_less)
  then show ?thesis by (simp only: slot_step [OF assms(1)])
qed

lemma slot_next:
  assumes "k < 16" and "unat (pc AND mask k :: u16) + 1 < 2 ^ k"
  shows "sq_desc_addr desc (mask k) (pc + 1) = sq_desc_addr desc (mask k) pc + 64"
proof -
  have "unat ((pc + 1) AND mask k) = unat (pc AND mask k) + 1"
    using slot_add [OF assms] by simp
  moreover have "unat (pc AND mask k) < 2 ^ LENGTH(16)" by (rule unsigned_less)
  ultimately have "(ucast ((pc + 1) AND mask k) :: u64) = ucast (pc AND mask k) + 1"
    by (simp add: word_unat_eq_iff unat_ucast_widen unat_add_lem [THEN iffD1])
  then show ?thesis by (simp add: sq_desc_addr_slot algebra_simps)
qed

text \<open>A run of entries that stays below the end of the ring and of the batch is one copy.\<close>

lemma post_trace_chunk:
  assumes "k < 16" and "0 < n" and "n \<le> length ws" and "cur + n \<le> maxb"
    and "unat (pc AND mask k :: u16) + n \<le> 2 ^ k"
  shows "post_trace desc db (mask k) maxb cur pc ws =
    wqes_writes (sq_desc_addr desc (mask k) pc) (take n ws) @
    (if cur + n = maxb
     then [Fence, Wr32 db (ucast (pc + of_nat n)), Fence] @
       post_trace desc db (mask k) maxb 0 (pc + of_nat n) (drop n ws)
     else post_trace desc db (mask k) maxb (cur + n) (pc + of_nat n) (drop n ws))"
  using assms(2-)
proof (induction n arbitrary: cur pc ws)
  case 0
  then show ?case by simp
next
  case (Suc n)
  then obtain w ws' where ws: "ws = w # ws'" by (cases ws) auto
  show ?case
  proof (cases "n = 0")
    case True
    then show ?thesis by (simp add: ws)
  next
    case False
    have sl: "unat (pc AND mask k) + 1 < 2 ^ k" using Suc.prems(4) False by simp
    have "unat ((pc + 1) AND mask k) = unat (pc AND mask k) + 1"
      using slot_add [OF assms(1) sl] by simp
    then have "unat ((pc + 1) AND mask k) + n \<le> 2 ^ k" using Suc.prems(4) by simp
    then have IH: "post_trace desc db (mask k) maxb (Suc cur) (pc + 1) ws' =
        wqes_writes (sq_desc_addr desc (mask k) (pc + 1)) (take n ws') @
        (if Suc cur + n = maxb
         then [Fence, Wr32 db (ucast (pc + 1 + of_nat n)), Fence] @
           post_trace desc db (mask k) maxb 0 (pc + 1 + of_nat n) (drop n ws')
         else post_trace desc db (mask k) maxb (Suc cur + n) (pc + 1 + of_nat n) (drop n ws'))"
      by (intro Suc.IH) (use Suc.prems False ws in auto)
    have "pc + of_nat (Suc n) = pc + 1 + of_nat n" "Suc cur \<noteq> maxb" "Suc cur + n = cur + Suc n"
      using Suc.prems(3) False by simp_all
    then show ?thesis
      by (simp add: ws IH slot_next [OF assms(1) sl] add.assoc del: of_nat_Suc)
  qed
qed

section \<open>The copy loop\<close>

text \<open>
  The loop of \<open>efa_send_wr_complete\<close> returns, and what it does is the posting of the entries
  from \<open>local_idx\<close> on, however the ring end and the batch limit cut them.
\<close>

lemma min3_sizes:
  fixes p c m :: u32 and i b :: u16
  assumes "unat i < unat c" and "unat b < unat m" and "p \<noteq> 0"
  defines "n \<equiv> min (min p (c - ucast i)) (m - ucast b)"
  shows "unat n = min (min (unat p) (unat c - unat i)) (unat m - unat b)" and "0 < unat n"
proof -
  have "unat (c - ucast i) = unat c - unat i" "unat (m - ucast b) = unat m - unat b"
    using assms(1,2) by (simp_all add: unat_sub_if_size unat_ucast_widen word_le_nat_alt)
  moreover have "unat (min x y) = min (unat x) (unat y)" for x y :: u32
    by (simp add: min_def word_le_nat_alt)
  ultimately show "unat n = min (min (unat p) (unat c - unat i)) (unat m - unat b)"
    by (simp add: n_def)
  then show "0 < unat n" using assms(1-3) by (simp add: unat_gt_0)
qed

lemma send_complete_loop_spec:
  assumes "sq_geom k sq" and "cb_list (local_queue sq) = q"
    and "unat local + unat (num_wqe_pending sq) \<le> length q" and "length q < 2 ^ 16"
    and "list_all wf_tx_wqe q" and "unat cur < unat maxb" and "unat maxb < 2 ^ 16"
  shows "\<exists>cur' tr'. send_complete_loop sq maxb local cur pc (pc AND mask k) tr =
      Some (sq\<lparr>num_wqe_pending := 0\<rparr>, cur', tr') \<and>
    tr' @ ring_rest (wq_db (sq_wq sq)) (pc + ucast (num_wqe_pending sq)) (unat cur') =
      tr @ post_trace (sq_desc sq) (wq_db (sq_wq sq)) (mask k) (unat maxb) (unat cur) pc
        (take (unat (num_wqe_pending sq)) (drop (unat local) q))"
  using assms
proof (induction "unat (num_wqe_pending sq)" arbitrary: sq local cur pc tr rule: less_induct)
  case less
  let ?p = "num_wqe_pending sq" and ?c = "wqe_cnt (sq_wq sq)" and ?i = "pc AND mask k"
  have k: "k < 16" "?c = 2 ^ k" "desc_mask (sq_wq sq) = mask k"
    using less.prems(1) by (simp_all add: sq_geom_def)
  show ?case
  proof (cases "?p = 0")
    case True
    have "sq\<lparr>num_wqe_pending := 0\<rparr> = sq" using True by simp
    then show ?thesis using True by (simp add: send_complete_loop.simps)
  next
    case False
    define n where "n = min (min ?p (?c - ucast ?i)) (maxb - ucast cur)"
    have c: "unat ?c = 2 ^ k" using k by (simp add: unat_two_pow)
    have i: "unat ?i < unat ?c" by (simp add: c unat_slot)
    note n = min3_sizes [OF i less.prems(6) False, folded n_def]
    have n16: "unat n < 2 ^ 16" using n(1) less.prems(7) by linarith
    then have nu: "unat (ucast n :: u16) = unat n" "(ucast n :: u16) = of_nat (unat n)"
      by (simp_all add: unat_ucast_mod word_unat_eq_iff unat_of_nat take_bit_eq_mod)
    let ?ws = "take (unat n) (drop (unat local) q)" and ?a = "sq_desc_addr (sq_desc sq) (mask k) pc"
    have len: "length ?ws = unat n" using n(1) less.prems(3) by simp
    have split: "drop (unat local) q = ?ws @ drop (unat n) (drop (unat local) q)"
      by (rule append_take_drop_id [symmetric])
    have wf: "list_all wf_tx_wqe ?ws"
      using less.prems(5) by (auto simp: list_all_iff dest!: in_set_takeD in_set_dropD)
    have sz: "(ucast n :: u64) * 64 = of_nat (64 * length ?ws)"
      unfolding len by (simp add: word_unat_eq_iff unat_word_ariths unat_of_nat unat_ucast_widen
          take_bit_eq_mod mult.commute)
    have "?ws \<noteq> []" "length ?ws < 2 ^ 58" using len n(2) n16 by auto
    from memcpy_wqes [OF wf this, of ?a "drop (unat n) (drop (unat local) q)" tr]
    have copy: "mmio_memcpy_x64 (sq_desc sq + 64 * ucast ?i) (wqes_qwords (drop (unat local) q))
        (ucast n * 64) tr = Some (tr @ wqes_writes ?a ?ws)"
      by (simp only: split [symmetric] sz sq_desc_addr_slot)
    let ?sq = "sq\<lparr>num_wqe_pending := ?p - n\<rparr>" and ?local = "local + ucast n"
      and ?cur = "cur + ucast n" and ?pc = "pc + ucast n"
    define cur2 where "cur2 = (if unat cur + unat n = unat maxb then 0 else ?cur)"
    define tr2 where "tr2 = (tr @ wqes_writes ?a ?ws) @
      (if unat cur + unat n = unat maxb then [Fence, Wr32 (wq_db (sq_wq sq)) (ucast ?pc), Fence] else [])"
    have nle: "unat n \<le> unat ?p" "unat cur + unat n \<le> unat maxb" "unat ?i + unat n \<le> 2 ^ k"
      using n(1) less.prems(6) i by (simp_all add: c)
    have p2: "unat (?p - n) = unat ?p - unat n"
      using nle(1) by (simp add: unat_sub_if_size word_le_nat_alt)
    have l2: "unat ?local = unat local + unat n"
      using nle(1) less.prems(3,4) by (simp add: unat_add_lem [THEN iffD1] nu(1))
    have c2: "unat ?cur = unat cur + unat n"
      using nle(2) less.prems(7) by (simp add: unat_add_lem [THEN iffD1] nu(1))
    have full: "ucast ?cur = maxb \<longleftrightarrow> unat cur + unat n = unat maxb"
      by (simp add: word_unat_eq_iff unat_ucast_widen c2)
    have step: "send_complete_loop sq maxb local cur pc ?i tr =
        send_complete_loop ?sq maxb ?local cur2 ?pc (?pc AND mask k) tr2"
      using False
      by (subst send_complete_loop.simps)
        (simp add: n_def [symmetric] Let_def less.prems(2) copy full k(3) slot_step [OF k(1)] cur2_def tr2_def
          mmio_flush_writes_def mmio_wc_start_def efa_sq_ring_doorbell_def mmio_write32_def)
    have pend: "take (unat (?p - n)) (drop (unat ?local) q) = drop (unat n) (take (unat ?p) (drop (unat local) q))"
      by (simp add: p2 l2 drop_take add.commute)
    have "\<exists>cur' tr'. send_complete_loop ?sq maxb ?local cur2 ?pc (?pc AND mask k) tr2 =
        Some (?sq\<lparr>num_wqe_pending := 0\<rparr>, cur', tr') \<and>
      tr' @ ring_rest (wq_db (sq_wq ?sq)) (?pc + ucast (num_wqe_pending ?sq)) (unat cur') =
        tr2 @ post_trace (sq_desc ?sq) (wq_db (sq_wq ?sq)) (mask k) (unat maxb) (unat cur2) ?pc
          (take (unat (num_wqe_pending ?sq)) (drop (unat ?local) q))"
    proof (rule less.hyps [of ?sq])
      show "unat (num_wqe_pending ?sq) < unat ?p" using p2 n(2) nle(1) by simp
      show "unat ?local + unat (num_wqe_pending ?sq) \<le> length q" using less.prems(3) l2 p2 nle(1) by simp
      show "unat cur2 < unat maxb" using less.prems(6) c2 nle(2) by (auto simp: cur2_def)
    qed (use less.prems in \<open>auto simp: sq_geom_def\<close>)
    then obtain cur' tr' where IH: "send_complete_loop ?sq maxb ?local cur2 ?pc (?pc AND mask k) tr2 =
        Some (sq\<lparr>num_wqe_pending := 0\<rparr>, cur', tr')"
      "tr' @ ring_rest (wq_db (sq_wq sq)) (?pc + ucast (?p - n)) (unat cur') =
        tr2 @ post_trace (sq_desc sq) (wq_db (sq_wq sq)) (mask k) (unat maxb) (unat cur2) ?pc
          (drop (unat n) (take (unat ?p) (drop (unat local) q)))"
      using pend by auto
    have pc: "?pc + ucast (?p - n) = pc + ucast ?p"
    proof -
      have "(ucast (?p - n) :: u16) = of_nat (unat ?p - unat n)" by (simp flip: p2)
      then show ?thesis by (simp add: of_nat_diff nle(1))
    qed
    have "post_trace (sq_desc sq) (wq_db (sq_wq sq)) (mask k) (unat maxb) (unat cur) pc
        (take (unat ?p) (drop (unat local) q)) = wqes_writes ?a ?ws @
       (if unat cur + unat n = unat maxb
        then [Fence, Wr32 (wq_db (sq_wq sq)) (ucast ?pc), Fence] @
          post_trace (sq_desc sq) (wq_db (sq_wq sq)) (mask k) (unat maxb) 0 ?pc
            (drop (unat n) (take (unat ?p) (drop (unat local) q)))
        else post_trace (sq_desc sq) (wq_db (sq_wq sq)) (mask k) (unat maxb) (unat cur + unat n) ?pc
            (drop (unat n) (take (unat ?p) (drop (unat local) q))))"
      using post_trace_chunk [OF k(1) n(2) _ nle(2,3)] nle(1) less.prems(3)
      by (simp flip: nu(2) add: min_absorb1)
    then have "tr @ post_trace (sq_desc sq) (wq_db (sq_wq sq)) (mask k) (unat maxb) (unat cur) pc
        (take (unat ?p) (drop (unat local) q)) =
        tr2 @ post_trace (sq_desc sq) (wq_db (sq_wq sq)) (mask k) (unat maxb) (unat cur2) ?pc
          (drop (unat n) (take (unat ?p) (drop (unat local) q)))"
      by (simp add: cur2_def tr2_def c2)
    then show ?thesis using IH step pc by metis
  qed
qed

text \<open>The session as a whole: what \<open>ibv_wr_complete\<close> does when nothing went wrong.\<close>

definition session_ready :: "nat \<Rightarrow> efa_qp \<Rightarrow> bool" where
  "session_ready k qp \<longleftrightarrow>
     (let sq = qp_sq qp; q = cb_list (local_queue sq) in
      wr_session_err qp = 0 \<and> sq_geom k sq \<and> 0 < max_batch_wr sq \<and> 0 < wqlock (sq_wq sq) \<and>
      unat (num_wqe_pending sq) \<le> length q \<and> length q < 2 ^ 16 \<and> list_all wf_tx_wqe q)"

definition pending_wqes :: "efa_sq \<Rightarrow> efa_io_tx_wqe list" where
  "pending_wqes sq = take (unat (num_wqe_pending sq)) (cb_list (local_queue sq))"

lemma send_wr_complete_spec:
  assumes "session_ready k qp"
  defines "sq \<equiv> qp_sq qp"
  shows "efa_send_wr_complete qp tr =
    Some (0, qp\<lparr>qp_sq := lk (wqlock (sq_wq sq) - 1) (sq\<lparr>num_wqe_pending := 0\<rparr>)\<rparr>,
      tr @ post_trace (sq_desc sq) (wq_db (sq_wq sq)) (mask k) (unat (max_batch_wr sq)) 0
        (wq_pc (sq_wq sq) - ucast (num_wqe_pending sq)) (pending_wqes sq))"
proof -
  let ?p = "num_wqe_pending sq" and ?pc = "wq_pc (sq_wq sq)" and ?q = "cb_list (local_queue sq)"
  let ?m = "ucast (max_batch_wr sq) :: u32"
  have r: "wr_session_err qp = 0" "sq_geom k sq" "0 < max_batch_wr sq" "0 < wqlock (sq_wq sq)"
    "unat ?p \<le> length ?q" "length ?q < 2 ^ 16" "list_all wf_tx_wqe ?q"
    using assms by (simp_all add: session_ready_def Let_def)
  have mask: "desc_mask (sq_wq sq) = mask k" using r(2) by (simp add: sq_geom_def)
  have m: "unat ?m = unat (max_batch_wr sq)" by (simp add: unat_ucast_widen)
  have b: "unat (0 :: u16) < unat ?m" "unat ?m < 2 ^ 16"
  proof -
    show "unat (0 :: u16) < unat ?m" using r(3) by (simp add: m word_less_nat_alt)
    have "unat (max_batch_wr sq) < 2 ^ LENGTH(16)" by (rule unsigned_less)
    then show "unat ?m < 2 ^ 16" by (simp add: m)
  qed
  obtain cur' tr' where L: "send_complete_loop sq ?m 0 0 (?pc - ucast ?p) ((?pc - ucast ?p) AND mask k) tr =
      Some (sq\<lparr>num_wqe_pending := 0\<rparr>, cur', tr')"
    "tr' @ ring_rest (wq_db (sq_wq sq)) ?pc (unat cur') =
      tr @ post_trace (sq_desc sq) (wq_db (sq_wq sq)) (mask k) (unat (max_batch_wr sq)) 0
        (?pc - ucast ?p) (pending_wqes sq)"
    using send_complete_loop_spec [OF r(2) refl, of 0 0 ?m "?pc - ucast ?p" tr] r(5-7) b m
    by (auto simp: pending_wqes_def)
  have un: "pthread_spin_unlock (wqlock (sq_wq sq)) = Some (wqlock (sq_wq sq) - 1)"
    using r(4) by (cases "wqlock (sq_wq sq)") simp_all
  have "(if cur' \<noteq> 0 then efa_sq_ring_doorbell (sq\<lparr>num_wqe_pending := 0\<rparr>) ?pc (mmio_flush_writes tr') else tr') =
      tr' @ ring_rest (wq_db (sq_wq sq)) ?pc (unat cur')"
    by (simp add: ring_rest_def efa_sq_ring_doorbell_def mmio_flush_writes_def mmio_write32_def unat_eq_zero)
  then show ?thesis
    using L un r(1)
    by (simp add: efa_send_wr_complete_def Let_def sq_def [symmetric] mask set_sq_lock_lk bind_eq_Some_conv
        split: if_splits)
qed

text \<open>
  C17: \<open>ibv_wr_complete\<close> posts the pending entries. When the session saw no error the copy
  loop ends, whatever the position in the ring and the batch limit, and its stores are those of
  posting the pending entries one by one at consecutive slots from \<open>pc - num_wqe_pending\<close> on: the
  copies are cut at the ring end, the doorbell is rung after every \<open>max_batch_wr\<close> entries and
  after the last one, nothing stays pending and the lock is released.
\<close>

theorem efa_send_wr_complete_posts_pending:
  assumes "session_ready k qp"
  shows "efa_send_wr_complete qp tr =
    Some (0, qp\<lparr>qp_sq := lk (wqlock (sq_wq (qp_sq qp)) - 1) ((qp_sq qp)\<lparr>num_wqe_pending := 0\<rparr>)\<rparr>,
      tr @ post_trace (sq_desc (qp_sq qp)) (wq_db (sq_wq (qp_sq qp))) (mask k)
        (unat (max_batch_wr (qp_sq qp))) 0
        (wq_pc (sq_wq (qp_sq qp)) - ucast (num_wqe_pending (qp_sq qp))) (pending_wqes (qp_sq qp)))"
  using send_wr_complete_spec [OF assms] .

text \<open>Three pending entries at slots 2, 3 and 0 of a ring of four, two per doorbell.\<close>

definition ex_pending_qp :: efa_qp where
  "ex_pending_qp = ex_send_qp\<lparr>qp_sq := ex_sq\<lparr>num_wqe_pending := 3,
     sq_wq := wq_example\<lparr>wq_db := 0x8000, wq_pc := 5, wqlock := 1\<rparr>\<rparr>\<rparr>"

theorem efa_send_wr_complete_posts_pending_witness:
  "\<exists>qp'. efa_send_wr_complete ex_pending_qp [] =
     Some (0, qp', wqe_writes 0x4080 zero_tx_wqe @ wqe_writes 0x40C0 zero_tx_wqe @
       [Fence, Wr32 0x8000 4, Fence] @ wqe_writes 0x4000 zero_tx_wqe @ [Fence, Wr32 0x8000 5]) \<and>
     wqlock (sq_wq (qp_sq qp')) = 0"
proof -
  have r: "replicate 4 zero_tx_wqe = [zero_tx_wqe, zero_tx_wqe, zero_tx_wqe, zero_tx_wqe]"
    by (simp add: numeral_eq_Suc)
  have f: "sq_desc (qp_sq ex_pending_qp) = 0x4000" "wq_db (sq_wq (qp_sq ex_pending_qp)) = 0x8000"
    "max_batch_wr (qp_sq ex_pending_qp) = 2" "wq_pc (sq_wq (qp_sq ex_pending_qp)) = 5"
    "num_wqe_pending (qp_sq ex_pending_qp) = 3" "wqlock (sq_wq (qp_sq ex_pending_qp)) = 1"
    "pending_wqes (qp_sq ex_pending_qp) = [zero_tx_wqe, zero_tx_wqe, zero_tx_wqe]"
    "wr_session_err ex_pending_qp = 0" "cb_list (local_queue (qp_sq ex_pending_qp)) = replicate 4 zero_tx_wqe"
    "wqe_cnt (sq_wq (qp_sq ex_pending_qp)) = 4" "desc_mask (sq_wq (qp_sq ex_pending_qp)) = 3"
    by (simp_all add: ex_pending_qp_def ex_sq_def wq_example_def pending_wqes_def r
        ex_send_qp_def zero_qp_def)
  have "session_ready 2 ex_pending_qp"
    by (simp add: session_ready_def f sq_geom_def mask_eq_exp_minus_1 list_all_iff)
  note run = efa_send_wr_complete_posts_pending [OF this, of "[]", unfolded f]
  have m: "(mask 2 :: u16) = 3" "(5 :: u16) - ucast (3 :: u32) = 2" by (simp_all add: mask_eq_exp_minus_1)
  have "post_trace 0x4000 0x8000 3 2 0 2 [zero_tx_wqe, zero_tx_wqe, zero_tx_wqe] =
      wqe_writes 0x4080 zero_tx_wqe @ wqe_writes 0x40C0 zero_tx_wqe @
       [Fence, Wr32 0x8000 4, Fence] @ wqe_writes 0x4000 zero_tx_wqe @ [Fence, Wr32 0x8000 5]"
    by (simp add: sq_desc_addr_def ring_rest_def)
  then show ?thesis using run by (auto simp: m lk_def)
qed

end
