(* ===== verification/Efa_Abort.thy ===== *)
theory Efa_Abort
  imports Efa_Session
begin

text \<open>
  Sessions of the send path as sequences of calls, the invariant they keep, and what an
  abandoned session leaves behind.
\<close>

section \<open>Sessions\<close>

text \<open>
  What the application does between \<open>ibv_wr_start\<close> and the end of the session: it sets the two
  public fields of the queue pair and calls the builder and setter functions, in any order.
\<close>

datatype wr_call =
    Set_wr_id u64
  | Set_wr_flags u32
  | Call_send
  | Call_send_imm u32
  | Call_rdma_read u32 u64
  | Call_set_sge u32 u64 u32
  | Call_set_sge_list u64 "ibv_sge list"
  | Call_set_inline_data u64 u64
  | Call_set_inline_data_list u64 "ibv_data_buf list"
  | Call_set_ud_addr "ptr option" u32 u32

primrec wr_call_exec :: "umem \<Rightarrow> ah_heap \<Rightarrow> wr_call \<Rightarrow> efa_qp \<Rightarrow> efa_qp option" where
  "wr_call_exec mem ahs (Set_wr_id i) qp =
     Some (qp\<lparr>verbs_qp := (verbs_qp qp)\<lparr>qpx_wr_id := i\<rparr>\<rparr>)"
| "wr_call_exec mem ahs (Set_wr_flags f) qp =
     Some (qp\<lparr>verbs_qp := (verbs_qp qp)\<lparr>qpx_wr_flags := f\<rparr>\<rparr>)"
| "wr_call_exec mem ahs Call_send qp = ibv_wr_send qp"
| "wr_call_exec mem ahs (Call_send_imm d) qp = ibv_wr_send_imm qp d"
| "wr_call_exec mem ahs (Call_rdma_read r a) qp = ibv_wr_rdma_read qp r a"
| "wr_call_exec mem ahs (Call_set_sge k a l) qp = ibv_wr_set_sge qp k a l"
| "wr_call_exec mem ahs (Call_set_sge_list n sgl) qp = ibv_wr_set_sge_list qp n sgl"
| "wr_call_exec mem ahs (Call_set_inline_data a l) qp = ibv_wr_set_inline_data mem qp a l"
| "wr_call_exec mem ahs (Call_set_inline_data_list n bs) qp = ibv_wr_set_inline_data_list mem qp n bs"
| "wr_call_exec mem ahs (Call_set_ud_addr ah q k) qp = ibv_wr_set_ud_addr ahs qp ah q k"

primrec wr_calls_exec :: "umem \<Rightarrow> ah_heap \<Rightarrow> wr_call list \<Rightarrow> efa_qp \<Rightarrow> efa_qp option" where
  "wr_calls_exec mem ahs [] qp = Some qp"
| "wr_calls_exec mem ahs (c # cs) qp =
     do { qp \<leftarrow> wr_call_exec mem ahs c qp; wr_calls_exec mem ahs cs qp }"

lemma wr_calls_exec_append:
  "wr_calls_exec mem ahs (cs @ ds) qp = Option.bind (wr_calls_exec mem ahs cs qp) (wr_calls_exec mem ahs ds)"
proof (induction cs arbitrary: qp)
  case (Cons c cs)
  then show ?case by (cases "wr_call_exec mem ahs c qp") simp_all
qed simp

text \<open>
  What a session keeps, relative to the queue \<open>wq0\<close> it started with: the counters have moved by
  the number of pending entries, and only tags of identifiers free in \<open>wq0\<close> were written.
\<close>

definition session_inv :: "efa_wq \<Rightarrow> efa_sq \<Rightarrow> bool" where
  "session_inv wq0 sq \<longleftrightarrow>
     (let wq = sq_wq sq; p = num_wqe_pending sq in
      (\<exists>ids ids0. wrid wq = Live ids \<and> wrid wq0 = Live ids0 \<and> length ids = length ids0 \<and>
         (\<forall>i \<in> wq_outstanding wq0. ids ! i = ids0 ! i)) \<and>
      unat (wrid_idx_pool_next wq) = unat (wrid_idx_pool_next wq0) + unat p \<and>
      unat (wrid_idx_pool_next wq) \<le> unat (wqe_cnt wq0) \<and>
      phase_rb sq = wq_phase wq0 \<and>
      wqe_posted wq = wqe_posted wq0 + p \<and> wq_pc wq = wq_pc wq0 + ucast p \<and>
      wqlock wq = pthread_spin_lock (wqlock wq0) \<and>
      wrid_idx_pool wq = wrid_idx_pool wq0 \<and> wqe_cnt wq = wqe_cnt wq0 \<and>
      wqe_completed wq = wqe_completed wq0 \<and> desc_mask wq = desc_mask wq0 \<and>
      wq_max_sge wq = wq_max_sge wq0 \<and> wq_db wq = wq_db wq0 \<and>
      wq_sub_cq_idx wq = wq_sub_cq_idx wq0)"

text \<open>Writing an entry of the local queue does not concern the work queue.\<close>

lemma with_curr_wqe_frame:
  assumes "with_curr_wqe qp f = Some qp'"
  shows "sq_wq (qp_sq qp') = sq_wq (qp_sq qp) \<and> num_wqe_pending (qp_sq qp') = num_wqe_pending (qp_sq qp) \<and>
    phase_rb (qp_sq qp') = phase_rb (qp_sq qp) \<and> verbs_qp qp' = verbs_qp qp \<and>
    wr_session_err qp' = wr_session_err qp"
  using assms by (auto simp: with_curr_wqe_def bind_eq_Some_conv)

lemma session_inv_frame:
  assumes "session_inv wq0 sq" and "sq_wq sq' = sq_wq sq" and "num_wqe_pending sq' = num_wqe_pending sq"
    and "phase_rb sq' = phase_rb sq"
  shows "session_inv wq0 sq'"
  using assms by (simp add: session_inv_def)

lemma session_inv_with_curr:
  "with_curr_wqe qp f = Some qp' \<Longrightarrow> session_inv wq0 (qp_sq qp) \<Longrightarrow> session_inv wq0 (qp_sq qp')"
  by (meson session_inv_frame with_curr_wqe_frame)

lemma ucast_u16_Suc: "ucast (p + 1 :: u32) = (ucast p + 1 :: u16)"
  by (simp add: word_unat_eq_iff unat_ucast_mod unat_word_ariths mod_simps mod_mod_cancel)

lemma wq_advance_sub_cq: "wq_sub_cq_idx (wq_advance wq) = wq_sub_cq_idx wq"
  by (simp add: wq_advance_def Let_def)

lemma session_inv_advance:
  assumes inv: "session_inv wq0 sq" and wq0: "wq_inv wq0"
    and g: "efa_wq_get_next_wrid_idx_locked (sq_wq sq) tag = Some (i, wq)"
  shows "session_inv wq0 ((efa_sq_advance_post_idx (sq\<lparr>sq_wq := wq\<rparr>))
    \<lparr>num_wqe_pending := num_wqe_pending sq + 1\<rparr>)"
proof -
  let ?wq = "sq_wq sq" and ?p = "num_wqe_pending sq"
  obtain ids ids0 where ids: "wrid ?wq = Live ids" "wrid wq0 = Live ids0" "length ids = length ids0"
      "\<forall>i \<in> wq_outstanding wq0. ids ! i = ids0 ! i"
    and next1: "unat (wrid_idx_pool_next ?wq) = unat (wrid_idx_pool_next wq0) + unat ?p"
      "phase_rb sq = wq_phase wq0"
    and f: "wrid_idx_pool ?wq = wrid_idx_pool wq0" "wqe_cnt ?wq = wqe_cnt wq0"
      "wqe_posted ?wq = wqe_posted wq0 + ?p" "wqe_completed ?wq = wqe_completed wq0"
      "wq_pc ?wq = wq_pc wq0 + ucast ?p" "desc_mask ?wq = desc_mask wq0" "wq_max_sge ?wq = wq_max_sge wq0"
      "wqlock ?wq = pthread_spin_lock (wqlock wq0)" "wq_db ?wq = wq_db wq0"
      "wq_sub_cq_idx ?wq = wq_sub_cq_idx wq0"
    using inv unfolding session_inv_def Let_def by blast
  obtain p where p: "wrid_idx_pool wq0 = Live p" "length p = unat (wqe_cnt wq0)"
    "unat (wqe_cnt wq0) < 2 ^ 16"
    using wq0 by (auto simp: wq_inv_def)
  have i: "unat (wrid_idx_pool_next ?wq) < length p" "i = p ! unat (wrid_idx_pool_next ?wq)"
    "wq = ?wq\<lparr>wrid := Live (ids[unat i := tag]), wrid_idx_pool_next := wrid_idx_pool_next ?wq + 1\<rparr>"
    using g p(1) ids(1)
    by (auto simp: efa_wq_get_next_wrid_idx_locked_def Let_def bind_eq_Some_conv f arr_get_eq_Some
        arr_set_eq_Some)
  have n: "unat (wrid_idx_pool_next ?wq + 1) = unat (wrid_idx_pool_next ?wq) + 1"
    using i(1) p(2,3) by (simp add: unat_u16_Suc)
  have pn: "unat (?p + 1) = unat ?p + 1"
    using next1(1) i(1) p(2,3) by (simp add: unat_add_lem [THEN iffD1])
  have "drop (unat (wrid_idx_pool_next wq0)) p ! unat ?p \<in> set (drop (unat (wrid_idx_pool_next wq0)) p)"
    using i(1) next1(1) by (intro nth_mem) simp
  then have "unat i \<in> set (wq_free wq0)"
    using i(1,2) next1(1) by (simp add: wq_free_def p(1))
  then have "unat i \<notin> wq_outstanding wq0" by (simp add: wq_outstanding_def)
  then have ids': "\<forall>j \<in> wq_outstanding wq0. ids[unat i := tag] ! j = ids0 ! j"
    using ids(4) by (metis nth_list_update_neq)
  show ?thesis
    using ids ids' next1 n pn i(1) p(2) f
    by (simp add: session_inv_def Let_def efa_sq_advance_post_idx_def i(3) wq_advance_sub_cq ucast_u16_Suc)
qed

lemma common_inv:
  assumes "efa_send_wr_common qp op = Some (e, qp')" and "session_inv wq0 (qp_sq qp)" and "wq_inv wq0"
  shows "session_inv wq0 (qp_sq qp')"
proof (cases "wr_session_err qp = 0 \<and> efa_post_send_validate qp (qpx_wr_flags (verbs_qp qp)) = 0")
  case False
  then show ?thesis using assms by (auto simp: efa_send_wr_common_def Let_def split: if_splits)
next
  case True
  let ?q0 = "qp\<lparr>qp_sq := (qp_sq qp)\<lparr>curr_tx_wqe := Some (unat (num_wqe_pending (qp_sq qp)))\<rparr>\<rparr>"
  obtain q1 q2 q3 i wq f where q: "with_curr_wqe ?q0 (\<lambda>_. Some zero_tx_wqe) = Some q1"
    "with_curr_wqe q1 f = Some q2"
    "efa_wq_get_next_wrid_idx_locked (sq_wq (qp_sq q2)) (qpx_wr_id (verbs_qp q2)) = Some (i, wq)"
    "with_curr_wqe (q2\<lparr>qp_sq := (qp_sq q2)\<lparr>sq_wq := wq\<rparr>\<rparr>)
       (\<lambda>w. Some (w\<lparr>wqe_meta := (wqe_meta w)\<lparr>txm_req_id := ucast i\<rparr>\<rparr>)) = Some q3"
    "qp' = q3\<lparr>qp_sq := (efa_sq_advance_post_idx (qp_sq q3))
       \<lparr>num_wqe_pending := num_wqe_pending (efa_sq_advance_post_idx (qp_sq q3)) + 1\<rparr>\<rparr>"
    using assms(1) True by (auto simp: efa_send_wr_common_def Let_def bind_eq_Some_conv)
  have "session_inv wq0 (qp_sq ?q0)" by (rule session_inv_frame [OF assms(2)]) simp_all
  then have "session_inv wq0 (qp_sq q2)" using q(1,2) session_inv_with_curr by blast
  note adv = session_inv_advance [OF this assms(3) q(3)]
  show ?thesis
    by (rule session_inv_frame [OF adv])
      (use with_curr_wqe_frame [OF q(4)] in \<open>simp_all add: q(5) efa_sq_advance_post_idx_def\<close>)
qed

lemma wr_call_inv:
  assumes "wr_call_exec mem ahs c qp = Some qp'" and "session_inv wq0 (qp_sq qp)" and "wq_inv wq0"
  shows "session_inv wq0 (qp_sq qp')"
proof (cases c)
  case (Set_wr_id i)
  then show ?thesis using assms by auto
qed (use assms in \<open>auto simp: ibv_wr_send_def ibv_wr_send_imm_def ibv_wr_rdma_read_def ibv_wr_set_sge_def
   ibv_wr_set_sge_list_def ibv_wr_set_inline_data_def ibv_wr_set_inline_data_list_def ibv_wr_set_ud_addr_def
   efa_send_wr_send_def efa_send_wr_send_imm_def efa_send_wr_rdma_read_def efa_send_wr_set_sge_def
   efa_send_wr_set_sge_list_def efa_send_wr_set_inline_data_def efa_send_wr_set_inline_data_list_def
   efa_send_wr_set_addr_def bind_eq_Some_conv split: if_splits
   dest: common_inv session_inv_with_curr\<close>)

lemma wr_calls_inv:
  "wr_calls_exec mem ahs cs qp = Some qp' \<Longrightarrow> session_inv wq0 (qp_sq qp) \<Longrightarrow> wq_inv wq0 \<Longrightarrow>
    session_inv wq0 (qp_sq qp')"
  by (induction cs arbitrary: qp) (auto simp: bind_eq_Some_conv dest: wr_call_inv)

lemma start_inv:
  assumes "efa_send_wr_start qp tr = (qp', tr')" and "wq_inv (sq_wq (qp_sq qp))"
  shows "session_inv (sq_wq (qp_sq qp)) (qp_sq qp')"
proof -
  have "qp_sq qp' = (lk (pthread_spin_lock (wqlock (sq_wq (qp_sq qp)))) (qp_sq qp))
      \<lparr>num_wqe_pending := 0, phase_rb := wq_phase (sq_wq (qp_sq qp))\<rparr>"
    using assms(1) by (auto simp: efa_send_wr_start_def mmio_wc_spinlock_def set_sq_lock_lk Let_def lk_def)
  then show ?thesis
    using assms(2) by (auto simp: session_inv_def lk_def wq_inv_def)
qed

section \<open>Rolling back\<close>

lemma roll_back_restores:
  assumes inv: "session_inv wq0 sq" and wq0: "wq_inv wq0"
  obtains ids where
    "sq_wq (efa_sq_roll_back sq) = wq0\<lparr>wrid := Live ids, wqlock := pthread_spin_lock (wqlock wq0)\<rparr>"
    "wq_tags (wq0\<lparr>wrid := Live ids\<rparr>) = wq_tags wq0" "wq_inv (wq0\<lparr>wrid := Live ids\<rparr>)"
proof -
  let ?wq = "sq_wq sq" and ?p = "num_wqe_pending sq"
  obtain ids ids0 where ids: "wrid ?wq = Live ids" "wrid wq0 = Live ids0" "length ids = length ids0"
      "\<forall>i \<in> wq_outstanding wq0. ids ! i = ids0 ! i"
    and next1: "unat (wrid_idx_pool_next ?wq) = unat (wrid_idx_pool_next wq0) + unat ?p"
      "unat (wrid_idx_pool_next ?wq) \<le> unat (wqe_cnt wq0)" "phase_rb sq = wq_phase wq0"
    and f: "wrid_idx_pool ?wq = wrid_idx_pool wq0" "wqe_cnt ?wq = wqe_cnt wq0"
      "wqe_posted ?wq = wqe_posted wq0 + ?p" "wqe_completed ?wq = wqe_completed wq0"
      "wq_pc ?wq = wq_pc wq0 + ucast ?p" "desc_mask ?wq = desc_mask wq0" "wq_max_sge ?wq = wq_max_sge wq0"
      "wqlock ?wq = pthread_spin_lock (wqlock wq0)" "wq_db ?wq = wq_db wq0"
      "wq_sub_cq_idx ?wq = wq_sub_cq_idx wq0"
    using inv unfolding session_inv_def Let_def by blast
  have "unat (wqe_cnt wq0) < 2 ^ 16" using wq0 by (simp add: wq_inv_def)
  then have "wrid_idx_pool_next ?wq = wrid_idx_pool_next wq0 + ucast ?p"
    using next1(1,2) by (simp add: word_unat_eq_iff unat_word_ariths unat_ucast_mod)
  then have "sq_wq (efa_sq_roll_back sq) = wq0\<lparr>wrid := Live ids, wqlock := pthread_spin_lock (wqlock wq0)\<rparr>"
    unfolding efa_sq_roll_back_def Let_def
    by (intro efa_wq.equality) (simp_all add: f ids(1) next1(3))
  moreover have out: "wq_outstanding (wq0\<lparr>wrid := Live ids\<rparr>) = wq_outstanding wq0"
    "wq_free (wq0\<lparr>wrid := Live ids\<rparr>) = wq_free wq0"
    by (simp_all add: wq_outstanding_def wq_free_def)
  moreover have "wq_tags (wq0\<lparr>wrid := Live ids\<rparr>) = wq_tags wq0"
    using ids by (simp add: fun_eq_iff wq_tags_def out)
  moreover have "wq_inv (wq0\<lparr>wrid := Live ids\<rparr>)"
    using wq0 ids(2,3) by (auto simp: wq_inv_def out)
  ultimately show ?thesis using that by blast
qed

text \<open>
  C18: an abandoned session leaves nothing behind. Whatever calls an application makes between
  \<open>ibv_wr_start\<close> and \<open>ibv_wr_abort\<close>, the abort returns, the work queue is the one the session
  started with (counters, phase, free identifiers and lock), every outstanding request still has
  its tag, and a session that recorded an error ends the same way when it is completed: the error
  is returned and the device is told nothing.
\<close>

theorem session_rolls_back:
  assumes "wq_inv (sq_wq (qp_sq qp))" and "efa_send_wr_start qp tr = (qp1, tr1)"
    and "wr_calls_exec mem ahs calls qp1 = Some qp2"
  shows "\<exists>qp3 ids. efa_send_wr_abort qp2 = Some qp3 \<and>
    sq_wq (qp_sq qp3) = (sq_wq (qp_sq qp))\<lparr>wrid := Live ids\<rparr> \<and>
    wq_tags (sq_wq (qp_sq qp3)) = wq_tags (sq_wq (qp_sq qp)) \<and> wq_inv (sq_wq (qp_sq qp3)) \<and>
    tr1 = tr @ [Fence] \<and>
    (wr_session_err qp2 \<noteq> 0 \<longrightarrow>
       efa_send_wr_complete qp2 tr1 = Some (wr_session_err qp2, qp3, tr1))"
proof -
  let ?wq0 = "sq_wq (qp_sq qp)"
  have tr1: "tr1 = tr @ [Fence]"
    using assms(2) by (auto simp: efa_send_wr_start_def mmio_wc_spinlock_def mmio_wc_start_def
        mmio_flush_writes_def Let_def)
  have "session_inv ?wq0 (qp_sq qp2)"
    by (rule wr_calls_inv [OF assms(3) start_inv [OF assms(2,1)] assms(1)])
  from roll_back_restores [OF this assms(1)] obtain ids where rb:
    "sq_wq (efa_sq_roll_back (qp_sq qp2)) = ?wq0\<lparr>wrid := Live ids, wqlock := pthread_spin_lock (wqlock ?wq0)\<rparr>"
    "wq_tags (?wq0\<lparr>wrid := Live ids\<rparr>) = wq_tags ?wq0" "wq_inv (?wq0\<lparr>wrid := Live ids\<rparr>)" by blast
  let ?qp3 = "set_sq_lock (qp2\<lparr>qp_sq := efa_sq_roll_back (qp_sq qp2)\<rparr>) (wqlock ?wq0)"
  have wq3: "sq_wq (qp_sq ?qp3) = ?wq0\<lparr>wrid := Live ids\<rparr>"
    by (simp add: set_sq_lock_lk lk_def rb(1))
  have abort: "efa_send_wr_abort qp2 = Some ?qp3"
    by (simp add: efa_send_wr_abort_def rb(1) Let_def)
  have "efa_send_wr_complete qp2 tr1 = Some (wr_session_err qp2, ?qp3, tr1)" if "wr_session_err qp2 \<noteq> 0"
    using that by (simp add: efa_send_wr_complete_def rb(1) Let_def)
  then show ?thesis
    using abort wq3 rb(2,3) tr1 by (intro exI [of _ ?qp3] exI [of _ ids]) simp
qed

text \<open>A session of two sends, the second with a missing scatter list entry count, then an error.\<close>

definition ex_session :: "wr_call list" where
  "ex_session = [Set_wr_id 5, Set_wr_flags 2, Call_send, Call_set_sge 0 0x1000 7,
     Call_set_ud_addr (Some 9) 11 13, Set_wr_id 6, Call_send, Call_set_inline_data 0 64]"

definition ex_session_qp :: efa_qp where
  "ex_session_qp = ex_send_qp\<lparr>verbs_qp := efa_qp_fill_wr_pfns (verbs_qp ex_send_qp) 0x1C\<rparr>"

theorem session_rolls_back_witness:
  "\<exists>qp1 tr1 qp2 qp3. efa_send_wr_start ex_session_qp [] = (qp1, tr1) \<and>
     wr_calls_exec (\<lambda>_. 0) ex_ahs ex_session qp1 = Some qp2 \<and>
     efa_send_wr_complete qp2 tr1 = Some (EINVAL, qp3, [Fence]) \<and>
     wq_tags (sq_wq (qp_sq qp3)) = wq_tags (sq_wq (qp_sq ex_session_qp))"
proof -
  obtain qp1 tr1 where st: "efa_send_wr_start ex_session_qp [] = (qp1, tr1)" by fastforce
  have "map_option wr_session_err (wr_calls_exec (\<lambda>_. 0) ex_ahs ex_session
      (fst (efa_send_wr_start ex_session_qp []))) = Some EINVAL"
    by code_simp
  then obtain qp2 where run: "wr_calls_exec (\<lambda>_. 0) ex_ahs ex_session qp1 = Some qp2"
    "wr_session_err qp2 = EINVAL" by (auto simp: st)
  have "sq_wq (qp_sq ex_session_qp) = wq_example\<lparr>wq_db := 0x8000\<rparr>"
    by (simp add: ex_session_qp_def ex_send_qp_def)
  then have "wq_inv (sq_wq (qp_sq ex_session_qp)) = wq_inv wq_example"
    using wq_view_cong(4) [of "wq_example\<lparr>wq_db := 0x8000\<rparr>" wq_example] by simp
  then show ?thesis
    using session_rolls_back [OF _ st run(1)] run st wq_example_inv by auto
qed

end
