(* ===== verification/Efa_Equiv.thy ===== *)
theory Efa_Equiv
  imports Efa_Abort Efa_Capacity
begin

text \<open>
  The two interfaces of the send path agree: a session that says, call by call, what a list of
  requests says has the same effect on the device and on the queue as \<open>efa_post_send\<close>.
\<close>

section \<open>One request as session calls\<close>

definition data_buf_of :: "ibv_sge \<Rightarrow> ibv_data_buf" where
  "data_buf_of sge = \<lparr>db_addr = sge_addr sge, db_length = ucast (sge_length sge)\<rparr>"

definition session_of :: "ibv_send_wr \<Rightarrow> wr_call list" where
  "session_of wr =
     [Set_wr_id (sw_wr_id wr), Set_wr_flags (sw_send_flags wr),
      if sw_opcode wr = IBV_WR_SEND_WITH_IMM then Call_send_imm (sw_imm_data wr) else Call_send,
      if wr_inline wr
      then Call_set_inline_data_list (size_of_int (sw_num_sge wr)) (map data_buf_of (sw_sg_list wr))
      else Call_set_sge_list (size_of_int (sw_num_sge wr)) (sw_sg_list wr),
      Call_set_ud_addr (sw_ud_ah wr) (sw_ud_remote_qpn wr) (sw_ud_remote_qkey wr)]"

text \<open>A function table with the plain send operations, as \<open>efa_qp_fill_wr_pfns\<close> fills it.\<close>

definition send_pfns :: "verbs_qp \<Rightarrow> bool" where
  "send_pfns v \<longleftrightarrow> wr_send v = Some Fn_send_wr_send \<and> wr_send_imm v = Some Fn_send_wr_send_imm \<and>
     wr_set_sge_list v = Some Fn_send_wr_set_sge_list \<and>
     wr_set_inline_data_list v = Some Fn_send_wr_set_inline_data_list \<and>
     wr_set_ud_addr v = Some Fn_send_wr_set_addr"

lemma fill_send_pfns:
  "f AND IBV_QP_EX_WITH_SEND \<noteq> 0 \<Longrightarrow> f AND IBV_QP_EX_WITH_SEND_WITH_IMM \<noteq> 0 \<Longrightarrow>
    send_pfns (efa_qp_fill_wr_pfns v f)"
  by (simp add: send_pfns_def efa_qp_fill_wr_pfns_def Let_def)

text \<open>The current entry of a session.\<close>

definition at_curr :: "efa_qp \<Rightarrow> efa_io_tx_wqe list \<Rightarrow> nat \<Rightarrow> bool" where
  "at_curr qp q i \<longleftrightarrow> curr_tx_wqe (qp_sq qp) = Some i \<and> local_queue (qp_sq qp) = Live q \<and> i < length q"

definition put_curr :: "efa_qp \<Rightarrow> efa_io_tx_wqe list \<Rightarrow> nat \<Rightarrow> efa_io_tx_wqe \<Rightarrow> efa_qp" where
  "put_curr qp q i w = qp\<lparr>qp_sq := (qp_sq qp)\<lparr>local_queue := Live (q[i := w])\<rparr>\<rparr>"

lemma with_curr:
  "at_curr qp q i \<Longrightarrow> with_curr_wqe qp f = map_option (put_curr qp q i) (f (q ! i))"
  by (cases "f (q ! i)") (simp_all add: at_curr_def with_curr_wqe_def put_curr_def)

lemma at_put_curr [simp]: "at_curr qp q i \<Longrightarrow> at_curr (put_curr qp q i w) (q[i := w]) i"
  by (simp add: at_curr_def put_curr_def)

lemma put_put_curr [simp]: "put_curr (put_curr qp q i w) (q[i := w]) i w' = put_curr qp q i w'"
  by (simp add: put_curr_def)

lemma put_curr_simps [simp]:
  "wr_session_err (put_curr qp q i w) = wr_session_err qp" "verbs_qp (put_curr qp q i w) = verbs_qp qp"
  "sq_wq (qp_sq (put_curr qp q i w)) = sq_wq (qp_sq qp)"
  "max_inline_data (qp_sq (put_curr qp q i w)) = max_inline_data (qp_sq qp)"
  by (simp_all add: put_curr_def)

text \<open>An entry under construction.\<close>

definition entry :: "u32 \<Rightarrow> u8 \<Rightarrow> i32 \<Rightarrow> u16 \<Rightarrow> u32 \<Rightarrow> u8 list \<Rightarrow> efa_io_tx_wqe" where
  "entry idx c1 phase len imm d =
     \<lparr>wqe_meta = zero_tx_meta_desc\<lparr>txm_req_id := ucast idx, txm_ctrl1 := c1,
        txm_ctrl2 := send_ctrl2 phase, txm_length := len, txm_immediate_data := imm\<rparr>, wqe_data = d\<rparr>"

lemma ctrl1_steps:
  "EFA_SET (send_ctrl1 False False) EFA_IO_TX_META_DESC_HAS_IMM_MASK 1 = send_ctrl1 False True"
  "EFA_SET (send_ctrl1 False imm) EFA_IO_TX_META_DESC_INLINE_MSG_MASK 1 = send_ctrl1 True imm"
  by (simp only: send_ctrl1_values, code_simp)
    (cases imm; simp only: send_ctrl1_values; code_simp)

text \<open>Opening an entry.\<close>

definition open_entry :: "efa_qp \<Rightarrow> efa_io_tx_wqe list \<Rightarrow> efa_wq \<Rightarrow> efa_io_tx_wqe \<Rightarrow> efa_qp" where
  "open_entry qp q wq w = qp\<lparr>qp_sq := (qp_sq qp)\<lparr>curr_tx_wqe := Some (unat (num_wqe_pending (qp_sq qp))),
     local_queue := Live (q[unat (num_wqe_pending (qp_sq qp)) := w]), sq_wq := wq_advance wq,
     num_wqe_pending := num_wqe_pending (qp_sq qp) + 1\<rparr>\<rparr>"

lemma common_opens:
  assumes "wr_session_err qp = 0" and "efa_post_send_validate qp (qpx_wr_flags (verbs_qp qp)) = 0"
    and "local_queue (qp_sq qp) = Live q" and "unat (num_wqe_pending (qp_sq qp)) < length q"
    and "efa_wq_get_next_wrid_idx_locked (sq_wq (qp_sq qp)) (qpx_wr_id (verbs_qp qp)) = Some (i, wq)"
  shows "efa_send_wr_common qp EFA_IO_SEND =
    Some (0, open_entry qp q wq (entry i (send_ctrl1 False False) (wq_phase (sq_wq (qp_sq qp))) 0 0 (replicate 32 0)))"
  using assms
  by (simp add: efa_send_wr_common_def with_curr_wqe_def Let_def efa_sq_advance_post_idx_def open_entry_def
      entry_def zero_tx_wqe_def zero_tx_meta_desc_def efa_set_common_ctrl_flags_def
      send_ctrl1_def send_ctrl2_def)

lemma open_entry_simps [simp]:
  "wr_session_err (open_entry qp q wq w) = wr_session_err qp" "verbs_qp (open_entry qp q wq w) = verbs_qp qp"
  "max_inline_data (qp_sq (open_entry qp q wq w)) = max_inline_data (qp_sq qp)"
  "wq_max_sge (sq_wq (qp_sq (open_entry qp q wq w))) = wq_max_sge wq"
  by (simp_all add: open_entry_def wq_advance_def Let_def)

lemma at_open_entry:
  "unat (num_wqe_pending (qp_sq qp)) < length q \<Longrightarrow>
    at_curr (open_entry qp q wq w) (q[unat (num_wqe_pending (qp_sq qp)) := w]) (unat (num_wqe_pending (qp_sq qp)))"
  by (simp add: at_curr_def open_entry_def)

lemma put_open_entry [simp]:
  "put_curr (open_entry qp q wq w) (q[unat (num_wqe_pending (qp_sq qp)) := w])
     (unat (num_wqe_pending (qp_sq qp))) w' = open_entry qp q wq w'"
  by (simp add: put_curr_def open_entry_def)

text \<open>Filling it in: the immediate data, the payload, the destination.\<close>

lemma send_opens:
  assumes "wr_session_err qp = 0" and "efa_post_send_validate qp (qpx_wr_flags (verbs_qp qp)) = 0"
    and "local_queue (qp_sq qp) = Live q" and "unat (num_wqe_pending (qp_sq qp)) < length q"
    and "efa_wq_get_next_wrid_idx_locked (sq_wq (qp_sq qp)) (qpx_wr_id (verbs_qp qp)) = Some (i, wq)"
    and "send_pfns (verbs_qp qp)"
  shows "wr_call_exec mem ahs (if imm then Call_send_imm d else Call_send) qp =
    Some (open_entry qp q wq (entry i (send_ctrl1 False imm) (wq_phase (sq_wq (qp_sq qp))) 0
      (if imm then be32toh d else 0) (replicate 32 0)))"
proof -
  note c = common_opens [OF assms(1-5)]
  show ?thesis
    using assms(6) with_curr [OF at_open_entry [OF assms(4)]] assms(4)
    by (simp add: ibv_wr_send_def ibv_wr_send_imm_def send_pfns_def efa_send_wr_send_def
        efa_send_wr_send_imm_def c) (simp add: entry_def zero_tx_meta_desc_def ctrl1_steps)
qed

lemma size_of_int_inverse:
  "ucast (size_of_int n) = (n :: i32)" "(ucast (size_of_int n) :: u16) = ucast n"
  unfolding size_of_int_def by (rule bit_word_eqI, auto simp: bit_simps)+

lemma ucast_up_down: "ucast (ucast x :: u64) = (x :: u32)"
  by (rule bit_word_eqI) (auto simp: bit_simps)

lemma payload_fills:
  assumes "payload_ok wr" and "wr_session_err qp = 0" and "send_pfns (verbs_qp qp)"
    and "at_curr qp q p" and "q ! p = entry i (send_ctrl1 False imm) phase 0 im (replicate 32 0)"
    and "if wr_inline wr then sgl_total (wr_sgl wr) \<le> unat (max_inline_data (qp_sq qp))
         else sint (sw_num_sge wr) \<le> sint (wq_max_sge (sq_wq (qp_sq qp)))"
  shows "wr_call_exec mem ahs
     (if wr_inline wr
      then Call_set_inline_data_list (size_of_int (sw_num_sge wr)) (map data_buf_of (sw_sg_list wr))
      else Call_set_sge_list (size_of_int (sw_num_sge wr)) (sw_sg_list wr)) qp =
    Some (put_curr qp q p (entry i (send_ctrl1 (wr_inline wr) imm) phase (payload_length wr) im
      (payload_bytes mem wr)))"
proof (cases "wr_inline wr")
  case True
  let ?n = "unat (sw_num_sge wr)" and ?xs = "sw_sg_list wr" and ?bs = "map data_buf_of (sw_sg_list wr)"
  have n: "unat (size_of_int (sw_num_sge wr)) = ?n" "?n \<le> length ?xs" "sgl_total (wr_sgl wr) \<le> 32"
    using assms(1) True by (auto simp: payload_ok_def unat_size_of_int EFA_IO_TX_DESC_INLINE_MAX_SIZE_def)
  have tot: "efa_buf_list_total_bytes ?bs (size_of_int (sw_num_sge wr)) = Some (of_nat (sgl_total (wr_sgl wr)))"
  proof -
    have "efa_buf_list_total_bytes ?bs (size_of_int (sw_num_sge wr)) =
        efa_sge_total_bytes ?xs (sw_num_sge wr)"
      unfolding efa_buf_list_total_bytes_def efa_sge_total_bytes_def n
      by (rule for_range_cong) (use n in \<open>simp add: data_buf_of_def\<close>)
    then show ?thesis
      using sge_total_bytes_spec [of "sw_num_sge wr" ?xs] assms(1) by (simp add: payload_ok_def wr_sgl_def)
  qed
  have fits: "\<not> of_nat (sgl_total (wr_sgl wr)) > max_inline_data (qp_sq qp)"
    using assms(6) True n(3) by (simp add: word_less_nat_alt unat_of_nat take_bit_nat_eq_self)
  have loop: "for_range 0 ?n (\<lambda>i (total_length :: u32, d). do {
        b \<leftarrow> arr_get ?bs i;
        let length = (ucast (db_length b) :: u32);
        d \<leftarrow> mem_store (unat total_length) (read_bytes mem (db_addr b) (unat length)) d;
        Some (total_length + length, d) }) (0, replicate 32 0) =
      Some (of_nat (sgl_total (wr_sgl wr)), payload_bytes mem wr)"
  proof -
    have "for_range 0 ?n (\<lambda>i (total_length :: u32, d). do {
        b \<leftarrow> arr_get ?bs i;
        let length = (ucast (db_length b) :: u32);
        d \<leftarrow> mem_store (unat total_length) (read_bytes mem (db_addr b) (unat length)) d;
        Some (total_length + length, d) }) (0, replicate 32 0) =
      for_range 0 ?n (\<lambda>i (total_length :: u32, d). do {
        x \<leftarrow> arr_get ?xs i;
        d \<leftarrow> mem_store (unat total_length) (read_bytes mem (sge_addr x) (unat (sge_length x))) d;
        Some (total_length + sge_length x, d) }) (0, replicate 32 0)"
      by (rule for_range_cong) (use n in \<open>simp add: data_buf_of_def Let_def ucast_up_down\<close>)
    also have "\<dots> = Some (of_nat (length (inline_bytes mem (wr_sgl wr))),
        inline_bytes mem (wr_sgl wr) @ replicate (32 - length (inline_bytes mem (wr_sgl wr))) 0)"
      unfolding inline_bytes_def wr_sgl_def
      by (rule inline_loop_spec) (use n in \<open>simp_all flip: inline_bytes_def wr_sgl_def\<close>)
    finally show ?thesis by (simp add: payload_bytes_def True Let_def)
  qed
  show ?thesis
    using assms(2,3) n tot fits loop True
    by (simp add: ibv_wr_set_inline_data_list_def send_pfns_def efa_send_wr_set_inline_data_list_def
        with_curr [OF assms(4)] assms(5) entry_def payload_length_def ctrl1_steps ucast_of_nat_u16
        zero_tx_meta_desc_def del: arr_get_in)
next
  case False
  have n: "0 \<le> sint (sw_num_sge wr)" "unat (sw_num_sge wr) \<le> length (sw_sg_list wr)"
    "unat (sw_num_sge wr) \<le> 2"
    using assms(1) False by (auto simp: payload_ok_def EFA_IO_TX_DESC_NUM_BUFS_def)
  have op: "curr_op_type qp = Some (ucast EFA_IO_SEND)"
    using assms(4) by (simp add: curr_op_type_def at_curr_def assms(5) entry_def send_ctrl_fields EFA_IO_SEND_def)
  have le: "\<not> size_of_int (sw_num_sge wr) > size_of_int (wq_max_sge (sq_wq (qp_sq qp)))"
  proof -
    have m: "sint (sw_num_sge wr) \<le> sint (wq_max_sge (sq_wq (qp_sq qp)))" using assms(6) False by simp
    then have m0: "0 \<le> sint (wq_max_sge (sq_wq (qp_sq qp)))" using n(1) by linarith
    have "uint (sw_num_sge wr) \<le> uint (wq_max_sge (sq_wq (qp_sq qp)))"
      using m by (simp only: sint_nonneg_uint [OF m0] sint_nonneg_uint [OF n(1)])
    then have "unat (sw_num_sge wr) \<le> unat (wq_max_sge (sq_wq (qp_sq qp)))"
      by (simp only: word_le_def [symmetric] word_le_nat_alt)
    then show ?thesis using m0 n(1) by (simp add: word_less_nat_alt unat_size_of_int)
  qed
  have sgl: "efa_post_send_sgl 0 (sw_sg_list wr) (sw_num_sge wr) (replicate 32 0) = Some (payload_bytes mem wr)"
    using post_send_sgl_spec [of "sw_num_sge wr" "sw_sg_list wr" "[]" 0 32] n False
    by (simp add: wr_sgl_def payload_bytes_def Let_def min_absorb2)
  show ?thesis
    using assms(2,3) op le sgl False
    by (simp add: ibv_wr_set_sge_list_def send_pfns_def efa_send_wr_set_sge_list_def size_of_int_inverse
        with_curr [OF assms(4)] assms(5) entry_def payload_length_def zero_tx_meta_desc_def)
qed

lemma address_fills:
  assumes "wr_session_err qp = 0" and "send_pfns (verbs_qp qp)" and "at_curr qp q p"
    and "q ! p = entry i c1 phase len im d" and "sw_ud_ah wr = Some a" and "ahs a = Some ah"
  shows "wr_call_exec mem ahs (Call_set_ud_addr (sw_ud_ah wr) (sw_ud_remote_qpn wr) (sw_ud_remote_qkey wr)) qp =
    Some (put_curr qp q p ((entry i c1 phase len im d)\<lparr>wqe_meta := (wqe_meta (entry i c1 phase len im d))
      \<lparr>txm_dest_qp_num := ucast (sw_ud_remote_qpn wr), txm_ah := ah_efa_ah ah,
       txm_qkey := sw_ud_remote_qkey wr\<rparr>\<rparr>))"
  using assms by (simp add: ibv_wr_set_ud_addr_def send_pfns_def efa_send_wr_set_addr_def with_curr)

text \<open>All five calls.\<close>

definition say :: "ibv_send_wr \<Rightarrow> efa_qp \<Rightarrow> efa_qp" where
  "say wr qp = qp\<lparr>verbs_qp := (verbs_qp qp)\<lparr>qpx_wr_id := sw_wr_id wr, qpx_wr_flags := sw_send_flags wr\<rparr>\<rparr>"

lemma say_simps [simp]:
  "wr_session_err (say wr qp) = wr_session_err qp" "qp_sq (say wr qp) = qp_sq qp"
  "sq_sig_all (say wr qp) = sq_sig_all qp" "qp_state (verbs_qp (say wr qp)) = qp_state (verbs_qp qp)"
  "qpx_wr_id (verbs_qp (say wr qp)) = sw_wr_id wr" "qpx_wr_flags (verbs_qp (say wr qp)) = sw_send_flags wr"
  "send_pfns (verbs_qp (say wr qp)) = send_pfns (verbs_qp qp)"
  by (simp_all add: say_def send_pfns_def)

lemma say_validate: "efa_post_send_validate (say wr qp) f = efa_post_send_validate qp f"
  by (simp add: efa_post_send_validate_def Let_def)

lemma valid_request:
  assumes "efa_post_send_validate_wr qp wr = Some 0" and "payload_ok wr"
  shows "efa_post_send_validate qp (sw_send_flags wr) = 0"
    and "if wr_inline wr then sgl_total (wr_sgl wr) \<le> unat (max_inline_data (qp_sq qp))
      else sint (sw_num_sge wr) \<le> sint (wq_max_sge (sq_wq (qp_sq qp)))"
proof -
  have n: "0 \<le> sint (sw_num_sge wr)" "unat (sw_num_sge wr) \<le> length (sw_sg_list wr)"
    using assms(2) by (simp_all add: payload_ok_def)
  have tot: "efa_sge_total_bytes (sw_sg_list wr) (sw_num_sge wr) = Some (of_nat (sgl_total (wr_sgl wr)))"
    using sge_total_bytes_spec [OF n] by (simp add: wr_sgl_def)
  have small: "sgl_total (wr_sgl wr) < 2 ^ 64" if "wr_inline wr"
    using assms(2) that by (auto simp: payload_ok_def EFA_IO_TX_DESC_INLINE_MAX_SIZE_def)
  show "efa_post_send_validate qp (sw_send_flags wr) = 0"
    using assms(1) by (auto simp: efa_post_send_validate_wr_def Let_def split: if_splits)
  show "if wr_inline wr then sgl_total (wr_sgl wr) \<le> unat (max_inline_data (qp_sq qp))
      else sint (sw_num_sge wr) \<le> sint (wq_max_sge (sq_wq (qp_sq qp)))"
    using assms(1) small
    by (auto simp: efa_post_send_validate_wr_def Let_def tot wr_inline_def word_less_nat_alt unat_of_nat
        take_bit_nat_eq_self split: if_splits)
qed

lemma session_of_exec:
  assumes "efa_post_send_validate_wr qp wr = Some 0" and "payload_ok wr"
    and "wr_session_err qp = 0" and "send_pfns (verbs_qp qp)"
    and "local_queue (qp_sq qp) = Live q" and "unat (num_wqe_pending (qp_sq qp)) < length q"
    and b: "build_send_wqe mem ahs (qp_sq qp) wr = Some (w, sq1)"
  shows "wr_calls_exec mem ahs (session_of wr) qp = Some (open_entry (say wr qp) q (sq_wq sq1) w)"
proof -
  obtain i wq where g: "efa_wq_get_next_wrid_idx_locked (sq_wq (qp_sq qp)) (sw_wr_id wr) = Some (i, wq)"
    "sq1 = (qp_sq qp)\<lparr>sq_wq := wq\<rparr>"
    by (rule build_send_wqe_sq [OF b])
  obtain a ah where ah: "sw_ud_ah wr = Some a" "ahs a = Some ah"
    using b by (auto simp: build_send_wqe_def send_wqe_address_def bind_eq_Some_conv)
  let ?p = "unat (num_wqe_pending (qp_sq qp))" and ?imm = "sw_opcode wr = IBV_WR_SEND_WITH_IMM"
  let ?ph = "wq_phase (sq_wq (qp_sq qp))" and ?im = "if ?imm then be32toh (sw_imm_data wr) else 0"
  have w: "w = send_entry mem wr ?ph i (ah_efa_ah ah)"
    using b g(1) build_send_wqe_spec [where ahs = ahs, OF assms(2) ah] by simp
  note v = valid_request [OF assms(1,2)]
  have max: "wq_max_sge wq = wq_max_sge (sq_wq (qp_sq qp))" by (rule get_wrid_frame [OF g(1)])
  let ?e0 = "entry i (send_ctrl1 False ?imm) ?ph 0 ?im (replicate 32 0)"
  let ?e1 = "entry i (send_ctrl1 (wr_inline wr) ?imm) ?ph (payload_length wr) ?im (payload_bytes mem wr)"
  let ?q0 = "open_entry (say wr qp) q wq ?e0" and ?q1 = "open_entry (say wr qp) q wq ?e1"
  have c1: "wr_call_exec mem ahs (if ?imm then Call_send_imm (sw_imm_data wr) else Call_send) (say wr qp) =
      Some ?q0"
    using send_opens [of "say wr qp" q i wq mem ahs ?imm "sw_imm_data wr"] assms(3-6) v(1) g(1)
    by (simp add: say_validate)
  have at: "at_curr (open_entry (say wr qp) q wq e) (q[?p := e]) ?p" for e
    using at_open_entry [of "say wr qp" q wq e] assms(6) by simp
  have put: "put_curr (open_entry (say wr qp) q wq e) (q[?p := e]) ?p e' = open_entry (say wr qp) q wq e'" for e e'
    using put_open_entry [of "say wr qp" q wq e e'] by simp
  have c2: "wr_call_exec mem ahs
      (if wr_inline wr
       then Call_set_inline_data_list (size_of_int (sw_num_sge wr)) (map data_buf_of (sw_sg_list wr))
       else Call_set_sge_list (size_of_int (sw_num_sge wr)) (sw_sg_list wr)) ?q0 = Some ?q1"
    by (subst payload_fills [OF assms(2) _ _ at]) (use assms(3,4,6) v(2) max put in simp_all)
  have c3: "wr_call_exec mem ahs
      (Call_set_ud_addr (sw_ud_ah wr) (sw_ud_remote_qpn wr) (sw_ud_remote_qkey wr)) ?q1 =
      Some (open_entry (say wr qp) q wq w)"
  proof -
    have e: "?e1\<lparr>wqe_meta := (wqe_meta ?e1)\<lparr>txm_dest_qp_num := ucast (sw_ud_remote_qpn wr),
        txm_ah := ah_efa_ah ah, txm_qkey := sw_ud_remote_qkey wr\<rparr>\<rparr> = w"
      unfolding w send_entry_def entry_def zero_tx_meta_desc_def by simp
    have "wr_call_exec mem ahs
      (Call_set_ud_addr (sw_ud_ah wr) (sw_ud_remote_qpn wr) (sw_ud_remote_qkey wr)) ?q1 =
      Some (put_curr ?q1 (q[?p := ?e1]) ?p (?e1\<lparr>wqe_meta := (wqe_meta ?e1)
        \<lparr>txm_dest_qp_num := ucast (sw_ud_remote_qpn wr), txm_ah := ah_efa_ah ah,
         txm_qkey := sw_ud_remote_qkey wr\<rparr>\<rparr>))"
      by (rule address_fills [where ahs = ahs, OF _ _ at _ ah]) (use assms(3,4,6) in simp_all)
    then show ?thesis by (simp only: e put)
  qed
  have "wr_calls_exec mem ahs (session_of wr) qp =
      wr_calls_exec mem ahs (drop 2 (session_of wr)) (say wr qp)"
    by (simp add: session_of_def say_def)
  also have "\<dots> = Some (open_entry (say wr qp) q wq w)"
    unfolding session_of_def using c1 c2 c3 by simp
  finally show ?thesis by (simp add: g(2))
qed

section \<open>A whole list\<close>

text \<open>
  The queue pair the session works on and the one the list is posted to, up to what the two
  interfaces keep for themselves.
\<close>

definition same_send_state :: "efa_qp \<Rightarrow> efa_qp \<Rightarrow> bool" where
  "same_send_state a b \<longleftrightarrow>
     qp_state (verbs_qp a) = qp_state (verbs_qp b) \<and> sq_sig_all a = sq_sig_all b \<and>
     sq_wq (qp_sq a) = sq_wq (qp_sq b) \<and> max_inline_data (qp_sq a) = max_inline_data (qp_sq b) \<and>
     sq_desc (qp_sq a) = sq_desc (qp_sq b) \<and> max_batch_wr (qp_sq a) = max_batch_wr (qp_sq b)"

lemma same_validate:
  "same_send_state a b \<Longrightarrow> efa_post_send_validate_wr a wr = efa_post_send_validate_wr b wr"
  by (simp add: same_send_state_def efa_post_send_validate_wr_def efa_post_send_validate_def Let_def)

lemma same_build:
  assumes "same_send_state a b" and "build_send_wqe mem ahs (qp_sq b) wr = Some (w, sq1)"
  obtains sq2 where "build_send_wqe mem ahs (qp_sq a) wr = Some (w, sq2)" "sq_wq sq2 = sq_wq sq1"
proof -
  have body: "send_wqe_body mem (qp_sq a) wr = send_wqe_body mem (qp_sq b) wr"
    using assms(1) by (simp add: same_send_state_def send_wqe_body_def efa_set_common_ctrl_flags_def)
  have "\<exists>sq2. build_send_wqe mem ahs (qp_sq a) wr = Some (w, sq2) \<and> sq_wq sq2 = sq_wq sq1"
    using assms by (auto simp: same_send_state_def build_send_wqe_def body bind_eq_Some_conv)
  then show ?thesis using that by blast
qed

lemma session_posts:
  assumes "post_send_loop mem ahs b cb tr wrs = Some (0, None, b', cb', tr')"
    and "\<forall>wr \<in> set wrs. payload_ok wr"
    and "same_send_state a b" and "wr_session_err a = 0" and "send_pfns (verbs_qp a)"
    and "local_queue (qp_sq a) = Live q" and "unat (num_wqe_pending (qp_sq a)) + length wrs \<le> length q"
    and "length q < 2 ^ 16" and "list_all wf_tx_wqe q"
  shows "\<exists>a' q' ws sq'. wr_calls_exec mem ahs (concat (map session_of wrs)) a = Some a' \<and>
    build_all mem ahs (qp_sq b) wrs = Some (ws, sq') \<and> same_send_state a' (b\<lparr>qp_sq := sq'\<rparr>) \<and>
    wr_session_err a' = 0 \<and> local_queue (qp_sq a') = Live q' \<and> length q' = length q \<and>
    list_all wf_tx_wqe q' \<and> num_wqe_pending (qp_sq a') = num_wqe_pending (qp_sq a) + of_nat (length wrs) \<and>
    take (unat (num_wqe_pending (qp_sq a)) + length wrs) q' = take (unat (num_wqe_pending (qp_sq a))) q @ ws"
  using assms
proof (induction wrs arbitrary: a b cb tr q)
  case Nil
  then show ?case by (cases b) auto
next
  case (Cons wr wrs)
  let ?n = "num_wqe_pending (qp_sq a)"
  obtain e where v: "efa_post_send_validate_wr b wr = Some e" "e = 0"
    using Cons.prems(1) by (auto simp: bind_eq_Some_conv split: if_splits)
  obtain w sq1 tr1 where bw: "build_send_wqe mem ahs (qp_sq b) wr = Some (w, sq1)"
    and m: "mmio_memcpy_x64 (sq_desc_addr (sq_desc sq1) (desc_mask (sq_wq sq1)) (wq_pc (sq_wq sq1)))
         (qwords_of (tx_wqe_bytes w)) 64 tr = Some tr1"
    using Cons.prems(1) v by (auto simp: bind_eq_Some_conv)
  let ?b = "b\<lparr>qp_sq := efa_sq_advance_post_idx sq1\<rparr>"
  obtain cb2 tr2 where loop: "post_send_loop mem ahs ?b cb2 tr2 wrs = Some (0, None, b', cb', tr')"
    using Cons.prems(1) v bw m by (auto simp: Let_def split: if_splits)
  obtain sq2 where aw: "build_send_wqe mem ahs (qp_sq a) wr = Some (w, sq2)" "sq_wq sq2 = sq_wq sq1"
    by (rule same_build [OF Cons.prems(3) bw])
  have va: "efa_post_send_validate_wr a wr = Some 0"
    using v same_validate [OF Cons.prems(3)] by simp
  have room: "unat ?n < length q" using Cons.prems(7) by simp
  have "payload_ok wr" using Cons.prems(2) by simp
  note call = session_of_exec [OF va this Cons.prems(4,5,6) room aw(1)]
  let ?a = "open_entry (say wr a) q (sq_wq sq2) w" and ?q = "q[unat ?n := w]"
  have n1: "unat (?n + 1) = unat ?n + 1"
    using room Cons.prems(8) by (simp add: unat_add_lem [THEN iffD1])
  have fr: "sq_frame (qp_sq b) (efa_sq_advance_post_idx sq1)" using build_send_wqe_frame [OF bw] by simp
  have "\<exists>a' q' ws sq'. wr_calls_exec mem ahs (concat (map session_of wrs)) ?a = Some a' \<and>
    build_all mem ahs (qp_sq ?b) wrs = Some (ws, sq') \<and> same_send_state a' (?b\<lparr>qp_sq := sq'\<rparr>) \<and>
    wr_session_err a' = 0 \<and> local_queue (qp_sq a') = Live q' \<and> length q' = length ?q \<and>
    list_all wf_tx_wqe q' \<and> num_wqe_pending (qp_sq a') = num_wqe_pending (qp_sq ?a) + of_nat (length wrs) \<and>
    take (unat (num_wqe_pending (qp_sq ?a)) + length wrs) q' = take (unat (num_wqe_pending (qp_sq ?a))) ?q @ ws"
  proof (rule Cons.IH [OF loop])
    show "same_send_state ?a ?b"
      using Cons.prems(3) fr aw(2)
      by (simp add: same_send_state_def open_entry_def say_def efa_sq_advance_post_idx_def sq_frame_def)
    show "list_all wf_tx_wqe ?q"
      using Cons.prems(9) build_send_wqe_wf [OF bw]
      by (auto simp: list_all_iff dest!: set_update_subset_insert [THEN subsetD])
    show "unat (num_wqe_pending (qp_sq ?a)) + length wrs \<le> length ?q"
      using Cons.prems(7) n1 by (simp add: open_entry_def)
  qed (use Cons.prems in \<open>simp_all add: open_entry_def\<close>)
  moreover have "num_wqe_pending (qp_sq ?a) = ?n + 1" by (simp add: open_entry_def)
  moreover have "take (unat ?n + 1) ?q = take (unat ?n) q @ [w]"
    using room by (simp add: take_Suc_conv_app_nth)
  ultimately show ?case
    using bw n1 call by (fastforce simp: wr_calls_exec_append add_ac)
qed

lemma build_all_frame:
  "build_all mem ahs sq wrs = Some (ws, sq') \<Longrightarrow> sq_frame sq sq'"
proof (induction wrs arbitrary: sq ws)
  case Nil
  then show ?case by simp
next
  case (Cons wr wrs)
  then obtain w sq1 where "build_send_wqe mem ahs sq wr = Some (w, sq1)"
    "sq_frame (efa_sq_advance_post_idx sq1) sq'"
    by (auto simp: bind_eq_Some_conv)
  then show ?case using build_send_wqe_frame sq_frame_trans by blast
qed

lemma build_all_pc:
  "build_all mem ahs sq wrs = Some (ws, sq') \<Longrightarrow> wq_pc (sq_wq sq') = wq_pc (sq_wq sq) + of_nat (length wrs)"
proof (induction wrs arbitrary: sq ws)
  case Nil
  then show ?case by simp
next
  case (Cons wr wrs)
  then obtain w sq1 where b: "build_send_wqe mem ahs sq wr = Some (w, sq1)"
    "wq_pc (sq_wq sq') = wq_pc (sq_wq (efa_sq_advance_post_idx sq1)) + of_nat (length wrs)"
    by (auto simp: bind_eq_Some_conv)
  then show ?case using build_send_wqe_frame [OF b(1)] by (simp add: efa_sq_advance_post_idx_def)
qed

lemma efa_post_send_loop:
  assumes "efa_post_send mem ahs qp wrs tr = Some (0, None, qp', tr')"
  defines "l \<equiv> pthread_spin_lock (wqlock (sq_wq (qp_sq qp)))"
  obtains qp1 cb tr1 where
    "post_send_loop mem ahs (qp\<lparr>qp_sq := lk l (qp_sq qp)\<rparr>) 0 (tr @ [Fence]) wrs = Some (0, None, qp1, cb, tr1)"
  using assms
  by (auto simp: efa_post_send_def mmio_wc_spinlock_def mmio_wc_start_def mmio_flush_writes_def Let_def
      bind_eq_Some_conv set_sq_lock_lk)

text \<open>
  C19: the session interface and the list interface are equivalent. When \<open>efa_post_send\<close>
  accepts a whole list of requests, a session that makes the corresponding calls for each of
  them runs without an error, and completing it sends the device exactly the same stores,
  fences and doorbells and leaves the work queue in exactly the same state, the lock included.
\<close>

theorem session_equals_post_send:
  assumes "efa_post_send mem ahs qp wrs tr = Some (0, None, qp', tr')"
    and "\<forall>wr \<in> set wrs. payload_ok wr"
    and "sq_geom k (qp_sq qp)" and "0 < max_batch_wr (qp_sq qp)" and "send_pfns (verbs_qp qp)"
    and "local_queue (qp_sq qp) = Live q" and "list_all wf_tx_wqe q"
    and "length wrs \<le> length q" and "length q < 2 ^ 16"
    and "efa_send_wr_start qp tr = (qp1, tr1)"
  shows "\<exists>qp2 qp3. wr_calls_exec mem ahs (concat (map session_of wrs)) qp1 = Some qp2 \<and>
    efa_send_wr_complete qp2 tr1 = Some (0, qp3, tr') \<and> sq_wq (qp_sq qp3) = sq_wq (qp_sq qp')"
proof -
  let ?sq = "qp_sq qp" and ?old = "wqlock (sq_wq (qp_sq qp))"
  let ?l = "pthread_spin_lock ?old" and ?n = "length wrs"
  let ?b = "qp\<lparr>qp_sq := lk ?l ?sq\<rparr>"
  obtain qpL cb trL where loop: "post_send_loop mem ahs ?b 0 (tr @ [Fence]) wrs = Some (0, None, qpL, cb, trL)"
    by (rule efa_post_send_loop [OF assms(1)])
  have st: "tr1 = tr @ [Fence]" "wr_session_err qp1 = 0" "verbs_qp qp1 = verbs_qp qp"
    "num_wqe_pending (qp_sq qp1) = 0" "local_queue (qp_sq qp1) = Live q" "same_send_state qp1 ?b"
    using assms(6,10)
    by (auto simp: efa_send_wr_start_def mmio_wc_spinlock_def mmio_wc_start_def mmio_flush_writes_def
        set_sq_lock_lk lk_def same_send_state_def Let_def)
  obtain qp2 q' ws sq' where S: "wr_calls_exec mem ahs (concat (map session_of wrs)) qp1 = Some qp2"
    "build_all mem ahs (lk ?l ?sq) wrs = Some (ws, sq')" "same_send_state qp2 (qp\<lparr>qp_sq := sq'\<rparr>)"
    "wr_session_err qp2 = 0" "local_queue (qp_sq qp2) = Live q'" "length q' = length q"
    "list_all wf_tx_wqe q'" "num_wqe_pending (qp_sq qp2) = of_nat ?n" "take ?n q' = ws"
    using session_posts [OF loop assms(2) st(6,2) _ st(5)] assms(5,7-9) st(3,4) by auto
  obtain good rest ws0 sq0 where P: "wrs = good @ rest" "rest = []"
    "build_all mem ahs ?sq good = Some (ws0, sq0)" "qp' = qp\<lparr>qp_sq := sq0\<rparr>" "wqlock (sq_wq sq0) = ?old"
    "tr' = tr @ [Fence] @ post_trace (sq_desc ?sq) (wq_db (sq_wq ?sq)) (desc_mask (sq_wq ?sq))
      (unat (max_batch_wr ?sq)) 0 (wq_pc (sq_wq ?sq)) ws0"
    using post_send_prefix [OF assms(1,4)] by auto
  have sq': "sq' = lk ?l sq0" "ws0 = ws" using S(2) P(1-3) by (simp_all add: build_all_lock)
  note fr = build_all_frame [OF P(3)]
  have eq: "sq_wq (qp_sq qp2) = (sq_wq sq0)\<lparr>wqlock := ?l\<rparr>" "sq_desc (qp_sq qp2) = sq_desc ?sq"
    "max_batch_wr (qp_sq qp2) = max_batch_wr ?sq"
    using S(3) fr by (simp_all add: same_send_state_def sq' lk_def sq_frame_def)
  have n: "unat (of_nat ?n :: u32) = ?n" "(ucast (of_nat ?n :: u32) :: u16) = of_nat ?n"
    using assms(8,9) by (simp_all add: unat_of_nat take_bit_nat_eq_self unsigned_of_nat)
  have ready: "session_ready k qp2"
    using S(4-7) assms(3,4,8,9) fr n(1)
    by (simp add: session_ready_def sq_geom_def eq S(8) sq_frame_def Let_def pthread_spin_lock_def)
  have pend: "pending_wqes (qp_sq qp2) = ws"
    using S(9) by (simp add: pending_wqes_def S(5,8) n(1))
  have pc: "wq_pc (sq_wq sq0) - ucast (num_wqe_pending (qp_sq qp2)) = wq_pc (sq_wq ?sq)"
    using build_all_pc [OF P(3)] n(2) P(1,2) by (simp add: eq S(8))
  have "efa_send_wr_complete qp2 tr1 = Some (0, qp2\<lparr>qp_sq := lk ?old ((qp_sq qp2)\<lparr>num_wqe_pending := 0\<rparr>)\<rparr>, tr')"
    using send_wr_complete_spec [OF ready, of tr1] fr assms(3)
    by (simp add: st(1) P(6) pend pc eq sq'(2) sq_frame_def sq_geom_def pthread_spin_lock_def)
  moreover have "(sq_wq sq0)\<lparr>wqlock := ?old\<rparr> = sq_wq sq0" by (intro efa_wq.equality) (simp_all add: P(5))
  ultimately show ?thesis
    using S(1)
    by (intro exI [of _ qp2] exI [of _ "qp2\<lparr>qp_sq := lk ?old ((qp_sq qp2)\<lparr>num_wqe_pending := 0\<rparr>)\<rparr>"])
      (simp add: P(4) lk_def eq)
qed

text \<open>Two sends on the example queue, posted in both ways.\<close>

theorem session_equals_post_send_witness:
  "\<exists>qp' tr' qp1 tr1 qp2 qp3.
     efa_post_send (\<lambda>_. 0) ex_ahs ex_session_qp [ex_wr, ex_wr] [] = Some (0, None, qp', tr') \<and>
     efa_send_wr_start ex_session_qp [] = (qp1, tr1) \<and>
     wr_calls_exec (\<lambda>_. 0) ex_ahs (session_of ex_wr @ session_of ex_wr) qp1 = Some qp2 \<and>
     efa_send_wr_complete qp2 tr1 = Some (0, qp3, tr')"
proof -
  have "map_option (\<lambda>(e, b, r). (e, map_option length b))
      (efa_post_send (\<lambda>_. 0) ex_ahs ex_session_qp [ex_wr, ex_wr] []) = Some (0, None)"
    by code_simp
  then obtain qp' tr' where run:
    "efa_post_send (\<lambda>_. 0) ex_ahs ex_session_qp [ex_wr, ex_wr] [] = Some (0, None, qp', tr')"
    by auto
  obtain qp1 tr1 where st: "efa_send_wr_start ex_session_qp [] = (qp1, tr1)" by fastforce
  have ok: "\<forall>wr \<in> set [ex_wr, ex_wr]. payload_ok wr" by code_simp
  have geom: "sq_geom 2 (qp_sq ex_session_qp)"
    by (simp add: sq_geom_def ex_session_qp_def ex_send_qp_def wq_example_def mask_eq_exp_minus_1)
  have f: "0 < max_batch_wr (qp_sq ex_session_qp)" "send_pfns (verbs_qp ex_session_qp)" by code_simp+
  have q: "local_queue (qp_sq ex_session_qp) = Live (replicate 4 zero_tx_wqe)"
    by (simp add: ex_session_qp_def ex_send_qp_def ex_sq_def)
  show ?thesis
    using session_equals_post_send [OF run ok geom f q _ _ _ st] run st by (auto simp: list_all_iff)
qed

end
