(* ===== verification/Efa_Rq.thy ===== *)
theory Efa_Rq
  imports Efa_Poster Efa_Mmio
begin

text \<open>
  Posting receives (\<open>efawin/verbs.c\<close>: \<open>efa_rq_ring_doorbell\<close>, \<open>efa_post_recv_validate\<close>,
  \<open>efa_post_recv\<close>). The receive ring is host memory: a \<open>memcpy\<close> of a 16-byte descriptor to the
  ring is the event \<open>Host_copy\<close>.
\<close>

section \<open>The operations\<close>

definition efa_rq_ring_doorbell :: "efa_rq \<Rightarrow> u16 \<Rightarrow> trace \<Rightarrow> trace" where
  "efa_rq_ring_doorbell rq pc tr = mmio_write32 (wq_db (rq_wq rq)) (ucast pc) (udma_to_device_barrier tr)"

definition efa_post_recv_validate :: "efa_qp \<Rightarrow> ibv_recv_wr \<Rightarrow> int" where
  "efa_post_recv_validate qp wr =
     (let wq = rq_wq (qp_rq qp) in
      if qp_state (verbs_qp qp) = IBV_QPS_RESET \<or> qp_state (verbs_qp qp) = IBV_QPS_ERR then EINVAL
      else if sint (rw_num_sge wr) > sint (wq_max_sge wq) then EINVAL
      else if wqe_posted wq - wqe_completed wq = wqe_cnt wq then ENOMEM
      else 0)"

text \<open>The address of the ring slot the producer counter stands on.\<close>

definition rq_desc_addr :: "u64 \<Rightarrow> u16 \<Rightarrow> u16 \<Rightarrow> u64" where
  "rq_desc_addr buf msk pc = (let rq_desc_offset = ucast (pc AND msk) * 16 :: u32
                               in buf + ucast rq_desc_offset)"

text \<open>
  One round of the inner loop: \<open>i\<close> is a \<open>size_t\<close>, \<open>num_sge - 1\<close> an \<open>int\<close> converted to one.
\<close>

definition post_recv_sge ::
  "ibv_recv_wr \<Rightarrow> u64 \<Rightarrow> nat \<Rightarrow> efa_io_rx_desc \<times> efa_wq \<times> trace \<Rightarrow> (efa_io_rx_desc \<times> efa_wq \<times> trace) option" where
  "post_recv_sge wr buf i = (\<lambda>(rx_buf, wq, tr). do {
     let rx_buf = (if of_nat i = size_of_int (rw_num_sge wr - 1)
                   then rx_buf\<lparr>rxd_lkey_ctrl := EFA_SET (rxd_lkey_ctrl rx_buf) EFA_IO_RX_DESC_LAST_MASK 1\<rparr>
                   else rx_buf);
     sge \<leftarrow> arr_get (rw_sg_list wr) i;
     let addr = sge_addr sge;
     let rx_buf = rx_buf\<lparr>rxd_length := ucast (sge_length sge)\<rparr>;
     let rx_buf = rx_buf\<lparr>rxd_lkey_ctrl := EFA_SET (rxd_lkey_ctrl rx_buf) EFA_IO_RX_DESC_LKEY_MASK (sge_lkey sge)\<rparr>;
     let rx_buf = rx_buf\<lparr>rxd_buf_addr_lo := ucast addr, rxd_buf_addr_hi := ucast (drop_bit 32 addr)\<rparr>;
     let tr = tr @ [Host_copy (rq_desc_addr buf (desc_mask wq) (wq_pc wq)) (rx_desc_bytes rx_buf)];
     let wq = wq\<lparr>wq_pc := wq_pc wq + 1\<rparr>;
     let wq = (if wq_pc wq AND desc_mask wq = 0 then wq\<lparr>wq_phase := wq_phase wq + 1\<rparr> else wq);
     Some (zero_rx_desc, wq, tr)
   })"

definition post_recv_wr ::
  "ibv_recv_wr \<Rightarrow> u64 \<Rightarrow> efa_wq \<Rightarrow> trace \<Rightarrow> (efa_wq \<times> trace) option" where
  "post_recv_wr wr buf wq tr =
     do {
       let rx_buf = zero_rx_desc;
       (wrid_idx, wq) \<leftarrow> efa_wq_get_next_wrid_idx_locked wq (rw_wr_id wr);
       let rx_buf = rx_buf\<lparr>rxd_req_id := ucast wrid_idx\<rparr>;
       let wq = wq\<lparr>wqe_posted := wqe_posted wq + 1\<rparr>;
       let rx_buf = rx_buf\<lparr>rxd_lkey_ctrl := EFA_SET (rxd_lkey_ctrl rx_buf) EFA_IO_RX_DESC_FIRST_MASK 1\<rparr>;
       let rx_buf = rx_buf\<lparr>rxd_lkey_ctrl := EFA_SET (rxd_lkey_ctrl rx_buf) EFA_IO_RX_DESC_LAST_MASK 0\<rparr>;
       (rx_buf, wq, tr) \<leftarrow> for_range 0 (unat (size_of_int (rw_num_sge wr))) (post_recv_sge wr buf) (rx_buf, wq, tr);
       Some (wq, tr)
     }"

definition set_rq_wq :: "efa_qp \<Rightarrow> efa_wq \<Rightarrow> efa_qp" where
  "set_rq_wq qp wq = qp\<lparr>qp_rq := (qp_rq qp)\<lparr>rq_wq := wq\<rparr>\<rparr>"

fun post_recv_loop ::
  "efa_qp \<Rightarrow> trace \<Rightarrow> ibv_recv_wr list \<Rightarrow> (int \<times> ibv_recv_wr list option \<times> efa_qp \<times> trace) option" where
  "post_recv_loop qp tr [] = Some (0, None, qp, tr)"
| "post_recv_loop qp tr (wr # wrs) =
     (let err = efa_post_recv_validate qp wr in
      if err \<noteq> 0 then Some (err, Some (wr # wrs), qp, tr)
      else
        do {
          (wq, tr) \<leftarrow> post_recv_wr wr (rq_buf (qp_rq qp)) (rq_wq (qp_rq qp)) tr;
          post_recv_loop (set_rq_wq qp wq) tr wrs
        })"

definition efa_post_recv ::
  "efa_qp \<Rightarrow> ibv_recv_wr list \<Rightarrow> trace \<Rightarrow> (int \<times> ibv_recv_wr list option \<times> efa_qp \<times> trace) option" where
  "efa_post_recv qp wrs tr =
     do {
       let wq = rq_wq (qp_rq qp);
       let qp = set_rq_wq qp (wq\<lparr>wqlock := pthread_spin_lock (wqlock wq)\<rparr>);
       (err, bad, qp, tr) \<leftarrow> post_recv_loop qp tr wrs;
       let wq = rq_wq (qp_rq qp);
       let tr = efa_rq_ring_doorbell (qp_rq qp) (wq_pc wq) tr;
       l \<leftarrow> pthread_spin_unlock (wqlock wq);
       Some (err, bad, set_rq_wq qp (wq\<lparr>wqlock := l\<rparr>), tr)
     }"

section \<open>The descriptors of one request\<close>

definition rx_ctrl :: "bool \<Rightarrow> bool \<Rightarrow> u32 \<Rightarrow> u32" where
  "rx_ctrl is_first is_last lkey =
     (let c = (if is_first then EFA_SET (EFA_SET 0 EFA_IO_RX_DESC_FIRST_MASK 1) EFA_IO_RX_DESC_LAST_MASK 0 else 0);
          c = (if is_last then EFA_SET c EFA_IO_RX_DESC_LAST_MASK 1 else c)
      in EFA_SET c EFA_IO_RX_DESC_LKEY_MASK lkey)"

definition recv_desc :: "u32 \<Rightarrow> ibv_recv_wr \<Rightarrow> nat \<Rightarrow> efa_io_rx_desc" where
  "recv_desc idx wr j =
     (let sge = rw_sg_list wr ! j in
      \<lparr>rxd_buf_addr_lo = ucast (sge_addr sge), rxd_buf_addr_hi = ucast (drop_bit 32 (sge_addr sge)),
       rxd_req_id = (if j = 0 then ucast idx else 0), rxd_length = ucast (sge_length sge),
       rxd_lkey_ctrl = rx_ctrl (j = 0) (Suc j = unat (rw_num_sge wr)) (sge_lkey sge)\<rparr>)"

definition recv_descs :: "u32 \<Rightarrow> ibv_recv_wr \<Rightarrow> efa_io_rx_desc list" where
  "recv_descs idx wr = map (recv_desc idx wr) [0..<unat (rw_num_sge wr)]"

text \<open>Descriptors at consecutive slots of the ring.\<close>

primrec recv_writes :: "u64 \<Rightarrow> u16 \<Rightarrow> u16 \<Rightarrow> efa_io_rx_desc list \<Rightarrow> trace" where
  "recv_writes buf msk pc [] = []"
| "recv_writes buf msk pc (d # ds) =
     Host_copy (rq_desc_addr buf msk pc) (rx_desc_bytes d) # recv_writes buf msk (pc + 1) ds"

definition rx_advance :: "efa_wq \<Rightarrow> efa_wq" where
  "rx_advance wq =
     (let wq = wq\<lparr>wq_pc := wq_pc wq + 1\<rparr>
      in if wq_pc wq AND desc_mask wq = 0 then wq\<lparr>wq_phase := wq_phase wq + 1\<rparr> else wq)"

text \<open>A request whose scatter list is as long as it says.\<close>

definition recv_wf :: "ibv_recv_wr \<Rightarrow> bool" where
  "recv_wf wr \<longleftrightarrow> 0 \<le> sint (rw_num_sge wr) \<and> unat (rw_num_sge wr) \<le> length (rw_sg_list wr)"

lemma rx_advance_fields [simp]:
  "wq_pc (rx_advance wq) = wq_pc wq + 1" "desc_mask (rx_advance wq) = desc_mask wq"
  "wq_db (rx_advance wq) = wq_db wq" "wqlock (rx_advance wq) = wqlock wq"
  "wq_max_sge (rx_advance wq) = wq_max_sge wq" "wqe_cnt (rx_advance wq) = wqe_cnt wq"
  "wqe_posted (rx_advance wq) = wqe_posted wq" "wqe_completed (rx_advance wq) = wqe_completed wq"
  "wrid (rx_advance wq) = wrid wq" "wrid_idx_pool (rx_advance wq) = wrid_idx_pool wq"
  "wrid_idx_pool_next (rx_advance wq) = wrid_idx_pool_next wq"
  by (simp_all add: rx_advance_def Let_def)

lemma rx_advance_pow [simp]:
  "wq_pc ((rx_advance ^^ n) wq) = wq_pc wq + of_nat n" "desc_mask ((rx_advance ^^ n) wq) = desc_mask wq"
  "wq_db ((rx_advance ^^ n) wq) = wq_db wq" "wqlock ((rx_advance ^^ n) wq) = wqlock wq"
  "wq_max_sge ((rx_advance ^^ n) wq) = wq_max_sge wq" "wqe_cnt ((rx_advance ^^ n) wq) = wqe_cnt wq"
  "wqe_posted ((rx_advance ^^ n) wq) = wqe_posted wq" "wqe_completed ((rx_advance ^^ n) wq) = wqe_completed wq"
  "wrid ((rx_advance ^^ n) wq) = wrid wq" "wrid_idx_pool ((rx_advance ^^ n) wq) = wrid_idx_pool wq"
  "wrid_idx_pool_next ((rx_advance ^^ n) wq) = wrid_idx_pool_next wq"
  by (induction n) (simp_all add: add.commute)

lemma recv_writes_append:
  "recv_writes buf msk pc (ds @ es) = recv_writes buf msk pc ds @ recv_writes buf msk (pc + of_nat (length ds)) es"
  by (induction ds arbitrary: pc) (simp_all add: add.assoc)

lemma num_sge_last:
  assumes "0 \<le> sint n" and "j < unat n"
  shows "of_nat j = size_of_int (n - 1) \<longleftrightarrow> Suc j = unat (n :: i32)"
proof -
  have "n \<noteq> 0" using assms(2) by auto
  then have m: "unat (n - 1) = unat n - 1" by (rule unat_minus_one)
  have "sint n < 2 ^ 31" using sint_lt [of n] by simp
  then have "uint n < 2 ^ 31" by (simp only: sint_nonneg_uint [OF assms(1)])
  then have "int (unat n) < int (2 ^ 31)" by simp
  then have "unat n < 2 ^ 31" by (simp only: of_nat_less_iff)
  then have lt: "unat (n - 1) < 2 ^ 31" by (simp add: m)
  then have "int (unat (n - 1)) < int (2 ^ 31)" by (simp only: of_nat_less_iff)
  then have "uint (n - 1) < 2 ^ 31" by simp
  moreover have "- (2 ^ 31) \<le> uint (n - 1)" by (rule order_trans [OF _ uint_ge_0]) simp
  ultimately have "signed_take_bit 31 (uint (n - 1)) = uint (n - 1)"
    by (intro signed_take_bit_int_eq_self)
  then have "sint (n - 1) = uint (n - 1)" by (simp add: sint_uint)
  then have u: "unat (size_of_int (n - 1)) = unat n - 1" by (simp add: unat_size_of_int m)
  have "unat (of_nat j :: u64) = j"
    using assms(2) lt m by (simp add: unat_of_nat take_bit_nat_eq_self)
  then show ?thesis using assms(2) by (auto simp: word_unat_eq_iff u)
qed

lemma post_recv_sge_step:
  assumes "recv_wf wr" and "j < unat (rw_num_sge wr)"
    and "rx = (if j = 0 then zero_rx_desc\<lparr>rxd_req_id := ucast idx, rxd_lkey_ctrl :=
        EFA_SET (EFA_SET 0 EFA_IO_RX_DESC_FIRST_MASK 1) EFA_IO_RX_DESC_LAST_MASK 0\<rparr> else zero_rx_desc)"
  shows "post_recv_sge wr buf j (rx, wq, tr) =
    Some (zero_rx_desc, rx_advance wq,
      tr @ [Host_copy (rq_desc_addr buf (desc_mask wq) (wq_pc wq)) (rx_desc_bytes (recv_desc idx wr j))])"
proof -
  have "j < length (rw_sg_list wr)" using assms(1,2) by (simp add: recv_wf_def)
  then show ?thesis
    using assms num_sge_last [of "rw_num_sge wr" j]
    by (simp add: post_recv_sge_def Let_def recv_wf_def recv_desc_def rx_ctrl_def rx_advance_def zero_rx_desc_def)
qed

text \<open>A whole request: one descriptor per scatter-gather element, and the identifier with the first.\<close>

lemma post_recv_wr_spec:
  assumes "recv_wf wr"
  shows "post_recv_wr wr buf wq tr =
    map_option (\<lambda>(i, wq1). ((rx_advance ^^ unat (rw_num_sge wr)) (wq1\<lparr>wqe_posted := wqe_posted wq1 + 1\<rparr>),
        tr @ recv_writes buf (desc_mask wq) (wq_pc wq) (recv_descs i wr)))
      (efa_wq_get_next_wrid_idx_locked wq (rw_wr_id wr))"
proof (cases "efa_wq_get_next_wrid_idx_locked wq (rw_wr_id wr)")
  case None
  then show ?thesis by (simp add: post_recv_wr_def Let_def)
next
  case (Some x)
  obtain i wq1 where x: "x = (i, wq1)" by (cases x)
  note fr = get_wrid_frame [OF Some [unfolded x]]
  let ?n = "unat (rw_num_sge wr)" and ?wq = "wq1\<lparr>wqe_posted := wqe_posted wq1 + 1\<rparr>"
  let ?rx = "zero_rx_desc\<lparr>rxd_req_id := ucast i, rxd_lkey_ctrl :=
        EFA_SET (EFA_SET 0 EFA_IO_RX_DESC_FIRST_MASK 1) EFA_IO_RX_DESC_LAST_MASK 0\<rparr>"
  let ?st = "\<lambda>j. (if j = 0 then ?rx else zero_rx_desc, (rx_advance ^^ j) ?wq,
      tr @ recv_writes buf (desc_mask wq) (wq_pc wq) (map (recv_desc i wr) [0..<j]))"
  have step: "post_recv_sge wr buf j (?st j) = Some (?st (Suc j))" if "j < ?n" for j
    using post_recv_sge_step [OF assms that refl, where idx = i and buf = buf and wq = "(rx_advance ^^ j) ?wq"] fr
    by (simp add: recv_writes_append)
  have "\<exists>t. for_range 0 ?n (post_recv_sge wr buf) (?st 0) = Some t \<and> t = ?st (0 + ?n)"
    by (rule for_range_rule) (use step in auto)
  then have "for_range 0 ?n (post_recv_sge wr buf) (?rx, ?wq, tr) =
      Some (if ?n = 0 then ?rx else zero_rx_desc, (rx_advance ^^ ?n) ?wq,
        tr @ recv_writes buf (desc_mask wq) (wq_pc wq) (recv_descs i wr))"
    by (simp add: recv_descs_def)
  moreover have "unat (size_of_int (rw_num_sge wr)) = ?n"
    using assms by (simp add: recv_wf_def unat_size_of_int)
  ultimately show ?thesis
    by (simp add: post_recv_wr_def Let_def Some x zero_rx_desc_def)
qed

lemma length_recv_descs [simp]: "length (recv_descs i wr) = unat (rw_num_sge wr)"
  by (simp add: recv_descs_def)

text \<open>Posting without the ring: the descriptors of a list and the queue afterwards.\<close>

definition rq_step :: "efa_wq \<Rightarrow> ibv_recv_wr \<Rightarrow> ((u32 \<times> efa_io_rx_desc list) \<times> efa_wq) option" where
  "rq_step wq wr =
     do {
       (i, wq1) \<leftarrow> efa_wq_get_next_wrid_idx_locked wq (rw_wr_id wr);
       Some ((i, recv_descs i wr), (rx_advance ^^ unat (rw_num_sge wr)) (wq1\<lparr>wqe_posted := wqe_posted wq1 + 1\<rparr>))
     }"

definition all_descs :: "(u32 \<times> efa_io_rx_desc list) list \<Rightarrow> efa_io_rx_desc list" where
  "all_descs ws = concat (map snd ws)"

lemma set_rq_wq_simps [simp]:
  "rq_wq (qp_rq (set_rq_wq qp wq)) = wq" "rq_buf (qp_rq (set_rq_wq qp wq)) = rq_buf (qp_rq qp)"
  "verbs_qp (set_rq_wq qp wq) = verbs_qp qp" "set_rq_wq (set_rq_wq qp wq) wq' = set_rq_wq qp wq'"
  "set_rq_wq qp (rq_wq (qp_rq qp)) = qp"
  by (simp_all add: set_rq_wq_def)

lemma post_recv_loop_prefix:
  assumes "post_recv_loop qp tr wrs = Some (err, bad, qp', tr')" and "\<forall>wr \<in> set wrs. recv_wf wr"
  shows "\<exists>good rest ws wq'. wrs = good @ rest \<and>
    post_all rq_step (rq_wq (qp_rq qp)) good = Some (ws, wq') \<and> qp' = set_rq_wq qp wq' \<and>
    wqlock wq' = wqlock (rq_wq (qp_rq qp)) \<and> wq_db wq' = wq_db (rq_wq (qp_rq qp)) \<and>
    wq_pc wq' = wq_pc (rq_wq (qp_rq qp)) + of_nat (length (all_descs ws)) \<and>
    (if err = 0 then rest = [] \<and> bad = None
     else rest \<noteq> [] \<and> bad = Some rest \<and> efa_post_recv_validate qp' (hd rest) = err) \<and>
    tr' = tr @ recv_writes (rq_buf (qp_rq qp)) (desc_mask (rq_wq (qp_rq qp))) (wq_pc (rq_wq (qp_rq qp)))
      (all_descs ws)"
  using assms
proof (induction wrs arbitrary: qp tr)
  case Nil
  then show ?case by (auto simp: all_descs_def)
next
  case (Cons wr wrs)
  let ?wq = "rq_wq (qp_rq qp)"
  show ?case
  proof (cases "efa_post_recv_validate qp wr = 0")
    case False
    then show ?thesis
      using Cons.prems(1)
      by - (rule exI [of _ "[]"], rule exI [of _ "wr # wrs"], rule exI [of _ "[]"], rule exI [of _ ?wq],
          auto simp: all_descs_def Let_def)
  next
    case True
    have wf: "recv_wf wr" using Cons.prems(2) by simp
    obtain i wq1 where g: "efa_wq_get_next_wrid_idx_locked ?wq (rw_wr_id wr) = Some (i, wq1)"
      using Cons.prems(1) True by (auto simp: Let_def post_recv_wr_spec [OF wf] bind_eq_Some_conv)
    note fr = get_wrid_frame [OF g]
    let ?wq2 = "(rx_advance ^^ unat (rw_num_sge wr)) (wq1\<lparr>wqe_posted := wqe_posted wq1 + 1\<rparr>)"
    let ?tr2 = "tr @ recv_writes (rq_buf (qp_rq qp)) (desc_mask ?wq) (wq_pc ?wq) (recv_descs i wr)"
    have s: "rq_step ?wq wr = Some ((i, recv_descs i wr), ?wq2)" by (simp add: rq_step_def g)
    have "post_recv_loop (set_rq_wq qp ?wq2) ?tr2 wrs = Some (err, bad, qp', tr')"
      using Cons.prems(1) True by (simp add: Let_def post_recv_wr_spec [OF wf] g)
    from Cons.IH [OF this] Cons.prems(2) obtain good rest ws wq' where IH: "wrs = good @ rest"
      "post_all rq_step ?wq2 good = Some (ws, wq')" "qp' = set_rq_wq qp wq'"
      "wqlock wq' = wqlock ?wq2" "wq_db wq' = wq_db ?wq2"
      "wq_pc wq' = wq_pc ?wq2 + of_nat (length (all_descs ws))"
      "if err = 0 then rest = [] \<and> bad = None
       else rest \<noteq> [] \<and> bad = Some rest \<and> efa_post_recv_validate qp' (hd rest) = err"
      "tr' = ?tr2 @ recv_writes (rq_buf (qp_rq qp)) (desc_mask ?wq2) (wq_pc ?wq2) (all_descs ws)"
      by auto
    have d: "all_descs ((i, recv_descs i wr) # ws) = recv_descs i wr @ all_descs ws"
      by (simp add: all_descs_def)
    show ?thesis
      by (rule exI [of _ "wr # good"], rule exI [of _ rest], rule exI [of _ "(i, recv_descs i wr) # ws"],
          rule exI [of _ wq'])
        (use IH s fr in \<open>simp add: d recv_writes_append add.assoc\<close>)
  qed
qed

lemma rx_ctrl_fields:
  "EFA_GET (rx_ctrl f l k) EFA_IO_RX_DESC_FIRST_MASK = of_bool f"
  "EFA_GET (rx_ctrl f l k) EFA_IO_RX_DESC_LAST_MASK = of_bool l"
  "EFA_GET (rx_ctrl f l k) EFA_IO_RX_DESC_LKEY_MASK = ucast (take_bit 24 k)"
proof -
  have z: "EFA_GET (0 :: u32) m = 0" for m by (simp add: EFA_GET_def FIELD_GET_def)
  show "EFA_GET (rx_ctrl f l k) EFA_IO_RX_DESC_FIRST_MASK = of_bool f"
    "EFA_GET (rx_ctrl f l k) EFA_IO_RX_DESC_LAST_MASK = of_bool l"
    "EFA_GET (rx_ctrl f l k) EFA_IO_RX_DESC_LKEY_MASK = ucast (take_bit 24 k)"
    by (simp_all add: rx_ctrl_def lkey_ctrl_fields Let_def z)
qed

lemma rx_advance_lock:
  "(rx_advance ^^ n) (wq\<lparr>wqlock := l\<rparr>) = ((rx_advance ^^ n) wq)\<lparr>wqlock := l\<rparr>"
proof (induction n)
  case (Suc n)
  have "rx_advance (w\<lparr>wqlock := l\<rparr>) = (rx_advance w)\<lparr>wqlock := l\<rparr>" for w :: efa_wq
    by (simp add: rx_advance_def Let_def)
  then show ?case by (simp add: Suc.IH)
qed simp

lemma rq_step_lock:
  "rq_step (wq\<lparr>wqlock := l\<rparr>) wr = map_option (\<lambda>(w, wq). (w, wq\<lparr>wqlock := l\<rparr>)) (rq_step wq wr)"
proof (cases "efa_wq_get_next_wrid_idx_locked wq (rw_wr_id wr)")
  case None
  then show ?thesis by (simp add: rq_step_def get_wrid_lock)
next
  case (Some x)
  obtain i wq1 where x: "x = (i, wq1)" by (cases x)
  have eq: "wq1\<lparr>wqlock := l, wqe_posted := wqe_posted wq1 + 1\<rparr> = (wq1\<lparr>wqe_posted := wqe_posted wq1 + 1\<rparr>)\<lparr>wqlock := l\<rparr>"
    by simp
  show ?thesis
    by (simp add: rq_step_def get_wrid_lock Some x) (simp only: eq rx_advance_lock)
qed

lemma post_all_rq_lock:
  "post_all rq_step (wq\<lparr>wqlock := l\<rparr>) wrs =
    map_option (\<lambda>(ws, wq). (ws, wq\<lparr>wqlock := l\<rparr>)) (post_all rq_step wq wrs)"
proof (induction wrs arbitrary: wq)
  case Nil
  then show ?case by simp
next
  case (Cons wr wrs)
  show ?case
  proof (cases "rq_step wq wr")
    case None
    then show ?thesis by (simp add: rq_step_lock)
  next
    case (Some x)
    obtain w wq1 where x: "x = (w, wq1)" by (cases x)
    show ?thesis
      using Some x by (cases "post_all rq_step wq1 wrs") (auto simp: rq_step_lock Cons.IH)
  qed
qed

text \<open>
  C20: the descriptors of one receive. A request of \<open>n\<close> scatter-gather elements becomes \<open>n\<close>
  descriptors at consecutive slots of the receive ring: the first, and only the first, carries
  the identifier that was taken and the FIRST flag, the last one and only it the LAST flag, and
  descriptor \<open>j\<close> the address, the low 16 bits of the length and the low 24 bits of the key of
  element \<open>j\<close>.
\<close>

theorem post_recv_wr_descriptors:
  assumes "recv_wf wr" and "efa_wq_get_next_wrid_idx_locked wq (rw_wr_id wr) = Some (i, wq1)"
  shows "\<exists>wq' ds. post_recv_wr wr buf wq tr = Some (wq', tr @ recv_writes buf (desc_mask wq) (wq_pc wq) ds) \<and>
    length ds = unat (rw_num_sge wr) \<and> wq_pc wq' = wq_pc wq + ucast (rw_num_sge wr) \<and>
    wqe_posted wq' = wqe_posted wq + 1 \<and>
    (\<forall>j < length ds. let d = ds ! j; sge = rw_sg_list wr ! j in
       rxd_req_id d = (if j = 0 then ucast i else 0) \<and>
       EFA_GET (rxd_lkey_ctrl d) EFA_IO_RX_DESC_FIRST_MASK = of_bool (j = 0) \<and>
       EFA_GET (rxd_lkey_ctrl d) EFA_IO_RX_DESC_LAST_MASK = of_bool (Suc j = length ds) \<and>
       EFA_GET (rxd_lkey_ctrl d) EFA_IO_RX_DESC_LKEY_MASK = ucast (take_bit 24 (sge_lkey sge)) \<and>
       rxd_length d = ucast (sge_length sge) \<and> rxd_buf_addr_lo d = ucast (sge_addr sge) \<and>
       rxd_buf_addr_hi d = ucast (drop_bit 32 (sge_addr sge)))"
proof -
  let ?wq' = "(rx_advance ^^ unat (rw_num_sge wr)) (wq1\<lparr>wqe_posted := wqe_posted wq1 + 1\<rparr>)"
  have run: "post_recv_wr wr buf wq tr =
      Some (?wq', tr @ recv_writes buf (desc_mask wq) (wq_pc wq) (recv_descs i wr))"
    by (simp add: post_recv_wr_spec [OF assms(1)] assms(2))
  show ?thesis
    by (rule exI [of _ ?wq'], rule exI [of _ "recv_descs i wr"], rule conjI [OF run])
      (use get_wrid_frame [OF assms(2)] in
        \<open>simp add: recv_descs_def recv_desc_def Let_def rx_ctrl_fields\<close>)
qed

text \<open>
  C21: \<open>efa_post_recv\<close> posts a prefix of the list. The requests before \<open>*bad\<close> are in the ring, in
  order; nothing is there for \<open>*bad\<close> and the ones behind it, whose error is returned; then a
  barrier and one doorbell with the slot behind the last descriptor, also after an error; and
  the lock is back where it was.
\<close>

theorem efa_post_recv_posts_prefix:
  assumes "efa_post_recv qp wrs tr = Some (err, bad, qp', tr')" and "\<forall>wr \<in> set wrs. recv_wf wr"
  shows "\<exists>good rest ws wq'. wrs = good @ rest \<and>
    post_all rq_step (rq_wq (qp_rq qp)) good = Some (ws, wq') \<and> qp' = set_rq_wq qp wq' \<and>
    (if err = 0 then rest = [] \<and> bad = None
     else rest \<noteq> [] \<and> bad = Some rest \<and> efa_post_recv_validate qp' (hd rest) = err) \<and>
    tr' = tr @ recv_writes (rq_buf (qp_rq qp)) (desc_mask (rq_wq (qp_rq qp))) (wq_pc (rq_wq (qp_rq qp)))
        (all_descs ws) @
      [Fence, Wr32 (wq_db (rq_wq (qp_rq qp)))
        (ucast (wq_pc (rq_wq (qp_rq qp)) + of_nat (length (all_descs ws))))]"
proof -
  let ?wq = "rq_wq (qp_rq qp)"
  let ?l = "pthread_spin_lock (wqlock ?wq)"
  let ?qp = "set_rq_wq qp (?wq\<lparr>wqlock := ?l\<rparr>)"
  obtain qp1 tr1 l where loop: "post_recv_loop ?qp tr wrs = Some (err, bad, qp1, tr1)"
    and un: "pthread_spin_unlock (wqlock (rq_wq (qp_rq qp1))) = Some l"
      "qp' = set_rq_wq qp1 ((rq_wq (qp_rq qp1))\<lparr>wqlock := l\<rparr>)"
      "tr' = efa_rq_ring_doorbell (qp_rq qp1) (wq_pc (rq_wq (qp_rq qp1))) tr1"
    using assms(1) by (auto simp: efa_post_recv_def Let_def bind_eq_Some_conv)
  from post_recv_loop_prefix [OF loop assms(2)] obtain good rest ws wq1 where P: "wrs = good @ rest"
    "post_all rq_step (?wq\<lparr>wqlock := ?l\<rparr>) good = Some (ws, wq1)" "qp1 = set_rq_wq ?qp wq1"
    "wqlock wq1 = ?l" "wq_db wq1 = wq_db ?wq"
    "wq_pc wq1 = wq_pc ?wq + of_nat (length (all_descs ws))"
    "if err = 0 then rest = [] \<and> bad = None
     else rest \<noteq> [] \<and> bad = Some rest \<and> efa_post_recv_validate qp1 (hd rest) = err"
    "tr1 = tr @ recv_writes (rq_buf (qp_rq qp)) (desc_mask ?wq) (wq_pc ?wq) (all_descs ws)"
    by auto
  obtain wq0 where wq0: "post_all rq_step ?wq good = Some (ws, wq0)" "wq1 = wq0\<lparr>wqlock := ?l\<rparr>"
    using P(2) by (auto simp: post_all_rq_lock)
  have l: "l = wqlock ?wq" using un(1) by (simp add: P(3,4))
  have wq': "wq1\<lparr>wqlock := l\<rparr> = wq0\<lparr>wqlock := wqlock ?wq\<rparr>" by (simp add: wq0(2) l)
  have "wq0\<lparr>wqlock := wqlock ?wq\<rparr> = wq0"
    using post_all_rq_lock [where wq = ?wq and l = "wqlock ?wq" and wrs = good] wq0(1) by simp
  then have qp': "qp' = set_rq_wq qp wq0" using un(2) wq' by (simp add: P(3))
  have v: "efa_post_recv_validate qp1 wr = efa_post_recv_validate (set_rq_wq qp wq0) wr" for wr
    by (simp add: P(3) wq0(2) efa_post_recv_validate_def Let_def)
  have db: "wq_db (rq_wq (qp_rq qp1)) = wq_db ?wq" "wq_pc (rq_wq (qp_rq qp1)) =
      wq_pc ?wq + of_nat (length (all_descs ws))" by (simp_all add: P(3,5,6))
  show ?thesis
    by (rule exI [of _ good], rule exI [of _ rest], rule exI [of _ ws], rule exI [of _ wq0])
      (use P(1,7,8) wq0(1) qp' un(3) in \<open>auto simp: v efa_rq_ring_doorbell_def udma_to_device_barrier_def
         mmio_write32_def db\<close>)
qed

definition ex_recv_wr :: ibv_recv_wr where
  "ex_recv_wr = \<lparr>rw_wr_id = 31, rw_sg_list = [\<lparr>sge_addr = 0x100000002, sge_length = 0x10005, sge_lkey = 0x1000003\<rparr>,
     \<lparr>sge_addr = 7, sge_length = 9, sge_lkey = 3\<rparr>], rw_num_sge = 2\<rparr>"

definition zero_sge :: ibv_sge where
  "zero_sge = \<lparr>sge_addr = 0, sge_length = 0, sge_lkey = 0\<rparr>"

definition ex_recv_qp :: efa_qp where
  "ex_recv_qp = zero_qp\<lparr>verbs_qp := zero_verbs_qp\<lparr>qp_state := IBV_QPS_RTR\<rparr>,
     qp_rq := zero_rq\<lparr>rq_wq := wq_example\<lparr>wq_db := 0x8008\<rparr>, rq_buf := 0x6000\<rparr>\<rparr>"

theorem post_recv_wr_descriptors_witness:
  "\<exists>wq' d0 d1. post_recv_wr ex_recv_wr 0x6000 wq_example [] =
     Some (wq', [Host_copy 0x6000 (rx_desc_bytes d0), Host_copy 0x6010 (rx_desc_bytes d1)]) \<and>
     rxd_length d0 = 5 \<and> EFA_GET (rxd_lkey_ctrl d0) EFA_IO_RX_DESC_FIRST_MASK = 1 \<and>
     EFA_GET (rxd_lkey_ctrl d1) EFA_IO_RX_DESC_FIRST_MASK = 0 \<and>
     EFA_GET (rxd_lkey_ctrl d1) EFA_IO_RX_DESC_LAST_MASK = 1"
proof -
  have wf: "recv_wf ex_recv_wr" by code_simp
  have "efa_wq_get_next_wrid_idx_locked wq_example (rw_wr_id ex_recv_wr) \<noteq> None" by code_simp
  then obtain i wq1 where g: "efa_wq_get_next_wrid_idx_locked wq_example (rw_wr_id ex_recv_wr) = Some (i, wq1)"
    by auto
  have f: "desc_mask wq_example = 3" "wq_pc wq_example = 0" "unat (rw_num_sge ex_recv_wr) = 2"
    by (simp_all add: wq_example_def ex_recv_wr_def)
  obtain wq' ds where P: "post_recv_wr ex_recv_wr 0x6000 wq_example [] = Some (wq', [] @ recv_writes 0x6000 3 0 ds)"
    "length ds = 2"
    "\<forall>j < length ds. let d = ds ! j; sge = rw_sg_list ex_recv_wr ! j in
       rxd_req_id d = (if j = 0 then ucast i else 0) \<and>
       EFA_GET (rxd_lkey_ctrl d) EFA_IO_RX_DESC_FIRST_MASK = of_bool (j = 0) \<and>
       EFA_GET (rxd_lkey_ctrl d) EFA_IO_RX_DESC_LAST_MASK = of_bool (Suc j = length ds) \<and>
       EFA_GET (rxd_lkey_ctrl d) EFA_IO_RX_DESC_LKEY_MASK = ucast (take_bit 24 (sge_lkey sge)) \<and>
       rxd_length d = ucast (sge_length sge) \<and> rxd_buf_addr_lo d = ucast (sge_addr sge) \<and>
       rxd_buf_addr_hi d = ucast (drop_bit 32 (sge_addr sge))"
    using post_recv_wr_descriptors [OF wf g, of "0x6000" "[]"] unfolding f by auto
  obtain d0 d1 where ds: "ds = [d0, d1]" using P(2) by (auto simp: length_Suc_conv numeral_2_eq_2)
  have "recv_writes 0x6000 3 0 [d0, d1] =
      [Host_copy 0x6000 (rx_desc_bytes d0), Host_copy 0x6010 (rx_desc_bytes d1)]"
    by (simp add: rq_desc_addr_def)
  moreover have "rxd_length d0 = ucast (0x10005 :: u32)"
    "EFA_GET (rxd_lkey_ctrl d0) EFA_IO_RX_DESC_FIRST_MASK = 1"
    "EFA_GET (rxd_lkey_ctrl d1) EFA_IO_RX_DESC_FIRST_MASK = 0"
    "EFA_GET (rxd_lkey_ctrl d1) EFA_IO_RX_DESC_LAST_MASK = 1"
    using spec [OF P(3), of 0] spec [OF P(3), of 1] by (simp_all add: ds Let_def ex_recv_wr_def)
  moreover have "ucast (0x10005 :: u32) = (5 :: u16)" by simp
  ultimately show ?thesis
    using P(1) by (intro exI [of _ wq'] exI [of _ d0] exI [of _ d1]) (simp only: ds append_Nil simp_thms)
qed

theorem efa_post_recv_posts_prefix_witness:
  "\<exists>qp' tr' ws wq'. efa_post_recv ex_recv_qp [ex_recv_wr, ex_recv_wr\<lparr>rw_num_sge := 3, rw_sg_list := [zero_sge, zero_sge, zero_sge]\<rparr>] [] =
     Some (EINVAL, Some [ex_recv_wr\<lparr>rw_num_sge := 3, rw_sg_list := [zero_sge, zero_sge, zero_sge]\<rparr>], qp', tr') \<and>
     post_all rq_step (rq_wq (qp_rq ex_recv_qp)) [ex_recv_wr] = Some (ws, wq') \<and>
     qp' = set_rq_wq ex_recv_qp wq'"
proof -
  let ?wrs = "[ex_recv_wr, ex_recv_wr\<lparr>rw_num_sge := 3, rw_sg_list := [zero_sge, zero_sge, zero_sge]\<rparr>]"
  have "map_option (\<lambda>(e, b, r). (e, map_option length b)) (efa_post_recv ex_recv_qp ?wrs []) =
      Some (EINVAL, Some 1)"
    by code_simp
  then obtain bad qp' tr' where run: "efa_post_recv ex_recv_qp ?wrs [] = Some (EINVAL, Some bad, qp', tr')"
    "length bad = 1" by auto
  have wf: "\<forall>wr \<in> set ?wrs. recv_wf wr" by code_simp
  obtain good rest ws wq' where P: "?wrs = good @ rest" "bad = rest"
    "post_all rq_step (rq_wq (qp_rq ex_recv_qp)) good = Some (ws, wq')" "qp' = set_rq_wq ex_recv_qp wq'"
    using efa_post_recv_posts_prefix [OF run(1) wf] by auto
  have "length ?wrs = length good + length rest" by (simp only: P(1) length_append)
  then have "length good = 1" using P(2) run(2) by simp
  moreover have "good = take (length good) ?wrs" "rest = drop (length good) ?wrs"
    by (metis P(1) append_eq_conv_conj)+
  ultimately show ?thesis using run(1) P(2-4) by auto
qed

section \<open>How many receives fit\<close>

definition recv_good :: "efa_wq \<Rightarrow> ibv_recv_wr \<Rightarrow> bool" where
  "recv_good wq wr \<longleftrightarrow> recv_wf wr \<and> sint (rw_num_sge wr) \<le> sint (wq_max_sge wq)"

definition can_recv :: "efa_qp \<Rightarrow> bool" where
  "can_recv qp \<longleftrightarrow> qp_state (verbs_qp qp) \<noteq> IBV_QPS_RESET \<and> qp_state (verbs_qp qp) \<noteq> IBV_QPS_ERR"

lemma recv_one_ok:
  assumes "wq_ready wq" and "recv_good wq wr" and "0 < wq_room wq"
  shows "\<exists>w wq'. rq_step wq wr = Some (w, wq') \<and> wq_ready wq' \<and> wq_room wq' = wq_room wq - 1 \<and>
    wq_tags wq (unat (fst w)) = None \<and> wq_tags wq' = (wq_tags wq)(unat (fst w) \<mapsto> rw_wr_id wr)"
proof -
  let ?n = "unat (rw_num_sge wr)"
  obtain i wq1 where g: "efa_wq_get_next_wrid_idx_locked wq (rw_wr_id wr) = Some (i, wq1)"
    "wq_tags wq (unat i) = None"
    "wq_ready ((rx_advance ^^ ?n) (wq1\<lparr>wqe_posted := wqe_posted wq1 + 1\<rparr>)) \<and>
     wq_room ((rx_advance ^^ ?n) (wq1\<lparr>wqe_posted := wqe_posted wq1 + 1\<rparr>)) = wq_room wq - 1 \<and>
     wq_tags ((rx_advance ^^ ?n) (wq1\<lparr>wqe_posted := wqe_posted wq1 + 1\<rparr>)) = (wq_tags wq)(unat i \<mapsto> rw_wr_id wr)"
    by (rule wq_take [OF assms(1,3), of "rw_wr_id wr"]) simp
  then show ?thesis by (simp add: rq_step_def)
qed

interpretation rq_poster: poster rq_step wq_ready wq_room wq_tags recv_good rw_wr_id "\<lambda>w. unat (fst w)"
proof (unfold_locales, goal_cases)
  case (1 wq wr)
  then show ?case by (rule recv_one_ok)
next
  case (2 wq wr s w wq')
  then show ?case by (auto simp: rq_step_def bind_eq_Some_conv recv_good_def dest!: get_wrid_frame(5))
qed

lemma validate_recv_good:
  assumes "recv_good (rq_wq (qp_rq qp)) wr" and "can_recv qp" and "wq_ready (rq_wq (qp_rq qp))"
  shows "efa_post_recv_validate qp wr = (if wq_room (rq_wq (qp_rq qp)) = 0 then ENOMEM else 0)"
  using assms counts_full [OF assms(3)]
  by (simp add: efa_post_recv_validate_def Let_def recv_good_def can_recv_def)

text \<open>What the length of a list and the room of a queue say about the outcome.\<close>

lemma post_recv_loop_total:
  assumes "wq_ready (rq_wq (qp_rq qp))" and "can_recv qp" and "\<forall>wr \<in> set wrs. recv_good (rq_wq (qp_rq qp)) wr"
  shows "\<exists>qp' tr'. post_recv_loop qp tr wrs =
    Some (room_err (wq_room (rq_wq (qp_rq qp))) wrs, room_rest (wq_room (rq_wq (qp_rq qp))) wrs, qp', tr')"
  using assms
proof (induction wrs arbitrary: qp tr)
  case Nil
  then show ?case by (simp add: room_err_def room_rest_def)
next
  case (Cons wr wrs)
  let ?wq = "rq_wq (qp_rq qp)"
  have good: "recv_good ?wq wr" using Cons.prems(3) by simp
  note v = validate_recv_good [OF good Cons.prems(2,1)]
  show ?case
  proof (cases "wq_room ?wq = 0")
    case True
    then show ?thesis using v by (simp add: room_err_def room_rest_def)
  next
    case False
    obtain w wq2 where s: "rq_step ?wq wr = Some (w, wq2)" "wq_ready wq2" "wq_room wq2 = wq_room ?wq - 1"
      using recv_one_ok [OF Cons.prems(1) good] False by blast
    have wf: "recv_wf wr" using good by (simp add: recv_good_def)
    obtain tr2 where p: "post_recv_wr wr (rq_buf (qp_rq qp)) ?wq tr = Some (wq2, tr2)"
      using s(1) by (auto simp: rq_step_def post_recv_wr_spec [OF wf] bind_eq_Some_conv)
    have "\<forall>wr \<in> set wrs. recv_good wq2 wr"
      using Cons.prems(3) rq_poster.stays_good [OF _ s(1)] by auto
    then have "\<exists>qp' tr'. post_recv_loop (set_rq_wq qp wq2) tr2 wrs =
        Some (room_err (wq_room ?wq - 1) wrs, room_rest (wq_room ?wq - 1) wrs, qp', tr')"
      using Cons.IH [of "set_rq_wq qp wq2" tr2] s(2,3) Cons.prems(2) by (simp add: can_recv_def)
    then show ?thesis using v False p by (simp add: room_Cons del: One_nat_def)
  qed
qed

lemma efa_post_recv_total:
  assumes "wq_ready (rq_wq (qp_rq qp))" and "can_recv qp"
    and "\<forall>wr \<in> set wrs. recv_good (rq_wq (qp_rq qp)) wr"
  shows "\<exists>qp' tr'. efa_post_recv qp wrs tr =
    Some (room_err (wq_room (rq_wq (qp_rq qp))) wrs, room_rest (wq_room (rq_wq (qp_rq qp))) wrs, qp', tr')"
proof -
  let ?wq = "rq_wq (qp_rq qp)"
  let ?k = "wq_room ?wq" and ?l = "pthread_spin_lock (wqlock ?wq)"
  let ?wq1 = "?wq\<lparr>wqlock := ?l\<rparr>"
  let ?qp = "set_rq_wq qp ?wq1"
  have good: "\<forall>wr \<in> set wrs. recv_good ?wq1 wr" using assms(3) by (simp add: recv_good_def)
  have can: "can_recv ?qp" using assms(2) by (simp add: can_recv_def)
  obtain qp1 tr1 where loop: "post_recv_loop ?qp tr wrs =
      Some (room_err ?k wrs, room_rest ?k wrs, qp1, tr1)"
    using post_recv_loop_total [of ?qp wrs tr] assms(1) good can by auto
  have wf: "\<forall>wr \<in> set wrs. recv_wf wr" using assms(3) by (simp add: recv_good_def)
  from post_recv_loop_prefix [OF loop wf] obtain wq2 where "qp1 = set_rq_wq ?qp wq2" "wqlock wq2 = ?l"
    unfolding set_rq_wq_simps(1) by auto
  then show ?thesis using loop by (simp add: efa_post_recv_def Let_def)
qed

text \<open>
  C22: the capacity of a receive queue. On a well-formed queue with room for \<open>k\<close> more receives,
  in any state but RESET and ERR, \<open>efa_post_recv\<close> returns for every list of well-formed
  receives with at most \<open>max_sge\<close> elements: 0 when at most \<open>k\<close> were given, otherwise \<open>ENOMEM\<close>
  with \<open>*bad\<close> at request number \<open>k\<close>. Every accepted receive gets an identifier of its own, free
  before, that now stands for its \<open>wr_id\<close>, and the queue stays well formed.
\<close>

theorem efa_post_recv_capacity:
  assumes "wq_ready (rq_wq (qp_rq qp))" and "can_recv qp"
    and "\<forall>wr \<in> set wrs. recv_good (rq_wq (qp_rq qp)) wr"
  shows "\<exists>qp' tr' ids. let wq = rq_wq (qp_rq qp); wq' = rq_wq (qp_rq qp'); k = wq_room wq in
    efa_post_recv qp wrs tr =
      Some (if length wrs \<le> k then 0 else ENOMEM,
        if length wrs \<le> k then None else Some (drop k wrs), qp', tr') \<and>
    wq_ready wq' \<and> wq_room wq' = k - length wrs \<and> length ids = min (length wrs) k \<and> distinct ids \<and>
    (\<forall>i \<in> set ids. wq_tags wq i = None) \<and>
    wq_tags wq' = wq_tags wq ++ map_of (zip ids (map rw_wr_id (take k wrs)))"
proof -
  let ?wq = "rq_wq (qp_rq qp)"
  let ?k = "wq_room ?wq" and ?l = "pthread_spin_lock (wqlock ?wq)"
  let ?wq1 = "?wq\<lparr>wqlock := ?l\<rparr>"
  let ?qp = "set_rq_wq qp ?wq1"
  have good: "\<forall>wr \<in> set wrs. recv_good ?wq1 wr" using assms(3) by (simp add: recv_good_def)
  have can: "can_recv ?qp" using assms(2) by (simp add: can_recv_def)
  obtain qp1 tr1 where loop: "post_recv_loop ?qp tr wrs =
      Some (room_err ?k wrs, room_rest ?k wrs, qp1, tr1)"
    using post_recv_loop_total [of ?qp wrs tr] assms(1) good can by auto
  have wf: "\<forall>wr \<in> set wrs. recv_wf wr" using assms(3) by (simp add: recv_good_def)
  from post_recv_loop_prefix [OF loop wf] obtain good rest ws wq2 where P: "wrs = good @ rest"
    "post_all rq_step ?wq1 good = Some (ws, wq2)" "qp1 = set_rq_wq ?qp wq2" "wqlock wq2 = ?l"
    "if room_err ?k wrs = 0 then rest = [] \<and> room_rest ?k wrs = None
     else rest \<noteq> [] \<and> room_rest ?k wrs = Some rest \<and>
       efa_post_recv_validate qp1 (hd rest) = room_err ?k wrs"
    unfolding set_rq_wq_simps(1) by auto
  have "rest = drop ?k wrs" using P(5) by (auto simp: room_err_def room_rest_def split: if_splits)
  then have g: "good = take ?k wrs" using P(1) by (metis append_same_eq append_take_drop_id)
  have gg: "\<forall>wr \<in> set good. recv_good ?wq1 wr" using assms(3) by (auto simp: recv_good_def g dest: in_set_takeD)
  have "length good \<le> wq_room ?wq1" by (simp add: g)
  from rq_poster.post_all_ok [OF _ gg this] P(2) assms(1) have ok: "wq_ready wq2"
    "wq_room wq2 = ?k - length good" "length ws = length good" "distinct (map (\<lambda>w. unat (fst w)) ws)"
    "\<forall>w \<in> set ws. wq_tags ?wq (unat (fst w)) = None"
    "wq_tags wq2 = wq_tags ?wq ++ map_of (zip (map (\<lambda>w. unat (fst w)) ws) (map rw_wr_id good))"
    by auto
  let ?qp' = "set_rq_wq qp (wq2\<lparr>wqlock := wqlock ?wq\<rparr>)" and ?ids = "map (\<lambda>w. unat (fst w)) ws"
  let ?tr' = "efa_rq_ring_doorbell (qp_rq qp1) (wq_pc wq2) tr1"
  have run: "efa_post_recv qp wrs tr = Some (room_err ?k wrs, room_rest ?k wrs, ?qp', ?tr')"
    using loop by (simp add: efa_post_recv_def Let_def P(3,4))
  show ?thesis
    unfolding Let_def
    by (rule exI [of _ ?qp'], rule exI [of _ ?tr'], rule exI [of _ ?ids])
      (use run ok in \<open>auto simp: room_err_def room_rest_def g min_def\<close>)
qed

theorem efa_post_recv_capacity_witness:
  "\<exists>qp' tr'. efa_post_recv ex_recv_qp (replicate 5 ex_recv_wr) [] =
     Some (ENOMEM, Some [ex_recv_wr], qp', tr') \<and> wq_room (rq_wq (qp_rq qp')) = 0"
proof -
  have wq: "rq_wq (qp_rq ex_recv_qp) = wq_example\<lparr>wq_db := 0x8008\<rparr>" by (simp add: ex_recv_qp_def)
  have v: "wq_inv (wq_example\<lparr>wq_db := 0x8008\<rparr>) = wq_inv wq_example"
    "wq_outstanding (wq_example\<lparr>wq_db := 0x8008\<rparr>) = wq_outstanding wq_example"
    by (rule wq_view_cong; simp)+
  have ready: "wq_ready (rq_wq (qp_rq ex_recv_qp))"
    by (simp add: wq_ready_def wq v wq_example_inv) (simp add: wq_counts_def wq_example_def)
  have room: "wq_room (rq_wq (qp_rq ex_recv_qp)) = 4"
    by (simp add: wq_room_def wq v card_wq_outstanding [OF wq_example_inv]) (simp add: wq_example_def)
  have can: "can_recv ex_recv_qp" by (simp add: can_recv_def ex_recv_qp_def)
  have good: "\<forall>wr \<in> set (replicate 5 ex_recv_wr). recv_good (rq_wq (qp_rq ex_recv_qp)) wr"
    by (simp add: recv_good_def recv_wf_def wq) (simp add: ex_recv_wr_def wq_example_def)
  show ?thesis
    using efa_post_recv_capacity [OF ready can good, of "[]"]
    by (auto simp: room Let_def numeral_eq_Suc)
qed

end
