(* ===== verification/Efa_Ioctl.thy ===== *)
theory Efa_Ioctl
  imports Efa_Objects
begin

text \<open>
  The interface to the kernel driver: the parameter and result structs of \<open>include/EfaIoctl.h\<close>
  and the functions of \<open>efawin/efawinif.c\<close> that hand them to \<open>DeviceIoControl\<close>.

  The driver itself is not part of the repository. It is the parameter \<open>'d driver\<close>, one
  function per control code over a driver state \<open>'d\<close>; the library sees of a call whether it
  succeeded, the byte count, the contents of the output buffer afterwards and the thread's
  last error.
\<close>

section \<open>Layout of a C struct\<close>

text \<open>
  The sizes of the scalar members in order; each member is aligned to its size, the struct to
  its largest member.
\<close>

definition pad_to :: "nat \<Rightarrow> nat \<Rightarrow> nat" where
  "pad_to n al = (n + al - 1) div al * al"

fun layout_end :: "nat \<Rightarrow> nat list \<Rightarrow> nat" where
  "layout_end off [] = off"
| "layout_end off (m # ms) = layout_end (pad_to off m + m) ms"

definition c_sizeof :: "nat list \<Rightarrow> nat" where
  "c_sizeof ms = pad_to (layout_end 0 ms) (fold max ms 1)"

text \<open>The offset of the member with index \<open>i\<close>.\<close>

definition c_offsetof :: "nat list \<Rightarrow> nat \<Rightarrow> nat" where
  "c_offsetof ms i = pad_to (layout_end 0 (take i ms)) (ms ! i)"

section \<open>Parameters and results of the control codes\<close>

definition EFA_API_INTERFACE_VERSION :: u32 where "EFA_API_INTERFACE_VERSION = 3"

abbreviation EFA_GID_SIZE :: nat where "EFA_GID_SIZE \<equiv> 16"

definition EFA_MASK_FROM_BIT :: "nat \<Rightarrow> u32" where "EFA_MASK_FROM_BIT b = push_bit b 1"

definition EFA_MODIFY_QP_STATE_MASK :: u32 where
  "EFA_MODIFY_QP_STATE_MASK = EFA_MASK_FROM_BIT 0"
definition EFA_MODIFY_QP_CUR_STATE_MASK :: u32 where
  "EFA_MODIFY_QP_CUR_STATE_MASK = EFA_MASK_FROM_BIT 1"
definition EFA_MODIFY_QP_QKEY_MASK :: u32 where
  "EFA_MODIFY_QP_QKEY_MASK = EFA_MASK_FROM_BIT 2"
definition EFA_MODIFY_QP_SQ_PSN_MASK :: u32 where
  "EFA_MODIFY_QP_SQ_PSN_MASK = EFA_MASK_FROM_BIT 3"
definition EFA_MODIFY_QP_SQ_DRAINED_ASYNC_NOTIFY_MASK :: u32 where
  "EFA_MODIFY_QP_SQ_DRAINED_ASYNC_NOTIFY_MASK = EFA_MASK_FROM_BIT 4"
definition EFA_MODIFY_QP_RNR_RETRY_MASK :: u32 where
  "EFA_MODIFY_QP_RNR_RETRY_MASK = EFA_MASK_FROM_BIT 5"

datatype EFA_WIN_QP_TYPE = EFA_WIN_QP_SRD | EFA_WIN_QP_UD

fun EFA_WIN_QP_TYPE_val :: "EFA_WIN_QP_TYPE \<Rightarrow> i32" where
  "EFA_WIN_QP_TYPE_val EFA_WIN_QP_SRD = 0"
| "EFA_WIN_QP_TYPE_val EFA_WIN_QP_UD = 1"

record EFA_CREATE_QP_PARAMS =
  cqp_SendCqIndex :: u32
  cqp_RecvCqIndex :: u32
  cqp_RqDepth :: u32
  cqp_SqDepth :: u32
  cqp_SqRingSizeInBytes :: u32
  cqp_RqRingSizeInBytes :: u32
  cqp_Pdn :: u16
  cqp_QpType :: EFA_WIN_QP_TYPE

record EFA_QP_INFO =
  qi_RqDoorbellAddr :: u64
  qi_SqDoorbellAddr :: u64
  qi_RqAddr :: u64
  qi_SqAddr :: u64
  qi_QpSize :: u32
  qi_QpHandle :: u32
  qi_QpNum :: u32
  qi_SendSubCqIndex :: u32
  qi_RecvSubCqIndex :: u32

record EFA_MODIFY_QP_PARAMS =
  mq_ModifyMask :: u32
  mq_QpHandle :: u32
  mq_QpState :: u32
  mq_QpCurState :: u32
  mq_QKey :: u32
  mq_SqPsn :: u32
  mq_SqDrainedAsyncNotify :: u8
  mq_RnrRetry :: u8

record EFA_DESTROY_QP_PARAMS =
  dqp_QpHandle :: u32

record EFA_CREATE_CQ_PARAMS =
  ccq_CqDepth :: u16
  ccq_NumSubCqs :: u16
  ccq_EntrySizeInBytes :: u8

text \<open>\<open>CqAddr\<close> is the mapping of the ring: its contents, or \<open>None\<close> for a null address.\<close>

record EFA_CQ_INFO =
  ci_CqAddr :: "u8 list option"
  ci_CqIndex :: u16
  ci_CqActualDepth :: u16

record EFA_DESTROY_CQ_PARAMS =
  dcq_CqIndex :: u16

record EFA_CREATE_AH_PARAMS =
  cah_Pdn :: u16
  cah_DestAddr :: "u8 list"

record EFA_AH_INFO =
  ai_AddressHandle :: u16

record EFA_DESTROY_AH_PARAMS =
  dah_Pdn :: u16
  dah_AddressHandle :: u16

record EFA_QUERY_DEVICE_PARAMS =
  qd_InterfaceVersion :: u32

record EFA_DEVICE_INFO =
  di_PageSizeCap :: u64
  di_MaxMrPages :: u64
  di_FirmwareVersion :: u32
  di_DeviceVersion :: u32
  di_SupportedFeatures :: u32
  di_MaxQp :: u32
  di_MaxSqDepth :: u32
  di_MaxRqDepth :: u32
  di_MaxCq :: u32
  di_MaxCqDepth :: u32
  di_InlineBufSize :: u32
  di_MaxMr :: u32
  di_MaxPd :: u32
  di_MaxAh :: u32
  di_MaxLlqSize :: u32
  di_Mtu :: u32
  di_NumSubCqs :: u16
  di_MaxSqSge :: u16
  di_MaxRqSge :: u16
  di_Addr :: "u8 list"

record EFA_REG_MR_PARAMS =
  rmr_MrLen :: u64
  rmr_MrAddr :: u64
  rmr_Pdn :: u16
  rmr_Permissions :: u8

record EFA_MR_INFO =
  mi_LKey :: u32
  mi_RKey :: u32

record EFA_DEREG_MR_PARAMS =
  dmr_LKey :: u32

record EFA_PD_INFO =
  pi_Pdn :: u16

record EFA_DEALLOC_PD_PARAMS =
  dpd_Pdn :: u16

definition sizeof_EFA_CREATE_QP_PARAMS :: nat where
  "sizeof_EFA_CREATE_QP_PARAMS = c_sizeof [4, 4, 4, 4, 4, 4, 2, 4]"
definition sizeof_EFA_QP_INFO :: nat where
  "sizeof_EFA_QP_INFO = c_sizeof [8, 8, 8, 8, 4, 4, 4, 4, 4]"
definition sizeof_EFA_MODIFY_QP_PARAMS :: nat where
  "sizeof_EFA_MODIFY_QP_PARAMS = c_sizeof [4, 4, 4, 4, 4, 4, 1, 1]"
definition sizeof_EFA_DESTROY_QP_PARAMS :: nat where "sizeof_EFA_DESTROY_QP_PARAMS = c_sizeof [4]"
definition sizeof_PEFA_CREATE_CQ_PARAMS :: nat where "sizeof_PEFA_CREATE_CQ_PARAMS = c_sizeof [8]"
definition sizeof_EFA_CREATE_CQ_PARAMS :: nat where
  "sizeof_EFA_CREATE_CQ_PARAMS = c_sizeof [2, 2, 1]"
definition sizeof_EFA_CQ_INFO :: nat where "sizeof_EFA_CQ_INFO = c_sizeof [8, 2, 2]"
definition sizeof_EFA_DESTROY_CQ_PARAMS :: nat where "sizeof_EFA_DESTROY_CQ_PARAMS = c_sizeof [2]"
definition sizeof_EFA_CREATE_AH_PARAMS :: nat where
  "sizeof_EFA_CREATE_AH_PARAMS = c_sizeof (2 # replicate EFA_GID_SIZE 1)"
definition sizeof_EFA_AH_INFO :: nat where "sizeof_EFA_AH_INFO = c_sizeof [2]"
definition sizeof_EFA_DESTROY_AH_PARAMS :: nat where "sizeof_EFA_DESTROY_AH_PARAMS = c_sizeof [2, 2]"
definition sizeof_EFA_QUERY_DEVICE_PARAMS :: nat where
  "sizeof_EFA_QUERY_DEVICE_PARAMS = c_sizeof [4]"
definition sizeof_EFA_DEVICE_INFO :: nat where
  "sizeof_EFA_DEVICE_INFO =
     c_sizeof ([8, 8] @ replicate 14 4 @ [2, 2, 2] @ replicate EFA_GID_SIZE 1)"
definition sizeof_EFA_REG_MR_PARAMS :: nat where
  "sizeof_EFA_REG_MR_PARAMS = c_sizeof [8, 8, 2, 1]"
definition sizeof_EFA_MR_INFO :: nat where "sizeof_EFA_MR_INFO = c_sizeof [4, 4]"
definition sizeof_EFA_DEREG_MR_PARAMS :: nat where "sizeof_EFA_DEREG_MR_PARAMS = c_sizeof [4]"
definition sizeof_EFA_PD_INFO :: nat where "sizeof_EFA_PD_INFO = c_sizeof [2]"
definition sizeof_EFA_DEALLOC_PD_PARAMS :: nat where "sizeof_EFA_DEALLOC_PD_PARAMS = c_sizeof [2]"

lemma ioctl_sizes:
  "sizeof_EFA_CREATE_QP_PARAMS = 32" "sizeof_EFA_QP_INFO = 56" "sizeof_EFA_MODIFY_QP_PARAMS = 28"
  "sizeof_EFA_CREATE_CQ_PARAMS = 6" "sizeof_EFA_CQ_INFO = 16" "sizeof_EFA_CREATE_AH_PARAMS = 18"
  "sizeof_EFA_DEVICE_INFO = 96" "sizeof_EFA_REG_MR_PARAMS = 24" "sizeof_PEFA_CREATE_CQ_PARAMS = 8"
  by code_simp+

text \<open>The all-zero structs, \<open>= { 0 }\<close>.\<close>

definition zero_CREATE_QP_PARAMS :: EFA_CREATE_QP_PARAMS where
  "zero_CREATE_QP_PARAMS = \<lparr>cqp_SendCqIndex = 0, cqp_RecvCqIndex = 0, cqp_RqDepth = 0,
     cqp_SqDepth = 0, cqp_SqRingSizeInBytes = 0, cqp_RqRingSizeInBytes = 0, cqp_Pdn = 0,
     cqp_QpType = EFA_WIN_QP_SRD\<rparr>"
definition zero_QP_INFO :: EFA_QP_INFO where
  "zero_QP_INFO = \<lparr>qi_RqDoorbellAddr = 0, qi_SqDoorbellAddr = 0, qi_RqAddr = 0, qi_SqAddr = 0,
     qi_QpSize = 0, qi_QpHandle = 0, qi_QpNum = 0, qi_SendSubCqIndex = 0, qi_RecvSubCqIndex = 0\<rparr>"
definition zero_MODIFY_QP_PARAMS :: EFA_MODIFY_QP_PARAMS where
  "zero_MODIFY_QP_PARAMS = \<lparr>mq_ModifyMask = 0, mq_QpHandle = 0, mq_QpState = 0,
     mq_QpCurState = 0, mq_QKey = 0, mq_SqPsn = 0, mq_SqDrainedAsyncNotify = 0, mq_RnrRetry = 0\<rparr>"
definition zero_CREATE_CQ_PARAMS :: EFA_CREATE_CQ_PARAMS where
  "zero_CREATE_CQ_PARAMS = \<lparr>ccq_CqDepth = 0, ccq_NumSubCqs = 0, ccq_EntrySizeInBytes = 0\<rparr>"
definition zero_CQ_INFO :: EFA_CQ_INFO where
  "zero_CQ_INFO = \<lparr>ci_CqAddr = None, ci_CqIndex = 0, ci_CqActualDepth = 0\<rparr>"
definition zero_DEVICE_INFO :: EFA_DEVICE_INFO where
  "zero_DEVICE_INFO = \<lparr>di_PageSizeCap = 0, di_MaxMrPages = 0, di_FirmwareVersion = 0,
     di_DeviceVersion = 0, di_SupportedFeatures = 0, di_MaxQp = 0, di_MaxSqDepth = 0,
     di_MaxRqDepth = 0, di_MaxCq = 0, di_MaxCqDepth = 0, di_InlineBufSize = 0, di_MaxMr = 0,
     di_MaxPd = 0, di_MaxAh = 0, di_MaxLlqSize = 0, di_Mtu = 0, di_NumSubCqs = 0,
     di_MaxSqSge = 0, di_MaxRqSge = 0, di_Addr = replicate EFA_GID_SIZE 0\<rparr>"

section \<open>The driver\<close>

record 'o ioctl_reply =
  bResult :: bool
  bytesReturned :: u32
  outBuffer :: 'o
  lastError :: u32

text \<open>
  One call of \<open>DeviceIoControl\<close>: the handle, the input buffer and its announced size, the
  output buffer as it was; the reply has the output buffer as it is left.
\<close>

type_synonym ('d, 'i, 'o) ioctl = "u64 \<Rightarrow> 'i \<Rightarrow> nat \<Rightarrow> 'o \<Rightarrow> 'd \<Rightarrow> 'o ioctl_reply \<times> 'd"

record 'd driver =
  CreateFile :: "'d \<Rightarrow> (u64 \<times> u32) \<times> 'd"
  CloseHandle :: "u64 \<Rightarrow> 'd \<Rightarrow> 'd"
  IOCTL_EFA_QUERY_DEVICE :: "('d, EFA_QUERY_DEVICE_PARAMS, EFA_DEVICE_INFO) ioctl"
  IOCTL_EFA_CREATE_CQ :: "('d, EFA_CREATE_CQ_PARAMS, EFA_CQ_INFO) ioctl"
  IOCTL_EFA_DESTROY_CQ :: "('d, EFA_DESTROY_CQ_PARAMS, unit) ioctl"
  IOCTL_EFA_CREATE_QP :: "('d, EFA_CREATE_QP_PARAMS, EFA_QP_INFO) ioctl"
  IOCTL_EFA_DESTROY_QP :: "('d, EFA_DESTROY_QP_PARAMS, unit) ioctl"
  IOCTL_EFA_REG_MR :: "('d, EFA_REG_MR_PARAMS, EFA_MR_INFO) ioctl"
  IOCTL_EFA_DEREG_MR :: "('d, EFA_DEREG_MR_PARAMS, unit) ioctl"
  IOCTL_EFA_ALLOC_AH :: "('d, EFA_CREATE_AH_PARAMS, EFA_AH_INFO) ioctl"
  IOCTL_EFA_DEALLOC_AH :: "('d, EFA_DESTROY_AH_PARAMS, unit) ioctl"
  IOCTL_EFA_ALLOC_PD :: "('d, unit, EFA_PD_INFO) ioctl"
  IOCTL_EFA_DEALLOC_PD :: "('d, EFA_DEALLOC_PD_PARAMS, unit) ioctl"
  IOCTL_EFA_MODIFY_QP :: "('d, EFA_MODIFY_QP_PARAMS, unit) ioctl"

section \<open>Opening and closing the device\<close>

record EFA_WIN_DEVICE =
  wd_Device :: u64
  wd_PageSize :: u32

abbreviation INVALID_HANDLE_VALUE :: u64 where "INVALID_HANDLE_VALUE \<equiv> - 1"
abbreviation PAGE_SIZE :: nat where "PAGE_SIZE \<equiv> 4096"
abbreviation ERROR_FILE_NOT_FOUND :: u32 where "ERROR_FILE_NOT_FOUND \<equiv> 2"
abbreviation ERROR_PATH_NOT_FOUND :: u32 where "ERROR_PATH_NOT_FOUND \<equiv> 3"
abbreviation ERROR_DEVICE_HARDWARE_ERROR :: int where "ERROR_DEVICE_HARDWARE_ERROR \<equiv> 483"

text \<open>\<open>None\<close> for the device is a null pointer.\<close>

definition efa_open_device ::
  "'d driver \<Rightarrow> EFA_WIN_DEVICE option \<Rightarrow> 'd \<Rightarrow> int \<times> EFA_WIN_DEVICE option \<times> 'd" where
  "efa_open_device dr device d =
     (case device of
        None \<Rightarrow> (ERROR_DEVICE_HARDWARE_ERROR, None, d)
      | Some dev \<Rightarrow>
          (case CreateFile dr d of ((hDevice, errNum), d') \<Rightarrow>
             if hDevice = INVALID_HANDLE_VALUE then
               if \<not> (errNum = ERROR_FILE_NOT_FOUND \<or> errNum = ERROR_PATH_NOT_FOUND)
               then (sint errNum, Some dev, d')
               else (ERROR_DEVICE_HARDWARE_ERROR, Some dev, d')
             else (0, Some (dev\<lparr>wd_Device := hDevice, wd_PageSize := of_nat PAGE_SIZE\<rparr>), d')))"

definition efa_close_device ::
  "'d driver \<Rightarrow> EFA_WIN_DEVICE \<Rightarrow> 'd \<Rightarrow> int \<times> EFA_WIN_DEVICE \<times> 'd" where
  "efa_close_device dr dev d =
     (0, dev\<lparr>wd_Device := INVALID_HANDLE_VALUE\<rparr>, CloseHandle dr (wd_Device dev) d)"

section \<open>The control requests\<close>

text \<open>
  The test after \<open>DeviceIoControl\<close>: the last error when the call failed or returned fewer bytes
  than the output struct has. A short but successful reply leaves the last error as it was, so
  such a call can report success.
\<close>

definition ioctl_status :: "'o ioctl_reply \<Rightarrow> nat \<Rightarrow> int" where
  "ioctl_status r sz =
     (if \<not> bResult r \<or> unat (bytesReturned r) < sz then sint (lastError r) else 0)"

definition ioctl_status_nodata :: "'o ioctl_reply \<Rightarrow> int" where
  "ioctl_status_nodata r = (if \<not> bResult r then sint (lastError r) else 0)"

definition efa_win_create_qp ::
  "'d driver \<Rightarrow> EFA_WIN_DEVICE \<Rightarrow> EFA_CREATE_QP_PARAMS \<Rightarrow> EFA_QP_INFO \<Rightarrow> 'd
     \<Rightarrow> int \<times> EFA_QP_INFO \<times> 'd" where
  "efa_win_create_qp dr edev params info d =
     (case IOCTL_EFA_CREATE_QP dr (wd_Device edev) params sizeof_EFA_CREATE_QP_PARAMS info d of
        (r, d') \<Rightarrow> (ioctl_status r sizeof_EFA_QP_INFO, outBuffer r, d'))"

definition efa_win_modify_qp ::
  "'d driver \<Rightarrow> EFA_WIN_DEVICE \<Rightarrow> EFA_MODIFY_QP_PARAMS \<Rightarrow> 'd \<Rightarrow> int \<times> 'd" where
  "efa_win_modify_qp dr edev params d =
     (case IOCTL_EFA_MODIFY_QP dr (wd_Device edev) params sizeof_EFA_MODIFY_QP_PARAMS () d of
        (r, d') \<Rightarrow> (ioctl_status_nodata r, d'))"

definition efa_win_destroy_qp ::
  "'d driver \<Rightarrow> EFA_WIN_DEVICE \<Rightarrow> EFA_DESTROY_QP_PARAMS \<Rightarrow> 'd \<Rightarrow> int \<times> 'd" where
  "efa_win_destroy_qp dr edev params d =
     (case IOCTL_EFA_DESTROY_QP dr (wd_Device edev) params sizeof_EFA_DESTROY_QP_PARAMS () d of
        (r, d') \<Rightarrow> (ioctl_status_nodata r, d'))"

text \<open>The announced input size is the size of a pointer to the struct.\<close>

definition efa_win_create_cq ::
  "'d driver \<Rightarrow> EFA_WIN_DEVICE \<Rightarrow> EFA_CREATE_CQ_PARAMS \<Rightarrow> EFA_CQ_INFO \<Rightarrow> 'd
     \<Rightarrow> int \<times> EFA_CQ_INFO \<times> 'd" where
  "efa_win_create_cq dr edev params info d =
     (case IOCTL_EFA_CREATE_CQ dr (wd_Device edev) params sizeof_PEFA_CREATE_CQ_PARAMS info d of
        (r, d') \<Rightarrow> (ioctl_status r sizeof_EFA_CQ_INFO, outBuffer r, d'))"

definition efa_win_destroy_cq ::
  "'d driver \<Rightarrow> EFA_WIN_DEVICE \<Rightarrow> EFA_DESTROY_CQ_PARAMS \<Rightarrow> 'd \<Rightarrow> int \<times> 'd" where
  "efa_win_destroy_cq dr edev params d =
     (case IOCTL_EFA_DESTROY_CQ dr (wd_Device edev) params sizeof_EFA_DESTROY_CQ_PARAMS () d of
        (r, d') \<Rightarrow> (ioctl_status_nodata r, d'))"

definition efa_win_register_mr ::
  "'d driver \<Rightarrow> EFA_WIN_DEVICE \<Rightarrow> EFA_REG_MR_PARAMS \<Rightarrow> EFA_MR_INFO \<Rightarrow> 'd
     \<Rightarrow> int \<times> EFA_MR_INFO \<times> 'd" where
  "efa_win_register_mr dr edev params info d =
     (case IOCTL_EFA_REG_MR dr (wd_Device edev) params sizeof_EFA_REG_MR_PARAMS info d of
        (r, d') \<Rightarrow> (ioctl_status r sizeof_EFA_MR_INFO, outBuffer r, d'))"

definition efa_win_dereg_mr ::
  "'d driver \<Rightarrow> EFA_WIN_DEVICE \<Rightarrow> EFA_DEREG_MR_PARAMS \<Rightarrow> 'd \<Rightarrow> int \<times> 'd" where
  "efa_win_dereg_mr dr edev params d =
     (case IOCTL_EFA_DEREG_MR dr (wd_Device edev) params sizeof_EFA_DEREG_MR_PARAMS () d of
        (r, d') \<Rightarrow> (ioctl_status_nodata r, d'))"

definition efa_win_create_ah ::
  "'d driver \<Rightarrow> EFA_WIN_DEVICE \<Rightarrow> EFA_CREATE_AH_PARAMS \<Rightarrow> EFA_AH_INFO \<Rightarrow> 'd
     \<Rightarrow> int \<times> EFA_AH_INFO \<times> 'd" where
  "efa_win_create_ah dr edev params info d =
     (case IOCTL_EFA_ALLOC_AH dr (wd_Device edev) params sizeof_EFA_CREATE_AH_PARAMS info d of
        (r, d') \<Rightarrow> (ioctl_status r sizeof_EFA_AH_INFO, outBuffer r, d'))"

definition efa_win_destroy_ah ::
  "'d driver \<Rightarrow> EFA_WIN_DEVICE \<Rightarrow> EFA_DESTROY_AH_PARAMS \<Rightarrow> 'd \<Rightarrow> int \<times> 'd" where
  "efa_win_destroy_ah dr edev params d =
     (case IOCTL_EFA_DEALLOC_AH dr (wd_Device edev) params sizeof_EFA_DESTROY_AH_PARAMS () d of
        (r, d') \<Rightarrow> (ioctl_status_nodata r, d'))"

definition efa_win_get_device_info ::
  "'d driver \<Rightarrow> EFA_WIN_DEVICE \<Rightarrow> EFA_QUERY_DEVICE_PARAMS \<Rightarrow> EFA_DEVICE_INFO \<Rightarrow> 'd
     \<Rightarrow> int \<times> EFA_DEVICE_INFO \<times> 'd" where
  "efa_win_get_device_info dr edev params info d =
     (case IOCTL_EFA_QUERY_DEVICE dr (wd_Device edev) params sizeof_EFA_QUERY_DEVICE_PARAMS info d of
        (r, d') \<Rightarrow> (ioctl_status r sizeof_EFA_DEVICE_INFO, outBuffer r, d'))"

definition efa_win_alloc_pd ::
  "'d driver \<Rightarrow> EFA_WIN_DEVICE \<Rightarrow> EFA_PD_INFO \<Rightarrow> 'd \<Rightarrow> int \<times> EFA_PD_INFO \<times> 'd" where
  "efa_win_alloc_pd dr edev info d =
     (case IOCTL_EFA_ALLOC_PD dr (wd_Device edev) () 0 info d of
        (r, d') \<Rightarrow> (ioctl_status r sizeof_EFA_PD_INFO, outBuffer r, d'))"

definition efa_win_dealloc_pd ::
  "'d driver \<Rightarrow> EFA_WIN_DEVICE \<Rightarrow> EFA_DEALLOC_PD_PARAMS \<Rightarrow> 'd \<Rightarrow> int \<times> 'd" where
  "efa_win_dealloc_pd dr edev params d =
     (case IOCTL_EFA_DEALLOC_PD dr (wd_Device edev) params sizeof_EFA_DEALLOC_PD_PARAMS () d of
        (r, d') \<Rightarrow> (ioctl_status_nodata r, d'))"

section \<open>What the requests report\<close>

lemma ioctl_status_failed: "\<not> bResult r \<Longrightarrow> ioctl_status r n = sint (lastError r)"
  by (simp add: ioctl_status_def)

lemma ioctl_status_ok:
  "bResult r \<Longrightarrow> n \<le> unat (bytesReturned r) \<Longrightarrow> ioctl_status r n = 0"
  by (simp add: ioctl_status_def)

end
