(* ===== verification/Efa_World.thy ===== *)
theory Efa_World
  imports Efa_Sq Efa_Cq Efa_Ioctl
begin

text \<open>
  The state the control path works on: the objects on the heap, the driver and \<open>errno\<close>; and
  the attribute structs of \<open>interface/infiniband/verbs.h\<close>, \<open>interface/infiniband/efadv.h\<close> and
  \<open>include/efa-win-abi.h\<close> it fills and reads.

  The outcome of an allocation is an argument of the function that allocates: \<open>None\<close>, or the
  address of the object. An address that is not in the heap was never allocated or was freed;
  reading, writing or freeing it is undefined.
\<close>

section \<open>Attributes of the device and the port\<close>

text \<open>\<open>struct ibv_device_attr\<close>: the members are C \<open>int\<close>s unless they say otherwise.\<close>

record ibv_device_attr =
  da_fw_ver :: string
  da_node_guid :: u64
  da_sys_image_guid :: u64
  da_max_mr_size :: u64
  da_page_size_cap :: u64
  da_vendor_id :: u32
  da_vendor_part_id :: u32
  da_hw_ver :: u32
  da_max_qp :: i32
  da_max_qp_wr :: i32
  da_device_cap_flags :: u32
  da_max_sge :: i32
  da_max_sge_rd :: i32
  da_max_cq :: i32
  da_max_cqe :: i32
  da_max_mr :: i32
  da_max_pd :: i32
  da_max_qp_rd_atom :: i32
  da_max_ee_rd_atom :: i32
  da_max_res_rd_atom :: i32
  da_max_qp_init_rd_atom :: i32
  da_max_ee_init_rd_atom :: i32
  da_atomic_cap :: i32
  da_max_ee :: i32
  da_max_rdd :: i32
  da_max_mw :: i32
  da_max_raw_ipv6_qp :: i32
  da_max_raw_ethy_qp :: i32
  da_max_mcast_grp :: i32
  da_max_mcast_qp_attach :: i32
  da_max_total_mcast_qp_attach :: i32
  da_max_ah :: i32
  da_max_fmr :: i32
  da_max_map_per_fmr :: i32
  da_max_srq :: i32
  da_max_srq_wr :: i32
  da_max_srq_sge :: i32
  da_max_pkeys :: u16
  da_local_ca_ack_delay :: u8
  da_phys_port_cnt :: u8

definition zero_device_attr :: ibv_device_attr where
  "zero_device_attr = \<lparr>da_fw_ver = '''', da_node_guid = 0, da_sys_image_guid = 0,
     da_max_mr_size = 0, da_page_size_cap = 0, da_vendor_id = 0, da_vendor_part_id = 0,
     da_hw_ver = 0, da_max_qp = 0, da_max_qp_wr = 0, da_device_cap_flags = 0, da_max_sge = 0,
     da_max_sge_rd = 0, da_max_cq = 0, da_max_cqe = 0, da_max_mr = 0, da_max_pd = 0,
     da_max_qp_rd_atom = 0, da_max_ee_rd_atom = 0, da_max_res_rd_atom = 0,
     da_max_qp_init_rd_atom = 0, da_max_ee_init_rd_atom = 0, da_atomic_cap = 0, da_max_ee = 0,
     da_max_rdd = 0, da_max_mw = 0, da_max_raw_ipv6_qp = 0, da_max_raw_ethy_qp = 0,
     da_max_mcast_grp = 0, da_max_mcast_qp_attach = 0, da_max_total_mcast_qp_attach = 0,
     da_max_ah = 0, da_max_fmr = 0, da_max_map_per_fmr = 0, da_max_srq = 0, da_max_srq_wr = 0,
     da_max_srq_sge = 0, da_max_pkeys = 0, da_local_ca_ack_delay = 0, da_phys_port_cnt = 0\<rparr>"

datatype ibv_port_state =
    IBV_PORT_NOP | IBV_PORT_DOWN | IBV_PORT_INIT | IBV_PORT_ARMED | IBV_PORT_ACTIVE
  | IBV_PORT_ACTIVE_DEFER

text \<open>The MTU members have an enum type but are assigned the number of bytes.\<close>

record ibv_port_attr =
  pa_state :: ibv_port_state
  pa_max_mtu :: u32
  pa_active_mtu :: u32
  pa_gid_tbl_len :: i32
  pa_port_cap_flags :: u32
  pa_max_msg_sz :: u32
  pa_bad_pkey_cntr :: u32
  pa_qkey_viol_cntr :: u32
  pa_pkey_tbl_len :: u16
  pa_lid :: u16
  pa_sm_lid :: u16
  pa_lmc :: u8
  pa_max_vl_num :: u8
  pa_sm_sl :: u8
  pa_subnet_timeout :: u8
  pa_init_type_reply :: u8
  pa_active_width :: u8
  pa_active_speed :: u8
  pa_phys_state :: u8
  pa_link_layer :: u8
  pa_flags :: u8
  pa_port_cap_flags2 :: u16

section \<open>Attributes of queue pairs and address handles\<close>

text \<open>\<open>union ibv_gid\<close>: its 16 raw bytes.\<close>

record ibv_global_route =
  gr_dgid :: "u8 list"
  gr_flow_label :: u32
  gr_sgid_index :: u8
  gr_hop_limit :: u8
  gr_traffic_class :: u8

record ibv_ah_attr =
  aa_grh :: ibv_global_route
  aa_dlid :: u16
  aa_sl :: u8
  aa_src_path_bits :: u8
  aa_static_rate :: u8
  aa_is_global :: u8
  aa_port_num :: u8

definition IBV_QP_STATE :: u32 where "IBV_QP_STATE = push_bit 0 1"
definition IBV_QP_CUR_STATE :: u32 where "IBV_QP_CUR_STATE = push_bit 1 1"
definition IBV_QP_EN_SQD_ASYNC_NOTIFY :: u32 where "IBV_QP_EN_SQD_ASYNC_NOTIFY = push_bit 2 1"
definition IBV_QP_QKEY :: u32 where "IBV_QP_QKEY = push_bit 6 1"
definition IBV_QP_RNR_RETRY :: u32 where "IBV_QP_RNR_RETRY = push_bit 11 1"
definition IBV_QP_SQ_PSN :: u32 where "IBV_QP_SQ_PSN = push_bit 16 1"

record ibv_qp_attr =
  at_qp_state :: ibv_qp_state
  at_cur_qp_state :: ibv_qp_state
  at_path_mtu :: u32
  at_path_mig_state :: u32
  at_qkey :: u32
  at_rq_psn :: u32
  at_sq_psn :: u32
  at_dest_qp_num :: u32
  at_qp_access_flags :: u32
  at_cap :: ibv_qp_cap
  at_ah_attr :: ibv_ah_attr
  at_alt_ah_attr :: ibv_ah_attr
  at_pkey_index :: u16
  at_alt_pkey_index :: u16
  at_en_sqd_async_notify :: u8
  at_sq_draining :: u8
  at_max_rd_atomic :: u8
  at_max_dest_rd_atomic :: u8
  at_min_rnr_timer :: u8
  at_port_num :: u8
  at_timeout :: u8
  at_retry_cnt :: u8
  at_rnr_retry :: u8
  at_alt_port_num :: u8
  at_alt_timeout :: u8
  at_rate_limit :: u32

section \<open>The provider's extensions and the responses of the command layer\<close>

record efadv_device_attr =
  dv_comp_mask :: u64
  dv_max_sq_wr :: u32
  dv_max_rq_wr :: u32
  dv_max_sq_sge :: u16
  dv_max_rq_sge :: u16
  dv_inline_buf_size :: u16
  dv_reserved :: "u8 list"
  dv_device_caps :: u32
  dv_max_rdma_size :: u32

record efadv_ah_attr =
  av_comp_mask :: u64
  av_ahn :: u16
  av_reserved :: "u8 list"

definition EFADV_DEVICE_ATTR_CAPS_RDMA_READ :: u32 where
  "EFADV_DEVICE_ATTR_CAPS_RDMA_READ = push_bit 0 1"
definition EFADV_DEVICE_ATTR_CAPS_RNR_RETRY :: u32 where
  "EFADV_DEVICE_ATTR_CAPS_RNR_RETRY = push_bit 1 1"

definition EFA_USER_CMDS_SUPP_UDATA_QUERY_DEVICE :: u32 where
  "EFA_USER_CMDS_SUPP_UDATA_QUERY_DEVICE = push_bit 0 1"
definition EFA_USER_CMDS_SUPP_UDATA_CREATE_AH :: u32 where
  "EFA_USER_CMDS_SUPP_UDATA_CREATE_AH = push_bit 1 1"

record efa_alloc_ucontext_resp =
  ucr_cmds_supp_udata_mask :: u32
  ucr_sub_cqs_per_cq :: u16
  ucr_inline_buf_size :: u16
  ucr_max_llq_size :: u32
  ucr_max_tx_batch :: u16
  ucr_min_sq_wr :: u16

record efa_alloc_pd_resp =
  pdr_comp_mask :: u32
  pdr_pdn :: u16

record efa_create_cq_resp =
  cqr_cq_handle :: u32
  cqr_cqe :: u32
  cqr_response_length :: u32
  cqr_q_mmap_key :: u64
  cqr_q_mmap_size :: u64
  cqr_cq_idx :: u16

record efa_create_qp_resp =
  qpr_qpn :: u32
  qpr_max_send_wr :: u32
  qpr_max_recv_wr :: u32
  qpr_max_send_sge :: u32
  qpr_max_recv_sge :: u32
  qpr_max_inline_data :: u32
  qpr_rq_db_offset :: u32
  qpr_sq_db_offset :: u32
  qpr_llq_desc_offset :: u32
  qpr_rq_mmap_key :: u64
  qpr_rq_mmap_size :: u64
  qpr_rq_db_mmap_key :: u64
  qpr_sq_db_mmap_key :: u64
  qpr_llq_desc_mmap_key :: u64
  qpr_send_sub_cq_idx :: u16
  qpr_recv_sub_cq_idx :: u16

record efa_create_ah_resp =
  ahr_ah_handle :: u32
  ahr_efa_address_handle :: u16

record efa_query_device_ex_resp =
  qdr_fw_ver :: u64
  qdr_max_sq_wr :: u32
  qdr_max_rq_wr :: u32
  qdr_max_sq_sge :: u16
  qdr_max_rq_sge :: u16
  qdr_max_rdma_size :: u32
  qdr_device_caps :: u32

definition zero_ucontext_resp :: efa_alloc_ucontext_resp where
  "zero_ucontext_resp = \<lparr>ucr_cmds_supp_udata_mask = 0, ucr_sub_cqs_per_cq = 0,
     ucr_inline_buf_size = 0, ucr_max_llq_size = 0, ucr_max_tx_batch = 0, ucr_min_sq_wr = 0\<rparr>"
definition zero_pd_resp :: efa_alloc_pd_resp where
  "zero_pd_resp = \<lparr>pdr_comp_mask = 0, pdr_pdn = 0\<rparr>"
definition zero_cq_resp :: efa_create_cq_resp where
  "zero_cq_resp = \<lparr>cqr_cq_handle = 0, cqr_cqe = 0, cqr_response_length = 0, cqr_q_mmap_key = 0,
     cqr_q_mmap_size = 0, cqr_cq_idx = 0\<rparr>"
definition zero_qp_resp :: efa_create_qp_resp where
  "zero_qp_resp = \<lparr>qpr_qpn = 0, qpr_max_send_wr = 0, qpr_max_recv_wr = 0, qpr_max_send_sge = 0,
     qpr_max_recv_sge = 0, qpr_max_inline_data = 0, qpr_rq_db_offset = 0, qpr_sq_db_offset = 0,
     qpr_llq_desc_offset = 0, qpr_rq_mmap_key = 0, qpr_rq_mmap_size = 0, qpr_rq_db_mmap_key = 0,
     qpr_sq_db_mmap_key = 0, qpr_llq_desc_mmap_key = 0, qpr_send_sub_cq_idx = 0,
     qpr_recv_sub_cq_idx = 0\<rparr>"
definition zero_ah_resp :: efa_create_ah_resp where
  "zero_ah_resp = \<lparr>ahr_ah_handle = 0, ahr_efa_address_handle = 0\<rparr>"

section \<open>The device object and the world\<close>

record efa_dev =
  dev_node_name :: string
  dev_name :: string
  dev_pg_sz :: u32
  dev_device :: EFA_WIN_DEVICE
  dev_attr :: EFA_DEVICE_INFO

text \<open>\<open>calloc(1, sizeof(struct efa_dev))\<close>.\<close>

definition zero_dev :: efa_dev where
  "zero_dev = \<lparr>dev_node_name = '''', dev_name = '''', dev_pg_sz = 0,
     dev_device = \<lparr>wd_Device = 0, wd_PageSize = 0\<rparr>, dev_attr = zero_DEVICE_INFO\<rparr>"

record 'd world =
  w_drv :: 'd
  w_devs :: "ptr \<rightharpoonup> efa_dev"
  w_ctxs :: "ptr \<rightharpoonup> efa_context"
  w_pds :: "ptr \<rightharpoonup> efa_pd"
  w_mrs :: "ptr \<rightharpoonup> efa_mr"
  w_ahs :: "ptr \<rightharpoonup> efa_ah"
  w_cqs :: "ptr \<rightharpoonup> efa_cq"
  w_qps :: "ptr \<rightharpoonup> efa_qp"
  w_errno :: int

text \<open>A null or a stale pointer cannot be followed.\<close>

definition deref :: "(ptr \<rightharpoonup> 'a) \<Rightarrow> ptr option \<Rightarrow> 'a option" where
  "deref h p = Option.bind p h"

text \<open>\<open>free\<close> of an object reached through a non-null pointer.\<close>

definition free_at :: "(ptr \<rightharpoonup> 'a) \<Rightarrow> ptr \<Rightarrow> (ptr \<rightharpoonup> 'a) option" where
  "free_at h p = (case h p of None \<Rightarrow> None | Some _ \<Rightarrow> Some (h(p := None)))"

lemma deref_simps [simp, ub_simps]: "deref h None = None" "deref h (Some p) = h p"
  by (simp_all add: deref_def)

lemma free_at_live [simp, ub_simps]: "h p = Some x \<Longrightarrow> free_at h p = Some (h(p := None))"
  by (simp add: free_at_def)

lemma free_at_stale [simp, ub_simps]: "h p = None \<Longrightarrow> free_at h p = None"
  by (simp add: free_at_def)

text \<open>An allocation that fails sets \<open>errno\<close>, as the C runtime documents.\<close>

definition alloc_failed :: "'d world \<Rightarrow> 'd world" where
  "alloc_failed w = w\<lparr>w_errno := ENOMEM\<rparr>"

text \<open>\<open>to_efa_dev(context->device)\<close>.\<close>

definition edev_at :: "'d world \<Rightarrow> ptr option \<Rightarrow> efa_dev option" where
  "edev_at w context = do { c \<leftarrow> deref (w_ctxs w) context; deref (w_devs w) (ctx_device c) }"

text \<open>\<open>strncmp(device->dev_name, "EFA", 3)\<close> is zero.\<close>

definition is_efa_dev :: "efa_dev \<Rightarrow> bool" where
  "is_efa_dev dev \<longleftrightarrow> take 3 (dev_name dev) = ''EFA''"

end
