(* ===== verification/Efa_Cmd.thy ===== *)
theory Efa_Cmd
  imports Efa_World
begin

text \<open>
  \<open>efawin/ibv_win_cmd.c\<close>: the \<open>ibv_cmd_*\<close> functions, which on Linux talk to the kernel through
  uverbs and here fill the objects from the driver's answers. Each takes the pointers the C
  function takes and the world; the unused command buffers are left out, a response struct the
  function fills is passed in and returned.
\<close>

section \<open>Context, device and port\<close>

definition ibv_cmd_get_context ::
  "ptr \<Rightarrow> efa_alloc_ucontext_resp \<Rightarrow> 'd world \<Rightarrow> (int \<times> efa_alloc_ucontext_resp) option" where
  "ibv_cmd_get_context context resp w =
     do {
       dev \<leftarrow> edev_at w (Some context);
       Some (0, resp\<lparr>
         ucr_cmds_supp_udata_mask :=
           ucr_cmds_supp_udata_mask resp OR EFA_USER_CMDS_SUPP_UDATA_CREATE_AH,
         ucr_sub_cqs_per_cq := di_NumSubCqs (dev_attr dev),
         ucr_inline_buf_size := ucast (di_InlineBufSize (dev_attr dev)),
         ucr_max_llq_size := di_MaxLlqSize (dev_attr dev)\<rparr>)
     }"

text \<open>\<open>attr\<close> is \<open>attr->orig_attr\<close>; the other members of the extended struct stay as they are.\<close>

definition ibv_cmd_query_device_any ::
  "ptr option \<Rightarrow> ibv_device_attr \<Rightarrow> 'd world \<Rightarrow> (int \<times> ibv_device_attr) option" where
  "ibv_cmd_query_device_any context attr w =
     do {
       dev \<leftarrow> edev_at w context;
       let di = dev_attr dev;
       Some (0, attr\<lparr>
         da_max_qp := di_MaxQp di,
         da_max_cq := di_MaxCq di,
         da_page_size_cap := di_PageSizeCap di,
         da_device_cap_flags := di_SupportedFeatures di,
         da_hw_ver := di_DeviceVersion di,
         da_max_ah := di_MaxAh di,
         da_max_cqe := di_MaxCqDepth di,
         da_max_mr := di_MaxMr di,
         da_max_mr_size := di_MaxMrPages di,
         da_max_pd := di_MaxPd di\<rparr>)
     }"

definition ibv_cmd_query_port ::
  "ptr option \<Rightarrow> ibv_port_attr \<Rightarrow> 'd world \<Rightarrow> (int \<times> ibv_port_attr) option" where
  "ibv_cmd_query_port context port_attr w =
     do {
       dev \<leftarrow> edev_at w context;
       Some (0, port_attr\<lparr>
         pa_max_msg_sz := di_Mtu (dev_attr dev),
         pa_active_mtu := di_Mtu (dev_attr dev),
         pa_active_speed := 32,
         pa_active_width := 2,
         pa_phys_state := 5,
         pa_state := IBV_PORT_ACTIVE,
         pa_max_vl_num := 1,
         pa_gid_tbl_len := 1\<rparr>)
     }"

section \<open>Protection domains and memory regions\<close>

definition ibv_cmd_alloc_pd ::
  "'d driver \<Rightarrow> ptr option \<Rightarrow> ptr \<Rightarrow> 'd world \<Rightarrow> (int \<times> 'd world) option" where
  "ibv_cmd_alloc_pd dr context pd w =
     do {
       edev \<leftarrow> edev_at w context;
       let (err, result, d) = efa_win_alloc_pd dr (dev_device edev) \<lparr>pi_Pdn = 0\<rparr> (w_drv w);
       let w = w\<lparr>w_drv := d\<rparr>;
       if err \<noteq> 0 then Some (- ENODEV, w)
       else do {
         p \<leftarrow> w_pds w pd;
         Some (0, w\<lparr>w_pds := (w_pds w)(pd \<mapsto>
           p\<lparr>pd_context := context, pd_handle := ucast (pi_Pdn result), pdn := pi_Pdn result\<rparr>)\<rparr>)
       }
     }"

definition ibv_cmd_dealloc_pd ::
  "'d driver \<Rightarrow> ptr \<Rightarrow> 'd world \<Rightarrow> (int \<times> 'd world) option" where
  "ibv_cmd_dealloc_pd dr pd w =
     do {
       p \<leftarrow> w_pds w pd;
       edev \<leftarrow> edev_at w (pd_context p);
       let (err, d) = efa_win_dealloc_pd dr (dev_device edev) \<lparr>dpd_Pdn = ucast (pd_handle p)\<rparr> (w_drv w);
       Some (err, w\<lparr>w_drv := d\<rparr>)
     }"

text \<open>The \<open>int access\<close> is cut to the 8 bits of \<open>Permissions\<close>; \<open>hca_va\<close> is ignored.\<close>

definition ibv_cmd_reg_mr ::
  "'d driver \<Rightarrow> ptr \<Rightarrow> u64 \<Rightarrow> u64 \<Rightarrow> u64 \<Rightarrow> i32 \<Rightarrow> ptr \<Rightarrow> 'd world \<Rightarrow> (int \<times> 'd world) option" where
  "ibv_cmd_reg_mr dr pd addr len hca_va access vmr w =
     do {
       p \<leftarrow> w_pds w pd;
       edev \<leftarrow> edev_at w (pd_context p);
       let params = \<lparr>rmr_MrLen = len, rmr_MrAddr = addr, rmr_Pdn = ucast (pd_handle p),
                     rmr_Permissions = ucast access\<rparr>;
       let (err, result, d) =
         efa_win_register_mr dr (dev_device edev) params \<lparr>mi_LKey = 0, mi_RKey = 0\<rparr> (w_drv w);
       let w = w\<lparr>w_drv := d\<rparr>;
       if err = 0 then do {
         mr \<leftarrow> w_mrs w vmr;
         Some (err, w\<lparr>w_mrs := (w_mrs w)(vmr \<mapsto>
           mr\<lparr>mr_addr := addr, mr_context := pd_context p, mr_handle := 0, mr_length := len,
              mr_lkey := mi_LKey result, mr_rkey := mi_RKey result, mr_pd := Some pd\<rparr>)\<rparr>)
       }
       else Some (err, w)
     }"

definition ibv_cmd_dereg_mr ::
  "'d driver \<Rightarrow> ptr \<Rightarrow> 'd world \<Rightarrow> (int \<times> 'd world) option" where
  "ibv_cmd_dereg_mr dr vmr w =
     do {
       mr \<leftarrow> w_mrs w vmr;
       if mr_context mr = None then Some (- ENOBUFS, w)
       else do {
         edev \<leftarrow> edev_at w (mr_context mr);
         let (err, d) = efa_win_dereg_mr dr (dev_device edev) \<lparr>dmr_LKey = mr_lkey mr\<rparr> (w_drv w);
         Some (err, w\<lparr>w_drv := d\<rparr>)
       }
     }"

section \<open>Completion queues\<close>

abbreviation UINT16_MAX :: nat where "UINT16_MAX \<equiv> 65535"
abbreviation UINT8_MAX :: nat where "UINT8_MAX \<equiv> 255"

text \<open>
  The size of the ring is computed in \<open>size_t\<close>: the first product, of two \<open>uint16_t\<close>, is a
  product of \<open>int\<close>s, which may overflow; it is converted and multiplied by the entry size.
  The condition variable and the mutex of the queue have no observable state here.
\<close>

definition cq_ring_bytes :: "u16 \<Rightarrow> u16 \<Rightarrow> u64 \<Rightarrow> u64 option" where
  "cq_ring_bytes depth n_sub entry =
     (if unat depth * unat n_sub < 2 ^ 31
      then Some (of_nat (unat depth * unat n_sub) * entry) else None)"

definition ibv_cmd_create_cq_ex ::
  "'d driver \<Rightarrow> ptr option \<Rightarrow> ibv_cq_init_attr_ex \<Rightarrow> ptr \<Rightarrow> efa_create_cq_resp \<Rightarrow> u64 \<Rightarrow> 'd world
     \<Rightarrow> (int \<times> efa_create_cq_resp \<times> 'd world) option" where
  "ibv_cmd_create_cq_ex dr context cq_attr cq resp resp_size w =
     do {
       ctx \<leftarrow> deref (w_ctxs w) context;
       edev \<leftarrow> edev_at w context;
       if unat resp_size > 2 ^ 32 - 1 then Some (E_INVALIDARG, resp, w)
       else do {
         cqe_rounded \<leftarrow> roundup_pow_of_two (ucast (ca_cqe cq_attr));
         if unat cqe_rounded > UINT16_MAX then Some (E_INVALIDARG, resp, w)
         else if unat (ctx_cqe_size ctx) > UINT8_MAX then Some (E_INVALIDARG, resp, w)
         else do {
           let params = zero_CREATE_CQ_PARAMS\<lparr>ccq_CqDepth := ucast cqe_rounded,
             ccq_NumSubCqs := sub_cqs_per_cq ctx,
             ccq_EntrySizeInBytes := ucast (ctx_cqe_size ctx)\<rparr>;
           let (err, result, d) =
             efa_win_create_cq dr (dev_device edev) params zero_CQ_INFO (w_drv w);
           let w = w\<lparr>w_drv := d\<rparr>;
           if err \<noteq> 0 then Some (err, resp, w)
           else do {
             c \<leftarrow> w_cqs w cq;
             sz \<leftarrow> cq_ring_bytes (ci_CqActualDepth result) (sub_cqs_per_cq ctx) (ctx_cqe_size ctx);
             let ibv = (verbs_cq c)\<lparr>cq_async_events_completed := 0, cq_comp_events_completed := 0,
               cq_channel := ca_channel cq_attr, cq_context_ptr := context,
               cq_cqe := ucast (ci_CqActualDepth result), cq_cq_context := ca_cq_context cq_attr,
               cq_handle := ucast (ci_CqIndex result)\<rparr>;
             let c = c\<lparr>verbs_cq := ibv, cq_buf := ci_CqAddr result,
               num_sub_cqs := sub_cqs_per_cq ctx, cq_buf_size := sz,
               cqn := ucast (ci_CqIndex result)\<rparr>;
             let resp = resp\<lparr>cqr_cq_handle := ucast (ci_CqIndex result),
               cqr_cqe := ucast (ci_CqActualDepth result), cqr_response_length := ucast resp_size,
               cqr_q_mmap_size := cq_buf_size c, cqr_cq_idx := ci_CqIndex result\<rparr>;
             Some (0, resp, w\<lparr>w_cqs := (w_cqs w)(cq \<mapsto> c)\<rparr>)
           }
         }
       }
     }"

definition ibv_cmd_destroy_cq ::
  "'d driver \<Rightarrow> ptr \<Rightarrow> 'd world \<Rightarrow> (int \<times> 'd world) option" where
  "ibv_cmd_destroy_cq dr cq w =
     do {
       c \<leftarrow> w_cqs w cq;
       edev \<leftarrow> edev_at w (cq_context_ptr (verbs_cq c));
       let (err, d) = efa_win_destroy_cq dr (dev_device edev)
         \<lparr>dcq_CqIndex = ucast (cq_handle (verbs_cq c))\<rparr> (w_drv w);
       Some (err, w\<lparr>w_drv := d\<rparr>)
     }"

section \<open>Queue pairs\<close>

abbreviation sizeof_rx_desc :: nat where "sizeof_rx_desc \<equiv> 16"
abbreviation sizeof_tx_wqe :: nat where "sizeof_tx_wqe \<equiv> 64"

text \<open>\<open>(desc_mask + 1) * sizeof(desc)\<close>: the mask is promoted to \<open>int\<close> before the addition.\<close>

definition ring_bytes :: "u16 \<Rightarrow> nat \<Rightarrow> u32" where
  "ring_bytes msk sz = of_nat ((unat msk + 1) * sz)"

definition create_qp_params ::
  "efa_pd \<Rightarrow> efa_cq \<Rightarrow> efa_cq \<Rightarrow> ibv_qp_init_attr_ex \<Rightarrow> efa_qp \<Rightarrow> EFA_CREATE_QP_PARAMS" where
  "create_qp_params pd scq rcq attr_ex qp =
     \<lparr>cqp_SendCqIndex = cq_handle (verbs_cq scq),
      cqp_RecvCqIndex = cq_handle (verbs_cq rcq),
      cqp_RqDepth = wqe_cnt (rq_wq (qp_rq qp)),
      cqp_SqDepth = wqe_cnt (sq_wq (qp_sq qp)),
      cqp_SqRingSizeInBytes = ring_bytes (desc_mask (sq_wq (qp_sq qp))) sizeof_tx_wqe,
      cqp_RqRingSizeInBytes = ring_bytes (desc_mask (rq_wq (qp_rq qp))) sizeof_rx_desc,
      cqp_Pdn = ucast (pd_handle pd),
      cqp_QpType = (if ia_qp_type (iax_base attr_ex) = IBV_QPT_UD then EFA_WIN_QP_UD
                    else EFA_WIN_QP_SRD)\<rparr>"

text \<open>The queue pair filled from the driver's answer.\<close>

definition fill_ibv_qp ::
  "efa_pd \<Rightarrow> ibv_qp_init_attr_ex \<Rightarrow> EFA_CREATE_QP_PARAMS \<Rightarrow> EFA_QP_INFO \<Rightarrow> verbs_qp \<Rightarrow> verbs_qp" where
  "fill_ibv_qp pd attr_ex params result v =
     v\<lparr>qp_handle := qi_QpHandle result,
       qp_num := qi_QpNum result,
       qp_context_ptr := pd_context pd,
       qp_qp_context := ia_qp_context (iax_base attr_ex),
       qp_pd := iax_pd attr_ex,
       qp_send_cq := ia_send_cq (iax_base attr_ex),
       qp_recv_cq := ia_recv_cq (iax_base attr_ex),
       qp_type := EFA_WIN_QP_TYPE_val (cqp_QpType params),
       qp_state := IBV_QPS_RESET,
       qp_events_completed := 0\<rparr>"

definition fill_efa_qp :: "EFA_CREATE_QP_PARAMS \<Rightarrow> EFA_QP_INFO \<Rightarrow> efa_qp \<Rightarrow> efa_qp" where
  "fill_efa_qp params result qp =
     (let rq = (qp_rq qp)\<lparr>rq_buf_size := ucast (cqp_RqRingSizeInBytes params),
                 rq_buf := qi_RqAddr result\<rparr>;
          rq = rq\<lparr>rq_wq := (rq_wq rq)\<lparr>wq_db := qi_RqDoorbellAddr result,
                 wq_sub_cq_idx := ucast (qi_RecvSubCqIndex result)\<rparr>\<rparr>;
          sq = (qp_sq qp)\<lparr>desc_ring_mmap_size := ucast (cqp_SqRingSizeInBytes params),
                 sq_desc := qi_SqAddr result\<rparr>;
          sq = sq\<lparr>sq_wq := (sq_wq sq)\<lparr>wq_db := qi_SqDoorbellAddr result,
                 wq_sub_cq_idx := ucast (qi_SendSubCqIndex result)\<rparr>\<rparr>
      in qp\<lparr>qp_page_size := of_nat PAGE_SIZE, qp_rq := rq, qp_sq := sq\<rparr>)"

definition fill_qp_resp ::
  "ibv_qp_init_attr_ex \<Rightarrow> EFA_QP_INFO \<Rightarrow> u64 \<Rightarrow> efa_create_qp_resp \<Rightarrow> efa_create_qp_resp" where
  "fill_qp_resp attr_ex result rq_size resp =
     (let cap = ia_cap (iax_base attr_ex) in
      resp\<lparr>qpr_qpn := qi_QpNum result,
        qpr_max_inline_data := cap_max_inline_data cap,
        qpr_max_recv_sge := max_recv_sge cap,
        qpr_max_send_sge := max_send_sge cap,
        qpr_max_recv_wr := max_recv_wr cap,
        qpr_max_send_wr := max_send_wr cap,
        qpr_rq_mmap_size := rq_size,
        qpr_recv_sub_cq_idx := ucast (qi_RecvSubCqIndex result),
        qpr_send_sub_cq_idx := ucast (qi_SendSubCqIndex result)\<rparr>)"

definition ibv_cmd_create_qp_ex ::
  "'d driver \<Rightarrow> ptr \<Rightarrow> ibv_qp_init_attr_ex \<Rightarrow> efa_create_qp_resp \<Rightarrow> 'd world
     \<Rightarrow> (int \<times> efa_create_qp_resp \<times> 'd world) option" where
  "ibv_cmd_create_qp_ex dr qp attr_ex resp w =
     do {
       pd \<leftarrow> deref (w_pds w) (iax_pd attr_ex);
       edev \<leftarrow> edev_at w (pd_context pd);
       scq \<leftarrow> deref (w_cqs w) (ia_send_cq (iax_base attr_ex));
       rcq \<leftarrow> deref (w_cqs w) (ia_recv_cq (iax_base attr_ex));
       q \<leftarrow> w_qps w qp;
       let params = create_qp_params pd scq rcq attr_ex q;
       let (err, result, d) = efa_win_create_qp dr (dev_device edev) params zero_QP_INFO (w_drv w);
       let w = w\<lparr>w_drv := d\<rparr>;
       if err \<noteq> 0 then Some (err, resp, w)
       else do {
         let q = q\<lparr>verbs_qp := fill_ibv_qp pd attr_ex params result (verbs_qp q)\<rparr>;
         let q = fill_efa_qp params result q;
         Some (0, fill_qp_resp attr_ex result (rq_buf_size (qp_rq q)) resp,
               w\<lparr>w_qps := (w_qps w)(qp \<mapsto> q)\<rparr>)
       }
     }"

text \<open>Querying a queue pair is not supported.\<close>

definition ibv_cmd_query_qp :: int where "ibv_cmd_query_qp = - 1"

definition modify_qp_params :: "efa_qp \<Rightarrow> ibv_qp_attr \<Rightarrow> u32 \<Rightarrow> EFA_MODIFY_QP_PARAMS" where
  "modify_qp_params qp attr attr_mask =
     (let p = zero_MODIFY_QP_PARAMS\<lparr>mq_QpHandle := qp_handle (verbs_qp qp)\<rparr>;
          p = (if attr_mask AND IBV_QP_STATE \<noteq> 0
               then p\<lparr>mq_ModifyMask := mq_ModifyMask p OR EFA_MODIFY_QP_STATE_MASK,
                      mq_QpState := ibv_qp_state_val (at_qp_state attr)\<rparr> else p);
          p = (if attr_mask AND IBV_QP_CUR_STATE \<noteq> 0
               then p\<lparr>mq_ModifyMask := mq_ModifyMask p OR EFA_MODIFY_QP_CUR_STATE_MASK,
                      mq_QpCurState := ibv_qp_state_val (at_cur_qp_state attr)\<rparr> else p);
          p = (if attr_mask AND IBV_QP_QKEY \<noteq> 0
               then p\<lparr>mq_ModifyMask := mq_ModifyMask p OR EFA_MODIFY_QP_QKEY_MASK,
                      mq_QKey := at_qkey attr\<rparr> else p);
          p = (if attr_mask AND IBV_QP_SQ_PSN \<noteq> 0
               then p\<lparr>mq_ModifyMask := mq_ModifyMask p OR EFA_MODIFY_QP_SQ_PSN_MASK,
                      mq_SqPsn := at_sq_psn attr\<rparr> else p);
          p = (if attr_mask AND IBV_QP_EN_SQD_ASYNC_NOTIFY \<noteq> 0
               then p\<lparr>mq_ModifyMask :=
                        mq_ModifyMask p OR EFA_MODIFY_QP_SQ_DRAINED_ASYNC_NOTIFY_MASK,
                      mq_SqDrainedAsyncNotify := at_en_sqd_async_notify attr\<rparr> else p)
      in if attr_mask AND IBV_QP_RNR_RETRY \<noteq> 0
         then p\<lparr>mq_ModifyMask := mq_ModifyMask p OR EFA_MODIFY_QP_RNR_RETRY_MASK,
                mq_RnrRetry := at_rnr_retry attr\<rparr> else p)"

definition ibv_cmd_modify_qp ::
  "'d driver \<Rightarrow> ptr \<Rightarrow> ibv_qp_attr \<Rightarrow> u32 \<Rightarrow> 'd world \<Rightarrow> (int \<times> 'd world) option" where
  "ibv_cmd_modify_qp dr qp attr attr_mask w =
     do {
       q \<leftarrow> w_qps w qp;
       edev \<leftarrow> edev_at w (qp_context_ptr (verbs_qp q));
       let (err, d) =
         efa_win_modify_qp dr (dev_device edev) (modify_qp_params q attr attr_mask) (w_drv w);
       Some (err, w\<lparr>w_drv := d\<rparr>)
     }"

definition ibv_cmd_modify_qp_ex :: int where "ibv_cmd_modify_qp_ex = ENOTSUP"

definition ibv_cmd_destroy_qp ::
  "'d driver \<Rightarrow> ptr \<Rightarrow> 'd world \<Rightarrow> (int \<times> 'd world) option" where
  "ibv_cmd_destroy_qp dr qp w =
     do {
       q \<leftarrow> w_qps w qp;
       edev \<leftarrow> edev_at w (qp_context_ptr (verbs_qp q));
       let (err, d) = efa_win_destroy_qp dr (dev_device edev)
         \<lparr>dqp_QpHandle = qp_handle (verbs_qp q)\<rparr> (w_drv w);
       Some (err, w\<lparr>w_drv := d\<rparr>)
     }"

section \<open>Address handles\<close>

text \<open>On failure this function frees the handle its caller allocated.\<close>

definition ibv_cmd_create_ah ::
  "'d driver \<Rightarrow> ptr \<Rightarrow> ptr \<Rightarrow> ibv_ah_attr \<Rightarrow> efa_create_ah_resp \<Rightarrow> 'd world
     \<Rightarrow> (int \<times> efa_create_ah_resp \<times> 'd world) option" where
  "ibv_cmd_create_ah dr pd ah attr resp w =
     do {
       p \<leftarrow> w_pds w pd;
       edev \<leftarrow> edev_at w (pd_context p);
       let params = \<lparr>cah_Pdn = ucast (pd_handle p),
                     cah_DestAddr = take EFA_GID_SIZE (gr_dgid (aa_grh attr))\<rparr>;
       let (err, result, d) =
         efa_win_create_ah dr (dev_device edev) params \<lparr>ai_AddressHandle = 0\<rparr> (w_drv w);
       let w = w\<lparr>w_drv := d\<rparr>;
       if err \<noteq> 0 then do {
         h \<leftarrow> free_at (w_ahs w) ah;
         Some (err, resp, w\<lparr>w_ahs := h\<rparr>)
       }
       else do {
         a \<leftarrow> w_ahs w ah;
         let a = a\<lparr>ah_context := pd_context p, ah_handle := ucast (ai_AddressHandle result),
           ah_pd := Some pd, ah_efa_ah := ai_AddressHandle result\<rparr>;
         Some (err, resp\<lparr>ahr_ah_handle := ucast (ai_AddressHandle result),
                         ahr_efa_address_handle := ai_AddressHandle result\<rparr>,
               w\<lparr>w_ahs := (w_ahs w)(ah \<mapsto> a)\<rparr>)
       }
     }"

definition ibv_cmd_destroy_ah ::
  "'d driver \<Rightarrow> ptr \<Rightarrow> 'd world \<Rightarrow> (int \<times> 'd world) option" where
  "ibv_cmd_destroy_ah dr ah w =
     do {
       a \<leftarrow> w_ahs w ah;
       edev \<leftarrow> edev_at w (ah_context a);
       p \<leftarrow> deref (w_pds w) (ah_pd a);
       let (err, d) = efa_win_destroy_ah dr (dev_device edev)
         \<lparr>dah_Pdn = ucast (pd_handle p), dah_AddressHandle = ucast (ah_handle a)\<rparr> (w_drv w);
       Some (err, w\<lparr>w_drv := d\<rparr>)
     }"

end
