(* ===== verification/Efa_Pd.thy ===== *)
theory Efa_Pd
  imports Efa_Cmd
begin

text \<open>
  Protection domains, memory regions and address handles of \<open>efawin/verbs.c\<close>: allocation and
  release over the command layer, and \<open>efadv_query_ah\<close>.
\<close>

section \<open>The operations\<close>

text \<open>
  \<open>m\<close> is the outcome of the \<open>calloc\<close>. The response of the command is never filled on this
  platform, so \<open>pd->pdn\<close> is overwritten with 0.
\<close>

definition efa_alloc_pd ::
  "'d driver \<Rightarrow> ptr option \<Rightarrow> ptr option \<Rightarrow> 'd world \<Rightarrow> (ptr option \<times> 'd world) option" where
  "efa_alloc_pd dr m ibvctx w =
     (case m of
        None \<Rightarrow> Some (None, alloc_failed w)
      | Some pd \<Rightarrow>
          do {
            let resp = zero_pd_resp;
            let w = w\<lparr>w_pds := (w_pds w)(pd \<mapsto> zero_pd)\<rparr>;
            (err, w) \<leftarrow> ibv_cmd_alloc_pd dr ibvctx pd w;
            if err \<noteq> 0 then do {
              h \<leftarrow> free_at (w_pds w) pd;
              Some (None, w\<lparr>w_pds := h, w_errno := err\<rparr>)
            }
            else do {
              p \<leftarrow> w_pds w pd;
              Some (Some pd, w\<lparr>w_pds := (w_pds w)(pd \<mapsto> p\<lparr>pdn := pdr_pdn resp\<rparr>)\<rparr>)
            }
          })"

definition efa_dealloc_pd ::
  "'d driver \<Rightarrow> ptr \<Rightarrow> 'd world \<Rightarrow> (int \<times> 'd world) option" where
  "efa_dealloc_pd dr ibvpd w =
     do {
       (err, w) \<leftarrow> ibv_cmd_dealloc_pd dr ibvpd w;
       if err \<noteq> 0 then Some (err, w)
       else do {
         h \<leftarrow> free_at (w_pds w) ibvpd;
         Some (0, w\<lparr>w_pds := h\<rparr>)
       }
     }"

definition efa_reg_mr ::
  "'d driver \<Rightarrow> ptr option \<Rightarrow> ptr \<Rightarrow> u64 \<Rightarrow> u64 \<Rightarrow> u64 \<Rightarrow> i32 \<Rightarrow> 'd world
     \<Rightarrow> (ptr option \<times> 'd world) option" where
  "efa_reg_mr dr m ibvpd sva len hca_va access w =
     (case m of
        None \<Rightarrow> Some (None, alloc_failed w)
      | Some mr \<Rightarrow>
          do {
            let w = w\<lparr>w_mrs := (w_mrs w)(mr \<mapsto> zero_mr)\<rparr>;
            (err, w) \<leftarrow> ibv_cmd_reg_mr dr ibvpd sva len hca_va access mr w;
            if err \<noteq> 0 then do {
              h \<leftarrow> free_at (w_mrs w) mr;
              Some (None, w\<lparr>w_mrs := h, w_errno := err\<rparr>)
            }
            else Some (Some mr, w)
          })"

definition efa_dereg_mr ::
  "'d driver \<Rightarrow> ptr \<Rightarrow> 'd world \<Rightarrow> (int \<times> 'd world) option" where
  "efa_dereg_mr dr vmr w =
     do {
       (err, w) \<leftarrow> ibv_cmd_dereg_mr dr vmr w;
       if err \<noteq> 0 then Some (err, w)
       else do {
         h \<leftarrow> free_at (w_mrs w) vmr;
         Some (0, w\<lparr>w_mrs := h\<rparr>)
       }
     }"

text \<open>On a failed command this function frees the handle the command layer has freed.\<close>

definition efa_create_ah ::
  "'d driver \<Rightarrow> ptr option \<Rightarrow> ptr \<Rightarrow> ibv_ah_attr \<Rightarrow> 'd world \<Rightarrow> (ptr option \<times> 'd world) option"
where
  "efa_create_ah dr m ibvpd attr w =
     (case m of
        None \<Rightarrow> Some (None, alloc_failed w)
      | Some ah \<Rightarrow>
          do {
            let w = w\<lparr>w_ahs := (w_ahs w)(ah \<mapsto> zero_ah)\<rparr>;
            (err, resp, w) \<leftarrow> ibv_cmd_create_ah dr ibvpd ah attr zero_ah_resp w;
            if err \<noteq> 0 then do {
              h \<leftarrow> free_at (w_ahs w) ah;
              Some (None, w\<lparr>w_ahs := h, w_errno := err\<rparr>)
            }
            else do {
              a \<leftarrow> w_ahs w ah;
              Some (Some ah, w\<lparr>w_ahs := (w_ahs w)(ah \<mapsto>
                a\<lparr>ah_efa_ah := ahr_efa_address_handle resp\<rparr>)\<rparr>)
            }
          })"

definition efa_destroy_ah ::
  "'d driver \<Rightarrow> ptr \<Rightarrow> 'd world \<Rightarrow> (int \<times> 'd world) option" where
  "efa_destroy_ah dr ibvah w =
     do {
       (err, w) \<leftarrow> ibv_cmd_destroy_ah dr ibvah w;
       if err \<noteq> 0 then Some (err, w)
       else do {
         h \<leftarrow> free_at (w_ahs w) ibvah;
         Some (0, w\<lparr>w_ahs := h\<rparr>)
       }
     }"

text \<open>
  \<open>memset(attr, 0, inlen)\<close> clears the reserved bytes \<open>inlen\<close> reaches; what it clears beyond the
  struct belongs to a newer caller. The stores to the other members are the same whether
  \<open>inlen\<close> covers them or ends inside one.
\<close>

abbreviation efadv_ah_attr_members :: "nat list" where
  "efadv_ah_attr_members \<equiv> [8, 2] @ replicate 6 1"

definition efadv_query_ah ::
  "ptr \<Rightarrow> efadv_ah_attr \<Rightarrow> u32 \<Rightarrow> 'd world \<Rightarrow> (int \<times> efadv_ah_attr) option" where
  "efadv_query_ah ibvah attr inlen w =
     do {
       a \<leftarrow> w_ahs w ibvah;
       dev \<leftarrow> edev_at w (ah_context a);
       if \<not> is_efa_dev dev then Some (EOPNOTSUPP, attr)
       else if \<not> vext_field_avail (c_offsetof efadv_ah_attr_members 1) inlen then Some (EINVAL, attr)
       else
         Some (0, attr\<lparr>av_comp_mask := 0, av_ahn := ah_efa_ah a,
           av_reserved := map (\<lambda>i. if c_offsetof efadv_ah_attr_members (2 + i) < unat inlen
                                   then 0 else av_reserved attr ! i)
                              [0..<length (av_reserved attr)]\<rparr>)
     }"

end
