(* ===== verification/Efa_Cq_Ctl.thy ===== *)
theory Efa_Cq_Ctl
  imports Efa_Cmd Efa_Cq_Ring
begin

text \<open>
  Creating and destroying completion queues (\<open>efawin/verbs.c\<close>, \<open>create_cq\<close> to
  \<open>efa_cq_dec_ref_cnt\<close>), and what a new queue offers to the polling code: each sub-queue is a
  ring of \<open>Efa_Cq_Ring\<close> over its own part of the buffer.
\<close>

section \<open>The operations\<close>

text \<open>
  The loop that cuts the buffer into the rings of the sub-queues; a pointer before the buffer
  is undefined.
\<close>

definition init_sub_cqs :: "nat \<Rightarrow> i32 \<Rightarrow> i32 \<Rightarrow> efa_sub_cq list \<Rightarrow> (efa_sub_cq list) option" where
  "init_sub_cqs n sub_cq_size cqe_size arr =
     map_option fst
       (for_range 0 n
         (\<lambda>i (arr, buf).
           do {
             s \<leftarrow> arr_get arr i;
             c_assert (0 \<le> buf);
             arr \<leftarrow> arr_set arr i (efa_sub_cq_initialize s (nat buf) sub_cq_size cqe_size);
             Some (arr, buf + sint (cqe_size * sub_cq_size))
           })
         (arr, 0 :: int))"

text \<open>
  \<open>sub_buf_size\<close> is an \<open>int\<close>: the product of a \<open>size_t\<close> and an \<open>int\<close>, cut to 32 bits. The
  buffer was mapped by the driver; \<open>resp\<close> was filled by the command, which only compares the
  size of that struct with \<open>UINT32_MAX\<close>.
\<close>

definition sizeof_efa_create_cq_resp :: u64 where
  "sizeof_efa_create_cq_resp =
     of_nat (c_sizeof ([4, 4, 8, 4, 4, 4] @ replicate 4 1 @ [8, 8, 2] @ replicate 6 1))"

lemma sizeof_efa_create_cq_resp [simp]: "sizeof_efa_create_cq_resp = 56"
  by code_simp

definition create_cq ::
  "'d driver \<Rightarrow> ptr option \<Rightarrow> ptr option \<Rightarrow> ibv_cq_init_attr_ex \<Rightarrow> 'd world
     \<Rightarrow> (ptr option \<times> ibv_cq_init_attr_ex \<times> 'd world) option" where
  "create_cq dr m ibvctx attr w =
     do {
       ctx \<leftarrow> deref (w_ctxs w) ibvctx;
       case m of
         None \<Rightarrow> Some (None, attr, alloc_failed w)
       | Some cq \<Rightarrow>
           do {
             let n = sub_cqs_per_cq ctx;
             let w = w\<lparr>w_cqs := (w_cqs w)(cq \<mapsto> zero_cq (unat n))\<rparr>;
             cqe \<leftarrow> roundup_pow_of_two (ucast (ca_cqe attr));
             let attr = attr\<lparr>ca_cqe := ucast cqe\<rparr>;
             (err, resp, w) \<leftarrow> ibv_cmd_create_cq_ex dr ibvctx attr cq zero_cq_resp
               sizeof_efa_create_cq_resp w;
             if err \<noteq> 0 then do {
               h \<leftarrow> free_at (w_cqs w) cq;
               Some (None, attr, w\<lparr>w_errno := err, w_cqs := h\<rparr>)
             }
             else do {
               c \<leftarrow> w_cqs w cq;
               let sub_cq_size = cq_cqe (verbs_cq c);
               let c = c\<lparr>cqn := ucast (cqr_cq_idx resp), cq_buf_size := cqr_q_mmap_size resp,
                 num_sub_cqs := n, cq_cqe_size := ctx_cqe_size ctx\<rparr>;
               arr \<leftarrow> init_sub_cqs (unat n) sub_cq_size (ucast (cq_cqe_size c)) (sub_cq_arr c);
               let c = c\<lparr>sub_cq_arr := arr,
                 verbs_cq := efa_cq_fill_pfns (verbs_cq c) (ca_wc_flags attr), cq_lock := 0\<rparr>;
               Some (Some cq, attr, w\<lparr>w_cqs := (w_cqs w)(cq \<mapsto> c)\<rparr>)
             }
           }
     }"

definition efa_create_cq ::
  "'d driver \<Rightarrow> ptr option \<Rightarrow> ptr option \<Rightarrow> i32 \<Rightarrow> ptr option \<Rightarrow> i32 \<Rightarrow> 'd world
     \<Rightarrow> (ptr option \<times> 'd world) option" where
  "efa_create_cq dr m ibvctx ncqe channel vec w =
     do {
       (cq, _, w) \<leftarrow> create_cq dr m ibvctx
         \<lparr>ca_cqe = ncqe, ca_cq_context = 0, ca_channel = channel, ca_comp_vector = vec,
          ca_wc_flags = 0, ca_comp_mask = 0\<rparr> w;
       Some (cq, w)
     }"

definition efa_create_cq_ex ::
  "'d driver \<Rightarrow> ptr option \<Rightarrow> ptr option \<Rightarrow> ibv_cq_init_attr_ex \<Rightarrow> 'd world
     \<Rightarrow> (ptr option \<times> ibv_cq_init_attr_ex \<times> 'd world) option" where
  "efa_create_cq_ex dr m ibvctx attr_ex w =
     (if \<not> check_comp_mask (ucast (ca_comp_mask attr_ex)) 0 \<or>
         \<not> check_comp_mask (ca_wc_flags attr_ex) IBV_WC_STANDARD_FLAGS
      then Some (None, attr_ex, w\<lparr>w_errno := EOPNOTSUPP\<rparr>)
      else create_cq dr m ibvctx attr_ex w)"

definition efa_destroy_cq ::
  "'d driver \<Rightarrow> ptr \<Rightarrow> 'd world \<Rightarrow> (int \<times> 'd world) option" where
  "efa_destroy_cq dr ibvcq w =
     do {
       (err, w) \<leftarrow> ibv_cmd_destroy_cq dr ibvcq w;
       if err \<noteq> 0 then Some (err, w)
       else do {
         h \<leftarrow> free_at (w_cqs w) ibvcq;
         Some (0, w\<lparr>w_cqs := h\<rparr>)
       }
     }"

text \<open>The number of queue pairs that complete into each sub-queue.\<close>

definition efa_cq_inc_ref_cnt :: "efa_cq \<Rightarrow> u8 \<Rightarrow> efa_cq option" where
  "efa_cq_inc_ref_cnt cq sub_cq_idx =
     do {
       s \<leftarrow> arr_get (sub_cq_arr cq) (unat sub_cq_idx);
       arr \<leftarrow> arr_set (sub_cq_arr cq) (unat sub_cq_idx) (s\<lparr>sub_ref_cnt := sub_ref_cnt s + 1\<rparr>);
       Some (cq\<lparr>sub_cq_arr := arr\<rparr>)
     }"

definition efa_cq_dec_ref_cnt :: "efa_cq \<Rightarrow> u8 \<Rightarrow> efa_cq option" where
  "efa_cq_dec_ref_cnt cq sub_cq_idx =
     do {
       s \<leftarrow> arr_get (sub_cq_arr cq) (unat sub_cq_idx);
       arr \<leftarrow> arr_set (sub_cq_arr cq) (unat sub_cq_idx) (s\<lparr>sub_ref_cnt := sub_ref_cnt s - 1\<rparr>);
       Some (cq\<lparr>sub_cq_arr := arr\<rparr>)
     }"

end
