(* ===== verification/Efa_Qp.thy ===== *)
theory Efa_Qp
  imports Efa_Cq_Ctl Efa_Wq "HOL-Library.Signed_Division"
begin

text \<open>
  Queue pairs (\<open>efawin/verbs.c\<close>, \<open>efa_wq_terminate\<close> to \<open>efa_destroy_qp\<close>): the checks on the
  attributes, the sizes of the queues, creation with its roll-back, modification, destruction.
\<close>

section \<open>The send and the receive queue\<close>

definition efa_sq_terminate :: "efa_qp \<Rightarrow> efa_qp option" where
  "efa_sq_terminate qp =
     (if wqe_cnt (sq_wq (qp_sq qp)) = 0 then Some qp
      else do {
        q \<leftarrow> cb_free (local_queue (qp_sq qp));
        wq \<leftarrow> efa_wq_terminate (sq_wq (qp_sq qp));
        Some (qp\<lparr>qp_sq := (qp_sq qp)\<lparr>local_queue := q, sq_wq := wq\<rparr>\<rparr>)
      })"

definition efa_rq_terminate :: "efa_qp \<Rightarrow> efa_qp option" where
  "efa_rq_terminate qp =
     (if wqe_cnt (rq_wq (qp_rq qp)) = 0 then Some qp
      else do {
        wq \<leftarrow> efa_wq_terminate (rq_wq (qp_rq qp));
        Some (qp\<lparr>qp_rq := (qp_rq qp)\<lparr>rq_wq := wq\<rparr>\<rparr>)
      })"

text \<open>The outcomes of the allocations of one queue pair, in the order they are made.\<close>

record qp_allocs =
  al_qp :: "ptr option"
  al_rq_wrid :: "(nat \<Rightarrow> u64) option"
  al_rq_pool :: "(nat \<Rightarrow> u32) option"
  al_sq_wrid :: "(nat \<Rightarrow> u64) option"
  al_sq_pool :: "(nat \<Rightarrow> u32) option"
  al_local_queue :: "(nat \<Rightarrow> efa_io_tx_wqe) option"

text \<open>The batch limit: the transmit batch of the device in entries, capped for a small queue.\<close>

definition sq_batch_limit :: "efa_context \<Rightarrow> u32 \<Rightarrow> u16" where
  "sq_batch_limit ctx cnt =
     (let b = (if max_tx_batch ctx \<noteq> 0 then of_nat (unat (max_tx_batch ctx) * 64 div sizeof_tx_wqe)
               else 0xffff) :: u16
      in if min_sq_wr ctx \<noteq> 0 then ucast (min (ucast b) (cnt - 1)) else b)"

definition efa_sq_initialize ::
  "qp_allocs \<Rightarrow> (ptr \<rightharpoonup> efa_context) \<Rightarrow> efa_qp \<Rightarrow> ibv_qp_init_attr_ex \<Rightarrow> efa_create_qp_resp
     \<Rightarrow> (int \<times> efa_qp) option" where
  "efa_sq_initialize al ctxs qp attr resp =
     do {
       let sq = qp_sq qp;
       if wqe_cnt (sq_wq sq) = 0 then Some (0, qp)
       else do {
         ctx \<leftarrow> deref ctxs (qp_context_ptr (verbs_qp qp));
         (err, wq) \<leftarrow> efa_wq_initialize (al_sq_wrid al) (al_sq_pool al) (sq_wq sq)
           (qpr_send_sub_cq_idx resp);
         let sq = sq\<lparr>sq_wq := wq\<rparr>;
         if err \<noteq> 0 then Some (err, qp\<lparr>qp_sq := sq\<rparr>)
         else do {
           let desc_ring_size = (ucast (wqe_cnt (sq_wq sq)) :: u64) * of_nat sizeof_tx_wqe;
           let sq = sq\<lparr>desc_offset := qpr_llq_desc_offset resp\<rparr>;
           let sq = sq\<lparr>
             desc_ring_mmap_size :=
               ucast (align (ucast (desc_ring_size + ucast (desc_offset sq))) (qp_page_size qp)),
             max_inline_data := ucast (cap_max_inline_data (ia_cap (iax_base attr))),
             local_queue := malloc_arr (al_local_queue al) (unat (wqe_cnt (sq_wq sq)))\<rparr>;
           if local_queue sq = Null then do {
             wq \<leftarrow> efa_wq_terminate (sq_wq sq);
             Some (ENOMEM, qp\<lparr>qp_sq := sq\<lparr>sq_wq := wq\<rparr>\<rparr>)
           }
           else
             Some (0, qp\<lparr>qp_sq := sq\<lparr>
               max_wr_rdma_sge := min (ucast (ctx_max_wr_rdma_sge ctx)) EFA_IO_TX_DESC_NUM_RDMA_BUFS,
               max_batch_wr := sq_batch_limit ctx (wqe_cnt (sq_wq sq))\<rparr>\<rparr>)
         }
       }
     }"

definition efa_rq_initialize ::
  "qp_allocs \<Rightarrow> (ptr \<rightharpoonup> efa_context) \<Rightarrow> efa_qp \<Rightarrow> efa_create_qp_resp \<Rightarrow> (int \<times> efa_qp) option"
where
  "efa_rq_initialize al ctxs qp resp =
     (let rq = qp_rq qp in
      if wqe_cnt (rq_wq rq) = 0 then Some (0, qp)
      else do {
        ctx \<leftarrow> deref ctxs (qp_context_ptr (verbs_qp qp));
        (err, wq) \<leftarrow> efa_wq_initialize (al_rq_wrid al) (al_rq_pool al) (rq_wq rq)
          (qpr_recv_sub_cq_idx resp);
        let rq = rq\<lparr>rq_wq := wq\<rparr>;
        if err \<noteq> 0 then Some (err, qp\<lparr>qp_rq := rq\<rparr>)
        else Some (0, qp\<lparr>qp_rq := rq\<lparr>rq_buf_size := qpr_rq_mmap_size resp\<rparr>\<rparr>)
      })"

definition init_wq_indices :: "efa_wq \<Rightarrow> efa_wq" where
  "init_wq_indices wq =
     wq\<lparr>wqe_posted := 0, wqe_completed := 0, wq_pc := 0, wrid_idx_pool_next := 0\<rparr>"

definition efa_qp_init_indices :: "efa_qp \<Rightarrow> efa_qp" where
  "efa_qp_init_indices qp =
     qp\<lparr>qp_sq := (qp_sq qp)\<lparr>sq_wq := init_wq_indices (sq_wq (qp_sq qp))\<rparr>,
        qp_rq := (qp_rq qp)\<lparr>rq_wq := init_wq_indices (rq_wq (qp_rq qp))\<rparr>\<rparr>"

text \<open>
  A division of C \<open>int\<close>s, which truncates and is undefined for a zero divisor. The descriptor
  count is held in 16 bits, the product of the capabilities in 32.
\<close>

definition c_div :: "int \<Rightarrow> int \<Rightarrow> int option" where
  "c_div a b = (if b = 0 then None else Some (a sdiv b))"

definition efa_setup_qp ::
  "efa_context \<Rightarrow> efa_qp \<Rightarrow> ibv_qp_cap \<Rightarrow> u64 \<Rightarrow> efa_qp option" where
  "efa_setup_qp ctx qp cap page_size =
     do {
       let qp = efa_qp_init_indices qp;
       cnt \<leftarrow> roundup_pow_of_two (ucast (max (max_send_wr cap) (ucast (min_sq_wr ctx))));
       let sq = (sq_wq (qp_sq qp))\<lparr>wqe_cnt := ucast cnt, wq_max_sge := max_send_sge cap\<rparr>;
       let sq = sq\<lparr>desc_mask := ucast (wqe_cnt sq - 1)\<rparr>;
       let rq = (rq_wq (qp_rq qp))\<lparr>wq_max_sge := max_recv_sge cap\<rparr>;
       r \<leftarrow> roundup_pow_of_two (ucast (max_recv_sge cap * max_recv_wr cap));
       let rq_desc_cnt = (ucast r :: u16);
       let rq = rq\<lparr>desc_mask := rq_desc_cnt - 1\<rparr>;
       n \<leftarrow> c_div (uint rq_desc_cnt) (sint (wq_max_sge rq));
       let rq = rq\<lparr>wqe_cnt := of_int n\<rparr>;
       Some (qp\<lparr>qp_sq := (qp_sq qp)\<lparr>sq_wq := sq\<rparr>, qp_rq := (qp_rq qp)\<lparr>rq_wq := rq\<rparr>,
                qp_page_size := ucast page_size\<rparr>)
     }"

section \<open>The completion queues of a queue pair\<close>

definition lock_cq :: "ptr option \<Rightarrow> 'd world \<Rightarrow> 'd world option" where
  "lock_cq p w =
     do {
       a \<leftarrow> p;
       c \<leftarrow> w_cqs w a;
       Some (w\<lparr>w_cqs := (w_cqs w)(a \<mapsto> c\<lparr>cq_lock := pthread_spin_lock (cq_lock c)\<rparr>)\<rparr>)
     }"

definition unlock_cq :: "ptr option \<Rightarrow> 'd world \<Rightarrow> 'd world option" where
  "unlock_cq p w =
     do {
       a \<leftarrow> p;
       c \<leftarrow> w_cqs w a;
       l \<leftarrow> pthread_spin_unlock (cq_lock c);
       Some (w\<lparr>w_cqs := (w_cqs w)(a \<mapsto> c\<lparr>cq_lock := l\<rparr>)\<rparr>)
     }"

definition efa_lock_cqs :: "verbs_qp \<Rightarrow> 'd world \<Rightarrow> 'd world option" where
  "efa_lock_cqs v w =
     (if qp_recv_cq v = qp_send_cq v then lock_cq (qp_recv_cq v) w
      else do { w \<leftarrow> lock_cq (qp_recv_cq v) w; lock_cq (qp_send_cq v) w })"

definition efa_unlock_cqs :: "verbs_qp \<Rightarrow> 'd world \<Rightarrow> 'd world option" where
  "efa_unlock_cqs v w =
     (if qp_recv_cq v = qp_send_cq v then unlock_cq (qp_recv_cq v) w
      else do { w \<leftarrow> unlock_cq (qp_recv_cq v) w; unlock_cq (qp_send_cq v) w })"

definition on_cq :: "(efa_cq \<Rightarrow> efa_cq option) \<Rightarrow> ptr option \<Rightarrow> 'd world \<Rightarrow> 'd world option" where
  "on_cq f p w =
     do {
       a \<leftarrow> p;
       c \<leftarrow> w_cqs w a;
       c \<leftarrow> f c;
       Some (w\<lparr>w_cqs := (w_cqs w)(a \<mapsto> c)\<rparr>)
     }"

section \<open>The checks\<close>

definition supp_send_ops_mask :: "efa_context \<Rightarrow> ibv_qp_type \<Rightarrow> u64 option" where
  "supp_send_ops_mask ctx t =
     (case t of
        IBV_QPT_UD \<Rightarrow> Some (IBV_QP_EX_WITH_SEND OR IBV_QP_EX_WITH_SEND_WITH_IMM)
      | IBV_QPT_DRIVER \<Rightarrow>
          Some (IBV_QP_EX_WITH_SEND OR IBV_QP_EX_WITH_SEND_WITH_IMM OR
                (if EFA_DEV_CAP ctx EFA_QUERY_DEVICE_CAPS_RDMA_READ \<noteq> 0
                 then IBV_QP_EX_WITH_RDMA_READ else 0))
      | _ \<Rightarrow> None)"

definition EFA_CREATE_QP_SUPP_ATTR_MASK :: u32 where
  "EFA_CREATE_QP_SUPP_ATTR_MASK = IBV_QP_INIT_ATTR_PD OR IBV_QP_INIT_ATTR_SEND_OPS_FLAGS"

text \<open>\<open>efa_attr\<close> is read for the driver type only; it is null for the others.\<close>

definition efa_check_qp_attr ::
  "efa_context \<Rightarrow> ibv_qp_init_attr_ex \<Rightarrow> efadv_qp_init_attr option \<Rightarrow> int option" where
  "efa_check_qp_attr ctx attr efa_attr =
     (let base = iax_base attr; msk = iax_comp_mask attr in
      do {
        srd \<leftarrow> (if ia_qp_type base = IBV_QPT_DRIVER
               then do { e \<leftarrow> efa_attr; Some (ea_driver_qp_type e = EFADV_QP_DRIVER_TYPE_SRD) }
               else Some True);
        Some
          (if \<not> srd then EOPNOTSUPP
           else if \<not> check_comp_mask (ucast msk) (ucast EFA_CREATE_QP_SUPP_ATTR_MASK) then EOPNOTSUPP
           else if msk AND IBV_QP_INIT_ATTR_PD = 0 then EINVAL
           else if msk AND IBV_QP_INIT_ATTR_SEND_OPS_FLAGS \<noteq> 0 \<and>
                   (case supp_send_ops_mask ctx (ia_qp_type base) of
                      None \<Rightarrow> True
                    | Some m \<Rightarrow> \<not> check_comp_mask (iax_send_ops_flags attr) m) then EOPNOTSUPP
           else if ia_recv_cq base = None \<or> ia_send_cq base = None then EINVAL
           else if ia_srq base \<noteq> None then EINVAL
           else 0)
      })"

definition efa_check_qp_limits :: "efa_context \<Rightarrow> ibv_qp_init_attr_ex \<Rightarrow> int" where
  "efa_check_qp_limits ctx attr =
     (let cap = ia_cap (iax_base attr) in
      if max_send_sge cap > ucast (ctx_max_sq_sge ctx) then EINVAL
      else if max_recv_sge cap > ucast (ctx_max_rq_sge ctx) then EINVAL
      else if max_send_wr cap > ctx_max_sq_wr ctx then EINVAL
      else if max_recv_wr cap > ctx_max_rq_wr ctx then EINVAL
      else 0)"

section \<open>Creation\<close>

text \<open>The steps after the queues exist: the table slot and the reference counts.\<close>

definition publish_qp :: "ptr \<Rightarrow> ptr \<Rightarrow> 'd world \<Rightarrow> 'd world option" where
  "publish_qp ctxp qp w =
     do {
       q \<leftarrow> w_qps w qp;
       ctx \<leftarrow> w_ctxs w ctxp;
       let ctx = ctx\<lparr>qp_table_lock := pthread_spin_lock (qp_table_lock ctx)\<rparr>;
       tbl \<leftarrow> cb_set (qp_table ctx) (unat (qp_num (verbs_qp q) AND qp_table_sz_m1 ctx)) (Some qp);
       let ctx = ctx\<lparr>qp_table := tbl\<rparr>;
       l \<leftarrow> pthread_spin_unlock (qp_table_lock ctx);
       Some (w\<lparr>w_ctxs := (w_ctxs w)(ctxp \<mapsto> ctx\<lparr>qp_table_lock := l\<rparr>)\<rparr>)
     }"

definition count_on_cq :: "ptr option \<Rightarrow> u16 \<Rightarrow> 'd world \<Rightarrow> 'd world option" where
  "count_on_cq p sub w =
     do {
       w \<leftarrow> lock_cq p w;
       w \<leftarrow> on_cq (\<lambda>c. efa_cq_inc_ref_cnt c (ucast sub)) p w;
       unlock_cq p w
     }"

text \<open>The error exits of \<open>create_qp\<close>, each of which falls through to the next.\<close>

definition create_qp_out :: "int \<Rightarrow> 'd world \<Rightarrow> 'd world" where
  "create_qp_out err w = w\<lparr>w_errno := err\<rparr>"

definition create_qp_free :: "ptr \<Rightarrow> int \<Rightarrow> 'd world \<Rightarrow> 'd world option" where
  "create_qp_free qp err w =
     do { h \<leftarrow> free_at (w_qps w) qp; Some (create_qp_out err (w\<lparr>w_qps := h\<rparr>)) }"

definition create_qp_undo :: "'d driver \<Rightarrow> ptr \<Rightarrow> int \<Rightarrow> 'd world \<Rightarrow> 'd world option" where
  "create_qp_undo dr qp err w =
     do { (_, w) \<leftarrow> ibv_cmd_destroy_qp dr qp w; create_qp_free qp err w }"

definition create_qp_undo_rq :: "'d driver \<Rightarrow> ptr \<Rightarrow> int \<Rightarrow> 'd world \<Rightarrow> 'd world option" where
  "create_qp_undo_rq dr qp err w =
     do {
       q \<leftarrow> w_qps w qp;
       q \<leftarrow> efa_rq_terminate q;
       create_qp_undo dr qp err (w\<lparr>w_qps := (w_qps w)(qp \<mapsto> q)\<rparr>)
     }"

text \<open>
  From the queues on: both are initialised, with the roll-back, then the queue pair is
  published, counted on its completion queues and given its session functions.
\<close>

definition set_session_fns :: "ibv_qp_init_attr_ex \<Rightarrow> efa_qp \<Rightarrow> efa_qp" where
  "set_session_fns attr q =
     (if iax_comp_mask attr AND IBV_QP_INIT_ATTR_SEND_OPS_FLAGS \<noteq> 0
      then let v = efa_qp_fill_wr_pfns (verbs_qp q) (iax_send_ops_flags attr)
           in q\<lparr>verbs_qp := v\<lparr>verbs_qp_comp_mask := verbs_qp_comp_mask v OR VERBS_QP_EX\<rparr>\<rparr>
      else q)"

definition create_qp_publish ::
  "ptr \<Rightarrow> ptr \<Rightarrow> ibv_qp_init_attr_ex \<Rightarrow> efa_create_qp_resp \<Rightarrow> 'd world
     \<Rightarrow> (ptr option \<times> 'd world) option" where
  "create_qp_publish ctxp qp attr resp w =
     do {
       w \<leftarrow> publish_qp ctxp qp w;
       w \<leftarrow> count_on_cq (ia_send_cq (iax_base attr)) (qpr_send_sub_cq_idx resp) w;
       w \<leftarrow> count_on_cq (ia_recv_cq (iax_base attr)) (qpr_recv_sub_cq_idx resp) w;
       q \<leftarrow> w_qps w qp;
       Some (Some qp, w\<lparr>w_qps := (w_qps w)(qp \<mapsto> set_session_fns attr q)\<rparr>)
     }"

definition create_qp_queues ::
  "'d driver \<Rightarrow> qp_allocs \<Rightarrow> ptr \<Rightarrow> ptr \<Rightarrow> ibv_qp_init_attr_ex \<Rightarrow> efa_create_qp_resp \<Rightarrow> 'd world
     \<Rightarrow> (ptr option \<times> 'd world) option" where
  "create_qp_queues dr al ctxp qp attr resp w =
     do {
       q \<leftarrow> w_qps w qp;
       let q = q\<lparr>verbs_qp := (verbs_qp q)\<lparr>qp_state := IBV_QPS_RESET\<rparr>,
         sq_sig_all := ia_sq_sig_all (iax_base attr)\<rparr>;
       (err, q) \<leftarrow> efa_rq_initialize al (w_ctxs w) q resp;
       if err \<noteq> 0 then do {
         w \<leftarrow> create_qp_undo dr qp err (w\<lparr>w_qps := (w_qps w)(qp \<mapsto> q)\<rparr>);
         Some (None, w)
       }
       else do {
         (err, q) \<leftarrow> efa_sq_initialize al (w_ctxs w) q attr resp;
         let w = w\<lparr>w_qps := (w_qps w)(qp \<mapsto> q)\<rparr>;
         if err \<noteq> 0 then do { w \<leftarrow> create_qp_undo_rq dr qp err w; Some (None, w) }
         else create_qp_publish ctxp qp attr resp w
       }
     }"

text \<open>The capabilities the caller asked for are replaced by the sizes the queues got.\<close>

definition sized_attr :: "ibv_qp_init_attr_ex \<Rightarrow> efa_qp \<Rightarrow> ibv_qp_init_attr_ex" where
  "sized_attr attr q =
     attr\<lparr>iax_base := (iax_base attr)\<lparr>ia_cap := (ia_cap (iax_base attr))
       \<lparr>max_send_wr := wqe_cnt (sq_wq (qp_sq q)),
        max_recv_wr := wqe_cnt (rq_wq (qp_rq q))\<rparr>\<rparr>\<rparr>"

text \<open>
  From the allocated object on. The sizes that go into the request struct (\<open>req\<close>) are not read
  by the command layer of this platform and are left out.
\<close>

definition create_qp_at ::
  "'d driver \<Rightarrow> qp_allocs \<Rightarrow> ptr \<Rightarrow> efa_context \<Rightarrow> ptr \<Rightarrow> ibv_qp_init_attr_ex \<Rightarrow> 'd world
     \<Rightarrow> (ptr option \<times> ibv_qp_init_attr_ex \<times> 'd world) option" where
  "create_qp_at dr al ctxp ctx qp attr w =
     do {
       dev \<leftarrow> edev_at w (Some ctxp);
       q \<leftarrow> efa_setup_qp ctx zero_qp (ia_cap (iax_base attr)) (ucast (dev_pg_sz dev));
       let w = w\<lparr>w_qps := (w_qps w)(qp \<mapsto> q)\<rparr>;
       let attr = sized_attr attr q;
       (err, resp, w) \<leftarrow> ibv_cmd_create_qp_ex dr qp attr zero_qp_resp w;
       if err \<noteq> 0 then do { w \<leftarrow> create_qp_free qp err w; Some (None, attr, w) }
       else do {
         (r, w) \<leftarrow> create_qp_queues dr al ctxp qp attr resp w;
         Some (r, attr, w)
       }
     }"

definition create_qp ::
  "'d driver \<Rightarrow> qp_allocs \<Rightarrow> ptr option \<Rightarrow> ibv_qp_init_attr_ex \<Rightarrow> efadv_qp_init_attr option
     \<Rightarrow> 'd world \<Rightarrow> (ptr option \<times> ibv_qp_init_attr_ex \<times> 'd world) option" where
  "create_qp dr al ibvctx attr efa_attr w =
     do {
       ctxp \<leftarrow> ibvctx;
       ctx \<leftarrow> w_ctxs w ctxp;
       err \<leftarrow> efa_check_qp_attr ctx attr efa_attr;
       let err = (if err \<noteq> 0 then err else efa_check_qp_limits ctx attr);
       if err \<noteq> 0 then Some (None, attr, create_qp_out err w)
       else case al_qp al of
         None \<Rightarrow> Some (None, attr, create_qp_out ENOMEM w)
       | Some qp \<Rightarrow> create_qp_at dr al ctxp ctx qp attr w
     }"

text \<open>The zero struct the entry points start from, with the caller's attributes copied over it.\<close>

definition attr_ex_of :: "ibv_qp_init_attr \<Rightarrow> ptr \<Rightarrow> ibv_qp_init_attr_ex" where
  "attr_ex_of attr ibvpd =
     \<lparr>iax_base = attr, iax_comp_mask = IBV_QP_INIT_ATTR_PD, iax_pd = Some ibvpd,
      iax_send_ops_flags = 0\<rparr>"

definition efa_create_qp ::
  "'d driver \<Rightarrow> qp_allocs \<Rightarrow> ptr \<Rightarrow> ibv_qp_init_attr \<Rightarrow> 'd world
     \<Rightarrow> (ptr option \<times> ibv_qp_init_attr \<times> 'd world) option" where
  "efa_create_qp dr al ibvpd attr w =
     (if ia_qp_type attr \<noteq> IBV_QPT_UD then Some (None, attr, w\<lparr>w_errno := EOPNOTSUPP\<rparr>)
      else do {
        p \<leftarrow> w_pds w ibvpd;
        (ibvqp, attr_ex, w) \<leftarrow> create_qp dr al (pd_context p) (attr_ex_of attr ibvpd) None w;
        Some (ibvqp, if ibvqp \<noteq> None then iax_base attr_ex else attr, w)
      })"

definition efa_create_qp_ex ::
  "'d driver \<Rightarrow> qp_allocs \<Rightarrow> ptr option \<Rightarrow> ibv_qp_init_attr_ex \<Rightarrow> 'd world
     \<Rightarrow> (ptr option \<times> ibv_qp_init_attr_ex \<times> 'd world) option" where
  "efa_create_qp_ex dr al ibvctx attr_ex w =
     (if ia_qp_type (iax_base attr_ex) \<noteq> IBV_QPT_UD
      then Some (None, attr_ex, w\<lparr>w_errno := EOPNOTSUPP\<rparr>)
      else create_qp dr al ibvctx attr_ex None w)"

definition efadv_create_driver_qp ::
  "'d driver \<Rightarrow> qp_allocs \<Rightarrow> ptr \<Rightarrow> ibv_qp_init_attr \<Rightarrow> u32 \<Rightarrow> 'd world
     \<Rightarrow> (ptr option \<times> ibv_qp_init_attr \<times> 'd world) option" where
  "efadv_create_driver_qp dr al ibvpd attr driver_qp_type w =
     do {
       p \<leftarrow> w_pds w ibvpd;
       dev \<leftarrow> edev_at w (pd_context p);
       if \<not> is_efa_dev dev then Some (None, attr, w\<lparr>w_errno := EOPNOTSUPP\<rparr>)
       else if ia_qp_type attr \<noteq> IBV_QPT_DRIVER then Some (None, attr, w\<lparr>w_errno := EINVAL\<rparr>)
       else do {
         let efa_attr = \<lparr>ea_comp_mask = 0, ea_driver_qp_type = driver_qp_type,
                         ea_reserved = replicate 4 0\<rparr>;
         (ibvqp, attr_ex, w) \<leftarrow>
           create_qp dr al (pd_context p) (attr_ex_of attr ibvpd) (Some efa_attr) w;
         Some (ibvqp, if ibvqp \<noteq> None then iax_base attr_ex else attr, w)
       }
     }"

text \<open>\<open>ext\<close> is what follows the struct in the caller's memory, which a newer caller announces.\<close>

abbreviation efadv_qp_init_attr_members :: "nat list" where
  "efadv_qp_init_attr_members \<equiv> [8, 4] @ replicate 4 1"

definition efadv_create_qp_ex ::
  "'d driver \<Rightarrow> qp_allocs \<Rightarrow> ptr option \<Rightarrow> ibv_qp_init_attr_ex \<Rightarrow> efadv_qp_init_attr \<Rightarrow> u8 list \<Rightarrow> u32
     \<Rightarrow> 'd world \<Rightarrow> (ptr option \<times> ibv_qp_init_attr_ex \<times> 'd world) option" where
  "efadv_create_qp_ex dr al ibvctx attr_ex efa_attr ext inlen w =
     do {
       dev \<leftarrow> edev_at w ibvctx;
       if \<not> is_efa_dev dev then Some (None, attr_ex, w\<lparr>w_errno := EOPNOTSUPP\<rparr>)
       else if ia_qp_type (iax_base attr_ex) \<noteq> IBV_QPT_DRIVER \<or>
               \<not> vext_field_avail (c_offsetof efadv_qp_init_attr_members 1) inlen \<or>
               ea_comp_mask efa_attr \<noteq> 0
       then Some (None, attr_ex, w\<lparr>w_errno := EINVAL\<rparr>)
       else do {
         res \<leftarrow> is_buf_cleared (ea_reserved efa_attr) 4;
         cleared \<leftarrow> (if res \<and> c_sizeof efadv_qp_init_attr_members < unat inlen
                    then is_buf_cleared ext
                           (of_nat (unat inlen - c_sizeof efadv_qp_init_attr_members))
                    else Some res);
         if \<not> cleared then Some (None, attr_ex, w\<lparr>w_errno := EINVAL\<rparr>)
         else create_qp dr al ibvctx attr_ex (Some efa_attr) w
       }
     }"

section \<open>Modification and destruction\<close>

definition efa_modify_qp ::
  "'d driver \<Rightarrow> ptr \<Rightarrow> ibv_qp_attr \<Rightarrow> u32 \<Rightarrow> 'd world \<Rightarrow> (int \<times> 'd world) option" where
  "efa_modify_qp dr ibvqp attr attr_mask w =
     do {
       (err, w) \<leftarrow> ibv_cmd_modify_qp dr ibvqp attr attr_mask w;
       if err \<noteq> 0 then Some (err, w)
       else if attr_mask AND IBV_QP_STATE \<noteq> 0 then do {
         q \<leftarrow> w_qps w ibvqp;
         let q = q\<lparr>verbs_qp := (verbs_qp q)\<lparr>qp_state := at_qp_state attr\<rparr>\<rparr>;
         let q = (if qp_state (verbs_qp q) = IBV_QPS_RESET then efa_qp_init_indices q else q);
         Some (0, w\<lparr>w_qps := (w_qps w)(ibvqp \<mapsto> q)\<rparr>)
       }
       else Some (0, w)
     }"

definition efa_query_qp :: int where "efa_query_qp = ibv_cmd_query_qp"

text \<open>
  Both reference counts are decremented and the table slot is cleared before the queues are
  torn down; when the driver then refuses, the object stays with its arrays freed.
\<close>

definition efa_destroy_qp ::
  "'d driver \<Rightarrow> ptr \<Rightarrow> 'd world \<Rightarrow> (int \<times> 'd world) option" where
  "efa_destroy_qp dr ibvqp w =
     do {
       q \<leftarrow> w_qps w ibvqp;
       let v = verbs_qp q;
       ctxp \<leftarrow> qp_context_ptr v;
       ctx \<leftarrow> w_ctxs w ctxp;
       let w = w\<lparr>w_ctxs := (w_ctxs w)(ctxp \<mapsto> ctx\<lparr>qp_table_lock := pthread_spin_lock (qp_table_lock ctx)\<rparr>)\<rparr>;
       w \<leftarrow> efa_lock_cqs v w;
       w \<leftarrow> on_cq (\<lambda>c. efa_cq_dec_ref_cnt c (ucast (wq_sub_cq_idx (sq_wq (qp_sq q))))) (qp_send_cq v) w;
       w \<leftarrow> on_cq (\<lambda>c. efa_cq_dec_ref_cnt c (ucast (wq_sub_cq_idx (rq_wq (qp_rq q))))) (qp_recv_cq v) w;
       ctx \<leftarrow> w_ctxs w ctxp;
       tbl \<leftarrow> cb_set (qp_table ctx) (unat (qp_num v AND qp_table_sz_m1 ctx)) None;
       let w = w\<lparr>w_ctxs := (w_ctxs w)(ctxp \<mapsto> ctx\<lparr>qp_table := tbl\<rparr>)\<rparr>;
       w \<leftarrow> efa_unlock_cqs v w;
       ctx \<leftarrow> w_ctxs w ctxp;
       l \<leftarrow> pthread_spin_unlock (qp_table_lock ctx);
       let w = w\<lparr>w_ctxs := (w_ctxs w)(ctxp \<mapsto> ctx\<lparr>qp_table_lock := l\<rparr>)\<rparr>;
       q \<leftarrow> efa_sq_terminate q;
       q \<leftarrow> efa_rq_terminate q;
       let w = w\<lparr>w_qps := (w_qps w)(ibvqp \<mapsto> q)\<rparr>;
       (err, w) \<leftarrow> ibv_cmd_destroy_qp dr ibvqp w;
       if err \<noteq> 0 then Some (err, w)
       else do {
         h \<leftarrow> free_at (w_qps w) ibvqp;
         Some (0, w\<lparr>w_qps := h\<rparr>)
       }
     }"

end
