(* ===== verification/Efa_Query.thy ===== *)
theory Efa_Query
  imports Efa_Cmd
begin

text \<open>
  The queries of \<open>efawin/verbs.c\<close>: port, device, the limits a context is created with, and the
  provider's own \<open>efadv_query_device\<close>.
\<close>

definition efa_query_port ::
  "ptr option \<Rightarrow> ibv_port_attr \<Rightarrow> 'd world \<Rightarrow> (int \<times> ibv_port_attr) option" where
  "efa_query_port ibvctx port_attr w = ibv_cmd_query_port ibvctx port_attr w"

text \<open>
  \<open>min_t\<close> compares an \<open>int\<close> with a \<open>size_t\<close>: the \<open>int\<close> is sign-extended, so a negative one is
  large. The firmware version comes from the response, which the command never fills.
\<close>

definition efa_query_device_ex ::
  "ptr option \<Rightarrow> ibv_device_attr \<Rightarrow> 'd world \<Rightarrow> (int \<times> ibv_device_attr) option" where
  "efa_query_device_ex context attr w =
     do {
       ctx \<leftarrow> deref (w_ctxs w) context;
       (err, a) \<leftarrow> ibv_cmd_query_device_any context attr w;
       if err \<noteq> 0 then Some (err, a)
       else Some (0, a\<lparr>
         da_max_qp_wr := ucast (min (size_of_int (da_max_qp_wr a))
                                    (of_nat (unat (max_llq_size ctx) div sizeof_tx_wqe))),
         da_fw_ver := snprintf_quad 64 0 0 0 0\<rparr>)
     }"

text \<open>
  \<open>stk\<close> is what the uninitialised locals \<open>resp\<close> and \<open>attr\<close> hold; \<open>tbl_ok\<close> says whether the
  \<open>calloc\<close> of the table succeeds. The maximal number of queue pairs is an \<open>int\<close> converted to
  \<open>unsigned long long\<close>.
\<close>

definition efa_query_device_ctx ::
  "efa_query_device_ex_resp \<times> ibv_device_attr \<Rightarrow> bool \<Rightarrow> ptr \<Rightarrow> 'd world \<Rightarrow> (int \<times> 'd world) option"
where
  "efa_query_device_ctx stk tbl_ok ctxp w =
     do {
       ctx \<leftarrow> w_ctxs w ctxp;
       let resp = fst stk;
       (err, attr) \<leftarrow> ibv_cmd_query_device_any (Some ctxp) (snd stk) w;
       if err \<noteq> 0 then Some (err, w)
       else do {
         let ctx = (if cmds_supp_udata_mask ctx AND EFA_USER_CMDS_SUPP_UDATA_QUERY_DEVICE \<noteq> 0
           then ctx\<lparr>device_caps := qdr_device_caps resp, ctx_max_sq_wr := qdr_max_sq_wr resp,
             ctx_max_rq_wr := qdr_max_rq_wr resp, ctx_max_sq_sge := qdr_max_sq_sge resp,
             ctx_max_rq_sge := qdr_max_rq_sge resp, max_rdma_size := qdr_max_rdma_size resp\<rparr>
           else ctx);
         let ctx = ctx\<lparr>ctx_max_wr_rdma_sge := ucast (da_max_sge_rd attr)\<rparr>;
         sz \<leftarrow> roundup_pow_of_two (size_of_int (da_max_qp attr));
         let qp_table_sz = (ucast sz :: u32);
         let ctx = ctx\<lparr>qp_table_sz_m1 := qp_table_sz - 1,
           qp_table := (if tbl_ok then Live (replicate (unat qp_table_sz) None) else Null)\<rparr>;
         let w = w\<lparr>w_ctxs := (w_ctxs w)(ctxp \<mapsto> ctx)\<rparr>;
         if qp_table ctx = Null then Some (ENOMEM, alloc_failed w) else Some (0, w)
       }
     }"

abbreviation efadv_device_attr_members :: "nat list" where
  "efadv_device_attr_members \<equiv> [8, 4, 4, 2, 2, 2, 1, 1, 4, 4]"

text \<open>A member at offset \<open>off\<close> after \<open>memset(attr, 0, inlen)\<close>: its bytes below \<open>inlen\<close> are 0.\<close>

definition cleared_below :: "u32 \<Rightarrow> nat \<Rightarrow> 'a::len word \<Rightarrow> 'a word" where
  "cleared_below inlen off v = v AND NOT (mask (8 * (unat inlen - off)))"

definition efadv_query_device ::
  "ptr option \<Rightarrow> efadv_device_attr \<Rightarrow> u32 \<Rightarrow> 'd world \<Rightarrow> (int \<times> efadv_device_attr) option" where
  "efadv_query_device ibvctx attr inlen w =
     do {
       ctx \<leftarrow> deref (w_ctxs w) ibvctx;
       dev \<leftarrow> edev_at w ibvctx;
       if \<not> is_efa_dev dev then Some (EOPNOTSUPP, attr)
       else if \<not> vext_field_avail (c_offsetof efadv_device_attr_members 5) inlen
       then Some (EINVAL, attr)
       else do {
         let attr = attr\<lparr>
           dv_reserved := map (\<lambda>i. if c_offsetof efadv_device_attr_members (6 + i) < unat inlen
                                   then 0 else dv_reserved attr ! i)
                              [0..<length (dv_reserved attr)],
           dv_device_caps := cleared_below inlen (c_offsetof efadv_device_attr_members 8)
                               (dv_device_caps attr),
           dv_max_rdma_size := cleared_below inlen (c_offsetof efadv_device_attr_members 9)
                                 (dv_max_rdma_size attr)\<rparr>;
         let attr = attr\<lparr>dv_max_sq_wr := ctx_max_sq_wr ctx, dv_max_rq_wr := ctx_max_rq_wr ctx,
           dv_max_sq_sge := ctx_max_sq_sge ctx, dv_max_rq_sge := ctx_max_rq_sge ctx,
           dv_inline_buf_size := inline_buf_size ctx\<rparr>;
         let attr = (if vext_field_avail (c_offsetof efadv_device_attr_members 9) inlen
           then let a = attr\<lparr>dv_max_rdma_size := max_rdma_size ctx\<rparr>;
                    a = (if EFA_DEV_CAP ctx EFA_QUERY_DEVICE_CAPS_RDMA_READ \<noteq> 0
                         then a\<lparr>dv_device_caps :=
                                dv_device_caps a OR EFADV_DEVICE_ATTR_CAPS_RDMA_READ\<rparr> else a)
                in if EFA_DEV_CAP ctx EFA_QUERY_DEVICE_CAPS_RNR_RETRY \<noteq> 0
                   then a\<lparr>dv_device_caps := dv_device_caps a OR EFADV_DEVICE_ATTR_CAPS_RNR_RETRY\<rparr>
                   else a
           else attr);
         Some (0, attr\<lparr>dv_comp_mask := 0\<rparr>)
       }
     }"

end
