(* ===== verification/Efa_Device.thy ===== *)
theory Efa_Device
  imports Efa_Query
begin

text \<open>
  Contexts and devices: \<open>efawin/efa.c\<close> (\<open>efa_alloc_context\<close>, the table of operations) and
  \<open>efawin/efa_win_cmd.c\<close> (opening and closing a device, the lists of devices and contexts, the
  queries answered from the cached attributes).
\<close>

section \<open>The operations of a context\<close>

text \<open>\<open>efa_ctx_ops\<close>; the members it does not name are null.\<close>

definition efa_ctx_ops :: "string \<rightharpoonup> efa_op" where
  "efa_ctx_ops = map_of
     [(''alloc_pd'', Op_alloc_pd), (''create_ah'', Op_create_ah), (''create_cq'', Op_create_cq),
      (''create_cq_ex'', Op_create_cq_ex), (''create_qp'', Op_create_qp),
      (''create_qp_ex'', Op_create_qp_ex), (''dealloc_pd'', Op_dealloc_pd),
      (''dereg_mr'', Op_dereg_mr), (''destroy_ah'', Op_destroy_ah),
      (''destroy_cq'', Op_destroy_cq), (''destroy_qp'', Op_destroy_qp),
      (''modify_qp'', Op_modify_qp), (''poll_cq'', Op_poll_cq), (''post_recv'', Op_post_recv),
      (''post_send'', Op_post_send), (''query_device_ex'', Op_query_device_ex),
      (''query_port'', Op_query_port), (''query_qp'', Op_query_qp), (''reg_mr'', Op_reg_mr),
      (''free_context'', Op_free_context)]"

text \<open>\<open>SET_OP\<close>, \<open>SET_OP2\<close> and \<open>SET_PRIV_OP\<close>: a member is copied when it is not null.\<close>

definition set_op ::
  "(string \<rightharpoonup> efa_op) \<Rightarrow> ops_slot \<times> string \<Rightarrow> (ops_slot \<rightharpoonup> efa_op) \<Rightarrow> (ops_slot \<rightharpoonup> efa_op)" where
  "set_op ops sn tbl =
     (case ops (snd sn) of None \<Rightarrow> tbl | Some f \<Rightarrow> tbl(fst sn \<mapsto> f))"

definition vctx_op :: "string \<Rightarrow> ops_slot \<times> string" where "vctx_op n = (Vctx n, n)"
definition ctx_op :: "string \<Rightarrow> ops_slot \<times> string" where "ctx_op n = (Ctx n, n)"
definition priv_op :: "string \<Rightarrow> ops_slot \<times> string" where "priv_op n = (Compat n, n)"

definition set_ops_list :: "(ops_slot \<times> string) list" where
  "set_ops_list =
     [vctx_op ''advise_mr'', vctx_op ''alloc_dm'', ctx_op ''alloc_mw'', vctx_op ''alloc_null_mr'',
      priv_op ''alloc_pd'', vctx_op ''alloc_parent_domain'', vctx_op ''alloc_td'',
      vctx_op ''attach_counters_point_flow'', vctx_op ''create_counters'', priv_op ''async_event'',
      priv_op ''attach_mcast'', ctx_op ''bind_mw'', vctx_op ''close_xrcd'', priv_op ''cq_event'',
      priv_op ''create_ah'', priv_op ''create_cq'', (Vctx ''ibv_create_flow'', ''create_flow''),
      vctx_op ''create_flow_action_esp'', priv_op ''create_qp'', vctx_op ''create_qp_ex'',
      vctx_op ''create_rwq_ind_table'', priv_op ''create_srq'', vctx_op ''create_srq_ex'',
      vctx_op ''create_wq'', ctx_op ''dealloc_mw'', priv_op ''dealloc_pd'', vctx_op ''dealloc_td'',
      vctx_op ''destroy_counters'', priv_op ''dereg_mr'', priv_op ''destroy_ah'',
      priv_op ''destroy_cq'', (Vctx ''ibv_destroy_flow'', ''destroy_flow''),
      vctx_op ''destroy_flow_action'', priv_op ''destroy_qp'', vctx_op ''destroy_rwq_ind_table'',
      priv_op ''destroy_srq'', vctx_op ''destroy_wq'', priv_op ''detach_mcast'',
      vctx_op ''free_dm'', vctx_op ''get_srq_num'', vctx_op ''modify_cq'',
      vctx_op ''modify_flow_action_esp'', priv_op ''modify_qp'', vctx_op ''modify_qp_rate_limit'',
      priv_op ''modify_srq'', vctx_op ''modify_wq'', vctx_op ''open_qp'', vctx_op ''open_xrcd'',
      ctx_op ''poll_cq'', ctx_op ''post_recv'', ctx_op ''post_send'', vctx_op ''post_srq_ops'',
      ctx_op ''post_srq_recv'', vctx_op ''query_device_ex'', priv_op ''query_qp'',
      vctx_op ''query_rt_values'', vctx_op ''read_counters'', priv_op ''query_srq'',
      vctx_op ''reg_dm_mr'', priv_op ''reg_mr'', ctx_op ''req_notify_cq'', priv_op ''rereg_mr'',
      priv_op ''resize_cq'']"

definition verbs_set_ops :: "efa_context \<Rightarrow> (string \<rightharpoonup> efa_op) \<Rightarrow> efa_context" where
  "verbs_set_ops ctx ops = ctx\<lparr>ctx_ops := fold (set_op ops) set_ops_list (ctx_ops ctx)\<rparr>"

section \<open>Contexts\<close>

abbreviation sizeof_rx_cdesc :: nat where "sizeof_rx_cdesc \<equiv> 16"

text \<open>
  The allocations and the uninitialised locals of one open: the context, whether the table of
  queue pairs can be allocated, and the stack of \<open>efa_query_device_ctx\<close>.
\<close>

record ctx_allocs =
  al_ctx :: "ptr option"
  al_table :: bool
  al_stack :: "efa_query_device_ex_resp \<times> ibv_device_attr"

definition efa_alloc_context ::
  "ctx_allocs \<Rightarrow> ptr option \<Rightarrow> 'd world \<Rightarrow> (ptr option \<times> 'd world) option" where
  "efa_alloc_context al vdev w =
     (case al_ctx al of
        None \<Rightarrow> Some (None, alloc_failed w)
      | Some p \<Rightarrow>
          do {
            let w = w\<lparr>w_ctxs := (w_ctxs w)(p \<mapsto> zero_context\<lparr>ctx_device := vdev\<rparr>)\<rparr>;
            (err, resp) \<leftarrow> ibv_cmd_get_context p zero_ucontext_resp w;
            if err \<noteq> 0 then do { h \<leftarrow> free_at (w_ctxs w) p; Some (None, w\<lparr>w_ctxs := h\<rparr>) }
            else do {
              ctx \<leftarrow> w_ctxs w p;
              let ctx = ctx\<lparr>sub_cqs_per_cq := ucr_sub_cqs_per_cq resp,
                cmds_supp_udata_mask := ucr_cmds_supp_udata_mask resp,
                ctx_cqe_size := of_nat sizeof_rx_cdesc,
                inline_buf_size := ucr_inline_buf_size resp,
                max_llq_size := ucr_max_llq_size resp,
                max_tx_batch := ucr_max_tx_batch resp,
                min_sq_wr := ucr_min_sq_wr resp, qp_table_lock := 0\<rparr>;
              let w = w\<lparr>w_ctxs := (w_ctxs w)(p \<mapsto> ctx)\<rparr>;
              if cmds_supp_udata_mask ctx AND EFA_USER_CMDS_SUPP_UDATA_CREATE_AH = 0
              then do { h \<leftarrow> free_at (w_ctxs w) p; Some (None, w\<lparr>w_ctxs := h\<rparr>) }
              else do {
                let w = w\<lparr>w_ctxs := (w_ctxs w)(p \<mapsto> verbs_set_ops ctx efa_ctx_ops)\<rparr>;
                (err, w) \<leftarrow> efa_query_device_ctx (al_stack al) (al_table al) p w;
                if err \<noteq> 0 then do { h \<leftarrow> free_at (w_ctxs w) p; Some (None, w\<lparr>w_ctxs := h\<rparr>) }
                else Some (Some p, w)
              }
            }
          })"

definition efa_free_context :: "ptr \<Rightarrow> 'd world \<Rightarrow> 'd world option" where
  "efa_free_context ibvctx w =
     do {
       ctx \<leftarrow> w_ctxs w ibvctx;
       tbl \<leftarrow> cb_free (qp_table ctx);
       h \<leftarrow> free_at (w_ctxs w) ibvctx;
       Some (w\<lparr>w_ctxs := h\<rparr>)
     }"

text \<open>The constructor and destructor of the device object that the verbs framework would call.\<close>

definition efa_device_alloc :: "ptr option \<Rightarrow> 'd world \<Rightarrow> ptr option \<times> 'd world" where
  "efa_device_alloc m w =
     (case m of
        None \<Rightarrow> (None, alloc_failed w)
      | Some p \<Rightarrow> (Some p, w\<lparr>w_devs := (w_devs w)(p \<mapsto> zero_dev\<lparr>dev_pg_sz := 4096\<rparr>)\<rparr>))"

definition efa_uninit_device :: "ptr \<Rightarrow> 'd world \<Rightarrow> 'd world option" where
  "efa_uninit_device dev w = do { h \<leftarrow> free_at (w_devs w) dev; Some (w\<lparr>w_devs := h\<rparr>) }"

section \<open>Opening and closing a device\<close>

definition close_dev_at :: "'d driver \<Rightarrow> ptr \<Rightarrow> 'd world \<Rightarrow> (int \<times> 'd world) option" where
  "close_dev_at dr device w =
     do {
       edev \<leftarrow> w_devs w device;
       let (err, wd, d) = efa_close_device dr (dev_device edev) (w_drv w);
       Some (err, w\<lparr>w_drv := d, w_devs := (w_devs w)(device \<mapsto> edev\<lparr>dev_device := wd\<rparr>)\<rparr>)
     }"

definition efa_device_close :: "'d driver \<Rightarrow> ptr \<Rightarrow> 'd world \<Rightarrow> (int \<times> 'd world) option" where
  "efa_device_close dr ctxp w =
     do {
       ctx \<leftarrow> w_ctxs w ctxp;
       device \<leftarrow> ctx_device ctx;
       (err, w) \<leftarrow> close_dev_at dr device w;
       w \<leftarrow> efa_free_context ctxp w;
       Some (err, w)
     }"

text \<open>The output buffer of the query is the cache in the device object itself.\<close>

definition efa_device_open ::
  "'d driver \<Rightarrow> ctx_allocs \<Rightarrow> ptr \<Rightarrow> 'd world \<Rightarrow> (ptr option \<times> 'd world) option" where
  "efa_device_open dr al device w =
     do {
       edev \<leftarrow> w_devs w device;
       let (err, wd, d) = efa_open_device dr (Some (dev_device edev)) (w_drv w);
       wd \<leftarrow> wd;
       let edev = edev\<lparr>dev_device := wd\<rparr>;
       let w = w\<lparr>w_drv := d, w_devs := (w_devs w)(device \<mapsto> edev)\<rparr>;
       if err \<noteq> 0 then Some (None, w)
       else do {
         let (err, info, d) = efa_win_get_device_info dr (dev_device edev)
           \<lparr>qd_InterfaceVersion = EFA_API_INTERFACE_VERSION\<rparr> (dev_attr edev) (w_drv w);
         let edev = edev\<lparr>dev_attr := info\<rparr>;
         let w = w\<lparr>w_drv := d, w_devs := (w_devs w)(device \<mapsto> edev)\<rparr>;
         if err \<noteq> 0 then do { (_, w) \<leftarrow> close_dev_at dr device w; Some (None, w) }
         else do {
           (c, w) \<leftarrow> efa_alloc_context al (Some device) w;
           case c of
             None \<Rightarrow> do { (_, w) \<leftarrow> close_dev_at dr device w; Some (None, w) }
           | Some ctxp \<Rightarrow>
               do {
                 ctx \<leftarrow> w_ctxs w ctxp;
                 let di = dev_attr edev;
                 let ctx = ctx\<lparr>ctx_device := Some device, sub_cqs_per_cq := di_NumSubCqs di,
                   max_mr_size := ucast (di_MaxMr di), inline_buf_size := ucast (di_InlineBufSize di),
                   max_llq_size := di_MaxLlqSize di, ctx_cqe_size := of_nat sizeof_rx_cdesc\<rparr>;
                 Some (Some ctxp, w\<lparr>w_ctxs := (w_ctxs w)(ctxp \<mapsto> ctx),
                   w_devs := (w_devs w)(device \<mapsto> edev\<lparr>dev_pg_sz := of_nat PAGE_SIZE\<rparr>)\<rparr>)
               }
         }
       }
     }"

section \<open>Queries answered from the cache\<close>

text \<open>
  \<open>fw_ver\<close> is a \<open>char *\<close> into the cached attributes: its bytes are signed and printed as
  \<open>unsigned\<close>; the text is cut to three characters; and the terminator written after the four
  bytes is the low byte of the next member, \<open>DeviceVersion\<close>.
\<close>

definition fw_char :: "u32 \<Rightarrow> nat \<Rightarrow> u32" where
  "fw_char v i = scast (ucast (drop_bit (8 * i) v) :: u8)"

definition efa_everbs_cmd_get_ex_query_dev ::
  "ptr \<Rightarrow> 'd world \<Rightarrow> (int \<times> ibv_device_attr \<times> 'd world) option" where
  "efa_everbs_cmd_get_ex_query_dev ctxp w =
     do {
       ctx \<leftarrow> w_ctxs w ctxp;
       device \<leftarrow> ctx_device ctx;
       edev \<leftarrow> w_devs w device;
       let fw = di_FirmwareVersion (dev_attr edev);
       let di = (dev_attr edev)\<lparr>di_DeviceVersion := di_DeviceVersion (dev_attr edev) AND NOT (mask 8)\<rparr>;
       let attr = zero_device_attr\<lparr>
         da_fw_ver := snprintf_quad 4 (fw_char fw 0) (fw_char fw 1) (fw_char fw 2) (fw_char fw 3),
         da_hw_ver := di_DeviceVersion di,
         da_vendor_part_id := 0xefa0,
         da_vendor_id := 0x1d0f,
         da_max_mr_size := di_MaxMrPages di * of_nat PAGE_SIZE,
         da_page_size_cap := di_PageSizeCap di,
         da_max_qp := di_MaxQp di,
         da_max_cq := di_MaxCq di,
         da_max_pd := di_MaxPd di,
         da_max_mr := di_MaxMr di,
         da_max_ah := di_MaxAh di,
         da_max_cqe := di_MaxCqDepth di,
         da_max_qp_wr := min (di_MaxSqDepth di) (di_MaxRqDepth di),
         da_max_sge := ucast (min (di_MaxSqSge di) (di_MaxRqSge di))\<rparr>;
       let ctx = ctx\<lparr>inline_buf_size := ucast (di_InlineBufSize di),
         device_caps := di_SupportedFeatures di, max_llq_size := di_MaxLlqSize di,
         sub_cqs_per_cq := di_NumSubCqs di, max_mr_size := ucast (di_MaxMr di),
         ctx_max_rq_sge := di_MaxRqSge di, ctx_max_sq_sge := di_MaxSqSge di,
         ctx_max_rq_wr := di_MaxRqDepth di, ctx_max_sq_wr := di_MaxSqDepth di,
         max_tx_batch := 1\<rparr>;
       Some (0, attr, w\<lparr>w_ctxs := (w_ctxs w)(ctxp \<mapsto> ctx),
                        w_devs := (w_devs w)(device \<mapsto> edev\<lparr>dev_attr := di\<rparr>)\<rparr>)
     }"

definition efa_cmd_query_device ::
  "ptr \<Rightarrow> 'd world \<Rightarrow> (int \<times> ibv_device_attr \<times> 'd world) option" where
  "efa_cmd_query_device ctxp w = efa_everbs_cmd_get_ex_query_dev ctxp w"

definition efa_cmd_query_port ::
  "ptr \<Rightarrow> ibv_port_attr \<Rightarrow> 'd world \<Rightarrow> (int \<times> ibv_port_attr) option" where
  "efa_cmd_query_port ctxp attr w =
     do {
       edev \<leftarrow> edev_at w (Some ctxp);
       let mtu = di_Mtu (dev_attr edev);
       Some (0, attr\<lparr>pa_lmc := 1, pa_state := IBV_PORT_ACTIVE, pa_gid_tbl_len := 1,
         pa_pkey_tbl_len := 1, pa_max_mtu := mtu, pa_active_mtu := mtu, pa_max_msg_sz := mtu,
         pa_max_vl_num := 1\<rparr>)
     }"

definition efa_cmd_query_gid :: "ptr \<Rightarrow> 'd world \<Rightarrow> (int \<times> u8 list) option" where
  "efa_cmd_query_gid ctxp w =
     do { edev \<leftarrow> edev_at w (Some ctxp); Some (0, take EFA_GID_SIZE (di_Addr (dev_attr edev))) }"

section \<open>The lists of devices and contexts\<close>

text \<open>
  The process: the world, the arrays handed to the application, and the two static variables
  of the file. \<open>ctx_list\<close> is an array of its own.
\<close>

record 'd process =
  pr_world :: "'d world"
  pr_dev_lists :: "ptr \<rightharpoonup> ptr option list"
  pr_ctx_lists :: "ptr \<rightharpoonup> ptr option list"
  g_ctx_list :: "ptr option cbuf"
  g_dev_cnt :: nat

definition ibv_get_device_list ::
  "ptr option \<Rightarrow> ptr option \<Rightarrow> 'd process \<Rightarrow> (ptr option \<times> nat option) \<times> 'd process" where
  "ibv_get_device_list m_list m_dev p =
     (case m_list of
        None \<Rightarrow> ((None, None), p\<lparr>pr_world := alloc_failed (pr_world p)\<rparr>)
      | Some l \<Rightarrow>
          (case m_dev of
             None \<Rightarrow> ((None, None), p\<lparr>pr_world := alloc_failed (pr_world p)\<rparr>)
           | Some dv \<Rightarrow>
               let w = pr_world p;
                   w = w\<lparr>w_devs := (w_devs w)(dv \<mapsto>
                         zero_dev\<lparr>dev_name := ''EFA'', dev_node_name := ''EFA''\<rparr>)\<rparr>
               in ((Some l, Some 1),
                   p\<lparr>pr_world := w, pr_dev_lists := (pr_dev_lists p)(l \<mapsto> [Some dv])\<rparr>)))"

text \<open>Closing the context at index \<open>i\<close> of the static list.\<close>

definition close_listed :: "'d driver \<Rightarrow> nat \<Rightarrow> 'd process \<Rightarrow> 'd process option" where
  "close_listed dr i p =
     do {
       c \<leftarrow> cb_get (g_ctx_list p) i;
       ctxp \<leftarrow> c;
       (_, w) \<leftarrow> efa_device_close dr ctxp (pr_world p);
       Some (p\<lparr>pr_world := w\<rparr>)
     }"

definition ibv_free_device_list :: "'d driver \<Rightarrow> ptr option \<Rightarrow> 'd process \<Rightarrow> 'd process option" where
  "ibv_free_device_list dr lst p =
     do {
       p \<leftarrow> for_range 0 (g_dev_cnt p) (close_listed dr) p;
       case lst of
         None \<Rightarrow> Some p
       | Some l \<Rightarrow> do { h \<leftarrow> free_at (pr_dev_lists p) l; Some (p\<lparr>pr_dev_lists := h\<rparr>) }
     }"

text \<open>
  The loop of \<open>efa_device_init\<close> from index \<open>i\<close> with \<open>k\<close> devices to go; it stops at the first
  device that does not open and returns its index.
\<close>

primrec open_devices ::
  "'d driver \<Rightarrow> (nat \<Rightarrow> ctx_allocs) \<Rightarrow> ptr option list \<Rightarrow> nat \<Rightarrow> nat \<Rightarrow> 'd process
     \<Rightarrow> (nat option \<times> 'd process) option" where
  "open_devices dr al devs i 0 p = Some (None, p)"
| "open_devices dr al devs i (Suc k) p =
     do {
       dv \<leftarrow> arr_get devs i;
       d \<leftarrow> dv;
       (c, w) \<leftarrow> efa_device_open dr (al i) d (pr_world p);
       lst \<leftarrow> cb_set (g_ctx_list p) i c;
       let p = p\<lparr>pr_world := w, g_ctx_list := lst\<rparr>;
       if c = None then Some (Some i, p) else open_devices dr al devs (Suc i) k p
     }"

text \<open>The loop \<open>for (ctx_idx--; ctx_idx >= 0; ctx_idx--)\<close>.\<close>

primrec close_devices_down :: "'d driver \<Rightarrow> nat \<Rightarrow> 'd process \<Rightarrow> 'd process option" where
  "close_devices_down dr 0 p = Some p"
| "close_devices_down dr (Suc i) p = do { p \<leftarrow> close_listed dr i p; close_devices_down dr i p }"

definition free_dev_list :: "ptr option \<Rightarrow> 'd process \<Rightarrow> 'd process option" where
  "free_dev_list lst p =
     (case lst of
        None \<Rightarrow> Some p
      | Some l \<Rightarrow> do { h \<leftarrow> free_at (pr_dev_lists p) l; Some (p\<lparr>pr_dev_lists := h\<rparr>) })"

text \<open>\<open>m_ctxs\<close> says whether the array of contexts can be allocated.\<close>

definition efa_device_init ::
  "'d driver \<Rightarrow> ptr option \<Rightarrow> ptr option \<Rightarrow> bool \<Rightarrow> (nat \<Rightarrow> ctx_allocs) \<Rightarrow> 'd process
     \<Rightarrow> (int \<times> 'd process) option" where
  "efa_device_init dr m_list m_dev m_ctxs al p =
     (case ibv_get_device_list m_list m_dev p of
        ((dlist, cnt), p) \<Rightarrow>
          let p = (case cnt of None \<Rightarrow> p | Some n \<Rightarrow> p\<lparr>g_dev_cnt := n\<rparr>);
              p = p\<lparr>g_ctx_list := (if m_ctxs then Live (replicate (g_dev_cnt p) None) else Null)\<rparr>
          in
          if g_ctx_list p = Null then do {
            p \<leftarrow> free_dev_list dlist (p\<lparr>pr_world := alloc_failed (pr_world p)\<rparr>);
            Some (- ENOMEM, p\<lparr>g_dev_cnt := 0\<rparr>)
          }
          else do {
            devs \<leftarrow> (if g_dev_cnt p = 0 then Some []
                    else do { l \<leftarrow> dlist; pr_dev_lists p l });
            (failed, p) \<leftarrow> open_devices dr al devs 0 (g_dev_cnt p) p;
            case failed of
              None \<Rightarrow> do { p \<leftarrow> free_dev_list dlist p; Some (0, p) }
            | Some i \<Rightarrow>
                do {
                  p \<leftarrow> close_devices_down dr i p;
                  p \<leftarrow> free_dev_list dlist (p\<lparr>g_ctx_list := Null\<rparr>);
                  Some (- ENODEV, p\<lparr>g_dev_cnt := 0\<rparr>)
                }
          })"

definition efa_device_free :: "'d driver \<Rightarrow> 'd process \<Rightarrow> 'd process option" where
  "efa_device_free dr p =
     do {
       p \<leftarrow> for_range 0 (g_dev_cnt p) (close_listed dr) p;
       _ \<leftarrow> cb_free (g_ctx_list p);
       Some (p\<lparr>g_ctx_list := Null, g_dev_cnt := 0\<rparr>)
     }"

definition efa_device_get_context_list ::
  "ptr option \<Rightarrow> 'd process \<Rightarrow> (ptr option \<times> nat \<times> 'd process) option" where
  "efa_device_get_context_list m p =
     (case m of
        None \<Rightarrow> Some (None, 0, p\<lparr>pr_world := alloc_failed (pr_world p)\<rparr>)
      | Some l \<Rightarrow>
          do {
            devs \<leftarrow> for_range 0 (g_dev_cnt p)
              (\<lambda>i ds. do { c \<leftarrow> cb_get (g_ctx_list p) i; arr_set ds i c })
              (replicate (g_dev_cnt p) None);
            Some (Some l, g_dev_cnt p, p\<lparr>pr_ctx_lists := (pr_ctx_lists p)(l \<mapsto> devs)\<rparr>)
          })"

definition efa_device_free_context_list :: "ptr option \<Rightarrow> 'd process \<Rightarrow> 'd process option" where
  "efa_device_free_context_list lst p =
     (case lst of
        None \<Rightarrow> Some p
      | Some l \<Rightarrow> do { h \<leftarrow> free_at (pr_ctx_lists p) l; Some (p\<lparr>pr_ctx_lists := h\<rparr>) })"

end
