(* ===== verification/Efa_Exports.thy ===== *)
theory Efa_Exports
  imports Efa_Pd Efa_Qp Efa_Device
begin

text \<open>
  The functions the DLL exports (\<open>efawin/efawin.c\<close>): each calls the provider through
  \<open>efa_ctx_ops\<close>, a constant table whose members are the functions of \<open>efawin/verbs.c\<close>. A
  member taken of a null pointer, or a store through one, is undefined.
\<close>

abbreviation EFAWIN_INTERFACE_VERSION :: int where "EFAWIN_INTERFACE_VERSION \<equiv> 1"

definition ibv_reg_mr_iova2 ::
  "'d driver \<Rightarrow> ptr option \<Rightarrow> ptr \<Rightarrow> u64 \<Rightarrow> u64 \<Rightarrow> u64 \<Rightarrow> u32 \<Rightarrow> 'd world
     \<Rightarrow> (ptr option \<times> 'd world) option" where
  "ibv_reg_mr_iova2 dr m pd addr len iova access w = efa_reg_mr dr m pd addr len iova access w"

definition ibv_reg_mr ::
  "'d driver \<Rightarrow> ptr option \<Rightarrow> ptr \<Rightarrow> u64 \<Rightarrow> u64 \<Rightarrow> i32 \<Rightarrow> 'd world \<Rightarrow> (ptr option \<times> 'd world) option"
where
  "ibv_reg_mr dr m pd addr len access w = efa_reg_mr dr m pd addr len 0 access w"

definition ibv_dereg_mr :: "'d driver \<Rightarrow> ptr \<Rightarrow> 'd world \<Rightarrow> (int \<times> 'd world) option" where
  "ibv_dereg_mr dr mr w = efa_dereg_mr dr mr w"

definition ibv_query_device :: "ptr \<Rightarrow> 'd world \<Rightarrow> (int \<times> ibv_device_attr \<times> 'd world) option" where
  "ibv_query_device context w = efa_cmd_query_device context w"

text \<open>The extended queue pair is the same object.\<close>

definition ibv_qp_to_qp_ex :: "ptr \<Rightarrow> ptr" where "ibv_qp_to_qp_ex qp = qp"

definition ibv_query_port ::
  "ptr option \<Rightarrow> ibv_port_attr \<Rightarrow> 'd world \<Rightarrow> (int \<times> ibv_port_attr) option" where
  "ibv_query_port context port_attr w = efa_query_port context port_attr w"

definition ibv_query_gid :: "ptr \<Rightarrow> 'd world \<Rightarrow> (int \<times> u8 list) option" where
  "ibv_query_gid context w = efa_cmd_query_gid context w"

definition ibv_modify_qp ::
  "'d driver \<Rightarrow> ptr \<Rightarrow> ibv_qp_attr \<Rightarrow> u32 \<Rightarrow> 'd world \<Rightarrow> (int \<times> 'd world) option" where
  "ibv_modify_qp dr qp attr attr_mask w = efa_modify_qp dr qp attr attr_mask w"

definition ibv_destroy_qp :: "'d driver \<Rightarrow> ptr \<Rightarrow> 'd world \<Rightarrow> (int \<times> 'd world) option" where
  "ibv_destroy_qp dr qp w = efa_destroy_qp dr qp w"

definition ibv_create_qp ::
  "'d driver \<Rightarrow> qp_allocs \<Rightarrow> ptr \<Rightarrow> ibv_qp_init_attr \<Rightarrow> 'd world
     \<Rightarrow> (ptr option \<times> ibv_qp_init_attr \<times> 'd world) option" where
  "ibv_create_qp dr al pd qp_init_attr w = efa_create_qp dr al pd qp_init_attr w"

definition ibv_dealloc_pd :: "'d driver \<Rightarrow> ptr \<Rightarrow> 'd world \<Rightarrow> (int \<times> 'd world) option" where
  "ibv_dealloc_pd dr pd w = efa_dealloc_pd dr pd w"

definition ibv_alloc_pd ::
  "'d driver \<Rightarrow> ptr option \<Rightarrow> ptr option \<Rightarrow> 'd world \<Rightarrow> (ptr option \<times> 'd world) option" where
  "ibv_alloc_pd dr m context w = efa_alloc_pd dr m context w"

definition ibv_fork_init :: int where "ibv_fork_init = E_FAIL"

definition ibv_close_device :: "'d driver \<Rightarrow> ptr \<Rightarrow> 'd world \<Rightarrow> (int \<times> 'd world) option" where
  "ibv_close_device dr context w = efa_device_close dr context w"

definition ibv_open_device ::
  "'d driver \<Rightarrow> ctx_allocs \<Rightarrow> ptr \<Rightarrow> 'd world \<Rightarrow> (ptr \<times> 'd world) option" where
  "ibv_open_device dr al device w =
     do { (c, w) \<leftarrow> efa_device_open dr al device w; c \<leftarrow> c; Some (c, w) }"

definition set_cq_context :: "ptr option \<Rightarrow> u64 \<Rightarrow> 'd world \<Rightarrow> (ptr \<times> 'd world) option" where
  "set_cq_context cq v w =
     do {
       p \<leftarrow> cq;
       c \<leftarrow> w_cqs w p;
       Some (p, w\<lparr>w_cqs := (w_cqs w)(p \<mapsto> c\<lparr>verbs_cq := (verbs_cq c)\<lparr>cq_cq_context := v\<rparr>\<rparr>)\<rparr>)
     }"

definition ibv_create_cq ::
  "'d driver \<Rightarrow> ptr option \<Rightarrow> ptr option \<Rightarrow> i32 \<Rightarrow> u64 \<Rightarrow> ptr option \<Rightarrow> i32 \<Rightarrow> 'd world
     \<Rightarrow> (ptr \<times> 'd world) option" where
  "ibv_create_cq dr m context cqe cq_context channel comp_vector w =
     do {
       (cq, w) \<leftarrow> efa_create_cq dr m context cqe channel comp_vector w;
       set_cq_context cq cq_context w
     }"

text \<open>\<open>addr\<close> is the address of the context object, which is what this function stores.\<close>

definition ibv_create_cq_ex ::
  "'d driver \<Rightarrow> ptr option \<Rightarrow> ptr option \<Rightarrow> (ptr option \<Rightarrow> u64) \<Rightarrow> ibv_cq_init_attr_ex \<Rightarrow> 'd world
     \<Rightarrow> (ptr \<times> ibv_cq_init_attr_ex \<times> 'd world) option" where
  "ibv_create_cq_ex dr m context addr cq_attr w =
     do {
       (cq, attr, w) \<leftarrow> efa_create_cq_ex dr m context cq_attr w;
       (p, w) \<leftarrow> set_cq_context cq (addr context) w;
       Some (p, attr, w)
     }"

text \<open>The strings are not supported: a null pointer.\<close>

definition ibv_wc_status_str :: "ibv_wc_status \<Rightarrow> string option" where
  "ibv_wc_status_str status = None"

definition ibv_destroy_cq :: "'d driver \<Rightarrow> ptr \<Rightarrow> 'd world \<Rightarrow> (int \<times> 'd world) option" where
  "ibv_destroy_cq dr cq w = efa_destroy_cq dr cq w"

definition ibv_destroy_ah :: "'d driver \<Rightarrow> ptr \<Rightarrow> 'd world \<Rightarrow> (int \<times> 'd world) option" where
  "ibv_destroy_ah dr ah w = efa_destroy_ah dr ah w"

definition ibv_create_ah ::
  "'d driver \<Rightarrow> ptr option \<Rightarrow> ptr \<Rightarrow> ibv_ah_attr \<Rightarrow> 'd world \<Rightarrow> (ptr option \<times> 'd world) option" where
  "ibv_create_ah dr m pd attr w = efa_create_ah dr m pd attr w"

definition check_version :: "int \<Rightarrow> bool" where
  "check_version interface_version \<longleftrightarrow> interface_version = EFAWIN_INTERFACE_VERSION"

definition DllMain :: bool where "DllMain = True"

end
