(* ===== verification/Efa_Loader.thy ===== *)
theory Efa_Loader
  imports Efa_World
begin

text \<open>
  The interface library (\<open>interface/efawin.c\<close>): it loads \<open>efawin.dll\<close> at run time, resolves its
  functions, and forwards every verb through the table \<open>efawin_ops\<close>, which holds dummies that
  fail until the DLL is there.

  The operating system's loader and the code of the DLL are parameters. A function of a library
  that is no longer mapped cannot be called.
\<close>

section \<open>The table of operations\<close>

text \<open>What a verb returns: an \<open>int\<close>, a pointer, or nothing.\<close>

datatype api_ret = R_int int | R_ptr "ptr option" | R_void

definition dummy_reg_mr :: api_ret where "dummy_reg_mr = R_ptr None"
definition dummy_reg_mr_iova2 :: api_ret where "dummy_reg_mr_iova2 = R_ptr None"
definition dummy_dereg_mr :: api_ret where "dummy_dereg_mr = R_int (- ENODEV)"
definition dummy_query_device :: api_ret where "dummy_query_device = R_int (- ENODEV)"
definition dummy_qp_to_qp_ex :: api_ret where "dummy_qp_to_qp_ex = R_ptr None"
definition dummy_query_port :: api_ret where "dummy_query_port = R_int (- ENODEV)"
definition dummy_query_gid :: api_ret where "dummy_query_gid = R_int (- ENODEV)"
definition dummy_modify_qp :: api_ret where "dummy_modify_qp = R_int (- ENODEV)"
definition dummy_destroy_qp :: api_ret where "dummy_destroy_qp = R_int (- ENODEV)"
definition dummy_create_qp :: api_ret where "dummy_create_qp = R_ptr None"
definition dummy_dealloc_pd :: api_ret where "dummy_dealloc_pd = R_int (- ENODEV)"
definition dummy_alloc_pd :: api_ret where "dummy_alloc_pd = R_ptr None"
definition dummy_fork_init :: api_ret where "dummy_fork_init = R_int (- ENODEV)"
definition dummy_free_device_list :: api_ret where "dummy_free_device_list = R_void"
definition dummy_close_device :: api_ret where "dummy_close_device = R_int (- ENODEV)"
definition dummy_get_device_list :: api_ret where "dummy_get_device_list = R_ptr None"
definition dummy_open_device :: api_ret where "dummy_open_device = R_ptr None"
definition dummy_create_cq :: api_ret where "dummy_create_cq = R_ptr None"
definition dummy_create_cq_ex :: api_ret where "dummy_create_cq_ex = R_ptr None"
definition dummy_wc_status_str :: api_ret where "dummy_wc_status_str = R_ptr None"
definition dummy_destroy_cq :: api_ret where "dummy_destroy_cq = R_int (- ENODEV)"
definition dummy_destroy_ah :: api_ret where "dummy_destroy_ah = R_int (- ENODEV)"
definition dummy_create_ah :: api_ret where "dummy_create_ah = R_ptr None"
definition dummy_query_ah :: api_ret where "dummy_query_ah = R_int (- ENODEV)"
definition dummy_windv_query_device :: api_ret where "dummy_windv_query_device = R_int (- ENODEV)"
definition dummy_create_qp_ex :: api_ret where "dummy_create_qp_ex = R_ptr None"

datatype fn_ptr = Builtin api_ret | Dll_fn u64 u64
  \<comment> \<open>a dummy of this library; or the module and the address of a function of the DLL\<close>

definition efawin_ops_init :: "(string \<times> fn_ptr) list" where
  "efawin_ops_init =
     [(''efa_win_reg_mr'', Builtin dummy_reg_mr),
      (''efa_win_reg_mr_iova2'', Builtin dummy_reg_mr_iova2),
      (''efa_win_dereg_mr'', Builtin dummy_dereg_mr),
      (''efa_win_query_device'', Builtin dummy_query_device),
      (''efa_win_qp_to_qp_ex'', Builtin dummy_qp_to_qp_ex),
      (''efa_win_query_port'', Builtin dummy_query_port),
      (''efa_win_query_gid'', Builtin dummy_query_gid),
      (''efa_win_modify_qp'', Builtin dummy_modify_qp),
      (''efa_win_destroy_qp'', Builtin dummy_destroy_qp),
      (''efa_win_create_qp'', Builtin dummy_create_qp),
      (''efa_win_dealloc_pd'', Builtin dummy_dealloc_pd),
      (''efa_win_alloc_pd'', Builtin dummy_alloc_pd),
      (''efa_win_fork_init'', Builtin dummy_fork_init),
      (''efa_win_free_device_list'', Builtin dummy_free_device_list),
      (''efa_win_close_device'', Builtin dummy_close_device),
      (''efa_win_get_device_list'', Builtin dummy_get_device_list),
      (''efa_win_open_device'', Builtin dummy_open_device),
      (''efa_win_create_cq'', Builtin dummy_create_cq),
      (''efa_win_create_cq_ex'', Builtin dummy_create_cq_ex),
      (''efa_win_wc_status_str'', Builtin dummy_wc_status_str),
      (''efa_win_destroy_cq'', Builtin dummy_destroy_cq),
      (''efa_win_destroy_ah'', Builtin dummy_destroy_ah),
      (''efa_win_create_ah'', Builtin dummy_create_ah),
      (''efa_windv_query_ah'', Builtin dummy_query_ah),
      (''efa_windv_query_device'', Builtin dummy_windv_query_device),
      (''efa_windv_create_qp_ex'', Builtin dummy_create_qp_ex)]"

record loader =
  hEfawinLib :: "u64 option"
  efawin_ops :: "string \<rightharpoonup> fn_ptr"

definition loader_init :: loader where
  "loader_init = \<lparr>hEfawinLib = None, efawin_ops = map_of efawin_ops_init\<rparr>"

section \<open>Loading and freeing the DLL\<close>

record 'o os =
  LoadLibraryA :: "string \<Rightarrow> 'o \<Rightarrow> (u64 option \<times> u32) \<times> 'o"
  GetProcAddress :: "u64 \<Rightarrow> string \<Rightarrow> u64 option"
  FreeLibrary :: "u64 \<Rightarrow> 'o \<Rightarrow> 'o"
  call_check_version :: "u64 \<Rightarrow> int \<Rightarrow> bool"

text \<open>The member and the exported name it is resolved from, in the order of the calls.\<close>

definition efawin_imports :: "(string \<times> string) list" where
  "efawin_imports =
     [(''efa_win_reg_mr'', ''ibv_reg_mr''), (''efa_win_reg_mr_iova2'', ''ibv_reg_mr_iova2''),
      (''efa_win_dereg_mr'', ''ibv_dereg_mr''),
      (''efa_win_query_device'', ''ibv_query_device''),
      (''efa_win_qp_to_qp_ex'', ''ibv_qp_to_qp_ex''),
      (''efa_win_query_port'', ''ibv_query_port''), (''efa_win_query_gid'', ''ibv_query_gid''),
      (''efa_win_modify_qp'', ''ibv_modify_qp''), (''efa_win_destroy_qp'', ''ibv_destroy_qp''),
      (''efa_win_create_qp'', ''ibv_create_qp''), (''efa_win_dealloc_pd'', ''ibv_dealloc_pd''),
      (''efa_win_alloc_pd'', ''ibv_alloc_pd''), (''efa_win_fork_init'', ''ibv_fork_init''),
      (''efa_win_free_device_list'', ''ibv_free_device_list''),
      (''efa_win_close_device'', ''ibv_close_device''),
      (''efa_win_get_device_list'', ''ibv_get_device_list''),
      (''efa_win_open_device'', ''ibv_open_device''),
      (''efa_win_create_cq'', ''ibv_create_cq''),
      (''efa_win_create_cq_ex'', ''ibv_create_cq_ex''),
      (''efa_win_wc_status_str'', ''ibv_wc_status_str''),
      (''efa_win_destroy_cq'', ''ibv_destroy_cq''),
      (''efa_win_destroy_ah'', ''ibv_destroy_ah''), (''efa_win_create_ah'', ''ibv_create_ah''),
      (''efa_windv_query_ah'', ''efadv_query_ah''),
      (''efa_windv_create_qp_ex'', ''efadv_create_qp_ex''),
      (''efa_windv_query_device'', ''efadv_query_device'')]"

text \<open>The calls of \<open>GetProcAddress\<close> in order, given up at the first that fails.\<close>

fun resolve_all ::
  "(string \<Rightarrow> u64 option) \<Rightarrow> (string \<times> string) list \<Rightarrow> (string \<times> u64) list option" where
  "resolve_all get [] = Some []"
| "resolve_all get ((m, s) # is) =
     do { a \<leftarrow> get s; fs \<leftarrow> resolve_all get is; Some ((m, a) # fs) }"

definition install_ops :: "u64 \<Rightarrow> (string \<times> u64) list \<Rightarrow> loader \<Rightarrow> loader" where
  "install_ops h fs L =
     L\<lparr>hEfawinLib := Some h,
       efawin_ops := fold (\<lambda>(m, a) ops. ops(m \<mapsto> Dll_fn h a)) fs (efawin_ops L)\<rparr>"

definition liberror :: "'o os \<Rightarrow> u64 \<Rightarrow> loader \<Rightarrow> 'o \<Rightarrow> int \<times> loader \<times> 'o" where
  "liberror os h L s = (- ENODEV, L\<lparr>hEfawinLib := None\<rparr>, FreeLibrary os h s)"

definition efa_load_efawin_lib :: "'o os \<Rightarrow> loader \<Rightarrow> 'o \<Rightarrow> int \<times> loader \<times> 'o" where
  "efa_load_efawin_lib os L s =
     (if hEfawinLib L \<noteq> None then (- EALREADY, L, s)
      else case LoadLibraryA os ''efawin.dll'' s of
        ((None, error), s) \<Rightarrow> (- sint error, L\<lparr>hEfawinLib := None\<rparr>, s)
      | ((Some h, error), s) \<Rightarrow>
          (case GetProcAddress os h ''check_version'' of
             None \<Rightarrow> liberror os h L s
           | Some f \<Rightarrow>
               if \<not> call_check_version os f 1 then liberror os h L s
               else case resolve_all (GetProcAddress os h) efawin_imports of
                 None \<Rightarrow> liberror os h L s
               | Some fs \<Rightarrow> (ERROR_SUCCESS, install_ops h fs L, s)))"

definition efa_free_efawin_lib :: "'o os \<Rightarrow> loader \<Rightarrow> 'o \<Rightarrow> loader \<times> 'o" where
  "efa_free_efawin_lib os L s =
     (case hEfawinLib L of
        None \<Rightarrow> (L, s)
      | Some h \<Rightarrow> (L\<lparr>hEfawinLib := None\<rparr>, FreeLibrary os h s))"

section \<open>The forwarding functions\<close>

text \<open>The code of the DLL: the function at an address, its arguments and the state it changes.\<close>

type_synonym ('a, 'd) dll = "u64 \<Rightarrow> 'a \<Rightarrow> 'd \<Rightarrow> api_ret \<times> 'd"

definition call_op ::
  "loader \<Rightarrow> ('a, 'd) dll \<Rightarrow> string \<Rightarrow> 'a \<Rightarrow> 'd \<Rightarrow> (api_ret \<times> 'd) option" where
  "call_op L f member args d =
     (case efawin_ops L member of
        None \<Rightarrow> None
      | Some (Builtin r) \<Rightarrow> Some (r, d)
      | Some (Dll_fn h a) \<Rightarrow> if hEfawinLib L = Some h then Some (f a args d) else None)"

definition api_ibv_reg_mr_iova2 :: "loader \<Rightarrow> ('a, 'd) dll \<Rightarrow> 'a \<Rightarrow> 'd \<Rightarrow> (api_ret \<times> 'd) option" where
  "api_ibv_reg_mr_iova2 L f args d = call_op L f ''efa_win_reg_mr_iova2'' args d"
definition api_ibv_reg_mr :: "loader \<Rightarrow> ('a, 'd) dll \<Rightarrow> 'a \<Rightarrow> 'd \<Rightarrow> (api_ret \<times> 'd) option" where
  "api_ibv_reg_mr L f args d = call_op L f ''efa_win_reg_mr'' args d"
definition api_ibv_dereg_mr :: "loader \<Rightarrow> ('a, 'd) dll \<Rightarrow> 'a \<Rightarrow> 'd \<Rightarrow> (api_ret \<times> 'd) option" where
  "api_ibv_dereg_mr L f args d = call_op L f ''efa_win_dereg_mr'' args d"
definition api_ibv_query_device :: "loader \<Rightarrow> ('a, 'd) dll \<Rightarrow> 'a \<Rightarrow> 'd \<Rightarrow> (api_ret \<times> 'd) option" where
  "api_ibv_query_device L f args d = call_op L f ''efa_win_query_device'' args d"
definition api_ibv_qp_to_qp_ex :: "loader \<Rightarrow> ('a, 'd) dll \<Rightarrow> 'a \<Rightarrow> 'd \<Rightarrow> (api_ret \<times> 'd) option" where
  "api_ibv_qp_to_qp_ex L f args d = call_op L f ''efa_win_qp_to_qp_ex'' args d"
definition api_ibv_query_port :: "loader \<Rightarrow> ('a, 'd) dll \<Rightarrow> 'a \<Rightarrow> 'd \<Rightarrow> (api_ret \<times> 'd) option" where
  "api_ibv_query_port L f args d = call_op L f ''efa_win_query_port'' args d"
definition api_ibv_query_gid :: "loader \<Rightarrow> ('a, 'd) dll \<Rightarrow> 'a \<Rightarrow> 'd \<Rightarrow> (api_ret \<times> 'd) option" where
  "api_ibv_query_gid L f args d = call_op L f ''efa_win_query_gid'' args d"
definition api_ibv_modify_qp :: "loader \<Rightarrow> ('a, 'd) dll \<Rightarrow> 'a \<Rightarrow> 'd \<Rightarrow> (api_ret \<times> 'd) option" where
  "api_ibv_modify_qp L f args d = call_op L f ''efa_win_modify_qp'' args d"
definition api_ibv_destroy_qp :: "loader \<Rightarrow> ('a, 'd) dll \<Rightarrow> 'a \<Rightarrow> 'd \<Rightarrow> (api_ret \<times> 'd) option" where
  "api_ibv_destroy_qp L f args d = call_op L f ''efa_win_destroy_qp'' args d"
definition api_ibv_create_qp :: "loader \<Rightarrow> ('a, 'd) dll \<Rightarrow> 'a \<Rightarrow> 'd \<Rightarrow> (api_ret \<times> 'd) option" where
  "api_ibv_create_qp L f args d = call_op L f ''efa_win_create_qp'' args d"
definition api_ibv_dealloc_pd :: "loader \<Rightarrow> ('a, 'd) dll \<Rightarrow> 'a \<Rightarrow> 'd \<Rightarrow> (api_ret \<times> 'd) option" where
  "api_ibv_dealloc_pd L f args d = call_op L f ''efa_win_dealloc_pd'' args d"
definition api_ibv_alloc_pd :: "loader \<Rightarrow> ('a, 'd) dll \<Rightarrow> 'a \<Rightarrow> 'd \<Rightarrow> (api_ret \<times> 'd) option" where
  "api_ibv_alloc_pd L f args d = call_op L f ''efa_win_alloc_pd'' args d"
definition api_ibv_fork_init :: "loader \<Rightarrow> ('a, 'd) dll \<Rightarrow> 'a \<Rightarrow> 'd \<Rightarrow> (api_ret \<times> 'd) option" where
  "api_ibv_fork_init L f args d = call_op L f ''efa_win_fork_init'' args d"
definition api_ibv_free_device_list :: "loader \<Rightarrow> ('a, 'd) dll \<Rightarrow> 'a \<Rightarrow> 'd \<Rightarrow> (api_ret \<times> 'd) option" where
  "api_ibv_free_device_list L f args d = call_op L f ''efa_win_free_device_list'' args d"
definition api_ibv_close_device :: "loader \<Rightarrow> ('a, 'd) dll \<Rightarrow> 'a \<Rightarrow> 'd \<Rightarrow> (api_ret \<times> 'd) option" where
  "api_ibv_close_device L f args d = call_op L f ''efa_win_close_device'' args d"
definition api_ibv_get_device_list :: "loader \<Rightarrow> ('a, 'd) dll \<Rightarrow> 'a \<Rightarrow> 'd \<Rightarrow> (api_ret \<times> 'd) option" where
  "api_ibv_get_device_list L f args d = call_op L f ''efa_win_get_device_list'' args d"
definition api_ibv_open_device :: "loader \<Rightarrow> ('a, 'd) dll \<Rightarrow> 'a \<Rightarrow> 'd \<Rightarrow> (api_ret \<times> 'd) option" where
  "api_ibv_open_device L f args d = call_op L f ''efa_win_open_device'' args d"
definition api_ibv_create_cq :: "loader \<Rightarrow> ('a, 'd) dll \<Rightarrow> 'a \<Rightarrow> 'd \<Rightarrow> (api_ret \<times> 'd) option" where
  "api_ibv_create_cq L f args d = call_op L f ''efa_win_create_cq'' args d"
definition api_ibv_create_cq_ex :: "loader \<Rightarrow> ('a, 'd) dll \<Rightarrow> 'a \<Rightarrow> 'd \<Rightarrow> (api_ret \<times> 'd) option" where
  "api_ibv_create_cq_ex L f args d = call_op L f ''efa_win_create_cq_ex'' args d"
definition api_ibv_wc_status_str :: "loader \<Rightarrow> ('a, 'd) dll \<Rightarrow> 'a \<Rightarrow> 'd \<Rightarrow> (api_ret \<times> 'd) option" where
  "api_ibv_wc_status_str L f args d = call_op L f ''efa_win_wc_status_str'' args d"
definition api_ibv_destroy_cq :: "loader \<Rightarrow> ('a, 'd) dll \<Rightarrow> 'a \<Rightarrow> 'd \<Rightarrow> (api_ret \<times> 'd) option" where
  "api_ibv_destroy_cq L f args d = call_op L f ''efa_win_destroy_cq'' args d"
definition api_ibv_destroy_ah :: "loader \<Rightarrow> ('a, 'd) dll \<Rightarrow> 'a \<Rightarrow> 'd \<Rightarrow> (api_ret \<times> 'd) option" where
  "api_ibv_destroy_ah L f args d = call_op L f ''efa_win_destroy_ah'' args d"
definition api_ibv_create_ah :: "loader \<Rightarrow> ('a, 'd) dll \<Rightarrow> 'a \<Rightarrow> 'd \<Rightarrow> (api_ret \<times> 'd) option" where
  "api_ibv_create_ah L f args d = call_op L f ''efa_win_create_ah'' args d"
definition api_efadv_query_ah :: "loader \<Rightarrow> ('a, 'd) dll \<Rightarrow> 'a \<Rightarrow> 'd \<Rightarrow> (api_ret \<times> 'd) option" where
  "api_efadv_query_ah L f args d = call_op L f ''efa_windv_query_ah'' args d"
definition api_efadv_query_device :: "loader \<Rightarrow> ('a, 'd) dll \<Rightarrow> 'a \<Rightarrow> 'd \<Rightarrow> (api_ret \<times> 'd) option" where
  "api_efadv_query_device L f args d = call_op L f ''efa_windv_query_device'' args d"
definition api_efadv_create_qp_ex :: "loader \<Rightarrow> ('a, 'd) dll \<Rightarrow> 'a \<Rightarrow> 'd \<Rightarrow> (api_ret \<times> 'd) option" where
  "api_efadv_create_qp_ex L f args d = call_op L f ''efa_windv_create_qp_ex'' args d"

end
