(* ===== verification/Efa_Driver.thy ===== *)
theory Efa_Driver
  imports Efa_World
begin

text \<open>
  A reference driver: the smallest one that keeps the contract of the control requests. It
  hands out fresh numbers, remembers which are live, and can be told to refuse everything. The
  kernel driver is a parameter of the model; this one shows that what is assumed of it can hold.
\<close>

record ref_state =
  rs_next :: nat
  rs_pds :: "nat list"
  rs_mrs :: "nat list"
  rs_handles :: "nat list"
  rs_refuse :: bool

definition granted :: "'o \<Rightarrow> nat \<Rightarrow> 'o ioctl_reply" where
  "granted out n = \<lparr>bResult = True, bytesReturned = of_nat n, outBuffer = out, lastError = 0\<rparr>"

abbreviation ERROR_ACCESS_DENIED :: u32 where "ERROR_ACCESS_DENIED \<equiv> 5"

definition refused :: "'o \<Rightarrow> 'o ioctl_reply" where
  "refused out =
     \<lparr>bResult = False, bytesReturned = 0, outBuffer = out, lastError = ERROR_ACCESS_DENIED\<rparr>"

definition unless_refused ::
  "(ref_state \<Rightarrow> 'o ioctl_reply \<times> ref_state) \<Rightarrow> 'o \<Rightarrow> ref_state \<Rightarrow> 'o ioctl_reply \<times> ref_state" where
  "unless_refused f out d = (if rs_refuse d then (refused out, d) else f d)"

definition ref_driver :: "ref_state driver" where
  "ref_driver =
     \<lparr>CreateFile = (\<lambda>d. if rs_refuse d then ((INVALID_HANDLE_VALUE, ERROR_FILE_NOT_FOUND), d)
        else ((of_nat (rs_next d), 0),
              d\<lparr>rs_next := Suc (rs_next d), rs_handles := rs_next d # rs_handles d\<rparr>)),
      CloseHandle = (\<lambda>h d. d\<lparr>rs_handles := remove1 (unat h) (rs_handles d)\<rparr>),
      IOCTL_EFA_QUERY_DEVICE = (\<lambda>h i n out. unless_refused (\<lambda>d.
        (granted (out\<lparr>di_NumSubCqs := 2, di_MaxSqDepth := 16, di_MaxRqDepth := 16,
           di_MaxSqSge := 2, di_MaxRqSge := 2, di_MaxQp := 4\<rparr>) sizeof_EFA_DEVICE_INFO, d)) out),
      IOCTL_EFA_CREATE_CQ = (\<lambda>h i n out. unless_refused (\<lambda>d.
        (granted (out\<lparr>ci_CqAddr := Some (replicate (unat (ccq_CqDepth i) * unat (ccq_NumSubCqs i) *
             unat (ccq_EntrySizeInBytes i)) 0),
           ci_CqIndex := of_nat (rs_next d), ci_CqActualDepth := ccq_CqDepth i\<rparr>)
           sizeof_EFA_CQ_INFO, d\<lparr>rs_next := Suc (rs_next d)\<rparr>)) out),
      IOCTL_EFA_DESTROY_CQ = (\<lambda>h i n out. unless_refused (\<lambda>d. (granted out 0, d)) out),
      IOCTL_EFA_CREATE_QP = (\<lambda>h i n out. unless_refused (\<lambda>d.
        (granted (out\<lparr>qi_RqDoorbellAddr := 0x8008, qi_SqDoorbellAddr := 0x8000,
           qi_RqAddr := 0x4000, qi_SqAddr := 0x2000,
           qi_QpHandle := of_nat (rs_next d), qi_QpNum := of_nat (rs_next d),
           qi_SendSubCqIndex := 0, qi_RecvSubCqIndex := 1\<rparr>) sizeof_EFA_QP_INFO,
         d\<lparr>rs_next := Suc (rs_next d)\<rparr>)) out),
      IOCTL_EFA_DESTROY_QP = (\<lambda>h i n out. unless_refused (\<lambda>d. (granted out 0, d)) out),
      IOCTL_EFA_REG_MR = (\<lambda>h i n out. unless_refused (\<lambda>d.
        (granted \<lparr>mi_LKey = of_nat (rs_next d), mi_RKey = of_nat (rs_next d)\<rparr> sizeof_EFA_MR_INFO,
         d\<lparr>rs_next := Suc (rs_next d), rs_mrs := rs_next d # rs_mrs d\<rparr>)) out),
      IOCTL_EFA_DEREG_MR = (\<lambda>h i n out. unless_refused (\<lambda>d.
        (granted out 0, d\<lparr>rs_mrs := remove1 (unat (dmr_LKey i)) (rs_mrs d)\<rparr>)) out),
      IOCTL_EFA_ALLOC_AH = (\<lambda>h i n out. unless_refused (\<lambda>d.
        (granted \<lparr>ai_AddressHandle = of_nat (rs_next d)\<rparr> sizeof_EFA_AH_INFO,
         d\<lparr>rs_next := Suc (rs_next d)\<rparr>)) out),
      IOCTL_EFA_DEALLOC_AH = (\<lambda>h i n out. unless_refused (\<lambda>d. (granted out 0, d)) out),
      IOCTL_EFA_ALLOC_PD = (\<lambda>h i n out. unless_refused (\<lambda>d.
        (granted \<lparr>pi_Pdn = of_nat (rs_next d)\<rparr> sizeof_EFA_PD_INFO,
         d\<lparr>rs_next := Suc (rs_next d), rs_pds := rs_next d # rs_pds d\<rparr>)) out),
      IOCTL_EFA_DEALLOC_PD = (\<lambda>h i n out. unless_refused (\<lambda>d.
        (granted out 0, d\<lparr>rs_pds := remove1 (unat (dpd_Pdn i)) (rs_pds d)\<rparr>)) out),
      IOCTL_EFA_MODIFY_QP = (\<lambda>h i n out. unless_refused (\<lambda>d. (granted out 0, d)) out)\<rparr>"

lemma granted_simps [simp]:
  "outBuffer (granted out n) = out" "ioctl_status_nodata (granted out n) = 0"
  by (simp_all add: granted_def ioctl_status_nodata_def)

lemma granted_status [simp]: "n < 2 ^ 32 \<Longrightarrow> ioctl_status (granted out n) n = 0"
  by (simp add: granted_def ioctl_status_def unat_of_nat take_bit_nat_eq_self)

lemma refused_status [simp]:
  "ioctl_status (refused out) n = 5" "ioctl_status_nodata (refused out) = 5"
  by (simp_all add: refused_def ioctl_status_def ioctl_status_nodata_def)

section \<open>A small world\<close>

text \<open>
  A context at 0, its device at 1, a protection domain at 2, a completion queue at 3 with two
  sub-queues; a table of four queue pairs.
\<close>

definition ref_state0 :: "bool \<Rightarrow> ref_state" where
  "ref_state0 refuse = \<lparr>rs_next = 8, rs_pds = [], rs_mrs = [], rs_handles = [7], rs_refuse = refuse\<rparr>"

definition ref_dev :: efa_dev where
  "ref_dev = zero_dev\<lparr>dev_pg_sz := 4096, dev_device := \<lparr>wd_Device = 7, wd_PageSize = 4096\<rparr>\<rparr>"

definition ref_ctx :: efa_context where
  "ref_ctx = \<lparr>ctx_device = Some 1, cmds_supp_udata_mask = 0, sub_cqs_per_cq = 2, inline_buf_size = 32,
     max_llq_size = 0, device_caps = 0, ctx_max_sq_wr = 16, ctx_max_rq_wr = 16, ctx_max_sq_sge = 2,
     ctx_max_rq_sge = 2, max_rdma_size = 0, ctx_max_wr_rdma_sge = 1, max_tx_batch = 0, min_sq_wr = 0,
     max_mr_size = 0, ctx_cqe_size = 32, qp_table = Live (replicate 4 None), qp_table_sz_m1 = 3,
     qp_table_lock = 0, ctx_ops = Map.empty, ctx_abi_compat = 0, vctx_sz = 0\<rparr>"

definition ref_cq :: efa_cq where
  "ref_cq = (zero_cq 2)\<lparr>num_sub_cqs := 2, sub_cq_arr := replicate 2
     \<lparr>consumed_cnt = 0, sub_phase = 1, sub_buf = 0, sub_qmask = 3, sub_cqe_size = 32,
      sub_ref_cnt = 0\<rparr>\<rparr>"

definition ref_world :: "bool \<Rightarrow> ref_state world" where
  "ref_world refuse = \<lparr>w_drv = ref_state0 refuse, w_devs = [1 \<mapsto> ref_dev], w_ctxs = [0 \<mapsto> ref_ctx],
     w_pds = [2 \<mapsto> \<lparr>pd_context = Some 0, pd_handle = 5, pdn = 5\<rparr>], w_mrs = Map.empty,
     w_ahs = Map.empty, w_cqs = [3 \<mapsto> ref_cq], w_qps = Map.empty, w_errno = 0\<rparr>"

end
