(* ===== verification/Efa_Qp_Create.thy ===== *)
theory Efa_Qp_Create
  imports Efa_Qp
begin

text \<open>
  What \<open>create_qp\<close> does as a whole: a failed call leaves no trace but \<open>errno\<close> and takes back
  what it asked of the driver; a successful one publishes a queue pair whose queues are ready
  for the data path.
\<close>

section \<open>One command to the driver\<close>

lemma fresh_upd [simp]: "h p = None \<Longrightarrow> h(p := None) = h"
  by (simp add: fun_upd_idem)

text \<open>The request for a queue pair, and its release.\<close>

definition asked_qp ::
  "'d driver \<Rightarrow> u64 \<Rightarrow> EFA_CREATE_QP_PARAMS \<Rightarrow> 'd \<Rightarrow> EFA_QP_INFO ioctl_reply \<Rightarrow> 'd \<Rightarrow> bool" where
  "asked_qp dr h params d r d' \<longleftrightarrow>
     IOCTL_EFA_CREATE_QP dr h params sizeof_EFA_CREATE_QP_PARAMS zero_QP_INFO d = (r, d')"

definition released_qp :: "'d driver \<Rightarrow> u64 \<Rightarrow> u32 \<Rightarrow> 'd \<Rightarrow> unit ioctl_reply \<Rightarrow> 'd \<Rightarrow> bool" where
  "released_qp dr h qph d r d' \<longleftrightarrow>
     IOCTL_EFA_DESTROY_QP dr h \<lparr>dqp_QpHandle = qph\<rparr> sizeof_EFA_DESTROY_QP_PARAMS () d = (r, d')"

text \<open>The queue pair the command layer leaves behind.\<close>

definition filled_qp ::
  "efa_pd \<Rightarrow> ibv_qp_init_attr_ex \<Rightarrow> EFA_CREATE_QP_PARAMS \<Rightarrow> EFA_QP_INFO \<Rightarrow> efa_qp \<Rightarrow> efa_qp" where
  "filled_qp pd attr params info q =
     fill_efa_qp params info (q\<lparr>verbs_qp := fill_ibv_qp pd attr params info (verbs_qp q)\<rparr>)"

lemma cmd_create_qp_cases:
  assumes "ibv_cmd_create_qp_ex dr qp attr resp w = Some (err, resp', w')"
  obtains pd edev scq rcq q params r d where
    "deref (w_pds w) (iax_pd attr) = Some pd" "edev_at w (pd_context pd) = Some edev"
    "w_qps w qp = Some q" "params = create_qp_params pd scq rcq attr q"
    "asked_qp dr (wd_Device (dev_device edev)) params (w_drv w) r d"
    "err = ioctl_status r sizeof_EFA_QP_INFO"
    "err \<noteq> 0 \<and> resp' = resp \<and> w' = w\<lparr>w_drv := d\<rparr> \<or>
     err = 0 \<and> resp' = fill_qp_resp attr (outBuffer r) (ucast (cqp_RqRingSizeInBytes params)) resp \<and>
     w' = w\<lparr>w_drv := d, w_qps := (w_qps w)(qp \<mapsto> filled_qp pd attr params (outBuffer r) q)\<rparr>"
  using assms unfolding ibv_cmd_create_qp_ex_def efa_win_create_qp_def
  apply (simp add: Option.bind_eq_Some_conv Let_def split: prod.splits if_splits)
  subgoal by (elim exE conjE, rule that) (auto simp: asked_qp_def)
  subgoal by (elim exE conjE, rule that)
      (auto simp: asked_qp_def filled_qp_def fill_efa_qp_def Let_def)
  done

lemma cmd_destroy_qp_cases:
  assumes "ibv_cmd_destroy_qp dr qp w = Some (err, w')"
  obtains q edev r d where "w_qps w qp = Some q" "edev_at w (qp_context_ptr (verbs_qp q)) = Some edev"
    "released_qp dr (wd_Device (dev_device edev)) (qp_handle (verbs_qp q)) (w_drv w) r d"
    "err = ioctl_status_nodata r" "w' = w\<lparr>w_drv := d\<rparr>"
  using assms unfolding ibv_cmd_destroy_qp_def efa_win_destroy_qp_def
  by (auto simp: Option.bind_eq_Some_conv Let_def released_qp_def split: prod.splits)

section \<open>Failure\<close>

text \<open>
  What a failed creation may leave with the driver: nothing asked, a request that was refused,
  or a queue pair that was given and taken back.
\<close>

definition qp_undone :: "'d driver \<Rightarrow> u64 \<Rightarrow> 'd \<Rightarrow> 'd \<Rightarrow> bool" where
  "qp_undone dr h d d' \<longleftrightarrow>
     d' = d \<or>
     (\<exists>params r. asked_qp dr h params d r d' \<and> ioctl_status r sizeof_EFA_QP_INFO \<noteq> 0) \<or>
     (\<exists>params r d1 r'. asked_qp dr h params d r d1 \<and> ioctl_status r sizeof_EFA_QP_INFO = 0 \<and>
        released_qp dr h (qi_QpHandle (outBuffer r)) d1 r' d')"

lemma rq_initialize_verbs:
  "efa_rq_initialize al ctxs q resp = Some (err, q') \<Longrightarrow> verbs_qp q' = verbs_qp q"
  by (auto simp: efa_rq_initialize_def Let_def Option.bind_eq_Some_conv split: if_splits)

lemma rq_terminate_verbs: "efa_rq_terminate q = Some q' \<Longrightarrow> verbs_qp q' = verbs_qp q"
  by (auto simp: efa_rq_terminate_def Option.bind_eq_Some_conv split: if_splits)

lemma sq_initialize_verbs:
  "efa_sq_initialize al ctxs q attr resp = Some (err, q') \<Longrightarrow> verbs_qp q' = verbs_qp q"
  by (auto simp: efa_sq_initialize_def Let_def Option.bind_eq_Some_conv split: if_splits)

lemma create_qp_undo_effect:
  assumes "create_qp_undo dr p err w = Some w'"
  obtains q edev r d where "w_qps w p = Some q" "edev_at w (qp_context_ptr (verbs_qp q)) = Some edev"
    "released_qp dr (wd_Device (dev_device edev)) (qp_handle (verbs_qp q)) (w_drv w) r d"
    "w' = w\<lparr>w_drv := d, w_qps := (w_qps w)(p := None), w_errno := err\<rparr>"
proof -
  from assms obtain e w1 where *: "ibv_cmd_destroy_qp dr p w = Some (e, w1)"
    "create_qp_free p err w1 = Some w'"
    by (auto simp: create_qp_undo_def Option.bind_eq_Some_conv)
  from *(1) show ?thesis
  proof (rule cmd_destroy_qp_cases, goal_cases)
    case (1 q edev r d)
    then show ?case using *(2)
      by (intro that [of q edev r d]) (auto simp: create_qp_free_def create_qp_out_def)
  qed
qed

lemma create_qp_undo_rq_effect:
  assumes "create_qp_undo_rq dr p err w = Some w'"
  obtains q edev r d where "w_qps w p = Some q" "edev_at w (qp_context_ptr (verbs_qp q)) = Some edev"
    "released_qp dr (wd_Device (dev_device edev)) (qp_handle (verbs_qp q)) (w_drv w) r d"
    "w' = w\<lparr>w_drv := d, w_qps := (w_qps w)(p := None), w_errno := err\<rparr>"
proof -
  from assms obtain q q' where q: "w_qps w p = Some q" "efa_rq_terminate q = Some q'"
    and u: "create_qp_undo dr p err (w\<lparr>w_qps := (w_qps w)(p \<mapsto> q')\<rparr>) = Some w'"
    by (auto simp: create_qp_undo_rq_def Option.bind_eq_Some_conv)
  from u show ?thesis
  proof (rule create_qp_undo_effect, goal_cases)
    case (1 q2 edev r d)
    then show ?case using q rq_terminate_verbs [OF q(2)]
      by (intro that [of q edev r d]) (auto simp: edev_at_def)
  qed
qed

lemma filled_qp_handle [simp]:
  "qp_handle (verbs_qp (filled_qp pd attr params info q)) = qi_QpHandle info"
  "qp_context_ptr (verbs_qp (filled_qp pd attr params info q)) = pd_context pd"
  "qp_num (verbs_qp (filled_qp pd attr params info q)) = qi_QpNum info"
  by (simp_all add: filled_qp_def fill_efa_qp_def fill_ibv_qp_def Let_def)

lemma errno_upd_inject [simp]:
  fixes w :: "'d world"
  shows "w\<lparr>w_errno := a\<rparr> = w\<lparr>w_errno := b\<rparr> \<longleftrightarrow> a = b"
  by (auto dest: arg_cong [of _ _ w_errno])

text \<open>The queues of a created object: on failure it is taken back.\<close>

lemma create_qp_queues_failure:
  assumes run: "create_qp_queues dr al ctxp p attr resp w = Some (None, w')"
    and q: "w_qps w p = Some q" and e: "edev_at w (qp_context_ptr (verbs_qp q)) = Some edev"
  obtains r d err where "err \<noteq> 0"
    "released_qp dr (wd_Device (dev_device edev)) (qp_handle (verbs_qp q)) (w_drv w) r d"
    "w' = w\<lparr>w_drv := d, w_qps := (w_qps w)(p := None), w_errno := err\<rparr>"
proof -
  define q0 where "q0 = q\<lparr>verbs_qp := (verbs_qp q)\<lparr>qp_state := IBV_QPS_RESET\<rparr>,
    sq_sig_all := ia_sq_sig_all (iax_base attr)\<rparr>"
  from run q obtain err1 q1 where 1: "efa_rq_initialize al (w_ctxs w) q0 resp = Some (err1, q1)"
    "err1 \<noteq> 0 \<and> create_qp_undo dr p err1 (w\<lparr>w_qps := (w_qps w)(p \<mapsto> q1)\<rparr>) = Some w' \<or>
     err1 = 0 \<and> (\<exists>err2 q2. efa_sq_initialize al (w_ctxs w) q1 attr resp = Some (err2, q2) \<and>
       err2 \<noteq> 0 \<and> create_qp_undo_rq dr p err2 (w\<lparr>w_qps := (w_qps w)(p \<mapsto> q2)\<rparr>) = Some w')"
    by (auto simp: create_qp_queues_def create_qp_publish_def Option.bind_eq_Some_conv Let_def
        q0_def split: if_splits)
  obtain q2 err where 2: "err \<noteq> 0" "verbs_qp q2 = verbs_qp q0"
    "create_qp_undo dr p err (w\<lparr>w_qps := (w_qps w)(p \<mapsto> q2)\<rparr>) = Some w' \<or>
     create_qp_undo_rq dr p err (w\<lparr>w_qps := (w_qps w)(p \<mapsto> q2)\<rparr>) = Some w'"
    using 1 by (metis rq_initialize_verbs sq_initialize_verbs)
  define w2 where "w2 = w\<lparr>w_qps := (w_qps w)(p \<mapsto> q2)\<rparr>"
  obtain q3 e3 r d where 3: "w_qps w2 p = Some q3" "edev_at w2 (qp_context_ptr (verbs_qp q3)) = Some e3"
    "released_qp dr (wd_Device (dev_device e3)) (qp_handle (verbs_qp q3)) (w_drv w2) r d"
    "w' = w2\<lparr>w_drv := d, w_qps := (w_qps w2)(p := None), w_errno := err\<rparr>"
    using 2(3) by (auto simp: w2_def [symmetric] elim!: create_qp_undo_effect create_qp_undo_rq_effect)
  have "q3 = q2" using 3(1) by (simp add: w2_def)
  moreover have "e3 = edev" using 3(2) e 2(2) \<open>q3 = q2\<close> by (auto simp: w2_def edev_at_def q0_def)
  ultimately show ?thesis using 3 2 by (intro that [of err r d]) (auto simp: w2_def q0_def)
qed

lemma create_qp_failure:
  assumes run: "create_qp dr al ibvctx attr efa_attr w = Some (None, attr', w')"
    and fresh: "\<And>p. al_qp al = Some p \<Longrightarrow> w_qps w p = None"
    and pd: "deref (w_pds w) (iax_pd attr) = Some pd" "edev_at w (pd_context pd) = Some edev"
  shows "w' = w\<lparr>w_drv := w_drv w', w_errno := w_errno w'\<rparr> \<and> w_errno w' \<noteq> 0 \<and>
         qp_undone dr (wd_Device (dev_device edev)) (w_drv w) (w_drv w')"
proof -
  define h where "h = wd_Device (dev_device edev)"
  from run obtain ctxp ctx where 1: "(w' = create_qp_out (w_errno w') w \<and> w_errno w' \<noteq> 0) \<or>
      (\<exists>p. al_qp al = Some p \<and> create_qp_at dr al ctxp ctx p attr w = Some (None, attr', w'))"
    by (cases "al_qp al")
      (auto simp: create_qp_def create_qp_out_def Option.bind_eq_Some_conv Let_def split: if_splits)
  show ?thesis
  proof (cases "w' = create_qp_out (w_errno w') w \<and> w_errno w' \<noteq> 0")
    case True
    then have "w_drv w' = w_drv w" by (metis create_qp_out_def world.simps(1) world.surjective world.update_convs(9))
    then show ?thesis using True by (auto simp: create_qp_out_def qp_undone_def)
  next
    case False
    then obtain p where p: "al_qp al = Some p"
      "create_qp_at dr al ctxp ctx p attr w = Some (None, attr', w')" using 1 by blast
    note f = fresh [OF p(1)]
    from p(2) obtain q err resp w1 where cmd:
      "ibv_cmd_create_qp_ex dr p (sized_attr attr q) zero_qp_resp (w\<lparr>w_qps := (w_qps w)(p \<mapsto> q)\<rparr>) =
         Some (err, resp, w1)"
      and rest: "(if err \<noteq> 0 then do { w \<leftarrow> create_qp_free p err w1; Some (None, sized_attr attr q, w) }
        else do { (r, w) \<leftarrow> create_qp_queues dr al ctxp p (sized_attr attr q) resp w1;
                  Some (r, sized_attr attr q, w) }) = Some (None, attr', w')"
      by (auto simp: create_qp_at_def Option.bind_eq_Some_conv Let_def split del: if_split)
    define attr1 where "attr1 = sized_attr attr q"
    have 2: "iax_pd attr1 = iax_pd attr"
      "ibv_cmd_create_qp_ex dr p attr1 zero_qp_resp (w\<lparr>w_qps := (w_qps w)(p \<mapsto> q)\<rparr>) =
         Some (err, resp, w1)"
      "err \<noteq> 0 \<and> create_qp_free p err w1 = Some w' \<or>
       err = 0 \<and> create_qp_queues dr al ctxp p attr1 resp w1 = Some (None, w')"
      using cmd rest
      by (auto simp: attr1_def sized_attr_def Option.bind_eq_Some_conv split: if_split_asm)
    from 2(2) show ?thesis
    proof (rule cmd_create_qp_cases, goal_cases)
      case (1 pd' edev' scq rcq q' params r d)
      have same: "pd' = pd" "edev' = edev" using 1 pd 2(1) by (auto simp: edev_at_def)
      have ask: "asked_qp dr h params (w_drv w) r d" "err = ioctl_status r sizeof_EFA_QP_INFO"
        using 1 same by (auto simp: h_def)
      show ?case
      proof (cases "err = 0")
        case False
        then show ?thesis using 1 2(3) f ask
          by (auto simp: create_qp_free_def create_qp_out_def qp_undone_def h_def)
      next
        case True
        define q1 where "q1 = filled_qp pd attr1 params (outBuffer r) q'"
        have w1: "w1 = w\<lparr>w_drv := d, w_qps := (w_qps w)(p \<mapsto> q1)\<rparr>"
          using True 1 same by (auto simp: q1_def)
        have "create_qp_queues dr al ctxp p attr1 resp w1 = Some (None, w')" using 2(3) True by simp
        moreover have "w_qps w1 p = Some q1" by (simp add: w1)
        moreover have "edev_at w1 (qp_context_ptr (verbs_qp q1)) = Some edev"
          using pd(2) by (simp add: w1 q1_def edev_at_def)
        ultimately obtain r2 d2 e2 where fin: "e2 \<noteq> 0"
          "released_qp dr h (qi_QpHandle (outBuffer r)) d r2 d2"
          "w' = w1\<lparr>w_drv := d2, w_qps := (w_qps w1)(p := None), w_errno := e2\<rparr>"
          by (rule create_qp_queues_failure) (auto simp: w1 q1_def h_def)
        have "qp_undone dr h (w_drv w) d2" unfolding qp_undone_def using ask True fin(2) by metis
        then show ?thesis using fin f by (simp add: w1 h_def)
      qed
    qed
  qed
qed

section \<open>The shared tables\<close>

text \<open>A change of one reference count, and the slot of a queue pair in its context's table.\<close>

definition bump_at :: "(u32 \<Rightarrow> u32) \<Rightarrow> ptr option \<Rightarrow> nat \<Rightarrow> (ptr \<rightharpoonup> efa_cq) \<Rightarrow> (ptr \<rightharpoonup> efa_cq)" where
  "bump_at f a i h =
     (case a of
        None \<Rightarrow> h
      | Some p \<Rightarrow>
          (case h p of
             None \<Rightarrow> h
           | Some c \<Rightarrow> h(p \<mapsto> c\<lparr>sub_cq_arr := (sub_cq_arr c)
               [i := (sub_cq_arr c ! i)\<lparr>sub_ref_cnt := f (sub_ref_cnt (sub_cq_arr c ! i))\<rparr>]\<rparr>)))"

definition has_sub :: "(ptr \<rightharpoonup> efa_cq) \<Rightarrow> ptr option \<Rightarrow> nat \<Rightarrow> bool" where
  "has_sub h a i \<longleftrightarrow> (\<exists>p c. a = Some p \<and> h p = Some c \<and> i < length (sub_cq_arr c))"

definition qp_slot :: "efa_context \<Rightarrow> u32 \<Rightarrow> nat" where
  "qp_slot ctx n = unat (n AND qp_table_sz_m1 ctx)"

lemma spin_unlock_lock_cq: "pthread_spin_lock l = Suc l" by (simp add: pthread_spin_lock_def)

lemma count_on_cq_eq:
  "count_on_cq a sub w = Some w' \<longleftrightarrow>
     has_sub (w_cqs w) a (unat (ucast sub :: u8)) \<and>
     w' = w\<lparr>w_cqs := bump_at (\<lambda>n. n + 1) a (unat (ucast sub :: u8)) (w_cqs w)\<rparr>"
proof (cases a)
  case None
  then show ?thesis by (simp add: count_on_cq_def lock_cq_def has_sub_def)
next
  case (Some p)
  show ?thesis
  proof (cases "w_cqs w p")
    case None
    then show ?thesis using Some by (simp add: count_on_cq_def lock_cq_def has_sub_def)
  next
    case (Some c)
    then show ?thesis using \<open>a = Some p\<close>
      by (cases "unat (ucast sub :: u8) < length (sub_cq_arr c)")
        (auto simp: count_on_cq_def lock_cq_def unlock_cq_def on_cq_def efa_cq_inc_ref_cnt_def
           has_sub_def bump_at_def arr_get_def arr_set_def)
  qed
qed

lemma publish_qp_eq:
  "publish_qp c p w = Some w' \<longleftrightarrow>
     (\<exists>q ctx tbl. w_qps w p = Some q \<and> w_ctxs w c = Some ctx \<and> qp_table ctx = Live tbl \<and>
        qp_slot ctx (qp_num (verbs_qp q)) < length tbl \<and>
        w' = w\<lparr>w_ctxs := (w_ctxs w)(c \<mapsto>
          ctx\<lparr>qp_table := Live (tbl[qp_slot ctx (qp_num (verbs_qp q)) := Some p])\<rparr>)\<rparr>)"
  by (auto simp: publish_qp_def Option.bind_eq_Some_conv Let_def cb_set_eq_Some qp_slot_def)

lemma bump_at_has_sub [simp]: "has_sub (bump_at f a i h) b j = has_sub h b j"
  by (auto simp: has_sub_def bump_at_def split: option.splits)

lemma bump_at_dom: "bump_at f a i h p = None \<longleftrightarrow> h p = None"
  by (auto simp: bump_at_def split: option.splits)

text \<open>The sub-queues the two queues of a queue pair complete into.\<close>

definition sq_sub :: "efa_qp \<Rightarrow> nat" where
  "sq_sub q = unat (ucast (wq_sub_cq_idx (sq_wq (qp_sq q))) :: u8)"

definition rq_sub :: "efa_qp \<Rightarrow> nat" where
  "rq_sub q = unat (ucast (wq_sub_cq_idx (rq_wq (qp_rq q))) :: u8)"

end
