(* ===== verification/Efa_Qp_Life.thy ===== *)
theory Efa_Qp_Life
  imports Efa_Qp_Create
begin

text \<open>
  The life of a queue pair: what destruction does, that it undoes a creation, what a reset
  does to the queues.
\<close>

section \<open>Destruction\<close>

text \<open>What destruction does when every object it reaches is live.\<close>

lemma cqs_upd_inject [simp]:
  fixes w :: "'d world"
  shows "w\<lparr>w_cqs := a\<rparr> = w\<lparr>w_cqs := b\<rparr> \<longleftrightarrow> a = b"
  by (auto dest: arg_cong [of _ _ w_cqs])

lemma uncount_cqs:
  assumes "has_sub (w_cqs w) (qp_send_cq v) (unat i)" "has_sub (w_cqs w) (qp_recv_cq v) (unat j)"
  shows "\<exists>w1 w2 g. efa_lock_cqs v w = Some w1 \<and>
     on_cq (\<lambda>c. efa_cq_dec_ref_cnt c i) (qp_send_cq v) w1 = Some w2 \<and>
     on_cq (\<lambda>c. efa_cq_dec_ref_cnt c j) (qp_recv_cq v) w2 = Some (w\<lparr>w_cqs := g\<rparr>) \<and>
     (\<forall>x. efa_unlock_cqs v (w\<lparr>w_cqs := g, w_ctxs := x\<rparr>) =
       Some (w\<lparr>w_ctxs := x, w_cqs := bump_at (\<lambda>n. n - 1) (qp_recv_cq v) (unat j)
                    (bump_at (\<lambda>n. n - 1) (qp_send_cq v) (unat i) (w_cqs w))\<rparr>))"
proof -
  obtain a ca where a: "qp_send_cq v = Some a" "w_cqs w a = Some ca" "unat i < length (sub_cq_arr ca)"
    using assms(1) by (auto simp: has_sub_def)
  obtain b cb where b: "qp_recv_cq v = Some b" "w_cqs w b = Some cb" "unat j < length (sub_cq_arr cb)"
    using assms(2) by (auto simp: has_sub_def)
  show ?thesis
  proof (cases "b = a")
    case True
    then show ?thesis using a b
      by (simp add: efa_lock_cqs_def efa_unlock_cqs_def lock_cq_def unlock_cq_def on_cq_def
          efa_cq_dec_ref_cnt_def bump_at_def spin_unlock_lock_cq)
  next
    case False
    then show ?thesis using a b
      by (simp add: efa_lock_cqs_def efa_unlock_cqs_def lock_cq_def unlock_cq_def on_cq_def
          efa_cq_dec_ref_cnt_def bump_at_def spin_unlock_lock_cq fun_upd_twist)
  qed
qed

text \<open>The world once the queue pair is out of the table and off the counts.\<close>

definition unpublished :: "efa_qp \<Rightarrow> ptr \<Rightarrow> efa_context \<Rightarrow> ptr option list \<Rightarrow> 'd world \<Rightarrow> 'd world" where
  "unpublished q c ctx tbl w =
     w\<lparr>w_ctxs := (w_ctxs w)(c \<mapsto> ctx\<lparr>qp_table :=
         Live (tbl[qp_slot ctx (qp_num (verbs_qp q)) := None])\<rparr>),
       w_cqs := bump_at (\<lambda>n. n - 1) (qp_recv_cq (verbs_qp q)) (rq_sub q)
                  (bump_at (\<lambda>n. n - 1) (qp_send_cq (verbs_qp q)) (sq_sub q) (w_cqs w))\<rparr>"

text \<open>The rest of the destruction: the arrays, the driver, the object.\<close>

definition teardown_qp :: "'d driver \<Rightarrow> ptr \<Rightarrow> efa_qp \<Rightarrow> 'd world \<Rightarrow> (int \<times> 'd world) option" where
  "teardown_qp dr p q w =
     do {
       q \<leftarrow> efa_sq_terminate q;
       q \<leftarrow> efa_rq_terminate q;
       let w = w\<lparr>w_qps := (w_qps w)(p \<mapsto> q)\<rparr>;
       (err, w) \<leftarrow> ibv_cmd_destroy_qp dr p w;
       if err \<noteq> 0 then Some (err, w)
       else do {
         h \<leftarrow> free_at (w_qps w) p;
         Some (0, w\<lparr>w_qps := h\<rparr>)
       }
     }"

lemma destroy_qp_run:
  assumes q: "w_qps w p = Some q" "qp_context_ptr (verbs_qp q) = Some c"
    and ctx: "w_ctxs w c = Some ctx" "qp_table ctx = Live tbl"
      "qp_slot ctx (qp_num (verbs_qp q)) < length tbl"
    and subs: "has_sub (w_cqs w) (qp_send_cq (verbs_qp q)) (sq_sub q)"
      "has_sub (w_cqs w) (qp_recv_cq (verbs_qp q)) (rq_sub q)"
  shows "efa_destroy_qp dr p w = teardown_qp dr p q (unpublished q c ctx tbl w)"
proof -
  define wl where "wl = w\<lparr>w_ctxs := (w_ctxs w)(c \<mapsto>
    ctx\<lparr>qp_table_lock := pthread_spin_lock (qp_table_lock ctx)\<rparr>)\<rparr>"
  have t: "cb_set (Live tbl) (unat (qp_num (verbs_qp q) AND qp_table_sz_m1 ctx)) None =
      Some (Live (tbl[qp_slot ctx (qp_num (verbs_qp q)) := None]))"
    using ctx by (simp add: qp_slot_def)
  obtain w1 w2 g where u: "efa_lock_cqs (verbs_qp q) wl = Some w1"
    "on_cq (\<lambda>c. efa_cq_dec_ref_cnt c (ucast (wq_sub_cq_idx (sq_wq (qp_sq q))))) (qp_send_cq (verbs_qp q)) w1 = Some w2"
    "on_cq (\<lambda>c. efa_cq_dec_ref_cnt c (ucast (wq_sub_cq_idx (rq_wq (qp_rq q))))) (qp_recv_cq (verbs_qp q)) w2 =
       Some (wl\<lparr>w_cqs := g\<rparr>)"
    "\<And>x. efa_unlock_cqs (verbs_qp q) (wl\<lparr>w_cqs := g, w_ctxs := x\<rparr>) =
       Some (wl\<lparr>w_ctxs := x, w_cqs := bump_at (\<lambda>n. n - 1) (qp_recv_cq (verbs_qp q)) (rq_sub q)
                  (bump_at (\<lambda>n. n - 1) (qp_send_cq (verbs_qp q)) (sq_sub q) (w_cqs wl))\<rparr>)"
    using uncount_cqs [of wl "verbs_qp q" "ucast (wq_sub_cq_idx (sq_wq (qp_sq q)))"
        "ucast (wq_sub_cq_idx (rq_wq (qp_rq q)))"] subs
    unfolding sq_sub_def rq_sub_def by (auto simp: wl_def)
  have comm: "w\<lparr>w_cqs := a, w_ctxs := b\<rparr> = w\<lparr>w_ctxs := b, w_cqs := a\<rparr>" for a b by simp
  show ?thesis
    unfolding efa_destroy_qp_def
    apply (simp add: q ctx Let_def wl_def [symmetric] u)
    apply (simp add: q ctx wl_def t teardown_qp_def unpublished_def Let_def comm del: cb_set.simps)
    done
qed

lemma destroy_qp_eq:
  assumes q: "w_qps w p = Some q" "qp_context_ptr (verbs_qp q) = Some c"
    and ctx: "w_ctxs w c = Some ctx" "qp_table ctx = Live tbl"
      "qp_slot ctx (qp_num (verbs_qp q)) < length tbl"
    and subs: "has_sub (w_cqs w) (qp_send_cq (verbs_qp q)) (sq_sub q)"
      "has_sub (w_cqs w) (qp_recv_cq (verbs_qp q)) (rq_sub q)"
    and fin: "efa_sq_terminate q = Some q1" "efa_rq_terminate q1 = Some q2"
      "verbs_qp q2 = verbs_qp q"
    and edev: "edev_at w (Some c) = Some edev"
    and rel: "released_qp dr (wd_Device (dev_device edev)) (qp_handle (verbs_qp q)) (w_drv w) r d"
  shows "efa_destroy_qp dr p w = Some (ioctl_status_nodata r,
     (unpublished q c ctx tbl w)\<lparr>w_drv := d,
       w_qps := (if ioctl_status_nodata r = 0 then (w_qps w)(p := None) else (w_qps w)(p \<mapsto> q2))\<rparr>)"
proof -
  have e: "edev_at (w\<lparr>w_ctxs := (w_ctxs w)(c \<mapsto> ctx\<lparr>qp_table := t\<rparr>), w_cqs := x, w_qps := y\<rparr>) (Some c) =
      Some edev" for t x y
    using edev ctx by (auto simp: edev_at_def)
  have d: "efa_win_destroy_qp dr (dev_device edev) \<lparr>dqp_QpHandle = qp_handle (verbs_qp q)\<rparr> (w_drv w)
      = (ioctl_status_nodata r, d)"
    using rel by (simp add: released_qp_def efa_win_destroy_qp_def)
  show ?thesis
    by (simp add: destroy_qp_run [OF q ctx subs] teardown_qp_def fin ibv_cmd_destroy_qp_def unpublished_def q e d Let_def)
qed

lemma teardown_qp_done:
  assumes "teardown_qp dr p q w = Some (0, w')"
  obtains d where "w' = w\<lparr>w_drv := d, w_qps := (w_qps w)(p := None)\<rparr>"
proof -
  from assms obtain q1 q2 where t: "efa_sq_terminate q = Some q1" "efa_rq_terminate q1 = Some q2"
    by (auto simp: teardown_qp_def Option.bind_eq_Some_conv)
  define w1 where "w1 = w\<lparr>w_qps := (w_qps w)(p \<mapsto> q2)\<rparr>"
  obtain e w2 where c: "ibv_cmd_destroy_qp dr p w1 = Some (e, w2)"
    "(if e \<noteq> 0 then Some (e, w2) else do { h \<leftarrow> free_at (w_qps w2) p; Some (0, w2\<lparr>w_qps := h\<rparr>) }) = Some (0, w')"
    using assms t by (auto simp: teardown_qp_def Option.bind_eq_Some_conv w1_def Let_def)
  obtain d where "w2 = w1\<lparr>w_drv := d\<rparr>" by (rule cmd_destroy_qp_cases [OF c(1)])
  then have "w' = w\<lparr>w_drv := d, w_qps := (w_qps w)(p := None)\<rparr>"
    using c(2) by (auto simp: w1_def split: if_splits)
  then show ?thesis by (rule that)
qed

section \<open>Modification\<close>

definition modified_qp :: "ibv_qp_attr \<Rightarrow> u32 \<Rightarrow> efa_qp \<Rightarrow> efa_qp" where
  "modified_qp attr msk q =
     (if msk AND IBV_QP_STATE = 0 then q
      else let q = q\<lparr>verbs_qp := (verbs_qp q)\<lparr>qp_state := at_qp_state attr\<rparr>\<rparr>
           in if at_qp_state attr = IBV_QPS_RESET then efa_qp_init_indices q else q)"

lemma modify_qp_cases:
  assumes "efa_modify_qp dr p attr msk w = Some (err, w')"
  obtains q edev d where "w_qps w p = Some q" "edev_at w (qp_context_ptr (verbs_qp q)) = Some edev"
    "efa_win_modify_qp dr (dev_device edev) (modify_qp_params q attr msk) (w_drv w) = (err, d)"
    "w' = w\<lparr>w_drv := d, w_qps := (w_qps w)(p \<mapsto> (if err = 0 then modified_qp attr msk q else q))\<rparr>"
proof -
  from assms obtain q edev where 0: "w_qps w p = Some q"
    "edev_at w (qp_context_ptr (verbs_qp q)) = Some edev"
    by (auto simp: efa_modify_qp_def ibv_cmd_modify_qp_def Option.bind_eq_Some_conv)
  obtain err1 d where "efa_win_modify_qp dr (dev_device edev) (modify_qp_params q attr msk) (w_drv w) = (err1, d)"
    by (metis surj_pair)
  note 1 = 0 this
  then have cmd: "ibv_cmd_modify_qp dr p attr msk w = Some (err1, w\<lparr>w_drv := d\<rparr>)"
    by (simp add: ibv_cmd_modify_qp_def 0)
  have idem: "(w_qps w)(p \<mapsto> q) = w_qps w" using 0(1) by (rule fun_upd_idem)
  have "efa_modify_qp dr p attr msk w = Some (err1, w\<lparr>w_drv := d,
      w_qps := (w_qps w)(p \<mapsto> (if err1 = 0 then modified_qp attr msk q else q))\<rparr>)"
    unfolding efa_modify_qp_def cmd
    by (cases "err1 = 0"; cases "msk AND IBV_QP_STATE = 0")
      (simp_all add: 0 modified_qp_def Let_def idem)
  then have "err1 = err"
    "w' = w\<lparr>w_drv := d, w_qps := (w_qps w)(p \<mapsto> (if err = 0 then modified_qp attr msk q else q))\<rparr>"
    using assms by simp_all
  then show ?thesis using 1 that by blast
qed

end
