(* ===== verification/Efa_Qp_Sizes.thy ===== *)
theory Efa_Qp_Sizes
  imports Efa_Qp
begin

text \<open>
  The sizes \<open>efa_setup_qp\<close> gives the two queues of a queue pair.
\<close>

lemma roundup_pow_of_two_any:
  assumes "unat n \<le> 2 ^ m" and "0 < m" and "m \<le> 31"
  shows "\<exists>k r. roundup_pow_of_two n = Some r \<and> unat r = 2 ^ k \<and> k \<le> m \<and> unat n \<le> 2 ^ k \<and>
    (0 < k \<or> n = 0)"
proof -
  have le: "unat n \<le> 2 ^ 31" using assms power_increasing [of m 31 "2 :: nat"] by simp
  have "unat n = 0 \<or> unat n = 1 \<or> 2 \<le> unat n" by linarith
  then consider "n = 0" | "n = 1" | "2 \<le> unat n" by (auto simp: word_unat_eq_iff)
  then show ?thesis
  proof cases
    case 1
    then show ?thesis by (intro exI [of _ 0] exI [of _ 1]) (simp add: roundup_pow_of_two_0)
  next
    case 2
    then show ?thesis using assms(2)
      by (intro exI [of _ 1] exI [of _ 2]) (simp add: roundup_pow_of_two_1)
  next
    case 3
    obtain k r where r: "roundup_pow_of_two n = Some r" "unat r = 2 ^ k" "unat n \<le> unat r"
      "unat r < 2 * unat n" "1 \<le> k" using roundup_pow_of_two_returns [OF 3 le] by blast
    have "(2 :: nat) ^ k < 2 ^ Suc m" using r assms(1) by simp
    then have "k \<le> m" using power_less_imp_less_exp [of "2 :: nat" k "Suc m"] by simp
    then show ?thesis using r by auto
  qed
qed

lemma word_eq_2_power:
  fixes w :: "'a::len word"
  assumes "unat w = 2 ^ k" and "k < LENGTH('a)"
  shows "w = 2 ^ k"
  using assms by (simp add: word_unat_eq_iff unat_2_power)

lemma ucast_pow2:
  fixes r :: u64
  assumes "unat r = 2 ^ k" and "k < LENGTH('a::len)" and "LENGTH('a) \<le> 64"
  shows "(ucast r :: 'a word) = 2 ^ k"
proof -
  have "(2 :: nat) ^ k < 2 ^ LENGTH('a)" using assms(2) by simp
  then show ?thesis using assms by (intro word_eq_2_power) (simp_all add: unat_ucast_mod)
qed

lemma mask_from_pow2:
  assumes "k \<le> 15"
  shows "(ucast (2 ^ k - 1 :: u32) :: u16) = mask k"
proof -
  have "(2 ^ k - 1 :: u32) = mask k" by (simp add: mask_eq_exp_minus_1)
  then show ?thesis using assms by (simp add: bit_eq_iff bit_simps)
qed

lemma c_div_nat: "0 < s \<Longrightarrow> c_div (int a) (int s) = Some (int (a div s))"
  by (cases "a = 0") (simp_all add: c_div_def signed_divide_int_def zdiv_int)

text \<open>
  The sizes: the send queue is a power of two that covers what was asked; the ring of receive
  descriptors is a power of two that covers all requests with all their elements, and the
  number of receives is what the ring can hold.
\<close>

definition sq_sized :: "nat \<Rightarrow> efa_context \<Rightarrow> ibv_qp_cap \<Rightarrow> efa_wq \<Rightarrow> bool" where
  "sq_sized k ctx cap wq \<longleftrightarrow> k \<le> 15 \<and> wqe_cnt wq = 2 ^ k \<and> desc_mask wq = mask k \<and>
     unat (max_send_wr cap) \<le> 2 ^ k \<and> unat (min_sq_wr ctx) \<le> 2 ^ k \<and>
     (0 < k \<or> min_sq_wr ctx = 0) \<and>
     wq_max_sge wq = max_send_sge cap"

definition rq_sized :: "nat \<Rightarrow> ibv_qp_cap \<Rightarrow> efa_wq \<Rightarrow> bool" where
  "rq_sized j cap wq \<longleftrightarrow> j \<le> 15 \<and> desc_mask wq = mask j \<and>
     unat (max_recv_wr cap) \<le> unat (wqe_cnt wq) \<and>
     unat (wqe_cnt wq) * unat (max_recv_sge cap) \<le> 2 ^ j \<and>
     wq_max_sge wq = max_recv_sge cap"

text \<open>Nothing posted, nothing completed, every identifier free.\<close>

definition wq_idle :: "efa_wq \<Rightarrow> bool" where
  "wq_idle wq \<longleftrightarrow> wqe_posted wq = 0 \<and> wqe_completed wq = 0 \<and> wq_pc wq = 0 \<and> wrid_idx_pool_next wq = 0"

lemma setup_qp:
  assumes s: "unat (max_send_wr cap) \<le> 2 ^ 15" "unat (min_sq_wr ctx) \<le> 2 ^ 15"
    and r: "0 < unat (max_recv_sge cap)" "unat (max_recv_sge cap) * unat (max_recv_wr cap) \<le> 2 ^ 15"
      "unat (max_recv_sge cap) \<le> 2 ^ 15"
  shows "\<exists>q k j. efa_setup_qp ctx qp cap pg = Some q \<and> sq_sized k ctx cap (sq_wq (qp_sq q)) \<and>
     rq_sized j cap (rq_wq (qp_rq q)) \<and> wq_idle (sq_wq (qp_sq q)) \<and> wq_idle (rq_wq (qp_rq q)) \<and>
     q = qp\<lparr>qp_sq := (qp_sq qp)\<lparr>sq_wq := sq_wq (qp_sq q)\<rparr>,
            qp_rq := (qp_rq qp)\<lparr>rq_wq := rq_wq (qp_rq q)\<rparr>, qp_page_size := ucast pg\<rparr>"
proof -
  define n where "n = max (max_send_wr cap) (ucast (min_sq_wr ctx))"
  have n: "unat n = max (unat (max_send_wr cap)) (unat (min_sq_wr ctx))"
    by (simp add: n_def max_def word_le_nat_alt unat_ucast_widen)
  then have "unat (ucast n :: u64) \<le> 2 ^ 15" using s by (simp add: unat_ucast_widen)
  then obtain k c where k: "roundup_pow_of_two (ucast n) = Some c" "unat c = 2 ^ k" "k \<le> 15"
    "unat n \<le> 2 ^ k" "0 < k \<or> (ucast n :: u64) = 0"
    using roundup_pow_of_two_any [of "ucast n" 15] by (auto simp: unat_ucast_widen)
  have k0: "0 < k \<or> min_sq_wr ctx = 0"
  proof (cases "0 < k")
    case False
    then have "unat (ucast n :: u64) = 0" using k(5) by simp
    then have "unat n = 0" by (simp add: unat_ucast_widen)
    then show ?thesis using n by (simp add: unat_eq_zero)
  qed simp
  define m where "m = max_recv_sge cap * max_recv_wr cap"
  have m: "unat m = unat (max_recv_sge cap) * unat (max_recv_wr cap)"
    using r by (simp add: m_def unat_mult_lem [THEN iffD1])
  obtain j d where j: "roundup_pow_of_two (ucast m) = Some d" "unat d = 2 ^ j" "j \<le> 15" "unat m \<le> 2 ^ j"
    using roundup_pow_of_two_any [of "ucast m" 15] r m by (auto simp: unat_ucast_widen)
  have c: "(ucast c :: u32) = 2 ^ k" and d: "(ucast d :: u16) = 2 ^ j"
    using k j by (auto intro!: ucast_pow2)
  have ud: "uint (2 ^ j :: u16) = 2 ^ j"
    using j(3) unat_2_power [where 'a = 16, of j] by (simp add: uint_nat)
  have sg: "sint (max_recv_sge cap) = int (unat (max_recv_sge cap))"
    using sint_of_nat_small [of "unat (max_recv_sge cap)"] r(3) by simp
  define cnt where "cnt = 2 ^ j div unat (max_recv_sge cap)"
  have div: "c_div (uint (2 ^ j :: u16)) (sint (max_recv_sge cap)) = Some (int cnt)"
    using c_div_nat [OF r(1), of "2 ^ j"] unfolding ud sg cnt_def by simp
  have "cnt \<le> 2 ^ j" by (simp add: cnt_def)
  also have "(2 :: nat) ^ j \<le> 2 ^ 15" by (rule power_increasing) (use j in simp_all)
  finally have cnt: "unat (of_nat cnt :: u32) = cnt" by (simp add: unat_of_nat take_bit_nat_eq_self)
  have fits: "unat (max_recv_wr cap) \<le> cnt" "cnt * unat (max_recv_sge cap) \<le> 2 ^ j"
    using j(4) m r(1) unfolding cnt_def
    by (simp_all add: less_eq_div_iff_mult_less_eq mult.commute)
  have jm: "(2 ^ j :: u16) - 1 = mask j" by (simp add: mask_eq_exp_minus_1)
  obtain q where q: "efa_setup_qp ctx qp cap pg = Some q"
    "sq_wq (qp_sq q) = (sq_wq (qp_sq (efa_qp_init_indices qp)))
       \<lparr>wqe_cnt := 2 ^ k, wq_max_sge := max_send_sge cap, desc_mask := mask k\<rparr>"
    "rq_wq (qp_rq q) = (rq_wq (qp_rq (efa_qp_init_indices qp)))
       \<lparr>wq_max_sge := max_recv_sge cap, desc_mask := mask j, wqe_cnt := of_nat cnt\<rparr>"
    "q = qp\<lparr>qp_sq := (qp_sq qp)\<lparr>sq_wq := sq_wq (qp_sq q)\<rparr>,
            qp_rq := (qp_rq qp)\<lparr>rq_wq := rq_wq (qp_rq q)\<rparr>, qp_page_size := ucast pg\<rparr>"
    unfolding efa_setup_qp_def
    by (simp add: efa_qp_init_indices_def Let_def n_def [symmetric] m_def [symmetric] k(1) j(1) c d div jm mask_from_pow2 k(3))
  have "wq_idle (sq_wq (qp_sq q))" "wq_idle (rq_wq (qp_rq q))"
    by (simp_all add: q(2,3) wq_idle_def efa_qp_init_indices_def init_wq_indices_def)
  then show ?thesis
    using q k k0 j n fits r cnt
    by (intro exI [of _ q] exI [of _ k] exI [of _ j]) (simp add: sq_sized_def rq_sized_def)
qed

end
