(* ===== verification/Efa_Qp_Ready.thy ===== *)
theory Efa_Qp_Ready
  imports Efa_Qp_Create Efa_Qp_Sizes Efa_Capacity Efa_Session Efa_Rq
begin

text \<open>
  A created queue pair is ready for the data path: its queues satisfy what \<open>efa_post_send\<close>,
  the session interface and \<open>efa_post_recv\<close> rely on, and have the room that was asked for.
\<close>

section \<open>The queues after initialisation\<close>

lemma wq_initialize_ready:
  assumes "unat (wqe_cnt wq) < 2 ^ 16" and "wq_idle wq"
  shows "\<exists>wq'. efa_wq_initialize (Some g) (Some h) wq sub = Some (0, wq') \<and> wq_ready wq' \<and>
    wq_room wq' = unat (wqe_cnt wq) \<and> wq_tags wq' = Map.empty \<and>
    (\<exists>xs ys. wrid wq' = Live xs \<and> wrid_idx_pool wq' = Live ys) \<and>
    wq' = wq\<lparr>wrid := wrid wq', wrid_idx_pool := wrid_idx_pool wq', wqlock := 0,
             wq_sub_cq_idx := sub\<rparr>"
proof -
  have n: "wrid_idx_pool_next wq = 0" using assms(2) by (simp add: wq_idle_def)
  obtain wq' where r: "efa_wq_initialize (Some g) (Some h) wq sub = Some (0, wq')"
    and f: "wq' = wq\<lparr>wrid := wrid wq', wrid_idx_pool := wrid_idx_pool wq', wqlock := 0,
             wq_sub_cq_idx := sub\<rparr>"
      "\<exists>xs ys. wrid wq' = Live xs \<and> wrid_idx_pool wq' = Live ys"
    by (simp add: efa_wq_initialize_ok)
  have i: "wq_inv wq'" "wq_tags wq' = Map.empty" using wq_initialized [OF r assms(1) n] by simp_all
  have "wq_outstanding wq' = {}" using i(2) by (metis dom_empty dom_wq_tags)
  moreover have "wqe_cnt wq' = wqe_cnt wq" by (subst f(1)) simp
  ultimately have "wq_room wq' = unat (wqe_cnt wq)" by (simp add: wq_room_def)
  moreover have "wq_counts wq'"
    using assms(2) by (subst f(1)) (simp add: wq_counts_def wq_idle_def)
  ultimately show ?thesis using r f i by (auto simp: wq_ready_def)
qed

lemma wq_initialize_nomem:
  assumes "m1 = None \<or> m2 = None"
  shows "\<exists>wq'. efa_wq_initialize m1 m2 wq sub = Some (ENOMEM, wq')"
  using assms by (cases m1; cases m2) (simp_all add: efa_wq_initialize_cases)

lemma batch_limit_pos:
  assumes "sq_sized k ctx cap wq"
  shows "0 < sq_batch_limit ctx (wqe_cnt wq)"
proof -
  define b :: u16 where "b = (if max_tx_batch ctx \<noteq> 0
    then of_nat (unat (max_tx_batch ctx) * 64 div sizeof_tx_wqe) else 0xffff)"
  have b: "0 < b" by (auto simp: b_def word_neq_0_conv)
  show ?thesis
  proof (cases "min_sq_wr ctx = 0")
    case True
    then show ?thesis using b by (simp add: sq_batch_limit_def b_def [symmetric])
  next
    case False
    then have k: "0 < k" "k \<le> 15" "wqe_cnt wq = 2 ^ k" using assms by (auto simp: sq_sized_def)
    have "unat (2 ^ k :: u32) = 2 ^ k" using k(2) by (simp add: unat_2_power)
    then have u: "unat (2 ^ k - 1 :: u32) = 2 ^ k - 1"
      by (metis power_not_zero unat_0 unat_minus_one zero_neq_numeral)
    have "2 ^ k - 1 > (0 :: nat)" using one_less_power [OF _ k(1), of "2 :: nat"] by simp
    then have pos: "0 < min (ucast b) (2 ^ k - 1 :: u32)"
      using b u by (simp add: word_less_nat_alt unat_ucast_widen min_def)
    have small: "unat (min (ucast b) (2 ^ k - 1 :: u32)) < 2 ^ 16"
    proof -
      have "min (ucast b) (2 ^ k - 1 :: u32) \<le> ucast b" by simp
      then have "unat (min (ucast b) (2 ^ k - 1 :: u32)) \<le> unat b"
        by (simp add: word_le_nat_alt unat_ucast_widen)
      moreover have "unat b < 2 ^ LENGTH(16)" by (rule unsigned_less)
      ultimately show ?thesis by simp
    qed
    then have "0 < (ucast (min (ucast b) (2 ^ k - 1 :: u32)) :: u16)"
      using pos by (simp add: word_less_nat_alt unat_ucast_mod)
    then show ?thesis using False k(3) by (simp add: sq_batch_limit_def b_def [symmetric])
  qed
qed

text \<open>The two queues of a queue pair whose sizes are set.\<close>

definition sq_fresh :: "nat \<Rightarrow> ibv_qp_cap \<Rightarrow> efa_sq \<Rightarrow> bool" where
  "sq_fresh k cap sq \<longleftrightarrow>
     sq_ok sq \<and> sq_geom k sq \<and> sq_room sq = 2 ^ k \<and> unat (max_send_wr cap) \<le> 2 ^ k \<and>
     wq_tags (sq_wq sq) = Map.empty \<and> wq_max_sge (sq_wq sq) = max_send_sge cap \<and>
     max_inline_data sq = ucast (cap_max_inline_data cap) \<and>
     (\<exists>ws. local_queue sq = Live ws \<and> length ws = 2 ^ k) \<and>
     max_wr_rdma_sge sq \<le> EFA_IO_TX_DESC_NUM_RDMA_BUFS"

definition rq_fresh :: "nat \<Rightarrow> ibv_qp_cap \<Rightarrow> efa_wq \<Rightarrow> bool" where
  "rq_fresh j cap wq \<longleftrightarrow>
     wq_ready wq \<and> rq_sized j cap wq \<and> wq_room wq = unat (wqe_cnt wq) \<and> wq_tags wq = Map.empty"

definition rq_allocs_ok :: "qp_allocs \<Rightarrow> bool" where
  "rq_allocs_ok al \<longleftrightarrow> al_rq_wrid al \<noteq> None \<and> al_rq_pool al \<noteq> None"

definition sq_allocs_ok :: "qp_allocs \<Rightarrow> bool" where
  "sq_allocs_ok al \<longleftrightarrow> al_sq_wrid al \<noteq> None \<and> al_sq_pool al \<noteq> None \<and> al_local_queue al \<noteq> None"

lemma two_pow_15: "k \<le> 15 \<Longrightarrow> (2 :: nat) ^ k < 2 ^ 16"
  by (rule power_strict_increasing) simp_all

lemma rq_initialize_ready:
  assumes sz: "rq_sized j cap (rq_wq (qp_rq q))" "wq_idle (rq_wq (qp_rq q))"
    and pos: "0 < unat (max_recv_wr cap)" "0 < unat (max_recv_sge cap)"
    and c: "qp_context_ptr (verbs_qp q) = Some c" "ctxs c = Some ctx"
  shows "\<exists>e q'. efa_rq_initialize al ctxs q resp = Some (e, q') \<and>
    (if rq_allocs_ok al
     then e = 0 \<and> q' = q\<lparr>qp_rq := qp_rq q'\<rparr> \<and> rq_fresh j cap (rq_wq (qp_rq q')) \<and>
       wq_sub_cq_idx (rq_wq (qp_rq q')) = qpr_recv_sub_cq_idx resp \<and>
       (\<exists>q''. efa_rq_terminate q' = Some q'')
     else e = ENOMEM)"
proof -
  let ?wq = "rq_wq (qp_rq q)"
  have cnt: "0 < unat (wqe_cnt ?wq)" using sz(1) pos(1) by (auto simp: rq_sized_def)
  then have ne: "wqe_cnt ?wq \<noteq> 0" by auto
  have "unat (wqe_cnt ?wq) * 1 \<le> unat (wqe_cnt ?wq) * unat (max_recv_sge cap)"
    using pos(2) by (intro mult_le_mono2) simp
  also have "\<dots> \<le> 2 ^ j" using sz(1) by (simp add: rq_sized_def)
  finally have lt: "unat (wqe_cnt ?wq) < 2 ^ 16"
    using two_pow_15 [of j] sz(1) by (simp add: rq_sized_def)
  show ?thesis
  proof (cases "rq_allocs_ok al")
    case False
    then have "al_rq_wrid al = None \<or> al_rq_pool al = None" by (auto simp: rq_allocs_ok_def)
    from wq_initialize_nomem [OF this, of ?wq "qpr_recv_sub_cq_idx resp"]
    obtain wq' where "efa_wq_initialize (al_rq_wrid al) (al_rq_pool al) ?wq (qpr_recv_sub_cq_idx resp) =
        Some (ENOMEM, wq')" ..
    then show ?thesis using False ne c by (simp add: efa_rq_initialize_def Let_def)
  next
    case True
    then obtain g h where gh: "al_rq_wrid al = Some g" "al_rq_pool al = Some h"
      by (auto simp: rq_allocs_ok_def)
    obtain wq' where w: "efa_wq_initialize (Some g) (Some h) ?wq (qpr_recv_sub_cq_idx resp) = Some (0, wq')"
      "wq_ready wq'" "wq_room wq' = unat (wqe_cnt ?wq)" "wq_tags wq' = Map.empty"
      "\<exists>xs ys. wrid wq' = Live xs \<and> wrid_idx_pool wq' = Live ys"
      "wq' = ?wq\<lparr>wrid := wrid wq', wrid_idx_pool := wrid_idx_pool wq', wqlock := 0,
             wq_sub_cq_idx := qpr_recv_sub_cq_idx resp\<rparr>"
      using wq_initialize_ready [OF lt sz(2)] by blast
    have f: "wqe_cnt wq' = wqe_cnt ?wq" "desc_mask wq' = desc_mask ?wq"
      "wq_max_sge wq' = wq_max_sge ?wq" "wq_sub_cq_idx wq' = qpr_recv_sub_cq_idx resp"
      by (subst w(6), simp)+
    have "rq_fresh j cap wq'" using w(2-4) sz(1) f by (simp add: rq_fresh_def rq_sized_def)
    moreover define q' where "q' = q\<lparr>qp_rq := (qp_rq q)\<lparr>rq_wq := wq', rq_buf_size := qpr_rq_mmap_size resp\<rparr>\<rparr>"
    moreover have "efa_rq_initialize al ctxs q resp = Some (0, q')"
      using gh ne c w(1) by (simp add: efa_rq_initialize_def Let_def q'_def)
    moreover have "\<exists>q''. efa_rq_terminate q' = Some q''"
      using w(5) by (auto simp: efa_rq_terminate_def efa_wq_terminate_def q'_def)
    ultimately show ?thesis using True f(4) by (intro exI [of _ 0] exI [of _ q']) simp
  qed
qed

lemma sq_initialize_ready:
  assumes sz: "sq_sized k ctx cap (sq_wq (qp_sq q))" "wq_idle (sq_wq (qp_sq q))"
    and cap: "cap_max_inline_data (ia_cap (iax_base attr)) = cap_max_inline_data cap"
    and c: "qp_context_ptr (verbs_qp q) = Some c" "ctxs c = Some ctx"
  shows "\<exists>e q'. efa_sq_initialize al ctxs q attr resp = Some (e, q') \<and> qp_rq q' = qp_rq q \<and>
    verbs_qp q' = verbs_qp q \<and>
    (if sq_allocs_ok al
     then e = 0 \<and> q' = q\<lparr>qp_sq := qp_sq q'\<rparr> \<and> sq_fresh k cap (qp_sq q') \<and>
       wq_sub_cq_idx (sq_wq (qp_sq q')) = qpr_send_sub_cq_idx resp
     else e = ENOMEM)"
proof -
  let ?wq = "sq_wq (qp_sq q)"
  have k: "k \<le> 15" "wqe_cnt ?wq = 2 ^ k" using sz(1) by (auto simp: sq_sized_def)
  have cnt: "unat (wqe_cnt ?wq) = 2 ^ k" using k by (simp add: unat_2_power)
  then have ne: "wqe_cnt ?wq \<noteq> 0" by (metis power_not_zero unat_0 zero_neq_numeral)
  have lt: "unat (wqe_cnt ?wq) < 2 ^ 16" using two_pow_15 [OF k(1)] cnt by simp
  show ?thesis
  proof (cases "al_sq_wrid al = None \<or> al_sq_pool al = None")
    case True
    from wq_initialize_nomem [OF this, of ?wq "qpr_send_sub_cq_idx resp"]
    obtain wq' where "efa_wq_initialize (al_sq_wrid al) (al_sq_pool al) ?wq (qpr_send_sub_cq_idx resp) =
        Some (ENOMEM, wq')" ..
    moreover have "\<not> sq_allocs_ok al" using True by (auto simp: sq_allocs_ok_def)
    ultimately show ?thesis using ne c by (simp add: efa_sq_initialize_def Let_def)
  next
    case False
    then obtain g h where gh: "al_sq_wrid al = Some g" "al_sq_pool al = Some h" by auto
    obtain wq' where w: "efa_wq_initialize (Some g) (Some h) ?wq (qpr_send_sub_cq_idx resp) = Some (0, wq')"
      "wq_ready wq'" "wq_room wq' = unat (wqe_cnt ?wq)" "wq_tags wq' = Map.empty"
      "\<exists>xs ys. wrid wq' = Live xs \<and> wrid_idx_pool wq' = Live ys"
      "wq' = ?wq\<lparr>wrid := wrid wq', wrid_idx_pool := wrid_idx_pool wq', wqlock := 0,
             wq_sub_cq_idx := qpr_send_sub_cq_idx resp\<rparr>"
      using wq_initialize_ready [OF lt sz(2)] by blast
    have f: "wqe_cnt wq' = wqe_cnt ?wq" "desc_mask wq' = desc_mask ?wq"
      "wq_max_sge wq' = wq_max_sge ?wq" "wq_sub_cq_idx wq' = qpr_send_sub_cq_idx resp"
      by (subst w(6), simp)+
    show ?thesis
    proof (cases "al_local_queue al")
      case None
      then have "\<not> sq_allocs_ok al" by (simp add: sq_allocs_ok_def)
      then show ?thesis using None gh ne c w(1,5)
        by (elim exE conjE) (simp add: efa_sq_initialize_def Let_def malloc_arr_def efa_wq_terminate_def)
    next
      case (Some m)
      then have "sq_allocs_ok al" using gh by (simp add: sq_allocs_ok_def)
      moreover have "0 < sq_batch_limit ctx (wqe_cnt ?wq)" by (rule batch_limit_pos [OF sz(1)])
      ultimately show ?thesis using Some gh ne c w(1-4) f sz(1) cnt cap
        by (simp add: efa_sq_initialize_def Let_def malloc_arr_def sq_fresh_def sq_ok_def
            sq_geom_def sq_room_def sq_sized_def)
    qed
  qed
qed

section \<open>The published queue pair\<close>

lemma fill_wr_pfns_frame [simp]:
  "qp_handle (efa_qp_fill_wr_pfns v f) = qp_handle v" "qp_num (efa_qp_fill_wr_pfns v f) = qp_num v"
  "qp_context_ptr (efa_qp_fill_wr_pfns v f) = qp_context_ptr v"
  "qp_send_cq (efa_qp_fill_wr_pfns v f) = qp_send_cq v"
  "qp_recv_cq (efa_qp_fill_wr_pfns v f) = qp_recv_cq v"
  "qp_state (efa_qp_fill_wr_pfns v f) = qp_state v"
  by (simp_all add: efa_qp_fill_wr_pfns_def Let_def)

lemma set_session_fns_frame [simp]:
  "qp_sq (set_session_fns attr q) = qp_sq q" "qp_rq (set_session_fns attr q) = qp_rq q"
  "sq_sig_all (set_session_fns attr q) = sq_sig_all q"
  "qp_handle (verbs_qp (set_session_fns attr q)) = qp_handle (verbs_qp q)"
  "qp_num (verbs_qp (set_session_fns attr q)) = qp_num (verbs_qp q)"
  "qp_context_ptr (verbs_qp (set_session_fns attr q)) = qp_context_ptr (verbs_qp q)"
  "qp_send_cq (verbs_qp (set_session_fns attr q)) = qp_send_cq (verbs_qp q)"
  "qp_recv_cq (verbs_qp (set_session_fns attr q)) = qp_recv_cq (verbs_qp q)"
  "qp_state (verbs_qp (set_session_fns attr q)) = qp_state (verbs_qp q)"
  by (simp_all add: set_session_fns_def Let_def)

text \<open>What the world looks like when \<open>p\<close> has been created as \<open>q\<close> in the context at \<open>c\<close>: it
  completes into sub-queues that exist and count it, and its slot of the table points to it.\<close>

definition published :: "ptr \<Rightarrow> efa_context \<Rightarrow> ptr option list \<Rightarrow> ptr \<Rightarrow> efa_qp \<Rightarrow> 'd world \<Rightarrow> 'd world \<Rightarrow> bool" where
  "published c ctx tbl p q w w' \<longleftrightarrow>
     has_sub (w_cqs w) (qp_send_cq (verbs_qp q)) (sq_sub q) \<and>
     has_sub (w_cqs w) (qp_recv_cq (verbs_qp q)) (rq_sub q) \<and>
     w' = w\<lparr>w_drv := w_drv w',
       w_ctxs := (w_ctxs w)(c \<mapsto>
         ctx\<lparr>qp_table := Live (tbl[qp_slot ctx (qp_num (verbs_qp q)) := Some p])\<rparr>),
       w_cqs := bump_at (\<lambda>n. n + 1) (qp_recv_cq (verbs_qp q)) (rq_sub q)
                  (bump_at (\<lambda>n. n + 1) (qp_send_cq (verbs_qp q)) (sq_sub q) (w_cqs w)),
       w_qps := (w_qps w)(p \<mapsto> q)\<rparr>"

lemma create_qp_publish_ok:
  assumes q: "w_qps w p = Some q" and ctx: "w_ctxs w c = Some ctx" "qp_table ctx = Live tbl"
      "qp_slot ctx (qp_num (verbs_qp q)) < length tbl"
    and cqs: "qp_send_cq (verbs_qp q) = ia_send_cq (iax_base attr)"
      "qp_recv_cq (verbs_qp q) = ia_recv_cq (iax_base attr)"
    and subs: "wq_sub_cq_idx (sq_wq (qp_sq q)) = qpr_send_sub_cq_idx resp"
      "wq_sub_cq_idx (rq_wq (qp_rq q)) = qpr_recv_sub_cq_idx resp"
      "has_sub (w_cqs w) (qp_send_cq (verbs_qp q)) (sq_sub q)"
      "has_sub (w_cqs w) (qp_recv_cq (verbs_qp q)) (rq_sub q)"
  shows "\<exists>w'. create_qp_publish c p attr resp w = Some (Some p, w') \<and> w_drv w' = w_drv w \<and>
    published c ctx tbl p (set_session_fns attr q) w w'"
proof -
  define w1 where "w1 = w\<lparr>w_ctxs := (w_ctxs w)(c \<mapsto>
    ctx\<lparr>qp_table := Live (tbl[qp_slot ctx (qp_num (verbs_qp q)) := Some p])\<rparr>)\<rparr>"
  define w2 where "w2 = w1\<lparr>w_cqs := bump_at (\<lambda>n. n + 1) (qp_send_cq (verbs_qp q)) (sq_sub q) (w_cqs w1)\<rparr>"
  define w3 where "w3 = w2\<lparr>w_cqs := bump_at (\<lambda>n. n + 1) (qp_recv_cq (verbs_qp q)) (rq_sub q) (w_cqs w2)\<rparr>"
  have 1: "publish_qp c p w = Some w1" using q ctx by (auto simp: publish_qp_eq w1_def)
  have 2: "count_on_cq (ia_send_cq (iax_base attr)) (qpr_send_sub_cq_idx resp) w1 = Some w2"
    using subs cqs by (simp add: count_on_cq_eq w2_def w1_def sq_sub_def)
  have 3: "count_on_cq (ia_recv_cq (iax_base attr)) (qpr_recv_sub_cq_idx resp) w2 = Some w3"
    using subs cqs by (simp add: count_on_cq_eq w3_def w2_def w1_def rq_sub_def)
  show ?thesis
    by (simp add: create_qp_publish_def 1 2 3)
      (use subs in \<open>simp add: w3_def w2_def w1_def q published_def sq_sub_def rq_sub_def\<close>)
qed

lemma create_qp_undo_defined:
  assumes "w_qps w p = Some q" "edev_at w (qp_context_ptr (verbs_qp q)) = Some edev"
  shows "\<exists>w'. create_qp_undo dr p err w = Some w'"
  using assms
  by (simp add: create_qp_undo_def ibv_cmd_destroy_qp_def create_qp_free_def split: prod.splits)

lemma create_qp_undo_rq_defined:
  assumes "w_qps w p = Some q" "edev_at w (qp_context_ptr (verbs_qp q)) = Some edev"
    and t: "efa_rq_terminate q = Some q'"
  shows "\<exists>w'. create_qp_undo_rq dr p err w = Some w'"
proof -
  have "edev_at (w\<lparr>w_qps := (w_qps w)(p \<mapsto> q')\<rparr>) (qp_context_ptr (verbs_qp q')) = Some edev"
    using assms(2) rq_terminate_verbs [OF t] by (simp add: edev_at_def)
  then show ?thesis
    using create_qp_undo_defined [of "w\<lparr>w_qps := (w_qps w)(p \<mapsto> q')\<rparr>" p q'] assms(1) t
    by (simp add: create_qp_undo_rq_def)
qed

lemma rq_terminate_cong:
  assumes "qp_rq q' = qp_rq q" "efa_rq_terminate q = Some x"
  shows "\<exists>y. efa_rq_terminate q' = Some y"
  using assms by (auto simp: efa_rq_terminate_def Option.bind_eq_Some_conv split: if_splits)

lemma create_qp_queues_outcome:
  assumes q: "w_qps w p = Some q" "qp_context_ptr (verbs_qp q) = Some c"
    and ctx: "w_ctxs w c = Some ctx" "qp_table ctx = Live tbl"
      "qp_slot ctx (qp_num (verbs_qp q)) < length tbl" "edev_at w (Some c) = Some edev"
    and sz: "sq_sized k ctx cap (sq_wq (qp_sq q))" "wq_idle (sq_wq (qp_sq q))"
      "rq_sized j cap (rq_wq (qp_rq q))" "wq_idle (rq_wq (qp_rq q))"
      "0 < unat (max_recv_wr cap)" "0 < unat (max_recv_sge cap)"
      "cap_max_inline_data (ia_cap (iax_base attr)) = cap_max_inline_data cap"
    and cqs: "qp_send_cq (verbs_qp q) = ia_send_cq (iax_base attr)"
      "qp_recv_cq (verbs_qp q) = ia_recv_cq (iax_base attr)"
    and subs: "has_sub (w_cqs w) (qp_send_cq (verbs_qp q)) (unat (ucast (qpr_send_sub_cq_idx resp) :: u8))"
      "has_sub (w_cqs w) (qp_recv_cq (verbs_qp q)) (unat (ucast (qpr_recv_sub_cq_idx resp) :: u8))"
  shows "\<exists>r w'. create_qp_queues dr al c p attr resp w = Some (r, w') \<and>
    (if rq_allocs_ok al \<and> sq_allocs_ok al
     then r = Some p \<and> w_drv w' = w_drv w \<and>
       (\<exists>q'. published c ctx tbl p q' w w' \<and> sq_fresh k cap (qp_sq q') \<and>
          rq_fresh j cap (rq_wq (qp_rq q')) \<and> qp_state (verbs_qp q') = IBV_QPS_RESET \<and>
          sq_sig_all q' = ia_sq_sig_all (iax_base attr) \<and>
          qp_num (verbs_qp q') = qp_num (verbs_qp q) \<and> qp_handle (verbs_qp q') = qp_handle (verbs_qp q) \<and>
          qp_context_ptr (verbs_qp q') = Some c \<and> qp_send_cq (verbs_qp q') = ia_send_cq (iax_base attr) \<and>
          qp_recv_cq (verbs_qp q') = ia_recv_cq (iax_base attr))
     else r = None)"
proof -
  define q0 where "q0 = q\<lparr>verbs_qp := (verbs_qp q)\<lparr>qp_state := IBV_QPS_RESET\<rparr>,
    sq_sig_all := ia_sq_sig_all (iax_base attr)\<rparr>"
  have q0: "qp_context_ptr (verbs_qp q0) = Some c" "qp_sq q0 = qp_sq q" "qp_rq q0 = qp_rq q"
    using q by (simp_all add: q0_def)
  obtain e1 q1 where r1: "efa_rq_initialize al (w_ctxs w) q0 resp = Some (e1, q1)"
    "if rq_allocs_ok al
     then e1 = 0 \<and> q1 = q0\<lparr>qp_rq := qp_rq q1\<rparr> \<and> rq_fresh j cap (rq_wq (qp_rq q1)) \<and>
       wq_sub_cq_idx (rq_wq (qp_rq q1)) = qpr_recv_sub_cq_idx resp \<and>
       (\<exists>q''. efa_rq_terminate q1 = Some q'')
     else e1 = ENOMEM"
    using rq_initialize_ready [of j cap q0 c "w_ctxs w" ctx al resp] sz q0 ctx(1) by auto
  have v1: "verbs_qp q1 = verbs_qp q0" by (rule rq_initialize_verbs [OF r1(1)])
  show ?thesis
  proof (cases "rq_allocs_ok al")
    case False
    define w1 where "w1 = w\<lparr>w_qps := (w_qps w)(p \<mapsto> q1)\<rparr>"
    have "edev_at w1 (qp_context_ptr (verbs_qp q1)) = Some edev"
      using ctx(4) v1 q0(1) by (simp add: w1_def edev_at_def)
    then obtain w' where "create_qp_undo dr p ENOMEM w1 = Some w'"
      using create_qp_undo_defined [of w1 p q1 edev dr ENOMEM] by (auto simp: w1_def)
    then show ?thesis
      using False r1 q by (simp add: create_qp_queues_def q0_def [symmetric] w1_def [symmetric] Let_def)
  next
    case True
    then have f1: "e1 = 0" "q1 = q0\<lparr>qp_rq := qp_rq q1\<rparr>" "rq_fresh j cap (rq_wq (qp_rq q1))"
      "wq_sub_cq_idx (rq_wq (qp_rq q1)) = qpr_recv_sub_cq_idx resp"
      "\<exists>q''. efa_rq_terminate q1 = Some q''" using r1(2) by simp_all
    have s1: "qp_sq q1 = qp_sq q0" by (subst f1(2)) simp
    obtain e2 q2 where r2: "efa_sq_initialize al (w_ctxs w) q1 attr resp = Some (e2, q2)"
      "qp_rq q2 = qp_rq q1" "verbs_qp q2 = verbs_qp q1"
      "if sq_allocs_ok al
       then e2 = 0 \<and> q2 = q1\<lparr>qp_sq := qp_sq q2\<rparr> \<and> sq_fresh k cap (qp_sq q2) \<and>
         wq_sub_cq_idx (sq_wq (qp_sq q2)) = qpr_send_sub_cq_idx resp
       else e2 = ENOMEM"
      using sq_initialize_ready [of k ctx cap q1 attr c "w_ctxs w" al resp] sz q0 s1 v1 ctx(1) by auto
    define w1 where "w1 = w\<lparr>w_qps := (w_qps w)(p \<mapsto> q2)\<rparr>"
    have v2: "verbs_qp q2 = (verbs_qp q)\<lparr>qp_state := IBV_QPS_RESET\<rparr>"
      using r2(3) v1 by (simp add: q0_def)
    show ?thesis
    proof (cases "sq_allocs_ok al")
      case False
      have "edev_at w1 (qp_context_ptr (verbs_qp q2)) = Some edev"
        using ctx(4) v2 q(2) by (simp add: w1_def edev_at_def)
      moreover obtain q3 where "efa_rq_terminate q2 = Some q3"
        using rq_terminate_cong [OF r2(2)] f1(5) by blast
      ultimately obtain w' where "create_qp_undo_rq dr p ENOMEM w1 = Some w'"
        using create_qp_undo_rq_defined [of w1 p q2 edev q3 dr ENOMEM] by (auto simp: w1_def)
      then show ?thesis
        using False r1(1) f1(1) r2 q
        by (simp add: create_qp_queues_def q0_def [symmetric] w1_def [symmetric] Let_def)
    next
      case sq: True
      then have f2: "e2 = 0" "q2 = q1\<lparr>qp_sq := qp_sq q2\<rparr>" "sq_fresh k cap (qp_sq q2)"
        "wq_sub_cq_idx (sq_wq (qp_sq q2)) = qpr_send_sub_cq_idx resp" using r2(4) by simp_all
      have sub: "sq_sub q2 = unat (ucast (qpr_send_sub_cq_idx resp) :: u8)"
        "rq_sub q2 = unat (ucast (qpr_recv_sub_cq_idx resp) :: u8)"
        using f2(4) f1(4) r2(2) by (simp_all add: sq_sub_def rq_sub_def)
      have pub: "\<exists>w'. create_qp_publish c p attr resp w1 = Some (Some p, w') \<and> w_drv w' = w_drv w1 \<and>
          published c ctx tbl p (set_session_fns attr q2) w1 w'"
        by (rule create_qp_publish_ok)
          (use ctx cqs subs v2 f2(4) f1(4) r2(2) sub in \<open>simp_all add: w1_def\<close>)
      then obtain w' where w': "create_qp_publish c p attr resp w1 = Some (Some p, w')" "w_drv w' = w_drv w"
        "published c ctx tbl p (set_session_fns attr q2) w w'"
        by (auto simp: w1_def published_def)
      have run: "create_qp_queues dr al c p attr resp w = Some (Some p, w')"
        using r1(1) f1(1) r2(1) f2(1) q w'(1)
        by (simp add: create_qp_queues_def q0_def [symmetric] w1_def [symmetric] Let_def)
      have sig: "sq_sig_all q2 = ia_sq_sig_all (iax_base attr)"
        by (subst f2(2), simp, subst f1(2)) (simp add: q0_def)
      show ?thesis
        using run w' True sq f2 f1(3) r2(2) v2 q sig cqs
        by (intro exI [of _ "Some p"] exI [of _ w']) (auto intro!: exI [of _ "set_session_fns attr q2"])
    qed
  qed
qed

section \<open>The contract of creation\<close>

text \<open>
  The objects a creation works on, all live, and a request that passes the checks; sizes the
  16-bit index and descriptor masks can hold; and what the driver documents of the sub-queues
  it assigns: they exist.
\<close>

definition create_env ::
  "ptr \<Rightarrow> efa_context \<Rightarrow> ptr option list \<Rightarrow> efa_dev \<Rightarrow> ibv_qp_init_attr_ex \<Rightarrow> efadv_qp_init_attr option
     \<Rightarrow> 'd world \<Rightarrow> bool" where
  "create_env c ctx tbl edev attr efa_attr w \<longleftrightarrow>
     w_ctxs w c = Some ctx \<and> edev_at w (Some c) = Some edev \<and>
     qp_table ctx = Live tbl \<and> length tbl = unat (qp_table_sz_m1 ctx) + 1 \<and>
     (\<exists>pd. deref (w_pds w) (iax_pd attr) = Some pd \<and> pd_context pd = Some c) \<and>
     deref (w_cqs w) (ia_send_cq (iax_base attr)) \<noteq> None \<and>
     deref (w_cqs w) (ia_recv_cq (iax_base attr)) \<noteq> None \<and>
     efa_check_qp_attr ctx attr efa_attr = Some 0 \<and> efa_check_qp_limits ctx attr = 0"

definition cap_fits :: "efa_context \<Rightarrow> ibv_qp_cap \<Rightarrow> bool" where
  "cap_fits ctx cap \<longleftrightarrow>
     unat (max_send_wr cap) \<le> 2 ^ 15 \<and> unat (min_sq_wr ctx) \<le> 2 ^ 15 \<and>
     0 < unat (max_recv_sge cap) \<and> unat (max_recv_sge cap) \<le> 2 ^ 15 \<and> 0 < unat (max_recv_wr cap) \<and>
     unat (max_recv_sge cap) * unat (max_recv_wr cap) \<le> 2 ^ 15"

definition sub_cqs_exist :: "'d driver \<Rightarrow> (ptr \<rightharpoonup> efa_cq) \<Rightarrow> ptr option \<Rightarrow> ptr option \<Rightarrow> bool" where
  "sub_cqs_exist dr cqs s r \<longleftrightarrow>
     (\<forall>h params d rep d'. asked_qp dr h params d rep d' \<and> ioctl_status rep sizeof_EFA_QP_INFO = 0 \<longrightarrow>
        has_sub cqs s (unat (ucast (ucast (qi_SendSubCqIndex (outBuffer rep)) :: u16) :: u8)) \<and>
        has_sub cqs r (unat (ucast (ucast (qi_RecvSubCqIndex (outBuffer rep)) :: u16) :: u8)))"

lemma qp_slot_le [simp]: "qp_slot ctx n < Suc (unat (qp_table_sz_m1 ctx))"
proof -
  have "n AND qp_table_sz_m1 ctx \<le> qp_table_sz_m1 ctx" by (rule word_and_le1)
  then show ?thesis by (simp add: qp_slot_def word_le_nat_alt)
qed

lemma filled_qp_frame [simp]:
  "qp_send_cq (verbs_qp (filled_qp pd attr params info q)) = ia_send_cq (iax_base attr)"
  "qp_recv_cq (verbs_qp (filled_qp pd attr params info q)) = ia_recv_cq (iax_base attr)"
  by (simp_all add: filled_qp_def fill_efa_qp_def fill_ibv_qp_def Let_def)

lemma filled_qp_sized [simp]:
  "sq_sized k ctx cap (sq_wq (qp_sq (filled_qp pd attr params info q))) =
     sq_sized k ctx cap (sq_wq (qp_sq q))"
  "rq_sized j cap (rq_wq (qp_rq (filled_qp pd attr params info q))) = rq_sized j cap (rq_wq (qp_rq q))"
  "wq_idle (sq_wq (qp_sq (filled_qp pd attr params info q))) = wq_idle (sq_wq (qp_sq q))"
  "wq_idle (rq_wq (qp_rq (filled_qp pd attr params info q))) = wq_idle (rq_wq (qp_rq q))"
  by (simp_all add: filled_qp_def fill_efa_qp_def sq_sized_def rq_sized_def wq_idle_def Let_def)

lemma sized_attr_frame [simp]:
  "iax_pd (sized_attr attr q) = iax_pd attr"
  "ia_send_cq (iax_base (sized_attr attr q)) = ia_send_cq (iax_base attr)"
  "ia_recv_cq (iax_base (sized_attr attr q)) = ia_recv_cq (iax_base attr)"
  "ia_sq_sig_all (iax_base (sized_attr attr q)) = ia_sq_sig_all (iax_base attr)"
  "cap_max_inline_data (ia_cap (iax_base (sized_attr attr q))) =
     cap_max_inline_data (ia_cap (iax_base attr))"
  by (simp_all add: sized_attr_def)

lemma create_qp_outcome:
  assumes env: "create_env c ctx tbl edev attr efa_attr w"
    and fits: "cap_fits ctx (ia_cap (iax_base attr))"
    and p: "al_qp al = Some p" "w_qps w p = None"
    and subs: "sub_cqs_exist dr (w_cqs w) (ia_send_cq (iax_base attr)) (ia_recv_cq (iax_base attr))"
  shows "\<exists>r attr' w' params rep d1. create_qp dr al (Some c) attr efa_attr w = Some (r, attr', w') \<and>
    asked_qp dr (wd_Device (dev_device edev)) params (w_drv w) rep d1 \<and>
    (if ioctl_status rep sizeof_EFA_QP_INFO = 0 \<and> rq_allocs_ok al \<and> sq_allocs_ok al
     then r = Some p \<and> w_drv w' = d1 \<and>
       (\<exists>q k j. published c ctx tbl p q w w' \<and> sq_fresh k (ia_cap (iax_base attr)) (qp_sq q) \<and>
          rq_fresh j (ia_cap (iax_base attr)) (rq_wq (qp_rq q)) \<and>
          qp_state (verbs_qp q) = IBV_QPS_RESET \<and> sq_sig_all q = ia_sq_sig_all (iax_base attr) \<and>
          qp_num (verbs_qp q) = qi_QpNum (outBuffer rep) \<and>
          qp_handle (verbs_qp q) = qi_QpHandle (outBuffer rep) \<and>
          qp_context_ptr (verbs_qp q) = Some c \<and> qp_send_cq (verbs_qp q) = ia_send_cq (iax_base attr) \<and>
          qp_recv_cq (verbs_qp q) = ia_recv_cq (iax_base attr))
     else r = None)"
proof -
  let ?cap = "ia_cap (iax_base attr)"
  define h where "h = wd_Device (dev_device edev)"
  obtain pd where e: "w_ctxs w c = Some ctx" "edev_at w (Some c) = Some edev" "qp_table ctx = Live tbl"
    "length tbl = unat (qp_table_sz_m1 ctx) + 1" "deref (w_pds w) (iax_pd attr) = Some pd"
    "pd_context pd = Some c" "efa_check_qp_attr ctx attr efa_attr = Some 0"
    "efa_check_qp_limits ctx attr = 0"
    and cq: "deref (w_cqs w) (ia_send_cq (iax_base attr)) \<noteq> None"
      "deref (w_cqs w) (ia_recv_cq (iax_base attr)) \<noteq> None"
    using env unfolding create_env_def by blast
  obtain scq rcq where cqs: "deref (w_cqs w) (ia_send_cq (iax_base attr)) = Some scq"
    "deref (w_cqs w) (ia_recv_cq (iax_base attr)) = Some rcq" using cq by blast
  obtain q k j where q: "efa_setup_qp ctx zero_qp ?cap (ucast (dev_pg_sz edev)) = Some q"
    "sq_sized k ctx ?cap (sq_wq (qp_sq q))" "rq_sized j ?cap (rq_wq (qp_rq q))"
    "wq_idle (sq_wq (qp_sq q))" "wq_idle (rq_wq (qp_rq q))"
    using fits unfolding cap_fits_def
    by (elim conjE, insert setup_qp [of ?cap ctx zero_qp "ucast (dev_pg_sz edev)"], metis)
  define attr1 where "attr1 = sized_attr attr q"
  define params where "params = create_qp_params pd scq rcq attr1 q"
  obtain rep d1 where ask: "IOCTL_EFA_CREATE_QP dr h params sizeof_EFA_CREATE_QP_PARAMS zero_QP_INFO
      (w_drv w) = (rep, d1)" by (metis surj_pair)
  then have asked: "asked_qp dr h params (w_drv w) rep d1" by (simp add: asked_qp_def)
  define q1 where "q1 = filled_qp pd attr1 params (outBuffer rep) q"
  define w1 where "w1 = w\<lparr>w_drv := d1, w_qps := (w_qps w)(p \<mapsto> q1)\<rparr>"
  define resp where "resp = fill_qp_resp attr1 (outBuffer rep) (rq_buf_size (qp_rq q1)) zero_qp_resp"
  have ed: "edev_at (w\<lparr>w_qps := x\<rparr>) y = edev_at w y" for x y by (simp add: edev_at_def)
  have cmd: "ibv_cmd_create_qp_ex dr p attr1 zero_qp_resp (w\<lparr>w_qps := (w_qps w)(p \<mapsto> q)\<rparr>) =
      Some (if ioctl_status rep sizeof_EFA_QP_INFO = 0 then (0, resp, w1)
            else (ioctl_status rep sizeof_EFA_QP_INFO, zero_qp_resp,
                  w\<lparr>w_drv := d1, w_qps := (w_qps w)(p \<mapsto> q)\<rparr>))"
    using e cqs ask
    by (simp add: ibv_cmd_create_qp_ex_def ed attr1_def Let_def efa_win_create_qp_def h_def
        params_def q1_def w1_def resp_def filled_qp_def)
  have run: "create_qp dr al (Some c) attr efa_attr w = create_qp_at dr al c ctx p attr w"
    using e p by (simp add: create_qp_def)
  show ?thesis
  proof (cases "ioctl_status rep sizeof_EFA_QP_INFO = 0")
    case False
    then obtain w' where "create_qp_at dr al c ctx p attr w = Some (None, attr1, w')"
      using e q cmd
      by (simp add: create_qp_at_def attr1_def [symmetric] create_qp_free_def)
    then show ?thesis using False run asked
      by (intro exI [of _ None] exI [of _ attr1] exI [of _ w'] exI [of _ params] exI [of _ rep]
          exI [of _ d1]) (simp add: h_def)
  next
    case True
    have sub: "has_sub (w_cqs w) (ia_send_cq (iax_base attr))
        (unat (ucast (ucast (qi_SendSubCqIndex (outBuffer rep)) :: u16) :: u8))"
      "has_sub (w_cqs w) (ia_recv_cq (iax_base attr))
        (unat (ucast (ucast (qi_RecvSubCqIndex (outBuffer rep)) :: u16) :: u8))"
      using subs asked True unfolding sub_cqs_exist_def by blast+
    have at: "create_qp_at dr al c ctx p attr w =
        do { (r, w) \<leftarrow> create_qp_queues dr al c p attr1 resp w1; Some (r, attr1, w) }"
      using e q cmd True by (simp add: create_qp_at_def attr1_def [symmetric])
    have "\<exists>r w'. create_qp_queues dr al c p attr1 resp w1 = Some (r, w') \<and>
      (if rq_allocs_ok al \<and> sq_allocs_ok al
       then r = Some p \<and> w_drv w' = w_drv w1 \<and>
         (\<exists>q'. published c ctx tbl p q' w1 w' \<and> sq_fresh k ?cap (qp_sq q') \<and>
            rq_fresh j ?cap (rq_wq (qp_rq q')) \<and> qp_state (verbs_qp q') = IBV_QPS_RESET \<and>
            sq_sig_all q' = ia_sq_sig_all (iax_base attr1) \<and>
            qp_num (verbs_qp q') = qp_num (verbs_qp q1) \<and> qp_handle (verbs_qp q') = qp_handle (verbs_qp q1) \<and>
            qp_context_ptr (verbs_qp q') = Some c \<and> qp_send_cq (verbs_qp q') = ia_send_cq (iax_base attr1) \<and>
            qp_recv_cq (verbs_qp q') = ia_recv_cq (iax_base attr1))
       else r = None)"
      by (rule create_qp_queues_outcome)
        (use e q fits sub in \<open>simp_all add: w1_def q1_def attr1_def resp_def fill_qp_resp_def
           cap_fits_def edev_at_def Let_def\<close>)
    then show ?thesis using True run at asked
      apply (elim exE conjE)
      subgoal for r w'
        apply (rule exI [of _ r], rule exI [of _ attr1], rule exI [of _ w'], rule exI [of _ params],
            rule exI [of _ rep], rule exI [of _ d1])
        apply (auto simp: h_def w1_def q1_def attr1_def published_def split: if_splits)
        done
      done
  qed
qed

end
