(* ===== verification/Efa_Qp_Contract.thy ===== *)
theory Efa_Qp_Contract
  imports Efa_Qp_Ready Efa_Qp_Life Efa_Driver
begin

text \<open>
  The contract of the queue pair's control path: creation is all or nothing, a created queue
  pair takes the work it was sized for, and destruction undoes creation.
\<close>

section \<open>What a successful creation leaves\<close>

lemma create_qp_success:
  assumes run: "create_qp dr al (Some c) attr efa_attr w = Some (Some p', attr', w')"
    and env: "create_env c ctx tbl edev attr efa_attr w"
    and fits: "cap_fits ctx (ia_cap (iax_base attr))"
    and p: "al_qp al = Some p" "w_qps w p = None"
    and subs: "sub_cqs_exist dr (w_cqs w) (ia_send_cq (iax_base attr)) (ia_recv_cq (iax_base attr))"
  obtains q k j where "p' = p" "published c ctx tbl p q w w'"
    "sq_fresh k (ia_cap (iax_base attr)) (qp_sq q)"
    "rq_fresh j (ia_cap (iax_base attr)) (rq_wq (qp_rq q))"
    "qp_state (verbs_qp q) = IBV_QPS_RESET" "qp_context_ptr (verbs_qp q) = Some c"
    "rq_allocs_ok al" "sq_allocs_ok al"
    "qp_send_cq (verbs_qp q) = ia_send_cq (iax_base attr)" "qp_recv_cq (verbs_qp q) = ia_recv_cq (iax_base attr)"
  using create_qp_outcome [OF env fits p subs] run
  by (elim exE conjE) (auto split: if_splits)

lemma word_eq_2_power_ne: "k < 16 \<Longrightarrow> (2 ^ k :: u32) \<noteq> 0"
proof
  assume "k < 16" and "(2 ^ k :: u32) = 0"
  then have "(2 :: nat) ^ k = 0" using unat_2_power [where 'a = 32, of k] by simp
  then show False by simp
qed

lemma published_qp: "published c ctx tbl p q w w' \<Longrightarrow> w_qps w' p = Some q"
  unfolding published_def by (metis (no_types, lifting) fun_upd_same world.select_convs(8)
      world.surjective world.update_convs(8))

lemma published_env:
  assumes "published c ctx tbl p q w w'"
  shows "w_devs w' = w_devs w"
    and "w_ctxs w' = (w_ctxs w)(c \<mapsto> ctx\<lparr>qp_table := Live (tbl[qp_slot ctx (qp_num (verbs_qp q)) := Some p])\<rparr>)"
proof -
  note w' = assms [unfolded published_def, THEN conjunct2, THEN conjunct2]
  show "w_devs w' = w_devs w" by (rule arg_cong [OF w', of w_devs, THEN trans]) simp
  show "w_ctxs w' = (w_ctxs w)(c \<mapsto> ctx\<lparr>qp_table := Live (tbl[qp_slot ctx (qp_num (verbs_qp q)) := Some p])\<rparr>)"
    by (rule arg_cong [OF w', of w_ctxs, THEN trans]) simp
qed

lemma wq_live:
  assumes "wq_ready wq"
  obtains wq' where "efa_wq_terminate wq = Some wq'"
  using assms by (auto simp: wq_ready_def wq_inv_def efa_wq_terminate_def)

lemma terminate_fresh:
  assumes "sq_fresh k cap (qp_sq q)" "rq_fresh j cap (rq_wq (qp_rq q))"
  obtains q1 q2 where "efa_sq_terminate q = Some q1" "efa_rq_terminate q1 = Some q2"
    "verbs_qp q2 = verbs_qp q"
proof -
  obtain wq1 where 1: "efa_wq_terminate (sq_wq (qp_sq q)) = Some wq1"
    using assms(1) wq_live [of "sq_wq (qp_sq q)"] by (auto simp: sq_fresh_def sq_ok_def)
  obtain wq2 where 2: "efa_wq_terminate (rq_wq (qp_rq q)) = Some wq2"
    using assms(2) wq_live [of "rq_wq (qp_rq q)"] by (auto simp: rq_fresh_def)
  obtain ws where ws: "local_queue (qp_sq q) = Live ws" using assms(1) by (auto simp: sq_fresh_def)
  obtain q1 where q1: "efa_sq_terminate q = Some q1" "qp_rq q1 = qp_rq q" "verbs_qp q1 = verbs_qp q"
    using 1 ws by (cases "wqe_cnt (sq_wq (qp_sq q)) = 0") (auto simp: efa_sq_terminate_def)
  obtain q2 where q2: "efa_rq_terminate q1 = Some q2" "verbs_qp q2 = verbs_qp q1"
    using 2 q1(2) by (cases "wqe_cnt (rq_wq (qp_rq q)) = 0") (auto simp: efa_rq_terminate_def)
  show ?thesis by (rule that [OF q1(1) q2(1)]) (simp add: q1 q2)
qed

text \<open>A reference count that goes up and down again is where it was.\<close>

lemma list_upd_upd_same: "i < length xs \<Longrightarrow> xs[i := f (xs ! i)] = xs \<longleftrightarrow> f (xs ! i) = xs ! i"
  by (metis list_update_id nth_list_update_eq)

lemma bump_upd:
  assumes "has_sub h a i"
  shows "bump_at g a i (bump_at f a i h) = bump_at (g \<circ> f) a i h"
  using assms by (auto simp: bump_at_def has_sub_def)

lemma bump_id: "has_sub h a i \<Longrightarrow> bump_at (\<lambda>n. n) a i h = h"
  by (auto simp: bump_at_def has_sub_def fun_upd_idem)

lemma bump_comm:
  assumes "has_sub h a i" "has_sub h b j" "\<And>n. f (g n) = g (f n)"
  shows "bump_at f a i (bump_at g b j h) = bump_at g b j (bump_at f a i h)"
proof -
  obtain p ca where a: "a = Some p" "h p = Some ca" "i < length (sub_cq_arr ca)"
    using assms(1) by (auto simp: has_sub_def)
  obtain r cb where b: "b = Some r" "h r = Some cb" "j < length (sub_cq_arr cb)"
    using assms(2) by (auto simp: has_sub_def)
  show ?thesis
  proof (cases "p = r")
    case False
    then show ?thesis using a b by (simp add: bump_at_def fun_upd_twist)
  next
    case True
    then show ?thesis using a b assms(3)
      by (cases "i = j") (simp_all add: bump_at_def list_update_swap)
  qed
qed

lemma bump_undo:
  assumes "has_sub h a i" "has_sub h b j"
  shows "bump_at (\<lambda>n. n - 1) b j (bump_at (\<lambda>n. n - 1) a i
    (bump_at (\<lambda>n. n + 1) b j (bump_at (\<lambda>n. n + 1) a i h))) = h"
proof -
  have c: "bump_at (\<lambda>n. n - 1) a i (bump_at (\<lambda>n. n + 1) b j (bump_at (\<lambda>n. n + 1) a i h)) =
      bump_at (\<lambda>n. n + 1) b j (bump_at (\<lambda>n. n - 1) a i (bump_at (\<lambda>n. n + 1) a i h))"
    by (rule bump_comm) (use assms in simp_all)
  show ?thesis
    by (simp only: c) (simp add: assms bump_upd comp_def bump_id)
qed

section \<open>An instance\<close>

definition ref_attr :: ibv_qp_init_attr_ex where
  "ref_attr = \<lparr>iax_base = \<lparr>ia_qp_context = 0, ia_send_cq = Some 3, ia_recv_cq = Some 3, ia_srq = None,
       ia_cap = \<lparr>max_send_wr = 3, max_recv_wr = 3, max_send_sge = 2, max_recv_sge = 2,
         cap_max_inline_data = 32\<rparr>, ia_qp_type = IBV_QPT_UD, ia_sq_sig_all = 1\<rparr>,
     iax_comp_mask = IBV_QP_INIT_ATTR_PD, iax_pd = Some 2, iax_send_ops_flags = 0\<rparr>"

text \<open>Allocation of the queue pair at address 4; the last argument says whether the last one fails.\<close>

definition ref_allocs :: "bool \<Rightarrow> qp_allocs" where
  "ref_allocs fail = \<lparr>al_qp = Some 4, al_rq_wrid = Some (\<lambda>_. 0), al_rq_pool = Some (\<lambda>_. 0),
     al_sq_wrid = Some (\<lambda>_. 0), al_sq_pool = Some (\<lambda>_. 0),
     al_local_queue = (if fail then None else Some (\<lambda>_. zero_tx_wqe))\<rparr>"

lemma ref_checks:
  "efa_check_qp_attr ref_ctx ref_attr None = Some 0" "efa_check_qp_limits ref_ctx ref_attr = 0"
  by code_simp+

lemma ref_env: "create_env 0 ref_ctx (replicate 4 None) ref_dev ref_attr None (ref_world r)"
  unfolding create_env_def ref_checks
  by (simp add: ref_world_def edev_at_def ref_ctx_def ref_attr_def)

lemma ref_fits: "cap_fits ref_ctx (ia_cap (iax_base ref_attr))"
  by (simp add: cap_fits_def ref_ctx_def ref_attr_def)

lemma ref_al: "al_qp (ref_allocs f) = Some 4" "w_qps (ref_world r) 4 = None"
  by (simp_all add: ref_allocs_def ref_world_def)

lemma ref_subs:
  "sub_cqs_exist ref_driver (w_cqs (ref_world r)) (ia_send_cq (iax_base ref_attr))
     (ia_recv_cq (iax_base ref_attr))"
  by (auto simp: sub_cqs_exist_def asked_qp_def ref_driver_def unless_refused_def has_sub_def
      ref_world_def ref_attr_def ref_cq_def zero_QP_INFO_def split: if_splits)

lemma ref_granted:
  assumes "asked_qp ref_driver h params (ref_state0 r) rep d"
  shows "ioctl_status rep sizeof_EFA_QP_INFO = 0 \<longleftrightarrow> \<not> r"
  using assms by (auto simp: asked_qp_def ref_driver_def unless_refused_def ref_state0_def
      ioctl_sizes split: if_splits)

lemma ref_created:
  "\<exists>attr' w'. create_qp ref_driver (ref_allocs f) (Some 0) ref_attr None (ref_world r) =
     Some (if f \<or> r then None else Some 4, attr', w')"
proof -
  have a: "rq_allocs_ok (ref_allocs f)" "sq_allocs_ok (ref_allocs f) \<longleftrightarrow> \<not> f"
    by (simp_all add: rq_allocs_ok_def sq_allocs_ok_def ref_allocs_def)
  have "w_drv (ref_world r) = ref_state0 r" by (simp add: ref_world_def)
  then show ?thesis
    using create_qp_outcome [OF ref_env ref_fits ref_al ref_subs, of f r] a
    by (elim exE conjE) (auto dest!: ref_granted split: if_splits)
qed

lemma ref_asked_refuse:
  "asked_qp ref_driver h params d rep d' \<Longrightarrow> rs_refuse d' = rs_refuse d"
  by (auto simp: asked_qp_def ref_driver_def unless_refused_def split: if_splits)

text \<open>A request to move to a state.\<close>

definition state_attr :: "ibv_qp_state \<Rightarrow> ibv_qp_attr" where
  "state_attr s =
     (let cap = \<lparr>max_send_wr = 0, max_recv_wr = 0, max_send_sge = 0, max_recv_sge = 0,
            cap_max_inline_data = 0\<rparr>;
          ah = \<lparr>aa_grh = \<lparr>gr_dgid = replicate 16 0, gr_flow_label = 0, gr_sgid_index = 0,
            gr_hop_limit = 0, gr_traffic_class = 0\<rparr>, aa_dlid = 0, aa_sl = 0,
            aa_src_path_bits = 0, aa_static_rate = 0, aa_is_global = 0, aa_port_num = 0\<rparr>
      in \<lparr>at_qp_state = s, at_cur_qp_state = s, at_path_mtu = 0, at_path_mig_state = 0, at_qkey = 0,
          at_rq_psn = 0, at_sq_psn = 0, at_dest_qp_num = 0, at_qp_access_flags = 0, at_cap = cap,
          at_ah_attr = ah, at_alt_ah_attr = ah, at_pkey_index = 0, at_alt_pkey_index = 0,
          at_en_sqd_async_notify = 0, at_sq_draining = 0, at_max_rd_atomic = 0,
          at_max_dest_rd_atomic = 0, at_min_rnr_timer = 0, at_port_num = 0, at_timeout = 0,
          at_retry_cnt = 0, at_rnr_retry = 0, at_alt_port_num = 0, at_alt_timeout = 0,
          at_rate_limit = 0\<rparr>)"

lemma state_attr_state [simp]: "at_qp_state (state_attr s) = s"
  by (simp add: state_attr_def Let_def)

lemma ref_modified:
  assumes "create_qp ref_driver (ref_allocs False) (Some 0) ref_attr None (ref_world False) =
    Some (Some p, attr', w1)"
  shows "\<exists>w2. efa_modify_qp ref_driver p qattr msk w1 = Some (0, w2)"
proof -
  obtain rep params q where 1: "asked_qp ref_driver (wd_Device (dev_device ref_dev)) params
      (w_drv (ref_world False)) rep (w_drv w1)"
    "p = 4" "published 0 ref_ctx (replicate 4 None) 4 q (ref_world False) w1"
    "qp_context_ptr (verbs_qp q) = Some 0"
    using create_qp_outcome [OF ref_env ref_fits ref_al ref_subs, of False False] assms
    by (elim exE conjE) (auto split: if_splits)
  have d: "\<not> rs_refuse (w_drv w1)"
    using ref_asked_refuse [OF 1(1)] by (simp add: ref_world_def ref_state0_def)
  have "edev_at w1 (Some 0) = Some ref_dev"
    using published_env [OF 1(3)] by (simp add: edev_at_def ref_world_def ref_ctx_def)
  then show ?thesis using published_qp [OF 1(3)] 1(2,4) d
    by (simp add: efa_modify_qp_def ibv_cmd_modify_qp_def efa_win_modify_qp_def)
      (simp add: ref_driver_def unless_refused_def Let_def)
qed

section \<open>The properties\<close>

text \<open>C23: \<open>create_qp\<close> is all or nothing. When it returns null, whichever check, allocation or
  request failed, no object, table slot or reference count has changed; \<open>errno\<close> is set; and the
  driver was asked nothing, refused the request, or was asked to destroy what it had created.\<close>

theorem create_qp_all_or_nothing:
  assumes run: "create_qp dr al ibvctx attr efa_attr w = Some (None, attr', w')"
    and fresh: "\<And>p. al_qp al = Some p \<Longrightarrow> w_qps w p = None"
    and pd: "deref (w_pds w) (iax_pd attr) = Some pd" "edev_at w (pd_context pd) = Some edev"
  shows "w' = w\<lparr>w_drv := w_drv w', w_errno := w_errno w'\<rparr> \<and> w_errno w' \<noteq> 0 \<and>
         qp_undone dr (wd_Device (dev_device edev)) (w_drv w) (w_drv w')"
  using create_qp_failure [OF run fresh pd] by blast

theorem create_qp_all_or_nothing_witness:
  "\<exists>attr' w'. create_qp ref_driver (ref_allocs True) (Some 0) ref_attr None (ref_world False) =
     Some (None, attr', w') \<and> w_qps w' = w_qps (ref_world False) \<and> w_errno w' \<noteq> 0"
proof -
  obtain attr' w' where run: "create_qp ref_driver (ref_allocs True) (Some 0) ref_attr None
      (ref_world False) = Some (None, attr', w')" using ref_created [of True False] by auto
  have "w' = (ref_world False)\<lparr>w_drv := w_drv w', w_errno := w_errno w'\<rparr> \<and> w_errno w' \<noteq> 0 \<and>
      qp_undone ref_driver (wd_Device (dev_device ref_dev)) (w_drv (ref_world False)) (w_drv w')"
    by (rule create_qp_all_or_nothing [OF run, where pd = "\<lparr>pd_context = Some 0, pd_handle = 5, pdn = 5\<rparr>"])
      (simp_all add: ref_allocs_def ref_world_def ref_attr_def edev_at_def ref_ctx_def)
  then have "w_errno w' \<noteq> 0" "w_qps w' = w_qps (ref_world False)"
    by (blast, metis (no_types, lifting) world.select_convs(8) world.surjective world.update_convs(1,9))
  then show ?thesis using run by blast
qed

text \<open>
  C24: the contract of \<open>create_qp\<close> for a request that passes its checks, whose sizes the 16-bit
  counts of the library can hold (\<open>cap_fits\<close>: at most \<open>2 ^ 15\<close> sends, at least one receive of at least
  one element, at most \<open>2 ^ 15\<close> receive elements in all; the checks of the code do not ask for that)
  and to which the driver assigns existing sub-queues. It always returns, and succeeds exactly when
  the driver grants the queue pair and all five buffers are allocated: then the queue pair is in
  its table slot, counted on the two completion queues it was asked for, in the reset state, its
  queues empty and at least as large as asked.
\<close>

theorem create_qp_contract:
  assumes env: "create_env c ctx tbl edev attr efa_attr w"
    and fits: "cap_fits ctx (ia_cap (iax_base attr))"
    and p: "al_qp al = Some p" "w_qps w p = None"
    and subs: "sub_cqs_exist dr (w_cqs w) (ia_send_cq (iax_base attr)) (ia_recv_cq (iax_base attr))"
  shows "\<exists>r attr' w' params rep d1. create_qp dr al (Some c) attr efa_attr w = Some (r, attr', w') \<and>
    asked_qp dr (wd_Device (dev_device edev)) params (w_drv w) rep d1 \<and>
    (if ioctl_status rep sizeof_EFA_QP_INFO = 0 \<and> rq_allocs_ok al \<and> sq_allocs_ok al
     then r = Some p \<and> w_drv w' = d1 \<and>
       (\<exists>q k j. published c ctx tbl p q w w' \<and> sq_fresh k (ia_cap (iax_base attr)) (qp_sq q) \<and>
          rq_fresh j (ia_cap (iax_base attr)) (rq_wq (qp_rq q)) \<and>
          qp_state (verbs_qp q) = IBV_QPS_RESET \<and> sq_sig_all q = ia_sq_sig_all (iax_base attr) \<and>
          qp_num (verbs_qp q) = qi_QpNum (outBuffer rep) \<and>
          qp_handle (verbs_qp q) = qi_QpHandle (outBuffer rep) \<and>
          qp_context_ptr (verbs_qp q) = Some c \<and> qp_send_cq (verbs_qp q) = ia_send_cq (iax_base attr) \<and>
          qp_recv_cq (verbs_qp q) = ia_recv_cq (iax_base attr))
     else r = None)"
  by (rule create_qp_outcome [OF assms])

theorem create_qp_contract_witness:
  "\<exists>attr' w' q k. create_qp ref_driver (ref_allocs False) (Some 0) ref_attr None (ref_world False) =
     Some (Some 4, attr', w') \<and> w_qps w' 4 = Some q \<and> sq_fresh k (ia_cap (iax_base ref_attr)) (qp_sq q)"
proof -
  have a: "rq_allocs_ok (ref_allocs False)" "sq_allocs_ok (ref_allocs False)"
    by (simp_all add: rq_allocs_ok_def sq_allocs_ok_def ref_allocs_def)
  have "w_drv (ref_world False) = ref_state0 False" by (simp add: ref_world_def)
  then show ?thesis
    using create_qp_contract [OF ref_env ref_fits ref_al ref_subs, of False False] a
    by (elim exE conjE) (auto dest!: ref_granted intro: published_qp split: if_splits)
qed

text \<open>C25: destroying a queue pair undoes its creation. Right after a successful \<open>create_qp\<close> of sizes
  that fit (\<open>cap_fits\<close>),
  \<open>efa_destroy_qp\<close> is defined and restores both reference counts and empties the table slot;
  when the driver agrees, the world is the one before the creation except for that slot, which
  was overwritten.\<close>

theorem create_destroy_qp_roundtrip:
  assumes run: "create_qp dr al (Some c) attr efa_attr w = Some (Some p', attr', w1)"
    and env: "create_env c ctx tbl edev attr efa_attr w"
    and fits: "cap_fits ctx (ia_cap (iax_base attr))"
    and p: "al_qp al = Some p" "w_qps w p = None"
    and subs: "sub_cqs_exist dr (w_cqs w) (ia_send_cq (iax_base attr)) (ia_recv_cq (iax_base attr))"
  shows "\<exists>e w2 n q. efa_destroy_qp dr p' w1 = Some (e, w2) \<and> w_qps w1 p' = Some q \<and>
    n = qp_slot ctx (qp_num (verbs_qp q)) \<and> w_cqs w2 = w_cqs w \<and>
    w_ctxs w2 = (w_ctxs w)(c \<mapsto> ctx\<lparr>qp_table := Live (tbl[n := None])\<rparr>) \<and>
    (e = 0 \<longrightarrow> w2 = w\<lparr>w_drv := w_drv w2,
       w_ctxs := (w_ctxs w)(c \<mapsto> ctx\<lparr>qp_table := Live (tbl[n := None])\<rparr>)\<rparr>)"
proof (rule create_qp_success [OF run env fits p subs], goal_cases)
  case (1 q k j)
  let ?n = "qp_slot ctx (qp_num (verbs_qp q))" and ?v = "verbs_qp q"
  let ?ctx1 = "ctx\<lparr>qp_table := Live (tbl[?n := Some p])\<rparr>"
  have pub: "has_sub (w_cqs w) (qp_send_cq ?v) (sq_sub q)" "has_sub (w_cqs w) (qp_recv_cq ?v) (rq_sub q)"
    and w1: "w1 = w\<lparr>w_drv := w_drv w1, w_ctxs := (w_ctxs w)(c \<mapsto> ?ctx1),
       w_cqs := bump_at (\<lambda>n. n + 1) (qp_recv_cq ?v) (rq_sub q)
                  (bump_at (\<lambda>n. n + 1) (qp_send_cq ?v) (sq_sub q) (w_cqs w)),
       w_qps := (w_qps w)(p \<mapsto> q)\<rparr>"
    using 1(2) unfolding published_def by blast+
  have f: "w_qps w1 = (w_qps w)(p \<mapsto> q)" "w_ctxs w1 = (w_ctxs w)(c \<mapsto> ?ctx1)"
    "w_cqs w1 = bump_at (\<lambda>n. n + 1) (qp_recv_cq ?v) (rq_sub q)
                  (bump_at (\<lambda>n. n + 1) (qp_send_cq ?v) (sq_sub q) (w_cqs w))"
    "w_devs w1 = w_devs w"
    by (subst w1, simp)+
  have e: "w_ctxs w c = Some ctx" "edev_at w (Some c) = Some edev"
    "length tbl = unat (qp_table_sz_m1 ctx) + 1"
    using env unfolding create_env_def by blast+
  have slot: "qp_slot ?ctx1 (qp_num ?v) = ?n" by (simp add: qp_slot_def)
  have edev: "edev_at w1 (Some c) = Some edev" using e by (simp add: edev_at_def f)
  obtain q1 q2 where t: "efa_sq_terminate q = Some q1" "efa_rq_terminate q1 = Some q2"
    "verbs_qp q2 = ?v" by (rule terminate_fresh [OF 1(3,4)])
  obtain r d where rel: "released_qp dr (wd_Device (dev_device edev)) (qp_handle ?v) (w_drv w1) r d"
    by (auto simp: released_qp_def) (metis surj_pair)
  have D: "efa_destroy_qp dr p w1 = Some (ioctl_status_nodata r,
     w1\<lparr>w_drv := d,
       w_ctxs := (w_ctxs w1)(c \<mapsto> ?ctx1\<lparr>qp_table := Live ((tbl[?n := Some p])[?n := None])\<rparr>),
       w_cqs := bump_at (\<lambda>n. n - 1) (qp_recv_cq ?v) (rq_sub q)
                  (bump_at (\<lambda>n. n - 1) (qp_send_cq ?v) (sq_sub q) (w_cqs w1)),
       w_qps := (if ioctl_status_nodata r = 0 then (w_qps w1)(p := None) else (w_qps w1)(p \<mapsto> q2))\<rparr>)"
    using destroy_qp_eq [of w1 p q c ?ctx1 "tbl[?n := Some p]" q1 q2 edev dr r d] 1(6) e pub t edev rel
    by (simp add: f slot unpublished_def)
  have cqs: "bump_at (\<lambda>n. n - 1) (qp_recv_cq ?v) (rq_sub q)
                  (bump_at (\<lambda>n. n - 1) (qp_send_cq ?v) (sq_sub q) (w_cqs w1)) = w_cqs w"
    unfolding f(3) by (rule bump_undo [OF pub])
  define w2 where "w2 = w1\<lparr>w_drv := d,
       w_ctxs := (w_ctxs w)(c \<mapsto> ctx\<lparr>qp_table := Live (tbl[?n := None])\<rparr>), w_cqs := w_cqs w,
       w_qps := (if ioctl_status_nodata r = 0 then w_qps w else (w_qps w)(p \<mapsto> q2))\<rparr>"
  have run2: "efa_destroy_qp dr p w1 = Some (ioctl_status_nodata r, w2)"
    unfolding D cqs w2_def using p(2) by (simp add: f)
  have "ioctl_status_nodata r = 0 \<Longrightarrow> w2 = w\<lparr>w_drv := d,
       w_ctxs := (w_ctxs w)(c \<mapsto> ctx\<lparr>qp_table := Live (tbl[?n := None])\<rparr>)\<rparr>"
    unfolding w2_def by (subst w1) simp
  then show ?case using 1(1) run2 f
    by (intro exI [of _ "ioctl_status_nodata r"] exI [of _ w2] exI [of _ ?n] exI [of _ q])
      (simp add: w2_def)
qed

theorem create_destroy_qp_roundtrip_witness:
  "\<exists>attr' w1 e w2. create_qp ref_driver (ref_allocs False) (Some 0) ref_attr None (ref_world False) =
     Some (Some 4, attr', w1) \<and> efa_destroy_qp ref_driver 4 w1 = Some (e, w2) \<and>
     w_cqs w2 = w_cqs (ref_world False)"
proof -
  obtain attr' w1 where run: "create_qp ref_driver (ref_allocs False) (Some 0) ref_attr None
      (ref_world False) = Some (Some 4, attr', w1)" using ref_created [of False False] by auto
  show ?thesis
    using create_destroy_qp_roundtrip [OF run ref_env ref_fits ref_al ref_subs] run by blast
qed

text \<open>
  C26: a created queue pair takes the work it was sized for, if its sizes are such that the 16-bit
  counts of the library can hold them (\<open>cap_fits\<close>: at most \<open>2 ^ 15\<close> sends, at least one receive of at
  least one element, at most \<open>2 ^ 15\<close> receive elements in all) and the driver assigned existing
  sub-queues. Once \<open>efa_modify_qp\<close> has moved it to the ready-to-send state, \<open>efa_post_send\<close> accepts any
  \<open>max_send_wr\<close> good requests and \<open>efa_post_recv\<close> any \<open>max_recv_wr\<close> good receives, as the caller asked
  for at creation.
\<close>

theorem created_qp_takes_its_load:
  assumes run: "create_qp dr al (Some c) attr efa_attr w = Some (Some p', attr', w1)"
    and env: "create_env c ctx tbl edev attr efa_attr w"
    and fits: "cap_fits ctx (ia_cap (iax_base attr))"
    and p: "al_qp al = Some p" "w_qps w p = None"
    and subs: "sub_cqs_exist dr (w_cqs w) (ia_send_cq (iax_base attr)) (ia_recv_cq (iax_base attr))"
    and rts: "efa_modify_qp dr p' qattr msk w1 = Some (0, w2)" "msk AND IBV_QP_STATE \<noteq> 0"
      "at_qp_state qattr = IBV_QPS_RTS"
  shows "\<exists>qp. w_qps w2 p' = Some qp \<and>
    (\<forall>mem ahs wrs tr. length wrs \<le> unat (max_send_wr (ia_cap (iax_base attr))) \<longrightarrow>
       list_all (request_ok ahs qp) wrs \<longrightarrow>
       (\<exists>qp' tr'. efa_post_send mem ahs qp wrs tr = Some (0, None, qp', tr'))) \<and>
    (\<forall>wrs tr. length wrs \<le> unat (max_recv_wr (ia_cap (iax_base attr))) \<longrightarrow>
       list_all (recv_good (rq_wq (qp_rq qp))) wrs \<longrightarrow>
       (\<exists>qp' tr'. efa_post_recv qp wrs tr = Some (0, None, qp', tr')))"
proof (rule create_qp_success [OF run env fits p subs], goal_cases)
  case (1 q k j)
  let ?qp = "q\<lparr>verbs_qp := (verbs_qp q)\<lparr>qp_state := IBV_QPS_RTS\<rparr>\<rparr>"
  have "w_qps w1 p' = Some q" using published_qp [OF 1(2)] 1(1) by simp
  then have q2: "w_qps w2 p' = Some ?qp"
    using rts by (elim modify_qp_cases) (auto simp: modified_qp_def)
  have sq: "sq_ok (qp_sq ?qp)" "unat (max_send_wr (ia_cap (iax_base attr))) \<le> sq_room (qp_sq ?qp)"
    "can_send ?qp" using 1(3) by (simp_all add: sq_fresh_def can_send_def)
  have rq: "wq_ready (rq_wq (qp_rq ?qp))"
    "unat (max_recv_wr (ia_cap (iax_base attr))) \<le> wq_room (rq_wq (qp_rq ?qp))" "can_recv ?qp"
    using 1(4) by (simp_all add: rq_fresh_def rq_sized_def can_recv_def)
  show ?case
  proof (rule exI [of _ ?qp], intro conjI allI impI, goal_cases)
    case 1 show ?case by (rule q2)
  next
    case (2 mem ahs wrs tr)
    have "\<forall>wr \<in> set wrs. request_ok ahs ?qp wr" using 2(2) by (simp add: list_all_iff)
    from efa_post_send_total [OF sq(1,3) this, of mem tr] show ?case
      using 2(1) sq(2) by (simp add: room_err_def room_rest_def)
  next
    case (3 wrs tr)
    have "\<forall>wr \<in> set wrs. recv_good (rq_wq (qp_rq ?qp)) wr" using 3(2) by (simp add: list_all_iff)
    from efa_post_recv_total [OF rq(1,3) this, of tr] show ?case
      using 3(1) rq(2) by (simp add: room_err_def room_rest_def)
  qed
qed

theorem created_qp_takes_its_load_witness:
  "\<exists>attr' w1 w2 qp. create_qp ref_driver (ref_allocs False) (Some 0) ref_attr None (ref_world False) =
       Some (Some 4, attr', w1) \<and>
     efa_modify_qp ref_driver 4 (state_attr IBV_QPS_RTS) IBV_QP_STATE w1 = Some (0, w2) \<and>
     w_qps w2 4 = Some qp \<and>
     (\<exists>qp' tr'. efa_post_recv qp (replicate 3 ex_recv_wr) [] = Some (0, None, qp', tr'))"
proof -
  obtain attr' w1 where run: "create_qp ref_driver (ref_allocs False) (Some 0) ref_attr None
      (ref_world False) = Some (Some 4, attr', w1)" using ref_created [of False False] by auto
  obtain w2 where mod: "efa_modify_qp ref_driver 4 (state_attr IBV_QPS_RTS) IBV_QP_STATE w1 = Some (0, w2)"
    using ref_modified [OF run] by blast
  obtain qp where qp: "w_qps w2 4 = Some qp"
    "\<And>wrs tr. length wrs \<le> 3 \<Longrightarrow> list_all (recv_good (rq_wq (qp_rq qp))) wrs \<Longrightarrow>
       \<exists>qp' tr'. efa_post_recv qp wrs tr = Some (0, None, qp', tr')"
    using created_qp_takes_its_load [OF run ref_env ref_fits ref_al ref_subs mod]
    by (auto simp: IBV_QP_STATE_def ref_attr_def)
  have "recv_good (rq_wq (qp_rq qp)) ex_recv_wr"
  proof (rule create_qp_success [OF run ref_env ref_fits ref_al ref_subs], goal_cases)
    case (1 q k j)
    have "qp = modified_qp (state_attr IBV_QPS_RTS) IBV_QP_STATE q"
      using mod qp(1) published_qp [OF 1(2)] by (elim modify_qp_cases) simp
    then have "wq_max_sge (rq_wq (qp_rq qp)) = 2"
      using 1(4) by (simp add: modified_qp_def IBV_QP_STATE_def rq_fresh_def rq_sized_def ref_attr_def)
    then show ?case by (simp add: recv_good_def recv_wf_def ex_recv_wr_def)
  qed
  then have "\<exists>qp' tr'. efa_post_recv qp (replicate 3 ex_recv_wr) [] = Some (0, None, qp', tr')"
    by (intro qp(2)) (simp_all add: list_all_iff)
  then show ?thesis using run mod qp(1) by blast
qed

end
