(* ===== verification/Efa_Registry.thy ===== *)
theory Efa_Registry
  imports Efa_Qp_Contract Efa_Poll
begin

text \<open>
  What the queue pairs of a context share: its table, from which the polling code finds the
  queue pair of a completion, and the counts of the completion queues, from which it knows
  which sub-queues to poll. Both are determined by the set of queue pairs that are up, in every
  world the operations can reach. A queue pair is up from its creation to the first call that
  destroys it: that call takes it down even when the driver refuses and the object stays.
\<close>

section \<open>The registry of queue pairs\<close>

text \<open>
  What identifies a queue pair to the others: it never changes between creation and destruction.
  The first part of every destruction frees the arrays of the send queue, so a queue pair is up as
  long as it has them. \<open>efa_sq_terminate\<close> frees them for every queue of nonzero size.
\<close>

definition qp_up :: "efa_qp \<Rightarrow> bool" where
  "qp_up q \<longleftrightarrow> local_queue (qp_sq q) \<noteq> Dangling"

definition qp_sized :: "efa_qp \<Rightarrow> bool" where
  "qp_sized q \<longleftrightarrow> wqe_cnt (sq_wq (qp_sq q)) \<noteq> 0 \<and> local_queue (qp_sq q) \<noteq> Null"

record qp_ident =
  id_num :: u32
  id_ctx :: "ptr option"
  id_send :: "ptr option \<times> nat"
  id_recv :: "ptr option \<times> nat"
  id_up :: bool
  id_sized :: bool

definition ident :: "efa_qp \<Rightarrow> qp_ident" where
  "ident q = \<lparr>id_num = qp_num (verbs_qp q), id_ctx = qp_context_ptr (verbs_qp q),
     id_send = (qp_send_cq (verbs_qp q), sq_sub q), id_recv = (qp_recv_cq (verbs_qp q), rq_sub q),
     id_up = qp_up q, id_sized = qp_sized q\<rparr>"

definition qp_view :: "'d world \<Rightarrow> ptr \<rightharpoonup> qp_ident" where
  "qp_view w = (\<lambda>p. map_option ident (w_qps w p))"

definition up_view :: "(ptr \<rightharpoonup> qp_ident) \<Rightarrow> ptr \<rightharpoonup> qp_ident" where
  "up_view V = (\<lambda>p. case V p of None \<Rightarrow> None | Some v \<Rightarrow> if id_up v then Some v else None)"

definition cq_view :: "'d world \<Rightarrow> ptr \<rightharpoonup> u32 list" where
  "cq_view w = (\<lambda>a. map_option (\<lambda>c. map sub_ref_cnt (sub_cq_arr c)) (w_cqs w a))"

text \<open>The queue pairs that complete into one sub-queue, and the count it should have.\<close>

definition users :: "(qp_ident \<Rightarrow> ptr option \<times> nat) \<Rightarrow> (ptr \<rightharpoonup> qp_ident) \<Rightarrow> ptr \<Rightarrow> nat \<Rightarrow> ptr set" where
  "users sel V a i = {p. \<exists>v. V p = Some v \<and> sel v = (Some a, i)}"

definition count_of :: "(ptr \<rightharpoonup> qp_ident) \<Rightarrow> ptr \<Rightarrow> nat \<Rightarrow> u32" where
  "count_of V a i = of_nat (card (users id_send V a i)) + of_nat (card (users id_recv V a i))"

definition has_count :: "(ptr \<rightharpoonup> u32 list) \<Rightarrow> ptr option \<times> nat \<Rightarrow> bool" where
  "has_count C s \<longleftrightarrow> (\<exists>a ns. fst s = Some a \<and> C a = Some ns \<and> snd s < length ns)"

definition bump_count :: "(u32 \<Rightarrow> u32) \<Rightarrow> ptr option \<times> nat \<Rightarrow> (ptr \<rightharpoonup> u32 list) \<Rightarrow> (ptr \<rightharpoonup> u32 list)" where
  "bump_count f s C =
     (case fst s of
        None \<Rightarrow> C
      | Some a \<Rightarrow> (case C a of None \<Rightarrow> C | Some ns \<Rightarrow> C(a \<mapsto> ns[snd s := f (ns ! snd s)])))"

text \<open>
  The invariant of the registry: every live queue pair stands in its slot of the table and
  completes into sub-queues that exist; the table holds nothing else; every sub-queue's count
  is the number of queues that complete into it.
\<close>

definition registry ::
  "u32 \<Rightarrow> ptr option list \<Rightarrow> ptr \<Rightarrow> (ptr \<rightharpoonup> qp_ident) \<Rightarrow> (ptr \<rightharpoonup> u32 list) \<Rightarrow> bool" where
  "registry m tbl c V C \<longleftrightarrow>
     finite (dom V) \<and>
     (\<forall>p v. V p = Some v \<longrightarrow> id_ctx v = Some c \<and> tbl ! unat (id_num v AND m) = Some p \<and>
        has_count C (id_send v) \<and> has_count C (id_recv v)) \<and>
     (\<forall>i < length tbl. \<forall>p. tbl ! i = Some p \<longrightarrow> (\<exists>v. V p = Some v \<and> unat (id_num v AND m) = i)) \<and>
     (\<forall>a ns i. C a = Some ns \<longrightarrow> i < length ns \<longrightarrow> ns ! i = count_of V a i)"

lemma registryD:
  assumes "registry m tbl c V C"
  shows "finite (dom V)"
    and "V p = Some v \<Longrightarrow> id_ctx v = Some c \<and> tbl ! unat (id_num v AND m) = Some p \<and>
      has_count C (id_send v) \<and> has_count C (id_recv v)"
    and "i < length tbl \<Longrightarrow> tbl ! i = Some p \<Longrightarrow> \<exists>v. V p = Some v \<and> unat (id_num v AND m) = i"
    and "C a = Some ns \<Longrightarrow> i < length ns \<Longrightarrow> ns ! i = count_of V a i"
  using assms unfolding registry_def by blast+

lemma finite_users: "finite (dom V) \<Longrightarrow> finite (users sel V a i)"
  by (rule finite_subset [of _ "dom V"]) (auto simp: users_def)

lemma users_add:
  "V p = None \<Longrightarrow> users sel (V(p \<mapsto> v)) a i =
     (if sel v = (Some a, i) then insert p (users sel V a i) else users sel V a i)"
  by (auto simp: users_def split: if_splits)

lemma users_fresh: "V p = None \<Longrightarrow> p \<notin> users sel V a i"
  by (simp add: users_def)

lemma count_add:
  assumes "finite (dom V)" "V p = None"
  shows "count_of (V(p \<mapsto> v)) a i = count_of V a i +
    (if id_send v = (Some a, i) then 1 else 0) + (if id_recv v = (Some a, i) then 1 else 0)"
  using assms by (simp add: count_of_def users_add card_insert_if finite_users users_fresh)

lemma bump_count_other [simp]: "has_count (bump_count f s C) t = has_count C t"
  by (auto simp: has_count_def bump_count_def split: option.splits)

lemma bump_count_at:
  assumes "has_count C s" "bump_count f s C a = Some ns" "i < length ns"
  shows "\<exists>ns0. C a = Some ns0 \<and> length ns = length ns0 \<and>
    ns ! i = (if s = (Some a, i) then f (ns0 ! i) else ns0 ! i)"
proof -
  obtain b j xs where s: "s = (Some b, j)" "C b = Some xs" "j < length xs"
    using assms(1) by (cases s) (auto simp: has_count_def)
  show ?thesis
  proof (cases "a = b")
    case True
    then show ?thesis using s assms(2,3)
      by (intro exI [of _ xs]) (auto simp: bump_count_def nth_list_update)
  next
    case False
    then show ?thesis using s assms(2) by (intro exI [of _ ns]) (auto simp: bump_count_def)
  qed
qed

text \<open>A new queue pair whose slot is free.\<close>

lemma registry_add:
  assumes R: "registry m tbl c V C" and p: "V p = None" "id_ctx v = Some c"
    and s: "unat (id_num v AND m) < length tbl" "tbl ! unat (id_num v AND m) = None"
    and h: "has_count C (id_send v)" "has_count C (id_recv v)"
  shows "registry m (tbl[unat (id_num v AND m) := Some p]) c (V(p \<mapsto> v))
    (bump_count (\<lambda>n. n + 1) (id_recv v) (bump_count (\<lambda>n. n + 1) (id_send v) C))"
  unfolding registry_def
proof (intro conjI allI impI, goal_cases)
  case 1 show ?case using registryD(1) [OF R] by simp
next
  case (2 p' v') then show ?case using registryD(2) [OF R, of p' v'] p by (auto split: if_splits)
next
  case (3 p' v') then show ?case using registryD(2) [OF R, of p' v'] p s
    by (cases "p' = p") (auto simp: nth_list_update)
next
  case (4 p' v') then show ?case using registryD(2) [OF R, of p' v'] h by (auto split: if_splits)
next
  case (5 p' v') then show ?case using registryD(2) [OF R, of p' v'] h by (auto split: if_splits)
next
  case (6 i p')
  then show ?case
  proof (cases "i = unat (id_num v AND m)")
    case False
    then obtain v' where v': "V p' = Some v'" "unat (id_num v' AND m) = i"
      using 6 registryD(3) [OF R, of i p'] by auto
    then have "p' \<noteq> p" using p(1) by auto
    then show ?thesis using v' by auto
  qed (use s(1) in auto)
next
  case (7 a ns i)
  obtain ns1 where 1: "bump_count (\<lambda>n. n + 1) (id_send v) C a = Some ns1" "length ns = length ns1"
    "ns ! i = (if id_recv v = (Some a, i) then ns1 ! i + 1 else ns1 ! i)"
    using bump_count_at [OF _ 7] h by auto
  obtain ns0 where 2: "C a = Some ns0" "length ns1 = length ns0"
    "ns1 ! i = (if id_send v = (Some a, i) then ns0 ! i + 1 else ns0 ! i)"
    using bump_count_at [OF h(1) 1(1), of i] 7 1(2) by auto
  have "ns0 ! i = count_of V a i" using registryD(4) [OF R 2(1)] 7 1 2 by simp
  then show ?case using 1 2 count_add [OF registryD(1) [OF R] p(1), of v a i] by simp
qed

text \<open>The removal of a queue pair.\<close>

lemma registry_del:
  assumes R: "registry m tbl c V C" and p: "V p = Some v"
  shows "registry m (tbl[unat (id_num v AND m) := None]) c (V(p := None))
    (bump_count (\<lambda>n. n - 1) (id_recv v) (bump_count (\<lambda>n. n - 1) (id_send v) C))"
  unfolding registry_def
proof (intro conjI allI impI, goal_cases)
  case 1 show ?case using registryD(1) [OF R] by simp
next
  case (2 p' v') then show ?case using registryD(2) [OF R, of p' v'] by (auto split: if_splits)
next
  case (3 p' v')
  then have v': "V p' = Some v'" "p' \<noteq> p" by (auto split: if_splits)
  then have "unat (id_num v' AND m) \<noteq> unat (id_num v AND m)"
    using registryD(2) [OF R v'(1)] registryD(2) [OF R p] by auto
  then show ?case using registryD(2) [OF R v'(1)] by simp
next
  case (4 p' v') then show ?case using registryD(2) [OF R, of p' v'] by (auto split: if_splits)
next
  case (5 p' v') then show ?case using registryD(2) [OF R, of p' v'] by (auto split: if_splits)
next
  case (6 i p')
  then have ne: "i \<noteq> unat (id_num v AND m)" by auto
  then have i: "i \<noteq> unat (id_num v AND m)" "tbl ! i = Some p'" "i < length tbl" using 6 by simp_all
  then show ?case using registryD(3) [OF R i(3,2)] p by auto
next
  case (7 a ns i)
  note h = registryD(2) [OF R p]
  obtain ns1 where 1: "bump_count (\<lambda>n. n - 1) (id_send v) C a = Some ns1" "length ns = length ns1"
    "ns ! i = (if id_recv v = (Some a, i) then ns1 ! i - 1 else ns1 ! i)"
    using bump_count_at [OF _ 7] h by auto
  obtain ns0 where 2: "C a = Some ns0" "length ns1 = length ns0"
    "ns1 ! i = (if id_send v = (Some a, i) then ns0 ! i - 1 else ns0 ! i)"
    using bump_count_at [OF _ 1(1), of i] h 7 1(2) by auto
  have "ns0 ! i = count_of V a i" using registryD(4) [OF R 2(1)] 7 1 2 by simp
  moreover have "(V(p := None))(p \<mapsto> v) = V" using p by auto
  then have "count_of V a i = count_of (V(p := None)) a i +
      (if id_send v = (Some a, i) then 1 else 0) + (if id_recv v = (Some a, i) then 1 else 0)"
    using count_add [of "V(p := None)" p v a i] registryD(1) [OF R] by simp
  ultimately show ?case using 1 2 by simp
qed

section \<open>What the data path leaves alone\<close>

lemma get_wrid_sub: "efa_wq_get_next_wrid_idx_locked wq tag = Some (i, wq') \<Longrightarrow>
    wq_sub_cq_idx wq' = wq_sub_cq_idx wq \<and> wqe_cnt wq' = wqe_cnt wq"
  by (auto simp: efa_wq_get_next_wrid_idx_locked_def Option.bind_eq_Some_conv Let_def)

lemma put_wrid_sub: "efa_wq_put_wrid_idx_unlocked wq i = Some wq' \<Longrightarrow>
    wq_sub_cq_idx wq' = wq_sub_cq_idx wq \<and> wqe_cnt wq' = wqe_cnt wq"
  by (auto simp: efa_wq_put_wrid_idx_unlocked_def Option.bind_eq_Some_conv Let_def)

lemma ident_sq: "wq_sub_cq_idx (sq_wq sq) = wq_sub_cq_idx (sq_wq (qp_sq q)) \<Longrightarrow>
    wqe_cnt (sq_wq sq) = wqe_cnt (sq_wq (qp_sq q)) \<Longrightarrow> local_queue sq = local_queue (qp_sq q) \<Longrightarrow>
    ident (q\<lparr>qp_sq := sq\<rparr>) = ident q"
  by (simp add: ident_def sq_sub_def rq_sub_def qp_up_def qp_sized_def)

lemma ident_rq: "wq_sub_cq_idx (rq_wq rq) = wq_sub_cq_idx (rq_wq (qp_rq q)) \<Longrightarrow>
    ident (q\<lparr>qp_rq := rq\<rparr>) = ident q"
  by (simp add: ident_def sq_sub_def rq_sub_def qp_up_def qp_sized_def)

lemma build_send_wqe_sub:
  assumes "build_send_wqe mem ahs sq wr = Some (w, sq')"
  shows "wq_sub_cq_idx (sq_wq sq') = wq_sub_cq_idx (sq_wq sq) \<and> wqe_cnt (sq_wq sq') = wqe_cnt (sq_wq sq) \<and>
    local_queue sq' = local_queue sq"
  using assms get_wrid_sub by (fastforce simp: build_send_wqe_def Option.bind_eq_Some_conv)

lemma post_send_loop_ident:
  "post_send_loop mem ahs q cb tr wrs = Some (err, bad, q', cb', tr') \<Longrightarrow> ident q' = ident q"
proof (induction wrs arbitrary: q cb tr)
  case (Cons wr wrs)
  obtain e where v: "efa_post_send_validate_wr q wr = Some e" using Cons.prems by (auto simp: Option.bind_eq_Some_conv)
  show ?case
  proof (cases "e = 0")
    case False
    then show ?thesis using Cons.prems v by simp
  next
    case True
    then obtain w sq1 cb1 tr1 where b: "build_send_wqe mem ahs (qp_sq q) wr = Some (w, sq1)"
      "post_send_loop mem ahs (q\<lparr>qp_sq := efa_sq_advance_post_idx sq1\<rparr>) cb1 tr1 wrs =
         Some (err, bad, q', cb', tr')"
      using Cons.prems v by (auto simp: Option.bind_eq_Some_conv Let_def split: if_splits)
    have "wq_sub_cq_idx (sq_wq (efa_sq_advance_post_idx sq1)) = wq_sub_cq_idx (sq_wq (qp_sq q)) \<and>
        wqe_cnt (sq_wq (efa_sq_advance_post_idx sq1)) = wqe_cnt (sq_wq (qp_sq q)) \<and>
        local_queue (efa_sq_advance_post_idx sq1) = local_queue (qp_sq q)"
      using build_send_wqe_sub [OF b(1)] by (simp add: efa_sq_advance_post_idx_def wq_advance_def Let_def)
    then show ?thesis using Cons.IH [OF b(2)] by (simp add: ident_sq)
  qed
qed simp

lemma post_send_ident:
  assumes "efa_post_send mem ahs q wrs tr = Some (err, bad, q', tr')"
  shows "ident q' = ident q"
proof -
  have l: "ident (set_sq_lock q l) = ident q" for q l
    unfolding set_sq_lock_def by (rule ident_sq) simp_all
  show ?thesis using assms
    by (auto simp: efa_post_send_def Option.bind_eq_Some_conv mmio_wc_spinlock_def Let_def l
        dest!: post_send_loop_ident split: prod.splits)
qed

lemma post_recv_wr_sub:
  assumes "post_recv_wr wr buf wq tr = Some (wq', tr')"
  shows "wq_sub_cq_idx wq' = wq_sub_cq_idx wq"
proof -
  obtain i wq1 rx rx' where g: "efa_wq_get_next_wrid_idx_locked wq (rw_wr_id wr) = Some (i, wq1)"
    "for_range 0 (unat (size_of_int (rw_num_sge wr))) (post_recv_sge wr buf)
       (rx, wq1\<lparr>wqe_posted := wqe_posted wq1 + 1\<rparr>, tr) = Some (rx', wq', tr')"
    using assms by (auto simp: post_recv_wr_def Option.bind_eq_Some_conv Let_def)
  have "wq_sub_cq_idx (fst (snd (rx', wq', tr'))) = wq_sub_cq_idx wq1"
    by (rule for_range_inv [OF g(2), of "\<lambda>i s. wq_sub_cq_idx (fst (snd s)) = wq_sub_cq_idx wq1"])
      (auto simp: post_recv_sge_def Option.bind_eq_Some_conv Let_def split: if_splits)
  then show ?thesis using get_wrid_sub [OF g(1)] by simp
qed

lemma post_recv_loop_ident:
  "post_recv_loop q tr wrs = Some (err, bad, q', tr') \<Longrightarrow> ident q' = ident q"
proof (induction wrs arbitrary: q tr)
  case (Cons wr wrs)
  show ?case
  proof (cases "efa_post_recv_validate q wr = 0")
    case False
    then show ?thesis using Cons.prems by simp
  next
    case True
    then obtain wq tr1 where b: "post_recv_wr wr (rq_buf (qp_rq q)) (rq_wq (qp_rq q)) tr = Some (wq, tr1)"
      "post_recv_loop (set_rq_wq q wq) tr1 wrs = Some (err, bad, q', tr')"
      using Cons.prems by (auto simp: Option.bind_eq_Some_conv Let_def)
    have "ident (set_rq_wq q wq) = ident q"
      unfolding set_rq_wq_def by (rule ident_rq) (simp add: post_recv_wr_sub [OF b(1)])
    then show ?thesis using Cons.IH [OF b(2)] by simp
  qed
qed simp

lemma post_recv_ident:
  assumes "efa_post_recv q wrs tr = Some (err, bad, q', tr')"
  shows "ident q' = ident q"
proof -
  have l: "ident (set_rq_wq q ((rq_wq (qp_rq q))\<lparr>wqlock := l\<rparr>)) = ident q" for q l
    unfolding set_rq_wq_def by (rule ident_rq) simp
  show ?thesis using assms
    by (auto simp: efa_post_recv_def Option.bind_eq_Some_conv Let_def l dest!: post_recv_loop_ident)
qed

text \<open>Polling moves identifiers back and consumes completions; it registers nobody.\<close>

definition idents :: "qp_heap \<Rightarrow> ptr \<rightharpoonup> qp_ident" where
  "idents h = (\<lambda>p. map_option ident (h p))"

definition ref_cnts :: "efa_cq \<Rightarrow> u32 list" where
  "ref_cnts cq = map sub_ref_cnt (sub_cq_arr cq)"

lemma put_wrid_idents:
  assumes "put_wrid_at h r i = Some h'"
  shows "idents h' = idents h"
proof -
  obtain x wq wq' where 1: "r = Some x" "wq_at h x = Some wq" "efa_wq_put_wrid_idx_unlocked wq i = Some wq'"
    "h' = wq_upd h x wq'" using assms by (auto simp: put_wrid_at_def Option.bind_eq_Some_conv)
  note sub = put_wrid_sub [OF 1(3)]
  show ?thesis
  proof (cases x)
    case (Sq_wq p)
    then obtain q where q: "h p = Some q" "wq = sq_wq (qp_sq q)" using 1(2) by auto
    have "ident (q\<lparr>qp_sq := (qp_sq q)\<lparr>sq_wq := wq'\<rparr>\<rparr>) = ident q" by (rule ident_sq) (simp_all add: sub q)
    then show ?thesis using 1(4) Sq_wq q by (auto simp: idents_def fun_eq_iff)
  next
    case (Rq_wq p)
    then obtain q where q: "h p = Some q" "wq = rq_wq (qp_rq q)" using 1(2) by auto
    have "ident (q\<lparr>qp_rq := (qp_rq q)\<lparr>rq_wq := wq'\<rparr>\<rparr>) = ident q" by (rule ident_rq) (simp add: sub q)
    then show ?thesis using 1(4) Rq_wq q by (auto simp: idents_def fun_eq_iff)
  qed
qed

lemma poll_sub_cq_idents:
  assumes "efa_poll_sub_cq ctx k ext st = Some (err, st')"
  shows "idents (ps_qps st') = idents (ps_qps st)"
proof -
  obtain sub cqe sub' where 1: "arr_get (sub_cq_arr (ps_cq st)) k = Some sub"
    "cq_next_sub_cqe_get (cq_buf (ps_cq st)) sub = Some (cqe, sub')"
    using assms by (auto simp: efa_poll_sub_cq_def Option.bind_eq_Some_conv)
  let ?cq = "(ps_cq st)\<lparr>sub_cq_arr := (sub_cq_arr (ps_cq st))[k := sub'], cur_cqe := cqe\<rparr>"
  show ?thesis
  proof (cases cqe)
    case None
    then show ?thesis using assms 1 by (auto simp: efa_poll_sub_cq_def)
  next
    case (Some off)
    obtain c cur where 2: "deref_cdesc (cq_buf (ps_cq st)) off = Some c"
      "lookup_cur_qp ctx (ps_qps st) (ps_cur_qp st) (ucast (cd_qp_num c)) = Some cur"
      using assms 1 Some by (auto simp: efa_poll_sub_cq_def Option.bind_eq_Some_conv Let_def)
    show ?thesis
    proof (cases cur)
      case None
      then show ?thesis using assms 1 2 Some by (auto simp: efa_poll_sub_cq_def Let_def)
    next
      case cur: (Some p)
      show ?thesis
      proof (cases ext)
        case True
        then have "ps_qps st' = ps_qps st"
          using assms 1 2 Some cur
          by (auto simp: efa_poll_sub_cq_def Option.bind_eq_Some_conv Let_def)
        then show ?thesis by simp
      next
        case False
        then show ?thesis
          using assms 1 2 Some cur
          by (auto simp: efa_poll_sub_cq_def Option.bind_eq_Some_conv Let_def dest!: put_wrid_idents)
      qed
    qed
  qed
qed

lemma poll_loop_idents:
  "poll_sub_cqs_loop ctx ext n err st = Some (err', st') \<Longrightarrow> idents (ps_qps st') = idents (ps_qps st)"
proof (induction n arbitrary: err st)
  case (Suc n)
  then show ?case
    by (auto simp: Let_def Option.bind_eq_Some_conv split: if_splits
        dest!: Suc.IH poll_sub_cq_idents)
qed simp

lemma poll_sub_cqs_idents:
  assumes "efa_poll_sub_cqs ctx ext cq h wc = Some (err, cq', h', wc')"
  shows "idents h' = idents h \<and> ref_cnts cq' = ref_cnts cq \<and> cq_lock cq' = cq_lock cq"
  using assms poll_sub_cqs_frame [OF assms]
  by (auto simp: efa_poll_sub_cqs_def Option.bind_eq_Some_conv ref_cnts_def cq_frame_def
      dest!: poll_loop_idents)

lemma poll_cq_loop_idents:
  "poll_cq_loop ctx n i cq h wcs = Some (j, ret, cq', h', wcs') \<Longrightarrow>
     idents h' = idents h \<and> ref_cnts cq' = ref_cnts cq"
proof (induction n arbitrary: i cq h wcs)
  case (Suc n)
  obtain wc ret1 cq1 h1 wc1 where 1: "efa_poll_sub_cqs ctx False cq h wc = Some (ret1, cq1, h1, wc1)"
    "(if ret1 \<noteq> 0 then Some (i, (if ret1 = ENOENT then 0 else ret1), cq1, h1, wcs[i := wc1])
      else poll_cq_loop ctx n (Suc i) cq1 h1 (wcs[i := wc1])) = Some (j, ret, cq', h', wcs')"
    using Suc.prems by (auto simp: Option.bind_eq_Some_conv)
  show ?case
    using poll_sub_cqs_idents [OF 1(1)] 1(2) Suc.IH [of "Suc i" cq1 h1 "wcs[i := wc1]"]
    by (auto split: if_splits)
qed simp

lemma poll_idents:
  "efa_poll_cq ctx cq h n wcs = Some (r, cq', h', wcs') \<Longrightarrow>
     idents h' = idents h \<and> ref_cnts cq' = ref_cnts cq"
  "efa_start_poll ctx cq h msk = Some (r, cq', h') \<Longrightarrow>
     idents h' = idents h \<and> ref_cnts cq' = ref_cnts cq"
  "efa_next_poll ctx cq h = Some (r, cq', h') \<Longrightarrow>
     idents h' = idents h \<and> ref_cnts cq' = ref_cnts cq"
  "efa_end_poll cq h = Some (cq', h') \<Longrightarrow>
     idents h' = idents h \<and> ref_cnts cq' = ref_cnts cq"
proof goal_cases
  case 1
  then obtain j ret cq1 l where "poll_cq_loop ctx (nat (sint n)) 0
      (cq\<lparr>cq_lock := pthread_spin_lock (cq_lock cq)\<rparr>) h wcs = Some (j, ret, cq1, h', wcs')"
    "cq' = cq1\<lparr>cq_lock := l\<rparr>"
    by (auto simp: efa_poll_cq_def Option.bind_eq_Some_conv Let_def)
  then show ?case using poll_cq_loop_idents by (fastforce simp: ref_cnts_def)
next
  case 2
  then show ?case
    by (auto simp: efa_start_poll_def Option.bind_eq_Some_conv Let_def ref_cnts_def
        dest!: poll_sub_cqs_idents split: if_splits)
next
  case 3
  then show ?case
    by (auto simp: efa_next_poll_def Option.bind_eq_Some_conv
        dest!: poll_sub_cqs_idents put_wrid_idents)
next
  case 4
  then show ?case
    by (auto simp: efa_end_poll_def Option.bind_eq_Some_conv ref_cnts_def dest!: put_wrid_idents
        split: if_splits)
qed

section \<open>The operations as steps\<close>

text \<open>
  One call at a time on the context at \<open>c\<close>, in any order: creation (with the checked
  attributes, an address that is free and a driver that assigns existing sub-queues and a queue
  pair number whose slot is free), modification, destruction whatever the driver answers,
  posting and polling; and the device writing into a completion ring.
\<close>

inductive qp_step :: "'d driver \<Rightarrow> ptr \<Rightarrow> 'd world \<Rightarrow> 'd world \<Rightarrow> bool"
  for dr :: "'d driver" and c :: ptr where
  create: "create_env c ctx tbl edev attr efa_attr w \<Longrightarrow> cap_fits ctx (ia_cap (iax_base attr)) \<Longrightarrow>
    al_qp al = Some p \<Longrightarrow> w_qps w p = None \<Longrightarrow>
    sub_cqs_exist dr (w_cqs w) (ia_send_cq (iax_base attr)) (ia_recv_cq (iax_base attr)) \<Longrightarrow>
    create_qp dr al (Some c) attr efa_attr w = Some (r, attr', w') \<Longrightarrow>
    (\<And>q. w_qps w' p = Some q \<Longrightarrow> tbl ! qp_slot ctx (qp_num (verbs_qp q)) = None) \<Longrightarrow>
    qp_step dr c w w'"
| modify: "efa_modify_qp dr p qattr msk w = Some (err, w') \<Longrightarrow> qp_step dr c w w'"
| destroy: "efa_destroy_qp dr p w = Some (err, w') \<Longrightarrow> qp_step dr c w w'"
| post_send: "w_qps w p = Some q \<Longrightarrow> efa_post_send mem ahs q wrs tr = Some (err, bad, q', tr') \<Longrightarrow>
    qp_step dr c w (w\<lparr>w_qps := (w_qps w)(p \<mapsto> q')\<rparr>)"
| post_recv: "w_qps w p = Some q \<Longrightarrow> efa_post_recv q rwrs tr = Some (err, rbad, q', tr') \<Longrightarrow>
    qp_step dr c w (w\<lparr>w_qps := (w_qps w)(p \<mapsto> q')\<rparr>)"
| poll: "w_ctxs w c = Some ctx \<Longrightarrow> w_cqs w a = Some cq \<Longrightarrow>
    efa_poll_cq ctx cq (w_qps w) n wcs = Some (ret, cq', qps', wcs') \<Longrightarrow>
    qp_step dr c w (w\<lparr>w_cqs := (w_cqs w)(a \<mapsto> cq'), w_qps := qps'\<rparr>)"
| start_poll: "w_ctxs w c = Some ctx \<Longrightarrow> w_cqs w a = Some cq \<Longrightarrow>
    efa_start_poll ctx cq (w_qps w) m = Some (ret, cq', qps') \<Longrightarrow>
    qp_step dr c w (w\<lparr>w_cqs := (w_cqs w)(a \<mapsto> cq'), w_qps := qps'\<rparr>)"
| next_poll: "w_ctxs w c = Some ctx \<Longrightarrow> w_cqs w a = Some cq \<Longrightarrow>
    efa_next_poll ctx cq (w_qps w) = Some (ret, cq', qps') \<Longrightarrow>
    qp_step dr c w (w\<lparr>w_cqs := (w_cqs w)(a \<mapsto> cq'), w_qps := qps'\<rparr>)"
| end_poll: "w_cqs w a = Some cq \<Longrightarrow> efa_end_poll cq (w_qps w) = Some (cq', qps') \<Longrightarrow>
    qp_step dr c w (w\<lparr>w_cqs := (w_cqs w)(a \<mapsto> cq'), w_qps := qps'\<rparr>)"
| device: "w_cqs w a = Some cq \<Longrightarrow>
    qp_step dr c w (w\<lparr>w_cqs := (w_cqs w)(a \<mapsto> cq\<lparr>cq_buf := buf\<rparr>)\<rparr>)"

text \<open>The invariant, on the world.\<close>

definition registered :: "ptr \<Rightarrow> 'd world \<Rightarrow> bool" where
  "registered c w \<longleftrightarrow>
     (\<exists>ctx tbl. w_ctxs w c = Some ctx \<and> qp_table ctx = Live tbl \<and>
        length tbl = unat (qp_table_sz_m1 ctx) + 1 \<and>
        registry (qp_table_sz_m1 ctx) tbl c (up_view (qp_view w)) (cq_view w)) \<and>
     (\<forall>p v. qp_view w p = Some v \<longrightarrow> id_sized v)"

lemma registeredE:
  assumes "registered c w"
  obtains ctx tbl where "w_ctxs w c = Some ctx" "qp_table ctx = Live tbl"
    "length tbl = unat (qp_table_sz_m1 ctx) + 1"
    "registry (qp_table_sz_m1 ctx) tbl c (up_view (qp_view w)) (cq_view w)"
    "\<And>p v. qp_view w p = Some v \<Longrightarrow> id_sized v"
  using assms unfolding registered_def by blast

lemma up_view_some: "w_qps w p = Some q \<Longrightarrow> qp_up q \<Longrightarrow> up_view (qp_view w) p = Some (ident q)"
  by (simp add: up_view_def qp_view_def ident_def)

lemma up_viewD: "up_view (qp_view w) p = Some v \<Longrightarrow> \<exists>q. w_qps w p = Some q \<and> qp_up q \<and> v = ident q"
  by (auto simp: up_view_def qp_view_def ident_def split: option.splits if_splits)

lemma up_view_iff: "up_view (qp_view w) p = Some v \<longleftrightarrow> (\<exists>q. w_qps w p = Some q \<and> qp_up q \<and> v = ident q)"
  using up_viewD up_view_some by blast

lemma up_view_upd: "up_view (V(p \<mapsto> v)) = (up_view V)(p := (if id_up v then Some v else None))"
  by (auto simp: up_view_def fun_eq_iff)

lemma up_view_del: "up_view (V(p := None)) = (up_view V)(p := None)"
  by (auto simp: up_view_def fun_eq_iff)

lemma registered_cong:
  assumes "registered c w" and "w_ctxs w' = w_ctxs w" and "qp_view w' = qp_view w"
    and "cq_view w' = cq_view w"
  shows "registered c w'"
  using assms by (auto simp: registered_def)

lemma qp_view_upd:
  assumes "w_qps w p = Some q" "ident q' = ident q"
  shows "qp_view (w\<lparr>w_qps := (w_qps w)(p \<mapsto> q')\<rparr>) = qp_view w"
  using assms by (auto simp: qp_view_def fun_eq_iff)

lemma views_poll:
  assumes "w_cqs w a = Some cq" "idents qps' = idents (w_qps w) \<and> ref_cnts cq' = ref_cnts cq"
  shows "qp_view (w\<lparr>w_cqs := (w_cqs w)(a \<mapsto> cq'), w_qps := qps'\<rparr>) = qp_view w"
    and "cq_view (w\<lparr>w_cqs := (w_cqs w)(a \<mapsto> cq'), w_qps := qps'\<rparr>) = cq_view w"
  using assms by (auto simp: qp_view_def cq_view_def idents_def ref_cnts_def fun_eq_iff)

lemma map_upd_nth:
  "(map g xs)[i := f (g (xs ! i))] = (map g xs)[i := f (map g xs ! i)]"
  by (cases "i < length xs") (simp_all add: list_update_beyond)

lemma cq_view_bump:
  assumes "w_cqs w' = bump_at f a i (w_cqs w)"
  shows "cq_view w' = bump_count f (a, i) (cq_view w)"
  using assms
  by (auto simp: cq_view_def bump_at_def bump_count_def fun_eq_iff map_update map_upd_nth
      split: option.splits)

lemma has_count_view: "has_count (cq_view w) (a, i) = has_sub (w_cqs w) a i"
  by (auto simp: has_count_def has_sub_def cq_view_def)

lemma modified_ident [simp]: "ident (modified_qp attr msk q) = ident q"
  by (simp add: modified_qp_def ident_def sq_sub_def rq_sub_def qp_up_def qp_sized_def efa_qp_init_indices_def
      init_wq_indices_def Let_def)

lemma ctxs_view: "w_ctxs w c = Some ctx \<Longrightarrow> w' = w\<lparr>w_drv := d, w_ctxs := x, w_cqs := y, w_qps := z\<rparr> \<Longrightarrow>
    w_ctxs w' = x \<and> w_cqs w' = y \<and> w_qps w' = z"
  by simp

lemma errno_views: "w' = w\<lparr>w_drv := d, w_errno := e\<rparr> \<Longrightarrow>
    w_ctxs w' = w_ctxs w \<and> qp_view w' = qp_view w \<and> cq_view w' = cq_view w"
  by (simp add: qp_view_def cq_view_def)

lemma registered_create:
  assumes R: "registered c w" and pub: "published c ctx tbl p q w w'"
    and ctx: "w_ctxs w c = Some ctx" "qp_table ctx = Live tbl" "w_qps w p = None"
      "qp_context_ptr (verbs_qp q) = Some c" "tbl ! qp_slot ctx (qp_num (verbs_qp q)) = None"
    and up: "qp_up q" "qp_sized q"
  shows "registered c w'"
proof -
  from R ctx have r: "length tbl = unat (qp_table_sz_m1 ctx) + 1"
    "registry (qp_table_sz_m1 ctx) tbl c (up_view (qp_view w)) (cq_view w)"
    "\<And>p v. qp_view w p = Some v \<Longrightarrow> id_sized v" by (auto simp: registered_def)
  have subs: "has_sub (w_cqs w) (qp_send_cq (verbs_qp q)) (sq_sub q)"
    "has_sub (w_cqs w) (qp_recv_cq (verbs_qp q)) (rq_sub q)"
    and w': "w' = w\<lparr>w_drv := w_drv w', w_ctxs := (w_ctxs w)(c \<mapsto>
         ctx\<lparr>qp_table := Live (tbl[qp_slot ctx (qp_num (verbs_qp q)) := Some p])\<rparr>),
       w_cqs := bump_at (\<lambda>n. n + 1) (qp_recv_cq (verbs_qp q)) (rq_sub q)
                  (bump_at (\<lambda>n. n + 1) (qp_send_cq (verbs_qp q)) (sq_sub q) (w_cqs w)),
       w_qps := (w_qps w)(p \<mapsto> q)\<rparr>"
    using pub unfolding published_def by blast+
  note f = ctxs_view [OF ctx(1) w']
  define w1 where "w1 = w\<lparr>w_cqs := bump_at (\<lambda>n. n + 1) (qp_send_cq (verbs_qp q)) (sq_sub q) (w_cqs w)\<rparr>"
  have "cq_view w' = bump_count (\<lambda>n. n + 1) (id_recv (ident q)) (cq_view w1)"
    using cq_view_bump [of w' _ _ _ w1] f by (simp add: w1_def ident_def)
  moreover have "cq_view w1 = bump_count (\<lambda>n. n + 1) (id_send (ident q)) (cq_view w)"
    using cq_view_bump [of w1 _ _ _ w] by (simp add: w1_def ident_def)
  moreover have V: "qp_view w' = (qp_view w)(p \<mapsto> ident q)"
    using f by (auto simp: qp_view_def fun_eq_iff)
  moreover have "up_view (qp_view w') = (up_view (qp_view w))(p \<mapsto> ident q)"
    unfolding V up_view_upd using up(1) by (simp add: ident_def)
  moreover have "registry (qp_table_sz_m1 ctx) (tbl[qp_slot ctx (qp_num (verbs_qp q)) := Some p]) c
      ((up_view (qp_view w))(p \<mapsto> ident q)) (bump_count (\<lambda>n. n + 1) (id_recv (ident q))
        (bump_count (\<lambda>n. n + 1) (id_send (ident q)) (cq_view w)))"
    using registry_add [OF r(2), of p "ident q"] ctx subs r(1) qp_slot_le [of ctx "qp_num (verbs_qp q)"]
    by (simp add: ident_def qp_slot_def has_count_view qp_view_def up_view_def)
  ultimately show ?thesis using f r(1,3) up(2) by (auto simp: registered_def ident_def split: if_splits)
qed

text \<open>
  A destruction that returns has taken the queue pair down: the object is gone when the driver
  agreed, and has lost its arrays when it did not. It cannot have been down before.
\<close>

lemma sq_terminate_down:
  assumes "efa_sq_terminate q = Some q'" and "qp_sized q"
  shows "qp_up q \<and> \<not> qp_up q' \<and> qp_sized q'"
  using assms
  by (cases "local_queue (qp_sq q)")
    (auto simp: efa_sq_terminate_def efa_wq_terminate_def qp_up_def qp_sized_def Option.bind_eq_Some_conv Let_def)

lemma rq_terminate_sq: "efa_rq_terminate q = Some q' \<Longrightarrow> qp_sq q' = qp_sq q"
  by (auto simp: efa_rq_terminate_def Option.bind_eq_Some_conv split: if_splits)

lemma teardown_down:
  assumes "teardown_qp dr p q w = Some (err, w')" and "qp_sized q"
  obtains d q2 where "w' = w\<lparr>w_drv := d, w_qps := (w_qps w)(p := (if err = 0 then None else Some q2))\<rparr>"
    "\<not> qp_up q2" "qp_sized q2"
proof -
  from assms(1) obtain q1 q2 where t: "efa_sq_terminate q = Some q1" "efa_rq_terminate q1 = Some q2"
    by (auto simp: teardown_qp_def Option.bind_eq_Some_conv)
  define w1 where "w1 = w\<lparr>w_qps := (w_qps w)(p \<mapsto> q2)\<rparr>"
  obtain e w2 where c: "ibv_cmd_destroy_qp dr p w1 = Some (e, w2)"
    "(if e \<noteq> 0 then Some (e, w2) else do { h \<leftarrow> free_at (w_qps w2) p; Some (0, w2\<lparr>w_qps := h\<rparr>) }) = Some (err, w')"
    using assms(1) t by (auto simp: teardown_qp_def Option.bind_eq_Some_conv w1_def Let_def)
  obtain d where "w2 = w1\<lparr>w_drv := d\<rparr>" by (rule cmd_destroy_qp_cases [OF c(1)])
  then have w': "w' = w\<lparr>w_drv := d, w_qps := (w_qps w)(p := (if err = 0 then None else Some q2))\<rparr>"
    using c(2) by (auto simp: w1_def split: if_splits)
  show ?thesis
    using that [OF w'] sq_terminate_down [OF t(1) assms(2)] rq_terminate_sq [OF t(2)]
    by (simp add: qp_up_def qp_sized_def)
qed

lemma destroy_terminates:
  assumes "efa_destroy_qp dr p w = Some x" "w_qps w p = Some q"
  shows "efa_sq_terminate q \<noteq> None"
  using assms unfolding efa_destroy_qp_def Let_def by (auto simp: Option.bind_eq_Some_conv)

lemma registered_destroy:
  assumes R: "registered c w" and run: "efa_destroy_qp dr p w = Some (err, w')"
  shows "registered c w'"
  using R
proof (rule registeredE, goal_cases)
  case r: (1 ctx tbl)
  obtain q where q: "w_qps w p = Some q" using run by (auto simp: efa_destroy_qp_def Option.bind_eq_Some_conv)
  have cnt: "qp_sized q" using r(5) [of p "ident q"] q by (simp add: qp_view_def ident_def)
  have "qp_up q" using destroy_terminates [OF run q] sq_terminate_down [OF _ cnt] by blast
  then have v: "up_view (qp_view w) p = Some (ident q)" using q by (simp add: up_view_some)
  from registryD(2) [OF r(4) v] have i: "qp_context_ptr (verbs_qp q) = Some c"
    "has_sub (w_cqs w) (qp_send_cq (verbs_qp q)) (sq_sub q)"
    "has_sub (w_cqs w) (qp_recv_cq (verbs_qp q)) (rq_sub q)"
    by (simp_all add: ident_def has_count_view)
  have "qp_slot ctx (qp_num (verbs_qp q)) < length tbl" using r(3) by simp
  from destroy_qp_run [OF q i(1) r(1,2) this i(2,3), of dr] run
  have "teardown_qp dr p q (unpublished q c ctx tbl w) = Some (err, w')" by simp
  then show ?case using cnt
  proof (rule teardown_down, goal_cases)
    case w': (1 d q2)
    define w1 where "w1 = w\<lparr>w_cqs := bump_at (\<lambda>n. n - 1) (qp_send_cq (verbs_qp q)) (sq_sub q) (w_cqs w)\<rparr>"
    have "cq_view w' = bump_count (\<lambda>n. n - 1) (id_recv (ident q)) (cq_view w1)"
      using cq_view_bump [of w' _ _ _ w1] by (simp add: w' unpublished_def w1_def ident_def)
    moreover have "cq_view w1 = bump_count (\<lambda>n. n - 1) (id_send (ident q)) (cq_view w)"
      using cq_view_bump [of w1 _ _ _ w] by (simp add: w1_def ident_def)
    moreover have V: "qp_view w' = (qp_view w)(p := (if err = 0 then None else Some (ident q2)))"
      by (auto simp: w'(1) unpublished_def qp_view_def fun_eq_iff)
    then have "up_view (qp_view w') = (up_view (qp_view w))(p := None)"
      using w'(2) by (simp add: up_view_upd up_view_del ident_def)
    moreover have "id_sized v'" if "qp_view w' p' = Some v'" for p' v'
      using that V r(5) [of p' v'] w'(3) by (auto simp: ident_def split: if_splits)
    moreover note registry_del [OF r(4) v]
    ultimately show ?case using r(1-3)
      by (simp add: registered_def w'(1) unpublished_def) (simp add: ident_def qp_slot_def)
  qed
qed

lemma registered_step: "qp_step dr c w w' \<Longrightarrow> registered c w \<Longrightarrow> registered c w'"
proof (induction rule: qp_step.induct)
  case (create ctx tbl edev attr efa_attr w al p r attr' w')
  have ctx: "w_ctxs w c = Some ctx" "qp_table ctx = Live tbl"
    using create.hyps(1) unfolding create_env_def by blast+
  obtain pd where pd: "deref (w_pds w) (iax_pd attr) = Some pd" "edev_at w (pd_context pd) = Some edev"
    using create.hyps(1) unfolding create_env_def by (metis (no_types))
  show ?case
  proof (cases r)
    case None
    have "w' = w\<lparr>w_drv := w_drv w', w_errno := w_errno w'\<rparr>"
      using create_qp_failure [OF create.hyps(6) [unfolded None] _ pd] create.hyps(3,4) by auto
    from errno_views [OF this] show ?thesis by (intro registered_cong [OF create.prems]) simp_all
  next
    case (Some p')
    show ?thesis
    proof (rule create_qp_success [OF create.hyps(6) [unfolded Some] create.hyps(1-5)], goal_cases)
      case (1 q k j)
      have "qp_up q" "qp_sized q"
        using 1(3) by (auto simp: sq_fresh_def sq_geom_def qp_up_def qp_sized_def word_eq_2_power_ne)
      then show ?case
        by (rule registered_create [OF create.prems 1(2) ctx create.hyps(4) 1(6)
              create.hyps(7) [OF published_qp [OF 1(2)]]])
    qed
  qed
next
  case (modify p qattr msk w err w')
  from modify.hyps show ?case
  proof (rule modify_qp_cases, goal_cases)
    case (1 q edev d)
    then have "qp_view w' = qp_view w" by (auto simp: qp_view_def fun_eq_iff)
    then show ?case using 1(4) modify.prems by (auto intro!: registered_cong [of c w] simp: cq_view_def)
  qed
next
  case (destroy p w w')
  then show ?case by (blast intro: registered_destroy)
next
  case (post_send w p q mem ahs wrs tr err bad q' tr')
  show ?case
    by (rule registered_cong [OF post_send.prems])
      (simp_all add: qp_view_upd [OF post_send.hyps(1) post_send_ident [OF post_send.hyps(2)]] cq_view_def)
next
  case (post_recv w p q rwrs tr err rbad q' tr')
  show ?case
    by (rule registered_cong [OF post_recv.prems])
      (simp_all add: qp_view_upd [OF post_recv.hyps(1) post_recv_ident [OF post_recv.hyps(2)]] cq_view_def)
next
  case (poll w ctx a cq n wcs ret cq' qps' wcs')
  show ?case
    by (rule registered_cong [OF poll.prems])
      (simp_all add: views_poll [OF poll.hyps(2) poll_idents(1) [OF poll.hyps(3)]])
next
  case (start_poll w ctx a cq m ret cq' qps')
  show ?case
    by (rule registered_cong [OF start_poll.prems])
      (simp_all add: views_poll [OF start_poll.hyps(2) poll_idents(2) [OF start_poll.hyps(3)]])
next
  case (next_poll w ctx a cq ret cq' qps')
  show ?case
    by (rule registered_cong [OF next_poll.prems])
      (simp_all add: views_poll [OF next_poll.hyps(2) poll_idents(3) [OF next_poll.hyps(3)]])
next
  case (end_poll w a cq cq' qps')
  show ?case
    by (rule registered_cong [OF end_poll.prems])
      (simp_all add: views_poll [OF end_poll.hyps(1) poll_idents(4) [OF end_poll.hyps(2)]])
next
  case (device w a cq buf)
  then show ?case
    by (auto intro!: registered_cong [OF device.prems] simp: qp_view_def cq_view_def fun_eq_iff)
qed

section \<open>Every reachable world\<close>

text \<open>A context before its first queue pair.\<close>

definition no_qps :: "ptr \<Rightarrow> 'd world \<Rightarrow> bool" where
  "no_qps c w \<longleftrightarrow> w_qps w = Map.empty \<and>
     (\<exists>ctx tbl. w_ctxs w c = Some ctx \<and> qp_table ctx = Live tbl \<and>
        length tbl = unat (qp_table_sz_m1 ctx) + 1 \<and> set tbl = {None}) \<and>
     (\<forall>a cq. w_cqs w a = Some cq \<longrightarrow> (\<forall>s \<in> set (sub_cq_arr cq). sub_ref_cnt s = 0))"

lemma registered_init:
  assumes "no_qps c w"
  shows "registered c w"
proof -
  obtain ctx tbl where c: "w_ctxs w c = Some ctx" "qp_table ctx = Live tbl"
    "length tbl = unat (qp_table_sz_m1 ctx) + 1" "set tbl = {None}"
    using assms unfolding no_qps_def by blast
  have V: "qp_view w = Map.empty" "up_view Map.empty = Map.empty"
    using assms by (auto simp: no_qps_def qp_view_def up_view_def)
  have "registry (qp_table_sz_m1 ctx) tbl c Map.empty (cq_view w)"
    unfolding registry_def
  proof (intro conjI allI impI, goal_cases)
    case (6 i p)
    then show ?case using c(4) nth_mem [of i tbl] by auto
  next
    case (7 a ns i)
    then obtain cq where cq: "w_cqs w a = Some cq" "ns = map sub_ref_cnt (sub_cq_arr cq)"
      by (auto simp: cq_view_def)
    then have "sub_ref_cnt (sub_cq_arr cq ! i) = 0"
      using assms 7(2) nth_mem [of i "sub_cq_arr cq"] by (auto simp: no_qps_def)
    then show ?case using cq 7(2) by (simp add: count_of_def users_def)
  qed simp_all
  then show ?thesis using c V unfolding registered_def by auto
qed

lemma registered_reachable:
  assumes "rtranclp (qp_step dr c) w w'" and "no_qps c w"
  shows "registered c w'"
  using assms(1) by (induction) (auto intro: registered_init [OF assms(2)] registered_step)

text \<open>
  The receive and send queues, of queue pairs that are up, that complete into sub-queue \<open>i\<close> of the
  completion queue at \<open>a\<close>.
\<close>

definition senders :: "'d world \<Rightarrow> ptr \<Rightarrow> nat \<Rightarrow> ptr set" where
  "senders w a i =
     {p. \<exists>q. w_qps w p = Some q \<and> qp_up q \<and> qp_send_cq (verbs_qp q) = Some a \<and> sq_sub q = i}"

definition receivers :: "'d world \<Rightarrow> ptr \<Rightarrow> nat \<Rightarrow> ptr set" where
  "receivers w a i =
     {p. \<exists>q. w_qps w p = Some q \<and> qp_up q \<and> qp_recv_cq (verbs_qp q) = Some a \<and> rq_sub q = i}"

lemma users_eq:
  "users id_send (up_view (qp_view w)) a i = senders w a i"
  "users id_recv (up_view (qp_view w)) a i = receivers w a i"
  by (auto simp: users_def senders_def receivers_def up_view_iff ident_def)

lemma destroy_down_undefined:
  assumes "w_qps w p = Some q" "\<not> qp_up q" "qp_sized q"
  shows "efa_destroy_qp dr p w = None"
proof (cases "efa_destroy_qp dr p w")
  case (Some x)
  then obtain q' where "efa_sq_terminate q = Some q'" using destroy_terminates [OF Some assms(1)] by blast
  then show ?thesis using sq_terminate_down assms(2,3) by blast
qed

text \<open>
  C27: the table and the counts of a context are what its queue pairs determine, in every world
  that a sequence of calls reaches from a context without queue pairs: creations whose sizes fit
  (\<open>cap_fits\<close>) and for which the driver assigns existing sub-queues and a number whose slot is free,
  modifications, destructions whether the driver grants or refuses them, posts and polls. Every
  queue pair that is up stands in the slot of its number; every slot in use holds a queue pair
  that is up and has that slot; every sub-queue's reference count is the number of send and
  receive queues, of queue pairs that are up, that complete into it. An object a refused
  destruction left behind is not up: it is in no slot and no count, and cannot be destroyed again.
\<close>

theorem qp_registry_invariant:
  assumes "no_qps c w" and "rtranclp (qp_step dr c) w w'"
  shows "\<exists>ctx tbl. w_ctxs w' c = Some ctx \<and> qp_table ctx = Live tbl \<and>
    length tbl = unat (qp_table_sz_m1 ctx) + 1 \<and>
    (\<forall>p q. w_qps w' p = Some q \<longrightarrow>
       (if qp_up q then tbl ! qp_slot ctx (qp_num (verbs_qp q)) = Some p
        else Some p \<notin> set tbl \<and> (\<forall>dr'. efa_destroy_qp dr' p w' = None))) \<and>
    (\<forall>i < length tbl. \<forall>p. tbl ! i = Some p \<longrightarrow>
       (\<exists>q. w_qps w' p = Some q \<and> qp_up q \<and> qp_slot ctx (qp_num (verbs_qp q)) = i)) \<and>
    (\<forall>a cq i. w_cqs w' a = Some cq \<longrightarrow> i < length (sub_cq_arr cq) \<longrightarrow>
       sub_ref_cnt (sub_cq_arr cq ! i) = of_nat (card (senders w' a i)) + of_nat (card (receivers w' a i)))"
  using registered_reachable [OF assms(2,1)]
proof (rule registeredE, goal_cases)
  case r: (1 ctx tbl)
  have held: "\<exists>q. w_qps w' p = Some q \<and> qp_up q \<and> qp_slot ctx (qp_num (verbs_qp q)) = i"
    if "i < length tbl" "tbl ! i = Some p" for i p
    using registryD(3) [OF r(4) that] by (auto simp: ident_def qp_slot_def dest!: up_viewD)
  show ?case
  proof (rule exI [of _ ctx], rule exI [of _ tbl], intro conjI allI impI, goal_cases)
    case (4 p q)
    show ?case
    proof (cases "qp_up q")
      case True
      then show ?thesis using registryD(2) [OF r(4) up_view_some [OF 4 True]] by (simp add: ident_def qp_slot_def)
    next
      case False
      then have "Some p \<notin> set tbl" using held 4 by (fastforce simp: in_set_conv_nth)
      moreover have "qp_sized q" using r(5) [of p "ident q"] 4 by (simp add: qp_view_def ident_def)
      ultimately show ?thesis using False destroy_down_undefined [OF 4 False] by simp
    qed
  next
    case (5 i p)
    then show ?case by (rule held)
  next
    case (6 a cq i)
    then show ?case
      using registryD(4) [OF r(4), of a "map sub_ref_cnt (sub_cq_arr cq)" i]
      by (simp add: cq_view_def count_of_def users_eq)
  qed (use r in simp_all)
qed

text \<open>One creation on the reference context.\<close>

lemma ref_no_qps: "no_qps 0 (ref_world r)"
  unfolding no_qps_def
  by (auto simp: ref_world_def ref_ctx_def ref_cq_def zero_cq_def split: if_splits)

lemma ref_step:
  assumes subs: "sub_cqs_exist dr (w_cqs (ref_world False)) (ia_send_cq (iax_base ref_attr))
      (ia_recv_cq (iax_base ref_attr))"
    and run: "create_qp dr (ref_allocs False) (Some 0) ref_attr None (ref_world False) = Some (r, attr', w1)"
  shows "qp_step dr 0 (ref_world False) w1"
proof (rule qp_step.create [OF ref_env ref_fits ref_al subs run])
  fix q
  have "qp_slot ref_ctx (qp_num (verbs_qp q)) < Suc (unat (qp_table_sz_m1 ref_ctx))" by (rule qp_slot_le)
  then show "replicate 4 None ! qp_slot ref_ctx (qp_num (verbs_qp q)) = None"
    by (simp add: ref_ctx_def)
qed

lemma ref_up:
  assumes "create_qp ref_driver (ref_allocs False) (Some 0) ref_attr None (ref_world False) =
    Some (Some 4, attr', w1)"
  obtains q where "w_qps w1 4 = Some q" "qp_up q"
proof (rule create_qp_success [OF assms ref_env ref_fits ref_al ref_subs], goal_cases)
  case (1 q k j)
  then show ?case using that [of q] published_qp [OF 1(3)] by (auto simp: sq_fresh_def qp_up_def)
qed

text \<open>A driver that grants every queue pair and refuses to destroy any.\<close>

definition keeping_driver :: "ref_state driver" where
  "keeping_driver = ref_driver\<lparr>IOCTL_EFA_DESTROY_QP := (\<lambda>h i n out d. (refused out, d))\<rparr>"

lemma keeping_asked: "asked_qp keeping_driver = asked_qp ref_driver"
  by (simp add: asked_qp_def keeping_driver_def fun_eq_iff)

lemma keeping_subs:
  "sub_cqs_exist keeping_driver (w_cqs (ref_world r)) (ia_send_cq (iax_base ref_attr))
     (ia_recv_cq (iax_base ref_attr))"
  using ref_subs [of r] by (simp add: sub_cqs_exist_def keeping_asked)

lemma keeping_created:
  obtains attr' w1 where "create_qp keeping_driver (ref_allocs False) (Some 0) ref_attr None
    (ref_world False) = Some (Some 4, attr', w1)"
proof -
  have "rq_allocs_ok (ref_allocs False)" "sq_allocs_ok (ref_allocs False)" "w_drv (ref_world False) = ref_state0 False"
    by (simp_all add: rq_allocs_ok_def sq_allocs_ok_def ref_allocs_def ref_world_def)
  then have "\<exists>attr' w1. create_qp keeping_driver (ref_allocs False) (Some 0) ref_attr None
      (ref_world False) = Some (Some 4, attr', w1)"
    using create_qp_outcome [OF ref_env ref_fits ref_al keeping_subs, of False False]
    unfolding keeping_asked by (elim exE conjE) (auto dest!: ref_granted split: if_splits)
  then show ?thesis using that by blast
qed

lemmas keeping_step = ref_step [OF keeping_subs]

lemma keeping_refuses:
  assumes run: "create_qp keeping_driver (ref_allocs False) (Some 0) ref_attr None (ref_world False) =
    Some (Some 4, attr', w1)"
  obtains w2 q2 where "efa_destroy_qp keeping_driver 4 w1 = Some (5, w2)" "w_qps w2 4 = Some q2" "\<not> qp_up q2"
proof (rule create_qp_success [OF run ref_env ref_fits ref_al keeping_subs], goal_cases)
  case (1 q k j)
  have q: "w_qps w1 4 = Some q" by (rule published_qp [OF 1(3)])
  have edev: "edev_at w1 (Some 0) = Some ref_dev"
    using published_env [OF 1(3)] by (simp add: edev_at_def ref_world_def ref_ctx_def)
  obtain q1 q2 where t: "efa_sq_terminate q = Some q1" "efa_rq_terminate q1 = Some q2" "verbs_qp q2 = verbs_qp q"
    by (rule terminate_fresh [OF 1(4,5)])
  have sized: "qp_sized q" using 1(4) by (auto simp: sq_fresh_def sq_geom_def qp_sized_def word_eq_2_power_ne)
  have up: "qp_up q" using sq_terminate_down [OF t(1) sized] by blast
  have down: "\<not> qp_up q2" using sq_terminate_down [OF t(1) sized] rq_terminate_sq [OF t(2)] by (simp add: qp_up_def)
  have R: "registered 0 w1" by (rule registered_step [OF keeping_step [OF run] registered_init [OF ref_no_qps]])
  show ?case
    using R
  proof (rule registeredE, goal_cases)
    case r: (1 ctx tbl)
    from registryD(2) [OF r(4) up_view_some [OF q up]] have
      "has_sub (w_cqs w1) (qp_send_cq (verbs_qp q)) (sq_sub q)"
      "has_sub (w_cqs w1) (qp_recv_cq (verbs_qp q)) (rq_sub q)"
      by (simp_all add: ident_def has_count_view)
    moreover have "qp_slot ctx (qp_num (verbs_qp q)) < length tbl" using r(3) by simp
    moreover have "released_qp keeping_driver (wd_Device (dev_device ref_dev)) (qp_handle (verbs_qp q)) (w_drv w1)
        (refused ()) (w_drv w1)" by (simp add: released_qp_def keeping_driver_def)
    ultimately obtain w2 where "efa_destroy_qp keeping_driver 4 w1 = Some (5, w2)" "w_qps w2 4 = Some q2"
      using destroy_qp_eq [OF q 1(7) r(1,2) _ _ _ t edev, of keeping_driver "refused ()" "w_drv w1"] by auto
    then show ?case using that down by blast
  qed
qed

text \<open>A creation, and a destruction that the driver refuses.\<close>

theorem qp_registry_invariant_witness:
  "\<exists>attr' w1 w2 ctx tbl q. create_qp keeping_driver (ref_allocs False) (Some 0) ref_attr None (ref_world False) =
       Some (Some 4, attr', w1) \<and> efa_destroy_qp keeping_driver 4 w1 = Some (5, w2) \<and>
     w_ctxs w2 0 = Some ctx \<and> qp_table ctx = Live tbl \<and> w_qps w2 4 = Some q \<and> Some 4 \<notin> set tbl \<and>
     efa_destroy_qp keeping_driver 4 w2 = None"
proof -
  obtain attr' w1 where run: "create_qp keeping_driver (ref_allocs False) (Some 0) ref_attr None
      (ref_world False) = Some (Some 4, attr', w1)" by (rule keeping_created)
  obtain w2 q where d: "efa_destroy_qp keeping_driver 4 w1 = Some (5, w2)" "w_qps w2 4 = Some q" "\<not> qp_up q"
    by (rule keeping_refuses [OF run])
  have st: "rtranclp (qp_step keeping_driver 0) (ref_world False) w2"
    using keeping_step [OF run] qp_step.destroy [OF d(1)] by (meson rtranclp.simps)
  obtain ctx tbl where "w_ctxs w2 0 = Some ctx" "qp_table ctx = Live tbl"
    "\<And>p q. w_qps w2 p = Some q \<Longrightarrow> \<not> qp_up q \<Longrightarrow> Some p \<notin> set tbl \<and> (\<forall>dr. efa_destroy_qp dr p w2 = None)"
    using qp_registry_invariant [OF ref_no_qps st] by (elim exE conjE) (simp add: that)
  then show ?thesis using run d by blast
qed

text \<open>
  C28: the polling code never follows a stale pointer out of the table, and matches a completion
  to its queue pair. In every world that the calls of C27 reach, with refused destructions among
  them, a number looked up in the table gives null or the address of a queue pair that is up and
  shares its slot; and looking up the number of a queue pair that is up gives that queue pair, also
  when the one of the previous completion, up as well, is still cached.
\<close>

theorem lookup_finds_live_qp:
  assumes "no_qps c w" and "rtranclp (qp_step dr c) w w'" and "w_ctxs w' c = Some ctx"
    and "\<forall>p. cur = Some p \<longrightarrow> (\<exists>q. w_qps w' p = Some q \<and> qp_up q)"
  shows "(\<forall>n. \<exists>r. lookup_cur_qp ctx (w_qps w') cur n = Some r \<and>
       (\<forall>p. r = Some p \<longrightarrow> (\<exists>q. w_qps w' p = Some q \<and> qp_up q \<and>
          qp_slot ctx (qp_num (verbs_qp q)) = qp_slot ctx n))) \<and>
    (\<forall>p q. w_qps w' p = Some q \<and> qp_up q \<longrightarrow>
       lookup_cur_qp ctx (w_qps w') cur (qp_num (verbs_qp q)) = Some (Some p))"
proof -
  obtain tbl where r: "qp_table ctx = Live tbl" "length tbl = unat (qp_table_sz_m1 ctx) + 1"
    "registry (qp_table_sz_m1 ctx) tbl c (up_view (qp_view w')) (cq_view w')"
    using registered_reachable [OF assms(2,1)] assms(3) unfolding registered_def by auto
  have slot: "tbl ! qp_slot ctx (qp_num (verbs_qp q)) = Some p" if "w_qps w' p = Some q" "qp_up q" for p q
    using registryD(2) [OF r(3) up_view_some [OF that]] by (simp add: ident_def qp_slot_def)
  have held: "\<exists>q. w_qps w' p = Some q \<and> qp_up q \<and> qp_slot ctx (qp_num (verbs_qp q)) = i"
    if "i < length tbl" "tbl ! i = Some p" for i p
    using registryD(3) [OF r(3) that] by (auto simp: ident_def qp_slot_def dest!: up_viewD)
  have get: "cb_get (qp_table ctx) (unat (n AND qp_table_sz_m1 ctx)) = Some (tbl ! qp_slot ctx n)" for n
    using r(2) qp_slot_le [of ctx n] by (simp add: r(1) qp_slot_def)
  have lt: "qp_slot ctx n < length tbl" for n using r(2) by simp
  have tab: "\<forall>p. tbl ! qp_slot ctx n = Some p \<longrightarrow>
      (\<exists>q. w_qps w' p = Some q \<and> qp_up q \<and> qp_slot ctx (qp_num (verbs_qp q)) = qp_slot ctx n)" for n
    using held [OF lt] by blast
  show ?thesis
  proof (cases cur)
    case None
    then have L: "lookup_cur_qp ctx (w_qps w') cur n = Some (tbl ! qp_slot ctx n)" for n
      by (simp add: lookup_cur_qp_def get)
    show ?thesis unfolding L using tab slot by simp
  next
    case (Some p0)
    then obtain q0 where q0: "w_qps w' p0 = Some q0" "qp_up q0" using assms(4) by auto
    have L: "lookup_cur_qp ctx (w_qps w') cur n =
        Some (if n = qp_num (verbs_qp q0) then Some p0 else tbl ! qp_slot ctx n)" for n
      by (simp add: lookup_cur_qp_def get Some q0)
    have same: "tbl ! qp_slot ctx (qp_num (verbs_qp q0)) = Some p0" by (rule slot [OF q0])
    show ?thesis unfolding L
    proof (intro conjI allI impI, goal_cases)
      case (1 n)
      then show ?case using tab [of n] q0 by auto
    next
      case (2 p q)
      then have "tbl ! qp_slot ctx (qp_num (verbs_qp q)) = Some p" using slot by blast
      then show ?case using same by auto
    qed
  qed
qed

theorem lookup_finds_live_qp_witness:
  "\<exists>attr' w1 ctx q. create_qp ref_driver (ref_allocs False) (Some 0) ref_attr None (ref_world False) =
       Some (Some 4, attr', w1) \<and> w_ctxs w1 0 = Some ctx \<and> w_qps w1 4 = Some q \<and>
     lookup_cur_qp ctx (w_qps w1) None (qp_num (verbs_qp q)) = Some (Some 4)"
proof -
  obtain attr' w1 where run: "create_qp ref_driver (ref_allocs False) (Some 0) ref_attr None
      (ref_world False) = Some (Some 4, attr', w1)" using ref_created [of False False] by auto
  obtain q where q: "w_qps w1 4 = Some q" "qp_up q" by (rule ref_up [OF run])
  have st: "rtranclp (qp_step ref_driver 0) (ref_world False) w1"
    by (rule r_into_rtranclp) (rule ref_step [OF ref_subs run])
  obtain ctx where c: "w_ctxs w1 0 = Some ctx"
    using registered_reachable [OF st ref_no_qps] unfolding registered_def by blast
  show ?thesis using lookup_finds_live_qp [OF ref_no_qps st c, of None] run q c by auto
qed

end
