(* ===== verification/Efa_Cq_Rings.thy ===== *)
theory Efa_Cq_Rings
  imports Efa_Cq_Ring
begin

text \<open>
  Several completion rings in one buffer. \<open>create_cq\<close> cuts the buffer of a completion queue into one
  ring per sub-queue, side by side; the device writes each of them and the library reads each of
  them while the others go on. Every ring stays the first-in first-out channel of \<open>Efa_Cq_Ring\<close>,
  since no entry of one ring reaches into another.
\<close>

section \<open>Rings that share a buffer\<close>

text \<open>The rings of a completion queue; all of them show the same memory.\<close>

definition ring_base :: "nat \<Rightarrow> nat \<Rightarrow> nat \<Rightarrow> nat" where
  "ring_base z n i = i * (n * z)"

definition put_ring :: "cq_ring list \<Rightarrow> nat \<Rightarrow> cq_ring \<Rightarrow> cq_ring list" where
  "put_ring rs i r = map (\<lambda>x. x\<lparr>cr_mem := cr_mem r\<rparr>) (rs[i := r])"

text \<open>The device writes an entry into ring \<open>i\<close> when it has room there; the library reads from ring \<open>i\<close>.\<close>

inductive rings_run ::
  "nat \<Rightarrow> nat \<Rightarrow> cq_ring list \<Rightarrow> (nat \<times> u8 list chan_event) list \<Rightarrow> cq_ring list \<Rightarrow> bool"
  for z n where
  rings_nil: "rings_run z n rs [] rs"
| rings_write: "i < length rs \<Longrightarrow> cqe_ok z bs \<Longrightarrow> length (ring_queue (ring_base z n i) z n (rs ! i)) < n \<Longrightarrow>
     rings_run z n (put_ring rs i (dev_complete (ring_base z n i) z n bs (rs ! i))) es rs' \<Longrightarrow>
     rings_run z n rs ((i, Enq bs) # es) rs'"
| rings_read: "i < length rs \<Longrightarrow> lib_poll z (rs ! i) = Some (x, r) \<Longrightarrow>
     rings_run z n (put_ring rs i r) es rs' \<Longrightarrow> rings_run z n rs ((i, Deq x) # es) rs'"

text \<open>The events of one ring.\<close>

definition events_of :: "nat \<Rightarrow> (nat \<times> 'e chan_event) list \<Rightarrow> 'e chan_event list" where
  "events_of i es = map snd (filter (\<lambda>e. fst e = i) es)"

lemma events_of_simps [simp]:
  "events_of i [] = []"
  "events_of i ((j, e) # es) = (if j = i then e # events_of i es else events_of i es)"
  by (simp_all add: events_of_def)

section \<open>A ring does not see what happens outside its part of the buffer\<close>

lemma slot_in_part:
  assumes "0 < n" "x < z"
  shows "base \<le> slot_off base z n j + x \<and> slot_off base z n j + x < base + n * z"
  using slot_off_bound [OF assms(1), of base z j] assms(2) by (auto simp: slot_off_def)

lemma ring_mem_cong:
  assumes inv: "ring_inv base z k n r" and len: "length m = length (cr_mem r)"
    and same: "\<And>x. base \<le> x \<Longrightarrow> x < base + n * z \<Longrightarrow> m ! x = cr_mem r ! x"
  shows "ring_inv base z k n (r\<lparr>cr_mem := m\<rparr>)"
    and "ring_queue base z n (r\<lparr>cr_mem := m\<rparr>) = ring_queue base z n r"
proof -
  have g: "0 < n" "8 \<le> z" "base + n * z \<le> length (cr_mem r)"
    using inv ring_geom_pos by (auto simp: ring_inv_def ring_geom_def)
  have "m ! (slot_off base z n j + 3) = cr_mem r ! (slot_off base z n j + 3)" for j
    using slot_in_part [OF g(1), of 3 z base j] g(2) by (intro same) auto
  then have "slot_phase m (slot_off base z n j) = slot_phase (cr_mem r) (slot_off base z n j)" for j
    by (simp add: slot_phase_def)
  then show "ring_inv base z k n (r\<lparr>cr_mem := m\<rparr>)" using inv by (simp add: ring_inv_def len)
  have "take z (drop (slot_off base z n j) m) = take z (drop (slot_off base z n j) (cr_mem r))" for j
  proof (rule nth_equalityI)
    fix x assume "x < length (take z (drop (slot_off base z n j) m))"
    then have x: "x < z" "slot_off base z n j + x < length m" by auto
    have "m ! (slot_off base z n j + x) = cr_mem r ! (slot_off base z n j + x)"
      using slot_in_part [OF g(1) x(1), of base j] by (intro same) auto
    then show "take z (drop (slot_off base z n j) m) ! x = take z (drop (slot_off base z n j) (cr_mem r)) ! x"
      using x len by simp
  qed (simp add: len)
  then show "ring_queue base z n (r\<lparr>cr_mem := m\<rparr>) = ring_queue base z n r" by (simp add: ring_queue_def)
qed

text \<open>The device writes inside the part of its ring; the library writes nothing.\<close>

lemma dev_complete_frame:
  assumes "0 < n" "length bs = z" "x < length (cr_mem r)" "x < base \<or> base + n * z \<le> x"
  shows "cr_mem (dev_complete base z n bs r) ! x = cr_mem r ! x"
proof (cases "mem_store (slot_off base z n (cr_prod r)) (set_cqe_phase bs (phase_of n (cr_prod r))) (cr_mem r)")
  case (Some m)
  have "x < slot_off base z n (cr_prod r) \<or> slot_off base z n (cr_prod r) + z \<le> x"
    using slot_off_bound [OF assms(1), of base z "cr_prod r"] assms(4) by (auto simp: slot_off_def)
  then have "m ! x = cr_mem r ! x" using assms(2,3) by (subst nth_mem_store [OF Some]) auto
  then show ?thesis using Some by (simp add: dev_complete_def)
qed (simp add: dev_complete_def)

lemma dev_complete_length: "length (cr_mem (dev_complete base z n bs r)) = length (cr_mem r)"
  by (auto simp: dev_complete_def dest: mem_store_length split: option.split)

lemma lib_poll_mem: "lib_poll z r = Some (x, r') \<Longrightarrow> cr_mem r' = cr_mem r"
  by (auto simp: lib_poll_def Option.bind_eq_Some_conv split: option.splits)

lemma bases_apart:
  assumes "i \<noteq> j" "ring_base z n j \<le> x" "x < ring_base z n j + n * z"
  shows "x < ring_base z n i \<or> ring_base z n i + n * z \<le> x"
proof -
  have le: "ring_base z n a + n * z \<le> ring_base z n b" if "a < b" for a b
  proof -
    have "Suc a * (n * z) \<le> b * (n * z)" using that by (intro mult_le_mono1) simp
    then show ?thesis by (simp add: ring_base_def)
  qed
  from assms(1) consider "i < j" | "j < i" by linarith
  then show ?thesis using assms(2,3) le by cases fastforce+
qed

section \<open>Every ring is a channel of its own\<close>

definition rings_inv :: "nat \<Rightarrow> nat \<Rightarrow> nat \<Rightarrow> cq_ring list \<Rightarrow> bool" where
  "rings_inv z k n rs \<longleftrightarrow>
     (\<forall>i < length rs. ring_inv (ring_base z n i) z k n (rs ! i)) \<and>
     (\<forall>i < length rs. \<forall>j < length rs. cr_mem (rs ! i) = cr_mem (rs ! j))"

text \<open>One step of ring \<open>i\<close> that keeps to the part of its ring leaves the others as they are.\<close>

lemma put_ring_inv:
  assumes R: "rings_inv z k n rs" and i: "i < length rs"
    and r: "ring_inv (ring_base z n i) z k n r" "length (cr_mem r) = length (cr_mem (rs ! i))"
    and frame: "\<And>x. x < length (cr_mem (rs ! i)) \<Longrightarrow> x < ring_base z n i \<or> ring_base z n i + n * z \<le> x \<Longrightarrow>
      cr_mem r ! x = cr_mem (rs ! i) ! x"
  shows "rings_inv z k n (put_ring rs i r)" and "put_ring rs i r ! i = r"
    and "j < length rs \<Longrightarrow> j \<noteq> i \<Longrightarrow>
      ring_queue (ring_base z n j) z n (put_ring rs i r ! j) = ring_queue (ring_base z n j) z n (rs ! j)"
proof -
  show here: "put_ring rs i r ! i = r" using i by (simp add: put_ring_def)
  have at: "put_ring rs i r ! j = (rs ! j)\<lparr>cr_mem := cr_mem r\<rparr>" if "j < length rs" "j \<noteq> i" for j
    using that by (simp add: put_ring_def)
  have other: "ring_inv (ring_base z n j) z k n ((rs ! j)\<lparr>cr_mem := cr_mem r\<rparr>)"
      "ring_queue (ring_base z n j) z n ((rs ! j)\<lparr>cr_mem := cr_mem r\<rparr>) = ring_queue (ring_base z n j) z n (rs ! j)"
    if j: "j < length rs" "j \<noteq> i" for j
  proof -
    have inv: "ring_inv (ring_base z n j) z k n (rs ! j)" and m: "cr_mem (rs ! j) = cr_mem (rs ! i)"
      using R i j unfolding rings_inv_def by blast+
    have "ring_base z n j + n * z \<le> length (cr_mem (rs ! j))"
      using inv unfolding ring_inv_def ring_geom_def by blast
    then have "cr_mem r ! x = cr_mem (rs ! j) ! x" if "ring_base z n j \<le> x" "x < ring_base z n j + n * z" for x
      using that frame bases_apart [of i j z n x] j(2) m by simp
    then show "ring_inv (ring_base z n j) z k n ((rs ! j)\<lparr>cr_mem := cr_mem r\<rparr>)"
      "ring_queue (ring_base z n j) z n ((rs ! j)\<lparr>cr_mem := cr_mem r\<rparr>) = ring_queue (ring_base z n j) z n (rs ! j)"
      using ring_mem_cong [OF inv, of "cr_mem r"] r(2) m by simp_all
  qed
  then show "j < length rs \<Longrightarrow> j \<noteq> i \<Longrightarrow>
      ring_queue (ring_base z n j) z n (put_ring rs i r ! j) = ring_queue (ring_base z n j) z n (rs ! j)"
    by (simp add: at)
  have len: "length (put_ring rs i r) = length rs" by (simp add: put_ring_def)
  have "ring_inv (ring_base z n j) z k n (put_ring rs i r ! j)" if "j < length rs" for j
    using that other(1) [of j] at [of j] here r(1) by (cases "j = i") simp_all
  moreover have "cr_mem (put_ring rs i r ! j) = cr_mem r" if "j < length rs" for j
    using that by (simp add: put_ring_def)
  ultimately show "rings_inv z k n (put_ring rs i r)" by (simp add: rings_inv_def len)
qed

lemma rings_fifo:
  assumes "rings_run z n rs es rs'" and "rings_inv z k n rs"
  shows "rings_inv z k n rs' \<and> length rs' = length rs \<and>
    (\<forall>i < length rs. ring_queue (ring_base z n i) z n (rs ! i) @ chan_in (events_of i es) =
       chan_out (events_of i es) @ ring_queue (ring_base z n i) z n (rs' ! i))"
  using assms
proof (induction rule: rings_run.induct)
  case (rings_nil rs)
  then show ?case by simp
next
  case (rings_write i rs bs es rs')
  let ?r = "dev_complete (ring_base z n i) z n bs (rs ! i)"
  have inv: "ring_inv (ring_base z n i) z k n (rs ! i)" using rings_write by (simp add: rings_inv_def)
  then have n: "0 < n" "length bs = z" using ring_geom_pos rings_write.hyps(2)
    by (auto simp: ring_inv_def cqe_ok_def)
  note e = ring_enq [OF inv rings_write.hyps(2,3)]
  note put = put_ring_inv [OF rings_write.prems rings_write.hyps(1) conjunct1 [OF e] dev_complete_length
      dev_complete_frame [OF n]]
  have len: "length (put_ring rs i ?r) = length rs" by (simp add: put_ring_def)
  note IH = rings_write.IH [OF put(1), unfolded len]
  have "ring_queue (ring_base z n j) z n (rs ! j) @ chan_in (events_of j ((i, Enq bs) # es)) =
      chan_out (events_of j ((i, Enq bs) # es)) @ ring_queue (ring_base z n j) z n (rs' ! j)"
    if "j < length rs" for j
    using IH that put(2) put(3) [of j] e by (cases "j = i") auto
  then show ?case using IH by blast
next
  case (rings_read i rs x r es rs')
  have inv: "ring_inv (ring_base z n i) z k n (rs ! i)" using rings_read by (simp add: rings_inv_def)
  have d: "x = (case ring_queue (ring_base z n i) z n (rs ! i) of [] \<Rightarrow> None | y # _ \<Rightarrow> Some y)"
    "ring_inv (ring_base z n i) z k n r"
    "ring_queue (ring_base z n i) z n r = tl (ring_queue (ring_base z n i) z n (rs ! i))"
    using cq_channel.deq_law [OF inv] rings_read.hyps(2) by auto
  have m: "cr_mem r = cr_mem (rs ! i)" by (rule lib_poll_mem [OF rings_read.hyps(2)])
  note put = put_ring_inv [OF rings_read.prems rings_read.hyps(1) d(2)]
  have p: "rings_inv z k n (put_ring rs i r)" "put_ring rs i r ! i = r"
    "\<And>j. j < length rs \<Longrightarrow> j \<noteq> i \<Longrightarrow>
      ring_queue (ring_base z n j) z n (put_ring rs i r ! j) = ring_queue (ring_base z n j) z n (rs ! j)"
    by (rule put; simp add: m)+
  have len: "length (put_ring rs i r) = length rs" by (simp add: put_ring_def)
  note IH = rings_read.IH [OF p(1), unfolded len]
  have "ring_queue (ring_base z n j) z n (rs ! j) @ chan_in (events_of j ((i, Deq x) # es)) =
      chan_out (events_of j ((i, Deq x) # es)) @ ring_queue (ring_base z n j) z n (rs' ! j)"
    if j: "j < length rs" for j
  proof (cases "j = i")
    case True
    then show ?thesis using IH j p(2) d(1,3)
      by (cases "ring_queue (ring_base z n i) z n (rs ! i)") auto
  qed (use IH j p(3) in auto)
  then show ?case using IH by blast
qed

end
