(* ===== verification/Efa_Cq_Contract.thy ===== *)
theory Efa_Cq_Contract
  imports Efa_Cq_Ctl Efa_Cq_Rings Efa_Qp_Sizes Efa_Driver
begin

text \<open>
  The contract of the completion queue's control path: every sub-queue of a created queue is an
  empty ring of \<open>Efa_Cq_Ring\<close> on its own part of the buffer the driver mapped; a failed
  creation leaves nothing behind; destruction undoes creation.
\<close>

section \<open>Cutting the buffer\<close>

lemma init_sub_cqs_eq:
  assumes "length arr = n" and step: "sint (z * sz) = int s"
  shows "init_sub_cqs n sz z arr =
    Some (map (\<lambda>i. efa_sub_cq_initialize (arr ! i) (i * s) sz z) [0..<n])"
proof -
  let ?f = "\<lambda>i (a, buf :: int). do {
           x \<leftarrow> arr_get a i;
           c_assert (0 \<le> buf);
           a \<leftarrow> arr_set a i (efa_sub_cq_initialize x (nat buf) sz z);
           Some (a, buf + sint (z * sz)) }"
  let ?P = "\<lambda>i (a, buf). buf = int (i * s) \<and> length a = n \<and>
      (\<forall>j < i. a ! j = efa_sub_cq_initialize (arr ! j) (j * s) sz z) \<and>
      (\<forall>j. i \<le> j \<longrightarrow> j < n \<longrightarrow> a ! j = arr ! j)"
  have "\<exists>t. for_range 0 n ?f (arr, 0) = Some t \<and> ?P (0 + n) t"
  proof (rule for_range_rule)
    show "?P 0 (arr, 0)" using assms(1) by simp
  next
    fix i t
    assume i: "0 \<le> i" "i < 0 + n" and P: "?P i t"
    obtain a buf where t: "t = (a, buf)" by (cases t)
    let ?a = "a[i := efa_sub_cq_initialize (a ! i) (nat buf) sz z]"
    have "?f i t = Some (?a, buf + int s)"
      using P i by (simp add: t arr_get_def arr_set_def c_assert_def step)
    moreover have "?P (Suc i) (?a, buf + int s)"
      using P i by (auto simp: t less_Suc_eq algebra_simps nat_mult_distrib)
    ultimately show "\<exists>t'. ?f i t = Some t' \<and> ?P (Suc i) t'" by blast
  qed
  then obtain a buf where "for_range 0 n ?f (arr, 0) = Some (a, buf)" "length a = n"
    "\<forall>j < n. a ! j = efa_sub_cq_initialize (arr ! j) (j * s) sz z" by auto
  then show ?thesis by (auto simp: init_sub_cqs_def intro!: nth_equalityI)
qed

section \<open>Creation\<close>

definition asked_cq ::
  "'d driver \<Rightarrow> u64 \<Rightarrow> EFA_CREATE_CQ_PARAMS \<Rightarrow> 'd \<Rightarrow> EFA_CQ_INFO ioctl_reply \<Rightarrow> 'd \<Rightarrow> bool" where
  "asked_cq dr h params d r d' \<longleftrightarrow>
     IOCTL_EFA_CREATE_CQ dr h params sizeof_PEFA_CREATE_CQ_PARAMS zero_CQ_INFO d = (r, d')"

text \<open>
  What the code relies on of a ring the driver grants: a power of two of entries per sub-queue, no
  fewer than asked for (\<open>verbs.h\<close> promises its callers that \<open>cqe\<close> is a minimum), in a cleared mapping
  that has room for the number of sub-queues and the entry size in the request. It says nothing of a context: that the mapping has room for what
  \<open>create_cq\<close> makes of it is a matter of what \<open>ibv_cmd_create_cq_ex\<close> asks for.
\<close>

definition ring_granted :: "nat \<Rightarrow> u16 \<Rightarrow> EFA_CQ_INFO \<Rightarrow> nat \<Rightarrow> nat \<Rightarrow> bool" where
  "ring_granted z nsub info k len \<longleftrightarrow>
     k \<le> 15 \<and> ci_CqActualDepth info = 2 ^ k \<and> ci_CqAddr info = Some (replicate len 0) \<and>
     unat nsub * (2 ^ k * z) \<le> len"

definition rings_ok :: "'d driver \<Rightarrow> bool" where
  "rings_ok dr \<longleftrightarrow>
     (\<forall>h params d r d'. asked_cq dr h params d r d' \<and> ioctl_status r sizeof_EFA_CQ_INFO = 0 \<longrightarrow>
        (\<exists>k len. unat (ccq_CqDepth params) \<le> 2 ^ k \<and>
           ring_granted (unat (ccq_EntrySizeInBytes params)) (ccq_NumSubCqs params) (outBuffer r) k len))"

text \<open>The depth asked for: the least power of two that has room for \<open>n\<close> entries, and at least two.\<close>

definition ring_depth :: "nat \<Rightarrow> nat \<Rightarrow> bool" where
  "ring_depth n m \<longleftrightarrow> 1 \<le> m \<and> m \<le> 15 \<and> n \<le> 2 ^ m \<and> (m = 1 \<or> 2 ^ m < 2 * n)"

text \<open>The request: the depth, and the sub-queues and the entry size of the context.\<close>

definition cq_request :: "efa_context \<Rightarrow> nat \<Rightarrow> nat \<Rightarrow> EFA_CREATE_CQ_PARAMS \<Rightarrow> bool" where
  "cq_request ctx n m params \<longleftrightarrow>
     ring_depth n m \<and> unat (ccq_CqDepth params) = 2 ^ m \<and> ccq_NumSubCqs params = sub_cqs_per_cq ctx \<and>
     unat (ccq_EntrySizeInBytes params) = unat (ctx_cqe_size ctx)"

text \<open>A completion queue with empty rings of \<open>2 ^ k\<close> entries, side by side in its buffer.\<close>

definition cq_fresh :: "nat \<Rightarrow> u16 \<Rightarrow> nat \<Rightarrow> nat \<Rightarrow> efa_cq \<Rightarrow> bool" where
  "cq_fresh z nsub k len c \<longleftrightarrow>
     cq_buf c = Some (replicate len 0) \<and> num_sub_cqs c = nsub \<and> next_poll_idx c = 0 \<and>
     cq_lock c = 0 \<and> length (sub_cq_arr c) = unat nsub \<and>
     (\<forall>i < unat nsub. ring_geom (i * (2 ^ k * z)) z k (2 ^ k) len \<and>
        sub_cq_arr c ! i = cr_sub (ring_start (i * (2 ^ k * z)) z (2 ^ k) len zero_sub_cq))"

definition cq_env :: "ptr \<Rightarrow> efa_context \<Rightarrow> efa_dev \<Rightarrow> ibv_cq_init_attr_ex \<Rightarrow> 'd world \<Rightarrow> bool" where
  "cq_env c ctx edev attr w \<longleftrightarrow>
     w_ctxs w c = Some ctx \<and> edev_at w (Some c) = Some edev \<and>
     unat (ca_cqe attr) \<le> 2 ^ 15 \<and> 8 \<le> unat (ctx_cqe_size ctx) \<and> unat (ctx_cqe_size ctx) \<le> 255"

lemma roundup_depth:
  assumes "unat n \<le> 2 ^ 15"
  obtains a m where "roundup_pow_of_two n = Some a" "unat a = 2 ^ m" "m \<le> 15" "unat n \<le> 2 ^ m"
    "m = 0 \<longrightarrow> n = 0" "m \<le> 1 \<or> 2 ^ m < 2 * unat n"
proof -
  obtain k r where r: "roundup_pow_of_two n = Some r" "unat r = 2 ^ k" "k \<le> 15" "unat n \<le> 2 ^ k" "0 < k \<or> n = 0"
    using roundup_pow_of_two_any [of n 15] assms by auto
  have "k \<le> 1 \<or> 2 ^ k < 2 * unat n"
  proof (cases "2 \<le> unat n")
    case True
    then show ?thesis using roundup_pow_of_two_returns [of n] assms r(1,2) by fastforce
  next
    case False
    then consider "n = 0" | "n = 1" by (metis One_nat_def less_2_cases not_le unat_eq_zero unsigned_1 word_unat_eq_iff)
    then have "(2 :: nat) ^ k < 2 ^ 2"
      using r(1,2) by cases (auto simp: roundup_pow_of_two_0 roundup_pow_of_two_1)
    then show ?thesis using power_less_imp_less_exp [of "2 :: nat" k 2] by simp
  qed
  then show ?thesis using that r by auto
qed

lemma roundup_twice:
  assumes "unat n \<le> 2 ^ 15"
  obtains a b m where "roundup_pow_of_two (ucast (n :: u32)) = Some a"
    "roundup_pow_of_two (ucast (ucast a :: u32)) = Some b" "unat b = 2 ^ m" "ring_depth (unat n) m"
proof -
  have n: "unat (ucast n :: u64) = unat n" by (simp add: unat_ucast_widen)
  obtain a k where a: "roundup_pow_of_two (ucast n) = Some a" "unat a = 2 ^ k" "k \<le> 15" "unat n \<le> 2 ^ k"
    "k = 0 \<longrightarrow> unat n = 0" "k \<le> 1 \<or> 2 ^ k < 2 * unat n"
    using roundup_depth [of "ucast n"] assms n by (metis unsigned_0)
  have p: "(2 :: nat) ^ k \<le> 2 ^ 15" using a(3) by (intro power_increasing) simp_all
  have "(ucast a :: u32) = 2 ^ k" using a by (intro ucast_pow2) simp_all
  then have u: "unat (ucast (ucast a :: u32) :: u64) = 2 ^ k"
    using a(3) by (simp add: unat_ucast_widen unat_2_power)
  then have le: "unat (ucast (ucast a :: u32) :: u64) \<le> 2 ^ 15" using p by simp
  obtain b j where b: "roundup_pow_of_two (ucast (ucast a :: u32)) = Some b" "unat b = 2 ^ j" "j \<le> 15"
    "2 ^ k \<le> (2 :: nat) ^ j" "j = 0 \<longrightarrow> (2 :: nat) ^ k = 0" "j \<le> 1 \<or> 2 ^ j < 2 * (2 :: nat) ^ k"
    using roundup_depth [OF le] unfolding u by (metis u unsigned_0)
  have kj: "k \<le> j" using b(4) by simp
  have j: "1 \<le> j" using b(5) by (cases j) auto
  have "j \<le> 1 \<or> j = k" using b(6) kj power_less_imp_less_exp [of "2 :: nat" j "Suc k"] by auto
  moreover have "unat n \<le> 2 ^ j" using a(4) b(4) by (rule le_trans)
  ultimately have "ring_depth (unat n) j" using a(6) b(3) j by (auto simp: ring_depth_def)
  then show ?thesis using that a(1) b(1,2) by blast
qed

lemma fill_pfns_frame [simp]:
  "cq_handle (efa_cq_fill_pfns v f) = cq_handle v" "cq_cqe (efa_cq_fill_pfns v f) = cq_cqe v"
  "cq_context_ptr (efa_cq_fill_pfns v f) = cq_context_ptr v"
  by (simp_all add: efa_cq_fill_pfns_def Let_def)

lemma ring_bytes_fit:
  assumes "k \<le> 15" "ci_CqActualDepth info = 2 ^ k"
  shows "\<exists>sz. cq_ring_bytes (ci_CqActualDepth info) nsub e = Some sz"
proof -
  have "unat (2 ^ k :: u16) = 2 ^ k" using assms(1) by (simp add: unat_2_power)
  moreover have "(2 :: nat) ^ k \<le> 2 ^ 15" using assms(1) by (intro power_increasing) simp_all
  moreover have "unat nsub < 2 ^ LENGTH(16)" by (rule unsigned_less)
  ultimately have "unat (ci_CqActualDepth info) * unat nsub \<le> 2 ^ 15 * 65535"
    unfolding assms(2) by (intro mult_le_mono) simp_all
  then show ?thesis by (simp add: cq_ring_bytes_def)
qed

lemma ring_step:
  assumes "k \<le> 15" "unat z \<le> 255"
  shows "sint ((ucast (z :: u64) :: i32) * ucast (2 ^ k :: u16)) = int (2 ^ k * unat z)"
    and "(ucast z :: i32) = of_nat (unat z)" "(ucast (2 ^ k :: u16) :: i32) = of_nat (2 ^ k)"
proof -
  show z: "(ucast z :: i32) = of_nat (unat z)" by (rule of_nat_unat [symmetric])
  have "unat (2 ^ k :: u16) = 2 ^ k" using assms(1) by (simp add: unat_2_power)
  then show n: "(ucast (2 ^ k :: u16) :: i32) = of_nat (2 ^ k)"
    by (metis of_nat_unat)
  have "(2 :: nat) ^ k \<le> 2 ^ 15" using assms(1) by (intro power_increasing) simp_all
  then have "2 ^ k * unat z \<le> 2 ^ 15 * 255" using assms(2) by (intro mult_le_mono)
  then have "2 ^ k * unat z < 2 ^ 31" by simp
  from sint_of_nat_small [OF this] show "sint ((ucast z :: i32) * ucast (2 ^ k :: u16)) = int (2 ^ k * unat z)"
    unfolding z n by (simp add: mult.commute)
qed

lemma create_cq_outcome:
  assumes env: "cq_env c ctx edev attr w" and p: "w_cqs w p = None"
    and drv: "rings_ok dr"
  shows "\<exists>r attr' w' params rep d1. create_cq dr (Some p) (Some c) attr w = Some (r, attr', w') \<and>
    asked_cq dr (wd_Device (dev_device edev)) params (w_drv w) rep d1 \<and>
    (\<exists>m. cq_request ctx (unat (ca_cqe attr)) m params) \<and>
    (if ioctl_status rep sizeof_EFA_CQ_INFO = 0
     then r = Some p \<and>
       (\<exists>cq k len. w' = w\<lparr>w_drv := d1, w_cqs := (w_cqs w)(p \<mapsto> cq)\<rparr> \<and>
          unat (ca_cqe attr) \<le> 2 ^ k \<and>
          cq_fresh (unat (ctx_cqe_size ctx)) (sub_cqs_per_cq ctx) k len cq \<and>
          cq_context_ptr (verbs_cq cq) = Some c \<and>
          cq_handle (verbs_cq cq) = ucast (ci_CqIndex (outBuffer rep)))
     else r = None \<and> w' = w\<lparr>w_drv := d1, w_errno := ioctl_status rep sizeof_EFA_CQ_INFO\<rparr>)"
proof -
  let ?z = "ctx_cqe_size ctx" and ?n = "sub_cqs_per_cq ctx"
  from env have e: "w_ctxs w c = Some ctx" "edev_at w (Some c) = Some edev" "unat (ca_cqe attr) \<le> 2 ^ 15"
    "8 \<le> unat ?z" "unat ?z \<le> 255" by (simp_all add: cq_env_def)
  obtain a b m where ab: "roundup_pow_of_two (ucast (ca_cqe attr)) = Some a"
    "roundup_pow_of_two (ucast (ucast a :: u32)) = Some b" "unat b = 2 ^ m" "ring_depth (unat (ca_cqe attr)) m"
    by (rule roundup_twice [OF e(3)])
  have m: "m \<le> 15" using ab(4) by (simp add: ring_depth_def)
  have "(2 :: nat) ^ m \<le> 2 ^ 15" using m by (intro power_increasing) simp_all
  then have bl: "unat b \<le> 2 ^ 15" using ab(3) by simp
  define attr1 where "attr1 = attr\<lparr>ca_cqe := ucast a\<rparr>"
  define params where "params = zero_CREATE_CQ_PARAMS\<lparr>ccq_CqDepth := ucast b, ccq_NumSubCqs := ?n,
    ccq_EntrySizeInBytes := ucast ?z\<rparr>"
  have "(ucast b :: u16) = 2 ^ m" using ab(3) m by (intro ucast_pow2) simp_all
  then have "unat (ccq_CqDepth params) = 2 ^ m" using m by (simp add: params_def unat_2_power)
  moreover have ez: "unat (ccq_EntrySizeInBytes params) = unat ?z"
    using e(5) by (simp add: params_def unat_ucast_mod)
  ultimately have req: "cq_request ctx (unat (ca_cqe attr)) m params"
    using ab(4) by (simp add: cq_request_def params_def)
  then have reqs: "\<exists>m. cq_request ctx (unat (ca_cqe attr)) m params" by blast
  obtain rep d1 where ask: "IOCTL_EFA_CREATE_CQ dr (wd_Device (dev_device edev)) params
      sizeof_PEFA_CREATE_CQ_PARAMS zero_CQ_INFO (w_drv w) = (rep, d1)" by (metis surj_pair)
  then have asked: "asked_cq dr (wd_Device (dev_device edev)) params (w_drv w) rep d1"
    by (simp add: asked_cq_def)
  let ?st = "ioctl_status rep sizeof_EFA_CQ_INFO"
  define w0 where "w0 = w\<lparr>w_cqs := (w_cqs w)(p \<mapsto> zero_cq (unat ?n))\<rparr>"
  have e0: "deref (w_ctxs w0) (Some c) = Some ctx" "edev_at w0 (Some c) = Some edev" "w_drv w0 = w_drv w"
    using e by (simp_all add: w0_def edev_at_def)
  have win: "efa_win_create_cq dr (dev_device edev) params zero_CQ_INFO (w_drv w0) = (?st, outBuffer rep, d1)"
    using ask by (simp add: efa_win_create_cq_def e0)
  show ?thesis
  proof (cases "?st = 0")
    case False
    have "ibv_cmd_create_cq_ex dr (Some c) attr1 p zero_cq_resp sizeof_efa_create_cq_resp w0 =
        Some (?st, zero_cq_resp, w0\<lparr>w_drv := d1\<rparr>)"
      using e0 ab(1,2) bl e(5) win False
      by (simp add: ibv_cmd_create_cq_ex_def attr1_def params_def [symmetric] Let_def)
    moreover have "w\<lparr>w_drv := d1, w_errno := ?st, w_cqs := (w_cqs w)(p := None)\<rparr> =
        w\<lparr>w_drv := d1, w_errno := ?st\<rparr>"
      using p by (cases w) (simp add: fun_upd_idem)
    ultimately have "create_cq dr (Some p) (Some c) attr w =
        Some (None, attr1, w\<lparr>w_drv := d1, w_errno := ?st\<rparr>)"
      using e(1) ab(1,2) False p
      by (simp add: create_cq_def w0_def [symmetric] attr1_def [symmetric] Let_def) (simp add: w0_def)
    then show ?thesis using asked False reqs
      by (intro exI [of _ None] exI [of _ attr1] exI [of _ "w\<lparr>w_drv := d1, w_errno := ?st\<rparr>"]
          exI [of _ params] exI [of _ rep] exI [of _ d1]) simp
  next
    case True
    obtain k len where deep0: "unat (ccq_CqDepth params) \<le> 2 ^ k" and
      "ring_granted (unat (ccq_EntrySizeInBytes params)) (ccq_NumSubCqs params) (outBuffer rep) k len"
      using drv asked True unfolding rings_ok_def by blast
    then have g: "ring_granted (unat ?z) ?n (outBuffer rep) k len"
      using req ez by (simp add: cq_request_def)
    have "unat (ca_cqe attr) \<le> unat (ccq_CqDepth params)"
      using req unfolding cq_request_def ring_depth_def by metis
    then have deep: "unat (ca_cqe attr) \<le> 2 ^ k" using deep0 by (rule le_trans)
    from g have gk: "k \<le> 15" "ci_CqActualDepth (outBuffer rep) = 2 ^ k"
      "ci_CqAddr (outBuffer rep) = Some (replicate len 0)" "unat ?n * (2 ^ k * unat ?z) \<le> len"
      by (simp_all add: ring_granted_def)
    obtain sz where sz: "cq_ring_bytes (2 ^ k) ?n ?z = Some sz"
      using ring_bytes_fit [OF gk(1,2), of ?n ?z] gk(2) by auto
    let ?info = "outBuffer rep"
    obtain resp v where cmd: "ibv_cmd_create_cq_ex dr (Some c) attr1 p zero_cq_resp sizeof_efa_create_cq_resp w0 =
        Some (0, resp, w0\<lparr>w_drv := d1, w_cqs := (w_cqs w0)(p \<mapsto>
          (zero_cq (unat ?n))\<lparr>verbs_cq := v, cq_buf := Some (replicate len 0), num_sub_cqs := ?n,
             cq_buf_size := sz, cqn := ucast (ci_CqIndex ?info)\<rparr>)\<rparr>)"
      and v: "cq_cqe v = ucast (2 ^ k :: u16)" "cq_context_ptr v = Some c"
        "cq_handle v = ucast (ci_CqIndex ?info)"
      using e0 ab(1,2) bl e(5) win True gk sz
      by (simp add: ibv_cmd_create_cq_ex_def attr1_def params_def [symmetric] Let_def)
        (simp add: w0_def)
    note st = ring_step [OF gk(1) e(5)]
    define arr where "arr = map (\<lambda>i. efa_sub_cq_initialize (replicate (unat ?n) zero_sub_cq ! i)
      (i * (2 ^ k * unat ?z)) (ucast (2 ^ k :: u16)) (ucast ?z)) [0..<unat ?n]"
    have arr: "init_sub_cqs (unat ?n) (ucast (2 ^ k :: u16)) (ucast ?z) (replicate (unat ?n) zero_sub_cq) =
        Some arr"
      unfolding arr_def by (rule init_sub_cqs_eq) (simp_all only: length_replicate st(1))
    define cq where "cq = (zero_cq (unat ?n))\<lparr>verbs_cq := efa_cq_fill_pfns v (ca_wc_flags attr),
      cq_buf := Some (replicate len 0), num_sub_cqs := ?n, cq_buf_size := cqr_q_mmap_size resp,
      cqn := ucast (cqr_cq_idx resp), cq_cqe_size := ?z, sub_cq_arr := arr, cq_lock := 0\<rparr>"
    have run: "create_cq dr (Some p) (Some c) attr w =
        Some (Some p, attr1, w\<lparr>w_drv := d1, w_cqs := (w_cqs w)(p \<mapsto> cq)\<rparr>)"
      using e(1) ab(1,2) cmd v arr
      by (simp add: create_cq_def w0_def [symmetric] attr1_def [symmetric] Let_def)
        (simp add: w0_def cq_def zero_cq_def attr1_def)
    have geom: "ring_geom (i * (2 ^ k * unat ?z)) (unat ?z) k (2 ^ k) len" if "i < unat ?n" for i
    proof -
      have "i * (2 ^ k * unat ?z) + 2 ^ k * unat ?z = Suc i * (2 ^ k * unat ?z)" by simp
      also have "\<dots> \<le> unat ?n * (2 ^ k * unat ?z)" using that by (intro mult_le_mono1) simp
      also have "\<dots> \<le> len" by (rule gk(4))
      finally have "i * (2 ^ k * unat ?z) + 2 ^ k * unat ?z \<le> len" .
      moreover have "(2 :: nat) ^ k \<le> 2 ^ 15" using gk(1) by (intro power_increasing) simp_all
      then have "2 ^ k * unat ?z \<le> 2 ^ 15 * 255" using e(5) by (intro mult_le_mono)
      ultimately show ?thesis using gk(1) e(4) by (simp add: ring_geom_def)
    qed
    have "cq_fresh (unat ?z) ?n k len cq"
      using geom st(2,3) by (simp add: cq_fresh_def cq_def zero_cq_def arr_def ring_start_def)
    moreover have "cq_context_ptr (verbs_cq cq) = Some c"
      "cq_handle (verbs_cq cq) = ucast (ci_CqIndex ?info)" using v by (simp_all add: cq_def)
    moreover note deep
    ultimately have "\<exists>cq' k len. w\<lparr>w_drv := d1, w_cqs := (w_cqs w)(p \<mapsto> cq)\<rparr> =
          w\<lparr>w_drv := d1, w_cqs := (w_cqs w)(p \<mapsto> cq')\<rparr> \<and>
        unat (ca_cqe attr) \<le> 2 ^ k \<and>
        cq_fresh (unat ?z) ?n k len cq' \<and> cq_context_ptr (verbs_cq cq') = Some c \<and>
        cq_handle (verbs_cq cq') = ucast (ci_CqIndex ?info)" by blast
    then show ?thesis using run asked True reqs
      by (intro exI [of _ "Some p"] exI [of _ attr1] exI [of _ "w\<lparr>w_drv := d1, w_cqs := (w_cqs w)(p \<mapsto> cq)\<rparr>"]
          exI [of _ params] exI [of _ rep] exI [of _ d1]) simp
  qed
qed

section \<open>An instance\<close>

definition ref_cq_attr :: ibv_cq_init_attr_ex where
  "ref_cq_attr = \<lparr>ca_cqe = 5, ca_cq_context = 0, ca_channel = None, ca_comp_vector = 0,
     ca_wc_flags = 0, ca_comp_mask = 0\<rparr>"

text \<open>
  A driver that grants eight entries per sub-queue, of the size asked for, to requests for at
  most eight, and refuses larger ones.
\<close>

definition ring_driver :: "ref_state driver" where
  "ring_driver = ref_driver\<lparr>IOCTL_EFA_CREATE_CQ := (\<lambda>h i n out. unless_refused (\<lambda>d.
     (if ccq_CqDepth i \<le> 8
      then granted (out\<lparr>ci_CqAddr :=
             Some (replicate (unat (ccq_NumSubCqs i) * (8 * unat (ccq_EntrySizeInBytes i))) 0),
           ci_CqIndex := 6, ci_CqActualDepth := 8\<rparr>) sizeof_EFA_CQ_INFO
      else refused out, d)) out)\<rparr>"

definition ring_reply :: "EFA_CREATE_CQ_PARAMS \<Rightarrow> EFA_CQ_INFO ioctl_reply" where
  "ring_reply i = granted (zero_CQ_INFO\<lparr>ci_CqAddr :=
       Some (replicate (unat (ccq_NumSubCqs i) * (8 * unat (ccq_EntrySizeInBytes i))) 0),
     ci_CqIndex := 6, ci_CqActualDepth := 8\<rparr>) sizeof_EFA_CQ_INFO"

lemma ring_driver_reply:
  assumes "asked_cq ring_driver h params d r d'"
  shows "ioctl_status r sizeof_EFA_CQ_INFO = 0 \<longleftrightarrow> \<not> rs_refuse d \<and> ccq_CqDepth params \<le> 8"
    and "ioctl_status r sizeof_EFA_CQ_INFO = 0 \<Longrightarrow> r = ring_reply params"
proof -
  have r: "r = (if rs_refuse d \<or> \<not> ccq_CqDepth params \<le> 8 then refused zero_CQ_INFO else ring_reply params)"
    using assms by (auto simp: asked_cq_def ring_driver_def unless_refused_def ring_reply_def split: if_splits)
  show "ioctl_status r sizeof_EFA_CQ_INFO = 0 \<longleftrightarrow> \<not> rs_refuse d \<and> ccq_CqDepth params \<le> 8"
    unfolding r by (simp add: ring_reply_def ioctl_sizes granted_def refused_def ioctl_status_def)
  then show "ioctl_status r sizeof_EFA_CQ_INFO = 0 \<Longrightarrow> r = ring_reply params" using r by simp
qed

lemma ring_reply_granted:
  "ring_granted (unat (ccq_EntrySizeInBytes params)) (ccq_NumSubCqs params) (outBuffer (ring_reply params)) 3
     (unat (ccq_NumSubCqs params) * (8 * unat (ccq_EntrySizeInBytes params)))"
  by (simp add: ring_reply_def ring_granted_def)

lemma ref_ring_driver: "rings_ok ring_driver"
  unfolding rings_ok_def
proof (intro allI impI)
  fix h params d r d'
  assume "asked_cq ring_driver h params d r d' \<and> ioctl_status r sizeof_EFA_CQ_INFO = 0"
  then have "ccq_CqDepth params \<le> 8" "r = ring_reply params" using ring_driver_reply by blast+
  then have "unat (ccq_CqDepth params) \<le> 2 ^ 3"
    "ring_granted (unat (ccq_EntrySizeInBytes params)) (ccq_NumSubCqs params) (outBuffer r) 3
        (unat (ccq_NumSubCqs params) * (8 * unat (ccq_EntrySizeInBytes params)))"
    using ring_reply_granted by (simp_all add: word_le_nat_alt)
  then show "\<exists>k len. unat (ccq_CqDepth params) \<le> 2 ^ k \<and>
      ring_granted (unat (ccq_EntrySizeInBytes params)) (ccq_NumSubCqs params) (outBuffer r) k len" by blast
qed

lemma ref_cq_env: "cq_env 0 ref_ctx ref_dev ref_cq_attr (ref_world r)" "w_cqs (ref_world r) 9 = None"
  by (simp_all add: cq_env_def ref_world_def edev_at_def ref_ctx_def ref_cq_attr_def)

text \<open>The five entries asked for make it a request for eight.\<close>

lemma ref_cq_depth:
  assumes "cq_request ref_ctx (unat (ca_cqe ref_cq_attr)) m params"
  shows "unat (ccq_CqDepth params) = 8"
proof -
  have c: "unat (ca_cqe ref_cq_attr) = 5" by (simp add: ref_cq_attr_def)
  have m: "5 \<le> (2 :: nat) ^ m" "m = 1 \<or> (2 :: nat) ^ m < 2 * 5" "unat (ccq_CqDepth params) = 2 ^ m"
    using assms unfolding cq_request_def ring_depth_def c by blast+
  have "m \<noteq> 1" using m(1) by (cases "m = 1") simp_all
  then have "(2 :: nat) ^ m < 2 * 5" using m(2) by blast
  then have "(2 :: nat) ^ m < 2 ^ 4" by (rule less_trans) simp
  moreover have "(2 :: nat) ^ 2 < 2 ^ m" by (rule less_le_trans [OF _ m(1)]) simp
  ultimately have "m < 4" "2 < m"
    using power_less_imp_less_exp [of "2 :: nat" m 4] power_less_imp_less_exp [of "2 :: nat" 2 m] by simp_all
  then have "m = 3" by simp
  then show ?thesis using m(3) by simp
qed

lemma ref_cq_created:
  "\<exists>attr' w'. create_cq ring_driver (Some 9) (Some 0) ref_cq_attr (ref_world r) =
     Some (if r then None else Some 9, attr', w')"
proof -
  have "w_drv (ref_world r) = ref_state0 r" "rs_refuse (ref_state0 r) = r"
    by (simp_all add: ref_world_def ref_state0_def)
  then have "ioctl_status rep sizeof_EFA_CQ_INFO = 0 \<longleftrightarrow> \<not> r"
    if "asked_cq ring_driver h params (w_drv (ref_world r)) rep d"
      "cq_request ref_ctx (unat (ca_cqe ref_cq_attr)) m params" for h params rep d m
    using ring_driver_reply(1) [OF that(1)] ref_cq_depth [OF that(2)] by (simp add: word_le_nat_alt)
  then show ?thesis
    using create_cq_outcome [OF ref_cq_env(1,2) ref_ring_driver, of r]
    by (elim exE conjE) (auto split: if_splits)
qed

section \<open>The properties\<close>

text \<open>
  C29: the contract of \<open>create_cq\<close>, for a context of the library with entries of 8 to 255 bytes, at
  most \<open>2 ^ 15\<close> entries asked for, and a driver whose rings have room for what the request says. It
  always returns. It requests the least power of two of entries, at least two, that has room for
  those asked for, and the sub-queues and the entry size of the context. It succeeds exactly when
  the driver grants that. Then the queue has one sub-queue per the context's count, each an empty
  ring of a power of two of entries, no fewer than asked for, on a part of the buffer of its own;
  otherwise nothing has changed but \<open>errno\<close>, which has the driver's error.
\<close>

theorem create_cq_contract:
  assumes env: "cq_env c ctx edev attr w" and p: "w_cqs w p = None"
    and drv: "rings_ok dr"
  shows "\<exists>r attr' w' params rep d1. create_cq dr (Some p) (Some c) attr w = Some (r, attr', w') \<and>
    asked_cq dr (wd_Device (dev_device edev)) params (w_drv w) rep d1 \<and>
    (\<exists>m. cq_request ctx (unat (ca_cqe attr)) m params) \<and>
    (if ioctl_status rep sizeof_EFA_CQ_INFO = 0
     then r = Some p \<and>
       (\<exists>cq k len. w' = w\<lparr>w_drv := d1, w_cqs := (w_cqs w)(p \<mapsto> cq)\<rparr> \<and>
          unat (ca_cqe attr) \<le> 2 ^ k \<and>
          cq_fresh (unat (ctx_cqe_size ctx)) (sub_cqs_per_cq ctx) k len cq \<and>
          cq_context_ptr (verbs_cq cq) = Some c \<and>
          cq_handle (verbs_cq cq) = ucast (ci_CqIndex (outBuffer rep)))
     else r = None \<and> w' = w\<lparr>w_drv := d1, w_errno := ioctl_status rep sizeof_EFA_CQ_INFO\<rparr>)"
  by (rule create_cq_outcome [OF assms])

theorem create_cq_contract_witness:
  "\<exists>attr' w' cq k len. create_cq ring_driver (Some 9) (Some 0) ref_cq_attr (ref_world False) =
     Some (Some 9, attr', w') \<and> w_cqs w' 9 = Some cq \<and> cq_fresh 32 2 k len cq"
proof -
  obtain attr' w' where run: "create_cq ring_driver (Some 9) (Some 0) ref_cq_attr (ref_world False) =
      Some (Some 9, attr', w')" using ref_cq_created [of False] by auto
  have ctx: "unat (ctx_cqe_size ref_ctx) = 32" "sub_cqs_per_cq ref_ctx = 2" by (simp_all add: ref_ctx_def)
  obtain cq k len where "w_cqs w' 9 = Some cq" "cq_fresh 32 2 k len cq"
    using create_cq_contract [OF ref_cq_env(1,2) ref_ring_driver, of False] run ctx
    by (elim exE conjE) (auto split: if_splits)
  then show ?thesis using run by blast
qed

text \<open>What a successful creation leaves, for the properties below.\<close>

lemma create_cq_success:
  assumes run: "create_cq dr (Some p) (Some c) attr w = Some (Some p', attr', w')"
    and env: "cq_env c ctx edev attr w" and p: "w_cqs w p = None"
    and drv: "rings_ok dr"
  obtains cq k len d where "p' = p" "w' = w\<lparr>w_drv := d, w_cqs := (w_cqs w)(p \<mapsto> cq)\<rparr>"
    "unat (ca_cqe attr) \<le> 2 ^ k"
    "cq_fresh (unat (ctx_cqe_size ctx)) (sub_cqs_per_cq ctx) k len cq"
    "cq_context_ptr (verbs_cq cq) = Some c"
  using create_cq_outcome [OF env p drv] run by (elim exE conjE) (auto split: if_splits)

text \<open>The rings of a completion queue as the device and the library see them after its creation.\<close>

definition created_rings :: "u8 list \<Rightarrow> efa_sub_cq list \<Rightarrow> cq_ring list" where
  "created_rings mem arr = map (\<lambda>sub. \<lparr>cr_mem = mem, cr_sub = sub, cr_prod = 0, cr_cons = 0\<rparr>) arr"

lemma created_rings_inv:
  assumes "cq_fresh z nsub k len cq"
  shows "rings_inv z k (2 ^ k) (created_rings (replicate len 0) (sub_cq_arr cq))"
    and "i < unat nsub \<Longrightarrow> ring_queue (ring_base z (2 ^ k) i) z (2 ^ k)
      (created_rings (replicate len 0) (sub_cq_arr cq) ! i) = []"
proof -
  let ?rs = "created_rings (replicate len 0) (sub_cq_arr cq)"
  have len: "length (sub_cq_arr cq) = unat nsub" using assms by (simp add: cq_fresh_def)
  have ring: "ring_inv (ring_base z (2 ^ k) i) z k (2 ^ k) (?rs ! i) \<and>
      ring_queue (ring_base z (2 ^ k) i) z (2 ^ k) (?rs ! i) = []" if "i < unat nsub" for i
  proof -
    have g: "ring_geom (ring_base z (2 ^ k) i) z k (2 ^ k) len"
      and sub: "sub_cq_arr cq ! i = cr_sub (ring_start (ring_base z (2 ^ k) i) z (2 ^ k) len zero_sub_cq)"
      using assms that by (simp_all add: cq_fresh_def ring_base_def)
    have "?rs ! i = ring_start (ring_base z (2 ^ k) i) z (2 ^ k) len zero_sub_cq"
      using that len sub by (simp add: created_rings_def ring_start_def)
    then show ?thesis using ring_start_inv [OF g, of zero_sub_cq] by simp
  qed
  then show "rings_inv z k (2 ^ k) ?rs"
    using len by (simp add: rings_inv_def created_rings_def)
  show "i < unat nsub \<Longrightarrow> ring_queue (ring_base z (2 ^ k) i) z (2 ^ k) (?rs ! i) = []" using ring by blast
qed

text \<open>
  C30: every sub-queue of a created completion queue is a first-in first-out channel of its own
  between the device and the library, from the start. The device writes into the sub-queues, each
  at its place in the one buffer and only while it has fewer than \<open>2 ^ k\<close> entries, \<open>2 ^ k\<close> being no
  less than the entries asked for; the library reads from the sub-queues; in any interleaving of all
  of them and over any number of wrap-arounds. Then what was written into a sub-queue is what was
  read from it, in order, followed by what is still in it: no sub-queue sees the entries of another
  or loses its own to it. Reading is defined at any time, and finds an entry unless there is none.
\<close>

theorem created_cq_channels:
  assumes run: "create_cq dr (Some p) (Some c) attr w = Some (Some p', attr', w')"
    and env: "cq_env c ctx edev attr w" and p: "w_cqs w p = None"
    and drv: "rings_ok dr"
  shows "\<exists>cq mem k. w_cqs w' p' = Some cq \<and> cq_buf cq = Some mem \<and>
    length (sub_cq_arr cq) = unat (sub_cqs_per_cq ctx) \<and> unat (ca_cqe attr) \<le> 2 ^ k \<and>
    unat (sub_cqs_per_cq ctx) * (2 ^ k * unat (ctx_cqe_size ctx)) \<le> length mem \<and>
    (let z = unat (ctx_cqe_size ctx); n = 2 ^ k in
     \<forall>es rs. rings_run z n (created_rings mem (sub_cq_arr cq)) es rs \<longrightarrow>
       (\<forall>i < length (sub_cq_arr cq).
          let left = ring_queue (ring_base z n i) z n (rs ! i) in
          chan_in (events_of i es) = chan_out (events_of i es) @ left \<and>
          (\<exists>r. lib_poll z (rs ! i) = Some (if left = [] then None else Some (hd left), r))))"
proof (rule create_cq_success [OF run env p drv], goal_cases)
  case (1 cq k len d)
  let ?z = "unat (ctx_cqe_size ctx)" and ?n = "2 ^ k" and ?N = "unat (sub_cqs_per_cq ctx)"
  let ?rs = "created_rings (replicate len 0) (sub_cq_arr cq)"
  from 1(4) have f: "cq_buf cq = Some (replicate len 0)" "length (sub_cq_arr cq) = ?N"
    "\<And>i. i < ?N \<Longrightarrow> ring_geom (i * (2 ^ k * ?z)) ?z k (2 ^ k) len"
    by (simp_all add: cq_fresh_def)
  have len: "length ?rs = ?N" by (simp add: created_rings_def f(2))
  note start = created_rings_inv [OF 1(4)]
  have fits: "?N * (?n * ?z) \<le> len"
  proof (cases ?N)
    case (Suc m)
    then show ?thesis using f(3) [of m] by (simp add: ring_geom_def algebra_simps)
  qed simp
  have ch: "chan_in (events_of i es) = chan_out (events_of i es) @ ring_queue (ring_base ?z ?n i) ?z ?n (rs ! i) \<and>
      (\<exists>r. lib_poll ?z (rs ! i) = Some (if ring_queue (ring_base ?z ?n i) ?z ?n (rs ! i) = [] then None
         else Some (hd (ring_queue (ring_base ?z ?n i) ?z ?n (rs ! i))), r))"
    if go: "rings_run ?z ?n ?rs es rs" and i: "i < ?N" for es rs i
  proof -
    note R = rings_fifo [OF go start(1), unfolded len]
    then have "ring_inv (ring_base ?z ?n i) ?z k ?n (rs ! i)" using i by (simp add: rings_inv_def)
    from cq_channel.deq_law [OF this] show ?thesis using R i start(2) [OF i]
      by (auto split: list.splits)
  qed
  have "w_cqs w' p' = Some cq" using 1(1,2) by simp
  then show ?case using f(1,2) ch fits 1(3)
    by (intro exI [of _ cq] exI [of _ "replicate len 0"] exI [of _ k]) (simp add: Let_def)
qed

theorem created_cq_channels_witness:
  "\<exists>attr' w' cq mem k. create_cq ring_driver (Some 9) (Some 0) ref_cq_attr (ref_world False) =
     Some (Some 9, attr', w') \<and> w_cqs w' 9 = Some cq \<and> length (sub_cq_arr cq) = 2 \<and>
     cq_buf cq = Some mem \<and> 5 \<le> (2 :: nat) ^ k \<and> 2 * (2 ^ k * 32) \<le> length mem"
proof -
  obtain attr' w' where run: "create_cq ring_driver (Some 9) (Some 0) ref_cq_attr (ref_world False) =
      Some (Some 9, attr', w')" using ref_cq_created [of False] by auto
  have ctx: "unat (sub_cqs_per_cq ref_ctx) = 2" "unat (ctx_cqe_size ref_ctx) = 32" "unat (ca_cqe ref_cq_attr) = 5"
    by (simp_all add: ref_ctx_def ref_cq_attr_def)
  show ?thesis
    using created_cq_channels [OF run ref_cq_env(1,2) ref_ring_driver] run unfolding ctx by blast
qed

text \<open>Destroying a completion queue undoes its creation. When the driver agrees the world is
  the one before, but for the driver; when it refuses, the queue is still there, as it was.\<close>

theorem create_destroy_cq_roundtrip:
  assumes run: "create_cq dr (Some p) (Some c) attr w = Some (Some p', attr', w1)"
    and env: "cq_env c ctx edev attr w" and p: "w_cqs w p = None"
    and drv: "rings_ok dr"
  shows "\<exists>e w2. efa_destroy_cq dr p' w1 = Some (e, w2) \<and>
    w2 = (if e = 0 then w\<lparr>w_drv := w_drv w2\<rparr> else w1\<lparr>w_drv := w_drv w2\<rparr>)"
proof (rule create_cq_success [OF run env p drv], goal_cases)
  case (1 cq k len d)
  have e: "w_cqs w1 p' = Some cq" "edev_at w1 (Some c) = Some edev"
    using 1(1,2) env by (auto simp: cq_env_def edev_at_def)
  obtain e d2 where win: "efa_win_destroy_cq dr (dev_device edev)
      \<lparr>dcq_CqIndex = ucast (cq_handle (verbs_cq cq))\<rparr> (w_drv w1) = (e, d2)" by (metis surj_pair)
  show ?case
  proof (cases "e = 0")
    case False
    then have "efa_destroy_cq dr p' w1 = Some (e, w1\<lparr>w_drv := d2\<rparr>)"
      using e 1(5) win by (simp add: efa_destroy_cq_def ibv_cmd_destroy_cq_def)
    then show ?thesis using False by (intro exI [of _ e] exI [of _ "w1\<lparr>w_drv := d2\<rparr>"]) simp
  next
    case True
    have "efa_destroy_cq dr p' w1 = Some (0, w1\<lparr>w_drv := d2, w_cqs := (w_cqs w1)(p' := None)\<rparr>)"
      using e 1(5) win True by (simp add: efa_destroy_cq_def ibv_cmd_destroy_cq_def)
    moreover have "w1\<lparr>w_drv := d2, w_cqs := (w_cqs w1)(p' := None)\<rparr> = w\<lparr>w_drv := d2\<rparr>"
      using 1(1,2) p by (cases w) (simp add: fun_upd_idem)
    ultimately show ?thesis by (intro exI [of _ 0] exI [of _ "w\<lparr>w_drv := d2\<rparr>"]) simp
  qed
qed

theorem create_destroy_cq_roundtrip_witness:
  "\<exists>attr' w1 e w2. create_cq ring_driver (Some 9) (Some 0) ref_cq_attr (ref_world False) =
     Some (Some 9, attr', w1) \<and> efa_destroy_cq ring_driver 9 w1 = Some (e, w2)"
proof -
  obtain attr' w1 where run: "create_cq ring_driver (Some 9) (Some 0) ref_cq_attr (ref_world False) =
      Some (Some 9, attr', w1)" using ref_cq_created [of False] by auto
  show ?thesis
    using create_destroy_cq_roundtrip [OF run ref_cq_env(1,2) ref_ring_driver] run by blast
qed

end
