(* ===== verification/Efa_Resources.thy ===== *)
theory Efa_Resources
  imports Efa_Pd Efa_Driver
begin

text \<open>
  Protection domains and memory regions against the driver's books: the handles the driver
  keeps are exactly those of the objects the process holds, whatever fails in between. Both are
  instances of one interface, a resource that is allocated and released.
\<close>

section \<open>The interface\<close>

text \<open>A state in which the books are right: one handle per object, no handle without one.\<close>

definition books_ok :: "('s \<Rightarrow> ptr \<rightharpoonup> 'o) \<Rightarrow> ('o \<Rightarrow> 'h) \<Rightarrow> ('s \<Rightarrow> 'h set) \<Rightarrow> 's \<Rightarrow> bool" where
  "books_ok objs handle held s \<longleftrightarrow>
     held s = handle ` ran (objs s) \<and>
     (\<forall>p q x y. objs s p = Some x \<longrightarrow> objs s q = Some y \<longrightarrow> handle x = handle y \<longrightarrow> p = q)"

text \<open>Allocations that the caller may make, and releases, in any order.\<close>

inductive resource_run ::
  "('i \<Rightarrow> 's \<Rightarrow> bool) \<Rightarrow> ('i \<Rightarrow> 's \<Rightarrow> (ptr option \<times> 's) option) \<Rightarrow> (ptr \<Rightarrow> 's \<Rightarrow> (int \<times> 's) option)
     \<Rightarrow> 's \<Rightarrow> 's \<Rightarrow> bool"
  for can alloc release s0 where
  start: "resource_run can alloc release s0 s0"
| alloc: "resource_run can alloc release s0 s \<Longrightarrow> can i s \<Longrightarrow> alloc i s = Some (r, s') \<Longrightarrow>
    resource_run can alloc release s0 s'"
| release: "resource_run can alloc release s0 s \<Longrightarrow> release p s = Some (e, s') \<Longrightarrow>
    resource_run can alloc release s0 s'"

locale resource =
  fixes objs :: "'s \<Rightarrow> ptr \<rightharpoonup> 'o" and handle :: "'o \<Rightarrow> 'h" and held :: "'s \<Rightarrow> 'h set"
    and wf :: "'s \<Rightarrow> bool" and can :: "'i \<Rightarrow> 's \<Rightarrow> bool"
    and alloc :: "'i \<Rightarrow> 's \<Rightarrow> (ptr option \<times> 's) option"
    and release :: "ptr \<Rightarrow> 's \<Rightarrow> (int \<times> 's) option"
  assumes alloc_ok: "wf s \<Longrightarrow> can i s \<Longrightarrow> alloc i s = Some (Some p, s') \<Longrightarrow>
      wf s' \<and> objs s p = None \<and>
      (\<exists>x. objs s' = (objs s)(p \<mapsto> x) \<and> handle x \<notin> held s \<and> held s' = insert (handle x) (held s))"
    and alloc_fail: "wf s \<Longrightarrow> can i s \<Longrightarrow> alloc i s = Some (None, s') \<Longrightarrow>
      wf s' \<and> objs s' = objs s \<and> held s' = held s"
    and release_total: "wf s \<Longrightarrow> objs s p = Some x \<Longrightarrow> release p s \<noteq> None"
    and release_stale: "objs s p = None \<Longrightarrow> release p s = None"
    and release_ok: "wf s \<Longrightarrow> objs s p = Some x \<Longrightarrow> release p s = Some (0, s') \<Longrightarrow>
      wf s' \<and> objs s' = (objs s)(p := None) \<and> held s' = held s - {handle x}"
    and release_fail: "wf s \<Longrightarrow> objs s p = Some x \<Longrightarrow> release p s = Some (e, s') \<Longrightarrow> e \<noteq> 0 \<Longrightarrow>
      wf s' \<and> objs s' = objs s \<and> held s' = held s"
begin

lemma books_alloc:
  assumes "books_ok objs handle held s" "objs s p = None" "objs s' = (objs s)(p \<mapsto> x)"
    "handle x \<notin> held s" "held s' = insert (handle x) (held s)"
  shows "books_ok objs handle held s'"
proof -
  have new: "handle y \<noteq> handle x" if "objs s q = Some y" for q y
  proof
    assume "handle y = handle x"
    moreover have "handle y \<in> held s" using assms(1) ranI [of "objs s" q y] that by (simp add: books_ok_def)
    ultimately show False using assms(4) by simp
  qed
  have "held s' = handle ` ran (objs s')"
    using assms(1-3,5) by (simp add: books_ok_def)
  moreover have "p1 = q1" if "objs s' p1 = Some a" "objs s' q1 = Some b" "handle a = handle b" for p1 q1 a b
    using that new [of p1 a] new [of q1 b] assms(1,3) unfolding books_ok_def
    by (cases "p1 = p"; cases "q1 = p") auto
  ultimately show ?thesis unfolding books_ok_def by blast
qed

lemma books_release:
  assumes b: "books_ok objs handle held s" and p: "objs s p = Some x"
    and s': "objs s' = (objs s)(p := None)" "held s' = held s - {handle x}"
  shows "books_ok objs handle held s'"
proof -
  have "ran (objs s') = ran (objs s) - {x}"
  proof -
    have "q = p" if "objs s q = Some x" for q using b that p unfolding books_ok_def by blast
    moreover have "y \<in> ran (objs s')" if y: "y \<in> ran (objs s)" "y \<noteq> x" for y
    proof -
      obtain a where a: "objs s a = Some y" using y(1) by (auto simp: ran_def)
      then have "objs s' a = Some y" using y(2) p s'(1) by auto
      then show ?thesis by (rule ranI)
    qed
    moreover have "y \<in> ran (objs s)" if "y \<in> ran (objs s')" for y
      using that s'(1) by (auto simp: ran_def split: if_splits)
    moreover have "x \<notin> ran (objs s')"
      using s'(1) calculation(1) by (auto simp: ran_def split: if_splits)
    ultimately show ?thesis by blast
  qed
  moreover have "y = x" if y: "y \<in> ran (objs s)" "handle y = handle x" for y
  proof -
    obtain a where "objs s a = Some y" using y(1) by (auto simp: ran_def)
    then have "a = p" using b p y(2) unfolding books_ok_def by blast
    then show ?thesis using \<open>objs s a = Some y\<close> p by simp
  qed
  ultimately have "held s' = handle ` ran (objs s')"
    using b s'(2) by (auto simp: books_ok_def)
  moreover have "p1 = q1" if "objs s' p1 = Some a" "objs s' q1 = Some c" "handle a = handle c" for p1 q1 a c
    using that b s'(1) unfolding books_ok_def by (auto split: if_splits)
  ultimately show ?thesis unfolding books_ok_def by blast
qed

lemma run_books:
  assumes "resource_run can alloc release s0 s" and "wf s0" and "books_ok objs handle held s0"
  shows "wf s \<and> books_ok objs handle held s"
  using assms
proof (induction rule: resource_run.induct)
  case (alloc s i r s')
  then have s: "wf s" "books_ok objs handle held s" by simp_all
  show ?case
  proof (cases r)
    case None
    then show ?thesis using alloc_fail [OF s(1) alloc.hyps(2)] alloc.hyps(3) s(2)
      by (simp add: books_ok_def)
  next
    case (Some p)
    then show ?thesis using alloc_ok [OF s(1) alloc.hyps(2)] alloc.hyps(3) books_alloc [OF s(2)] by blast
  qed
next
  case (release s p e s')
  then have s: "wf s" "books_ok objs handle held s" by simp_all
  obtain x where x: "objs s p = Some x"
    using release_stale [of s p] release.hyps(2) by (cases "objs s p") auto
  show ?case
  proof (cases "e = 0")
    case True
    then show ?thesis using release_ok [OF s(1) x] release.hyps(2) books_release [OF s(2) x] by blast
  next
    case False
    then show ?thesis using release_fail [OF s(1) x release.hyps(2)] s(2) by (simp add: books_ok_def)
  qed
qed simp

lemma run_empty:
  assumes "resource_run can alloc release s0 s" "wf s0" "objs s0 = Map.empty" "held s0 = {}"
  shows "books_ok objs handle held s \<and> (objs s p \<noteq> None \<longrightarrow> release p s \<noteq> None)"
proof -
  have "wf s \<and> books_ok objs handle held s"
    by (rule run_books [OF assms(1,2)]) (simp add: books_ok_def assms)
  then show ?thesis using release_total by auto
qed

end

section \<open>Protection domains\<close>

text \<open>A system: the driver, the books it keeps as a function of its state, and the process.\<close>

type_synonym ('d, 'h) system = "'d driver \<times> ('d \<Rightarrow> 'h set) \<times> 'd world"

text \<open>
  What the driver documents of protection domains: a granted request returns a number not in
  use and books it, a granted release takes it off the books, a refused request changes nothing.
\<close>

definition pd_contract :: "'d driver \<Rightarrow> ('d \<Rightarrow> u16 set) \<Rightarrow> bool" where
  "pd_contract dr L \<longleftrightarrow>
     (\<forall>h out d r d'. IOCTL_EFA_ALLOC_PD dr h () 0 out d = (r, d') \<longrightarrow>
        (if ioctl_status r sizeof_EFA_PD_INFO = 0
         then pi_Pdn (outBuffer r) \<notin> L d \<and> L d' = insert (pi_Pdn (outBuffer r)) (L d)
         else L d' = L d)) \<and>
     (\<forall>h ps d r d'. IOCTL_EFA_DEALLOC_PD dr h ps sizeof_EFA_DEALLOC_PD_PARAMS () d = (r, d') \<longrightarrow>
        (if ioctl_status_nodata r = 0 then L d' = L d - {dpd_Pdn ps} else L d' = L d))"

fun pd_objs :: "('d, u16) system \<Rightarrow> ptr \<rightharpoonup> efa_pd" where "pd_objs (dr, L, w) = w_pds w"
fun pd_held :: "('d, u16) system \<Rightarrow> u16 set" where "pd_held (dr, L, w) = L (w_drv w)"

definition pd_number :: "efa_pd \<Rightarrow> u16" where "pd_number p = ucast (pd_handle p)"

fun pd_wf :: "('d, u16) system \<Rightarrow> bool" where
  "pd_wf (dr, L, w) \<longleftrightarrow> pd_contract dr L \<and>
     (\<forall>p x. w_pds w p = Some x \<longrightarrow> edev_at w (pd_context x) \<noteq> None)"

text \<open>An allocation: the outcome of \<open>calloc\<close>, at an address that is free, and a live context.\<close>

fun pd_can :: "ptr option \<times> ptr option \<Rightarrow> ('d, u16) system \<Rightarrow> bool" where
  "pd_can (m, c) (dr, L, w) \<longleftrightarrow> (\<forall>p. m = Some p \<longrightarrow> w_pds w p = None) \<and> edev_at w c \<noteq> None"

fun pd_alloc :: "ptr option \<times> ptr option \<Rightarrow> ('d, u16) system \<Rightarrow> (ptr option \<times> ('d, u16) system) option" where
  "pd_alloc (m, c) (dr, L, w) = map_option (\<lambda>(r, w'). (r, dr, L, w')) (efa_alloc_pd dr m c w)"

fun pd_release :: "ptr \<Rightarrow> ('d, u16) system \<Rightarrow> (int \<times> ('d, u16) system) option" where
  "pd_release p (dr, L, w) = map_option (\<lambda>(e, w'). (e, dr, L, w')) (efa_dealloc_pd dr p w)"

lemma edev_frame [simp]:
  "edev_at (w\<lparr>w_drv := d\<rparr>) c = edev_at w c" "edev_at (w\<lparr>w_pds := x\<rparr>) c = edev_at w c"
  "edev_at (w\<lparr>w_mrs := y\<rparr>) c = edev_at w c" "edev_at (w\<lparr>w_errno := e\<rparr>) c = edev_at w c"
  by (simp_all add: edev_at_def)

lemma alloc_pd_eq:
  assumes "edev_at w c = Some edev" "w_pds w p = None"
    and "IOCTL_EFA_ALLOC_PD dr (wd_Device (dev_device edev)) () 0 \<lparr>pi_Pdn = 0\<rparr> (w_drv w) = (r, d)"
  shows "efa_alloc_pd dr (Some p) c w = Some (if ioctl_status r sizeof_EFA_PD_INFO = 0
    then (Some p, w\<lparr>w_drv := d, w_pds := (w_pds w)(p \<mapsto>
       \<lparr>pd_context = c, pd_handle = ucast (pi_Pdn (outBuffer r)), pdn = 0\<rparr>)\<rparr>)
    else (None, w\<lparr>w_drv := d, w_errno := - ENODEV\<rparr>))"
proof -
  have "w\<lparr>w_drv := d, w_pds := (w_pds w)(p := None), w_errno := - ENODEV\<rparr> =
      w\<lparr>w_drv := d, w_errno := - ENODEV\<rparr>"
    using assms(2) by (cases w) (simp add: fun_upd_idem)
  then show ?thesis using assms
    by (simp add: efa_alloc_pd_def ibv_cmd_alloc_pd_def efa_win_alloc_pd_def zero_pd_def zero_pd_resp_def Let_def)
qed

lemma dealloc_pd_eq:
  assumes "w_pds w p = Some x" "edev_at w (pd_context x) = Some edev"
    and "IOCTL_EFA_DEALLOC_PD dr (wd_Device (dev_device edev)) \<lparr>dpd_Pdn = ucast (pd_handle x)\<rparr>
      sizeof_EFA_DEALLOC_PD_PARAMS () (w_drv w) = (r, d)"
  shows "efa_dealloc_pd dr p w = Some (ioctl_status_nodata r,
    if ioctl_status_nodata r = 0 then w\<lparr>w_drv := d, w_pds := (w_pds w)(p := None)\<rparr> else w\<lparr>w_drv := d\<rparr>)"
  using assms by (simp add: efa_dealloc_pd_def ibv_cmd_dealloc_pd_def efa_win_dealloc_pd_def)

lemma pd_alloc_law:
  assumes "pd_wf s" "pd_can i s" "pd_alloc i s = Some (r, s')"
  shows "pd_wf s' \<and> (case r of
      None \<Rightarrow> pd_objs s' = pd_objs s \<and> pd_held s' = pd_held s
    | Some p \<Rightarrow> pd_objs s p = None \<and> (\<exists>x. pd_objs s' = (pd_objs s)(p \<mapsto> x) \<and>
        pd_number x \<notin> pd_held s \<and> pd_held s' = insert (pd_number x) (pd_held s)))"
proof -
  obtain dr L w where s: "s = (dr, L, w)" by (cases s)
  obtain m c where i: "i = (m, c)" by (cases i)
  from assms(1) have wf: "pd_contract dr L" "\<And>p x. w_pds w p = Some x \<Longrightarrow> edev_at w (pd_context x) \<noteq> None"
    by (auto simp: s)
  obtain edev where e: "edev_at w c = Some edev" using assms(2) by (auto simp: s i)
  show ?thesis
  proof (cases m)
    case None
    then have "efa_alloc_pd dr m c w = Some (None, alloc_failed w)" by (simp add: efa_alloc_pd_def)
    then show ?thesis using assms(3) wf by (auto simp: s i alloc_failed_def)
  next
    case (Some p)
    have p: "w_pds w p = None" using assms(2) Some by (simp add: s i)
    obtain rep d where ask: "IOCTL_EFA_ALLOC_PD dr (wd_Device (dev_device edev)) () 0 \<lparr>pi_Pdn = 0\<rparr> (w_drv w) = (rep, d)"
      by (metis surj_pair)
    note run = alloc_pd_eq [OF e p ask]
    have L: "if ioctl_status rep sizeof_EFA_PD_INFO = 0
         then pi_Pdn (outBuffer rep) \<notin> L (w_drv w) \<and> L d = insert (pi_Pdn (outBuffer rep)) (L (w_drv w))
         else L d = L (w_drv w)"
      using wf(1) ask unfolding pd_contract_def by blast
    have n: "ucast (ucast (pi_Pdn (outBuffer rep)) :: u32) = pi_Pdn (outBuffer rep)"
    proof -
      have "unat (pi_Pdn (outBuffer rep)) < 2 ^ LENGTH(16)" by (rule unsigned_less)
      then show ?thesis by (simp add: word_unat_eq_iff unat_ucast_mod)
    qed
    show ?thesis
    proof (cases "ioctl_status rep sizeof_EFA_PD_INFO = 0")
      case True
      define x where "x = \<lparr>pd_context = c, pd_handle = ucast (pi_Pdn (outBuffer rep)), pdn = 0\<rparr>"
      have x: "pd_number x = pi_Pdn (outBuffer rep)" "pd_context x = c" by (simp_all add: x_def pd_number_def n)
      have r: "r = Some p" "s' = (dr, L, w\<lparr>w_drv := d, w_pds := (w_pds w)(p \<mapsto> x)\<rparr>)"
        using assms(3) run True Some by (auto simp: s i x_def)
      show ?thesis using L True wf e p x
        by (auto simp: s r intro!: exI [of _ x])
    next
      case False
      then show ?thesis using assms(3) run L wf Some by (auto simp: s i)
    qed
  qed
qed

lemma pd_release_law:
  assumes "pd_wf s" "pd_objs s p = Some x"
  shows "\<exists>e s'. pd_release p s = Some (e, s') \<and> pd_wf s' \<and>
    (if e = 0 then pd_objs s' = (pd_objs s)(p := None) \<and> pd_held s' = pd_held s - {pd_number x}
     else pd_objs s' = pd_objs s \<and> pd_held s' = pd_held s)"
proof -
  obtain dr L w where s: "s = (dr, L, w)" by (cases s)
  from assms have wf: "pd_contract dr L" "\<And>p x. w_pds w p = Some x \<Longrightarrow> edev_at w (pd_context x) \<noteq> None"
    and p: "w_pds w p = Some x" by (auto simp: s)
  obtain edev where e: "edev_at w (pd_context x) = Some edev" using wf(2) [OF p] by auto
  let ?ps = "\<lparr>dpd_Pdn = ucast (pd_handle x)\<rparr>"
  obtain rep d where ask: "IOCTL_EFA_DEALLOC_PD dr (wd_Device (dev_device edev)) ?ps
      sizeof_EFA_DEALLOC_PD_PARAMS () (w_drv w) = (rep, d)" by (metis surj_pair)
  have L: "if ioctl_status_nodata rep = 0 then L d = L (w_drv w) - {pd_number x} else L d = L (w_drv w)"
    using wf(1) ask unfolding pd_contract_def pd_number_def by (metis EFA_DEALLOC_PD_PARAMS.select_convs(1))
  show ?thesis using dealloc_pd_eq [OF p e ask] L wf
    by (intro exI [of _ "ioctl_status_nodata rep"]) (auto simp: s split: if_splits)
qed

lemma pd_release_stale: "pd_objs s p = None \<Longrightarrow> pd_release p s = None"
  by (cases s) (simp add: efa_dealloc_pd_def ibv_cmd_dealloc_pd_def)

interpretation pds: resource pd_objs pd_number pd_held pd_wf pd_can pd_alloc pd_release
proof (unfold_locales, goal_cases)
  case (1 s i p s') then show ?case using pd_alloc_law [OF 1] by simp
next
  case (2 s i s') then show ?case using pd_alloc_law [OF 2] by simp
next
  case (3 s p x) then show ?case using pd_release_law [OF 3] by auto
next
  case (4 s p) then show ?case by (rule pd_release_stale)
next
  case (5 s p x s') then show ?case using pd_release_law [OF 5(1,2)] by auto
next
  case (6 s p x e s') then show ?case using pd_release_law [OF 6(1,2)] by auto
qed

section \<open>Memory regions\<close>

text \<open>The same of memory regions, which the driver knows by their local key.\<close>

definition mr_contract :: "'d driver \<Rightarrow> ('d \<Rightarrow> u32 set) \<Rightarrow> bool" where
  "mr_contract dr L \<longleftrightarrow>
     (\<forall>h ps out d r d'. IOCTL_EFA_REG_MR dr h ps sizeof_EFA_REG_MR_PARAMS out d = (r, d') \<longrightarrow>
        (if ioctl_status r sizeof_EFA_MR_INFO = 0
         then mi_LKey (outBuffer r) \<notin> L d \<and> L d' = insert (mi_LKey (outBuffer r)) (L d)
         else L d' = L d)) \<and>
     (\<forall>h ps d r d'. IOCTL_EFA_DEREG_MR dr h ps sizeof_EFA_DEREG_MR_PARAMS () d = (r, d') \<longrightarrow>
        (if ioctl_status_nodata r = 0 then L d' = L d - {dmr_LKey ps} else L d' = L d))"

fun mr_objs :: "('d, u32) system \<Rightarrow> ptr \<rightharpoonup> efa_mr" where "mr_objs (dr, L, w) = w_mrs w"
fun mr_held :: "('d, u32) system \<Rightarrow> u32 set" where "mr_held (dr, L, w) = L (w_drv w)"

fun mr_wf :: "('d, u32) system \<Rightarrow> bool" where
  "mr_wf (dr, L, w) \<longleftrightarrow> mr_contract dr L \<and>
     (\<forall>p x. w_mrs w p = Some x \<longrightarrow> edev_at w (mr_context x) \<noteq> None)"

text \<open>What is asked: the range, the address it is to have, and the access flags.\<close>

record mr_request =
  req_mem :: "ptr option"
  req_pd :: ptr
  req_addr :: u64
  req_len :: u64
  req_hca :: u64
  req_access :: i32

fun mr_can :: "mr_request \<Rightarrow> ('d, u32) system \<Rightarrow> bool" where
  "mr_can i (dr, L, w) \<longleftrightarrow> (\<forall>p. req_mem i = Some p \<longrightarrow> w_mrs w p = None) \<and>
     (\<exists>pd. w_pds w (req_pd i) = Some pd \<and> edev_at w (pd_context pd) \<noteq> None)"

fun mr_alloc :: "mr_request \<Rightarrow> ('d, u32) system \<Rightarrow> (ptr option \<times> ('d, u32) system) option" where
  "mr_alloc i (dr, L, w) = map_option (\<lambda>(r, w'). (r, dr, L, w'))
     (efa_reg_mr dr (req_mem i) (req_pd i) (req_addr i) (req_len i) (req_hca i) (req_access i) w)"

fun mr_release :: "ptr \<Rightarrow> ('d, u32) system \<Rightarrow> (int \<times> ('d, u32) system) option" where
  "mr_release p (dr, L, w) = map_option (\<lambda>(e, w'). (e, dr, L, w')) (efa_dereg_mr dr p w)"

lemma mr_alloc_law:
  assumes "mr_wf s" "mr_can i s" "mr_alloc i s = Some (r, s')"
  shows "mr_wf s' \<and> (case r of
      None \<Rightarrow> mr_objs s' = mr_objs s \<and> mr_held s' = mr_held s
    | Some p \<Rightarrow> mr_objs s p = None \<and> (\<exists>x. mr_objs s' = (mr_objs s)(p \<mapsto> x) \<and>
        mr_lkey x \<notin> mr_held s \<and> mr_held s' = insert (mr_lkey x) (mr_held s)))"
proof -
  obtain dr L w where s: "s = (dr, L, w)" by (cases s)
  from assms(1) have wf: "mr_contract dr L" "\<And>p x. w_mrs w p = Some x \<Longrightarrow> edev_at w (mr_context x) \<noteq> None"
    by (auto simp: s)
  obtain pd edev where e: "w_pds w (req_pd i) = Some pd" "edev_at w (pd_context pd) = Some edev"
    using assms(2) by (auto simp: s)
  show ?thesis
  proof (cases "req_mem i")
    case None
    then show ?thesis using assms(3) wf by (auto simp: s efa_reg_mr_def alloc_failed_def)
  next
    case (Some p)
    have p: "w_mrs w p = None" using assms(2) Some by (simp add: s)
    define ps where "ps = \<lparr>rmr_MrLen = req_len i, rmr_MrAddr = req_addr i, rmr_Pdn = ucast (pd_handle pd),
      rmr_Permissions = ucast (req_access i)\<rparr>"
    obtain rep d where ask: "IOCTL_EFA_REG_MR dr (wd_Device (dev_device edev)) ps sizeof_EFA_REG_MR_PARAMS
        \<lparr>mi_LKey = 0, mi_RKey = 0\<rparr> (w_drv w) = (rep, d)" by (metis surj_pair)
    have L: "if ioctl_status rep sizeof_EFA_MR_INFO = 0
         then mi_LKey (outBuffer rep) \<notin> L (w_drv w) \<and> L d = insert (mi_LKey (outBuffer rep)) (L (w_drv w))
         else L d = L (w_drv w)"
      using wf(1) ask unfolding mr_contract_def by blast
    have win: "efa_win_register_mr dr (dev_device edev) ps \<lparr>mi_LKey = 0, mi_RKey = 0\<rparr> (w_drv w) =
        (ioctl_status rep sizeof_EFA_MR_INFO, outBuffer rep, d)" by (simp add: efa_win_register_mr_def ask)
    show ?thesis
    proof (cases "ioctl_status rep sizeof_EFA_MR_INFO = 0")
      case True
      define x where "x = zero_mr\<lparr>mr_addr := req_addr i, mr_context := pd_context pd, mr_handle := 0,
        mr_length := req_len i, mr_lkey := mi_LKey (outBuffer rep), mr_rkey := mi_RKey (outBuffer rep),
        mr_pd := Some (req_pd i)\<rparr>"
      have x: "mr_lkey x = mi_LKey (outBuffer rep)" "mr_context x = pd_context pd" by (simp_all add: x_def)
      have r: "r = Some p" "s' = (dr, L, w\<lparr>w_drv := d, w_mrs := (w_mrs w)(p \<mapsto> x)\<rparr>)"
        using assms(3) win True Some e
        by (auto simp: s efa_reg_mr_def ibv_cmd_reg_mr_def Let_def ps_def x_def)
      show ?thesis using L True wf e p x by (auto simp: s r intro!: exI [of _ x])
    next
      case False
      have r: "r = None" "w_mrs (snd (snd s')) = (w_mrs w)(p := None)" "w_drv (snd (snd s')) = d"
        "fst s' = dr" "fst (snd s') = L" "w_ctxs (snd (snd s')) = w_ctxs w" "w_devs (snd (snd s')) = w_devs w"
        using assms(3) win False Some e
        by (auto simp: s efa_reg_mr_def ibv_cmd_reg_mr_def Let_def ps_def)
      obtain w' where s': "s' = (dr, L, w')" using r(4,5) by (cases s') auto
      have "w_mrs w' = w_mrs w" using r(2) p by (simp add: s' fun_upd_idem)
      then show ?thesis using r L False wf by (auto simp: s s' edev_at_def)
    qed
  qed
qed

lemma mr_release_law:
  assumes "mr_wf s" "mr_objs s p = Some x"
  shows "\<exists>e s'. mr_release p s = Some (e, s') \<and> mr_wf s' \<and>
    (if e = 0 then mr_objs s' = (mr_objs s)(p := None) \<and> mr_held s' = mr_held s - {mr_lkey x}
     else mr_objs s' = mr_objs s \<and> mr_held s' = mr_held s)"
proof -
  obtain dr L w where s: "s = (dr, L, w)" by (cases s)
  from assms have wf: "mr_contract dr L" "\<And>p x. w_mrs w p = Some x \<Longrightarrow> edev_at w (mr_context x) \<noteq> None"
    and p: "w_mrs w p = Some x" by (auto simp: s)
  obtain edev where e: "edev_at w (mr_context x) = Some edev" using wf(2) [OF p] by auto
  then have c: "mr_context x \<noteq> None" by (cases "mr_context x") (auto simp: edev_at_def)
  obtain rep d where ask: "IOCTL_EFA_DEREG_MR dr (wd_Device (dev_device edev)) \<lparr>dmr_LKey = mr_lkey x\<rparr>
      sizeof_EFA_DEREG_MR_PARAMS () (w_drv w) = (rep, d)" by (metis surj_pair)
  have L: "if ioctl_status_nodata rep = 0 then L d = L (w_drv w) - {mr_lkey x} else L d = L (w_drv w)"
    using wf(1) ask unfolding mr_contract_def by (metis EFA_DEREG_MR_PARAMS.select_convs(1))
  have "efa_dereg_mr dr p w = Some (ioctl_status_nodata rep,
    if ioctl_status_nodata rep = 0 then w\<lparr>w_drv := d, w_mrs := (w_mrs w)(p := None)\<rparr> else w\<lparr>w_drv := d\<rparr>)"
    using p e c ask by (auto simp: efa_dereg_mr_def ibv_cmd_dereg_mr_def efa_win_dereg_mr_def)
  then show ?thesis using L wf
    by (intro exI [of _ "ioctl_status_nodata rep"]) (auto simp: s split: if_splits)
qed

lemma mr_release_stale: "mr_objs s p = None \<Longrightarrow> mr_release p s = None"
  by (cases s) (simp add: efa_dereg_mr_def ibv_cmd_dereg_mr_def)

interpretation mrs: resource mr_objs mr_lkey mr_held mr_wf mr_can mr_alloc mr_release
proof (unfold_locales, goal_cases)
  case (1 s i p s') then show ?case using mr_alloc_law [OF 1] by simp
next
  case (2 s i s') then show ?case using mr_alloc_law [OF 2] by simp
next
  case (3 s p x) then show ?case using mr_release_law [OF 3] by auto
next
  case (4 s p) then show ?case by (rule mr_release_stale)
next
  case (5 s p x s') then show ?case using mr_release_law [OF 5(1,2)] by auto
next
  case (6 s p x e s') then show ?case using mr_release_law [OF 6(1,2)] by auto
qed

section \<open>A driver that keeps books\<close>

text \<open>It has one protection domain and one memory region to give.\<close>

definition books_driver :: "ref_state driver" where
  "books_driver = ref_driver
     \<lparr>IOCTL_EFA_ALLOC_PD := (\<lambda>h i n out d. if rs_pds d = []
        then (granted \<lparr>pi_Pdn = 3\<rparr> sizeof_EFA_PD_INFO, d\<lparr>rs_pds := [3]\<rparr>) else (refused out, d)),
      IOCTL_EFA_DEALLOC_PD := (\<lambda>h i n out d.
        (granted out 0, d\<lparr>rs_pds := filter (\<lambda>k. of_nat k \<noteq> dpd_Pdn i) (rs_pds d)\<rparr>)),
      IOCTL_EFA_REG_MR := (\<lambda>h i n out d. if rs_mrs d = []
        then (granted \<lparr>mi_LKey = 4, mi_RKey = 4\<rparr> sizeof_EFA_MR_INFO, d\<lparr>rs_mrs := [4]\<rparr>)
        else (refused out, d)),
      IOCTL_EFA_DEREG_MR := (\<lambda>h i n out d.
        (granted out 0, d\<lparr>rs_mrs := filter (\<lambda>k. of_nat k \<noteq> dmr_LKey i) (rs_mrs d)\<rparr>))\<rparr>"

definition booked_pds :: "ref_state \<Rightarrow> u16 set" where "booked_pds d = of_nat ` set (rs_pds d)"
definition booked_mrs :: "ref_state \<Rightarrow> u32 set" where "booked_mrs d = of_nat ` set (rs_mrs d)"

lemma info_sizes: "sizeof_EFA_PD_INFO = 2" "sizeof_EFA_MR_INFO = 8"
  by code_simp+

lemma books_status [simp]:
  "ioctl_status (granted out sizeof_EFA_PD_INFO) sizeof_EFA_PD_INFO = 0"
  "ioctl_status (granted out' sizeof_EFA_MR_INFO) sizeof_EFA_MR_INFO = 0"
  by (rule granted_status, simp add: info_sizes)+

lemma books_del: "of_nat ` set (filter (\<lambda>k. of_nat k \<noteq> x) xs) = of_nat ` set xs - {x}"
  by auto

lemma books_contracts: "pd_contract books_driver booked_pds" "mr_contract books_driver booked_mrs"
proof -
  show "pd_contract books_driver booked_pds"
    unfolding pd_contract_def
    by (intro conjI allI impI)
      (simp_all add: books_driver_def booked_pds_def split: if_splits, auto)
  show "mr_contract books_driver booked_mrs"
    unfolding mr_contract_def
    by (intro conjI allI impI)
      (simp_all add: books_driver_def booked_mrs_def split: if_splits, auto)
qed

section \<open>The properties\<close>

text \<open>C31: the driver's books of protection domains agree with the process. After any run of
  allocations (whose \<open>calloc\<close> or request may fail) and releases (which the driver may refuse),
  starting with none, the numbers the driver has booked are those of the live \<open>struct efa_pd\<close>,
  no two of which share one; and every live one can be released.\<close>

theorem pd_books:
  assumes "pd_contract dr L" and "w_pds w0 = Map.empty" and "L (w_drv w0) = {}"
    and "resource_run pd_can pd_alloc pd_release (dr, L, w0) (dr, L, w)"
  shows "L (w_drv w) = {pd_number x | p x. w_pds w p = Some x} \<and>
    (\<forall>p q x y. w_pds w p = Some x \<longrightarrow> w_pds w q = Some y \<longrightarrow> pd_number x = pd_number y \<longrightarrow> p = q) \<and>
    (\<forall>p. w_pds w p \<noteq> None \<longrightarrow> efa_dealloc_pd dr p w \<noteq> None)"
proof -
  have start: "pd_wf (dr, L, w0)" "pd_objs (dr, L, w0) = Map.empty" "pd_held (dr, L, w0) = {}"
    using assms(1-3) by simp_all
  note fin = pds.run_empty [OF assms(4) start]
  have "L (w_drv w) = {pd_number x | p x. w_pds w p = Some x}"
    using fin by (auto simp: books_ok_def ran_def)
  moreover have "efa_dealloc_pd dr p w \<noteq> None" if "w_pds w p \<noteq> None" for p
    using fin [of p] that by auto
  ultimately show ?thesis using fin unfolding books_ok_def by auto
qed

theorem pd_books_witness:
  "\<exists>w. efa_alloc_pd books_driver (Some 8) (Some 0) ((ref_world False)\<lparr>w_pds := Map.empty\<rparr>) = Some (Some 8, w) \<and>
     booked_pds (w_drv w) = {pd_number x | p x. w_pds w p = Some x} \<and> efa_dealloc_pd books_driver 8 w \<noteq> None"
proof -
  let ?w0 = "(ref_world False)\<lparr>w_pds := Map.empty\<rparr>"
  have e: "edev_at ?w0 (Some 0) = Some ref_dev" by (simp add: ref_world_def edev_at_def ref_ctx_def)
  obtain w where run: "efa_alloc_pd books_driver (Some 8) (Some 0) ?w0 = Some (Some 8, w)"
    "w_pds w 8 \<noteq> None"
  proof -
    have "IOCTL_EFA_ALLOC_PD books_driver (wd_Device (dev_device ref_dev)) () 0 \<lparr>pi_Pdn = 0\<rparr> (w_drv ?w0) =
        (granted \<lparr>pi_Pdn = 3\<rparr> sizeof_EFA_PD_INFO, (w_drv ?w0)\<lparr>rs_pds := [3]\<rparr>)"
      by (simp add: books_driver_def ref_world_def ref_state0_def)
    from alloc_pd_eq [OF e _ this, of 8]
    have "efa_alloc_pd books_driver (Some 8) (Some 0) ?w0 = Some (Some 8,
        ?w0\<lparr>w_drv := (w_drv ?w0)\<lparr>rs_pds := [3]\<rparr>,
          w_pds := [8 \<mapsto> \<lparr>pd_context = Some 0, pd_handle = 3, pdn = 0\<rparr>]\<rparr>)" by simp
    then show ?thesis by (rule that) simp
  qed
  have "resource_run pd_can pd_alloc pd_release (books_driver, booked_pds, ?w0) (books_driver, booked_pds, w)"
    by (rule resource_run.alloc [OF resource_run.start, of _ "(Some 8, Some 0)"])
      (use e run in auto)
  from pd_books [OF books_contracts(1) _ _ this] show ?thesis
    using run by (auto simp: booked_pds_def ref_world_def ref_state0_def)
qed

text \<open>The driver's books of memory regions agree with the process, in the same sense: the local
  keys the driver has registered are those of the live \<open>struct ibv_mr\<close>, no two of which share
  one, whatever registrations fail and whatever deregistrations the driver refuses.\<close>

theorem mr_books:
  assumes "mr_contract dr L" and "w_mrs w0 = Map.empty" and "L (w_drv w0) = {}"
    and "resource_run mr_can mr_alloc mr_release (dr, L, w0) (dr, L, w)"
  shows "L (w_drv w) = {mr_lkey x | p x. w_mrs w p = Some x} \<and>
    (\<forall>p q x y. w_mrs w p = Some x \<longrightarrow> w_mrs w q = Some y \<longrightarrow> mr_lkey x = mr_lkey y \<longrightarrow> p = q) \<and>
    (\<forall>p. w_mrs w p \<noteq> None \<longrightarrow> efa_dereg_mr dr p w \<noteq> None)"
proof -
  have start: "mr_wf (dr, L, w0)" "mr_objs (dr, L, w0) = Map.empty" "mr_held (dr, L, w0) = {}"
    using assms(1-3) by simp_all
  note fin = mrs.run_empty [OF assms(4) start]
  have "L (w_drv w) = {mr_lkey x | p x. w_mrs w p = Some x}"
    using fin by (auto simp: books_ok_def ran_def)
  moreover have "efa_dereg_mr dr p w \<noteq> None" if "w_mrs w p \<noteq> None" for p
    using fin [of p] that by auto
  ultimately show ?thesis using fin unfolding books_ok_def by auto
qed

theorem mr_books_witness:
  "\<exists>w. efa_reg_mr books_driver (Some 8) 2 4096 64 4096 1 (ref_world False) = Some (Some 8, w) \<and>
     booked_mrs (w_drv w) = {mr_lkey x | p x. w_mrs w p = Some x} \<and> efa_dereg_mr books_driver 8 w \<noteq> None"
proof -
  let ?i = "\<lparr>req_mem = Some 8, req_pd = 2, req_addr = 4096, req_len = 64, req_hca = 4096, req_access = 1\<rparr>"
  obtain w where run: "efa_reg_mr books_driver (Some 8) 2 4096 64 4096 1 (ref_world False) = Some (Some 8, w)"
    "w_mrs w 8 \<noteq> None"
    by (simp add: efa_reg_mr_def ibv_cmd_reg_mr_def efa_win_register_mr_def edev_at_def Let_def)
      (simp add: books_driver_def ref_world_def ref_state0_def ref_ctx_def)
  have "resource_run mr_can mr_alloc mr_release (books_driver, booked_mrs, ref_world False) (books_driver, booked_mrs, w)"
    by (rule resource_run.alloc [OF resource_run.start, of _ ?i])
      (use run in \<open>auto simp: ref_world_def edev_at_def ref_ctx_def\<close>)
  from mr_books [OF books_contracts(2) _ _ this] show ?thesis
    using run by (auto simp: booked_mrs_def ref_world_def ref_state0_def)
qed

end
