(* ===== verification/Efa_Posting.thy ===== *)
theory Efa_Posting
  imports Efa_Capacity Efa_Rq
begin

text \<open>
  Posting whatever the application hands over. The other theories on posting ask for well-formed
  requests; here the requests are arbitrary and the calls may fail at any of them.
\<close>

section \<open>What posting does to a work queue\<close>

text \<open>
  \<open>wq'\<close> holds \<open>n\<close> requests more than \<open>wq\<close>: it is well formed, every identifier handed out
  before keeps its tag, and the room has shrunk by \<open>n\<close>.
\<close>

definition wq_takes :: "nat \<Rightarrow> efa_wq \<Rightarrow> efa_wq \<Rightarrow> bool" where
  "wq_takes n wq wq' \<longleftrightarrow>
     wq_ready wq' \<and> wq_tags wq \<subseteq>\<^sub>m wq_tags wq' \<and> wq_room wq = wq_room wq' + n"

lemma wq_takes_0: "wq_ready wq \<Longrightarrow> wq_takes 0 wq wq"
  by (simp add: wq_takes_def)

lemma wq_takes_trans: "wq_takes m a b \<Longrightarrow> wq_takes n b c \<Longrightarrow> wq_takes (m + n) a c"
  by (auto simp: wq_takes_def intro: map_le_trans)

lemma wq_takes_lock [simp]:
  "wq_takes n (wq\<lparr>wqlock := l\<rparr>) wq' = wq_takes n wq wq'"
  "wq_takes n wq (wq'\<lparr>wqlock := l\<rparr>) = wq_takes n wq wq'"
  by (simp_all add: wq_takes_def)

lemma wq_takes_one:
  assumes "wq_ready wq" and "wqe_posted wq - wqe_completed wq \<noteq> wqe_cnt wq"
    and "efa_wq_get_next_wrid_idx_locked wq tag = Some (i, wq1)"
    and "wrid wq2 = wrid wq1" "wrid_idx_pool wq2 = wrid_idx_pool wq1" "wqe_cnt wq2 = wqe_cnt wq1"
      "wrid_idx_pool_next wq2 = wrid_idx_pool_next wq1" "wqe_completed wq2 = wqe_completed wq1"
      "wqe_posted wq2 = wqe_posted wq1 + 1"
  shows "wq_takes 1 wq wq2"
proof -
  have room: "0 < wq_room wq" using assms(2) counts_full [OF assms(1)] by auto
  show ?thesis
  proof (rule wq_take [OF assms(1) room, of tag], goal_cases)
    case (1 j wq')
    have same: "wq' = wq1" "j = i" using 1(1) assms(3) by simp_all
    have w: "wq_ready wq2 \<and> wq_room wq2 = wq_room wq - 1 \<and> wq_tags wq2 = (wq_tags wq)(unat i \<mapsto> tag)"
      using 1(4) [of wq2] assms(4-9) same by simp
    have "wq_tags wq \<subseteq>\<^sub>m (wq_tags wq)(unat i \<mapsto> tag)"
      using 1(2) same unfolding map_le_def
      by (metis (no_types, lifting) domIff fun_upd_other)
    then show ?case using w room by (simp add: wq_takes_def)
  qed
qed

text \<open>How many requests were posted when \<open>*bad\<close> was set to \<open>bad\<close>.\<close>

definition posted_of :: "'r list \<Rightarrow> 'r list option \<Rightarrow> nat" where
  "posted_of wrs bad = length wrs - (case bad of None \<Rightarrow> 0 | Some rest \<Rightarrow> length rest)"

lemma posted_of_simps [simp]: "posted_of wrs None = length wrs" "posted_of wrs (Some wrs) = 0"
  by (simp_all add: posted_of_def)

section \<open>The send side\<close>

lemma validate_has_room:
  "efa_post_send_validate_wr qp wr = Some 0 \<Longrightarrow>
     wqe_posted (sq_wq (qp_sq qp)) - wqe_completed (sq_wq (qp_sq qp)) \<noteq> wqe_cnt (sq_wq (qp_sq qp))"
  by (auto simp: efa_post_send_validate_wr_def efa_post_send_validate_def Let_def split: if_splits)

lemma build_takes:
  assumes "build_send_wqe mem ahs sq wr = Some (w, sq1)" and "wq_ready (sq_wq sq)"
    and "wqe_posted (sq_wq sq) - wqe_completed (sq_wq sq) \<noteq> wqe_cnt (sq_wq sq)"
  shows "wq_takes 1 (sq_wq sq) (sq_wq (efa_sq_advance_post_idx sq1))"
proof -
  obtain i wq1 where g: "efa_wq_get_next_wrid_idx_locked (sq_wq sq) (sw_wr_id wr) = Some (i, wq1)"
    "sq1 = sq\<lparr>sq_wq := wq1\<rparr>"
    using assms(1) by (auto simp: build_send_wqe_def bind_eq_Some_conv)
  show ?thesis
    by (rule wq_takes_one [OF assms(2,3) g(1)]) (simp_all add: g(2) efa_sq_advance_post_idx_def)
qed

lemma post_send_loop_takes:
  assumes "post_send_loop mem ahs qp cb tr wrs = Some (err, bad, qp', cb', tr')"
    and "wq_ready (sq_wq (qp_sq qp))"
  shows "wq_takes (posted_of wrs bad) (sq_wq (qp_sq qp)) (sq_wq (qp_sq qp')) \<and>
     qp' = qp\<lparr>qp_sq := qp_sq qp'\<rparr> \<and> max_batch_wr (qp_sq qp') = max_batch_wr (qp_sq qp) \<and>
     (case bad of None \<Rightarrow> err = 0 | Some rest \<Rightarrow> err \<noteq> 0 \<and> length rest \<le> length wrs)"
  using assms
proof (induction wrs arbitrary: qp cb tr)
  case Nil
  then show ?case by (auto simp: wq_takes_0)
next
  case (Cons wr wrs)
  obtain e where e: "efa_post_send_validate_wr qp wr = Some e"
    using Cons.prems(1) by (auto simp: bind_eq_Some_conv)
  show ?case
  proof (cases "e = 0")
    case False
    then show ?thesis using Cons.prems e by (auto simp: wq_takes_0)
  next
    case True
    obtain w sq1 where b: "build_send_wqe mem ahs (qp_sq qp) wr = Some (w, sq1)"
      using Cons.prems(1) e True by (auto simp: bind_eq_Some_conv)
    let ?qp = "qp\<lparr>qp_sq := efa_sq_advance_post_idx sq1\<rparr>"
    have one: "wq_takes 1 (sq_wq (qp_sq qp)) (sq_wq (qp_sq ?qp))"
      using build_takes [OF b Cons.prems(2)] validate_has_room e True by simp
    have mb: "max_batch_wr (qp_sq ?qp) = max_batch_wr (qp_sq qp)"
      using build_send_wqe_frame [OF b] by (simp add: sq_frame_def)
    obtain cb2 tr2 where r: "post_send_loop mem ahs ?qp cb2 tr2 wrs = Some (err, bad, qp', cb', tr')"
      using Cons.prems(1) e True b by (auto simp: bind_eq_Some_conv Let_def split: if_splits)
    have IH: "wq_takes (posted_of wrs bad) (sq_wq (qp_sq ?qp)) (sq_wq (qp_sq qp'))"
      "qp' = ?qp\<lparr>qp_sq := qp_sq qp'\<rparr>" "max_batch_wr (qp_sq qp') = max_batch_wr (qp_sq ?qp)"
      "case bad of None \<Rightarrow> err = 0 | Some rest \<Rightarrow> err \<noteq> 0 \<and> length rest \<le> length wrs"
      using Cons.IH [OF r] one by (auto simp: wq_takes_def)
    have n: "posted_of (wr # wrs) bad = 1 + posted_of wrs bad"
      using IH(4) by (cases bad) (auto simp: posted_of_def)
    have "qp' = qp\<lparr>qp_sq := qp_sq qp'\<rparr>" by (subst IH(2)) simp
    then show ?thesis
      using wq_takes_trans [OF one IH(1)] IH(3,4) mb unfolding n by (auto split: option.splits)
  qed
qed

lemma post_send_takes:
  assumes "efa_post_send mem ahs qp wrs tr = Some (err, bad, qp', tr')"
    and "wq_ready (sq_wq (qp_sq qp))"
  shows "wq_takes (posted_of wrs bad) (sq_wq (qp_sq qp)) (sq_wq (qp_sq qp')) \<and>
     qp' = qp\<lparr>qp_sq := qp_sq qp'\<rparr> \<and> max_batch_wr (qp_sq qp') = max_batch_wr (qp_sq qp) \<and>
     (case bad of None \<Rightarrow> err = 0 | Some rest \<Rightarrow> err \<noteq> 0 \<and> length rest \<le> length wrs)"
proof -
  let ?qp = "set_sq_lock qp (pthread_spin_lock (wqlock (sq_wq (qp_sq qp))))"
  obtain qp1 cb tr0 tr1 l where loop: "post_send_loop mem ahs ?qp 0 tr0 wrs = Some (err, bad, qp1, cb, tr1)"
    and q': "qp' = set_sq_lock qp1 l"
    using assms(1) by (auto simp: efa_post_send_def mmio_wc_spinlock_def Let_def bind_eq_Some_conv)
  have "wq_ready (sq_wq (qp_sq ?qp))" using assms(2) by (simp add: set_sq_lock_def)
  note L = post_send_loop_takes [OF loop this]
  obtain x where "qp1 = ?qp\<lparr>qp_sq := x\<rparr>" using L by blast
  then have "qp' = qp\<lparr>qp_sq := qp_sq qp'\<rparr>" by (simp add: q' set_sq_lock_def)
  then show ?thesis using L by (simp add: q' set_sq_lock_def)
qed

section \<open>The receive side\<close>

text \<open>What the inner loop cannot touch, whatever the request says.\<close>

definition pool_same :: "efa_wq \<Rightarrow> efa_wq \<Rightarrow> bool" where
  "pool_same wq wq' \<longleftrightarrow> wrid wq' = wrid wq \<and> wrid_idx_pool wq' = wrid_idx_pool wq \<and>
     wqe_cnt wq' = wqe_cnt wq \<and> wrid_idx_pool_next wq' = wrid_idx_pool_next wq \<and>
     wqe_completed wq' = wqe_completed wq \<and> wqe_posted wq' = wqe_posted wq"

lemma post_recv_sge_pool:
  "post_recv_sge wr buf i (d, wq, tr) = Some (d', wq', tr') \<Longrightarrow> pool_same wq wq'"
  by (auto simp: post_recv_sge_def Let_def bind_eq_Some_conv pool_same_def split: if_splits)

lemma recv_sges_pool:
  assumes "for_range 0 n (post_recv_sge wr buf) (d, wq, tr) = Some (d', wq', tr')"
  shows "pool_same wq wq'"
proof -
  have "(\<lambda>i (d, wq', tr). pool_same wq wq') (0 + n) (d', wq', tr')"
    by (rule for_range_inv [OF assms])
      (auto simp: pool_same_def dest!: post_recv_sge_pool)
  then show ?thesis by simp
qed

lemma post_recv_wr_takes:
  assumes "post_recv_wr wr buf wq tr = Some (wq', tr')" and "wq_ready wq"
    and "wqe_posted wq - wqe_completed wq \<noteq> wqe_cnt wq"
  shows "wq_takes 1 wq wq'"
proof -
  obtain i wq1 d0 d where g: "efa_wq_get_next_wrid_idx_locked wq (rw_wr_id wr) = Some (i, wq1)"
    and f: "for_range 0 (unat (size_of_int (rw_num_sge wr))) (post_recv_sge wr buf)
       (d0, wq1\<lparr>wqe_posted := wqe_posted wq1 + 1\<rparr>, tr) = Some (d, wq', tr')"
    using assms(1) by (auto simp: post_recv_wr_def Let_def bind_eq_Some_conv)
  note p = recv_sges_pool [OF f, unfolded pool_same_def]
  show ?thesis by (rule wq_takes_one [OF assms(2,3) g]) (use p in simp_all)
qed

lemma post_recv_loop_takes:
  assumes "post_recv_loop qp tr wrs = Some (err, bad, qp', tr')" and "wq_ready (rq_wq (qp_rq qp))"
  shows "wq_takes (posted_of wrs bad) (rq_wq (qp_rq qp)) (rq_wq (qp_rq qp')) \<and>
     qp' = qp\<lparr>qp_rq := qp_rq qp'\<rparr> \<and>
     (case bad of None \<Rightarrow> err = 0 | Some rest \<Rightarrow> err \<noteq> 0 \<and> length rest \<le> length wrs)"
  using assms
proof (induction wrs arbitrary: qp tr)
  case Nil
  then show ?case by (auto simp: wq_takes_0)
next
  case (Cons wr wrs)
  show ?case
  proof (cases "efa_post_recv_validate qp wr = 0")
    case False
    then show ?thesis using Cons.prems by (auto simp: wq_takes_0 Let_def)
  next
    case True
    obtain wq tr1 where b: "post_recv_wr wr (rq_buf (qp_rq qp)) (rq_wq (qp_rq qp)) tr = Some (wq, tr1)"
      "post_recv_loop (set_rq_wq qp wq) tr1 wrs = Some (err, bad, qp', tr')"
      using Cons.prems(1) True by (auto simp: bind_eq_Some_conv)
    have "wqe_posted (rq_wq (qp_rq qp)) - wqe_completed (rq_wq (qp_rq qp)) \<noteq> wqe_cnt (rq_wq (qp_rq qp))"
      using True by (auto simp: efa_post_recv_validate_def Let_def split: if_splits)
    from post_recv_wr_takes [OF b(1) Cons.prems(2) this]
    have one: "wq_takes 1 (rq_wq (qp_rq qp)) (rq_wq (qp_rq (set_rq_wq qp wq)))" by simp
    have IH: "wq_takes (posted_of wrs bad) (rq_wq (qp_rq (set_rq_wq qp wq))) (rq_wq (qp_rq qp'))"
      "qp' = (set_rq_wq qp wq)\<lparr>qp_rq := qp_rq qp'\<rparr>"
      "case bad of None \<Rightarrow> err = 0 | Some rest \<Rightarrow> err \<noteq> 0 \<and> length rest \<le> length wrs"
      using Cons.IH [OF b(2)] one by (auto simp: wq_takes_def)
    have n: "posted_of (wr # wrs) bad = 1 + posted_of wrs bad"
      using IH(3) by (cases bad) (auto simp: posted_of_def)
    have "qp' = qp\<lparr>qp_rq := qp_rq qp'\<rparr>" by (subst IH(2)) (simp add: set_rq_wq_def)
    then show ?thesis
      using wq_takes_trans [OF one IH(1)] IH(3) unfolding n by (auto split: option.splits)
  qed
qed

lemma post_recv_takes:
  assumes "efa_post_recv qp wrs tr = Some (err, bad, qp', tr')" and "wq_ready (rq_wq (qp_rq qp))"
  shows "wq_takes (posted_of wrs bad) (rq_wq (qp_rq qp)) (rq_wq (qp_rq qp')) \<and>
     qp' = qp\<lparr>qp_rq := qp_rq qp'\<rparr> \<and>
     (case bad of None \<Rightarrow> err = 0 | Some rest \<Rightarrow> err \<noteq> 0 \<and> length rest \<le> length wrs)"
proof -
  let ?qp = "set_rq_wq qp ((rq_wq (qp_rq qp))\<lparr>wqlock := pthread_spin_lock (wqlock (rq_wq (qp_rq qp)))\<rparr>)"
  obtain qp1 tr1 l where loop: "post_recv_loop ?qp tr wrs = Some (err, bad, qp1, tr1)"
    and q': "qp' = set_rq_wq qp1 ((rq_wq (qp_rq qp1))\<lparr>wqlock := l\<rparr>)"
    using assms(1) by (auto simp: efa_post_recv_def Let_def bind_eq_Some_conv)
  have "wq_ready (rq_wq (qp_rq ?qp))" using assms(2) by simp
  note L = post_recv_loop_takes [OF loop this]
  obtain x where "qp1 = ?qp\<lparr>qp_rq := x\<rparr>" using L by blast
  then have "qp' = qp\<lparr>qp_rq := qp_rq qp'\<rparr>" by (simp add: q' set_rq_wq_def)
  then show ?thesis using L by (simp add: q')
qed

section \<open>Any run of posting calls\<close>

text \<open>
  \<open>posting_run qp s r qp'\<close>: a sequence of calls of \<open>efa_post_send\<close> and \<open>efa_post_recv\<close>, on any
  lists and with any results, leads from \<open>qp\<close> to \<open>qp'\<close>; by what they returned, \<open>s\<close> sends and
  \<open>r\<close> receives were posted.
\<close>

inductive posting_run :: "efa_qp \<Rightarrow> nat \<Rightarrow> nat \<Rightarrow> efa_qp \<Rightarrow> bool" for qp where
  start: "posting_run qp 0 0 qp"
| send: "posting_run qp s r q \<Longrightarrow> efa_post_send mem ahs q wrs tr = Some (err, bad, q', tr') \<Longrightarrow>
    posting_run qp (s + posted_of wrs bad) r q'"
| recv: "posting_run qp s r q \<Longrightarrow> efa_post_recv q rwrs tr = Some (err, rbad, q', tr') \<Longrightarrow>
    posting_run qp s (r + posted_of rwrs rbad) q'"

inductive_cases posting_runE: "posting_run qp s r qp'"

definition qp_queues_ok :: "efa_qp \<Rightarrow> bool" where
  "qp_queues_ok qp \<longleftrightarrow> sq_ok (qp_sq qp) \<and> wq_ready (rq_wq (qp_rq qp))"

lemma posting_run_takes:
  assumes "posting_run qp s r qp'" and "qp_queues_ok qp"
  shows "qp_queues_ok qp' \<and> wq_takes s (sq_wq (qp_sq qp)) (sq_wq (qp_sq qp')) \<and>
    wq_takes r (rq_wq (qp_rq qp)) (rq_wq (qp_rq qp')) \<and>
    qp' = qp\<lparr>qp_sq := qp_sq qp', qp_rq := qp_rq qp'\<rparr>"
  using assms
proof (induction rule: posting_run.induct)
  case start
  then show ?case by (simp add: qp_queues_ok_def sq_ok_def wq_takes_0)
next
  case (send s r q mem ahs wrs tr err bad q' tr')
  then have IH: "qp_queues_ok q" "wq_takes s (sq_wq (qp_sq qp)) (sq_wq (qp_sq q))"
    "wq_takes r (rq_wq (qp_rq qp)) (rq_wq (qp_rq q))" "q = qp\<lparr>qp_sq := qp_sq q, qp_rq := qp_rq q\<rparr>"
    by blast+
  have p: "wq_takes (posted_of wrs bad) (sq_wq (qp_sq q)) (sq_wq (qp_sq q'))"
    "q' = q\<lparr>qp_sq := qp_sq q'\<rparr>" "max_batch_wr (qp_sq q') = max_batch_wr (qp_sq q)"
    using post_send_takes [OF send.hyps(2)] IH(1) by (simp_all add: qp_queues_ok_def sq_ok_def)
  have rq: "qp_rq q' = qp_rq q" by (subst p(2)) simp
  have "q' = qp\<lparr>qp_sq := qp_sq q', qp_rq := qp_rq q'\<rparr>"
    unfolding rq by (subst p(2), subst IH(4)) simp
  then show ?case using IH(1,3) wq_takes_trans [OF IH(2) p(1)] p(1,3) rq
    by (simp add: qp_queues_ok_def sq_ok_def wq_takes_def)
next
  case (recv s r q rwrs tr err rbad q' tr')
  then have IH: "qp_queues_ok q" "wq_takes s (sq_wq (qp_sq qp)) (sq_wq (qp_sq q))"
    "wq_takes r (rq_wq (qp_rq qp)) (rq_wq (qp_rq q))" "q = qp\<lparr>qp_sq := qp_sq q, qp_rq := qp_rq q\<rparr>"
    by blast+
  have p: "wq_takes (posted_of rwrs rbad) (rq_wq (qp_rq q)) (rq_wq (qp_rq q'))"
    "q' = q\<lparr>qp_rq := qp_rq q'\<rparr>"
    using post_recv_takes [OF recv.hyps(2)] IH(1) by (simp_all add: qp_queues_ok_def)
  have sq: "qp_sq q' = qp_sq q" by (subst p(2)) simp
  have "q' = qp\<lparr>qp_sq := qp_sq q', qp_rq := qp_rq q'\<rparr>"
    unfolding sq by (subst p(2), subst IH(4)) simp
  then show ?case using IH(1,2) wq_takes_trans [OF IH(3) p(1)] p(1) sq
    by (simp add: qp_queues_ok_def wq_takes_def)
qed

text \<open>
  C32: posting keeps the type of a queue pair. Whatever requests the application hands to
  \<open>efa_post_send\<close> and \<open>efa_post_recv\<close>, in any order and however often they fail, both queues stay
  well formed, nothing but the two queues changes, every request posted before and not completed
  keeps its identifier and its tag, and the room shrinks by exactly the number of requests the
  calls reported as posted.
\<close>

theorem posting_keeps_type:
  assumes "posting_run qp s r qp'" and "qp_queues_ok qp"
  shows "qp_queues_ok qp' \<and> qp' = qp\<lparr>qp_sq := qp_sq qp', qp_rq := qp_rq qp'\<rparr> \<and>
    wq_tags (sq_wq (qp_sq qp)) \<subseteq>\<^sub>m wq_tags (sq_wq (qp_sq qp')) \<and>
    wq_tags (rq_wq (qp_rq qp)) \<subseteq>\<^sub>m wq_tags (rq_wq (qp_rq qp')) \<and>
    sq_room (qp_sq qp) = sq_room (qp_sq qp') + s \<and>
    wq_room (rq_wq (qp_rq qp)) = wq_room (rq_wq (qp_rq qp')) + r"
  using posting_run_takes [OF assms] by (simp add: wq_takes_def sq_room_def)

text \<open>A send, and one with too much inline data; a receive, and one with too many elements.\<close>

definition ex_post_qp :: efa_qp where
  "ex_post_qp = ex_send_qp\<lparr>qp_rq := qp_rq ex_recv_qp\<rparr>"

lemma ex_post_qp_ok: "qp_queues_ok ex_post_qp" "sq_room (qp_sq ex_post_qp) = 4"
proof -
  have sq: "qp_sq ex_post_qp = qp_sq ex_send_qp" by (simp add: ex_post_qp_def)
  then show "sq_room (qp_sq ex_post_qp) = 4" by (simp only: ex_send_qp_ok)
  have rq: "rq_wq (qp_rq ex_post_qp) = wq_example\<lparr>wq_db := 0x8008\<rparr>"
    by (simp add: ex_post_qp_def ex_recv_qp_def)
  have "wq_inv (wq_example\<lparr>wq_db := 0x8008\<rparr>) = wq_inv wq_example"
    by (rule wq_view_cong; simp)
  then have "wq_ready (rq_wq (qp_rq ex_post_qp))"
    by (simp add: wq_ready_def rq wq_example_inv) (simp add: wq_counts_def wq_example_def)
  then show "qp_queues_ok ex_post_qp" by (simp add: qp_queues_ok_def sq ex_send_qp_ok)
qed

theorem posting_keeps_type_witness:
  "\<exists>qp'. posting_run ex_post_qp 1 1 qp' \<and> qp_queues_ok qp' \<and> sq_room (qp_sq qp') = 3"
proof -
  let ?wrs = "[ex_wr, ex_wr_long]"
    and ?rwrs = "[ex_recv_wr, ex_recv_wr\<lparr>rw_num_sge := 3, rw_sg_list := [zero_sge, zero_sge, zero_sge]\<rparr>]"
  have "do { (e, b, q, t) \<leftarrow> efa_post_send (\<lambda>_. 0) ex_ahs ex_post_qp ?wrs [];
             (e', b', q', t') \<leftarrow> efa_post_recv q ?rwrs [];
             Some (e, posted_of ?wrs b, e', posted_of ?rwrs b') } = Some (EINVAL, 1, EINVAL, 1)"
    by code_simp
  then obtain b q t b' q' t' where 1: "efa_post_send (\<lambda>_. 0) ex_ahs ex_post_qp ?wrs [] = Some (EINVAL, b, q, t)"
    "efa_post_recv q ?rwrs [] = Some (EINVAL, b', q', t')" "posted_of ?wrs b = 1" "posted_of ?rwrs b' = 1"
    by (auto simp: bind_eq_Some_conv)
  have run: "posting_run ex_post_qp 1 1 q'"
    using posting_run.recv [OF posting_run.send [OF posting_run.start 1(1)] 1(2)] 1(3,4) by simp
  show ?thesis using posting_keeps_type [OF run ex_post_qp_ok(1)] run ex_post_qp_ok(2) by auto
qed

end
