(* ===== verification/Efa_Delivery.thy ===== *)
theory Efa_Delivery
  imports Efa_Poll Efa_Equiv "HOL-Library.Multiset"
begin

text \<open>
  Posting, the device and polling together: every request posted on a queue pair whose completion
  the device writes is reported by \<open>efa_poll_cq\<close> with its own tag, exactly once, in the order of
  the completions, and gives its room back.
\<close>

section \<open>The head of a sub-queue\<close>

text \<open>
  The completions pending in sub-queue \<open>k\<close> of a completion queue: the ring \<open>r\<close> of \<open>Efa_Cq_Ring\<close>
  over its buffer. The entries are large enough for a receive descriptor.
\<close>

definition sub_chan :: "efa_cq \<Rightarrow> nat \<Rightarrow> nat \<Rightarrow> nat \<Rightarrow> nat \<Rightarrow> cq_ring \<Rightarrow> bool" where
  "sub_chan cq k base z e r \<longleftrightarrow>
     k < length (sub_cq_arr cq) \<and> cq_buf cq = Some (cr_mem r) \<and> sub_cq_arr cq ! k = cr_sub r \<and>
     ring_inv base z e (2 ^ e) r \<and> 16 \<le> z"

text \<open>Sub-queue \<open>k\<close> is in use, and no other has anything to read.\<close>

definition only_sub :: "efa_cq \<Rightarrow> nat \<Rightarrow> bool" where
  "only_sub cq k \<longleftrightarrow>
     length (sub_cq_arr cq) = unat (num_sub_cqs cq) \<and> next_poll_idx cq < num_sub_cqs cq \<and>
     sub_ref_cnt (sub_cq_arr cq ! k) \<noteq> 0 \<and>
     (\<forall>j < length (sub_cq_arr cq). j = k \<or> sub_idle cq j)"

text \<open>Clearing the phase bit of an entry changes nothing else the library reads.\<close>

definition clear_phase :: "efa_io_rx_cdesc \<Rightarrow> efa_io_rx_cdesc" where
  "clear_phase rc = rc\<lparr>rcd_common := (rcd_common rc)
     \<lparr>cd_flags := EFA_SET (cd_flags (rcd_common rc)) EFA_IO_CDESC_COMMON_PHASE_MASK 0\<rparr>\<rparr>"

lemma cdesc_without_phase:
  assumes "16 \<le> z" and "16 \<le> length xs"
  shows "rx_cdesc_of_bytes (set_cqe_phase (take z xs) 0) = clear_phase (rx_cdesc_of_bytes xs)"
proof -
  have 1: "length (take z xs) > 3" using assms by simp
  have f: "take (Suc 0) (drop 3 ys) = [ys ! 3]" if "3 < length ys" for ys :: "u8 list"
    using that by (simp add: take_Suc_conv_app_nth)
  have low: "take n (drop m (ys[3 := v])) = take n (drop m ys)" if "m + n \<le> 3" for m n v and ys :: "u8 list"
    using that by (simp add: take_drop add.commute)
  have high: "take n (drop m (ys[3 := v])) = take n (drop m ys)" if "3 < m" for m n v and ys :: "u8 list"
    using that by simp
  have cut: "take n (drop m (take z xs)) = take n (drop m xs)" if "m + n \<le> 16" for m n
    using that assms by (simp add: drop_take)
  have t: "take n (drop m ((take z xs)[3 := v])) = take n (drop m xs)"
    if "m + n \<le> 3 \<or> 4 \<le> m" "m + n \<le> 16" for m n and v :: u8
    using that low [of m n "take z xs" v] high [of m n "take z xs" v] cut [of m n] by auto
  show ?thesis
    unfolding rx_cdesc_of_bytes_def cdesc_common_of_bytes_def set_cqe_phase_def clear_phase_def
    using t [of 0 2] t [of 2 1] t [of 4 2] t [of 6 2] t [of 8 2] t [of 10 2] t [of 12 4]
      f [of xs] f [of "(take z xs)[3 := w]" for w] assms
    by simp
qed

lemma clear_phase_reads:
  "cd_req_id (rcd_common (clear_phase rc)) = cd_req_id (rcd_common rc)"
  "cd_qp_num (rcd_common (clear_phase rc)) = cd_qp_num (rcd_common rc)"
  "cqe_queue (clear_phase rc) p = cqe_queue rc p"
  "wc_reports (clear_phase rc) r tag wc = wc_reports rc r tag wc"
  by (simp_all add: clear_phase_def cqe_queue_def wc_reports_def cdesc_flag_fields
      split: wq_ref.split)

lemma chan_head:
  assumes "sub_chan cq k base z e r" and "ring_queue base z (2 ^ e) r = bs # rest"
  obtains off sub' rc r' where
    "cq_next_sub_cqe_get (cq_buf cq) (sub_cq_arr cq ! k) = Some (Some off, sub')"
    "deref_rx_cdesc (cq_buf cq) off = Some rc" "rx_cdesc_of_bytes bs = clear_phase rc"
    "cr_sub r' = sub'" "cr_mem r' = cr_mem r" "ring_inv base z e (2 ^ e) r'"
    "ring_queue base z (2 ^ e) r' = rest"
proof -
  have c: "cq_buf cq = Some (cr_mem r)" "sub_cq_arr cq ! k = cr_sub r" "ring_inv base z e (2 ^ e) r" "16 \<le> z"
    using assms(1) by (simp_all add: sub_chan_def)
  obtain r' where r': "lib_poll z r = Some (Some bs, r')" "ring_inv base z e (2 ^ e) r'"
    "ring_queue base z (2 ^ e) r' = rest"
    using cq_channel.deq_law [OF c(3)] assms(2) by auto
  obtain off sub' where g: "cq_next_sub_cqe_get (Some (cr_mem r)) (cr_sub r) = Some (Some off, sub')"
    "bs = set_cqe_phase (take z (drop off (cr_mem r))) 0"
    "r' = r\<lparr>cr_sub := sub', cr_cons := cr_cons r + 1\<rparr>"
    using r'(1) by (auto simp: lib_poll_def bind_eq_Some_conv split: option.splits)
  have "length bs = z" if "ring_queue base z (2 ^ e) r = bs # rest"
  proof -
    have "bs \<in> set (ring_queue base z (2 ^ e) r)" using that by simp
    then obtain j where "bs = set_cqe_phase (take z (drop (slot_off base z (2 ^ e) j) (cr_mem r))) 0"
      by (auto simp: ring_queue_def)
    moreover have "slot_off base z (2 ^ e) j + z \<le> length (cr_mem r)"
      using slot_off_bound [of "2 ^ e" base z j] c(3) by (auto simp: ring_inv_def ring_geom_def)
    ultimately show ?thesis by simp
  qed
  then have len: "16 \<le> length (drop off (cr_mem r))" using assms(2) g(2) c(4) by auto
  have "deref_rx_cdesc (cq_buf cq) off = Some (rx_cdesc_of_bytes (drop off (cr_mem r)))"
    using len by (simp add: deref_rx_cdesc_def c(1))
  moreover have "rx_cdesc_of_bytes bs = clear_phase (rx_cdesc_of_bytes (drop off (cr_mem r)))"
    unfolding g(2) by (rule cdesc_without_phase [OF c(4) len])
  ultimately show ?thesis using g(1,3) r'(2,3) c(1,2) by (intro that) simp_all
qed

lemma chan_empty:
  assumes "sub_chan cq k base z e r" and "ring_queue base z (2 ^ e) r = []"
  shows "sub_idle cq k"
proof -
  have c: "cq_buf cq = Some (cr_mem r)" "sub_cq_arr cq ! k = cr_sub r" "ring_inv base z e (2 ^ e) r"
    using assms(1) by (simp_all add: sub_chan_def)
  obtain r' where r': "lib_poll z r = Some (None, r')"
    using cq_channel.deq_law [OF c(3)] assms(2) by auto
  then obtain sub' where g: "cq_next_sub_cqe_get (Some (cr_mem r)) (cr_sub r) = Some (None, sub')"
    by (auto simp: lib_poll_def bind_eq_Some_conv split: option.splits)
  then show ?thesis using next_cqe_None [OF g] by (simp add: sub_idle_def c)
qed

section \<open>The loop over the sub-queues\<close>

text \<open>It gets to the first sub-queue that has something.\<close>

lemma poll_loop_reaches:
  assumes "length (sub_cq_arr (ps_cq st)) = unat (num_sub_cqs (ps_cq st))"
    and "next_poll_idx (ps_cq st) < num_sub_cqs (ps_cq st)"
    and "k = (unat (next_poll_idx (ps_cq st)) + d) mod unat (num_sub_cqs (ps_cq st))" "d < m"
    and "\<forall>d'<d. sub_idle (ps_cq st) ((unat (next_poll_idx (ps_cq st)) + d') mod unat (num_sub_cqs (ps_cq st)))"
    and "sub_ref_cnt (sub_cq_arr (ps_cq st) ! k) \<noteq> 0"
  shows "\<exists>c idx. idx < num_sub_cqs (ps_cq st) \<and>
    (\<forall>e' st'. efa_poll_sub_cq ctx k False (st\<lparr>ps_cq := (ps_cq st)\<lparr>next_poll_idx := idx, cur_cqe := c\<rparr>\<rparr>) = Some (e', st')
       \<longrightarrow> e' \<noteq> ENOENT \<longrightarrow> poll_sub_cqs_loop ctx False m err st = Some (e', st'))"
  using assms
proof (induction d arbitrary: st m err)
  case 0
  then obtain n where m: "m = Suc n" by (cases m) auto
  let ?idx = "(next_poll_idx (ps_cq st) + 1) mod num_sub_cqs (ps_cq st)"
  have pos: "0 < num_sub_cqs (ps_cq st)" using "0.prems"(2) by (simp add: word_less_nat_alt)
  have k: "k = unat (next_poll_idx (ps_cq st))" using "0.prems"(2,3) by (simp add: word_less_nat_alt)
  have same: "(ps_cq st)\<lparr>next_poll_idx := ?idx, cur_cqe := cur_cqe (ps_cq st)\<rparr> = (ps_cq st)\<lparr>next_poll_idx := ?idx\<rparr>"
    by simp
  have "?idx < num_sub_cqs (ps_cq st)" using pos by (simp add: word_less_nat_alt unat_mod_distrib)
  moreover have "k < length (sub_cq_arr (ps_cq st))" using k "0.prems"(1,2) by (simp add: word_less_nat_alt)
  ultimately show ?case
    by (intro exI [of _ "cur_cqe (ps_cq st)"] exI [of _ ?idx])
      (use "0.prems"(6) in \<open>simp add: m Let_def same k [symmetric] arr_get_def\<close>)
next
  case (Suc d)
  then obtain n where m: "m = Suc n" "d < n" by (cases m) auto
  let ?cq = "ps_cq st" and ?i = "unat (next_poll_idx (ps_cq st))"
  let ?idx = "(next_poll_idx ?cq + 1) mod num_sub_cqs ?cq"
  have pos: "0 < num_sub_cqs ?cq" using Suc.prems(2) by (simp add: word_less_nat_alt)
  have lt: "?idx < num_sub_cqs ?cq" using pos by (simp add: word_less_nat_alt unat_mod_distrib)
  have i: "?i < length (sub_cq_arr ?cq)" using Suc.prems(1,2) by (simp add: word_less_nat_alt)
  have u: "unat ?idx = (?i + 1) mod unat (num_sub_cqs ?cq)" by (rule next_idx [OF Suc.prems(2)])
  have at: "(unat ?idx + d') mod unat (num_sub_cqs ?cq) = (?i + Suc d') mod unat (num_sub_cqs ?cq)" for d'
    unfolding u by (simp add: mod_add_left_eq)
  have idle: "sub_idle ?cq ?i"
    using Suc.prems(2) Suc.prems(5) [rule_format, of 0] by (simp add: word_less_nat_alt)
  define c where "c = (if sub_ref_cnt (sub_cq_arr ?cq ! ?i) = 0 then cur_cqe ?cq else None)"
  define st1 where "st1 = st\<lparr>ps_cq := ?cq\<lparr>next_poll_idx := ?idx, cur_cqe := c\<rparr>\<rparr>"
  have step: "\<exists>err'. poll_sub_cqs_loop ctx False m err st = poll_sub_cqs_loop ctx False n err' st1"
  proof (cases "sub_ref_cnt (sub_cq_arr ?cq ! ?i) = 0")
    case True
    then show ?thesis using i by (intro exI [of _ err]) (simp add: m Let_def arr_get_def st1_def c_def)
  next
    case False
    then have "cq_next_sub_cqe_get (cq_buf ?cq) (sub_cq_arr ?cq ! ?i) = Some (None, sub_cq_arr ?cq ! ?i)"
      using idle by (simp add: sub_idle_def)
    then have "efa_poll_sub_cq ctx ?i False (st\<lparr>ps_cq := ?cq\<lparr>next_poll_idx := ?idx\<rparr>\<rparr>) = Some (ENOENT, st1)"
      using i False by (simp add: efa_poll_sub_cq_def Let_def arr_get_def st1_def c_def)
    then show ?thesis using i False by (intro exI [of _ ENOENT]) (simp add: m Let_def arr_get_def)
  qed
  then obtain err' where step': "poll_sub_cqs_loop ctx False m err st = poll_sub_cqs_loop ctx False n err' st1" ..
  have st1: "next_poll_idx (ps_cq st1) = ?idx" "num_sub_cqs (ps_cq st1) = num_sub_cqs ?cq"
    "sub_cq_arr (ps_cq st1) = sub_cq_arr ?cq" "cq_buf (ps_cq st1) = cq_buf ?cq"
    by (simp_all add: st1_def)
  have idle1: "\<forall>d'<d. sub_idle (ps_cq st1) ((unat (next_poll_idx (ps_cq st1)) + d') mod unat (num_sub_cqs (ps_cq st1)))"
    using Suc.prems(5) by (auto simp: st1(1,2) at idle_pending_cong [OF st1(3,4)])
  have "\<exists>c' idx. idx < num_sub_cqs (ps_cq st1) \<and>
    (\<forall>e' st'. efa_poll_sub_cq ctx k False (st1\<lparr>ps_cq := (ps_cq st1)\<lparr>next_poll_idx := idx, cur_cqe := c'\<rparr>\<rparr>) = Some (e', st')
       \<longrightarrow> e' \<noteq> ENOENT \<longrightarrow> poll_sub_cqs_loop ctx False n err' st1 = Some (e', st'))"
    by (rule Suc.IH) (use Suc.prems(1,3,6) lt idle1 m(2) in \<open>simp_all add: st1 at\<close>)
  then obtain c' idx where r: "idx < num_sub_cqs ?cq"
    "\<forall>e' st'. efa_poll_sub_cq ctx k False (st1\<lparr>ps_cq := (ps_cq st1)\<lparr>next_poll_idx := idx, cur_cqe := c'\<rparr>\<rparr>) = Some (e', st')
       \<longrightarrow> e' \<noteq> ENOENT \<longrightarrow> poll_sub_cqs_loop ctx False n err' st1 = Some (e', st')"
    by (auto simp: st1(2))
  have "st1\<lparr>ps_cq := (ps_cq st1)\<lparr>next_poll_idx := idx, cur_cqe := c'\<rparr>\<rparr> =
      st\<lparr>ps_cq := ?cq\<lparr>next_poll_idx := idx, cur_cqe := c'\<rparr>\<rparr>"
    by (simp add: st1_def)
  then show ?case using r step' by (intro exI [of _ c'] exI [of _ idx]) simp
qed

text \<open>It goes all round when nothing has anything.\<close>

lemma poll_loop_idle:
  assumes "length (sub_cq_arr (ps_cq st)) = unat (num_sub_cqs (ps_cq st))"
    and "next_poll_idx (ps_cq st) < num_sub_cqs (ps_cq st)"
    and "\<forall>j < length (sub_cq_arr (ps_cq st)). sub_idle (ps_cq st) j"
  shows "\<exists>c idx. poll_sub_cqs_loop ctx False m ENOENT st =
    Some (ENOENT, st\<lparr>ps_cq := (ps_cq st)\<lparr>next_poll_idx := idx, cur_cqe := c\<rparr>\<rparr>)"
  using assms
proof (induction m arbitrary: st)
  case 0
  have "st\<lparr>ps_cq := (ps_cq st)\<lparr>next_poll_idx := next_poll_idx (ps_cq st), cur_cqe := cur_cqe (ps_cq st)\<rparr>\<rparr> = st"
    by simp
  then show ?case by (intro exI [of _ "cur_cqe (ps_cq st)"] exI [of _ "next_poll_idx (ps_cq st)"]) simp
next
  case (Suc m)
  let ?cq = "ps_cq st" and ?i = "unat (next_poll_idx (ps_cq st))"
  let ?idx = "(next_poll_idx ?cq + 1) mod num_sub_cqs ?cq"
  have pos: "0 < num_sub_cqs ?cq" using Suc.prems(2) by (simp add: word_less_nat_alt)
  have lt: "?idx < num_sub_cqs ?cq" using pos by (simp add: word_less_nat_alt unat_mod_distrib)
  have i: "?i < length (sub_cq_arr ?cq)" using Suc.prems(1,2) by (simp add: word_less_nat_alt)
  have idle: "sub_idle ?cq ?i" using Suc.prems(3) i by blast
  define c where "c = (if sub_ref_cnt (sub_cq_arr ?cq ! ?i) = 0 then cur_cqe ?cq else None)"
  define st1 where "st1 = st\<lparr>ps_cq := ?cq\<lparr>next_poll_idx := ?idx, cur_cqe := c\<rparr>\<rparr>"
  have step: "poll_sub_cqs_loop ctx False (Suc m) ENOENT st = poll_sub_cqs_loop ctx False m ENOENT st1"
  proof (cases "sub_ref_cnt (sub_cq_arr ?cq ! ?i) = 0")
    case True
    then show ?thesis using i by (simp add: Let_def arr_get_def st1_def c_def)
  next
    case False
    then have "cq_next_sub_cqe_get (cq_buf ?cq) (sub_cq_arr ?cq ! ?i) = Some (None, sub_cq_arr ?cq ! ?i)"
      using idle by (simp add: sub_idle_def)
    then have "efa_poll_sub_cq ctx ?i False (st\<lparr>ps_cq := ?cq\<lparr>next_poll_idx := ?idx\<rparr>\<rparr>) = Some (ENOENT, st1)"
      using i False by (simp add: efa_poll_sub_cq_def Let_def arr_get_def st1_def c_def)
    then show ?thesis using i False by (simp add: Let_def arr_get_def)
  qed
  have st1: "next_poll_idx (ps_cq st1) = ?idx" "num_sub_cqs (ps_cq st1) = num_sub_cqs ?cq"
    "sub_cq_arr (ps_cq st1) = sub_cq_arr ?cq" "cq_buf (ps_cq st1) = cq_buf ?cq"
    by (simp_all add: st1_def)
  have "\<exists>c' idx. poll_sub_cqs_loop ctx False m ENOENT st1 =
      Some (ENOENT, st1\<lparr>ps_cq := (ps_cq st1)\<lparr>next_poll_idx := idx, cur_cqe := c'\<rparr>\<rparr>)"
    by (rule Suc.IH) (use Suc.prems(1,3) lt in \<open>simp_all add: st1 idle_pending_cong [OF st1(3,4)]\<close>)
  then show ?case unfolding step by (simp add: st1_def)
qed

section \<open>One completion\<close>

text \<open>The entry \<open>bs\<close> is the completion of a request of the queue \<open>q\<close>.\<close>

definition cqe_req :: "u8 list \<Rightarrow> nat" where
  "cqe_req bs = unat (cd_req_id (rcd_common (rx_cdesc_of_bytes bs)))"

definition cqe_for :: "efa_context \<Rightarrow> wq_ref \<Rightarrow> u8 list \<Rightarrow> bool" where
  "cqe_for ctx q bs \<longleftrightarrow>
     (\<exists>p. cb_get (qp_table ctx) (unat (ucast (cd_qp_num (rcd_common (rx_cdesc_of_bytes bs))) AND qp_table_sz_m1 ctx))
            = Some (Some p) \<and> q = cqe_queue (rx_cdesc_of_bytes bs) p)"

text \<open>What a completed request leaves of its work queue.\<close>

definition wq_gave_back :: "efa_wq \<Rightarrow> efa_wq \<Rightarrow> nat set \<Rightarrow> bool" where
  "wq_gave_back wq wq' ids \<longleftrightarrow>
     wq_ready wq' \<and> wq_tags wq' = wq_tags wq |` (- ids) \<and>
     (\<exists>i pool c. wq' = wq\<lparr>wrid_idx_pool_next := i, wrid_idx_pool := pool, wqe_completed := c\<rparr>)"

lemma gave_back_none [simp]: "wq_ready wq \<Longrightarrow> wq_gave_back wq wq {}"
  by (simp add: wq_gave_back_def restrict_map_def)
    (intro exI [of _ "wrid_idx_pool_next wq"] exI [of _ "wrid_idx_pool wq"] exI [of _ "wqe_completed wq"], simp)

lemma gave_back_trans:
  assumes "wq_gave_back a b X" and "wq_gave_back b c Y"
  shows "wq_gave_back a c (X \<union> Y)"
proof -
  obtain i pool n where b: "b = a\<lparr>wrid_idx_pool_next := i, wrid_idx_pool := pool, wqe_completed := n\<rparr>"
    using assms(1) unfolding wq_gave_back_def by blast
  obtain i' pool' n' where c: "c = b\<lparr>wrid_idx_pool_next := i', wrid_idx_pool := pool', wqe_completed := n'\<rparr>"
    using assms(2) unfolding wq_gave_back_def by blast
  have "c = a\<lparr>wrid_idx_pool_next := i', wrid_idx_pool := pool', wqe_completed := n'\<rparr>" by (simp add: c b)
  moreover have "wq_tags c = wq_tags a |` (- (X \<union> Y))"
    using assms by (auto simp: wq_gave_back_def fun_eq_iff restrict_map_def)
  ultimately show ?thesis using assms(2) unfolding wq_gave_back_def by blast
qed

lemma put_ready:
  assumes "wq_ready wq" and "wq_inv wq'" and "wq_outstanding wq \<noteq> {}"
    and "wq' = wq\<lparr>wrid_idx_pool_next := wrid_idx_pool_next wq - 1,
      wrid_idx_pool := wrid_idx_pool wq', wqe_completed := wqe_completed wq + 1\<rparr>"
  shows "wq_ready wq'"
proof -
  have "wq_inv wq" "wqe_posted wq - wqe_completed wq = ucast (wrid_idx_pool_next wq)"
    using assms(1) by (simp_all add: wq_ready_def wq_counts_def)
  then have pos: "0 < unat (wrid_idx_pool_next wq)"
    using card_wq_outstanding [of wq] assms(3) by (metis card_gt_0_iff finite_wq_outstanding)
  have f: "wqe_posted wq' = wqe_posted wq" "wqe_completed wq' = wqe_completed wq + 1"
    "wrid_idx_pool_next wq' = wrid_idx_pool_next wq - 1"
    by (subst assms(4), simp)+
  have "unat (ucast (wrid_idx_pool_next wq - 1) :: u32) = unat (ucast (wrid_idx_pool_next wq) - 1 :: u32)"
    using pos unat_u16_pred [OF pos] by (subst unat_sub) (simp_all add: word_le_nat_alt unat_ucast_widen)
  then have "(ucast (wrid_idx_pool_next wq - 1) :: u32) = ucast (wrid_idx_pool_next wq) - 1"
    by (simp add: word_unat_eq_iff)
  then have "wq_counts wq'"
    using \<open>wqe_posted wq - wqe_completed wq = _\<close> by (simp add: wq_counts_def f algebra_simps)
  then show ?thesis using assms(2) by (simp add: wq_ready_def)
qed

lemma poll_once:
  assumes chan: "sub_chan cq k base z e r" "only_sub cq k" "ring_queue base z (2 ^ e) r = bs # rest"
    and cqe: "cqe_for ctx q bs"
    and wq: "wq_at qps q = Some wq" "wq_ready wq" "wq_tags wq (cqe_req bs) = Some tag"
  shows "\<exists>cq' wq' wc' r'. efa_poll_sub_cqs ctx False cq qps wc = Some (0, cq', wq_upd qps q wq', wc') \<and>
    sub_chan cq' k base z e r' \<and> ring_queue base z (2 ^ e) r' = rest \<and> only_sub cq' k \<and>
    cq_lock cq' = cq_lock cq \<and>
    wc_reports (rx_cdesc_of_bytes bs) q tag wc' \<and> wq_gave_back wq wq' {cqe_req bs}"
proof -
  obtain off sub' rc r' where h:
    "cq_next_sub_cqe_get (cq_buf cq) (sub_cq_arr cq ! k) = Some (Some off, sub')"
    "deref_rx_cdesc (cq_buf cq) off = Some rc" "rx_cdesc_of_bytes bs = clear_phase rc"
    "cr_sub r' = sub'" "cr_mem r' = cr_mem r" "ring_inv base z e (2 ^ e) r'"
    "ring_queue base z (2 ^ e) r' = rest"
    by (rule chan_head [OF chan(1,3)])
  have req: "cqe_req bs = unat (cd_req_id (rcd_common rc))" by (simp add: cqe_req_def h(3) clear_phase_reads)
  obtain p where p: "cb_get (qp_table ctx) (unat (ucast (cd_qp_num (rcd_common rc)) AND qp_table_sz_m1 ctx)) = Some (Some p)"
    "q = cqe_queue rc p"
    using cqe by (auto simp: cqe_for_def h(3) clear_phase_reads)
  have k: "k < length (sub_cq_arr cq)" using chan(1) by (simp add: sub_chan_def)
  have o: "length (sub_cq_arr cq) = unat (num_sub_cqs cq)" "next_poll_idx cq < num_sub_cqs cq"
    "sub_ref_cnt (sub_cq_arr cq ! k) \<noteq> 0" "\<forall>j < length (sub_cq_arr cq). j = k \<or> sub_idle cq j"
    using chan(2) by (simp_all add: only_sub_def)
  define n where "n = unat (num_sub_cqs cq)"
  define d where "d = (k + n - unat (next_poll_idx cq)) mod n"
  have lt: "unat (next_poll_idx cq) < n" "k < n" using o(1,2) k by (simp_all add: n_def word_less_nat_alt)
  have d: "d < n" "(unat (next_poll_idx cq) + d) mod n = k"
    using lt by (simp_all add: d_def mod_add_right_eq)
  have before: "sub_idle cq ((unat (next_poll_idx cq) + d') mod n)" if "d' < d" for d'
  proof -
    have "(unat (next_poll_idx cq) + d') mod n \<noteq> k"
      using mod_window_inj [of "unat (next_poll_idx cq)" "unat (next_poll_idx cq) + d'" n
          "unat (next_poll_idx cq) + d"] that d by auto
    moreover have "(unat (next_poll_idx cq) + d') mod n < length (sub_cq_arr cq)"
      using lt o(1) by (simp add: n_def)
    ultimately show ?thesis using o(4) by blast
  qed
  let ?st = "\<lparr>ps_cq = cq, ps_qps = qps, ps_cur_qp = None, ps_wc = wc\<rparr>"
  have "\<exists>c idx. idx < num_sub_cqs (ps_cq ?st) \<and>
    (\<forall>e' st'. efa_poll_sub_cq ctx k False (?st\<lparr>ps_cq := (ps_cq ?st)\<lparr>next_poll_idx := idx, cur_cqe := c\<rparr>\<rparr>) = Some (e', st')
       \<longrightarrow> e' \<noteq> ENOENT \<longrightarrow> poll_sub_cqs_loop ctx False n ENOENT ?st = Some (e', st'))"
    by (rule poll_loop_reaches [where d = d]) (use o d before in \<open>simp_all add: n_def\<close>)
  then obtain c idx where reach: "idx < num_sub_cqs cq"
    "\<forall>e' st'. efa_poll_sub_cq ctx k False \<lparr>ps_cq = cq\<lparr>next_poll_idx := idx, cur_cqe := c\<rparr>, ps_qps = qps,
         ps_cur_qp = None, ps_wc = wc\<rparr> = Some (e', st')
       \<longrightarrow> e' \<noteq> ENOENT \<longrightarrow> poll_sub_cqs_loop ctx False n ENOENT ?st = Some (e', st')"
    by auto
  define st where "st = \<lparr>ps_cq = cq\<lparr>next_poll_idx := idx, cur_cqe := c\<rparr>, ps_qps = qps,
    ps_cur_qp = None, ps_wc = wc\<rparr>"
  have st: "sub_cq_arr (ps_cq st) = sub_cq_arr cq" "cq_buf (ps_cq st) = cq_buf cq" "ps_qps st = qps"
    "ps_cur_qp st = None" by (simp_all add: st_def)
  have inv: "wq_inv wq" using wq(2) by (simp add: wq_ready_def)
  obtain wq' wc' where del: "efa_poll_sub_cq ctx k False st = Some (0, st\<lparr>ps_cq := (ps_cq st)
        \<lparr>sub_cq_arr := (sub_cq_arr (ps_cq st))[k := sub'], cur_cqe := Some off, cur_wq := Some q\<rparr>,
        ps_qps := wq_upd (ps_qps st) q wq', ps_cur_qp := Some p, ps_wc := wc'\<rparr>)"
    "wc_reports rc q tag wc'"
    "wq' = wq\<lparr>wrid_idx_pool_next := wrid_idx_pool_next wq - 1,
      wrid_idx_pool := wrid_idx_pool wq', wqe_completed := wqe_completed wq + 1\<rparr>"
    "wq_inv wq'" "wq_tags wq' = (wq_tags wq)(unat (cd_req_id (rcd_common rc)) := None)"
    using sub_cq_delivers [of k st off sub' rc ctx p q wq tag] k h(1,2) p wq(1,3) inv req st by auto
  define cq' where "cq' = (ps_cq st)\<lparr>sub_cq_arr := (sub_cq_arr cq)[k := sub'], cur_cqe := Some off, cur_wq := Some q\<rparr>"
  have run: "efa_poll_sub_cqs ctx False cq qps wc = Some (0, cq', wq_upd qps q wq', wc')"
    using reach(2) [folded st_def] del(1) by (simp add: efa_poll_sub_cqs_def n_def [symmetric] cq'_def st)
  have f: "sub_cq_arr cq' = (sub_cq_arr cq)[k := sub']" "cq_buf cq' = cq_buf cq" "num_sub_cqs cq' = num_sub_cqs cq"
    "next_poll_idx cq' = idx" "cq_lock cq' = cq_lock cq"
    by (simp_all add: cq'_def st_def)
  have "sub_chan cq' k base z e r'"
    using chan(1) h(4-6) by (simp add: sub_chan_def f)
  moreover have "only_sub cq' k"
    using o reach(1) k next_cqe_ref_cnt [OF h(1)] by (auto simp: only_sub_def f sub_idle_def nth_list_update)
  moreover have "wc_reports (rx_cdesc_of_bytes bs) q tag wc'" using del(2) by (simp add: h(3) clear_phase_reads)
  moreover have "wq_gave_back wq wq' {cqe_req bs}"
  proof -
    have "wq_outstanding wq \<noteq> {}" using wq(3) by (auto simp: wq_tags_def split: if_splits)
    then have "wq_ready wq'" by (rule put_ready [OF wq(2) del(4) _ del(3)])
    moreover have "wq_tags wq' = wq_tags wq |` (- {cqe_req bs})"
      by (simp add: del(5) req fun_eq_iff restrict_map_def)
    ultimately show ?thesis using del(3) unfolding wq_gave_back_def by blast
  qed
  ultimately show ?thesis using run h(7) f(5) by blast
qed

section \<open>All of them\<close>

lemma wq_upd_upd: "wq_upd (wq_upd qps q a) q b = wq_upd qps q b"
  by (cases q) (auto split: option.splits)

lemma wq_upd_same: "wq_at qps q = Some wq \<Longrightarrow> wq_upd qps q wq = qps"
  by (cases q) (auto split: option.splits)

lemma poll_cq_loop_drains:
  assumes "sub_chan cq k base z e r" "only_sub cq k" "ring_queue base z (2 ^ e) r = bss"
    and "\<forall>bs\<in>set bss. cqe_for ctx q bs" and "wq_at qps q = Some wq" "wq_ready wq"
    and "distinct (map cqe_req bss)" "cqe_req ` set bss \<subseteq> wq_outstanding wq"
    and "length bss \<le> n" "i + n \<le> length wcs"
  shows "\<exists>cq' wq' wcs'. poll_cq_loop ctx n i cq qps wcs =
      Some (i + length bss, 0, cq', wq_upd qps q wq', wcs') \<and> cq_lock cq' = cq_lock cq \<and>
    length wcs' = length wcs \<and> (\<forall>j<i. wcs' ! j = wcs ! j) \<and>
    (\<forall>j < length bss. \<exists>tag. wq_tags wq (cqe_req (bss ! j)) = Some tag \<and>
       wc_reports (rx_cdesc_of_bytes (bss ! j)) q tag (wcs' ! (i + j))) \<and>
    wq_gave_back wq wq' (cqe_req ` set bss)"
  using assms
proof (induction bss arbitrary: cq r qps wq n i wcs)
  case Nil
  show ?case
  proof (cases n)
    case 0
    then show ?thesis using Nil.prems(5,6)
      by (intro exI [of _ cq] exI [of _ wq] exI [of _ wcs]) (simp add: wq_upd_same)
  next
    case (Suc m)
    have idle: "\<forall>j < length (sub_cq_arr cq). sub_idle cq j"
      using Nil.prems(2) chan_empty [OF Nil.prems(1,3)] by (auto simp: only_sub_def)
    have o: "length (sub_cq_arr cq) = unat (num_sub_cqs cq)" "next_poll_idx cq < num_sub_cqs cq"
      using Nil.prems(2) by (simp_all add: only_sub_def)
    obtain c idx where l: "poll_sub_cqs_loop ctx False (unat (num_sub_cqs cq)) ENOENT
        \<lparr>ps_cq = cq, ps_qps = qps, ps_cur_qp = None, ps_wc = wcs ! i\<rparr> =
      Some (ENOENT, \<lparr>ps_cq = cq\<lparr>next_poll_idx := idx, cur_cqe := c\<rparr>, ps_qps = qps, ps_cur_qp = None, ps_wc = wcs ! i\<rparr>)"
      using poll_loop_idle [of "\<lparr>ps_cq = cq, ps_qps = qps, ps_cur_qp = None, ps_wc = wcs ! i\<rparr>" ctx
          "unat (num_sub_cqs cq)"] o idle by auto
    have "poll_cq_loop ctx n i cq qps wcs = Some (i, 0, cq\<lparr>next_poll_idx := idx, cur_cqe := c\<rparr>, qps, wcs)"
      using Nil.prems(10) by (simp add: Suc efa_poll_sub_cqs_def l arr_get_def)
    then show ?thesis using Nil.prems(5,6)
      by (intro exI [of _ "cq\<lparr>next_poll_idx := idx, cur_cqe := c\<rparr>"] exI [of _ wq] exI [of _ wcs])
        (simp add: wq_upd_same)
  qed
next
  case (Cons bs bss)
  obtain m where n: "n = Suc m" using Cons.prems(9) by (cases n) auto
  have "cqe_req bs \<in> wq_outstanding wq" using Cons.prems(8) by simp
  then obtain tag where tag: "wq_tags wq (cqe_req bs) = Some tag" by (simp add: wq_tags_def)
  have i: "i < length wcs" using Cons.prems(10) n by simp
  obtain cq1 wq1 wc1 r1 where one: "efa_poll_sub_cqs ctx False cq qps (wcs ! i) = Some (0, cq1, wq_upd qps q wq1, wc1)"
    "sub_chan cq1 k base z e r1" "ring_queue base z (2 ^ e) r1 = bss" "only_sub cq1 k"
    "cq_lock cq1 = cq_lock cq" "wc_reports (rx_cdesc_of_bytes bs) q tag wc1" "wq_gave_back wq wq1 {cqe_req bs}"
    using poll_once [OF Cons.prems(1-3) _ Cons.prems(5,6) tag, of ctx "wcs ! i"] Cons.prems(4) by auto
  have t1: "wq_tags wq1 = wq_tags wq |` (- {cqe_req bs})" "wq_ready wq1"
    using one(7) by (simp_all add: wq_gave_back_def)
  have out: "wq_outstanding wq1 = wq_outstanding wq - {cqe_req bs}"
    using dom_wq_tags [of wq1, unfolded t1(1) dom_restrict dom_wq_tags] by blast
  have d: "cqe_req bs \<notin> cqe_req ` set bss" "distinct (map cqe_req bss)" using Cons.prems(7) by simp_all
  have ids: "cqe_req ` set bss \<subseteq> wq_outstanding wq1"
    using Cons.prems(8) d(1) by (simp add: out subset_Diff_insert)
  have "\<exists>cq' wq' wcs'. poll_cq_loop ctx m (Suc i) cq1 (wq_upd qps q wq1) (wcs[i := wc1]) =
      Some (Suc i + length bss, 0, cq', wq_upd (wq_upd qps q wq1) q wq', wcs') \<and> cq_lock cq' = cq_lock cq1 \<and>
    length wcs' = length (wcs[i := wc1]) \<and> (\<forall>j<Suc i. wcs' ! j = wcs[i := wc1] ! j) \<and>
    (\<forall>j < length bss. \<exists>tag. wq_tags wq1 (cqe_req (bss ! j)) = Some tag \<and>
       wc_reports (rx_cdesc_of_bytes (bss ! j)) q tag (wcs' ! (Suc i + j))) \<and>
    wq_gave_back wq1 wq' (cqe_req ` set bss)"
    by (rule Cons.IH [OF one(2,4,3) _ wq_at_upd(1) [OF Cons.prems(5)] t1(2) d(2) ids])
      (use Cons.prems(4,9,10) n in auto)
  then obtain cq' wq' wcs' where rest: "poll_cq_loop ctx m (Suc i) cq1 (wq_upd qps q wq1) (wcs[i := wc1]) =
      Some (Suc i + length bss, 0, cq', wq_upd qps q wq', wcs')" "cq_lock cq' = cq_lock cq"
    "length wcs' = length wcs" "\<forall>j<Suc i. wcs' ! j = wcs[i := wc1] ! j"
    "\<forall>j < length bss. \<exists>tag. wq_tags wq1 (cqe_req (bss ! j)) = Some tag \<and>
       wc_reports (rx_cdesc_of_bytes (bss ! j)) q tag (wcs' ! (Suc i + j))"
    "wq_gave_back wq1 wq' (cqe_req ` set bss)"
    by (auto simp: wq_upd_upd one(5))
  have run: "poll_cq_loop ctx n i cq qps wcs = Some (i + length (bs # bss), 0, cq', wq_upd qps q wq', wcs')"
    using rest(1) i by (simp add: n arr_get_def one(1))
  have "wc_reports (rx_cdesc_of_bytes ((bs # bss) ! j)) q tag' (wcs' ! (i + j))"
    if "j < length (bs # bss)" "wq_tags wq (cqe_req ((bs # bss) ! j)) = Some tag'" for j tag'
  proof (cases j)
    case 0
    then show ?thesis using that(2) tag one(6) rest(4) i by simp
  next
    case (Suc j')
    then have "bss ! j' \<in> set bss" using that(1) by simp
    then have ne: "cqe_req (bss ! j') \<noteq> cqe_req bs" using d(1) by (metis image_eqI)
    from Suc have "wq_tags wq1 (cqe_req (bss ! j')) = Some tag'"
      using that ne by (simp add: t1(1) restrict_map_def)
    then show ?thesis using rest(5) that(1) Suc by auto
  qed
  note reports = this
  have tagged: "\<exists>tag'. wq_tags wq (cqe_req ((bs # bss) ! j)) = Some tag'" if "j < length (bs # bss)" for j
  proof -
    have "cqe_req ((bs # bss) ! j) \<in> wq_outstanding wq" using Cons.prems(8) that nth_mem by blast
    then show ?thesis by (simp add: wq_tags_def)
  qed
  have each: "\<forall>j < length (bs # bss). \<exists>tag. wq_tags wq (cqe_req ((bs # bss) ! j)) = Some tag \<and>
       wc_reports (rx_cdesc_of_bytes ((bs # bss) ! j)) q tag (wcs' ! (i + j))"
    using reports tagged by blast
  have gave: "wq_gave_back wq wq' (cqe_req ` set (bs # bss))"
    using gave_back_trans [OF one(7) rest(6)] by simp
  have keep: "\<forall>j<i. wcs' ! j = wcs ! j" using rest(4) by simp
  show ?case
    by (rule exI [of _ cq'], rule exI [of _ wq'], rule exI [of _ wcs'])
      (intro conjI run rest(2,3) keep each gave)
qed

text \<open>With the lock, and room in the array for more than there is.\<close>

lemma poll_cq_drains:
  assumes "sub_chan cq k base z e r" "only_sub cq k" "ring_queue base z (2 ^ e) r = bss"
    and "\<forall>bs\<in>set bss. cqe_for ctx q bs" and "wq_at qps q = Some wq" "wq_ready wq"
    and "distinct (map cqe_req bss)" "cqe_req ` set bss \<subseteq> wq_outstanding wq"
    and "int (length bss) \<le> sint n" "sint n \<le> int (length wcs)"
  shows "\<exists>cq' wq' wcs'. efa_poll_cq ctx cq qps n wcs = Some (int (length bss), cq', wq_upd qps q wq', wcs') \<and>
    (\<forall>j < length bss. \<exists>tag. wq_tags wq (cqe_req (bss ! j)) = Some tag \<and>
       wc_reports (rx_cdesc_of_bytes (bss ! j)) q tag (wcs' ! j)) \<and>
    wq_gave_back wq wq' (cqe_req ` set bss)"
proof -
  let ?cq = "cq\<lparr>cq_lock := pthread_spin_lock (cq_lock cq)\<rparr>"
  have c: "sub_chan ?cq k base z e r" "only_sub ?cq k"
    using assms(1,2) by (simp_all add: sub_chan_def only_sub_def sub_idle_def)
  have le: "length bss \<le> nat (sint n)" "0 + nat (sint n) \<le> length wcs" using assms(9,10) by simp_all
  obtain cq' wq' wcs' where p: "poll_cq_loop ctx (nat (sint n)) 0 ?cq qps wcs =
      Some (length bss, 0, cq', wq_upd qps q wq', wcs')" "cq_lock cq' = pthread_spin_lock (cq_lock cq)"
    "\<forall>j < length bss. \<exists>tag. wq_tags wq (cqe_req (bss ! j)) = Some tag \<and>
       wc_reports (rx_cdesc_of_bytes (bss ! j)) q tag (wcs' ! j)"
    "wq_gave_back wq wq' (cqe_req ` set bss)"
    using poll_cq_loop_drains [OF c assms(3-8) le] by auto
  have "efa_poll_cq ctx cq qps n wcs =
      Some (int (length bss), cq'\<lparr>cq_lock := cq_lock cq\<rparr>, wq_upd qps q wq', wcs')"
    using p(1,2) by (simp add: efa_poll_cq_def Let_def)
  then show ?thesis using p(3,4) by blast
qed

section \<open>From the request to its completion\<close>

definition wqe_req :: "efa_io_tx_wqe \<Rightarrow> nat" where
  "wqe_req w = unat (txm_req_id (wqe_meta w))"

lemma posts_all:
  assumes "sq_ok (qp_sq qp)" "can_send qp" "\<forall>wr \<in> set wrs. request_ok ahs qp wr"
    and "length wrs \<le> sq_room (qp_sq qp)"
  shows "\<exists>tr' ws sq'. efa_post_send mem ahs qp wrs tr = Some (0, None, qp\<lparr>qp_sq := sq'\<rparr>, tr') \<and>
    build_all mem ahs (qp_sq qp) wrs = Some (ws, sq') \<and>
    tr' = tr @ [Fence] @ post_trace (sq_desc (qp_sq qp)) (wq_db (sq_wq (qp_sq qp)))
      (desc_mask (sq_wq (qp_sq qp))) (unat (max_batch_wr (qp_sq qp))) 0 (wq_pc (sq_wq (qp_sq qp))) ws \<and>
    sq_ok sq' \<and> length ws = length wrs \<and> sq_frame (qp_sq qp) sq' \<and> distinct (map wqe_req ws) \<and>
    wqe_req ` set ws \<inter> wq_outstanding (sq_wq (qp_sq qp)) = {} \<and>
    wq_tags (sq_wq sq') = wq_tags (sq_wq (qp_sq qp)) ++ map_of (zip (map wqe_req ws) (map sw_wr_id wrs))"
proof -
  obtain qp' tr' where run: "efa_post_send mem ahs qp wrs tr = Some (0, None, qp', tr')"
    using efa_post_send_total [OF assms(1-3), of mem tr] assms(4) by (auto simp: room_err_def room_rest_def)
  have mb: "0 < max_batch_wr (qp_sq qp)" using assms(1) by (simp add: sq_ok_def)
  obtain good rest ws sq' where P: "wrs = good @ rest"
    "build_all mem ahs (qp_sq qp) good = Some (ws, sq')" "qp' = qp\<lparr>qp_sq := sq'\<rparr>" "rest = []"
    "tr' = tr @ [Fence] @ post_trace (sq_desc (qp_sq qp)) (wq_db (sq_wq (qp_sq qp)))
      (desc_mask (sq_wq (qp_sq qp))) (unat (max_batch_wr (qp_sq qp))) 0 (wq_pc (sq_wq (qp_sq qp))) ws"
    using post_send_prefix [OF run mb] by auto
  have b: "build_all mem ahs (qp_sq qp) wrs = Some (ws, sq')" using P(1,2,4) by simp
  have id: "map wqe_req ws = map (\<lambda>w. unat (txm_req_id (wqe_meta w))) ws" by (simp add: wqe_req_def)
  note ok = build_all_ok [OF b assms(1,3,4), unfolded Let_def, folded id]
  have "set (map wqe_req ws) = wqe_req ` set ws" by simp
  moreover have "sq_frame (qp_sq qp) sq'" by (rule build_all_frame [OF b])
  ultimately show ?thesis using run P(3,5) b ok by (intro exI [of _ tr'] exI [of _ ws] exI [of _ sq']) auto
qed

lemma mset_eq_sets:
  assumes "mset xs = mset ys" "distinct ys"
  shows "set xs = set ys" "distinct xs" "length xs = length ys"
  using assms mset_eq_setD mset_eq_imp_distinct_iff mset_eq_length by blast+

lemma completions_delivered:
  assumes sq: "sq_ok (qp_sq qp)" "sq_ok sq'" "length ws = length wrs"
    and ids: "distinct (map wqe_req ws)" "wqe_req ` set ws \<inter> wq_outstanding (sq_wq (qp_sq qp)) = {}"
      "wq_tags (sq_wq sq') = wq_tags (sq_wq (qp_sq qp)) ++ map_of (zip (map wqe_req ws) (map sw_wr_id wrs))"
    and frame: "sq_frame (qp_sq qp) sq'"
    and chan: "sub_chan cq k base z e r" "only_sub cq k" "ring_queue base z (2 ^ e) r = bss"
    and perm: "mset (map cqe_req bss) = mset (map wqe_req ws)"
    and own: "\<forall>bs\<in>set bss. cqe_for ctx (Sq_wq p) bs" "qps p = Some (qp\<lparr>qp_sq := sq'\<rparr>)"
    and n: "int (length wrs) \<le> sint n" "sint n \<le> int (length wcs)"
  shows "\<exists>cq' qp'' wcs'. efa_poll_cq ctx cq qps n wcs = Some (int (length wrs), cq', qps(p \<mapsto> qp''), wcs') \<and>
    (\<forall>i < length wrs. \<exists>j < length wrs. wqe_req (ws ! j) = cqe_req (bss ! i) \<and>
       wc_reports (rx_cdesc_of_bytes (bss ! i)) (Sq_wq p) (sw_wr_id (wrs ! j)) (wcs' ! i)) \<and>
    sq_ok (qp_sq qp'') \<and> sq_room (qp_sq qp'') = sq_room (qp_sq qp) \<and>
    wq_tags (sq_wq (qp_sq qp'')) = wq_tags (sq_wq (qp_sq qp))"
proof -
  let ?wq = "sq_wq (qp_sq qp)" and ?ids = "wqe_req ` set ws"
  note eq = mset_eq_sets [OF perm ids(1)]
  have len: "length bss = length wrs" using eq(3) sq(3) by simp
  have set: "cqe_req ` set bss = ?ids" using eq(1) by simp
  have dom: "dom (map_of (zip (map wqe_req ws) (map sw_wr_id wrs))) = ?ids"
    using sq(3) by (simp add: dom_map_of_zip)
  have out: "wq_outstanding (sq_wq sq') = wq_outstanding ?wq \<union> ?ids"
    using dom_wq_tags [of "sq_wq sq'", unfolded ids(3) dom_map_add dom dom_wq_tags] by blast
  have at: "wq_at qps (Sq_wq p) = Some (sq_wq sq')" by (simp add: own(2))
  have ready: "wq_ready (sq_wq sq')" using sq(2) by (simp add: sq_ok_def)
  have sub: "cqe_req ` set bss \<subseteq> wq_outstanding (sq_wq sq')" by (simp add: set out)
  have n': "int (length bss) \<le> sint n" using n(1) len by simp
  obtain cq' wq' wcs' where run: "efa_poll_cq ctx cq qps n wcs =
      Some (int (length bss), cq', wq_upd qps (Sq_wq p) wq', wcs')"
    and rep: "\<forall>j < length bss. \<exists>tag. wq_tags (sq_wq sq') (cqe_req (bss ! j)) = Some tag \<and>
       wc_reports (rx_cdesc_of_bytes (bss ! j)) (Sq_wq p) tag (wcs' ! j)"
    and gave: "wq_gave_back (sq_wq sq') wq' (cqe_req ` set bss)"
    using poll_cq_drains [OF chan own(1) at ready eq(2) sub n' n(2)] by blast
  define qp'' where "qp'' = qp\<lparr>qp_sq := sq'\<lparr>sq_wq := wq'\<rparr>\<rparr>"
  have upd: "wq_upd qps (Sq_wq p) wq' = qps(p \<mapsto> qp'')" by (simp add: own(2) qp''_def)
  have tags: "wq_tags wq' = wq_tags ?wq"
  proof
    fix x
    have "wq_tags ?wq x = None" if "x \<in> ?ids" using that ids(2) by (auto simp: wq_tags_def)
    moreover have "map_of (zip (map wqe_req ws) (map sw_wr_id wrs)) x = None" if "x \<notin> ?ids"
      using that dom by (metis domIff)
    ultimately show "wq_tags wq' x = wq_tags ?wq x"
      using gave by (cases "x \<in> ?ids") (simp_all add: wq_gave_back_def set ids(3) restrict_map_def map_add_def)
  qed
  have "wq_outstanding wq' = wq_outstanding ?wq" using arg_cong [OF tags, of dom] by simp
  moreover have "wqe_cnt wq' = wqe_cnt ?wq"
  proof -
    have "wqe_cnt wq' = wqe_cnt (sq_wq sq')" using gave by (auto simp: wq_gave_back_def)
    then show ?thesis using frame by (simp add: sq_frame_def)
  qed
  ultimately have room: "sq_room (qp_sq qp'') = sq_room (qp_sq qp)"
    by (simp add: sq_room_def wq_room_def qp''_def)
  have ok: "sq_ok (qp_sq qp'')" using gave sq(2) by (simp add: sq_ok_def qp''_def wq_gave_back_def)
  have each: "\<exists>j < length wrs. wqe_req (ws ! j) = cqe_req (bss ! i) \<and>
       wc_reports (rx_cdesc_of_bytes (bss ! i)) (Sq_wq p) (sw_wr_id (wrs ! j)) (wcs' ! i)" if i: "i < length wrs" for i
  proof -
    obtain tag where t: "wq_tags (sq_wq sq') (cqe_req (bss ! i)) = Some tag"
      "wc_reports (rx_cdesc_of_bytes (bss ! i)) (Sq_wq p) tag (wcs' ! i)"
      using rep i len by auto
    have "bss ! i \<in> set bss" using i len by simp
    then have "cqe_req (bss ! i) \<in> ?ids" using set by blast
    then obtain j where j: "j < length ws" "wqe_req (ws ! j) = cqe_req (bss ! i)" by (auto simp: in_set_conv_nth)
    have "map_of (zip (map wqe_req ws) (map sw_wr_id wrs)) (map wqe_req ws ! j) = Some (map sw_wr_id wrs ! j)"
      by (rule map_of_zip_nth) (use sq(3) ids(1) j(1) in simp_all)
    then have "tag = sw_wr_id (wrs ! j)" using t(1) j sq(3) by (simp add: ids(3))
    then show ?thesis using t(2) j sq(3) by auto
  qed
  show ?thesis
    by (rule exI [of _ cq'], rule exI [of _ qp''], rule exI [of _ wcs'])
      (use run upd len each ok room tags in \<open>simp add: qp''_def\<close>)
qed

text \<open>
  C6: a posted request is completed. Post a list of good sends for which the send queue has room,
  and let the device write one completion for each of their entries, in an order of its own, into
  a sub-queue of a completion queue in which nothing else is pending. Then \<open>efa_poll_cq\<close>, asked for
  at least as many, returns exactly that many completions, in the order the device wrote them;
  each carries the status the device gave and the tag of the request whose entry the completion
  names; and afterwards the queue has the room and the outstanding requests it had at first.
\<close>

theorem posted_sends_are_delivered:
  assumes "sq_ok (qp_sq qp)" "can_send qp" "\<forall>wr \<in> set wrs. request_ok ahs qp wr"
    and "length wrs \<le> sq_room (qp_sq qp)"
  shows "\<exists>qp' tr' ws sq'. efa_post_send mem ahs qp wrs tr = Some (0, None, qp', tr') \<and>
    build_all mem ahs (qp_sq qp) wrs = Some (ws, sq') \<and> length ws = length wrs \<and>
    tr' = tr @ [Fence] @ post_trace (sq_desc (qp_sq qp)) (wq_db (sq_wq (qp_sq qp)))
      (desc_mask (sq_wq (qp_sq qp))) (unat (max_batch_wr (qp_sq qp))) 0 (wq_pc (sq_wq (qp_sq qp))) ws \<and>
    (\<forall>cq k base z e r bss qps p n wcs.
       sub_chan cq k base z e r \<and> only_sub cq k \<and> ring_queue base z (2 ^ e) r = bss \<and>
       mset (map cqe_req bss) = mset (map wqe_req ws) \<and> (\<forall>bs\<in>set bss. cqe_for ctx (Sq_wq p) bs) \<and>
       qps p = Some qp' \<and> int (length wrs) \<le> sint n \<and> sint n \<le> int (length wcs) \<longrightarrow>
       (\<exists>cq' qp'' wcs'. efa_poll_cq ctx cq qps n wcs = Some (int (length wrs), cq', qps(p \<mapsto> qp''), wcs') \<and>
          (\<forall>i < length wrs. \<exists>j < length wrs. wqe_req (ws ! j) = cqe_req (bss ! i) \<and>
             wc_reports (rx_cdesc_of_bytes (bss ! i)) (Sq_wq p) (sw_wr_id (wrs ! j)) (wcs' ! i)) \<and>
          sq_ok (qp_sq qp'') \<and> sq_room (qp_sq qp'') = sq_room (qp_sq qp) \<and>
          wq_tags (sq_wq (qp_sq qp'')) = wq_tags (sq_wq (qp_sq qp))))"
proof -
  obtain tr' ws sq' where post: "efa_post_send mem ahs qp wrs tr = Some (0, None, qp\<lparr>qp_sq := sq'\<rparr>, tr')"
    "build_all mem ahs (qp_sq qp) wrs = Some (ws, sq')"
    "tr' = tr @ [Fence] @ post_trace (sq_desc (qp_sq qp)) (wq_db (sq_wq (qp_sq qp)))
      (desc_mask (sq_wq (qp_sq qp))) (unat (max_batch_wr (qp_sq qp))) 0 (wq_pc (sq_wq (qp_sq qp))) ws"
    "sq_ok sq'" "length ws = length wrs" "sq_frame (qp_sq qp) sq'"
    and ids: "distinct (map wqe_req ws)" "wqe_req ` set ws \<inter> wq_outstanding (sq_wq (qp_sq qp)) = {}"
    "wq_tags (sq_wq sq') = wq_tags (sq_wq (qp_sq qp)) ++ map_of (zip (map wqe_req ws) (map sw_wr_id wrs))"
    using posts_all [OF assms, of mem tr] by blast
  note del = completions_delivered [OF assms(1) post(4,5) ids post(6)]
  show ?thesis
    by (rule exI [of _ "qp\<lparr>qp_sq := sq'\<rparr>"], rule exI [of _ tr'], rule exI [of _ ws], rule exI [of _ sq'])
      (use post(1,2,3,5) del in auto)
qed

text \<open>
  Two sends, completed in the opposite order into a ring of two entries.
\<close>

definition ex_pair :: "ibv_send_wr list" where
  "ex_pair = [ex_wr\<lparr>sw_wr_id := 42\<rparr>, ex_wr\<lparr>sw_wr_id := 43\<rparr>]"

definition ex_done :: "u8 \<Rightarrow> u8 list" where
  "ex_done i = [i, 0, 0, 2, 5, 0, 0, 0] @ replicate 8 0"

definition ex_done_ring :: cq_ring where
  "ex_done_ring = dev_complete 0 16 2 (ex_done 0) (dev_complete 0 16 2 (ex_done 1)
     (ring_start 0 16 2 32 zero_sub_cq))"

definition ex_done_cq :: efa_cq where
  "ex_done_cq = ex_cq\<lparr>cq_buf := Some (cr_mem ex_done_ring),
     sub_cq_arr := [(cr_sub ex_done_ring)\<lparr>sub_ref_cnt := 1\<rparr>]\<rparr>"

lemma ring_ref_cnt:
  "ring_inv base z e n (r\<lparr>cr_sub := (cr_sub r)\<lparr>sub_ref_cnt := c\<rparr>\<rparr>) = ring_inv base z e n r"
  "ring_queue base z n (r\<lparr>cr_sub := (cr_sub r)\<lparr>sub_ref_cnt := c\<rparr>\<rparr>) = ring_queue base z n r"
  by (simp_all add: ring_inv_def ring_queue_def)

lemma ex_done_ring_holds:
  "ring_inv 0 16 1 2 ex_done_ring" "ring_queue 0 16 2 ex_done_ring = [ex_done 1, ex_done 0]"
proof -
  have g: "ring_geom 0 16 1 2 32" by (simp add: ring_geom_def)
  have ok: "cqe_ok 16 (ex_done 0)" "cqe_ok 16 (ex_done 1)" by code_simp+
  define r0 where "r0 = ring_start 0 16 2 32 zero_sub_cq"
  define r1 where "r1 = dev_complete 0 16 2 (ex_done 1) r0"
  have i0: "ring_inv 0 16 1 2 r0" "ring_queue 0 16 2 r0 = []"
    using ring_start_inv [OF g, of zero_sub_cq] by (simp_all add: r0_def)
  have i1: "ring_inv 0 16 1 2 r1" "ring_queue 0 16 2 r1 = [ex_done 1]"
    using cq_channel.enq_law [OF i0(1) ok(2)] i0(2) by (simp_all add: r1_def)
  show "ring_inv 0 16 1 2 ex_done_ring" "ring_queue 0 16 2 ex_done_ring = [ex_done 1, ex_done 0]"
    using cq_channel.enq_law [OF i1(1) ok(1)] i1(2) by (simp_all add: ex_done_ring_def r1_def r0_def)
qed

theorem posted_sends_are_delivered_witness:
  "\<exists>qp' tr' cq' qps' wcs'. efa_post_send (\<lambda>_. 0) ex_ahs ex_send_qp ex_pair [] = Some (0, None, qp', tr') \<and>
     efa_poll_cq ex_ctx ex_done_cq [7 \<mapsto> qp'] 2 [null_wc, null_wc] = Some (2, cq', qps', wcs') \<and>
     wc_wr_id (wcs' ! 0) = 43 \<and> wc_wr_id (wcs' ! 1) = 42"
proof -
  have "wr_sgl (ex_wr\<lparr>sw_wr_id := v\<rparr>) = wr_sgl ex_wr \<and> wr_inline (ex_wr\<lparr>sw_wr_id := v\<rparr>) = wr_inline ex_wr" for v
    by (simp add: wr_sgl_def wr_inline_def)
  then have good: "\<forall>wr \<in> set ex_pair. request_ok ex_ahs ex_send_qp wr"
    using ex_wr_ok by (simp add: ex_pair_def request_ok_def payload_ok_def)
  have room: "length ex_pair \<le> sq_room (qp_sq ex_send_qp)" by (simp add: ex_pair_def ex_send_qp_ok)
  define r where "r = ex_done_ring\<lparr>cr_sub := (cr_sub ex_done_ring)\<lparr>sub_ref_cnt := 1\<rparr>\<rparr>"
  have ring: "ring_inv 0 16 1 (2 ^ 1) r" "ring_queue 0 16 (2 ^ 1) r = [ex_done 1, ex_done 0]"
    using ex_done_ring_holds by (simp_all add: r_def ring_ref_cnt)
  have chan: "sub_chan ex_done_cq 0 0 16 1 r" "only_sub ex_done_cq 0"
    using ring(1) by (simp_all add: sub_chan_def only_sub_def ex_done_cq_def ex_cq_def r_def zero_cq_def)
  have own: "\<forall>bs\<in>set [ex_done 1, ex_done 0]. cqe_for ex_ctx (Sq_wq 7) bs"
  proof -
    have "cb_get (qp_table ex_ctx) (unat (ucast (cd_qp_num (rcd_common (rx_cdesc_of_bytes (ex_done i)))) AND qp_table_sz_m1 ex_ctx))
        = Some (Some 7) \<and> Sq_wq 7 = cqe_queue (rx_cdesc_of_bytes (ex_done i)) 7" if "i = 0 \<or> i = 1" for i
      using that by (elim disjE; simp only:) code_simp+
    then show ?thesis unfolding cqe_for_def by auto
  qed
  have req: "map cqe_req [ex_done 1, ex_done 0] = [1, 0]" by code_simp
  obtain qp' tr' ws sq' where post:
    "efa_post_send (\<lambda>_. 0) ex_ahs ex_send_qp ex_pair [] = Some (0, None, qp', tr')"
    "build_all (\<lambda>_. 0) ex_ahs (qp_sq ex_send_qp) ex_pair = Some (ws, sq')" "length ws = length ex_pair"
    and poll: "\<And>cq k base z e r bss qps p n wcs.
       sub_chan cq k base z e r \<and> only_sub cq k \<and> ring_queue base z (2 ^ e) r = bss \<and>
       mset (map cqe_req bss) = mset (map wqe_req ws) \<and> (\<forall>bs\<in>set bss. cqe_for ex_ctx (Sq_wq p) bs) \<and>
       qps p = Some qp' \<and> int (length ex_pair) \<le> sint n \<and> sint n \<le> int (length wcs) \<Longrightarrow>
       (\<exists>cq' qp'' wcs'. efa_poll_cq ex_ctx cq qps n wcs = Some (int (length ex_pair), cq', qps(p \<mapsto> qp''), wcs') \<and>
          (\<forall>i < length ex_pair. \<exists>j < length ex_pair. wqe_req (ws ! j) = cqe_req (bss ! i) \<and>
             wc_reports (rx_cdesc_of_bytes (bss ! i)) (Sq_wq p) (sw_wr_id (ex_pair ! j)) (wcs' ! i)))"
    using posted_sends_are_delivered [OF ex_send_qp_ok(1,3) good room, of "\<lambda>_. 0" "[]" ex_ctx] by metis
  have "map_option (map wqe_req \<circ> fst) (build_all (\<lambda>_. 0) ex_ahs (qp_sq ex_send_qp) ex_pair) = Some [0, 1]"
    by code_simp
  then have ids: "map wqe_req ws = [0, 1]" using post(2) by simp
  then have w: "wqe_req (ws ! 0) = 0" "wqe_req (ws ! 1) = 1"
    using post(3) by (auto simp: ex_pair_def length_Suc_conv numeral_eq_Suc)
  have two: "length ex_pair = 2" by (simp add: ex_pair_def)
  define qps where "qps = [7 :: ptr \<mapsto> qp']"
  have "sub_chan ex_done_cq 0 0 16 1 r \<and> only_sub ex_done_cq 0 \<and>
      ring_queue 0 16 (2 ^ 1) r = [ex_done 1, ex_done 0] \<and>
      mset (map cqe_req [ex_done 1, ex_done 0]) = mset (map wqe_req ws) \<and>
      (\<forall>bs\<in>set [ex_done 1, ex_done 0]. cqe_for ex_ctx (Sq_wq 7) bs) \<and>
      qps 7 = Some qp' \<and> int (length ex_pair) \<le> sint (2 :: i32) \<and>
      sint (2 :: i32) \<le> int (length [null_wc, null_wc])"
    by (intro conjI chan ring(2) own) (simp_all only: req ids, simp_all add: ex_pair_def qps_def)
  from poll [of ex_done_cq 0 0 16 1 r "[ex_done 1, ex_done 0]" 7 qps 2 "[null_wc, null_wc]", OF this]
  obtain cq' qp'' wcs' where res:
    "efa_poll_cq ex_ctx ex_done_cq qps 2 [null_wc, null_wc] = Some (2, cq', qps(7 \<mapsto> qp''), wcs')"
    "\<forall>i < 2. \<exists>j < 2. wqe_req (ws ! j) = cqe_req ([ex_done 1, ex_done 0] ! i) \<and>
       wc_wr_id (wcs' ! i) = sw_wr_id (ex_pair ! j)"
    unfolding two of_nat_numeral wc_reports_def by blast
  have c: "cqe_req (ex_done 1) = 1" "cqe_req (ex_done 0) = 0" using req by simp_all
  have "wc_wr_id (wcs' ! 0) = 43" "wc_wr_id (wcs' ! 1) = 42"
    using res(2) [rule_format, of 0] res(2) [rule_format, of 1] w c
    by (auto simp: less_2_cases_iff ex_pair_def)
  then show ?thesis using post(1) res(1) unfolding qps_def by blast
qed

end
