(* ===== verification/Efa_Qp_Edges.thy ===== *)
theory Efa_Qp_Edges
  imports Efa_Qp_Contract
begin

text \<open>
  The control path of a queue pair where it is delicate: a reset with requests outstanding, a
  destruction the driver refuses, a queue pair asked for without receive elements.
\<close>

section \<open>Reset\<close>

lemma init_wq_indices_view:
  "wq_idle (init_wq_indices wq)" "wrid (init_wq_indices wq) = wrid wq"
  "wrid_idx_pool (init_wq_indices wq) = wrid_idx_pool wq" "wqe_cnt (init_wq_indices wq) = wqe_cnt wq"
  "wrid_idx_pool_next (init_wq_indices wq) = 0" "wq_phase (init_wq_indices wq) = wq_phase wq"
  by (simp_all add: init_wq_indices_def wq_idle_def)

text \<open>The pool as a list of numbers, whether they are handed out or not.\<close>

definition wq_pool :: "efa_wq \<Rightarrow> nat list" where
  "wq_pool wq = map unat (cb_list (wrid_idx_pool wq))"

lemma wq_free_idle: "wrid_idx_pool_next wq = 0 \<Longrightarrow> wq_free wq = wq_pool wq"
  by (simp add: wq_free_def wq_pool_def)

lemma length_wq_pool: "wq_inv wq \<Longrightarrow> length (wq_pool wq) = unat (wqe_cnt wq)"
  by (auto simp: wq_inv_def wq_pool_def)

lemma distinct_all_indices: "length xs = n \<Longrightarrow> distinct xs \<and> set xs \<subseteq> {0..<n} \<longleftrightarrow> set xs = {0..<n}"
  by (metis card_atLeastLessThan card_distinct card_subset_eq diff_zero distinct_card finite_atLeastLessThan subset_refl)

lemma reset_wq_inv:
  assumes "wq_inv wq"
  shows "wq_inv (init_wq_indices wq) \<longleftrightarrow> set (wq_pool wq) = {0..<unat (wqe_cnt wq)}"
proof -
  let ?wq = "init_wq_indices wq"
  have f: "wq_free ?wq = wq_pool wq"
    using wq_free_idle [of ?wq] by (simp add: init_wq_indices_view wq_pool_def)
  have "wq_inv ?wq \<longleftrightarrow> distinct (wq_pool wq) \<and> set (wq_pool wq) \<subseteq> {0..<unat (wqe_cnt wq)}"
    using assms unfolding wq_inv_def f by (auto simp: init_wq_indices_view)
  then show ?thesis using distinct_all_indices [OF length_wq_pool [OF assms]] by simp
qed

lemma idle_pool_complete:
  assumes "wq_inv wq" and "wq_outstanding wq = {}"
  shows "set (wq_pool wq) = {0..<unat (wqe_cnt wq)}"
proof -
  have "unat (wrid_idx_pool_next wq) = 0" using card_wq_outstanding [OF assms(1)] assms(2) by simp
  then have "wq_free wq = wq_pool wq" by (intro wq_free_idle) (simp add: unat_eq_zero)
  then show ?thesis
    using assms distinct_all_indices [OF length_wq_pool [OF assms(1)]] by (simp add: wq_inv_def)
qed

text \<open>What a reset makes of one queue.\<close>

definition wq_reset :: "efa_wq \<Rightarrow> efa_wq \<Rightarrow> bool" where
  "wq_reset wq wq' \<longleftrightarrow>
     wq_idle wq' \<and> wrid_idx_pool wq' = wrid_idx_pool wq \<and> wq_phase wq' = wq_phase wq \<and>
     (wq_inv wq' \<longleftrightarrow> set (wq_pool wq) = {0..<unat (wqe_cnt wq)}) \<and>
     (wq_outstanding wq = {} \<longrightarrow> wq_inv wq')"

lemma wq_reset_init: "wq_inv wq \<Longrightarrow> wq_reset wq (init_wq_indices wq)"
  using reset_wq_inv [of wq] idle_pool_complete [of wq] by (simp add: wq_reset_def init_wq_indices_view)

text \<open>
  C33: what a reset does to the queues. \<open>efa_modify_qp\<close> to the reset state puts the counters of
  both queues to zero and leaves the index pools as they are. So a queue is well formed after the
  reset exactly when its pool, handed out or not, still lists every index once; that is so when
  no request was outstanding, and may not be so otherwise.
\<close>

theorem reset_keeps_pool:
  assumes run: "efa_modify_qp dr p attr msk w = Some (0, w')"
    and reset: "msk AND IBV_QP_STATE \<noteq> 0" "at_qp_state attr = IBV_QPS_RESET"
    and q: "w_qps w p = Some q" "wq_inv (sq_wq (qp_sq q))" "wq_inv (rq_wq (qp_rq q))"
  shows "\<exists>q'. w_qps w' p = Some q' \<and> qp_state (verbs_qp q') = IBV_QPS_RESET \<and>
    wq_reset (sq_wq (qp_sq q)) (sq_wq (qp_sq q')) \<and> wq_reset (rq_wq (qp_rq q)) (rq_wq (qp_rq q'))"
proof -
  have q': "w_qps w' p = Some (modified_qp attr msk q)"
    using run q(1) by (elim modify_qp_cases) simp
  have m: "modified_qp attr msk q =
      efa_qp_init_indices (q\<lparr>verbs_qp := (verbs_qp q)\<lparr>qp_state := IBV_QPS_RESET\<rparr>\<rparr>)"
    using reset by (simp add: modified_qp_def)
  show ?thesis
    by (simp add: q' m efa_qp_init_indices_def wq_reset_init q(2,3))
qed

text \<open>
  Two requests go out and the first completes: its index 0 is now the next one of the pool, the
  index 1 stands nowhere. After the reset both the first and the second request get the index 0.
\<close>

definition ex_two_out :: efa_wq where
  "ex_two_out = the (do {
     (i, wq) \<leftarrow> efa_wq_get_next_wrid_idx_locked wq_example 10;
     (j, wq) \<leftarrow> efa_wq_get_next_wrid_idx_locked wq 11;
     efa_wq_put_wrid_idx_unlocked wq i })"

definition ex_reset_qp :: efa_qp where
  "ex_reset_qp = zero_qp\<lparr>verbs_qp := zero_verbs_qp\<lparr>qp_context_ptr := Some 0\<rparr>,
     qp_sq := ex_sq\<lparr>sq_wq := ex_two_out\<rparr>, qp_rq := zero_rq\<lparr>rq_wq := wq_example\<rparr>\<rparr>"

lemma ex_two_out_eq:
  "ex_two_out = wq_example\<lparr>wrid := Live [10, 11, 0, 0], wrid_idx_pool := Live [0, 0, 2, 3],
     wrid_idx_pool_next := 1, wqe_completed := 1\<rparr>"
  by code_simp

theorem reset_keeps_pool_witness:
  "\<exists>w' q'. efa_modify_qp ref_driver 4 (state_attr IBV_QPS_RESET) IBV_QP_STATE
       ((ref_world False)\<lparr>w_qps := [4 \<mapsto> ex_reset_qp]\<rparr>) = Some (0, w') \<and>
     w_qps w' 4 = Some q' \<and> \<not> wq_inv (sq_wq (qp_sq q')) \<and> wq_inv (rq_wq (qp_rq q'))"
proof -
  let ?w = "(ref_world False)\<lparr>w_qps := [4 \<mapsto> ex_reset_qp]\<rparr>"
  have e: "edev_at ?w (Some 0) = Some ref_dev"
    by (simp add: edev_at_def ref_world_def ref_ctx_def)
  have c: "qp_context_ptr (verbs_qp ex_reset_qp) = Some 0" by (simp add: ex_reset_qp_def)
  obtain w' where run: "efa_modify_qp ref_driver 4 (state_attr IBV_QPS_RESET) IBV_QP_STATE ?w = Some (0, w')"
    by (simp add: efa_modify_qp_def ibv_cmd_modify_qp_def efa_win_modify_qp_def e c)
      (simp add: ref_driver_def unless_refused_def Let_def ref_world_def ref_state0_def IBV_QP_STATE_def)
  have out: "wq_pool (sq_wq (qp_sq ex_reset_qp)) = [0, 0, 2, 3]" "sq_wq (qp_sq ex_reset_qp) = ex_two_out"
    "rq_wq (qp_rq ex_reset_qp) = wq_example"
    by (simp_all add: ex_reset_qp_def ex_two_out_eq wq_pool_def)
  have inv: "wq_inv ex_two_out"
    by (simp add: ex_two_out_eq wq_inv_def wq_free_def wq_example_def)
  have cnt: "unat (wqe_cnt ex_two_out) = 4" "unat (wqe_cnt wq_example) = 4" "wq_pool wq_example = [0, 1, 2, 3]"
    by (simp_all add: ex_two_out_eq wq_example_def wq_pool_def)
  have "(1 :: nat) \<in> {0..<4}" "(1 :: nat) \<notin> set [0, 0, 2, 3]" by simp_all
  then have lost: "set [0, 0, 2, 3] \<noteq> {0..<4 :: nat}" by blast
  have full: "set [0, 1, 2, 3] = {0..<4 :: nat}" by auto
  have "wq_inv (sq_wq (qp_sq ex_reset_qp))" "wq_inv (rq_wq (qp_rq ex_reset_qp))"
    by (simp_all add: out(2,3) inv wq_example_inv)
  from reset_keeps_pool [OF run _ _ _ this] obtain q' where q': "w_qps w' 4 = Some q'"
      "wq_reset ex_two_out (sq_wq (qp_sq q'))" "wq_reset wq_example (rq_wq (qp_rq q'))"
    by (auto simp: out(2,3) IBV_QP_STATE_def)
  have pool: "wq_pool ex_two_out = [0, 0, 2, 3]" using out(1) by (simp only: out(2))
  have "\<not> wq_inv (sq_wq (qp_sq q'))" "wq_inv (rq_wq (qp_rq q'))"
    using q'(2,3) lost full unfolding wq_reset_def cnt pool by blast+
  then show ?thesis using run q'(1) by blast
qed

section \<open>A destruction the driver refuses\<close>

lemma sq_terminate_once:
  assumes "efa_sq_terminate q = Some q'" and "wqe_cnt (sq_wq (qp_sq q)) \<noteq> 0"
    and "local_queue (qp_sq q) = Live ws"
  shows "efa_sq_terminate q' = None \<and> verbs_qp q' = verbs_qp q"
proof -
  obtain wq where wq: "efa_wq_terminate (sq_wq (qp_sq q)) = Some wq"
    "q' = q\<lparr>qp_sq := (qp_sq q)\<lparr>local_queue := Dangling, sq_wq := wq\<rparr>\<rparr>"
    using assms by (auto simp: efa_sq_terminate_def bind_eq_Some_conv)
  have "wqe_cnt wq = wqe_cnt (sq_wq (qp_sq q))"
    using wq(1) by (auto simp: efa_wq_terminate_def bind_eq_Some_conv Let_def)
  then show ?thesis using assms(2) by (simp add: wq(2) efa_sq_terminate_def)
qed

lemma sq_terminate_None:
  "efa_sq_terminate q = None \<longleftrightarrow> wqe_cnt (sq_wq (qp_sq q)) \<noteq> 0 \<and>
     (cb_free (local_queue (qp_sq q)) = None \<or> efa_wq_terminate (sq_wq (qp_sq q)) = None)"
  by (cases "cb_free (local_queue (qp_sq q))"; cases "efa_wq_terminate (sq_wq (qp_sq q))")
    (simp_all add: efa_sq_terminate_def)

lemma rq_terminate_keeps_sq:
  "efa_rq_terminate q = Some q' \<Longrightarrow> qp_sq q' = qp_sq q \<and> verbs_qp q' = verbs_qp q"
  by (auto simp: efa_rq_terminate_def bind_eq_Some_conv split: if_splits)

lemma teardown_refused:
  assumes "teardown_qp dr p q w = Some (err, w')" and "err \<noteq> 0"
    and "wqe_cnt (sq_wq (qp_sq q)) \<noteq> 0" "local_queue (qp_sq q) = Live ws"
  obtains q2 d where "efa_sq_terminate q2 = None" "verbs_qp q2 = verbs_qp q"
    "w' = w\<lparr>w_drv := d, w_qps := (w_qps w)(p \<mapsto> q2)\<rparr>"
proof -
  obtain q1 q2 where t: "efa_sq_terminate q = Some q1" "efa_rq_terminate q1 = Some q2"
    using assms(1) by (auto simp: teardown_qp_def bind_eq_Some_conv)
  have cmd: "ibv_cmd_destroy_qp dr p (w\<lparr>w_qps := (w_qps w)(p \<mapsto> q2)\<rparr>) = Some (err, w')"
    using assms(1,2) t by (auto simp: teardown_qp_def bind_eq_Some_conv Let_def split: if_splits)
  obtain d where "w' = w\<lparr>w_qps := (w_qps w)(p \<mapsto> q2)\<rparr>\<lparr>w_drv := d\<rparr>"
    by (rule cmd_destroy_qp_cases [OF cmd])
  then have w': "w' = w\<lparr>w_drv := d, w_qps := (w_qps w)(p \<mapsto> q2)\<rparr>" by simp
  have "efa_sq_terminate q1 = None \<and> verbs_qp q1 = verbs_qp q"
    by (rule sq_terminate_once [OF t(1) assms(3,4)])
  moreover have "qp_sq q2 = qp_sq q1 \<and> verbs_qp q2 = verbs_qp q1" by (rule rq_terminate_keeps_sq [OF t(2)])
  ultimately show ?thesis using that [OF _ _ w'] by (simp add: sq_terminate_None)
qed

lemma destroy_needs_terminate:
  assumes "w_qps w p = Some q" and "efa_sq_terminate q = None"
  shows "efa_destroy_qp dr p w = None"
proof (rule ccontr)
  assume "efa_destroy_qp dr p w \<noteq> None"
  then obtain x where "efa_destroy_qp dr p w = Some x" by blast
  then show False
    using assms unfolding efa_destroy_qp_def Let_def by (auto simp: bind_eq_Some_conv)
qed

text \<open>
  C34: a destruction that the driver refuses. The queue pair is then already out of the table and
  off the reference counts and its arrays are gone: the object that is left cannot be destroyed a
  second time, since the retry frees the arrays again, whatever the driver answers then.
\<close>

theorem refused_destroy_is_final:
  assumes run: "efa_destroy_qp dr p w = Some (err, w')" "err \<noteq> 0"
    and q: "w_qps w p = Some q" "qp_context_ptr (verbs_qp q) = Some c"
    and ctx: "w_ctxs w c = Some ctx" "qp_table ctx = Live tbl"
      "qp_slot ctx (qp_num (verbs_qp q)) < length tbl"
    and subs: "has_sub (w_cqs w) (qp_send_cq (verbs_qp q)) (sq_sub q)"
      "has_sub (w_cqs w) (qp_recv_cq (verbs_qp q)) (rq_sub q)"
    and live: "wqe_cnt (sq_wq (qp_sq q)) \<noteq> 0" "local_queue (qp_sq q) = Live ws"
  shows "(\<exists>q2. w_qps w' p = Some q2 \<and> verbs_qp q2 = verbs_qp q) \<and>
    w_ctxs w' = (w_ctxs w)(c \<mapsto> ctx\<lparr>qp_table := Live (tbl[qp_slot ctx (qp_num (verbs_qp q)) := None])\<rparr>) \<and>
    w_cqs w' = bump_at (\<lambda>n. n - 1) (qp_recv_cq (verbs_qp q)) (rq_sub q)
      (bump_at (\<lambda>n. n - 1) (qp_send_cq (verbs_qp q)) (sq_sub q) (w_cqs w)) \<and>
    efa_destroy_qp dr' p w' = None"
proof -
  have t: "teardown_qp dr p q (unpublished q c ctx tbl w) = Some (err, w')"
    using run(1) by (simp add: destroy_qp_run [OF q ctx subs])
  show ?thesis
  proof (rule teardown_refused [OF t run(2) live], goal_cases)
    case (1 q2 d)
    have "w_qps w' p = Some q2" by (simp add: 1(3))
    then show ?case
      using 1 destroy_needs_terminate [of w' p q2 dr'] by (simp add: unpublished_def)
  qed
qed


lemma ref_published:
  assumes "create_qp ref_driver (ref_allocs False) (Some 0) ref_attr None (ref_world False) =
    Some (Some p, attr', w1)"
  obtains q k j where "p = 4" "published 0 ref_ctx (replicate 4 None) 4 q (ref_world False) w1"
    "sq_fresh k (ia_cap (iax_base ref_attr)) (qp_sq q)" "rq_fresh j (ia_cap (iax_base ref_attr)) (rq_wq (qp_rq q))"
    "qp_context_ptr (verbs_qp q) = Some 0"
  by (rule create_qp_success [OF assms ref_env ref_fits ref_al ref_subs]) (rule that)

theorem refused_destroy_is_final_witness:
  "\<exists>w1 w2. efa_destroy_qp ref_driver 4 w1 = Some (5, w2) \<and> efa_destroy_qp ref_driver 4 w2 = None"
proof -
  obtain attr' w0 where run: "create_qp ref_driver (ref_allocs False) (Some 0) ref_attr None
      (ref_world False) = Some (Some 4, attr', w0)" using ref_created [of False False] by auto
  define w1 where "w1 = w0\<lparr>w_drv := ref_state0 True\<rparr>"
  show ?thesis
  proof (rule ref_published [OF run], goal_cases)
    case (1 q k j)
    let ?v = "verbs_qp q"
    let ?ctx = "ref_ctx\<lparr>qp_table := Live ((replicate 4 None)[qp_slot ref_ctx (qp_num ?v) := Some 4])\<rparr>"
    have pub: "has_sub (w_cqs (ref_world False)) (qp_send_cq ?v) (sq_sub q)"
      "has_sub (w_cqs (ref_world False)) (qp_recv_cq ?v) (rq_sub q)"
      and w0: "w0 = (ref_world False)\<lparr>w_drv := w_drv w0, w_ctxs := (w_ctxs (ref_world False))(0 \<mapsto> ?ctx),
       w_cqs := bump_at (\<lambda>n. n + 1) (qp_recv_cq ?v) (rq_sub q)
                  (bump_at (\<lambda>n. n + 1) (qp_send_cq ?v) (sq_sub q) (w_cqs (ref_world False))),
       w_qps := (w_qps (ref_world False))(4 \<mapsto> q)\<rparr>"
      using 1(2) unfolding published_def by blast+
    have f: "w_qps w1 4 = Some q" "w_ctxs w1 0 = Some ?ctx" "w_drv w1 = ref_state0 True"
      "edev_at w1 (Some 0) = Some ref_dev"
      unfolding w1_def by (subst w0, simp add: edev_at_def ref_world_def ref_ctx_def)+
    have subs: "has_sub (w_cqs w1) (qp_send_cq ?v) (sq_sub q)" "has_sub (w_cqs w1) (qp_recv_cq ?v) (rq_sub q)"
      unfolding w1_def by (subst w0, simp add: pub)+
    have slot: "qp_slot ?ctx (qp_num ?v) < length ((replicate 4 None)[qp_slot ref_ctx (qp_num ?v) := Some 4])"
      using qp_slot_le [of ref_ctx "qp_num ?v"] by (simp add: qp_slot_def ref_ctx_def)
    obtain q1 q2 where t: "efa_sq_terminate q = Some q1" "efa_rq_terminate q1 = Some q2"
      "verbs_qp q2 = ?v" by (rule terminate_fresh [OF 1(3,4)])
    have rel: "released_qp ref_driver (wd_Device (dev_device ref_dev)) (qp_handle ?v) (w_drv w1)
        (refused ()) (ref_state0 True)"
      by (simp add: released_qp_def f ref_driver_def unless_refused_def ref_state0_def)
    obtain w2 where d: "efa_destroy_qp ref_driver 4 w1 = Some (5, w2)"
      using destroy_qp_eq [OF f(1) 1(5) f(2) _ slot subs t f(4) rel] by simp
    have live: "wqe_cnt (sq_wq (qp_sq q)) \<noteq> 0" "\<exists>ws. local_queue (qp_sq q) = Live ws"
      using 1(3) by (auto simp: sq_fresh_def sq_geom_def word_eq_2_power_ne)
    then show ?case
      using refused_destroy_is_final [OF d _ f(1) 1(5) f(2) _ slot subs live(1), where dr' = ref_driver] d
      by auto
  qed
qed

section \<open>A queue pair without receive elements\<close>

lemma setup_qp_zero_sge: "max_recv_sge cap = 0 \<Longrightarrow> efa_setup_qp ctx qp cap pg = None"
  by (auto simp: efa_setup_qp_def Let_def c_div_def bind_eq_Some_conv intro!: ccontr)

text \<open>
  A queue pair for sending only. When the caller asks for no receive elements, which every
  check lets through, the number of receive entries is computed by a division by zero: \<open>create_qp\<close>
  is undefined, for whatever driver and allocator.
\<close>

theorem create_qp_without_recv_sge:
  assumes "create_env c ctx tbl edev attr efa_attr w" and "al_qp al = Some p"
    and "max_recv_sge (ia_cap (iax_base attr)) = 0"
  shows "create_qp dr al (Some c) attr efa_attr w = None"
  using assms by (simp add: create_env_def create_qp_def create_qp_at_def setup_qp_zero_sge)

theorem create_qp_without_recv_sge_witness:
  "\<exists>attr. max_send_wr (ia_cap (iax_base attr)) = 3 \<and>
     create_qp ref_driver (ref_allocs False) (Some 0) attr None (ref_world False) = None"
proof -
  let ?attr = "ref_attr\<lparr>iax_base := (iax_base ref_attr)\<lparr>ia_cap :=
    (ia_cap (iax_base ref_attr))\<lparr>max_recv_wr := 0, max_recv_sge := 0\<rparr>\<rparr>\<rparr>"
  have c: "efa_check_qp_attr ref_ctx ?attr None = Some 0" "efa_check_qp_limits ref_ctx ?attr = 0"
    by code_simp+
  have "create_env 0 ref_ctx (replicate 4 None) ref_dev ?attr None (ref_world False)"
    using ref_env [of False] by (simp add: create_env_def c)
  then have "create_qp ref_driver (ref_allocs False) (Some 0) ?attr None (ref_world False) = None"
    by (rule create_qp_without_recv_sge) (simp_all add: ref_al)
  then show ?thesis by (intro exI [of _ ?attr]) (simp add: ref_attr_def)
qed

end
