(* ===== verification/Efa_Ah_Contract.thy ===== *)
theory Efa_Ah_Contract
  imports Efa_Pd Efa_Driver
begin

text \<open>
  The contract of address handles: what the driver is asked for, the handle it names, and the
  release that undoes it. The failure path of the creation frees the object twice.
\<close>

section \<open>The requests\<close>

definition ah_params :: "efa_pd \<Rightarrow> ibv_ah_attr \<Rightarrow> EFA_CREATE_AH_PARAMS" where
  "ah_params pd attr = \<lparr>cah_Pdn = ucast (pd_handle pd), cah_DestAddr = take EFA_GID_SIZE (gr_dgid (aa_grh attr))\<rparr>"

definition created_ah :: "efa_pd \<Rightarrow> ptr \<Rightarrow> u16 \<Rightarrow> efa_ah" where
  "created_ah pd pdp h =
     zero_ah\<lparr>ah_context := pd_context pd, ah_handle := ucast h, ah_pd := Some pdp, ah_efa_ah := h\<rparr>"

lemma ucast_u16_u32 [simp]: "(ucast (ucast (h :: u16) :: u32) :: u16) = h"
proof -
  have "unat h < 2 ^ LENGTH(16)" by (rule unsigned_less)
  then show ?thesis by (simp add: word_unat_eq_iff unat_ucast_mod)
qed

lemma edev_frame_ahs [simp]:
  "edev_at (w\<lparr>w_ahs := x\<rparr>) c = edev_at w c" "edev_at (w\<lparr>w_drv := d\<rparr>) c = edev_at w c"
  by (simp_all add: edev_at_def)

lemma create_ah_eq:
  assumes "w_pds w pdp = Some pd" "edev_at w (pd_context pd) = Some edev"
    and "IOCTL_EFA_ALLOC_AH dr (wd_Device (dev_device edev)) (ah_params pd attr)
      sizeof_EFA_CREATE_AH_PARAMS \<lparr>ai_AddressHandle = 0\<rparr> (w_drv w) = (r, d)"
  shows "efa_create_ah dr (Some p) pdp attr w =
    (if ioctl_status r sizeof_EFA_AH_INFO \<noteq> 0 then None
     else Some (Some p, w\<lparr>w_drv := d,
       w_ahs := (w_ahs w)(p \<mapsto> created_ah pd pdp (ai_AddressHandle (outBuffer r)))\<rparr>))"
  using assms
  by (simp add: efa_create_ah_def ibv_cmd_create_ah_def efa_win_create_ah_def ah_params_def created_ah_def
      Let_def)

lemma destroy_ah_eq:
  assumes "w_ahs w p = Some (created_ah pd pdp h)" "w_pds w pdp = Some pd"
    and "edev_at w (pd_context pd) = Some edev"
    and "IOCTL_EFA_DEALLOC_AH dr (wd_Device (dev_device edev))
      \<lparr>dah_Pdn = ucast (pd_handle pd), dah_AddressHandle = h\<rparr> sizeof_EFA_DESTROY_AH_PARAMS () (w_drv w) = (r, d)"
  shows "efa_destroy_ah dr p w = Some (ioctl_status_nodata r,
    if ioctl_status_nodata r = 0 then w\<lparr>w_drv := d, w_ahs := (w_ahs w)(p := None)\<rparr> else w\<lparr>w_drv := d\<rparr>)"
  using assms by (simp add: efa_destroy_ah_def ibv_cmd_destroy_ah_def efa_win_destroy_ah_def created_ah_def)

text \<open>
  C35: address handles. \<open>efa_create_ah\<close> asks the driver for the destination under the number of
  the protection domain. When the driver grants it, the handle carries the driver's number, and
  \<open>efa_destroy_ah\<close> asks for exactly that number back and undoes the creation, or changes nothing
  when it is refused. When the driver does not grant it, both the command layer and
  \<open>efa_create_ah\<close> free the object: the double free is undefined.
\<close>

theorem create_ah_contract:
  assumes "w_pds w pdp = Some pd" "edev_at w (pd_context pd) = Some edev" "w_ahs w p = None"
    and "IOCTL_EFA_ALLOC_AH dr (wd_Device (dev_device edev)) (ah_params pd attr)
      sizeof_EFA_CREATE_AH_PARAMS \<lparr>ai_AddressHandle = 0\<rparr> (w_drv w) = (r, d)"
  shows "if ioctl_status r sizeof_EFA_AH_INFO \<noteq> 0 then efa_create_ah dr (Some p) pdp attr w = None
    else \<exists>w' a. efa_create_ah dr (Some p) pdp attr w = Some (Some p, w') \<and>
      w' = w\<lparr>w_drv := d, w_ahs := (w_ahs w)(p \<mapsto> a)\<rparr> \<and> ah_efa_ah a = ai_AddressHandle (outBuffer r) \<and>
      (\<forall>dr2 r2 d2. IOCTL_EFA_DEALLOC_AH dr2 (wd_Device (dev_device edev))
           \<lparr>dah_Pdn = ucast (pd_handle pd), dah_AddressHandle = ai_AddressHandle (outBuffer r)\<rparr>
           sizeof_EFA_DESTROY_AH_PARAMS () d = (r2, d2) \<longrightarrow>
         efa_destroy_ah dr2 p w' = Some (ioctl_status_nodata r2,
           if ioctl_status_nodata r2 = 0 then w\<lparr>w_drv := d2\<rparr> else w'\<lparr>w_drv := d2\<rparr>))"
proof (cases "ioctl_status r sizeof_EFA_AH_INFO = 0")
  case False
  then show ?thesis by (simp add: create_ah_eq [OF assms(1,2,4)])
next
  case True
  let ?h = "ai_AddressHandle (outBuffer r)"
  let ?w' = "w\<lparr>w_drv := d, w_ahs := (w_ahs w)(p \<mapsto> created_ah pd pdp ?h)\<rparr>"
  have undo: "?w'\<lparr>w_drv := d2, w_ahs := (w_ahs ?w')(p := None)\<rparr> = w\<lparr>w_drv := d2\<rparr>" for d2
    using assms(3) by (cases w) (simp add: fun_upd_idem)
  have "efa_destroy_ah dr2 p ?w' = Some (ioctl_status_nodata r2,
           if ioctl_status_nodata r2 = 0 then w\<lparr>w_drv := d2\<rparr> else ?w'\<lparr>w_drv := d2\<rparr>)"
    if "IOCTL_EFA_DEALLOC_AH dr2 (wd_Device (dev_device edev))
           \<lparr>dah_Pdn = ucast (pd_handle pd), dah_AddressHandle = ?h\<rparr>
           sizeof_EFA_DESTROY_AH_PARAMS () d = (r2, d2)" for dr2 r2 d2
  proof -
    have "w_ahs ?w' p = Some (created_ah pd pdp ?h)" "w_pds ?w' pdp = Some pd"
      "edev_at ?w' (pd_context pd) = Some edev" "w_drv ?w' = d"
      using assms(1,2) by simp_all
    note destroy_ah_eq [OF this(1-3), unfolded this(4), OF that]
    then show ?thesis by (simp only: undo)
  qed
  moreover have "ah_efa_ah (created_ah pd pdp ?h) = ?h" by (simp add: created_ah_def)
  moreover have "efa_create_ah dr (Some p) pdp attr w = Some (Some p, ?w')"
    using True by (simp add: create_ah_eq [OF assms(1,2,4)])
  ultimately have "\<exists>w' a. efa_create_ah dr (Some p) pdp attr w = Some (Some p, w') \<and>
      w' = w\<lparr>w_drv := d, w_ahs := (w_ahs w)(p \<mapsto> a)\<rparr> \<and> ah_efa_ah a = ?h \<and>
      (\<forall>dr2 r2 d2. IOCTL_EFA_DEALLOC_AH dr2 (wd_Device (dev_device edev))
           \<lparr>dah_Pdn = ucast (pd_handle pd), dah_AddressHandle = ?h\<rparr>
           sizeof_EFA_DESTROY_AH_PARAMS () d = (r2, d2) \<longrightarrow>
         efa_destroy_ah dr2 p w' = Some (ioctl_status_nodata r2,
           if ioctl_status_nodata r2 = 0 then w\<lparr>w_drv := d2\<rparr> else w'\<lparr>w_drv := d2\<rparr>))"
    by (intro exI [of _ ?w'] exI [of _ "created_ah pd pdp ?h"]) blast
  then show ?thesis using True by simp
qed

definition ref_ah_attr :: ibv_ah_attr where
  "ref_ah_attr = \<lparr>aa_grh = \<lparr>gr_dgid = replicate 16 1, gr_flow_label = 0, gr_sgid_index = 0,
     gr_hop_limit = 0, gr_traffic_class = 0\<rparr>, aa_dlid = 0, aa_sl = 0, aa_src_path_bits = 0,
     aa_static_rate = 0, aa_is_global = 0, aa_port_num = 0\<rparr>"

theorem create_ah_contract_witness:
  "efa_create_ah ref_driver (Some 4) 2 ref_ah_attr (ref_world True) = None \<and>
   (\<exists>w' a d. efa_create_ah ref_driver (Some 4) 2 ref_ah_attr (ref_world False) = Some (Some 4, w') \<and>
      w_ahs w' 4 = Some a \<and> ah_efa_ah a = 8 \<and>
      efa_destroy_ah ref_driver 4 w' = Some (0, (ref_world False)\<lparr>w_drv := d\<rparr>))"
proof -
  let ?pd = "\<lparr>pd_context = Some 0, pd_handle = 5, pdn = 5\<rparr>"
  have w: "w_pds (ref_world f) 2 = Some ?pd" "edev_at (ref_world f) (pd_context ?pd) = Some ref_dev"
    "w_ahs (ref_world f) 4 = None" "w_drv (ref_world f) = ref_state0 f" for f
    by (simp_all add: ref_world_def edev_at_def ref_ctx_def)
  have no: "IOCTL_EFA_ALLOC_AH ref_driver h ps n out (ref_state0 True) = (refused out, ref_state0 True)" for h ps n out
    by (simp add: ref_driver_def unless_refused_def ref_state0_def)
  have yes: "IOCTL_EFA_ALLOC_AH ref_driver h ps n out (ref_state0 False) =
      (granted \<lparr>ai_AddressHandle = 8\<rparr> sizeof_EFA_AH_INFO, (ref_state0 False)\<lparr>rs_next := 9\<rparr>)" for h ps n out
    by (simp add: ref_driver_def unless_refused_def ref_state0_def)
  have free: "IOCTL_EFA_DEALLOC_AH ref_driver h ps n () ((ref_state0 False)\<lparr>rs_next := 9\<rparr>) =
      (granted () 0, (ref_state0 False)\<lparr>rs_next := 9\<rparr>)" for h ps n
    by (simp add: ref_driver_def unless_refused_def ref_state0_def)
  have "efa_create_ah ref_driver (Some 4) 2 ref_ah_attr (ref_world True) = None"
    using create_ah_contract [OF w(1-3) no [folded w(4)], of ref_ah_attr] by simp
  moreover have st: "ioctl_status (granted \<lparr>ai_AddressHandle = 8\<rparr> sizeof_EFA_AH_INFO) sizeof_EFA_AH_INFO = 0"
  proof (rule granted_status)
    have "sizeof_EFA_AH_INFO < 3" by code_simp
    also have "(3 :: nat) < 2 ^ 32" by simp
    finally show "sizeof_EFA_AH_INFO < 2 ^ 32" .
  qed
  note C = create_ah_contract [OF w(1-3) yes [folded w(4)], of ref_ah_attr, unfolded st w(4), simplified]
  obtain w' a where c: "efa_create_ah ref_driver (Some 4) 2 ref_ah_attr (ref_world False) = Some (Some 4, w')"
    "w' = (ref_world False)\<lparr>w_drv := (ref_state0 False)\<lparr>rs_next := 9\<rparr>, w_ahs := (w_ahs (ref_world False))(4 \<mapsto> a)\<rparr>"
    "ah_efa_ah a = 8"
    and d: "\<And>dr2 r2 d2. IOCTL_EFA_DEALLOC_AH dr2 (wd_Device (dev_device ref_dev))
           \<lparr>dah_Pdn = 5, dah_AddressHandle = 8\<rparr>
           sizeof_EFA_DESTROY_AH_PARAMS () ((ref_state0 False)\<lparr>rs_next := 9\<rparr>) = (r2, d2) \<Longrightarrow>
         efa_destroy_ah dr2 4 w' = Some (ioctl_status_nodata r2,
           if ioctl_status_nodata r2 = 0 then (ref_world False)\<lparr>w_drv := d2\<rparr> else w'\<lparr>w_drv := d2\<rparr>)"
    using C by (elim exE conjE) (rule that, assumption+, blast)
  have "w_ahs w' 4 = Some a" by (simp add: c(2))
  moreover have "efa_destroy_ah ref_driver 4 w' =
      Some (0, (ref_world False)\<lparr>w_drv := (ref_state0 False)\<lparr>rs_next := 9\<rparr>\<rparr>)"
    using d [OF free] by simp
  ultimately show ?thesis using c(1,3) by blast
qed

end
