(* ===== verification/Efa_Device_Contract.thy ===== *)
theory Efa_Device_Contract
  imports Efa_Device Efa_Driver
begin

text \<open>
  The contract of opening and closing a device: no handle of the driver is lost on any path, and
  what an open context starts with.
\<close>

section \<open>The size of the table\<close>

lemma roundup_pow_of_two_result:
  assumes "roundup_pow_of_two n = Some r"
  shows "\<exists>k. k \<le> 31 \<and> unat r = 2 ^ k \<and> unat n \<le> 2 ^ k"
proof -
  have cases: "n = 0 \<or> n = 1 \<or> 1 < unat n"
    using word_unat_eq_iff [of n 0] word_unat_eq_iff [of n 1] by (cases "unat n \<le> 1") auto
  show ?thesis
  proof (cases "n = 0 \<or> n = 1")
    case True
    then show ?thesis using assms
      by (auto simp: roundup_pow_of_two_0 roundup_pow_of_two_1 intro: exI [of _ 0] exI [of _ 1])
  next
    case False
    then have n: "1 < unat n" using cases by blast
    obtain y where y: "roundup_loop 1 n = Some y" "r = ucast y"
      using assms False by (auto simp: roundup_pow_of_two_def split: if_splits)
    obtain j where j: "\<not> ucast y < n" "y = push_bit j 1" using roundup_loop_shape [OF y(1)] by blast
    have u: "unat r = unat y" unfolding y(2) by (rule unat_ucast_widen) simp
    have le: "unat n \<le> unat r" using j(1) by (simp add: y(2) word_less_nat_alt)
    have "j < 32"
    proof (rule ccontr)
      assume "\<not> j < 32"
      then have "y = 0" by (simp add: j(2) exp_eq_zero_iff)
      then show False using le n u by simp
    qed
    then have "unat r = 2 ^ j" by (simp add: u j(2) unat_2_power)
    then show ?thesis using le \<open>j < 32\<close> by (intro exI [of _ j]) simp
  qed
qed

section \<open>The context\<close>

text \<open>
  A fresh context of a device whose attributes are \<open>di\<close>: a table of queue pairs with a slot for
  each the device can have, all empty, no limits yet, the provider's operations, and the mark of an
  extended context not set.
\<close>

definition context_fresh :: "ptr \<Rightarrow> EFA_DEVICE_INFO \<Rightarrow> efa_context \<Rightarrow> bool" where
  "context_fresh device di ctx \<longleftrightarrow>
     ctx_device ctx = Some device \<and> sub_cqs_per_cq ctx = di_NumSubCqs di \<and>
     ctx_cqe_size ctx = of_nat sizeof_rx_cdesc \<and> qp_table_lock ctx = 0 \<and>
     (\<exists>k. k \<le> 31 \<and> qp_table ctx = Live (replicate (2 ^ k) None) \<and>
        unat (qp_table_sz_m1 ctx) + 1 = 2 ^ k \<and> unat (size_of_int (di_MaxQp di)) \<le> 2 ^ k) \<and>
     ctx_max_sq_wr ctx = 0 \<and> ctx_max_rq_wr ctx = 0 \<and> ctx_max_sq_sge ctx = 0 \<and> ctx_max_rq_sge ctx = 0 \<and>
     ctx_abi_compat ctx = 0 \<and> ctx_ops ctx = ctx_ops (verbs_set_ops zero_context efa_ctx_ops)"

lemma udata_mask:
  "EFA_USER_CMDS_SUPP_UDATA_CREATE_AH AND EFA_USER_CMDS_SUPP_UDATA_QUERY_DEVICE = 0"
  "EFA_USER_CMDS_SUPP_UDATA_CREATE_AH \<noteq> 0"
  by code_simp+

lemma query_ctx_run:
  assumes "w_ctxs w p = Some ctx" "cmds_supp_udata_mask ctx = EFA_USER_CMDS_SUPP_UDATA_CREATE_AH"
    and "edev_at w (Some p) = Some edev"
  shows "efa_query_device_ctx stk ok p w =
    (case roundup_pow_of_two (size_of_int (di_MaxQp (dev_attr edev))) of None \<Rightarrow> None
     | Some sz \<Rightarrow>
         let w = w\<lparr>w_ctxs := (w_ctxs w)(p \<mapsto> ctx\<lparr>ctx_max_wr_rdma_sge := ucast (da_max_sge_rd (snd stk)),
               qp_table_sz_m1 := ucast sz - 1,
               qp_table := (if ok then Live (replicate (unat (ucast sz :: u32)) None) else Null)\<rparr>)\<rparr>
         in Some (if ok then (0, w) else (ENOMEM, alloc_failed w)))"
proof -
  obtain a where q: "ibv_cmd_query_device_any (Some p) (snd stk) w = Some (0, a)"
    "da_max_qp a = di_MaxQp (dev_attr edev)" "da_max_sge_rd a = da_max_sge_rd (snd stk)"
    by (simp add: ibv_cmd_query_device_any_def assms(3) Let_def)
  show ?thesis
    by (cases ok; cases "roundup_pow_of_two (size_of_int (di_MaxQp (dev_attr edev)))")
      (simp_all add: efa_query_device_ctx_def assms(1,2) q udata_mask Let_def)
qed

lemma query_ctx_cases:
  assumes "efa_query_device_ctx stk ok p w = Some (err, w')"
    and "w_ctxs w p = Some ctx" "cmds_supp_udata_mask ctx = EFA_USER_CMDS_SUPP_UDATA_CREATE_AH"
    and "edev_at w (Some p) = Some edev"
  shows "err \<noteq> 0 \<and> w_drv w' = w_drv w \<and> w_devs w' = w_devs w \<and> (\<exists>ctx'. w_ctxs w' = (w_ctxs w)(p \<mapsto> ctx')) \<or>
    (\<exists>k s x. err = 0 \<and> k \<le> 31 \<and> unat (s :: u32) = 2 ^ k \<and>
       unat (size_of_int (di_MaxQp (dev_attr edev))) \<le> 2 ^ k \<and>
       w' = w\<lparr>w_ctxs := (w_ctxs w)(p \<mapsto> ctx\<lparr>ctx_max_wr_rdma_sge := x, qp_table_sz_m1 := s - 1,
         qp_table := Live (replicate (unat s) None)\<rparr>)\<rparr>)"
proof -
  obtain sz where sz: "roundup_pow_of_two (size_of_int (di_MaxQp (dev_attr edev))) = Some sz"
    using assms(1) unfolding query_ctx_run [OF assms(2-4)] by (auto split: option.splits)
  obtain k where k: "k \<le> 31" "unat sz = 2 ^ k" "unat (size_of_int (di_MaxQp (dev_attr edev))) \<le> 2 ^ k"
    using roundup_pow_of_two_result [OF sz] by blast
  have "(2 :: nat) ^ k < 2 ^ 32" by (rule power_strict_increasing) (use k(1) in simp_all)
  then have s: "unat (ucast sz :: u32) = 2 ^ k" by (simp add: unat_ucast_mod k(2))
  note run = query_ctx_run [OF assms(2-4), of stk ok, unfolded sz option.case Let_def]
  show ?thesis
  proof (cases ok)
    case True
    show ?thesis
      by (rule disjI2, rule exI [of _ k], rule exI [of _ "ucast sz"],
          rule exI [of _ "ucast (da_max_sge_rd (snd stk))"]) (use k s run assms(1) True in simp)
  next
    case False
    show ?thesis by (rule disjI1) (use run assms(1) False in \<open>auto simp: alloc_failed_def\<close>)
  qed
qed

definition context_start :: "ptr \<Rightarrow> EFA_DEVICE_INFO \<Rightarrow> efa_context" where
  "context_start device di = verbs_set_ops (zero_context\<lparr>ctx_device := Some device,
     sub_cqs_per_cq := di_NumSubCqs di, cmds_supp_udata_mask := EFA_USER_CMDS_SUPP_UDATA_CREATE_AH,
     ctx_cqe_size := of_nat sizeof_rx_cdesc, inline_buf_size := ucast (di_InlineBufSize di),
     max_llq_size := di_MaxLlqSize di, max_tx_batch := 0, min_sq_wr := 0, qp_table_lock := 0\<rparr>) efa_ctx_ops"

lemma alloc_context_eq:
  assumes "al_ctx al = Some p" "w_devs w device = Some edev"
  shows "efa_alloc_context al (Some device) w =
    do {
      (err, w) \<leftarrow> efa_query_device_ctx (al_stack al) (al_table al) p
        (w\<lparr>w_ctxs := (w_ctxs w)(p \<mapsto> context_start device (dev_attr edev))\<rparr>);
      if err \<noteq> 0 then do { h \<leftarrow> free_at (w_ctxs w) p; Some (None, w\<lparr>w_ctxs := h\<rparr>) }
      else Some (Some p, w)
    }"
proof -
  have e: "edev_at (w\<lparr>w_ctxs := (w_ctxs w)(p \<mapsto> zero_context\<lparr>ctx_device := Some device\<rparr>)\<rparr>) (Some p) = Some edev"
    using assms(2) by (simp add: edev_at_def)
  have g: "ibv_cmd_get_context p zero_ucontext_resp
      (w\<lparr>w_ctxs := (w_ctxs w)(p \<mapsto> zero_context\<lparr>ctx_device := Some device\<rparr>)\<rparr>) =
    Some (0, \<lparr>ucr_cmds_supp_udata_mask = EFA_USER_CMDS_SUPP_UDATA_CREATE_AH,
       ucr_sub_cqs_per_cq = di_NumSubCqs (dev_attr edev),
       ucr_inline_buf_size = ucast (di_InlineBufSize (dev_attr edev)),
       ucr_max_llq_size = di_MaxLlqSize (dev_attr edev), ucr_max_tx_batch = 0, ucr_min_sq_wr = 0\<rparr>)"
    by (simp add: ibv_cmd_get_context_def e zero_ucontext_resp_def)
  show ?thesis
    unfolding efa_alloc_context_def assms(1)
    by (simp add: g udata_mask Let_def context_start_def)
qed

lemma context_start_simps [simp]:
  "ctx_device (context_start device di) = Some device"
  "cmds_supp_udata_mask (context_start device di) = EFA_USER_CMDS_SUPP_UDATA_CREATE_AH"
  by (simp_all add: context_start_def verbs_set_ops_def)

lemma alloc_context_total:
  assumes "al_ctx al = Some p" "w_devs w device = Some edev"
    and "roundup_pow_of_two (size_of_int (di_MaxQp (dev_attr edev))) = Some sz"
  shows "\<exists>w'. efa_alloc_context al (Some device) w = Some (if al_table al then Some p else None, w') \<and>
    w_devs w' = w_devs w \<and> (al_table al \<longrightarrow> w_ctxs w' p \<noteq> None)"
proof -
  let ?w = "w\<lparr>w_ctxs := (w_ctxs w)(p \<mapsto> context_start device (dev_attr edev))\<rparr>"
  have e: "edev_at ?w (Some p) = Some edev" using assms(2) by (simp add: edev_at_def)
  show ?thesis
    by (cases "al_table al")
      (simp_all add: alloc_context_eq [OF assms(1,2)] query_ctx_run [OF _ _ e] assms(3) alloc_failed_def Let_def)
qed

lemma alloc_context_cases:
  assumes run: "efa_alloc_context al (Some device) w = Some (r, w')"
    and dev: "w_devs w device = Some edev" and fresh: "\<forall>p. al_ctx al = Some p \<longrightarrow> w_ctxs w p = None"
  shows "(r = None \<and> w_drv w' = w_drv w \<and> w_devs w' = w_devs w \<and> w_ctxs w' = w_ctxs w) \<or>
    (\<exists>p ctx. r = Some p \<and> al_ctx al = Some p \<and> w' = w\<lparr>w_ctxs := (w_ctxs w)(p \<mapsto> ctx)\<rparr> \<and>
       context_fresh device (dev_attr edev) ctx)"
proof (cases "al_ctx al")
  case None
  then show ?thesis using run by (auto simp: efa_alloc_context_def alloc_failed_def)
next
  case (Some p)
  have f: "w_ctxs w p = None" using fresh Some by blast
  define ctx0 where "ctx0 = context_start device (dev_attr edev)"
  define w0 where "w0 = w\<lparr>w_ctxs := (w_ctxs w)(p \<mapsto> ctx0)\<rparr>"
  obtain err w1 where q: "efa_query_device_ctx (al_stack al) (al_table al) p w0 = Some (err, w1)"
    and r: "(if err \<noteq> 0 then do { h \<leftarrow> free_at (w_ctxs w1) p; Some (None, w1\<lparr>w_ctxs := h\<rparr>) }
      else Some (Some p, w1)) = Some (r, w')"
    using run unfolding alloc_context_eq [OF Some dev] w0_def ctx0_def by (auto simp: bind_eq_Some_conv)
  have c0: "w_ctxs w0 p = Some ctx0" "cmds_supp_udata_mask ctx0 = EFA_USER_CMDS_SUPP_UDATA_CREATE_AH"
    "ctx_device ctx0 = Some device"
    by (simp_all add: w0_def ctx0_def)
  have e0: "edev_at w0 (Some p) = Some edev"
    using dev c0(1,3) by (simp add: edev_at_def) (simp add: w0_def)
  from query_ctx_cases [OF q c0(1,2) e0] show ?thesis
  proof (elim disjE conjE exE, goal_cases)
    case (1 ctx')
    then show ?thesis using r f by (auto simp: w0_def)
  next
    case (2 k s x)
    define ctx where "ctx = ctx0\<lparr>ctx_max_wr_rdma_sge := x, qp_table_sz_m1 := s - 1,
         qp_table := Live (replicate (unat s) None)\<rparr>"
    have "s \<noteq> 0" using 2(3) by auto
    then have "unat (s - 1) + 1 = 2 ^ k" using 2(3) by (simp add: unat_minus_one)
    then have "context_fresh device (dev_attr edev) ctx" using 2(2-4)
      by (simp add: context_fresh_def ctx_def ctx0_def context_start_def verbs_set_ops_def zero_context_def)
    moreover have "r = Some p" "w' = w\<lparr>w_ctxs := (w_ctxs w)(p \<mapsto> ctx)\<rparr>"
      using r 2(1,5) by (simp_all add: w0_def ctx_def)
    ultimately show ?thesis using Some by blast
  qed
qed

section \<open>Opening and closing\<close>

text \<open>
  What the operating system documents of handles: opening gives one that is not in use or the
  invalid one, closing gives it back, and a query opens and closes none.
\<close>

definition handle_contract :: "'d driver \<Rightarrow> ('d \<Rightarrow> u64 set) \<Rightarrow> bool" where
  "handle_contract dr H \<longleftrightarrow>
     (\<forall>d h e d'. CreateFile dr d = ((h, e), d') \<longrightarrow>
        (if h = INVALID_HANDLE_VALUE then e \<noteq> 0 \<and> H d' = H d else h \<notin> H d \<and> H d' = insert h (H d))) \<and>
     (\<forall>h d. H (CloseHandle dr h d) = H d - {h}) \<and>
     (\<forall>h ps out d r d'. IOCTL_EFA_QUERY_DEVICE dr h ps sizeof_EFA_QUERY_DEVICE_PARAMS out d = (r, d') \<longrightarrow>
        H d' = H d)"

lemma close_dev_at_eq:
  "w_devs w device = Some edev \<Longrightarrow> close_dev_at dr device w =
     Some (0, w\<lparr>w_drv := CloseHandle dr (wd_Device (dev_device edev)) (w_drv w),
       w_devs := (w_devs w)(device \<mapsto> edev\<lparr>dev_device := (dev_device edev)\<lparr>wd_Device := INVALID_HANDLE_VALUE\<rparr>\<rparr>)\<rparr>)"
  by (simp add: close_dev_at_def efa_close_device_def)

lemma device_close_eq:
  assumes "w_ctxs w c = Some ctx" "ctx_device ctx = Some device" "w_devs w device = Some edev"
    "qp_table ctx = Live tbl"
  shows "efa_device_close dr c w =
     Some (0, w\<lparr>w_drv := CloseHandle dr (wd_Device (dev_device edev)) (w_drv w),
       w_devs := (w_devs w)(device \<mapsto> edev\<lparr>dev_device := (dev_device edev)\<lparr>wd_Device := INVALID_HANDLE_VALUE\<rparr>\<rparr>),
       w_ctxs := (w_ctxs w)(c := None)\<rparr>)"
  using assms by (simp add: efa_device_close_def close_dev_at_eq efa_free_context_def)

text \<open>The paths of an open, by what it has acquired.\<close>

lemma device_open_cases:
  assumes run: "efa_device_open dr al device w = Some (r, w')"
    and fresh: "\<forall>p. al_ctx al = Some p \<longrightarrow> w_ctxs w p = None"
    and err: "\<forall>e d. CreateFile dr (w_drv w) = ((INVALID_HANDLE_VALUE, e), d) \<longrightarrow> e \<noteq> 0"
  obtains
    (refused) e d where "CreateFile dr (w_drv w) = ((INVALID_HANDLE_VALUE, e), d)" "r = None"
      "w_drv w' = d" "w_ctxs w' = w_ctxs w"
  | (closed) h e d1 rep d2 ps out where "CreateFile dr (w_drv w) = ((h, e), d1)" "h \<noteq> INVALID_HANDLE_VALUE"
      "IOCTL_EFA_QUERY_DEVICE dr h ps sizeof_EFA_QUERY_DEVICE_PARAMS out d1 = (rep, d2)" "r = None"
      "w_drv w' = CloseHandle dr h d2" "w_ctxs w' = w_ctxs w"
  | (opened) h e d1 rep ps out c ctx edev where "CreateFile dr (w_drv w) = ((h, e), d1)"
      "h \<noteq> INVALID_HANDLE_VALUE"
      "IOCTL_EFA_QUERY_DEVICE dr h ps sizeof_EFA_QUERY_DEVICE_PARAMS out d1 = (rep, w_drv w')"
      "r = Some c" "al_ctx al = Some c" "w_ctxs w' = (w_ctxs w)(c \<mapsto> ctx)"
      "context_fresh device (outBuffer rep) ctx" "w_devs w' device = Some edev"
      "wd_Device (dev_device edev) = h" "dev_attr edev = outBuffer rep" "dev_pg_sz edev = of_nat PAGE_SIZE"
proof -
  obtain edev where dev: "w_devs w device = Some edev"
    using run by (auto simp: efa_device_open_def bind_eq_Some_conv)
  obtain h e d1 where cf: "CreateFile dr (w_drv w) = ((h, e), d1)" by (metis surj_pair)
  show ?thesis
  proof (cases "h = INVALID_HANDLE_VALUE")
    case True
    then have "sint e \<noteq> 0" using err cf by (simp add: signed_eq_0_iff)
    then have "\<exists>x. x \<noteq> 0 \<and> efa_open_device dr (Some (dev_device edev)) (w_drv w) = (x, Some (dev_device edev), d1)"
      using cf True by (simp add: efa_open_device_def)
    then have "r = None \<and> w_drv w' = d1 \<and> w_ctxs w' = w_ctxs w"
      using run dev by (auto simp: efa_device_open_def Let_def)
    then show ?thesis using cf True by (intro refused) simp_all
  next
    case False
    define edev1 where "edev1 = edev\<lparr>dev_device := (dev_device edev)\<lparr>wd_Device := h, wd_PageSize := of_nat PAGE_SIZE\<rparr>\<rparr>"
    have op: "efa_open_device dr (Some (dev_device edev)) (w_drv w) = (0, Some (dev_device edev1), d1)"
      using cf False by (simp add: efa_open_device_def edev1_def)
    obtain rep d2 where ask: "IOCTL_EFA_QUERY_DEVICE dr h \<lparr>qd_InterfaceVersion = EFA_API_INTERFACE_VERSION\<rparr>
        sizeof_EFA_QUERY_DEVICE_PARAMS (dev_attr edev) d1 = (rep, d2)" by (metis surj_pair)
    define edev2 where "edev2 = edev1\<lparr>dev_attr := outBuffer rep\<rparr>"
    define w2 where "w2 = w\<lparr>w_drv := d2, w_devs := (w_devs w)(device \<mapsto> edev2)\<rparr>"
    have win: "efa_win_get_device_info dr (dev_device edev1) \<lparr>qd_InterfaceVersion = EFA_API_INTERFACE_VERSION\<rparr>
        (dev_attr edev) d1 = (ioctl_status rep sizeof_EFA_DEVICE_INFO, outBuffer rep, d2)"
      using ask by (simp add: efa_win_get_device_info_def edev1_def)
    have e1: "edev\<lparr>dev_device := dev_device edev1, dev_attr := outBuffer rep\<rparr> = edev2"
      by (simp add: edev1_def edev2_def)
    have w2: "w_devs w2 device = Some edev2" "w_ctxs w2 = w_ctxs w" "wd_Device (dev_device edev2) = h"
      "dev_attr edev2 = outBuffer rep" "w_drv w2 = d2"
      by (simp_all add: w2_def edev2_def edev1_def)
    have cl: "close_dev_at dr device w3 = Some (0, w') \<Longrightarrow> w_devs w3 device = Some edev2 \<Longrightarrow>
        w_drv w' = CloseHandle dr h (w_drv w3) \<and> w_ctxs w' = w_ctxs w3" for w3
      by (auto simp: close_dev_at_eq w2(3))
    show ?thesis
    proof (cases "ioctl_status rep sizeof_EFA_DEVICE_INFO = 0")
      case bad: False
      have "None = r \<and> w\<lparr>w_drv := CloseHandle dr (wd_Device (dev_device edev1)) d2,
          w_devs := (w_devs w)(device \<mapsto> edev\<lparr>dev_attr := outBuffer rep,
            dev_device := (dev_device edev1)\<lparr>wd_Device := INVALID_HANDLE_VALUE\<rparr>\<rparr>)\<rparr> = w'"
        using run bad by (simp add: efa_device_open_def dev op win Let_def close_dev_at_eq)
      then have "r = None" "w_drv w' = CloseHandle dr h d2" "w_ctxs w' = w_ctxs w"
        by (auto simp: edev1_def)
      then show ?thesis using cf False ask by (intro closed)
    next
      case True
      obtain c w3 where c: "efa_alloc_context al (Some device) w2 = Some (c, w3)"
        and rest: "(case c of None \<Rightarrow> do { (_, w) \<leftarrow> close_dev_at dr device w3; Some (None, w) }
           | Some ctxp \<Rightarrow>
               do {
                 ctx \<leftarrow> w_ctxs w3 ctxp;
                 let di = dev_attr (edev\<lparr>dev_device := dev_device edev1, dev_attr := outBuffer rep\<rparr>);
                 let ctx = ctx\<lparr>ctx_device := Some device, sub_cqs_per_cq := di_NumSubCqs di,
                   max_mr_size := ucast (di_MaxMr di), inline_buf_size := ucast (di_InlineBufSize di),
                   max_llq_size := di_MaxLlqSize di, ctx_cqe_size := of_nat sizeof_rx_cdesc\<rparr>;
                 Some (Some ctxp, w3\<lparr>w_ctxs := (w_ctxs w3)(ctxp \<mapsto> ctx),
                   w_devs := (w_devs w3)(device \<mapsto>
                     edev\<lparr>dev_device := dev_device edev1, dev_attr := outBuffer rep, dev_pg_sz := of_nat PAGE_SIZE\<rparr>)\<rparr>)
               }) = Some (r, w')"
        using run True
        by (simp add: efa_device_open_def dev op win Let_def e1 w2_def [symmetric] bind_eq_Some_conv) blast
      have fr: "\<forall>p. al_ctx al = Some p \<longrightarrow> w_ctxs w2 p = None" using fresh by (simp add: w2)
      from alloc_context_cases [OF c w2(1) fr] show ?thesis
      proof (elim disjE conjE exE, goal_cases)
        case 1
        have "w_devs w3 device = Some edev2" using 1(3) w2(1) by simp
        then have "r = None \<and> w' = w3\<lparr>w_drv := CloseHandle dr h d2,
            w_devs := (w_devs w3)(device \<mapsto> edev2\<lparr>dev_device := (dev_device edev2)\<lparr>wd_Device := INVALID_HANDLE_VALUE\<rparr>\<rparr>)\<rparr>"
          using rest 1(1,2) by (simp add: close_dev_at_eq w2(3,5))
        then show ?thesis using cf False ask 1(4) w2(2) by (intro closed) simp_all
      next
        case (2 p ctx)
        define ctx1 where "ctx1 = ctx\<lparr>ctx_device := Some device, sub_cqs_per_cq := di_NumSubCqs (outBuffer rep),
                   max_mr_size := ucast (di_MaxMr (outBuffer rep)), inline_buf_size := ucast (di_InlineBufSize (outBuffer rep)),
                   max_llq_size := di_MaxLlqSize (outBuffer rep), ctx_cqe_size := of_nat sizeof_rx_cdesc\<rparr>"
        define edev3 where "edev3 = edev\<lparr>dev_device := dev_device edev1, dev_attr := outBuffer rep,
          dev_pg_sz := of_nat PAGE_SIZE\<rparr>"
        have r: "r = Some p" "w' = w3\<lparr>w_ctxs := (w_ctxs w3)(p \<mapsto> ctx1), w_devs := (w_devs w3)(device \<mapsto> edev3)\<rparr>"
          using rest 2(1,3) by (simp_all add: ctx1_def edev3_def Let_def)
        have w': "w_drv w' = d2" "w_ctxs w' = (w_ctxs w)(p \<mapsto> ctx1)" "w_devs w' device = Some edev3"
          by (simp_all add: r(2) 2(3) w2)
        have f: "context_fresh device (outBuffer rep) ctx1"
          using 2(4) by (simp add: w2(4) context_fresh_def ctx1_def)
        show ?thesis
          by (rule opened [where ctx = ctx1 and edev = edev3, OF cf False _ r(1) 2(2) w'(2) f w'(3)])
            (use ask w'(1) in \<open>simp_all add: edev3_def edev1_def\<close>)
      qed
    qed
  qed
qed

text \<open>
  C36: opening a device loses no handle. When \<open>efa_device_open\<close> returns null, whichever step
  failed, the process holds the handles and the contexts it held before. Otherwise it holds one
  handle more, the one in the device object; the new context has an empty table with a slot for
  every queue pair the device can have and its limits are still zero; and \<open>efa_device_close\<close>
  gives the handle and the context back.
\<close>

theorem device_open_close:
  assumes run: "efa_device_open dr al device w = Some (r, w')"
    and os: "handle_contract dr H"
    and fresh: "\<forall>p. al_ctx al = Some p \<longrightarrow> w_ctxs w p = None"
  shows "case r of
      None \<Rightarrow> H (w_drv w') = H (w_drv w) \<and> w_ctxs w' = w_ctxs w
    | Some c \<Rightarrow> \<exists>ctx edev h. w_ctxs w' = (w_ctxs w)(c \<mapsto> ctx) \<and> w_devs w' device = Some edev \<and>
        context_fresh device (dev_attr edev) ctx \<and> h = wd_Device (dev_device edev) \<and>
        h \<notin> H (w_drv w) \<and> H (w_drv w') = insert h (H (w_drv w)) \<and>
        (\<exists>w''. efa_device_close dr c w' = Some (0, w'') \<and> H (w_drv w'') = H (w_drv w) \<and>
           w_ctxs w'' = w_ctxs w)"
proof -
  note C = os [unfolded handle_contract_def, THEN conjunct1, rule_format]
    and close = os [unfolded handle_contract_def, THEN conjunct2, THEN conjunct1, rule_format]
    and query = os [unfolded handle_contract_def, THEN conjunct2, THEN conjunct2, rule_format]
  have new: "if h = INVALID_HANDLE_VALUE then H d' = H (w_drv w)
      else h \<notin> H (w_drv w) \<and> H d' = insert h (H (w_drv w))" if "CreateFile dr (w_drv w) = ((h, e), d')" for h e d'
    using C [OF that] by (simp split: if_splits)
  have err: "\<forall>e d. CreateFile dr (w_drv w) = ((INVALID_HANDLE_VALUE, e), d) \<longrightarrow> e \<noteq> 0"
    by (intro allI impI) (drule C, simp)
  from run fresh err show ?thesis
  proof (cases rule: device_open_cases [consumes 3])
    case (refused e d)
    then show ?thesis using new [OF refused(1)] by simp
  next
    case (closed h e d1 rep d2 ps out)
    then show ?thesis using new [OF closed(1)] query [OF closed(3)] by (simp add: close)
  next
    case (opened h e d1 rep ps out c ctx edev)
    have H: "h \<notin> H (w_drv w)" "H (w_drv w') = insert h (H (w_drv w))"
      using new [OF opened(1)] query [OF opened(3)] opened(2) by simp_all
    obtain k where k: "ctx_device ctx = Some device" "qp_table ctx = Live (replicate (2 ^ k) None)"
      using opened(7) by (auto simp: context_fresh_def)
    have c: "w_ctxs w' c = Some ctx" using opened(6) by simp
    have undo: "(w_ctxs w)(c := None) = w_ctxs w" using fresh opened(5) by (intro fun_upd_idem) blast
    note cl = device_close_eq [OF c k(1) opened(8) k(2), of dr]
    obtain w'' where w'': "efa_device_close dr c w' = Some (0, w'')"
      "w_drv w'' = CloseHandle dr h (w_drv w')" "w_ctxs w'' = (w_ctxs w')(c := None)"
      using cl opened(9) by simp
    have "H (w_drv w'') = H (w_drv w)" "w_ctxs w'' = w_ctxs w"
      using H by (simp_all add: w''(2,3) close opened(6) undo)
    then have "\<exists>w''. efa_device_close dr c w' = Some (0, w'') \<and> H (w_drv w'') = H (w_drv w) \<and> w_ctxs w'' = w_ctxs w"
      using w''(1) by blast
    then show ?thesis unfolding opened(4) option.case
      by (intro exI [of _ ctx] exI [of _ edev] exI [of _ h]) (use opened(6-10) H in simp)
  qed
qed

text \<open>A driver with one handle to give.\<close>

definition handle_driver :: "ref_state driver" where
  "handle_driver = ref_driver
     \<lparr>CreateFile := (\<lambda>d. if rs_handles d = [] then ((7, 0), d\<lparr>rs_handles := [7]\<rparr>)
        else ((INVALID_HANDLE_VALUE, 5), d)),
      CloseHandle := (\<lambda>h d. d\<lparr>rs_handles := filter (\<lambda>k. of_nat k \<noteq> h) (rs_handles d)\<rparr>)\<rparr>"

definition open_handles :: "ref_state \<Rightarrow> u64 set" where
  "open_handles d = of_nat ` set (rs_handles d)"

lemma handle_driver_contract: "handle_contract handle_driver open_handles"
proof -
  have "open_handles d' = open_handles d"
    if "IOCTL_EFA_QUERY_DEVICE handle_driver h ps sizeof_EFA_QUERY_DEVICE_PARAMS out d = (r, d')" for h ps out d r d'
    using that by (auto simp: handle_driver_def ref_driver_def unless_refused_def open_handles_def split: if_splits)
  moreover have "open_handles (CloseHandle handle_driver h d) = open_handles d - {h}" for h d
    by (auto simp: handle_driver_def open_handles_def)
  moreover have "if h = INVALID_HANDLE_VALUE then e \<noteq> 0 \<and> open_handles d' = open_handles d
      else h \<notin> open_handles d \<and> open_handles d' = insert h (open_handles d)"
    if "CreateFile handle_driver d = ((h, e), d')" for h e d d'
  proof (cases "rs_handles d = []")
    case True
    have "(7 :: u64) \<noteq> INVALID_HANDLE_VALUE" by code_simp
    then show ?thesis using that True by (auto simp: handle_driver_def open_handles_def)
  next
    case False
    then show ?thesis using that by (simp add: handle_driver_def)
  qed
  ultimately show ?thesis unfolding handle_contract_def by blast
qed

definition ref_ctx_allocs :: "bool \<Rightarrow> ctx_allocs" where
  "ref_ctx_allocs table = \<lparr>al_ctx = Some 5, al_table = table,
     al_stack = (\<lparr>qdr_fw_ver = 1, qdr_max_sq_wr = 1, qdr_max_rq_wr = 1, qdr_max_sq_sge = 1, qdr_max_rq_sge = 1,
       qdr_max_rdma_size = 1, qdr_device_caps = 1\<rparr>, zero_device_attr)\<rparr>"

definition closed_world :: "ref_state world" where
  "closed_world = (ref_world False)\<lparr>w_drv := (ref_state0 False)\<lparr>rs_handles := []\<rparr>, w_ctxs := Map.empty\<rparr>"

lemma handle_driver_opens:
  "\<exists>w'. efa_device_open handle_driver (ref_ctx_allocs t) 1 closed_world =
     Some (if t then Some 5 else None, w')"
proof -
  obtain r where r: "roundup_pow_of_two (size_of_int 4) = Some r"
    using roundup_pow_of_two_returns [of "size_of_int 4"] by (auto simp: size_of_int_def)
  have c0: "(7 :: u64) \<noteq> INVALID_HANDLE_VALUE" by code_simp
  define ed where "ed = ref_dev\<lparr>dev_device := \<lparr>wd_Device = 7, wd_PageSize = 4096\<rparr>,
    dev_attr := (dev_attr ref_dev)\<lparr>di_NumSubCqs := 2, di_MaxSqDepth := 16, di_MaxRqDepth := 16,
         di_MaxSqSge := 2, di_MaxRqSge := 2, di_MaxQp := 4\<rparr>\<rparr>"
  define w1 where "w1 = closed_world\<lparr>w_drv := (ref_state0 False)\<lparr>rs_handles := [7]\<rparr>, w_devs := [1 \<mapsto> ed]\<rparr>"
  obtain w2 where w2: "efa_alloc_context (ref_ctx_allocs t) (Some 1) w1 = Some (if t then Some 5 else None, w2)"
    "w_devs w2 1 = Some ed" "t \<longrightarrow> w_ctxs w2 5 \<noteq> None"
    using alloc_context_total [of "ref_ctx_allocs t" 5 w1 1 ed r] r
    by (auto simp: ref_ctx_allocs_def w1_def ed_def)
  let ?d = "(ref_state0 False)\<lparr>rs_handles := [7]\<rparr>"
  have dev: "w_devs closed_world 1 = Some ref_dev" by (simp add: closed_world_def ref_world_def)
  have op: "efa_open_device handle_driver (Some (dev_device ref_dev)) (w_drv closed_world) =
      (0, Some (dev_device ed), ?d)"
    using c0 by (simp add: efa_open_device_def handle_driver_def closed_world_def ref_dev_def ed_def)
  have win: "efa_win_get_device_info handle_driver (dev_device ed) ps (dev_attr ref_dev) ?d =
      (0, dev_attr ed, ?d)" for ps
    by (simp add: efa_win_get_device_info_def handle_driver_def ref_driver_def unless_refused_def
        ref_state0_def ed_def ioctl_sizes)
  have ed: "ref_dev\<lparr>dev_device := dev_device ed, dev_attr := dev_attr ed\<rparr> = ed" by (simp add: ed_def)
  have w1: "closed_world\<lparr>w_drv := ?d, w_devs := (w_devs closed_world)(1 \<mapsto> ed)\<rparr> = w1"
    by (simp add: w1_def closed_world_def ref_world_def)
  show ?thesis
    using w2 by (cases t) (auto simp: efa_device_open_def dev op win ed w1 close_dev_at_eq Let_def
      simp del: One_nat_def)
qed

theorem device_open_close_witness:
  "\<exists>w1 w2 w3. efa_device_open handle_driver (ref_ctx_allocs False) 1 closed_world = Some (None, w1) \<and>
     open_handles (w_drv w1) = {} \<and>
     efa_device_open handle_driver (ref_ctx_allocs True) 1 closed_world = Some (Some 5, w2) \<and>
     efa_device_close handle_driver 5 w2 = Some (0, w3) \<and> open_handles (w_drv w3) = {}"
proof -
  have H: "open_handles (w_drv closed_world) = {}" by (simp add: open_handles_def closed_world_def)
  have fr: "\<forall>p. al_ctx (ref_ctx_allocs t) = Some p \<longrightarrow> w_ctxs closed_world p = None" for t
    by (simp add: closed_world_def)
  obtain w1 where w1: "efa_device_open handle_driver (ref_ctx_allocs False) 1 closed_world = Some (None, w1)"
    using handle_driver_opens [of False] by auto
  obtain w2 where w2: "efa_device_open handle_driver (ref_ctx_allocs True) 1 closed_world = Some (Some 5, w2)"
    using handle_driver_opens [of True] by auto
  have "open_handles (w_drv w1) = {}"
    using device_open_close [OF w1 handle_driver_contract fr] H by simp
  moreover obtain w3 where "efa_device_close handle_driver 5 w2 = Some (0, w3)" "open_handles (w_drv w3) = {}"
    using device_open_close [OF w2 handle_driver_contract fr] H by auto
  ultimately show ?thesis using w1 w2 by blast
qed

end
