(* ===== verification/Efa_Loader_Contract.thy ===== *)
theory Efa_Loader_Contract
  imports Efa_Loader
begin

text \<open>
  The contract of the interface library: which code a verb reaches before the DLL is loaded,
  while it is loaded and after it was freed.
\<close>

section \<open>The verbs\<close>

text \<open>Every forwarding function under the name it has in the interface.\<close>

definition api_functions ::
  "(string \<times> (loader \<Rightarrow> ('a, 'd) dll \<Rightarrow> 'a \<Rightarrow> 'd \<Rightarrow> (api_ret \<times> 'd) option)) list" where
  "api_functions =
     [(''ibv_reg_mr'', api_ibv_reg_mr), (''ibv_reg_mr_iova2'', api_ibv_reg_mr_iova2),
      (''ibv_dereg_mr'', api_ibv_dereg_mr), (''ibv_query_device'', api_ibv_query_device),
      (''ibv_qp_to_qp_ex'', api_ibv_qp_to_qp_ex), (''ibv_query_port'', api_ibv_query_port),
      (''ibv_query_gid'', api_ibv_query_gid), (''ibv_modify_qp'', api_ibv_modify_qp),
      (''ibv_destroy_qp'', api_ibv_destroy_qp), (''ibv_create_qp'', api_ibv_create_qp),
      (''ibv_dealloc_pd'', api_ibv_dealloc_pd), (''ibv_alloc_pd'', api_ibv_alloc_pd),
      (''ibv_fork_init'', api_ibv_fork_init), (''ibv_free_device_list'', api_ibv_free_device_list),
      (''ibv_close_device'', api_ibv_close_device),
      (''ibv_get_device_list'', api_ibv_get_device_list), (''ibv_open_device'', api_ibv_open_device),
      (''ibv_create_cq'', api_ibv_create_cq), (''ibv_create_cq_ex'', api_ibv_create_cq_ex),
      (''ibv_wc_status_str'', api_ibv_wc_status_str), (''ibv_destroy_cq'', api_ibv_destroy_cq),
      (''ibv_destroy_ah'', api_ibv_destroy_ah), (''ibv_create_ah'', api_ibv_create_ah),
      (''efadv_query_ah'', api_efadv_query_ah), (''efadv_create_qp_ex'', api_efadv_create_qp_ex),
      (''efadv_query_device'', api_efadv_query_device)]"

text \<open>Each goes through the member that is resolved from the export of its own name.\<close>

lemma api_members:
  "\<forall>(n, api) \<in> set api_functions. \<exists>m. (m, n) \<in> set efawin_imports \<and>
      (\<forall>L f args d. api L f args d = call_op L f m args d)"
  unfolding api_functions_def efawin_imports_def
  by (simp add: api_ibv_reg_mr_def api_ibv_reg_mr_iova2_def api_ibv_dereg_mr_def
        api_ibv_query_device_def api_ibv_qp_to_qp_ex_def api_ibv_query_port_def
        api_ibv_query_gid_def api_ibv_modify_qp_def api_ibv_destroy_qp_def api_ibv_create_qp_def
        api_ibv_dealloc_pd_def api_ibv_alloc_pd_def api_ibv_fork_init_def
        api_ibv_free_device_list_def api_ibv_close_device_def api_ibv_get_device_list_def
        api_ibv_open_device_def api_ibv_create_cq_def api_ibv_create_cq_ex_def
        api_ibv_wc_status_str_def api_ibv_destroy_cq_def api_ibv_destroy_ah_def
        api_ibv_create_ah_def api_efadv_query_ah_def api_efadv_create_qp_ex_def
        api_efadv_query_device_def ex_disj_distrib conj_disj_distribR)

lemma api_member:
  assumes "(n, api) \<in> set api_functions"
  shows "\<exists>m. (m, n) \<in> set efawin_imports \<and> (\<forall>L f args d. api L f args d = call_op L f m args d)"
  using bspec [OF api_members assms] by simp

section \<open>The three phases\<close>

lemma imports_distinct: "distinct (map fst efawin_imports)"
  by code_simp

lemma imports_builtin:
  assumes "(m, n) \<in> set efawin_imports"
  shows "\<exists>r \<in> {R_int (- ENODEV), R_ptr None, R_void}. efawin_ops loader_init m = Some (Builtin r)"
proof -
  have "list_all (\<lambda>(m, n). case map_of efawin_ops_init m of
      Some (Builtin r) \<Rightarrow> r \<in> {R_int (- ENODEV), R_ptr None, R_void} | _ \<Rightarrow> False) efawin_imports"
    by code_simp
  then show ?thesis using assms
    by (auto simp: list_all_iff loader_init_def split: option.splits fn_ptr.splits)
qed

lemma resolve_all_map:
  "resolve_all get is = Some fs \<Longrightarrow>
     map fst fs = map fst is \<and> (\<forall>(m, n) \<in> set is. \<exists>a. get n = Some a \<and> (m, a) \<in> set fs)"
  by (induction get "is" arbitrary: fs rule: resolve_all.induct) (fastforce simp: bind_eq_Some_conv)+

lemma install_other:
  "m \<notin> fst ` set fs \<Longrightarrow> fold (\<lambda>(m, a) ops. ops(m \<mapsto> Dll_fn h a)) fs ops m = ops m"
  by (induction fs arbitrary: ops) auto

lemma install_fold:
  assumes "distinct (map fst fs)" and "(m, a) \<in> set fs"
  shows "fold (\<lambda>(m, a) ops. ops(m \<mapsto> Dll_fn h a)) fs ops m = Some (Dll_fn h a)"
  using assms
proof (induction fs arbitrary: ops)
  case (Cons x fs)
  show ?case
  proof (cases "x = (m, a)")
    case True
    then have "m \<notin> fst ` set fs" using Cons.prems(1) by simp
    then show ?thesis using install_other [of m fs h "ops(m \<mapsto> Dll_fn h a)"] True
      by (simp del: fun_upd_apply) simp
  next
    case False
    then show ?thesis using Cons by (simp del: fun_upd_apply split: prod.split)
  qed
qed simp

definition lib_loaded :: "'o os \<Rightarrow> u64 \<Rightarrow> loader \<Rightarrow> bool" where
  "lib_loaded os h L \<longleftrightarrow> hEfawinLib L = Some h \<and>
     (\<forall>(m, n) \<in> set efawin_imports. \<exists>a. GetProcAddress os h n = Some a \<and>
        efawin_ops L m = Some (Dll_fn h a))"

definition lib_freed :: "loader \<Rightarrow> bool" where
  "lib_freed L \<longleftrightarrow> hEfawinLib L = None \<and>
     (\<forall>(m, n) \<in> set efawin_imports. \<exists>h a. efawin_ops L m = Some (Dll_fn h a))"

text \<open>A load changes the table in full or not at all.\<close>

lemma load_cases:
  assumes "efa_load_efawin_lib os L s = (r, L', s')"
  obtains (kept) "L' = L"
  | (loaded) h where "hEfawinLib L = None" "r = 0" "lib_loaded os h L'"
proof (cases "hEfawinLib L' = None \<or> hEfawinLib L \<noteq> None")
  case True
  then have "L' = L" using assms
    by (auto simp: efa_load_efawin_lib_def liberror_def install_ops_def
        split: prod.splits option.splits if_splits)
  then show ?thesis by (rule kept)
next
  case False
  then obtain h fs where h: "L' = install_ops h fs L" "r = 0"
    "resolve_all (GetProcAddress os h) efawin_imports = Some fs"
    using assms by (auto simp: efa_load_efawin_lib_def liberror_def
        split: prod.splits option.splits if_splits)
  note fs = resolve_all_map [OF h(3)]
  have "efawin_ops L' m = Some (Dll_fn h a)" if "(m, a) \<in> set fs" for m a
    using install_fold [OF _ that] fs imports_distinct by (simp add: h(1) install_ops_def)
  then have "lib_loaded os h L'"
    using fs by (fastforce simp: lib_loaded_def h(1) install_ops_def)
  then show ?thesis using False h(2) by (intro loaded) simp_all
qed

text \<open>Loads and frees in any order; the flag says whether a load has succeeded so far.\<close>

inductive lib_run :: "'o os \<Rightarrow> bool \<Rightarrow> loader \<Rightarrow> 'o \<Rightarrow> bool" for os where
  start: "lib_run os False loader_init s"
| load: "lib_run os ever L s \<Longrightarrow> efa_load_efawin_lib os L s = (r, L', s') \<Longrightarrow>
    lib_run os (ever \<or> hEfawinLib L' \<noteq> None) L' s'"
| free: "lib_run os ever L s \<Longrightarrow> efa_free_efawin_lib os L s = (L', s') \<Longrightarrow> lib_run os ever L' s'"

lemma lib_run_phase:
  assumes "lib_run os ever L s"
  shows "if ever then lib_freed L \<or> (\<exists>h. lib_loaded os h L) else L = loader_init"
  using assms
proof (induction rule: lib_run.induct)
  case (load ever L s r L' s')
  from load.hyps(2) show ?case
  proof (cases rule: load_cases)
    case kept
    then show ?thesis using load.IH by (auto simp: loader_init_def lib_loaded_def split: if_splits)
  next
    case (loaded h)
    then show ?thesis by (auto simp: lib_loaded_def)
  qed
next
  case (free ever L s L' s')
  show ?case
  proof (cases "hEfawinLib L")
    case None
    then have "L' = L" using free.hyps(2) by (simp add: efa_free_efawin_lib_def)
    then show ?thesis using free.IH by simp
  next
    case (Some h)
    then have L': "L' = L\<lparr>hEfawinLib := None\<rparr>" using free.hyps(2) by (simp add: efa_free_efawin_lib_def)
    have "ever" using free.IH Some by (auto simp: loader_init_def split: if_splits)
    moreover have "lib_loaded os h L"
      using free.IH Some \<open>ever\<close> by (auto simp: lib_loaded_def lib_freed_def)
    ultimately show ?thesis unfolding L' by (fastforce simp: lib_freed_def lib_loaded_def)
  qed
qed simp

text \<open>
  C37: what a verb of the interface library reaches. After any sequence of loads and frees, whatever
  failed in between: while the DLL is loaded, every verb calls the export of its own name with
  its own arguments; as long as no load has succeeded, every verb fails with the fixed answer of
  its dummy and changes nothing; once the DLL has been freed, no verb may be called any more,
  since the table still points into the unmapped library.
\<close>

theorem verbs_reach_their_export:
  assumes "lib_run os ever L s" and "(n, api) \<in> set api_functions"
  shows "case hEfawinLib L of
      Some h \<Rightarrow> (\<exists>a. GetProcAddress os h n = Some a \<and> (\<forall>f args d. api L f args d = Some (f a args d)))
    | None \<Rightarrow> if ever then (\<forall>f args d. api L f args d = None)
        else (\<exists>r \<in> {R_int (- ENODEV), R_ptr None, R_void}. \<forall>f args d. api L f args d = Some (r, d))"
proof -
  obtain m where m: "(m, n) \<in> set efawin_imports" "\<And>f args d. api L f args d = call_op L f m args d"
    using api_member [OF assms(2)] by blast
  note P = lib_run_phase [OF assms(1)]
  show ?thesis
  proof (cases "hEfawinLib L")
    case (Some h)
    then have "lib_loaded os h L" using P by (auto simp: loader_init_def lib_freed_def lib_loaded_def split: if_splits)
    then show ?thesis using m Some by (fastforce simp: lib_loaded_def call_op_def)
  next
    case None
    show ?thesis
    proof (cases ever)
      case True
      then have "lib_freed L" using P None by (auto simp: lib_loaded_def)
      then show ?thesis using m None True by (fastforce simp: lib_freed_def call_op_def)
    next
      case False
      then have "L = loader_init" using P by simp
      then show ?thesis using m None False imports_builtin [OF m(1)] by (auto simp: call_op_def)
    qed
  qed
qed

text \<open>An operating system that has the DLL, with every export at an address of its own.\<close>

definition ref_os :: "unit os" where
  "ref_os = \<lparr>LoadLibraryA = (\<lambda>_ s. ((Some 1, 0), s)),
     GetProcAddress = (\<lambda>h n. Some (0x1000 * h + of_nat (length n))),
     FreeLibrary = (\<lambda>_ s. s), call_check_version = (\<lambda>_ _. True)\<rparr>"

theorem verbs_reach_their_export_witness:
  "\<exists>L. lib_run ref_os True L () \<and> (\<exists>a. GetProcAddress ref_os 1 ''ibv_create_qp'' = Some a \<and>
     (\<forall>f args (d :: nat). api_ibv_create_qp L f (args :: nat) d = Some (f a args d)))"
proof -
  obtain r L where ld: "efa_load_efawin_lib ref_os loader_init () = (r, L, ())" by (metis surj_pair unit.exhaust)
  have h: "hEfawinLib L = Some 1"
    using ld by (simp add: efa_load_efawin_lib_def ref_os_def loader_init_def efawin_imports_def install_ops_def)
      auto
  have run: "lib_run ref_os True L ()" using lib_run.load [OF lib_run.start ld] h by simp
  have "(''ibv_create_qp'', api_ibv_create_qp) \<in> set api_functions" by (simp add: api_functions_def)
  from verbs_reach_their_export [OF run this] show ?thesis using run h by auto
qed

end
