(* ===== verification/Efa_Verbs_Inline.thy ===== *)
theory Efa_Verbs_Inline
  imports Efa_Exports Efa_Loader Efa_Rq
begin

text \<open>
  The functions \<open>interface/infiniband/verbs.h\<close> defines inline, and which are therefore compiled
  into the application: they look up the operation in the context the library created. A verb
  whose operation is missing is refused with \<open>EOPNOTSUPP\<close>. A call that goes through a null
  pointer, or through a pointer to a function of another type, is undefined.

  Objects of a type the library does not create (flows, counters, shared receive queues, device
  memory, thread domains, work queues) are represented by their member \<open>context\<close>.
\<close>

section \<open>The extended context\<close>

abbreviation ENOSYS :: int where "ENOSYS \<equiv> 40"

text \<open>\<open>__VERBS_ABI_IS_EXTENDED\<close>.\<close>

definition VERBS_ABI_IS_EXTENDED :: u64 where "VERBS_ABI_IS_EXTENDED = - 1"

text \<open>
  The members of \<open>struct verbs_context\<close> before \<open>sz\<close>: pointers and one 64-bit placeholder, of
  eight bytes each. A \<open>CRITICAL_SECTION\<close>, the mutex of \<open>struct ibv_context\<close>, has five words.
\<close>

definition vctx_members :: "string list" where
  "vctx_members =
     [''query_port'', ''advise_mr'', ''alloc_null_mr'', ''read_counters'',
      ''attach_counters_point_flow'', ''create_counters'', ''destroy_counters'', ''reg_dm_mr'',
      ''alloc_dm'', ''free_dm'', ''modify_flow_action_esp'', ''destroy_flow_action'',
      ''create_flow_action_esp'', ''modify_qp_rate_limit'', ''alloc_parent_domain'',
      ''dealloc_td'', ''alloc_td'', ''modify_cq'', ''post_srq_ops'', ''destroy_rwq_ind_table'',
      ''create_rwq_ind_table'', ''destroy_wq'', ''modify_wq'', ''create_wq'', ''query_rt_values'',
      ''create_cq_ex'', ''priv'', ''query_device_ex'', ''ibv_destroy_flow'', ''ABI_placeholder2'',
      ''ibv_create_flow'', ''ABI_placeholder1'', ''open_qp'', ''create_qp_ex'', ''get_srq_num'',
      ''create_srq_ex'', ''open_xrcd'', ''close_xrcd'', ''_ABI_placeholder3'']"

definition sizeof_ibv_context :: nat where
  "sizeof_ibv_context = c_sizeof (replicate 33 8 @ [4, 4, 4] @ replicate 5 8 @ [8])"

definition sizeof_verbs_context :: nat where
  "sizeof_verbs_context = 8 * length vctx_members + 8 + sizeof_ibv_context"

definition vctx_offset :: "string \<Rightarrow> nat" where
  "vctx_offset op = 8 * length (takeWhile (\<lambda>m. m \<noteq> op) vctx_members)"

text \<open>A pointer to the context and one to the structure around it are the same address here.\<close>

definition verbs_get_ctx :: "'d world \<Rightarrow> ptr option \<Rightarrow> ptr option option" where
  "verbs_get_ctx w c =
     do {
       p \<leftarrow> c;
       ctx \<leftarrow> w_ctxs w p;
       Some (if ctx_abi_compat ctx \<noteq> VERBS_ABI_IS_EXTENDED then None else Some p)
     }"

text \<open>The structure, if the operation is there, and the operation.\<close>

definition verbs_get_ctx_op ::
  "'d world \<Rightarrow> ptr option \<Rightarrow> string \<Rightarrow> (ptr \<times> efa_op) option option" where
  "verbs_get_ctx_op w c op =
     do {
       v \<leftarrow> verbs_get_ctx w c;
       case v of
         None \<Rightarrow> Some None
       | Some p \<Rightarrow>
           do {
             ctx \<leftarrow> w_ctxs w p;
             Some (if vctx_sz ctx < of_nat (sizeof_verbs_context - vctx_offset op) then None
                   else map_option (\<lambda>f. (p, f)) (ctx_ops ctx (Vctx op)))
           }
     }"

text \<open>What a function of the provider does when it is called with the arguments of the verb.\<close>

type_synonym 'd vcall = "efa_op \<Rightarrow> 'd world \<Rightarrow> (api_ret \<times> 'd world) option"

text \<open>The two shapes of a verb: one returns a pointer and sets \<open>errno\<close>, the other returns the error.\<close>

definition ptr_verb ::
  "string \<Rightarrow> 'd vcall \<Rightarrow> ptr option \<Rightarrow> 'd world \<Rightarrow> (api_ret \<times> 'd world) option" where
  "ptr_verb op call c w =
     do {
       vctx \<leftarrow> verbs_get_ctx_op w c op;
       case vctx of
         None \<Rightarrow> Some (R_ptr None, w\<lparr>w_errno := EOPNOTSUPP\<rparr>)
       | Some (_, f) \<Rightarrow> call f w
     }"

definition int_verb ::
  "string \<Rightarrow> 'd vcall \<Rightarrow> ptr option \<Rightarrow> 'd world \<Rightarrow> (api_ret \<times> 'd world) option" where
  "int_verb op call c w =
     do {
       vctx \<leftarrow> verbs_get_ctx_op w c op;
       case vctx of
         None \<Rightarrow> Some (R_int EOPNOTSUPP, w)
       | Some (_, f) \<Rightarrow> call f w
     }"

text \<open>A call through a member of \<open>context->ops\<close>.\<close>

definition ctx_verb ::
  "string \<Rightarrow> 'd vcall \<Rightarrow> ptr option \<Rightarrow> 'd world \<Rightarrow> (api_ret \<times> 'd world) option" where
  "ctx_verb op call c w =
     do { ctx \<leftarrow> deref (w_ctxs w) c; f \<leftarrow> ctx_ops ctx (Ctx op); call f w }"

definition pd_ctx :: "'d world \<Rightarrow> ptr \<Rightarrow> ptr option option" where
  "pd_ctx w pd = map_option pd_context (w_pds w pd)"
definition qp_ctx :: "'d world \<Rightarrow> ptr \<Rightarrow> ptr option option" where
  "qp_ctx w qp = map_option (\<lambda>q. qp_context_ptr (verbs_qp q)) (w_qps w qp)"
definition cq_ctx :: "'d world \<Rightarrow> ptr \<Rightarrow> ptr option option" where
  "cq_ctx w cq = map_option (\<lambda>q. cq_context_ptr (verbs_cq q)) (w_cqs w cq)"

section \<open>Verbs on a context\<close>

definition ibv_create_flow_action_esp ::
  "'d vcall \<Rightarrow> ptr option \<Rightarrow> 'd world \<Rightarrow> (api_ret \<times> 'd world) option" where
  "ibv_create_flow_action_esp call ctx w = ptr_verb ''create_flow_action_esp'' call ctx w"

definition ibv_open_xrcd :: "'d vcall \<Rightarrow> ptr option \<Rightarrow> 'd world \<Rightarrow> (api_ret \<times> 'd world) option" where
  "ibv_open_xrcd call context w = ptr_verb ''open_xrcd'' call context w"

definition ibv_alloc_dm :: "'d vcall \<Rightarrow> ptr option \<Rightarrow> 'd world \<Rightarrow> (api_ret \<times> 'd world) option" where
  "ibv_alloc_dm call context w = ptr_verb ''alloc_dm'' call context w"

definition ibv_alloc_td :: "'d vcall \<Rightarrow> ptr option \<Rightarrow> 'd world \<Rightarrow> (api_ret \<times> 'd world) option" where
  "ibv_alloc_td call context w = ptr_verb ''alloc_td'' call context w"

definition ibv_alloc_parent_domain ::
  "'d vcall \<Rightarrow> ptr option \<Rightarrow> 'd world \<Rightarrow> (api_ret \<times> 'd world) option" where
  "ibv_alloc_parent_domain call context w = ptr_verb ''alloc_parent_domain'' call context w"

definition ibv_open_qp :: "'d vcall \<Rightarrow> ptr option \<Rightarrow> 'd world \<Rightarrow> (api_ret \<times> 'd world) option" where
  "ibv_open_qp call context w = ptr_verb ''open_qp'' call context w"

definition ibv_create_rwq_ind_table ::
  "'d vcall \<Rightarrow> ptr option \<Rightarrow> 'd world \<Rightarrow> (api_ret \<times> 'd world) option" where
  "ibv_create_rwq_ind_table call context w = ptr_verb ''create_rwq_ind_table'' call context w"

definition ibv_create_counters ::
  "'d vcall \<Rightarrow> ptr option \<Rightarrow> 'd world \<Rightarrow> (api_ret \<times> 'd world) option" where
  "ibv_create_counters call context w = ptr_verb ''create_counters'' call context w"

definition ibv_query_rt_values_ex ::
  "'d vcall \<Rightarrow> ptr option \<Rightarrow> 'd world \<Rightarrow> (api_ret \<times> 'd world) option" where
  "ibv_query_rt_values_ex call context w = int_verb ''query_rt_values'' call context w"

text \<open>
  The mask of a shared receive queue decides which function creates it; \<open>ibv_create_srq\<close> is
  declared, but not a function of this library, and an argument here.
\<close>

definition IBV_SRQ_INIT_ATTR_TYPE :: u32 where "IBV_SRQ_INIT_ATTR_TYPE = push_bit 0 1"
definition IBV_SRQ_INIT_ATTR_PD :: u32 where "IBV_SRQ_INIT_ATTR_PD = push_bit 1 1"

datatype ibv_srq_type = IBV_SRQT_BASIC | IBV_SRQT_XRC | IBV_SRQT_TM

definition ibv_create_srq_ex ::
  "('d world \<Rightarrow> (api_ret \<times> 'd world) option) \<Rightarrow> 'd vcall \<Rightarrow> ptr option \<Rightarrow> u32 \<Rightarrow> ibv_srq_type
     \<Rightarrow> 'd world \<Rightarrow> (api_ret \<times> 'd world) option" where
  "ibv_create_srq_ex ibv_create_srq call context msk srq_type w =
     (if msk AND NOT (IBV_SRQ_INIT_ATTR_PD OR IBV_SRQ_INIT_ATTR_TYPE) = 0 \<and>
         msk AND IBV_SRQ_INIT_ATTR_PD \<noteq> 0 \<and>
         (msk AND IBV_SRQ_INIT_ATTR_TYPE = 0 \<or> srq_type = IBV_SRQT_BASIC)
      then ibv_create_srq w
      else ptr_verb ''create_srq_ex'' call context w)"

text \<open>A work queue of the verbs interface, and the members \<open>ibv_create_wq\<close> writes.\<close>

record ibv_wq =
  wqo_wq_context :: u64
  wqo_events_completed :: u32
  wqo_mutex :: lock
  wqo_cond :: u64

definition ibv_create_wq ::
  "(efa_op \<Rightarrow> 'd world \<times> (ptr \<rightharpoonup> ibv_wq) \<Rightarrow> (ptr option \<times> 'd world \<times> (ptr \<rightharpoonup> ibv_wq)) option)
     \<Rightarrow> ptr option \<Rightarrow> u64 \<Rightarrow> 'd world \<times> (ptr \<rightharpoonup> ibv_wq)
     \<Rightarrow> (ptr option \<times> 'd world \<times> (ptr \<rightharpoonup> ibv_wq)) option" where
  "ibv_create_wq call context wq_context s =
     do {
       vctx \<leftarrow> verbs_get_ctx_op (fst s) context ''create_wq'';
       case vctx of
         None \<Rightarrow> Some (None, (fst s)\<lparr>w_errno := EOPNOTSUPP\<rparr>, snd s)
       | Some (_, f) \<Rightarrow>
           do {
             (wq, w, h) \<leftarrow> call f s;
             case wq of
               None \<Rightarrow> Some (None, w, h)
             | Some p \<Rightarrow>
                 do {
                   q \<leftarrow> h p;
                   Some (Some p, w, h(p \<mapsto> q\<lparr>wqo_wq_context := wq_context,
                     wqo_events_completed := 0, wqo_mutex := 0, wqo_cond := 0\<rparr>))
                 }
           }
     }"

section \<open>Verbs on the objects of the library\<close>

definition ibv_create_flow :: "'d vcall \<Rightarrow> ptr \<Rightarrow> 'd world \<Rightarrow> (api_ret \<times> 'd world) option" where
  "ibv_create_flow call qp w = do { c \<leftarrow> qp_ctx w qp; ptr_verb ''ibv_create_flow'' call c w }"

definition ibv_modify_qp_rate_limit ::
  "'d vcall \<Rightarrow> ptr \<Rightarrow> 'd world \<Rightarrow> (api_ret \<times> 'd world) option" where
  "ibv_modify_qp_rate_limit call qp w =
     do { c \<leftarrow> qp_ctx w qp; int_verb ''modify_qp_rate_limit'' call c w }"

definition ibv_modify_cq :: "'d vcall \<Rightarrow> ptr \<Rightarrow> 'd world \<Rightarrow> (api_ret \<times> 'd world) option" where
  "ibv_modify_cq call cq w = do { c \<leftarrow> cq_ctx w cq; int_verb ''modify_cq'' call c w }"

definition ibv_req_notify_cq :: "'d vcall \<Rightarrow> ptr \<Rightarrow> 'd world \<Rightarrow> (api_ret \<times> 'd world) option" where
  "ibv_req_notify_cq call cq w = do { c \<leftarrow> cq_ctx w cq; ctx_verb ''req_notify_cq'' call c w }"

definition ibv_alloc_null_mr :: "'d vcall \<Rightarrow> ptr \<Rightarrow> 'd world \<Rightarrow> (api_ret \<times> 'd world) option" where
  "ibv_alloc_null_mr call pd w = do { c \<leftarrow> pd_ctx w pd; ptr_verb ''alloc_null_mr'' call c w }"

definition ibv_reg_dm_mr :: "'d vcall \<Rightarrow> ptr \<Rightarrow> 'd world \<Rightarrow> (api_ret \<times> 'd world) option" where
  "ibv_reg_dm_mr call pd w = do { c \<leftarrow> pd_ctx w pd; ptr_verb ''reg_dm_mr'' call c w }"

definition ibv_advise_mr :: "'d vcall \<Rightarrow> ptr \<Rightarrow> 'd world \<Rightarrow> (api_ret \<times> 'd world) option" where
  "ibv_advise_mr call pd w = do { c \<leftarrow> pd_ctx w pd; int_verb ''advise_mr'' call c w }"

definition ibv_alloc_mw :: "'d vcall \<Rightarrow> ptr \<Rightarrow> 'd world \<Rightarrow> (api_ret \<times> 'd world) option" where
  "ibv_alloc_mw call pd w =
     do {
       c \<leftarrow> pd_ctx w pd;
       ctx \<leftarrow> deref (w_ctxs w) c;
       case ctx_ops ctx (Ctx ''alloc_mw'') of
         None \<Rightarrow> Some (R_ptr None, w\<lparr>w_errno := EOPNOTSUPP\<rparr>)
       | Some f \<Rightarrow> call f w
     }"

section \<open>Verbs on objects the library does not create\<close>

definition ibv_destroy_flow :: "'d vcall \<Rightarrow> ptr option \<Rightarrow> 'd world \<Rightarrow> (api_ret \<times> 'd world) option" where
  "ibv_destroy_flow call flow_context w = int_verb ''ibv_destroy_flow'' call flow_context w"

definition ibv_modify_flow_action_esp ::
  "'d vcall \<Rightarrow> ptr option \<Rightarrow> 'd world \<Rightarrow> (api_ret \<times> 'd world) option" where
  "ibv_modify_flow_action_esp call action_context w =
     int_verb ''modify_flow_action_esp'' call action_context w"

definition ibv_destroy_flow_action ::
  "'d vcall \<Rightarrow> ptr option \<Rightarrow> 'd world \<Rightarrow> (api_ret \<times> 'd world) option" where
  "ibv_destroy_flow_action call action_context w =
     int_verb ''destroy_flow_action'' call action_context w"

text \<open>No test for the operation: the result of \<open>verbs_get_ctx\<close> is dereferenced as it is.\<close>

definition ibv_close_xrcd :: "'d vcall \<Rightarrow> ptr option \<Rightarrow> 'd world \<Rightarrow> (api_ret \<times> 'd world) option" where
  "ibv_close_xrcd call xrcd_context w =
     do {
       vctx \<leftarrow> verbs_get_ctx w xrcd_context;
       p \<leftarrow> vctx;
       ctx \<leftarrow> w_ctxs w p;
       f \<leftarrow> ctx_ops ctx (Vctx ''close_xrcd'');
       call f w
     }"

definition ibv_dealloc_mw :: "'d vcall \<Rightarrow> ptr option \<Rightarrow> 'd world \<Rightarrow> (api_ret \<times> 'd world) option" where
  "ibv_dealloc_mw call mw_context w = ctx_verb ''dealloc_mw'' call mw_context w"

datatype ibv_mw_type = IBV_MW_TYPE_1 | IBV_MW_TYPE_2

definition ibv_bind_mw ::
  "'d vcall \<Rightarrow> ibv_mw_type \<Rightarrow> ptr option \<Rightarrow> 'd world \<Rightarrow> (api_ret \<times> 'd world) option" where
  "ibv_bind_mw call mw_type mw_context w =
     (if mw_type \<noteq> IBV_MW_TYPE_1 then Some (R_int EINVAL, w)
      else ctx_verb ''bind_mw'' call mw_context w)"

definition ibv_free_dm :: "'d vcall \<Rightarrow> ptr option \<Rightarrow> 'd world \<Rightarrow> (api_ret \<times> 'd world) option" where
  "ibv_free_dm call dm_context w = int_verb ''free_dm'' call dm_context w"

definition ibv_get_srq_num :: "'d vcall \<Rightarrow> ptr option \<Rightarrow> 'd world \<Rightarrow> (api_ret \<times> 'd world) option" where
  "ibv_get_srq_num call srq_context w = int_verb ''get_srq_num'' call srq_context w"

definition ibv_post_srq_recv ::
  "'d vcall \<Rightarrow> ptr option \<Rightarrow> 'd world \<Rightarrow> (api_ret \<times> 'd world) option" where
  "ibv_post_srq_recv call srq_context w = ctx_verb ''post_srq_recv'' call srq_context w"

text \<open>The second component is what is stored through \<open>bad_op\<close>, if this function stores it.\<close>

definition ibv_post_srq_ops ::
  "(efa_op \<Rightarrow> 'd world \<Rightarrow> ((api_ret \<times> 'w option) \<times> 'd world) option) \<Rightarrow> ptr option \<Rightarrow> 'w
     \<Rightarrow> 'd world \<Rightarrow> ((api_ret \<times> 'w option) \<times> 'd world) option" where
  "ibv_post_srq_ops call srq_context op w =
     do {
       vctx \<leftarrow> verbs_get_ctx_op w srq_context ''post_srq_ops'';
       case vctx of
         None \<Rightarrow> Some ((R_int EOPNOTSUPP, Some op), w)
       | Some (_, f) \<Rightarrow> call f w
     }"

definition ibv_dealloc_td :: "'d vcall \<Rightarrow> ptr option \<Rightarrow> 'd world \<Rightarrow> (api_ret \<times> 'd world) option" where
  "ibv_dealloc_td call td_context w = int_verb ''dealloc_td'' call td_context w"

definition ibv_modify_wq :: "'d vcall \<Rightarrow> ptr option \<Rightarrow> 'd world \<Rightarrow> (api_ret \<times> 'd world) option" where
  "ibv_modify_wq call wq_context w = int_verb ''modify_wq'' call wq_context w"

definition ibv_destroy_wq :: "'d vcall \<Rightarrow> ptr option \<Rightarrow> 'd world \<Rightarrow> (api_ret \<times> 'd world) option" where
  "ibv_destroy_wq call wq_context w = int_verb ''destroy_wq'' call wq_context w"

definition ibv_destroy_rwq_ind_table ::
  "'d vcall \<Rightarrow> ptr option \<Rightarrow> 'd world \<Rightarrow> (api_ret \<times> 'd world) option" where
  "ibv_destroy_rwq_ind_table call table_context w =
     int_verb ''destroy_rwq_ind_table'' call table_context w"

definition ibv_destroy_counters ::
  "'d vcall \<Rightarrow> ptr option \<Rightarrow> 'd world \<Rightarrow> (api_ret \<times> 'd world) option" where
  "ibv_destroy_counters call counters_context w =
     int_verb ''destroy_counters'' call counters_context w"

definition ibv_attach_counters_point_flow ::
  "'d vcall \<Rightarrow> ptr option \<Rightarrow> 'd world \<Rightarrow> (api_ret \<times> 'd world) option" where
  "ibv_attach_counters_point_flow call counters_context w =
     int_verb ''attach_counters_point_flow'' call counters_context w"

definition ibv_read_counters ::
  "'d vcall \<Rightarrow> ptr option \<Rightarrow> 'd world \<Rightarrow> (api_ret \<times> 'd world) option" where
  "ibv_read_counters call counters_context w = int_verb ''read_counters'' call counters_context w"

section \<open>Verbs of the provider\<close>

definition IBV_ACCESS_OPTIONAL_RANGE :: u32 where
  "IBV_ACCESS_OPTIONAL_RANGE = (push_bit 1 (push_bit 29 1) - 1) AND NOT (push_bit 20 1 - 1)"

text \<open>
  The macro \<open>ibv_reg_mr\<close> and the function behind it. \<open>__builtin_constant_p\<close> is the identity in
  \<open>interface/efacompat.h\<close>, so the last argument says whether the access flags have no optional bit.
\<close>

definition inline_ibv_reg_mr ::
  "'d driver \<Rightarrow> ptr option \<Rightarrow> ptr \<Rightarrow> u64 \<Rightarrow> u64 \<Rightarrow> u32 \<Rightarrow> bool \<Rightarrow> 'd world
     \<Rightarrow> (ptr option \<times> 'd world) option" where
  "inline_ibv_reg_mr dr m pd addr len access is_access_const w =
     (if is_access_const \<and> access AND IBV_ACCESS_OPTIONAL_RANGE = 0
      then ibv_reg_mr dr m pd addr len access w
      else ibv_reg_mr_iova2 dr m pd addr len addr access w)"

definition ibv_reg_mr_macro ::
  "'d driver \<Rightarrow> ptr option \<Rightarrow> ptr \<Rightarrow> u64 \<Rightarrow> u64 \<Rightarrow> u32 \<Rightarrow> 'd world \<Rightarrow> (ptr option \<times> 'd world) option" where
  "ibv_reg_mr_macro dr m pd addr len access w =
     inline_ibv_reg_mr dr m pd addr len access (access AND IBV_ACCESS_OPTIONAL_RANGE = 0) w"

definition zero_port_attr :: ibv_port_attr where
  "zero_port_attr = \<lparr>pa_state = IBV_PORT_NOP, pa_max_mtu = 0, pa_active_mtu = 0,
     pa_gid_tbl_len = 0, pa_port_cap_flags = 0, pa_max_msg_sz = 0, pa_bad_pkey_cntr = 0,
     pa_qkey_viol_cntr = 0, pa_pkey_tbl_len = 0, pa_lid = 0, pa_sm_lid = 0, pa_lmc = 0,
     pa_max_vl_num = 0, pa_sm_sl = 0, pa_subnet_timeout = 0, pa_init_type_reply = 0,
     pa_active_width = 0, pa_active_speed = 0, pa_phys_state = 0, pa_link_layer = 0,
     pa_flags = 0, pa_port_cap_flags2 = 0\<rparr>"

definition inline_ibv_query_port ::
  "ptr option \<Rightarrow> ibv_port_attr \<Rightarrow> 'd world \<Rightarrow> (int \<times> ibv_port_attr) option" where
  "inline_ibv_query_port context port_attr w =
     do {
       vctx \<leftarrow> verbs_get_ctx_op w context ''query_port'';
       case vctx of
         None \<Rightarrow> ibv_query_port context zero_port_attr w
       | Some (_, Op_query_port) \<Rightarrow> efa_query_port context port_attr w
       | Some _ \<Rightarrow> None
     }"

text \<open>The base of the extended attributes is what \<open>ibv_create_qp\<close> reads and writes.\<close>

definition ibv_create_qp_ex ::
  "'d driver \<Rightarrow> qp_allocs \<Rightarrow> ptr option \<Rightarrow> ibv_qp_init_attr_ex \<Rightarrow> 'd world
     \<Rightarrow> (ptr option \<times> ibv_qp_init_attr_ex \<times> 'd world) option" where
  "ibv_create_qp_ex dr al context attr w =
     (if iax_comp_mask attr = IBV_QP_INIT_ATTR_PD
      then do {
        pd \<leftarrow> iax_pd attr;
        (qp, base, w) \<leftarrow> ibv_create_qp dr al pd (iax_base attr) w;
        Some (qp, attr\<lparr>iax_base := base\<rparr>, w)
      }
      else do {
        vctx \<leftarrow> verbs_get_ctx_op w context ''create_qp_ex'';
        case vctx of
          None \<Rightarrow> Some (None, attr, w\<lparr>w_errno := EOPNOTSUPP\<rparr>)
        | Some (_, Op_create_qp_ex) \<Rightarrow> efa_create_qp_ex dr al context attr w
        | Some _ \<Rightarrow> None
      })"

text \<open>
  \<open>input\<close> is the member \<open>comp_mask\<close> of the structure, if there is one. The result is the
  member \<open>orig_attr\<close>; the others are cleared on the legacy path.
\<close>

definition query_device_legacy ::
  "ptr option \<Rightarrow> 'd world \<Rightarrow> (int \<times> ibv_device_attr \<times> 'd world) option" where
  "query_device_legacy context w = do { c \<leftarrow> context; ibv_query_device c w }"

definition ibv_query_device_ex ::
  "ptr option \<Rightarrow> u32 option \<Rightarrow> ibv_device_attr \<Rightarrow> 'd world
     \<Rightarrow> (int \<times> ibv_device_attr \<times> 'd world) option" where
  "ibv_query_device_ex context input attr w =
     (if input \<noteq> None \<and> input \<noteq> Some 0 then Some (EINVAL, attr, w)
      else do {
        vctx \<leftarrow> verbs_get_ctx_op w context ''query_device_ex'';
        case vctx of
          None \<Rightarrow> query_device_legacy context w
        | Some (_, Op_query_device_ex) \<Rightarrow>
            do {
              (ret, a) \<leftarrow> efa_query_device_ex context attr w;
              if ret = EOPNOTSUPP \<or> ret = ENOSYS then query_device_legacy context w
              else Some (ret, a, w)
            }
        | Some _ \<Rightarrow> None
      })"

definition ibv_poll_cq ::
  "ptr \<Rightarrow> i32 \<Rightarrow> ibv_wc list \<Rightarrow> 'd world \<Rightarrow> (int \<times> ibv_wc list \<times> 'd world) option" where
  "ibv_poll_cq cq num_entries wc w =
     do {
       c \<leftarrow> w_cqs w cq;
       ctx \<leftarrow> deref (w_ctxs w) (cq_context_ptr (verbs_cq c));
       f \<leftarrow> ctx_ops ctx (Ctx ''poll_cq'');
       _ \<leftarrow> c_assert (f = Op_poll_cq);
       (r, c, qps, wc) \<leftarrow> efa_poll_cq ctx c (w_qps w) num_entries wc;
       Some (r, wc, w\<lparr>w_cqs := (w_cqs w)(cq \<mapsto> c), w_qps := qps\<rparr>)
     }"

definition ibv_post_send ::
  "umem \<Rightarrow> ptr \<Rightarrow> ibv_send_wr list \<Rightarrow> trace \<Rightarrow> 'd world
     \<Rightarrow> (int \<times> ibv_send_wr list option \<times> trace \<times> 'd world) option" where
  "ibv_post_send mem qp wr tr w =
     do {
       q \<leftarrow> w_qps w qp;
       ctx \<leftarrow> deref (w_ctxs w) (qp_context_ptr (verbs_qp q));
       f \<leftarrow> ctx_ops ctx (Ctx ''post_send'');
       _ \<leftarrow> c_assert (f = Op_post_send);
       (r, bad, q, tr) \<leftarrow> efa_post_send mem (w_ahs w) q wr tr;
       Some (r, bad, tr, w\<lparr>w_qps := (w_qps w)(qp \<mapsto> q)\<rparr>)
     }"

definition ibv_post_recv ::
  "ptr \<Rightarrow> ibv_recv_wr list \<Rightarrow> trace \<Rightarrow> 'd world
     \<Rightarrow> (int \<times> ibv_recv_wr list option \<times> trace \<times> 'd world) option" where
  "ibv_post_recv qp wr tr w =
     do {
       q \<leftarrow> w_qps w qp;
       ctx \<leftarrow> deref (w_ctxs w) (qp_context_ptr (verbs_qp q));
       f \<leftarrow> ctx_ops ctx (Ctx ''post_recv'');
       _ \<leftarrow> c_assert (f = Op_post_recv);
       (r, bad, q, tr) \<leftarrow> efa_post_recv q wr tr;
       Some (r, bad, tr, w\<lparr>w_qps := (w_qps w)(qp \<mapsto> q)\<rparr>)
     }"

section \<open>Arithmetic\<close>

definition ibv_inc_rkey :: "u32 \<Rightarrow> u32" where
  "ibv_inc_rkey rkey =
     (let msk = 0x000000ff; newtag = (ucast ((rkey + 1) AND msk) :: u8)
      in (rkey AND NOT msk) OR ucast newtag)"

text \<open>\<open>1 << qpt\<close> is an \<open>int\<close>: a shift by 31 bits or more is undefined.\<close>

definition ibv_is_qpt_supported :: "u32 \<Rightarrow> u32 \<Rightarrow> int option" where
  "ibv_is_qpt_supported caps qpt =
     (if unat qpt < 31 then Some (if caps AND push_bit (unat qpt) 1 \<noteq> 0 then 1 else 0) else None)"

definition IB_ROCE_UDP_ENCAP_VALID_PORT_MIN :: u32 where
  "IB_ROCE_UDP_ENCAP_VALID_PORT_MIN = 0xC000"

definition ibv_flow_label_to_udp_sport :: "u32 \<Rightarrow> u16" where
  "ibv_flow_label_to_udp_sport fl =
     (let fl_low = fl AND 0x03FFF; fl_high = fl AND 0xFC000;
          fl_low = fl_low XOR drop_bit 14 fl_high
      in ucast (fl_low OR IB_ROCE_UDP_ENCAP_VALID_PORT_MIN))"

end
