(* ===== verification/Efa_Verbs_Contract.thy ===== *)
theory Efa_Verbs_Contract
  imports Efa_Verbs_Inline Efa_Device_Contract
begin

text \<open>
  What the inline verbs do on a context this library opened. Its extended operations are never
  reached, since nothing marks the context as extended.
\<close>

section \<open>A context that is not marked as extended\<close>

lemma get_ctx_not_extended:
  assumes "w_ctxs w c = Some ctx" "ctx_abi_compat ctx = 0"
  shows "verbs_get_ctx w (Some c) = Some None"
  using assms by (simp add: verbs_get_ctx_def VERBS_ABI_IS_EXTENDED_def)

lemma verbs_not_extended:
  assumes "w_ctxs w c = Some ctx" "ctx_abi_compat ctx = 0"
  shows "verbs_get_ctx_op w (Some c) op = Some None"
    and "ptr_verb op call (Some c) w = Some (R_ptr None, w\<lparr>w_errno := EOPNOTSUPP\<rparr>)"
    and "int_verb op call (Some c) w = Some (R_int EOPNOTSUPP, w)"
    and "ibv_close_xrcd call' (Some c) w = None"
  using get_ctx_not_extended [OF assms]
  by (simp_all add: verbs_get_ctx_op_def ptr_verb_def int_verb_def ibv_close_xrcd_def)

text \<open>The members of \<open>context->ops\<close> that are called without a test.\<close>

lemma provider_ctx_ops:
  "ctx_ops (verbs_set_ops zero_context efa_ctx_ops) (Ctx ''poll_cq'') = Some Op_poll_cq"
  "ctx_ops (verbs_set_ops zero_context efa_ctx_ops) (Ctx ''post_send'') = Some Op_post_send"
  "ctx_ops (verbs_set_ops zero_context efa_ctx_ops) (Ctx ''post_recv'') = Some Op_post_recv"
  "ctx_ops (verbs_set_ops zero_context efa_ctx_ops) (Ctx ''alloc_mw'') = None"
  "ctx_ops (verbs_set_ops zero_context efa_ctx_ops) (Ctx ''dealloc_mw'') = None"
  "ctx_ops (verbs_set_ops zero_context efa_ctx_ops) (Ctx ''bind_mw'') = None"
  "ctx_ops (verbs_set_ops zero_context efa_ctx_ops) (Ctx ''req_notify_cq'') = None"
  "ctx_ops (verbs_set_ops zero_context efa_ctx_ops) (Ctx ''post_srq_recv'') = None"
  by code_simp+

section \<open>The verbs by what they do on such a context\<close>

definition ptr_verbs_on_context ::
  "('d vcall \<Rightarrow> ptr option \<Rightarrow> 'd world \<Rightarrow> (api_ret \<times> 'd world) option) list" where
  "ptr_verbs_on_context =
     [ibv_create_flow_action_esp, ibv_open_xrcd, ibv_alloc_dm, ibv_alloc_td,
      ibv_alloc_parent_domain, ibv_open_qp, ibv_create_rwq_ind_table, ibv_create_counters]"

definition int_verbs_on_context ::
  "('d vcall \<Rightarrow> ptr option \<Rightarrow> 'd world \<Rightarrow> (api_ret \<times> 'd world) option) list" where
  "int_verbs_on_context =
     [ibv_query_rt_values_ex, ibv_destroy_flow, ibv_modify_flow_action_esp, ibv_destroy_flow_action,
      ibv_free_dm, ibv_get_srq_num, ibv_dealloc_td, ibv_modify_wq, ibv_destroy_wq,
      ibv_destroy_rwq_ind_table, ibv_destroy_counters, ibv_attach_counters_point_flow,
      ibv_read_counters]"

definition null_verbs_on_context ::
  "('d vcall \<Rightarrow> ptr option \<Rightarrow> 'd world \<Rightarrow> (api_ret \<times> 'd world) option) list" where
  "null_verbs_on_context =
     [ibv_close_xrcd, ibv_dealloc_mw, \<lambda>call. ibv_bind_mw call IBV_MW_TYPE_1, ibv_post_srq_recv]"

lemmas inline_verb_lists =
  ptr_verbs_on_context_def int_verbs_on_context_def null_verbs_on_context_def

lemmas inline_verb_defs =
  ibv_create_flow_action_esp_def ibv_open_xrcd_def ibv_alloc_dm_def ibv_alloc_td_def
  ibv_alloc_parent_domain_def ibv_open_qp_def ibv_create_rwq_ind_table_def ibv_create_counters_def
  ibv_query_rt_values_ex_def ibv_destroy_flow_def ibv_modify_flow_action_esp_def
  ibv_destroy_flow_action_def ibv_free_dm_def ibv_get_srq_num_def ibv_dealloc_td_def
  ibv_modify_wq_def ibv_destroy_wq_def ibv_destroy_rwq_ind_table_def ibv_destroy_counters_def
  ibv_attach_counters_point_flow_def ibv_read_counters_def ibv_create_flow_def
  ibv_modify_qp_rate_limit_def ibv_modify_cq_def ibv_alloc_null_mr_def ibv_reg_dm_mr_def
  ibv_advise_mr_def

lemma context_verbs_refused:
  assumes "w_ctxs w c = Some ctx" "ctx_abi_compat ctx = 0"
  shows "\<forall>verb\<in>set ptr_verbs_on_context.
      verb call (Some c) w = Some (R_ptr None, w\<lparr>w_errno := EOPNOTSUPP\<rparr>)"
    and "\<forall>verb\<in>set int_verbs_on_context. verb call (Some c) w = Some (R_int EOPNOTSUPP, w)"
  by (simp_all add: inline_verb_lists inline_verb_defs verbs_not_extended [OF assms])

lemma null_verbs_undefined:
  assumes "w_ctxs w c = Some ctx" "ctx_abi_compat ctx = 0"
    and "ctx_ops ctx = ctx_ops (verbs_set_ops zero_context efa_ctx_ops)"
  shows "\<forall>verb\<in>set null_verbs_on_context. verb call (Some c) w = None"
  by (simp add: inline_verb_lists ibv_dealloc_mw_def ibv_bind_mw_def ibv_post_srq_recv_def ctx_verb_def
      deref_def assms(1,3) provider_ctx_ops verbs_not_extended [OF assms(1,2)])

lemma object_verbs_refused:
  assumes "w_ctxs w c = Some ctx" "ctx_abi_compat ctx = 0"
  shows "pd_ctx w pd = Some (Some c) \<Longrightarrow>
      ibv_alloc_null_mr call pd w = Some (R_ptr None, w\<lparr>w_errno := EOPNOTSUPP\<rparr>) \<and>
      ibv_reg_dm_mr call pd w = Some (R_ptr None, w\<lparr>w_errno := EOPNOTSUPP\<rparr>) \<and>
      ibv_advise_mr call pd w = Some (R_int EOPNOTSUPP, w)"
    and "qp_ctx w qp = Some (Some c) \<Longrightarrow>
      ibv_create_flow call qp w = Some (R_ptr None, w\<lparr>w_errno := EOPNOTSUPP\<rparr>) \<and>
      ibv_modify_qp_rate_limit call qp w = Some (R_int EOPNOTSUPP, w)"
    and "cq_ctx w cq = Some (Some c) \<Longrightarrow> ibv_modify_cq call cq w = Some (R_int EOPNOTSUPP, w)"
  by (simp_all add: inline_verb_defs verbs_not_extended [OF assms])

lemma alloc_mw_refused:
  assumes "w_ctxs w c = Some ctx" "ctx_ops ctx = ctx_ops (verbs_set_ops zero_context efa_ctx_ops)"
    and "pd_ctx w pd = Some (Some c)"
  shows "ibv_alloc_mw call pd w = Some (R_ptr None, w\<lparr>w_errno := EOPNOTSUPP\<rparr>)"
  using assms by (simp add: ibv_alloc_mw_def deref_def provider_ctx_ops)

lemma srq_and_wq_verbs_refused:
  assumes "w_ctxs w c = Some ctx" "ctx_abi_compat ctx = 0"
  shows "ibv_create_wq wcall (Some c) wq_context (w, h) = Some (None, w\<lparr>w_errno := EOPNOTSUPP\<rparr>, h)"
    and "ibv_post_srq_ops scall (Some c) op w = Some ((R_int EOPNOTSUPP, Some op), w)"
    and "msk AND IBV_SRQ_INIT_ATTR_PD = 0 \<Longrightarrow>
      ibv_create_srq_ex create_srq call (Some c) msk ty w = Some (R_ptr None, w\<lparr>w_errno := EOPNOTSUPP\<rparr>)"
  by (simp_all add: ibv_create_wq_def ibv_post_srq_ops_def ibv_create_srq_ex_def verbs_not_extended [OF assms])

lemma req_notify_undefined:
  assumes "w_ctxs w c = Some ctx" "ctx_ops ctx = ctx_ops (verbs_set_ops zero_context efa_ctx_ops)"
    and "cq_ctx w cq = Some (Some c)"
  shows "ibv_req_notify_cq call cq w = None"
  using assms by (simp add: ibv_req_notify_cq_def ctx_verb_def deref_def provider_ctx_ops)

text \<open>The data path reaches the provider.\<close>

lemma bind_Some_tuple:
  "Option.bind m (\<lambda>(a, b, c, d). Some (f a b c d)) = map_option (\<lambda>(a, b, c, d). f a b c d) m"
  by (cases m) auto

lemma data_path_reaches_provider:
  assumes "w_ctxs w c = Some ctx" "ctx_ops ctx = ctx_ops (verbs_set_ops zero_context efa_ctx_ops)"
  shows "w_cqs w a = Some cq \<Longrightarrow> cq_context_ptr (verbs_cq cq) = Some c \<Longrightarrow>
      ibv_poll_cq a n wc w = map_option (\<lambda>(r, cq, qps, wc).
        (r, wc, w\<lparr>w_cqs := (w_cqs w)(a \<mapsto> cq), w_qps := qps\<rparr>)) (efa_poll_cq ctx cq (w_qps w) n wc)"
    and "w_qps w p = Some q \<Longrightarrow> qp_context_ptr (verbs_qp q) = Some c \<Longrightarrow>
      ibv_post_send mem p wrs tr w = map_option (\<lambda>(r, bad, q, tr). (r, bad, tr, w\<lparr>w_qps := (w_qps w)(p \<mapsto> q)\<rparr>))
        (efa_post_send mem (w_ahs w) q wrs tr)"
    and "w_qps w p = Some q \<Longrightarrow> qp_context_ptr (verbs_qp q) = Some c \<Longrightarrow>
      ibv_post_recv p rwrs tr w = map_option (\<lambda>(r, bad, q, tr). (r, bad, tr, w\<lparr>w_qps := (w_qps w)(p \<mapsto> q)\<rparr>))
        (efa_post_recv q rwrs tr)"
  by (simp_all add: ibv_poll_cq_def ibv_post_send_def ibv_post_recv_def deref_def assms provider_ctx_ops
      bind_Some_tuple)

section \<open>Arithmetic\<close>

lemma udp_sport_in_range: "0xC000 \<le> ibv_flow_label_to_udp_sport fl"
proof -
  have "ibv_flow_label_to_udp_sport fl = 0xC000 OR ucast (fl AND 0x03FFF XOR drop_bit 14 (fl AND 0xFC000))"
    unfolding ibv_flow_label_to_udp_sport_def Let_def IB_ROCE_UDP_ENCAP_VALID_PORT_MIN_def
    by (subst unsigned_or_eq) (simp add: or.commute)
  then show ?thesis by (simp add: le_word_or2)
qed

text \<open>The tag of a key, its low byte, is increased; the rest of the key is kept.\<close>

lemma inc_rkey_keeps_index:
  "ibv_inc_rkey r AND NOT 0xFF = r AND NOT 0xFF" "ibv_inc_rkey r AND 0xFF = (r + 1) AND 0xFF"
proof -
  have m: "(0xFF :: u32) = mask 8" by (simp add: mask_eq_exp_minus_1)
  have u: "ibv_inc_rkey r = (r AND NOT (mask 8)) OR (r + 1) AND mask 8"
    unfolding ibv_inc_rkey_def Let_def m
    by (rule bit_word_eqI) (auto simp: bit_simps)
  show "ibv_inc_rkey r AND NOT 0xFF = r AND NOT 0xFF" "ibv_inc_rkey r AND 0xFF = (r + 1) AND 0xFF"
    unfolding u m by (rule bit_word_eqI; auto simp: bit_simps)+
qed

section \<open>An open context\<close>

lemma opened_context:
  assumes "efa_device_open dr al device w = Some (Some c, w')" "handle_contract dr H"
    and "\<forall>p. al_ctx al = Some p \<longrightarrow> w_ctxs w p = None"
  shows "\<exists>ctx. w_ctxs w' c = Some ctx \<and> ctx_abi_compat ctx = 0 \<and>
    ctx_ops ctx = ctx_ops (verbs_set_ops zero_context efa_ctx_ops)"
proof -
  have err: "\<forall>e d. CreateFile dr (w_drv w) = ((INVALID_HANDLE_VALUE, e), d) \<longrightarrow> e \<noteq> 0"
    using assms(2) by (simp add: handle_contract_def)
  from assms(1,3) err show ?thesis
    by (cases rule: device_open_cases [consumes 3]) (simp_all add: context_fresh_def)
qed

lemma open_context_interface:
  assumes "efa_device_open dr al device w = Some (Some c, w')" "handle_contract dr H"
    and "\<forall>p. al_ctx al = Some p \<longrightarrow> w_ctxs w p = None" and "w_ctxs w' c = Some ctx"
  shows "ctx_abi_compat ctx = 0 \<and> ctx_ops ctx = ctx_ops (verbs_set_ops zero_context efa_ctx_ops)"
  using opened_context [OF assms(1-3)] assms(4) by auto

text \<open>
  C38: what the verbs compiled into the application do on the context that \<open>efa_device_open\<close> returned, in
  every later world in which its operations are what they were, and on the objects of that context.
  The mark of an extended context is never set. So the verbs of the lists \<open>ptr_verbs_on_context\<close> and
  \<open>int_verbs_on_context\<close>, and \<open>ibv_create_wq\<close>, \<open>ibv_post_srq_ops\<close>, \<open>ibv_alloc_null_mr\<close>, \<open>ibv_reg_dm_mr\<close>,
  \<open>ibv_alloc_mw\<close>, \<open>ibv_advise_mr\<close>, \<open>ibv_create_flow\<close>, \<open>ibv_modify_qp_rate_limit\<close>, \<open>ibv_modify_cq\<close> and a
  \<open>ibv_create_srq_ex\<close> without the flag of a protection domain, are refused with \<open>EOPNOTSUPP\<close> and have no
  effect but \<open>errno\<close>; so is \<open>ibv_create_qp_ex\<close>, although the library has the operation, for every mask
  but the one that makes it \<open>ibv_create_qp\<close>. \<open>ibv_query_device_ex\<close> without input and \<open>ibv_query_port\<close>
  fall back to their older form. Five verbs call through a null pointer: \<open>ibv_close_xrcd\<close>,
  \<open>ibv_dealloc_mw\<close>, \<open>ibv_bind_mw\<close> of a window of type 1, \<open>ibv_post_srq_recv\<close> and \<open>ibv_req_notify_cq\<close>.
  Polling and posting reach the provider.
\<close>

theorem inline_verbs_of_open_context:
  assumes "efa_device_open dr al device w = Some (Some c, w')" and "handle_contract dr H"
    and "\<forall>p. al_ctx al = Some p \<longrightarrow> w_ctxs w p = None"
    and "w_ctxs w' c = Some ctx0" and "w_ctxs v c = Some ctx"
    and "ctx_abi_compat ctx = ctx_abi_compat ctx0" and "ctx_ops ctx = ctx_ops ctx0"
  shows "(\<forall>verb\<in>set ptr_verbs_on_context.
        verb call (Some c) v = Some (R_ptr None, v\<lparr>w_errno := EOPNOTSUPP\<rparr>)) \<and>
    (\<forall>verb\<in>set int_verbs_on_context. verb call (Some c) v = Some (R_int EOPNOTSUPP, v)) \<and>
    (\<forall>verb\<in>set null_verbs_on_context. verb call (Some c) v = None) \<and>
    (iax_comp_mask attr \<noteq> IBV_QP_INIT_ATTR_PD \<longrightarrow>
       ibv_create_qp_ex dr qal (Some c) attr v = Some (None, attr, v\<lparr>w_errno := EOPNOTSUPP\<rparr>)) \<and>
    ibv_create_wq wcall (Some c) wq_context (v, h) = Some (None, v\<lparr>w_errno := EOPNOTSUPP\<rparr>, h) \<and>
    ibv_post_srq_ops scall (Some c) op v = Some ((R_int EOPNOTSUPP, Some op), v) \<and>
    (msk AND IBV_SRQ_INIT_ATTR_PD = 0 \<longrightarrow>
       ibv_create_srq_ex create_srq call (Some c) msk ty v = Some (R_ptr None, v\<lparr>w_errno := EOPNOTSUPP\<rparr>)) \<and>
    (\<forall>pd. pd_ctx v pd = Some (Some c) \<longrightarrow>
       (\<forall>verb\<in>{ibv_alloc_null_mr, ibv_reg_dm_mr, ibv_alloc_mw}.
          verb call pd v = Some (R_ptr None, v\<lparr>w_errno := EOPNOTSUPP\<rparr>)) \<and>
       ibv_advise_mr call pd v = Some (R_int EOPNOTSUPP, v)) \<and>
    (\<forall>qp. qp_ctx v qp = Some (Some c) \<longrightarrow>
       ibv_create_flow call qp v = Some (R_ptr None, v\<lparr>w_errno := EOPNOTSUPP\<rparr>) \<and>
       ibv_modify_qp_rate_limit call qp v = Some (R_int EOPNOTSUPP, v)) \<and>
    (\<forall>cq. cq_ctx v cq = Some (Some c) \<longrightarrow>
       ibv_modify_cq call cq v = Some (R_int EOPNOTSUPP, v) \<and> ibv_req_notify_cq call cq v = None) \<and>
    ibv_query_device_ex (Some c) None dattr v = ibv_query_device c v \<and>
    inline_ibv_query_port (Some c) pattr v = ibv_query_port (Some c) zero_port_attr v \<and>
    (\<forall>a cq. w_cqs v a = Some cq \<and> cq_context_ptr (verbs_cq cq) = Some c \<longrightarrow>
       ibv_poll_cq a n wc v = map_option (\<lambda>(r, cq, qps, wc).
         (r, wc, v\<lparr>w_cqs := (w_cqs v)(a \<mapsto> cq), w_qps := qps\<rparr>)) (efa_poll_cq ctx cq (w_qps v) n wc)) \<and>
    (\<forall>p q. w_qps v p = Some q \<and> qp_context_ptr (verbs_qp q) = Some c \<longrightarrow>
       ibv_post_send mem p wrs tr v = map_option (\<lambda>(r, bad, q, tr). (r, bad, tr, v\<lparr>w_qps := (w_qps v)(p \<mapsto> q)\<rparr>))
         (efa_post_send mem (w_ahs v) q wrs tr) \<and>
       ibv_post_recv p rwrs tr v = map_option (\<lambda>(r, bad, q, tr). (r, bad, tr, v\<lparr>w_qps := (w_qps v)(p \<mapsto> q)\<rparr>))
         (efa_post_recv q rwrs tr))"
proof -
  have i: "ctx_abi_compat ctx = 0" "ctx_ops ctx = ctx_ops (verbs_set_ops zero_context efa_ctx_ops)"
    using open_context_interface [OF assms(1-4)] assms(6,7) by simp_all
  note v = assms(5) i(1)
  show ?thesis
    using context_verbs_refused [OF v] null_verbs_undefined [OF v i(2)] srq_and_wq_verbs_refused [OF v]
      object_verbs_refused [OF v] alloc_mw_refused [OF assms(5) i(2)] req_notify_undefined [OF assms(5) i(2)]
      data_path_reaches_provider [OF assms(5) i(2)]
    by (simp add: ibv_create_qp_ex_def ibv_query_device_ex_def query_device_legacy_def
        inline_ibv_query_port_def verbs_not_extended(1) [OF v])
qed

text \<open>A request for the calls of the session interface, as an application would make it.\<close>

definition session_attr :: ibv_qp_init_attr_ex where
  "session_attr = \<lparr>iax_base = \<lparr>ia_qp_context = 0, ia_send_cq = Some 3, ia_recv_cq = Some 3, ia_srq = None,
       ia_cap = \<lparr>max_send_wr = 4, max_recv_wr = 4, max_send_sge = 1, max_recv_sge = 1, cap_max_inline_data = 0\<rparr>,
       ia_qp_type = IBV_QPT_UD, ia_sq_sig_all = 0\<rparr>,
     iax_comp_mask = IBV_QP_INIT_ATTR_PD OR IBV_QP_INIT_ATTR_SEND_OPS_FLAGS, iax_pd = Some 2,
     iax_send_ops_flags = 4\<rparr>"

definition no_allocs :: qp_allocs where
  "no_allocs = \<lparr>al_qp = None, al_rq_wrid = None, al_rq_pool = None, al_sq_wrid = None, al_sq_pool = None,
     al_local_queue = None\<rparr>"

lemma session_attr_mask: "iax_comp_mask session_attr \<noteq> IBV_QP_INIT_ATTR_PD"
  by code_simp

theorem inline_verbs_of_open_context_witness:
  "\<exists>w'. efa_device_open handle_driver (ref_ctx_allocs True) 1 closed_world = Some (Some 5, w') \<and>
     ibv_alloc_td (\<lambda>_ _. None) (Some 5) w' = Some (R_ptr None, w'\<lparr>w_errno := EOPNOTSUPP\<rparr>) \<and>
     ibv_create_qp_ex handle_driver no_allocs (Some 5) session_attr w' =
       Some (None, session_attr, w'\<lparr>w_errno := EOPNOTSUPP\<rparr>)"
proof -
  obtain w' where w': "efa_device_open handle_driver (ref_ctx_allocs True) 1 closed_world = Some (Some 5, w')"
    using handle_driver_opens [of True] by auto
  have fr: "\<forall>p. al_ctx (ref_ctx_allocs True) = Some p \<longrightarrow> w_ctxs closed_world p = None"
    by (simp add: closed_world_def)
  obtain ctx where ctx: "w_ctxs w' 5 = Some ctx" using opened_context [OF w' handle_driver_contract fr] by blast
  note run = inline_verbs_of_open_context [OF w' handle_driver_contract fr ctx ctx refl refl,
      where call = "\<lambda>_ _. None" and attr = session_attr and qal = no_allocs]
  have "ibv_alloc_td \<in> set ptr_verbs_on_context" by (simp add: ptr_verbs_on_context_def)
  then have "ibv_alloc_td (\<lambda>_ _. None) (Some 5) w' = Some (R_ptr None, w'\<lparr>w_errno := EOPNOTSUPP\<rparr>)"
    using conjunct1 [OF run] by blast
  moreover have "ibv_create_qp_ex handle_driver no_allocs (Some 5) session_attr w' =
      Some (None, session_attr, w'\<lparr>w_errno := EOPNOTSUPP\<rparr>)"
    by (rule mp [OF conjunct1 [OF conjunct2 [OF conjunct2 [OF conjunct2 [OF run]]]] session_attr_mask])
  ultimately show ?thesis using w' by blast
qed

end
