(* ===== verification/Efa_Pthread.thy ===== *)
theory Efa_Pthread
  imports Efa_Mmio
begin

text \<open>
  \<open>include/pthread.h\<close>: the mutexes and threads of POSIX in terms of Windows, as several threads see
  them. (\<open>Efa_Mmio\<close> holds the spin locks as one thread sees them.)
\<close>

section \<open>Critical sections\<close>

type_synonym tid = nat

text \<open>The thread that is inside and how many times it has entered.\<close>

type_synonym crit = "(tid \<times> nat) option"

text \<open>\<open>EnterCriticalSection\<close>: \<open>None\<close> means that the call waits.\<close>

fun EnterCriticalSection :: "tid \<Rightarrow> crit \<Rightarrow> crit option" where
  "EnterCriticalSection t None = Some (Some (t, 1))"
| "EnterCriticalSection t (Some (u, n)) = (if u = t then Some (Some (t, Suc n)) else None)"

text \<open>The result is a \<open>BOOL\<close>: true when the section was entered.\<close>

definition TryEnterCriticalSection :: "tid \<Rightarrow> crit \<Rightarrow> bool \<times> crit" where
  "TryEnterCriticalSection t c =
     (case EnterCriticalSection t c of None \<Rightarrow> (False, c) | Some c' \<Rightarrow> (True, c'))"

text \<open>Leaving a section the thread is not inside is undefined.\<close>

fun LeaveCriticalSection :: "tid \<Rightarrow> crit \<Rightarrow> crit option" where
  "LeaveCriticalSection t None = None"
| "LeaveCriticalSection t (Some (u, n)) =
     (if u \<noteq> t \<or> n = 0 then None else Some (if n = 1 then None else Some (t, n - 1)))"

definition pthread_mutex_lock :: "tid \<Rightarrow> crit \<Rightarrow> (int \<times> crit) option" where
  "pthread_mutex_lock t c = map_option (Pair 0) (EnterCriticalSection t c)"

definition pthread_mutex_trylock :: "tid \<Rightarrow> crit \<Rightarrow> int \<times> crit" where
  "pthread_mutex_trylock t c =
     (case TryEnterCriticalSection t c of (b, c') \<Rightarrow> (if b then 0 else 1, c'))"

definition pthread_mutex_unlock :: "tid \<Rightarrow> crit \<Rightarrow> (int \<times> crit) option" where
  "pthread_mutex_unlock t c = map_option (Pair 0) (LeaveCriticalSection t c)"

text \<open>The macros that set a lock up and take it down; nobody may be inside at the end.\<close>

definition pthread_mutex_init :: "int \<times> crit" where
  "pthread_mutex_init = (0, None)"

definition pthread_mutex_destroy :: "crit \<Rightarrow> int option" where
  "pthread_mutex_destroy c = (if c = None then Some 0 else None)"

text \<open>How many times a thread is inside.\<close>

fun depth :: "tid \<Rightarrow> crit \<Rightarrow> nat" where
  "depth t None = 0"
| "depth t (Some (u, n)) = (if u = t then n else 0)"

lemma depth_exclusive: "0 < depth t c \<Longrightarrow> 0 < depth u c \<Longrightarrow> t = u"
  by (cases c) (auto split: if_splits)

lemma enter_depth:
  "EnterCriticalSection t c = Some c' \<Longrightarrow> depth u c' = depth u c + (if u = t then 1 else 0)"
  by (cases c) (auto split: if_splits)

lemma leave_depth:
  "LeaveCriticalSection t c = Some c' \<Longrightarrow> depth u c' = depth u c - (if u = t then 1 else 0)"
  by (cases c) (auto split: if_splits)

lemma leave_defined: "LeaveCriticalSection t c = None \<longleftrightarrow> depth t c = 0"
  by (cases c) (auto split: if_splits)

text \<open>A section nobody is inside is free to be entered; a thread waits only for another thread.\<close>

definition crit_ok :: "crit \<Rightarrow> bool" where
  "crit_ok c \<longleftrightarrow> (\<forall>u. c \<noteq> Some (u, 0))"

lemma enter_ok: "EnterCriticalSection t c = Some c' \<Longrightarrow> crit_ok c'"
  by (cases c) (auto simp: crit_ok_def split: if_splits)

lemma leave_ok: "LeaveCriticalSection t c = Some c' \<Longrightarrow> crit_ok c'"
  by (cases c) (auto simp: crit_ok_def split: if_splits)

lemma enter_waits:
  "crit_ok c \<Longrightarrow> EnterCriticalSection t c = None \<Longrightarrow> \<exists>u. u \<noteq> t \<and> 0 < depth u c"
  by (cases c) (auto simp: crit_ok_def split: if_splits)

lemma crit_free:
  assumes "crit_ok c" "\<forall>t. depth t c = 0"
  shows "c = None"
proof (cases c)
  case (Some a)
  obtain u n where a: "a = (u, n)" by (cases a)
  then have "n = 0" using spec [OF assms(2), of u] Some by simp
  then show ?thesis using assms(1) Some a by (simp add: crit_ok_def)
qed simp

text \<open>
  What a thread can expect of a mutex: it may enter again, others wait until it has left as often
  as it entered, and \<open>pthread_mutex_trylock\<close> gives 0 exactly when \<open>pthread_mutex_lock\<close> would not wait.
\<close>

theorem mutex_contract:
  "pthread_mutex_lock t c = Some (r, c') \<Longrightarrow> r = 0 \<and> pthread_mutex_unlock t c' = Some (0, c) \<or> c = Some (t, 0)"
  "fst (pthread_mutex_trylock t c) = 0 \<longleftrightarrow> pthread_mutex_lock t c \<noteq> None"
  "pthread_mutex_lock t c = Some (r, c') \<Longrightarrow> u \<noteq> t \<Longrightarrow> pthread_mutex_lock u c' = None"
  by (cases c; auto simp: pthread_mutex_lock_def pthread_mutex_unlock_def pthread_mutex_trylock_def
    TryEnterCriticalSection_def split: if_splits option.splits)+

section \<open>Threads\<close>

text \<open>
  A routine is known by its address; what it returns for an argument is the function \<open>run\<close>. The
  blocks that carry a routine to its thread are in \<open>heap\<close>.
\<close>

record fi_thread_arg =
  ta_routine :: u64
  ta_arg :: u64

type_synonym arg_heap = "ptr \<rightharpoonup> fi_thread_arg"

abbreviation ENOSYS :: int where "ENOSYS \<equiv> 40"

text \<open>
  \<open>m\<close> is what \<open>malloc\<close> gives, which is not checked; \<open>h\<close> is the handle of \<open>CreateThread\<close>, if any.
\<close>

definition pthread_create ::
    "ptr option \<Rightarrow> ptr option \<Rightarrow> u64 \<Rightarrow> u64 \<Rightarrow> arg_heap \<Rightarrow> (int \<times> ptr option \<times> arg_heap) option" where
  "pthread_create m h routine arg heap =
     do {
       d \<leftarrow> m;
       Some (if h = None then 1 else 0, h, heap(d \<mapsto> \<lparr>ta_routine = routine, ta_arg = arg\<rparr>))
     }"

definition ofi_thread_starter :: "(u64 \<Rightarrow> u64 \<Rightarrow> u64) \<Rightarrow> ptr \<Rightarrow> arg_heap \<Rightarrow> (u32 \<times> arg_heap) option" where
  "ofi_thread_starter run d heap =
     (case heap d of
        None \<Rightarrow> None
      | Some a \<Rightarrow> Some (ucast (run (ta_routine a) (ta_arg a)), heap(d := None)))"

text \<open>
  \<open>waited\<close> says whether \<open>WaitForSingleObject\<close> saw the end of the thread, whose exit code is \<open>ex\<close>. The
  results: the return value, what is stored through \<open>exit_code\<close>, whether the handle was closed.
\<close>

definition pthread_join :: "bool \<Rightarrow> u32 \<Rightarrow> bool \<Rightarrow> int \<times> u64 option \<times> bool" where
  "pthread_join waited ex exit_code =
     (if waited then (0, if exit_code then Some (ucast ex) else None, True) else (- 1, None, False))"

definition pthread_equal :: "ptr \<Rightarrow> ptr \<Rightarrow> int" where
  "pthread_equal t1 t2 = ENOSYS"

definition pthread_cancel :: "ptr \<Rightarrow> int" where
  "pthread_cancel thread = ENOSYS"

definition pthread_self :: ptr where
  "pthread_self = nat ENOSYS"

text \<open>
  The cleanup macros for C: a routine and its argument are put aside, and run on the state \<open>st\<close> at the
  end of the block when asked for.
\<close>

definition pthread_cleanup_push :: "('a \<Rightarrow> 's \<Rightarrow> 's) \<Rightarrow> 'a \<Rightarrow> ('a \<Rightarrow> 's \<Rightarrow> 's) \<times> 'a" where
  "pthread_cleanup_push rout arg = (rout, arg)"

definition pthread_cleanup_pop :: "bool \<Rightarrow> ('a \<Rightarrow> 's \<Rightarrow> 's) \<times> 'a \<Rightarrow> 's \<Rightarrow> 's" where
  "pthread_cleanup_pop execute cleanup st = (if execute then fst cleanup (snd cleanup) st else st)"

text \<open>
  A thread that is created, runs and is joined leaves no block behind and delivers the result of
  its routine, cut to 32 bits: \<open>pthread_join\<close> gives what the routine returned only when that fits.
\<close>

theorem thread_delivers_low_half:
  assumes "pthread_create (Some d) (Some h) f x heap = Some (r, th, heap1)" "heap d = None"
    and "ofi_thread_starter run d heap1 = Some (ex, heap2)"
  shows "r = 0 \<and> heap2 = heap \<and> fst (snd (pthread_join True ex True)) = Some (ucast (ucast (run f x) :: u32)) \<and>
    (fst (snd (pthread_join True ex True)) = Some (run f x) \<longleftrightarrow> run f x < 2 ^ 32)"
proof -
  have cut: "(ucast (ucast v :: u32) :: u64) = v \<longleftrightarrow> v < 2 ^ 32" for v :: u64
    by (simp add: word_unat_eq_iff word_less_nat_alt unsigned_ucast_eq unsigned_take_bit_eq
      take_bit_nat_eq_self_iff)
  have "heap(d := None) = heap" using assms(2) by (rule fun_upd_idem)
  then have "r = 0" "heap2 = heap" "ex = ucast (run f x)"
    using assms(1,3) by (auto simp: pthread_create_def ofi_thread_starter_def)
  then show ?thesis by (simp only: pthread_join_def if_True fst_conv snd_conv option.inject cut)
qed

text \<open>When no thread could be created its block stays allocated; \<open>pthread_equal\<close> takes all for the same.\<close>

theorem thread_shims_fail:
  "pthread_create None h f x heap = None"
  "pthread_create (Some d) None f x heap = Some (1, None, heap(d \<mapsto> \<lparr>ta_routine = f, ta_arg = x\<rparr>))"
  "pthread_equal t1 t2 \<noteq> 0"
  by (simp_all add: pthread_create_def pthread_equal_def)

end
