(* ===== verification/Efa_Threads.thy ===== *)
theory Efa_Threads
  imports Efa_Qp_Life Efa_Pthread
begin

text \<open>
  The library under several threads. The other theories follow one call at a time; this one keeps
  of every call what other threads can see of it: the critical sections it enters and leaves
  (\<open>include/pthread.h\<close>), the slot of the table of queue pairs it writes or reads, the work queues
  it touches and the queue pair it frees. A state holds one list of such actions for each thread,
  and a step lets any one thread carry out its next action.
\<close>

section \<open>Actions\<close>

text \<open>
  \<open>ctx->qp_table_lock\<close>, \<open>cq->lock\<close> and the \<open>wqlock\<close> of a send or a receive queue.
\<close>

datatype lock_name = Table_lock ptr | Cq_lock ptr | Wq_lock wq_ref

fun wq_owner :: "wq_ref \<Rightarrow> ptr" where
  "wq_owner (Sq_wq q) = q"
| "wq_owner (Rq_wq q) = q"

text \<open>
  \<open>Use\<close> reads or writes the arrays of a work queue. \<open>Find c k s\<close> handles the next completion of the
  completion queue \<open>c\<close>, which is one of the send queue when \<open>s\<close> holds and names slot \<open>k\<close>.
\<close>

datatype act =
    Enter lock_name
  | Leave lock_name
  | Use wq_ref
  | Find ptr nat bool
  | Publish ptr
  | Unpublish ptr
  | Free ptr

text \<open>What does not change about the objects: the pointers they hold and the slot of a queue pair.\<close>

record objects =
  o_qp_ctx :: "ptr \<Rightarrow> ptr"
  o_cq_ctx :: "ptr \<Rightarrow> ptr"
  o_send_cq :: "ptr \<Rightarrow> ptr"
  o_recv_cq :: "ptr \<Rightarrow> ptr"
  o_slot :: "ptr \<Rightarrow> nat"

text \<open>\<open>efa_lock_cqs\<close> and \<open>efa_unlock_cqs\<close>: the receive side first, in both.\<close>

definition lock_cqs_acts :: "objects \<Rightarrow> ptr \<Rightarrow> act list" where
  "lock_cqs_acts ob q =
     (if o_recv_cq ob q = o_send_cq ob q then [Enter (Cq_lock (o_recv_cq ob q))]
      else [Enter (Cq_lock (o_recv_cq ob q)), Enter (Cq_lock (o_send_cq ob q))])"

definition unlock_cqs_acts :: "objects \<Rightarrow> ptr \<Rightarrow> act list" where
  "unlock_cqs_acts ob q =
     (if o_recv_cq ob q = o_send_cq ob q then [Leave (Cq_lock (o_recv_cq ob q))]
      else [Leave (Cq_lock (o_recv_cq ob q)), Leave (Cq_lock (o_send_cq ob q))])"

text \<open>The part of \<open>efa_destroy_qp\<close> before the driver is asked.\<close>

definition destroy_qp_acts :: "objects \<Rightarrow> ptr \<Rightarrow> act list" where
  "destroy_qp_acts ob q =
     Enter (Table_lock (o_qp_ctx ob q)) # lock_cqs_acts ob q @ [Unpublish q] @ unlock_cqs_acts ob q @
     [Leave (Table_lock (o_qp_ctx ob q)), Free q]"

text \<open>The end of \<open>create_qp\<close>, from the table on.\<close>

definition publish_qp_acts :: "objects \<Rightarrow> ptr \<Rightarrow> act list" where
  "publish_qp_acts ob q =
     [Enter (Table_lock (o_qp_ctx ob q)), Publish q, Leave (Table_lock (o_qp_ctx ob q)),
      Enter (Cq_lock (o_send_cq ob q)), Leave (Cq_lock (o_send_cq ob q)),
      Enter (Cq_lock (o_recv_cq ob q)), Leave (Cq_lock (o_recv_cq ob q))]"

text \<open>
  \<open>efa_poll_cq\<close>, and a session from \<open>efa_start_poll\<close> to \<open>efa_end_poll\<close>: the lock is held throughout.
\<close>

definition poll_cq_acts :: "ptr \<Rightarrow> (nat \<times> bool) list \<Rightarrow> act list" where
  "poll_cq_acts c es = Enter (Cq_lock c) # map (\<lambda>(k, s). Find c k s) es @ [Leave (Cq_lock c)]"

text \<open>
  What one completion of a known queue does: \<open>efa_process_cqe\<close> reads the tag, then
  \<open>efa_wq_put_wrid_idx_unlocked\<close> gives the identifier back.
\<close>

definition reap_acts :: "wq_ref \<Rightarrow> act list" where
  "reap_acts w = [Use w, Enter (Wq_lock w), Use w, Leave (Wq_lock w)]"

text \<open>
  \<open>efa_post_send\<close>, \<open>efa_post_recv\<close>, and a session from \<open>efa_send_wr_start\<close> to its end.
\<close>

definition post_acts :: "wq_ref \<Rightarrow> act list" where
  "post_acts w = [Enter (Wq_lock w), Use w, Leave (Wq_lock w)]"

datatype call = Post wq_ref | Poll ptr "(nat \<times> bool) list" | Create ptr | Destroy ptr

fun call_acts :: "objects \<Rightarrow> call \<Rightarrow> act list" where
  "call_acts ob (Post w) = post_acts w"
| "call_acts ob (Poll c es) = poll_cq_acts c es"
| "call_acts ob (Create q) = publish_qp_acts ob q"
| "call_acts ob (Destroy q) = destroy_qp_acts ob q"

section \<open>Steps\<close>

record threads =
  t_locks :: "lock_name \<Rightarrow> crit"
  t_table :: "ptr \<times> nat \<Rightarrow> ptr option"
  t_freed :: "ptr set"
  t_prog :: "act list list"

datatype outcome = Waits | Undefined | Goes threads

fun is_find :: "act \<Rightarrow> bool" where
  "is_find (Find c k s) = True"
| "is_find a = False"

text \<open>
  Thread \<open>t\<close> carries out \<open>a\<close> and has \<open>p\<close> left. A completion whose slot is empty is an error: the
  call leaves its loop. Touching a queue of a freed queue pair, or freeing it again, is undefined.
\<close>

fun exec :: "objects \<Rightarrow> tid \<Rightarrow> act \<Rightarrow> act list \<Rightarrow> threads \<Rightarrow> outcome" where
  "exec ob t (Enter l) p s =
     (case EnterCriticalSection t (t_locks s l) of
        None \<Rightarrow> Waits
      | Some c \<Rightarrow> Goes (s\<lparr>t_locks := (t_locks s)(l := c), t_prog := (t_prog s)[t := p]\<rparr>))"
| "exec ob t (Leave l) p s =
     (case LeaveCriticalSection t (t_locks s l) of
        None \<Rightarrow> Undefined
      | Some c \<Rightarrow> Goes (s\<lparr>t_locks := (t_locks s)(l := c), t_prog := (t_prog s)[t := p]\<rparr>))"
| "exec ob t (Use w) p s =
     (if wq_owner w \<in> t_freed s then Undefined else Goes (s\<lparr>t_prog := (t_prog s)[t := p]\<rparr>))"
| "exec ob t (Find c k b) p s =
     Goes (s\<lparr>t_prog := (t_prog s)[t :=
       (case t_table s (o_cq_ctx ob c, k) of
          None \<Rightarrow> dropWhile is_find p
        | Some q \<Rightarrow> reap_acts (if b then Sq_wq q else Rq_wq q) @ p)]\<rparr>)"
| "exec ob t (Publish q) p s =
     Goes (s\<lparr>t_table := (t_table s)((o_qp_ctx ob q, o_slot ob q) := Some q), t_prog := (t_prog s)[t := p]\<rparr>)"
| "exec ob t (Unpublish q) p s =
     Goes (s\<lparr>t_table := (t_table s)((o_qp_ctx ob q, o_slot ob q) := None), t_prog := (t_prog s)[t := p]\<rparr>)"
| "exec ob t (Free q) p s =
     (if q \<in> t_freed s then Undefined
      else Goes (s\<lparr>t_freed := insert q (t_freed s), t_prog := (t_prog s)[t := p]\<rparr>))"

inductive thread_step :: "objects \<Rightarrow> threads \<Rightarrow> threads \<Rightarrow> bool" for ob where
  "t < length (t_prog s) \<Longrightarrow> t_prog s ! t = a # p \<Longrightarrow> exec ob t a p s = Goes s' \<Longrightarrow> thread_step ob s s'"

text \<open>Thread \<open>i\<close> makes the calls \<open>cs ! i\<close>; no lock is held and nothing has been freed.\<close>

definition start_threads :: "objects \<Rightarrow> (ptr \<times> nat \<Rightarrow> ptr option) \<Rightarrow> call list list \<Rightarrow> threads" where
  "start_threads ob tab cs =
     \<lparr>t_locks = \<lambda>_. None, t_table = tab, t_freed = {}, t_prog = map (concat \<circ> map (call_acts ob)) cs\<rparr>"

text \<open>A state from which no thread can go on although one has work left.\<close>

definition deadlocked :: "objects \<Rightarrow> threads \<Rightarrow> bool" where
  "deadlocked ob s \<longleftrightarrow>
     (\<exists>t < length (t_prog s). t_prog s ! t \<noteq> []) \<and>
     (\<forall>t < length (t_prog s). case t_prog s ! t of [] \<Rightarrow> True | a # p \<Rightarrow> exec ob t a p s = Waits)"

text \<open>A schedule names the thread that goes next.\<close>

fun run_schedule :: "objects \<Rightarrow> tid list \<Rightarrow> threads \<Rightarrow> threads option" where
  "run_schedule ob [] s = Some s"
| "run_schedule ob (t # ts) s =
     (if t < length (t_prog s) then
        (case t_prog s ! t of
           [] \<Rightarrow> None
         | a # p \<Rightarrow> (case exec ob t a p s of Goes s' \<Rightarrow> run_schedule ob ts s' | _ \<Rightarrow> None))
      else None)"

lemma run_schedule_steps: "run_schedule ob ts s = Some s' \<Longrightarrow> (thread_step ob)\<^sup>*\<^sup>* s s'"
  by (induction ob ts s rule: run_schedule.induct)
    (auto split: if_splits list.splits outcome.splits
      intro: thread_step.intros converse_rtranclp_into_rtranclp)

section \<open>The order of the locks\<close>

definition held :: "threads \<Rightarrow> tid \<Rightarrow> lock_name \<Rightarrow> nat" where
  "held s t l = depth t (t_locks s l)"

text \<open>
  The order in which the library enters sections, for a thread that is inside those of \<open>h\<close>: a table
  lock first of all; the lock of a completion queue before that of any work queue, and beside one
  of the same context only inside the table lock of that context; one work queue at a time.
\<close>

fun ok_enter :: "objects \<Rightarrow> (lock_name \<Rightarrow> nat) \<Rightarrow> lock_name \<Rightarrow> bool" where
  "ok_enter ob h (Table_lock x) \<longleftrightarrow> h = (\<lambda>_. 0)"
| "ok_enter ob h (Cq_lock c) \<longleftrightarrow>
     (\<forall>w. h (Wq_lock w) = 0) \<and>
     (\<forall>d. 0 < h (Cq_lock d) \<longrightarrow> o_cq_ctx ob d = o_cq_ctx ob c \<and> 0 < h (Table_lock (o_cq_ctx ob c)))"
| "ok_enter ob h (Wq_lock w) \<longleftrightarrow> (\<forall>v. h (Wq_lock v) = 0)"

text \<open>A list of actions keeps to the order, leaves only what it has entered, and all of it.\<close>

fun orderly :: "objects \<Rightarrow> (lock_name \<Rightarrow> nat) \<Rightarrow> act list \<Rightarrow> bool" where
  "orderly ob h [] \<longleftrightarrow> h = (\<lambda>_. 0)"
| "orderly ob h (Enter l # p) \<longleftrightarrow> ok_enter ob h l \<and> orderly ob (h(l := Suc (h l))) p"
| "orderly ob h (Leave l # p) \<longleftrightarrow> 0 < h l \<and> orderly ob (h(l := h l - 1)) p"
| "orderly ob h (Use w # p) \<longleftrightarrow> orderly ob h p"
| "orderly ob h (Find c k b # p) \<longleftrightarrow> 0 < h (Cq_lock c) \<and> (\<forall>w. h (Wq_lock w) = 0) \<and> orderly ob h p"
| "orderly ob h (Publish q # p) \<longleftrightarrow> orderly ob h p"
| "orderly ob h (Unpublish q # p) \<longleftrightarrow>
     0 < h (Cq_lock (o_send_cq ob q)) \<and> 0 < h (Cq_lock (o_recv_cq ob q)) \<and> orderly ob h p"
| "orderly ob h (Free q # p) \<longleftrightarrow> orderly ob h p"

lemma upd_zero [simp]: "h l = 0 \<Longrightarrow> h(l := 0) = h" for h :: "lock_name \<Rightarrow> nat"
  by auto

lemma orderly_skip: "orderly ob h p \<Longrightarrow> orderly ob h (dropWhile is_find p)"
  by (induction ob h p rule: orderly.induct) auto

lemma orderly_reap:
  assumes "orderly ob h p" "\<forall>v. h (Wq_lock v) = 0"
  shows "orderly ob h (reap_acts w @ p)"
  using assms by (simp add: reap_acts_def)

text \<open>A queue pair has both its completion queues in its own context.\<close>

definition one_context :: "objects \<Rightarrow> ptr \<Rightarrow> bool" where
  "one_context ob q \<longleftrightarrow> o_cq_ctx ob (o_send_cq ob q) = o_qp_ctx ob q \<and> o_cq_ctx ob (o_recv_cq ob q) = o_qp_ctx ob q"

fun call_in_context :: "objects \<Rightarrow> call \<Rightarrow> bool" where
  "call_in_context ob (Create q) = one_context ob q"
| "call_in_context ob (Destroy q) = one_context ob q"
| "call_in_context ob c = True"

lemma orderly_finds:
  "0 < h (Cq_lock c) \<Longrightarrow> (\<forall>w. h (Wq_lock w) = 0) \<Longrightarrow>
   orderly ob h (map (\<lambda>(k, s). Find c k s) es @ p) = orderly ob h p"
  by (induction es) auto

lemma orderly_call:
  assumes "call_in_context ob c" "orderly ob (\<lambda>_. 0) p"
  shows "orderly ob (\<lambda>_. 0) (call_acts ob c @ p)"
proof (cases c)
  case (Poll x es)
  then show ?thesis using assms(2) by (simp add: poll_cq_acts_def orderly_finds)
next
  case (Destroy q)
  then show ?thesis using assms
    by (auto simp: destroy_qp_acts_def lock_cqs_acts_def unlock_cqs_acts_def one_context_def
      fun_upd_twist)
qed (use assms in \<open>auto simp: post_acts_def publish_qp_acts_def one_context_def\<close>)

lemma orderly_calls:
  "\<forall>c \<in> set cs. call_in_context ob c \<Longrightarrow> orderly ob (\<lambda>_. 0) (concat (map (call_acts ob) cs))"
  by (induction cs) (auto intro: orderly_call)

section \<open>What a step changes\<close>

definition next_acts :: "objects \<Rightarrow> threads \<Rightarrow> act \<Rightarrow> act list \<Rightarrow> act list" where
  "next_acts ob s a p =
     (case a of
        Find c k b \<Rightarrow>
          (case t_table s (o_cq_ctx ob c, k) of
             None \<Rightarrow> dropWhile is_find p
           | Some q \<Rightarrow> reap_acts (if b then Sq_wq q else Rq_wq q) @ p)
      | _ \<Rightarrow> p)"

definition next_held :: "act \<Rightarrow> (lock_name \<Rightarrow> nat) \<Rightarrow> lock_name \<Rightarrow> nat" where
  "next_held a h =
     (case a of Enter l \<Rightarrow> h(l := Suc (h l)) | Leave l \<Rightarrow> h(l := h l - 1) | _ \<Rightarrow> h)"

lemma exec_prog: "exec ob t a p s = Goes s' \<Longrightarrow> t_prog s' = (t_prog s)[t := next_acts ob s a p]"
  by (cases a) (auto simp: next_acts_def split: option.splits if_splits)

lemma exec_held:
  "exec ob t a p s = Goes s' \<Longrightarrow> held s' u = (if u = t then next_held a (held s u) else held s u)"
  by (cases a)
    (auto simp: held_def next_held_def enter_depth leave_depth fun_eq_iff split: option.splits if_splits)

lemma exec_crit: "exec ob t a p s = Goes s' \<Longrightarrow> \<forall>l. crit_ok (t_locks s l) \<Longrightarrow> crit_ok (t_locks s' l)"
  by (cases a) (auto intro: enter_ok leave_ok split: option.splits if_splits)

lemma held_exclusive: "0 < held s t l \<Longrightarrow> 0 < held s u l \<Longrightarrow> t = u"
  unfolding held_def by (rule depth_exclusive)

inductive_cases thread_stepE: "thread_step ob s s'"

section \<open>No deadlock\<close>

definition lock_inv :: "objects \<Rightarrow> threads \<Rightarrow> bool" where
  "lock_inv ob s \<longleftrightarrow>
     (\<forall>l. crit_ok (t_locks s l)) \<and>
     (\<forall>t < length (t_prog s). orderly ob (held s t) (t_prog s ! t)) \<and>
     (\<forall>t \<ge> length (t_prog s). held s t = (\<lambda>_. 0))"

lemma orderly_next:
  "orderly ob h (a # p) \<Longrightarrow> orderly ob (next_held a h) (next_acts ob s a p)"
  by (cases a) (auto simp: next_held_def next_acts_def orderly_skip orderly_reap split: option.split)

lemma lock_inv_step:
  assumes "lock_inv ob s" "thread_step ob s s'"
  shows "lock_inv ob s'"
  using assms(2)
proof (rule thread_stepE)
  fix t a p assume t: "t < length (t_prog s)" "t_prog s ! t = a # p" "exec ob t a p s = Goes s'"
  have "orderly ob (held s t) (a # p)" using assms(1) t(1,2) by (auto simp: lock_inv_def)
  then show ?thesis
    using assms(1) t(1) exec_crit [OF t(3)] unfolding lock_inv_def
    by (auto simp: exec_prog [OF t(3)] exec_held [OF t(3)] nth_list_update orderly_next)
qed

text \<open>Whoever is inside a section waits for another one in turn, and in the right order.\<close>

lemma deadlocked_holder:
  assumes inv: "lock_inv ob s" and dead: "deadlocked ob s" and u: "0 < held s u l"
  shows "\<exists>l' v. ok_enter ob (held s u) l' \<and> v \<noteq> u \<and> 0 < held s v l'"
proof -
  have len: "u < length (t_prog s)" using inv u by (fastforce simp: lock_inv_def not_less [symmetric])
  then have ord: "orderly ob (held s u) (t_prog s ! u)" using inv by (simp add: lock_inv_def)
  then obtain a p where ap: "t_prog s ! u = a # p" using u by (cases "t_prog s ! u") auto
  then have "exec ob u a p s = Waits" using dead len by (auto simp: deadlocked_def)
  then obtain l' where a: "a = Enter l'" "EnterCriticalSection u (t_locks s l') = None"
    by (cases a) (auto split: option.splits if_splits)
  obtain v where "v \<noteq> u" "0 < held s v l'"
    using enter_waits [OF _ a(2)] inv by (auto simp: held_def lock_inv_def)
  then show ?thesis using ord ap a(1) by auto
qed

lemma lock_inv_not_deadlocked:
  assumes inv: "lock_inv ob s"
  shows "\<not> deadlocked ob s"
proof
  assume dead: "deadlocked ob s"
  note holder = deadlocked_holder [OF inv dead]
  have wq: "held s u (Wq_lock w) = 0" for u w
  proof (rule ccontr)
    assume "held s u (Wq_lock w) \<noteq> 0"
    then obtain l' where "ok_enter ob (held s u) l'" "held s u (Wq_lock w) \<noteq> 0" using holder by blast
    then show False by (cases l') auto
  qed
  have inside: "\<exists>d v. v \<noteq> u \<and> 0 < held s v (Cq_lock d) \<and> o_cq_ctx ob c = o_cq_ctx ob d \<and>
      0 < held s u (Table_lock (o_cq_ctx ob d))" if h: "0 < held s u (Cq_lock c)" for u c
  proof -
    obtain l' v where *: "ok_enter ob (held s u) l'" "v \<noteq> u" "0 < held s v l'" using holder [OF h] by blast
    then obtain d where d: "l' = Cq_lock d" using h wq [of v] by (cases l') auto
    then have "o_cq_ctx ob c = o_cq_ctx ob d \<and> 0 < held s u (Table_lock (o_cq_ctx ob d))" using * h by simp
    then show ?thesis using * d by blast
  qed
  have cq: "held s u (Cq_lock c) = 0" for u c
  proof (rule ccontr)
    assume "held s u (Cq_lock c) \<noteq> 0"
    then obtain d v where v: "v \<noteq> u" "0 < held s v (Cq_lock d)" "0 < held s u (Table_lock (o_cq_ctx ob d))"
      using inside by blast
    then have "0 < held s v (Table_lock (o_cq_ctx ob d))" using inside [OF v(2)] by auto
    then show False using held_exclusive v(1,3) by blast
  qed
  obtain t a p where t: "t < length (t_prog s)" "t_prog s ! t = a # p"
    using dead by (auto simp: deadlocked_def neq_Nil_conv)
  then have "exec ob t a p s = Waits" using dead by (auto simp: deadlocked_def)
  then obtain l where l: "EnterCriticalSection t (t_locks s l) = None"
    by (cases a) (auto split: option.splits if_splits)
  obtain u where u: "0 < held s u l" using enter_waits [OF _ l] inv by (auto simp: held_def lock_inv_def)
  obtain l' v where v: "ok_enter ob (held s u) l'" "0 < held s v l'" using holder [OF u] by blast
  then show False using u wq cq by (cases l') auto
qed

end
