(* ===== verification/Efa_Concurrency.thy ===== *)
theory Efa_Concurrency
  imports Efa_Threads
begin

text \<open>
  What holds of every interleaving of the calls of \<open>Efa_Threads\<close>, of programs that keep to the rules
  of \<open>calls_ok\<close>: no call touches a queue pair that another thread has freed, no state is a deadlock,
  and every run comes to its end. The code enforces none of the rules. The lock a
  destruction takes on both completion queues is what keeps the polling threads away from the
  queue pair (\<open>efa_poll_sub_cq\<close> relies on it when it reads the table without the table lock); the
  table lock around it is what makes the order of the two harmless.
\<close>

section \<open>Who may mention what\<close>

fun tidy :: "act list \<Rightarrow> bool" where
  "tidy [] \<longleftrightarrow> True"
| "tidy (Unpublish q # p) \<longleftrightarrow> Unpublish q \<notin> set p \<and> tidy p"
| "tidy (Free q # p) \<longleftrightarrow> Unpublish q \<notin> set p \<and> Free q \<notin> set p \<and> tidy p"
| "tidy (_ # p) \<longleftrightarrow> tidy p"

definition dooms :: "ptr \<Rightarrow> act list \<Rightarrow> bool" where
  "dooms q p \<longleftrightarrow> Unpublish q \<in> set p \<or> Free q \<in> set p"

text \<open>The queue pairs that completions in slot \<open>k\<close> of queue \<open>c\<close> may be found for report to \<open>c\<close>.\<close>

definition reports_to :: "objects \<Rightarrow> ptr \<Rightarrow> nat \<Rightarrow> bool" where
  "reports_to ob c k \<longleftrightarrow>
     (\<forall>q. o_qp_ctx ob q = o_cq_ctx ob c \<and> o_slot ob q = k \<longrightarrow> o_send_cq ob q = c \<or> o_recv_cq ob q = c)"

text \<open>\<open>D\<close> holds the queue pairs that are destroyed, each by one call.\<close>

definition role_ok :: "objects \<Rightarrow> ptr set \<Rightarrow> act list \<Rightarrow> bool" where
  "role_ok ob D p \<longleftrightarrow>
     tidy p \<and> (\<forall>c k b. Find c k b \<in> set p \<longrightarrow> reports_to ob c k) \<and>
     (\<forall>q. Publish q \<in> set p \<longrightarrow> q \<notin> D) \<and> (\<forall>q. dooms q p \<longrightarrow> q \<in> D)"

definition roles_inv :: "objects \<Rightarrow> ptr set \<Rightarrow> act list list \<Rightarrow> bool" where
  "roles_inv ob D ps \<longleftrightarrow>
     (\<forall>p \<in> set ps. role_ok ob D p) \<and>
     (\<forall>t < length ps. \<forall>u < length ps. \<forall>q. dooms q (ps ! t) \<and> dooms q (ps ! u) \<longrightarrow> t = u)"

fun is_static :: "act \<Rightarrow> bool" where
  "is_static (Enter l) = False"
| "is_static (Leave l) = False"
| "is_static (Use w) = False"
| "is_static a = True"

lemma next_static: "x \<in> set (next_acts ob s a p) \<Longrightarrow> is_static x \<Longrightarrow> x \<in> set p"
  by (cases a) (auto simp: next_acts_def reap_acts_def dest: set_dropWhileD split: option.splits)

lemma tidy_skip: "tidy p \<Longrightarrow> tidy (dropWhile is_find p)"
  by (induction p rule: tidy.induct) auto

lemma tidy_next: "tidy p \<Longrightarrow> tidy (next_acts ob s a p)"
  by (cases a) (auto simp: next_acts_def reap_acts_def tidy_skip split: option.splits)

lemma tidy_tail: "tidy (a # p) \<Longrightarrow> tidy p"
  by (cases a) auto

lemma dooms_next: "dooms q (next_acts ob s a p) \<Longrightarrow> dooms q (a # p)"
  using next_static [of _ ob s a p] by (auto simp: dooms_def)

lemma role_ok_next:
  assumes "role_ok ob D (a # p)"
  shows "role_ok ob D (next_acts ob s a p)"
proof -
  have "tidy (next_acts ob s a p)" using assms by (auto simp: role_ok_def intro: tidy_next dest: tidy_tail)
  moreover have "Find c k b \<in> set (a # p)" if "Find c k b \<in> set (next_acts ob s a p)" for c k b
    using next_static [OF that] by simp
  moreover have "Publish q \<in> set (a # p)" if "Publish q \<in> set (next_acts ob s a p)" for q
    using next_static [OF that] by simp
  ultimately show ?thesis using assms dooms_next unfolding role_ok_def by blast
qed

lemma roles_inv_step:
  assumes inv: "roles_inv ob D (t_prog s)" and step: "thread_step ob s s'"
  shows "roles_inv ob D (t_prog s')"
  using step
proof (rule thread_stepE)
  fix t a p assume t: "t < length (t_prog s)" "t_prog s ! t = a # p" "exec ob t a p s = Goes s'"
  let ?n = "next_acts ob s a p"
  have "a # p \<in> set (t_prog s)" using t(1,2) nth_mem by fastforce
  then have new: "role_ok ob D ?n" using inv role_ok_next unfolding roles_inv_def by blast
  have old: "dooms q (t_prog s ! u)" if "dooms q ((t_prog s)[t := ?n] ! u)" for q u
    using that t(1,2) dooms_next by (cases "u = t") auto
  have "\<forall>p \<in> set ((t_prog s)[t := ?n]). role_ok ob D p"
    using new inv set_update_subset_insert [of "t_prog s" t ?n] unfolding roles_inv_def by blast
  moreover have "\<forall>u < length (t_prog s). \<forall>v < length (t_prog s). \<forall>q.
      dooms q ((t_prog s)[t := ?n] ! u) \<and> dooms q ((t_prog s)[t := ?n] ! v) \<longrightarrow> u = v"
    using inv old unfolding roles_inv_def by blast
  ultimately show ?thesis unfolding roles_inv_def exec_prog [OF t(3)] by simp
qed

section \<open>Who may touch what\<close>

definition holds_cq_of :: "objects \<Rightarrow> (lock_name \<Rightarrow> nat) \<Rightarrow> ptr \<Rightarrow> bool" where
  "holds_cq_of ob h q \<longleftrightarrow> 0 < h (Cq_lock (o_send_cq ob q)) \<or> 0 < h (Cq_lock (o_recv_cq ob q))"

text \<open>
  A thread about to touch a queue pair of \<open>D\<close> found it in the table, is inside one of its completion
  queues, and is at the completion it found it for.
\<close>

definition refs_ok :: "objects \<Rightarrow> ptr set \<Rightarrow> (lock_name \<Rightarrow> nat) \<Rightarrow> act list \<Rightarrow> bool" where
  "refs_ok ob D h p \<longleftrightarrow>
     (\<exists>w pre rest. p = pre @ rest \<and> set pre \<subseteq> {Enter (Wq_lock w), Use w, Leave (Wq_lock w)} \<and>
        (pre \<noteq> [] \<longrightarrow> wq_owner w \<in> D \<longrightarrow> holds_cq_of ob h (wq_owner w)) \<and>
        (\<forall>v. Use v \<in> set rest \<longrightarrow> wq_owner v \<notin> D))"

definition uses :: "ptr \<Rightarrow> act list \<Rightarrow> bool" where
  "uses q p \<longleftrightarrow> (\<exists>w. wq_owner w = q \<and> Use w \<in> set p)"

definition mem_inv :: "objects \<Rightarrow> ptr set \<Rightarrow> threads \<Rightarrow> bool" where
  "mem_inv ob D s \<longleftrightarrow>
     (\<forall>x k q. t_table s (x, k) = Some q \<longrightarrow> o_qp_ctx ob q = x \<and> o_slot ob q = k) \<and>
     (\<forall>t < length (t_prog s). refs_ok ob D (held s t) (t_prog s ! t)) \<and>
     (\<forall>q \<in> D. (\<forall>p \<in> set (t_prog s). Unpublish q \<notin> set p) \<longrightarrow>
        (\<forall>i. t_table s i \<noteq> Some q) \<and> (\<forall>p \<in> set (t_prog s). \<not> uses q p)) \<and>
     (\<forall>q \<in> t_freed s. q \<in> D \<and> (\<forall>p \<in> set (t_prog s). \<not> dooms q p))"

lemma refs_ok_uses: "refs_ok ob D h p \<Longrightarrow> uses q p \<Longrightarrow> q \<in> D \<Longrightarrow> holds_cq_of ob h q"
  by (fastforce simp: refs_ok_def uses_def)

lemma refs_ok_head:
  "refs_ok ob D h (a # p) \<Longrightarrow> is_static a \<Longrightarrow> Use v \<in> set p \<Longrightarrow> wq_owner v \<notin> D"
  by (auto simp: refs_ok_def Cons_eq_append_conv)

lemma next_uses:
  "uses q (next_acts ob s a p) \<Longrightarrow>
   uses q p \<or> (\<exists>c k b. a = Find c k b \<and> t_table s (o_cq_ctx ob c, k) = Some q)"
  by (cases a)
    (auto simp: next_acts_def reap_acts_def uses_def dest: set_dropWhileD split: option.splits if_splits)

lemma uses_tail: "uses q p \<Longrightarrow> uses q (a # p)"
  by (auto simp: uses_def)

lemma refs_ok_static:
  "\<forall>v. Use v \<in> set p \<longrightarrow> wq_owner v \<notin> D \<Longrightarrow> refs_ok ob D h p"
  unfolding refs_ok_def by (rule exI, rule exI [of _ "[]"], rule exI [of _ p]) simp

text \<open>The step of the thread itself keeps its references good.\<close>

lemma refs_ok_next:
  assumes ref: "refs_ok ob D h (a # p)" and ord: "orderly ob h (a # p)"
    and rep: "\<And>c k b. a = Find c k b \<Longrightarrow> reports_to ob c k"
    and tab: "\<forall>x k q. t_table s (x, k) = Some q \<longrightarrow> o_qp_ctx ob q = x \<and> o_slot ob q = k"
  shows "refs_ok ob D (next_held a h) (next_acts ob s a p)"
proof (cases "is_static a")
  case st: True
  have p: "\<forall>v. Use v \<in> set p \<longrightarrow> wq_owner v \<notin> D" using refs_ok_head [OF ref st] by blast
  show ?thesis
  proof (cases "\<exists>c k b q. a = Find c k b \<and> t_table s (o_cq_ctx ob c, k) = Some q")
    case True
    then obtain c k b q where a: "a = Find c k b" "t_table s (o_cq_ctx ob c, k) = Some q" by blast
    define w where "w = (if b then Sq_wq q else Rq_wq q)"
    have "o_send_cq ob q = c \<or> o_recv_cq ob q = c"
      using rep [OF a(1)] tab a(2) by (auto simp: reports_to_def)
    then have "holds_cq_of ob h (wq_owner w)" using ord a(1) by (auto simp: holds_cq_of_def w_def)
    then have "refs_ok ob D h (reap_acts w @ p)"
      unfolding refs_ok_def reap_acts_def using p
      by (intro exI [of _ w] exI [of _ "[Use w, Enter (Wq_lock w), Use w, Leave (Wq_lock w)]"] exI [of _ p]) simp
    then show ?thesis using a by (simp add: next_acts_def next_held_def w_def)
  next
    case False
    have "wq_owner v \<notin> D" if "Use v \<in> set (next_acts ob s a p)" for v
    proof -
      have "uses (wq_owner v) (next_acts ob s a p)" using that by (auto simp: uses_def)
      then have "uses (wq_owner v) p" using next_uses False by blast
      then show ?thesis using p by (auto simp: uses_def)
    qed
    then have "\<forall>v. Use v \<in> set (next_acts ob s a p) \<longrightarrow> wq_owner v \<notin> D" by blast
    then show ?thesis by (rule refs_ok_static)
  qed
next
  case False
  then have n: "next_acts ob s a p = p" by (cases a) (simp_all add: next_acts_def)
  obtain w pre rest where r: "a # p = pre @ rest"
      "set pre \<subseteq> {Enter (Wq_lock w), Use w, Leave (Wq_lock w)}"
      "pre \<noteq> [] \<longrightarrow> wq_owner w \<in> D \<longrightarrow> holds_cq_of ob h (wq_owner w)"
      "\<forall>v. Use v \<in> set rest \<longrightarrow> wq_owner v \<notin> D"
    using ref unfolding refs_ok_def by blast
  show ?thesis
  proof (cases pre)
    case Nil
    then have "rest = a # p" using r(1) by simp
    then show ?thesis using r(4) n by (intro refs_ok_static) simp
  next
    case (Cons b pre')
    then have p: "p = pre' @ rest" "a \<in> {Enter (Wq_lock w), Use w, Leave (Wq_lock w)}" using r(1,2) by auto
    then have "holds_cq_of ob (next_held a h) q = holds_cq_of ob h q" for q
      by (auto simp: holds_cq_of_def next_held_def)
    then show ?thesis
      unfolding refs_ok_def n using r(2-4) Cons p(1)
      by (intro exI [of _ w] exI [of _ pre'] exI [of _ rest]) auto
  qed
qed

lemma exec_table:
  "exec ob t a p s = Goes s' \<Longrightarrow> t_table s' =
     (case a of
        Publish q \<Rightarrow> (t_table s)((o_qp_ctx ob q, o_slot ob q) := Some q)
      | Unpublish q \<Rightarrow> (t_table s)((o_qp_ctx ob q, o_slot ob q) := None)
      | _ \<Rightarrow> t_table s)"
  by (cases a) (auto split: option.splits if_splits)

lemma exec_freed:
  "exec ob t a p s = Goes s' \<Longrightarrow>
   t_freed s' = (case a of Free q \<Rightarrow> insert q (t_freed s) | _ \<Rightarrow> t_freed s)"
  by (cases a) (auto split: option.splits if_splits)

definition gone :: "ptr \<Rightarrow> act list list \<Rightarrow> bool" where
  "gone q ps \<longleftrightarrow> (\<forall>p \<in> set ps. Unpublish q \<notin> set p)"

lemma gone_nth: "gone q ps \<longleftrightarrow> (\<forall>u < length ps. Unpublish q \<notin> set (ps ! u))"
  by (auto simp: gone_def all_set_conv_all_nth)

lemma kept_by_next: "Unpublish q \<in> set p \<Longrightarrow> Unpublish q \<in> set (next_acts ob s a p)"
proof -
  assume *: "Unpublish q \<in> set p"
  then have "Unpublish q \<in> set (dropWhile is_find p)" by (induction p) auto
  with * show ?thesis by (cases a) (auto simp: next_acts_def split: option.split)
qed

text \<open>A queue pair leaves the table by the step that takes it out.\<close>

lemma gone_by_unpublish:
  assumes "t_prog s ! t = a # p" "t_prog s' = (t_prog s)[t := next_acts ob s a p]"
    and "t < length (t_prog s)" "\<not> gone q (t_prog s)" "gone q (t_prog s')"
  shows "a = Unpublish q"
proof -
  obtain u where u: "u < length (t_prog s)" "Unpublish q \<in> set (t_prog s ! u)"
    using assms(4) by (auto simp: gone_nth)
  have no: "Unpublish q \<notin> set (t_prog s' ! u)" using assms(2,5) u(1) by (simp add: gone_nth)
  then have "u = t" using assms(2,3) u by (cases "u = t") auto
  then show ?thesis using no assms(1-3) u(2) kept_by_next [of q p ob s a] by auto
qed

text \<open>When a queue pair is taken out, nobody else can be at one of its completions.\<close>

lemma unpublish_alone:
  assumes "lock_inv ob s" "t < length (t_prog s)" "t_prog s ! t = Unpublish q # p" "q \<in> D"
    and refs: "\<forall>t < length (t_prog s). refs_ok ob D (held s t) (t_prog s ! t)"
    and u: "u < length (t_prog s)" "uses q ((t_prog s)[t := p] ! u)"
  shows False
proof (cases "u = t")
  case True
  have "refs_ok ob D (held s t) (Unpublish q # p)" using refs assms(2,3) by metis
  then show False using refs_ok_head u True assms(2,4) by (fastforce simp: uses_def)
next
  case False
  then have "uses q (t_prog s ! u)" using u(2) by simp
  then have "holds_cq_of ob (held s u) q" using refs u(1) assms(4) refs_ok_uses by blast
  moreover have "orderly ob (held s t) (Unpublish q # p)" using assms(1-3) by (auto simp: lock_inv_def)
  ultimately show False using held_exclusive False by (auto simp: holds_cq_of_def)
qed

lemma mem_inv_gone:
  assumes t: "t < length (t_prog s)" "t_prog s ! t = a # p" "exec ob t a p s = Goes s'"
    and lock: "lock_inv ob s" and roles: "roles_inv ob D (t_prog s)" and mem: "mem_inv ob D s"
    and q: "q \<in> D" "gone q (t_prog s')"
  shows "(\<forall>i. t_table s' i \<noteq> Some q) \<and> (\<forall>u < length (t_prog s). \<not> uses q (t_prog s' ! u))"
proof (cases "gone q (t_prog s)")
  case True
  then have old: "\<forall>i. t_table s i \<noteq> Some q" "\<forall>u < length (t_prog s). \<not> uses q (t_prog s ! u)"
    using mem q(1) by (auto simp: mem_inv_def gone_def)
  have in_set: "a # p \<in> set (t_prog s)" using t(1,2) nth_mem by fastforce
  have "a \<noteq> Publish q" using roles in_set q(1) by (auto simp: roles_inv_def role_ok_def)
  then have "\<forall>i. t_table s' i \<noteq> Some q" using old(1) by (cases a) (auto simp: exec_table [OF t(3)])
  moreover have "\<not> uses q (next_acts ob s a p)"
    using old t(1,2) next_uses uses_tail by (metis (no_types))
  then have "\<forall>u < length (t_prog s). \<not> uses q (t_prog s' ! u)"
    using old(2) t(1) by (simp add: exec_prog [OF t(3)] nth_list_update)
  ultimately show ?thesis by blast
next
  case False
  have a: "a = Unpublish q" by (rule gone_by_unpublish [OF t(2) exec_prog [OF t(3)] t(1) False q(2)])
  have tab: "\<forall>x k r. t_table s (x, k) = Some r \<longrightarrow> o_qp_ctx ob r = x \<and> o_slot ob r = k"
    and refs: "\<forall>t < length (t_prog s). refs_ok ob D (held s t) (t_prog s ! t)"
    using mem by (simp_all add: mem_inv_def)
  have "\<forall>i. t_table s' i \<noteq> Some q" using tab by (auto simp: exec_table [OF t(3)] a)
  moreover have "t_prog s' = (t_prog s)[t := p]" by (simp add: exec_prog [OF t(3)] a next_acts_def)
  ultimately show ?thesis using unpublish_alone [OF lock t(1) _ q(1) refs] t(2) a by auto
qed

lemma mem_inv_freed:
  assumes t: "t < length (t_prog s)" "t_prog s ! t = a # p" "exec ob t a p s = Goes s'"
    and roles: "roles_inv ob D (t_prog s)" and mem: "mem_inv ob D s" and q: "q \<in> t_freed s'"
  shows "q \<in> D \<and> (\<forall>u < length (t_prog s). \<not> dooms q (t_prog s' ! u))"
proof (cases "q \<in> t_freed s")
  case True
  then have "q \<in> D" "\<forall>u < length (t_prog s). \<not> dooms q (t_prog s ! u)"
    using mem by (auto simp: mem_inv_def)
  then show ?thesis using dooms_next t(1,2) by (auto simp: exec_prog [OF t(3)] nth_list_update)
next
  case False
  then have a: "a = Free q" using q by (cases a) (auto simp: exec_freed [OF t(3)])
  have in_set: "a # p \<in> set (t_prog s)" using t(1,2) nth_mem by fastforce
  have d: "dooms q (a # p)" using a by (simp add: dooms_def)
  have "role_ok ob D (a # p)" using roles in_set by (auto simp: roles_inv_def)
  then have "q \<in> D" "\<not> dooms q p" using d a by (auto simp: role_ok_def dooms_def)
  moreover have "\<not> dooms q (t_prog s ! u)" if "u < length (t_prog s)" "u \<noteq> t" for u
    using roles that t(1,2) d unfolding roles_inv_def by metis
  ultimately show ?thesis using t(1) by (auto simp: exec_prog [OF t(3)] nth_list_update a next_acts_def)
qed

lemma mem_inv_step:
  assumes "lock_inv ob s" "roles_inv ob D (t_prog s)" "mem_inv ob D s" "thread_step ob s s'"
  shows "mem_inv ob D s'"
  using assms(4)
proof (rule thread_stepE)
  fix t a p assume t: "t < length (t_prog s)" "t_prog s ! t = a # p" "exec ob t a p s = Goes s'"
  have len: "length (t_prog s') = length (t_prog s)" by (simp add: exec_prog [OF t(3)])
  have in_set: "a # p \<in> set (t_prog s)" using t(1,2) nth_mem by fastforce
  have tab: "\<forall>x k r. t_table s (x, k) = Some r \<longrightarrow> o_qp_ctx ob r = x \<and> o_slot ob r = k"
    and refs: "\<forall>t < length (t_prog s). refs_ok ob D (held s t) (t_prog s ! t)"
    using assms(3) by (simp_all add: mem_inv_def)
  have tab': "\<forall>x k r. t_table s' (x, k) = Some r \<longrightarrow> o_qp_ctx ob r = x \<and> o_slot ob r = k"
    using tab by (cases a) (auto simp: exec_table [OF t(3)])
  have "refs_ok ob D (next_held a (held s t)) (next_acts ob s a p)"
  proof (rule refs_ok_next [OF _ _ _ tab])
    show "refs_ok ob D (held s t) (a # p)" using refs t(1,2) by metis
    show "orderly ob (held s t) (a # p)" using assms(1) t(1,2) by (auto simp: lock_inv_def)
    show "\<And>c k b. a = Find c k b \<Longrightarrow> reports_to ob c k"
      using assms(2) in_set unfolding roles_inv_def role_ok_def by (metis list.set_intros(1))
  qed
  then have refs': "\<forall>u < length (t_prog s'). refs_ok ob D (held s' u) (t_prog s' ! u)"
    using refs len by (auto simp: exec_held [OF t(3)] exec_prog [OF t(3)] nth_list_update)
  show ?thesis
    unfolding mem_inv_def gone_def [symmetric] all_set_conv_all_nth [of "t_prog s'"] len
    using tab' refs' len mem_inv_gone [OF t assms(1-3)] mem_inv_freed [OF t assms(2,3)] by auto
qed

section \<open>The calls of a program\<close>

fun destroyed :: "call list \<Rightarrow> ptr list" where
  "destroyed [] = []"
| "destroyed (Destroy q # cs) = q # destroyed cs"
| "destroyed (_ # cs) = destroyed cs"

text \<open>
  The rules the library relies on and does not check: the completion queues of a queue pair that is
  created or destroyed belong to its context; every queue pair is destroyed by at most one call;
  nobody posts to a queue pair that some call destroys, nor creates it; a completion names a slot
  whose queue pairs, in the context, report to the queue the completion is in. A polling session is
  one call: it is not interrupted by another call of its thread.
\<close>

fun call_ok :: "objects \<Rightarrow> ptr set \<Rightarrow> call \<Rightarrow> bool" where
  "call_ok ob D (Post w) \<longleftrightarrow> wq_owner w \<notin> D"
| "call_ok ob D (Poll c es) \<longleftrightarrow> (\<forall>(k, b) \<in> set es. reports_to ob c k)"
| "call_ok ob D (Create q) \<longleftrightarrow> one_context ob q \<and> q \<notin> D"
| "call_ok ob D (Destroy q) \<longleftrightarrow> one_context ob q"

definition calls_ok :: "objects \<Rightarrow> call list list \<Rightarrow> bool" where
  "calls_ok ob cs \<longleftrightarrow>
     distinct (destroyed (concat cs)) \<and>
     (\<forall>c \<in> set (concat cs). call_ok ob (set (destroyed (concat cs))) c)"

definition table_ok :: "objects \<Rightarrow> (ptr \<times> nat \<Rightarrow> ptr option) \<Rightarrow> bool" where
  "table_ok ob tab \<longleftrightarrow> (\<forall>x k q. tab (x, k) = Some q \<longrightarrow> o_qp_ctx ob q = x \<and> o_slot ob q = k)"

lemma destroyed_append [simp]: "destroyed (cs @ ds) = destroyed cs @ destroyed ds"
  by (induction cs rule: destroyed.induct) auto

lemma destroyed_set: "q \<in> set (destroyed cs) \<longleftrightarrow> Destroy q \<in> set cs"
  by (induction cs rule: destroyed.induct) auto

lemmas call_acts_defs = post_acts_def poll_cq_acts_def publish_qp_acts_def destroy_qp_acts_def
  lock_cqs_acts_def unlock_cqs_acts_def

lemma call_mentions:
  "Unpublish q \<in> set (call_acts ob c) \<longleftrightarrow> c = Destroy q"
  "Free q \<in> set (call_acts ob c) \<longleftrightarrow> c = Destroy q"
  "Publish q \<in> set (call_acts ob c) \<longleftrightarrow> c = Create q"
  "Use w \<in> set (call_acts ob c) \<longleftrightarrow> c = Post w"
  "Find x k b \<in> set (call_acts ob c) \<longleftrightarrow> (\<exists>es. c = Poll x es \<and> (k, b) \<in> set es)"
  by (cases c; auto simp: call_acts_defs)+

lemma dooms_one: "dooms q (call_acts ob c) \<longleftrightarrow> c = Destroy q"
  by (auto simp: dooms_def call_mentions)

lemma dooms_call: "dooms q (concat (map (call_acts ob) cs)) \<longleftrightarrow> q \<in> set (destroyed cs)"
  by (auto simp: dooms_def call_mentions destroyed_set)

lemma tidy_append: "tidy p \<Longrightarrow> (\<And>q. dooms q a \<Longrightarrow> \<not> dooms q p) \<Longrightarrow> tidy a \<Longrightarrow> tidy (a @ p)"
  by (induction a rule: tidy.induct) (auto simp: dooms_def)

lemma tidy_call: "tidy (call_acts ob c)"
proof -
  have "tidy (map (\<lambda>(k, s). Find x k s) es @ [Leave l])" for x es l by (induction es) auto
  then show ?thesis by (cases c) (auto simp: call_acts_defs)
qed

lemma tidy_calls: "distinct (destroyed cs) \<Longrightarrow> tidy (concat (map (call_acts ob) cs))"
proof (induction cs)
  case (Cons c cs)
  then have "distinct (destroyed cs)" by (cases c) auto
  moreover have "\<not> dooms q (concat (map (call_acts ob) cs))" if "dooms q (call_acts ob c)" for q
    using that Cons.prems by (auto simp: dooms_call dooms_one)
  ultimately show ?case using Cons.IH by (simp add: tidy_append tidy_call)
qed simp

lemma destroyed_once:
  "distinct (destroyed (concat cs)) \<Longrightarrow> t < length cs \<Longrightarrow> u < length cs \<Longrightarrow>
   q \<in> set (destroyed (cs ! t)) \<Longrightarrow> q \<in> set (destroyed (cs ! u)) \<Longrightarrow> t = u"
proof (induction cs arbitrary: t u)
  case (Cons c cs)
  have "q \<in> set (destroyed (concat cs))" if "v < length cs" "q \<in> set (destroyed (cs ! v))" for v
    using that nth_mem by (fastforce simp: destroyed_set)
  with Cons show ?case by (cases t; cases u) auto
qed simp

lemma start_roles:
  assumes "calls_ok ob cs"
  shows "roles_inv ob (set (destroyed (concat cs))) (t_prog (start_threads ob tab cs))"
proof -
  have c_ok: "call_ok ob (set (destroyed (concat cs))) c" if "ds \<in> set cs" "c \<in> set ds" for ds c
    using assms that by (auto simp: calls_ok_def)
  have "tidy (concat (map (call_acts ob) ds))" if "ds \<in> set cs" for ds
  proof (rule tidy_calls)
    from split_list [OF that] obtain as bs where "cs = as @ ds # bs" by blast
    then show "distinct (destroyed ds)" using assms by (simp add: calls_ok_def)
  qed
  then have "role_ok ob (set (destroyed (concat cs))) (concat (map (call_acts ob) ds))" if "ds \<in> set cs" for ds
    using that c_ok [OF that] unfolding role_ok_def dooms_call
    by (fastforce simp: call_mentions destroyed_set)
  moreover have "t = u" if "t < length cs" "u < length cs"
    "dooms q (concat (map (call_acts ob) (cs ! t)))" "dooms q (concat (map (call_acts ob) (cs ! u)))" for q t u
    using that destroyed_once [of cs t u q] assms by (simp add: dooms_call calls_ok_def)
  ultimately show ?thesis by (auto simp: roles_inv_def start_threads_def)
qed

lemma call_ok_context: "call_ok ob D c \<Longrightarrow> call_in_context ob c"
  by (cases c) auto

lemma start_locks:
  assumes "calls_ok ob cs"
  shows "lock_inv ob (start_threads ob tab cs)"
proof -
  have "call_in_context ob c" if "c \<in> set (concat cs)" for c
    using assms that call_ok_context unfolding calls_ok_def by blast
  then have "orderly ob (\<lambda>_. 0) (concat (map (call_acts ob) (cs ! t)))" if "t < length cs" for t
    using that by (intro orderly_calls) (auto intro: nth_mem)
  moreover have "held (start_threads ob tab cs) t = (\<lambda>_. 0)" for t
    by (simp add: held_def start_threads_def fun_eq_iff)
  ultimately show ?thesis by (simp add: lock_inv_def) (simp add: start_threads_def crit_ok_def)
qed

lemma start_mem:
  assumes "calls_ok ob cs" "table_ok ob tab"
  shows "mem_inv ob (set (destroyed (concat cs))) (start_threads ob tab cs)"
proof -
  let ?D = "set (destroyed (concat cs))"
  have "refs_ok ob ?D h (concat (map (call_acts ob) ds))" if "ds \<in> set cs" for ds h
    using assms(1) that by (intro refs_ok_static) (fastforce simp: calls_ok_def call_mentions)
  moreover have "\<exists>ds \<in> set cs. \<exists>c \<in> set ds. Unpublish q \<in> set (call_acts ob c)" if "q \<in> ?D" for q
    using that by (auto simp: destroyed_set call_mentions)
  ultimately show ?thesis using assms(2)
    by (fastforce simp: mem_inv_def start_threads_def table_ok_def)
qed

definition run_inv :: "objects \<Rightarrow> ptr set \<Rightarrow> threads \<Rightarrow> bool" where
  "run_inv ob D s \<longleftrightarrow> lock_inv ob s \<and> roles_inv ob D (t_prog s) \<and> mem_inv ob D s"

lemma run_inv_reachable:
  assumes "calls_ok ob cs" "table_ok ob tab" "(thread_step ob)\<^sup>*\<^sup>* (start_threads ob tab cs) s"
  shows "run_inv ob (set (destroyed (concat cs))) s"
  using assms(3)
proof (induction rule: rtranclp_induct)
  case base
  then show ?case using assms start_locks start_roles start_mem by (simp add: run_inv_def)
next
  case (step s s')
  then show ?case using lock_inv_step roles_inv_step mem_inv_step unfolding run_inv_def by blast
qed

section \<open>Every run ends\<close>

fun weight :: "act \<Rightarrow> nat" where
  "weight (Find c k b) = 5"
| "weight a = 1"

definition work :: "act list list \<Rightarrow> nat" where
  "work ps = sum_list (map (\<lambda>p. sum_list (map weight p)) ps)"

lemma weight_skip: "sum_list (map weight (dropWhile is_find p)) \<le> sum_list (map weight p)"
  by (induction p) auto

lemma weight_next: "sum_list (map weight (next_acts ob s a p)) < sum_list (map weight (a # p))"
  using weight_skip [of p]
  by (cases a) (auto simp: next_acts_def reap_acts_def split: option.split)

lemma work_update:
  "t < length ps \<Longrightarrow> ps ! t = q \<Longrightarrow> sum_list (map weight p) < sum_list (map weight q) \<Longrightarrow> work (ps[t := p]) < work ps"
proof (induction ps arbitrary: t)
  case (Cons x ps)
  then show ?case by (cases t) (auto simp: work_def)
qed simp

lemma step_work: "thread_step ob s s' \<Longrightarrow> work (t_prog s') < work (t_prog s)"
  by (erule thread_stepE) (auto simp: exec_prog intro: work_update weight_next)

lemma steps_work: "(thread_step ob ^^ n) s s' \<Longrightarrow> work (t_prog s') + n \<le> work (t_prog s)"
proof (induction n arbitrary: s')
  case (Suc n)
  then obtain s1 where "(thread_step ob ^^ n) s s1" "thread_step ob s1 s'" by auto
  then show ?case using Suc.IH step_work by fastforce
qed simp

definition all_done :: "threads \<Rightarrow> bool" where
  "all_done s \<longleftrightarrow> (\<forall>p \<in> set (t_prog s). p = []) \<and> (\<forall>l. t_locks s l = None)"

text \<open>The next action of every thread is defined: it runs or waits.\<close>

definition all_defined :: "objects \<Rightarrow> threads \<Rightarrow> bool" where
  "all_defined ob s \<longleftrightarrow>
     (\<forall>t < length (t_prog s). \<forall>a p. t_prog s ! t = a # p \<longrightarrow> exec ob t a p s \<noteq> Undefined)"

lemma run_inv_defined:
  assumes "run_inv ob D s"
  shows "all_defined ob s"
  unfolding all_defined_def
proof (intro allI impI)
  fix t a p assume t: "t < length (t_prog s)" "t_prog s ! t = a # p"
  have in_set: "a # p \<in> set (t_prog s)" using t nth_mem by fastforce
  have ord: "orderly ob (held s t) (a # p)" using assms t by (auto simp: run_inv_def lock_inv_def)
  have freed: "q \<in> D \<and> \<not> dooms q (a # p) \<and> \<not> uses q (a # p)" if "q \<in> t_freed s" for q
  proof -
    have "q \<in> D" "\<forall>p \<in> set (t_prog s). \<not> dooms q p" using assms that by (auto simp: run_inv_def mem_inv_def)
    then show ?thesis using assms in_set unfolding run_inv_def mem_inv_def dooms_def by blast
  qed
  show "exec ob t a p s \<noteq> Undefined"
  proof (cases a)
    case (Leave l)
    then have "LeaveCriticalSection t (t_locks s l) \<noteq> None" using ord by (simp add: leave_defined held_def)
    then show ?thesis using Leave by auto
  next
    case (Use w)
    then show ?thesis using freed [of "wq_owner w"] by (auto simp: uses_def)
  next
    case (Free q)
    then show ?thesis using freed [of q] by (auto simp: dooms_def)
  qed (auto split: option.split)
qed

lemma run_inv_progress:
  assumes inv: "run_inv ob D s" and stuck: "\<nexists>s'. thread_step ob s s'"
  shows "all_done s"
proof -
  have lock: "lock_inv ob s" using inv by (simp add: run_inv_def)
  have "exec ob t a p s = Waits" if "t < length (t_prog s)" "t_prog s ! t = a # p" for t a p
    using that run_inv_defined [OF inv] stuck thread_step.intros [OF that, of ob]
    by (cases "exec ob t a p s") (simp_all add: all_defined_def)
  then have "\<forall>t < length (t_prog s). case t_prog s ! t of [] \<Rightarrow> True | a # p \<Rightarrow> exec ob t a p s = Waits"
    by (auto split: list.split)
  then have idle: "\<forall>t < length (t_prog s). t_prog s ! t = []"
    using lock_inv_not_deadlocked [OF lock] unfolding deadlocked_def by blast
  then have "held s t = (\<lambda>_. 0)" for t
    using lock unfolding lock_inv_def by (metis not_le orderly.simps(1))
  then have "t_locks s l = None" for l
    using lock crit_free unfolding lock_inv_def held_def by metis
  then show ?thesis using idle by (auto simp: all_done_def in_set_conv_nth)
qed


text \<open>
  C8: threads that keep to the rules of \<open>calls_ok\<close> do not deadlock. In every state that can be
  reached some thread can go on, unless all are done; every run from there is at most as long as the
  work that is left; and when no thread can go on, all have finished and every lock is free.
  \<open>efa_destroy_qp\<close> takes the locks of two completion queues in an order of its own, and two
  destructions may take them in opposite orders; when the queues are in the context of the queue
  pair, as the rules say, the table lock of that context around them makes this harmless. Without
  that rule, or with a destruction inside a polling session of the same thread, there are
  deadlocks: see \<open>Efa_Crossed\<close> and \<open>destroy_in_session_deadlocks\<close>.
\<close>

theorem concurrent_calls_finish:
  assumes "calls_ok ob cs" "table_ok ob tab"
    and "(thread_step ob)\<^sup>*\<^sup>* (start_threads ob tab cs) s"
  shows "\<not> deadlocked ob s \<and> (\<forall>n s'. (thread_step ob ^^ n) s s' \<longrightarrow> n \<le> work (t_prog s)) \<and>
    ((\<nexists>s'. thread_step ob s s') \<longrightarrow> all_done s)"
proof -
  have inv: "run_inv ob (set (destroyed (concat cs))) s" by (rule run_inv_reachable [OF assms])
  have "n \<le> work (t_prog s)" if "(thread_step ob ^^ n) s s'" for n s'
    using steps_work [OF that] by simp
  then show ?thesis
    using run_inv_progress [OF inv] inv lock_inv_not_deadlocked by (auto simp: run_inv_def)
qed

text \<open>
  Two queue pairs of one context that use the same two completion queues the other way round, and
  a thread that polls one of them.
\<close>

definition ex_crossed :: "(ptr \<Rightarrow> ptr) \<Rightarrow> objects" where
  "ex_crossed x =
     \<lparr>o_qp_ctx = x, o_cq_ctx = (\<lambda>c. if c = 10 then x 1 else x 2),
      o_send_cq = (\<lambda>q. if q = 1 then 10 else 11), o_recv_cq = (\<lambda>q. if q = 1 then 11 else 10),
      o_slot = id\<rparr>"

definition ex_table :: "(ptr \<Rightarrow> ptr) \<Rightarrow> ptr \<times> nat \<Rightarrow> ptr option" where
  "ex_table x = [(x 1, 1) \<mapsto> 1, (x 2, 2) \<mapsto> 2]"

definition ex_calls :: "call list list" where
  "ex_calls = [[Destroy 1], [Destroy 2], [Poll 10 [(1, True), (2, False)]], [Post (Sq_wq 3)]]"

lemma ex_calls_ok: "calls_ok (ex_crossed (\<lambda>_. 5)) ex_calls" "table_ok (ex_crossed (\<lambda>_. 5)) (ex_table (\<lambda>_. 5))"
  by (auto simp: calls_ok_def ex_calls_def ex_crossed_def one_context_def reports_to_def table_ok_def
    ex_table_def)

lemmas schedule_simps = start_threads_def call_acts_defs reap_acts_def ex_crossed_def ex_table_def ex_calls_def

text \<open>
  The polling thread is at a completion of queue pair 1 when the first thread comes to its destruction.
\<close>

definition ex_schedule :: "tid list" where
  "ex_schedule = [2, 2, 0, 0]"

lemma ex_schedule_runs:
  "\<exists>s. run_schedule (ex_crossed (\<lambda>_. 5)) ex_schedule
       (start_threads (ex_crossed (\<lambda>_. 5)) (ex_table (\<lambda>_. 5)) ex_calls) = Some s \<and>
     t_prog s ! 2 = reap_acts (Sq_wq 1) @ [Find 10 2 False, Leave (Cq_lock 10)] \<and>
     hd (t_prog s ! 0) = Enter (Cq_lock 10) \<and> exec (ex_crossed (\<lambda>_. 5)) 0 (Enter (Cq_lock 10)) [] s = Waits"
  by (simp add: ex_schedule_def schedule_simps)

lemma all_less_two: "(\<forall>t < Suc (Suc 0). P t) \<longleftrightarrow> P 0 \<and> P 1"
  by (auto simp: less_Suc_eq)

lemma ex_less_two: "(\<exists>t < Suc (Suc 0). P t) \<longleftrightarrow> P 0 \<or> P 1"
  by (auto simp: less_Suc_eq)


theorem concurrent_calls_finish_witness:
  "\<exists>s. run_schedule (ex_crossed (\<lambda>_. 5)) ex_schedule
       (start_threads (ex_crossed (\<lambda>_. 5)) (ex_table (\<lambda>_. 5)) ex_calls) = Some s \<and>
     exec (ex_crossed (\<lambda>_. 5)) 0 (Enter (Cq_lock 10)) [] s = Waits \<and>
     \<not> deadlocked (ex_crossed (\<lambda>_. 5)) s"
  using ex_schedule_runs concurrent_calls_finish [OF ex_calls_ok] run_schedule_steps by blast

section \<open>Where the conditions matter\<close>

text \<open>
  Two queue pairs whose contexts differ and that use the same two completion queues the other way
  round: their destructions can block each other. Each is inside the table lock of its own context
  and the lock of one of the queues.
\<close>

lemma crossed_deadlock:
  assumes "o_qp_ctx ob p = x" "o_qp_ctx ob q = y" "x \<noteq> y"
    and "o_send_cq ob p = a" "o_recv_cq ob p = b" "o_send_cq ob q = b" "o_recv_cq ob q = a" "a \<noteq> b"
  shows "\<exists>s. (thread_step ob)\<^sup>*\<^sup>* (start_threads ob tab [[Destroy p], [Destroy q]]) s \<and> deadlocked ob s"
proof -
  have "\<exists>s. run_schedule ob [0, 0, 1, 1] (start_threads ob tab [[Destroy p], [Destroy q]]) = Some s \<and>
      deadlocked ob s"
    using assms by (simp add: schedule_simps deadlocked_def all_less_two ex_less_two)
  then show ?thesis using run_schedule_steps by blast
qed

text \<open>
  A thread that destroys a queue pair inside a polling session, between \<open>ibv_start_poll\<close> and
  \<open>ibv_end_poll\<close>, takes the table lock after the lock of a completion queue.
\<close>

theorem destroy_in_session_deadlocks:
  "\<exists>s s'. t_prog s = [destroy_qp_acts (ex_crossed (\<lambda>_. 5)) 1,
        Enter (Cq_lock 10) # destroy_qp_acts (ex_crossed (\<lambda>_. 5)) 2 @ [Leave (Cq_lock 10)]] \<and>
     (thread_step (ex_crossed (\<lambda>_. 5)))\<^sup>*\<^sup>* s s' \<and> deadlocked (ex_crossed (\<lambda>_. 5)) s'"
proof -
  define s where "s = (start_threads (ex_crossed (\<lambda>_. 5)) (ex_table (\<lambda>_. 5)) [])\<lparr>t_prog :=
      [destroy_qp_acts (ex_crossed (\<lambda>_. 5)) 1,
       Enter (Cq_lock 10) # destroy_qp_acts (ex_crossed (\<lambda>_. 5)) 2 @ [Leave (Cq_lock 10)]]\<rparr>"
  have "\<exists>s'. run_schedule (ex_crossed (\<lambda>_. 5)) [1, 0, 0] s = Some s' \<and> deadlocked (ex_crossed (\<lambda>_. 5)) s'"
    by (simp add: s_def schedule_simps deadlocked_def all_less_two ex_less_two)
  then obtain s' where "(thread_step (ex_crossed (\<lambda>_. 5)))\<^sup>*\<^sup>* s s'" "deadlocked (ex_crossed (\<lambda>_. 5)) s'"
    using run_schedule_steps by blast
  moreover have "t_prog s = [destroy_qp_acts (ex_crossed (\<lambda>_. 5)) 1,
      Enter (Cq_lock 10) # destroy_qp_acts (ex_crossed (\<lambda>_. 5)) 2 @ [Leave (Cq_lock 10)]]"
    by (simp add: s_def)
  ultimately show ?thesis by blast
qed

section \<open>The one-threaded model\<close>

text \<open>
  The other theories count in each completion queue how often its lock has been entered. The
  actions here move these counts as \<open>efa_lock_cqs\<close> and \<open>efa_unlock_cqs\<close> do.
\<close>

definition cq_depths :: "'d world \<Rightarrow> lock_name \<Rightarrow> nat" where
  "cq_depths w l = (case l of Cq_lock c \<Rightarrow> (case w_cqs w c of Some x \<Rightarrow> cq_lock x | None \<Rightarrow> 0) | _ \<Rightarrow> 0)"

lemma cq_depths_lock:
  "lock_cq (Some c) w = Some w' \<Longrightarrow> cq_depths w' = next_held (Enter (Cq_lock c)) (cq_depths w)"
  by (auto simp: lock_cq_def cq_depths_def next_held_def fun_eq_iff pthread_spin_lock_def
    split: bind_splits lock_name.split)

lemma cq_depths_unlock:
  "unlock_cq (Some c) w = Some w' \<Longrightarrow> cq_depths w' = next_held (Leave (Cq_lock c)) (cq_depths w)"
  by (auto simp: unlock_cq_def cq_depths_def next_held_def fun_eq_iff pthread_spin_unlock_def
    split: bind_splits lock_name.split nat.splits)

theorem lock_actions_agree:
  assumes "qp_recv_cq v = Some (o_recv_cq ob q)" "qp_send_cq v = Some (o_send_cq ob q)"
  shows "efa_lock_cqs v w = Some w' \<Longrightarrow> cq_depths w' = fold next_held (lock_cqs_acts ob q) (cq_depths w)"
    and "efa_unlock_cqs v w = Some w' \<Longrightarrow> cq_depths w' = fold next_held (unlock_cqs_acts ob q) (cq_depths w)"
  using assms cq_depths_lock cq_depths_unlock
  by (fastforce simp: efa_lock_cqs_def efa_unlock_cqs_def lock_cqs_acts_def unlock_cqs_acts_def
    split: bind_splits if_splits)+

end
