(* ===== verification/Efa_Crossed.thy ===== *)
theory Efa_Crossed
  imports Efa_Concurrency Efa_Qp_Contract
begin

text \<open>
  Where the creation of queue pairs breaks a rule that their destruction under threads relies on.
  \<open>create_qp\<close> takes any two completion queues; \<open>efa_destroy_qp\<close> locks both of them inside the table
  lock of the context of the queue pair, which keeps others out only if they come from that context.
  The one-threaded model of the creation meets the model of the threads here: the objects of a
  world determine what the threads lock.
\<close>

section \<open>The objects of a world as the threads see them\<close>

definition the_ptr :: "ptr option \<Rightarrow> ptr" where
  "the_ptr r = (case r of None \<Rightarrow> 0 | Some p \<Rightarrow> p)"

definition of_qp :: "'d world \<Rightarrow> (efa_qp \<Rightarrow> 'a::zero) \<Rightarrow> ptr \<Rightarrow> 'a" where
  "of_qp w f p = (case w_qps w p of None \<Rightarrow> 0 | Some q \<Rightarrow> f q)"

definition slot_in :: "'d world \<Rightarrow> efa_qp \<Rightarrow> nat" where
  "slot_in w q = (case deref (w_ctxs w) (qp_context_ptr (verbs_qp q)) of
     None \<Rightarrow> 0 | Some ctx \<Rightarrow> qp_slot ctx (qp_num (verbs_qp q)))"

definition objects_of :: "'d world \<Rightarrow> objects" where
  "objects_of w =
     \<lparr>o_qp_ctx = of_qp w (\<lambda>q. the_ptr (qp_context_ptr (verbs_qp q))),
      o_cq_ctx = (\<lambda>a. case w_cqs w a of None \<Rightarrow> 0 | Some c \<Rightarrow> the_ptr (cq_context_ptr (verbs_cq c))),
      o_send_cq = of_qp w (\<lambda>q. the_ptr (qp_send_cq (verbs_qp q))),
      o_recv_cq = of_qp w (\<lambda>q. the_ptr (qp_recv_cq (verbs_qp q))),
      o_slot = of_qp w (slot_in w)\<rparr>"

definition table_of :: "'d world \<Rightarrow> ptr \<times> nat \<Rightarrow> ptr option" where
  "table_of w = (\<lambda>(x, k). case w_ctxs w x of
     None \<Rightarrow> None
   | Some ctx \<Rightarrow> (case cb_get (qp_table ctx) k of None \<Rightarrow> None | Some r \<Rightarrow> r))"

section \<open>Two creations in contexts of their own\<close>

definition grants_qps :: "'d driver \<Rightarrow> bool" where
  "grants_qps dr \<longleftrightarrow>
     (\<forall>h params d rep d'. asked_qp dr h params d rep d' \<longrightarrow> ioctl_status rep sizeof_EFA_QP_INFO = 0)"

lemma published_world:
  assumes "published c ctx tbl p q w w'"
  shows "w_pds w' = w_pds w" and "w_qps w' = (w_qps w)(p \<mapsto> q)"
    and "w_cqs w' = bump_at (\<lambda>n. n + 1) (qp_recv_cq (verbs_qp q)) (rq_sub q)
      (bump_at (\<lambda>n. n + 1) (qp_send_cq (verbs_qp q)) (sq_sub q) (w_cqs w))"
proof -
  note w' = assms [unfolded published_def, THEN conjunct2, THEN conjunct2]
  show "w_pds w' = w_pds w" by (rule arg_cong [OF w', of w_pds, THEN trans]) simp
  show "w_qps w' = (w_qps w)(p \<mapsto> q)" by (rule arg_cong [OF w', of w_qps, THEN trans]) simp
  show "w_cqs w' = bump_at (\<lambda>n. n + 1) (qp_recv_cq (verbs_qp q)) (rq_sub q)
      (bump_at (\<lambda>n. n + 1) (qp_send_cq (verbs_qp q)) (sq_sub q) (w_cqs w))"
    by (rule arg_cong [OF w', of w_cqs, THEN trans]) simp
qed

lemma bump_at_present: "deref (bump_at f a i h) r = None \<longleftrightarrow> deref h r = None"
  by (cases r) (simp_all add: deref_def bump_at_dom)

text \<open>A creation in one context leaves what a creation in another one needs.\<close>

lemma create_env_published:
  assumes env: "create_env y ctx2 tbl2 edev2 attr2 ea2 w"
    and pub: "published x ctx tbl p q w w'" and ne: "x \<noteq> y"
  shows "create_env y ctx2 tbl2 edev2 attr2 ea2 w'"
proof -
  have c: "w_ctxs w' y = w_ctxs w y" using published_env(2) [OF pub] ne by simp
  have "edev_at w' (Some y) = edev_at w (Some y)"
    using published_env(1) [OF pub] c by (simp add: edev_at_def)
  then show ?thesis using env c
    by (simp add: create_env_def published_world [OF pub] bump_at_present)
qed

lemma sub_cqs_exist_published:
  assumes "sub_cqs_exist dr (w_cqs w) s r" "published x ctx tbl p q w w'"
  shows "sub_cqs_exist dr (w_cqs w') s r"
  using assms(1) by (simp add: sub_cqs_exist_def published_world [OF assms(2)])

lemma created_when_granted:
  assumes "create_env c ctx tbl edev attr ea w" "cap_fits ctx (ia_cap (iax_base attr))"
    and "al_qp al = Some p" "w_qps w p = None" "rq_allocs_ok al" "sq_allocs_ok al" "grants_qps dr"
    and "sub_cqs_exist dr (w_cqs w) (ia_send_cq (iax_base attr)) (ia_recv_cq (iax_base attr))"
  obtains attr' w' q where "create_qp dr al (Some c) attr ea w = Some (Some p, attr', w')"
    "published c ctx tbl p q w w'" "qp_context_ptr (verbs_qp q) = Some c"
    "qp_send_cq (verbs_qp q) = ia_send_cq (iax_base attr)" "qp_recv_cq (verbs_qp q) = ia_recv_cq (iax_base attr)"
  using create_qp_outcome [OF assms(1-4,8)]
proof (elim exE conjE, goal_cases)
  case (1 r attr' w' params rep d1)
  have "ioctl_status rep sizeof_EFA_QP_INFO = 0" using 1(3) assms(7) unfolding grants_qps_def by blast
  then show ?case using 1(1,2,4) assms(5,6) by auto
qed

text \<open>
  C9: a deadlock that \<open>create_qp\<close> lets in. Two contexts \<open>x\<close> and \<open>y\<close> of one process, and two completion
  queues \<open>a\<close> and \<open>b\<close>, whichever contexts they belong to. Asked for a queue pair in \<open>x\<close> that sends to
  \<open>a\<close> and receives from \<open>b\<close>, and for one in \<open>y\<close> that sends to \<open>b\<close> and receives from \<open>a\<close>, with requests
  that pass its checks and fit (\<open>cap_fits\<close>), with memory and a driver that grants them, \<open>create_qp\<close>
  creates both: it does not ask whose completion queues they are. In the world that results two
  threads that destroy one queue pair each can come to where each waits for the other for good.
\<close>

theorem two_contexts_deadlock:
  assumes env: "create_env x ctx tbl edev attr ea w" "create_env y ctx2 tbl2 edev2 attr2 ea2 w" "x \<noteq> y"
    and fits: "cap_fits ctx (ia_cap (iax_base attr))" "cap_fits ctx2 (ia_cap (iax_base attr2))"
    and al: "al_qp al = Some p" "w_qps w p = None" "rq_allocs_ok al" "sq_allocs_ok al"
    and al2: "al_qp al2 = Some q" "w_qps w q = None" "rq_allocs_ok al2" "sq_allocs_ok al2" "p \<noteq> q"
    and drv: "grants_qps dr" "sub_cqs_exist dr (w_cqs w) (Some a) (Some b)"
      "sub_cqs_exist dr (w_cqs w) (Some b) (Some a)"
    and cqs: "ia_send_cq (iax_base attr) = Some a" "ia_recv_cq (iax_base attr) = Some b"
      "ia_send_cq (iax_base attr2) = Some b" "ia_recv_cq (iax_base attr2) = Some a" "a \<noteq> b"
  shows "\<exists>attr' w1 attr2' w2 s. create_qp dr al (Some x) attr ea w = Some (Some p, attr', w1) \<and>
    create_qp dr al2 (Some y) attr2 ea2 w1 = Some (Some q, attr2', w2) \<and>
    (thread_step (objects_of w2))\<^sup>*\<^sup>*
      (start_threads (objects_of w2) (table_of w2) [[Destroy p], [Destroy q]]) s \<and>
    deadlocked (objects_of w2) s"
proof (rule created_when_granted [OF env(1) fits(1) al drv(1) drv(2) [folded cqs(1,2)]], goal_cases)
  case (1 attr' w1 qp)
  note pub = 1(2)
  have "w_qps w1 q = None" using al2(2,5) by (simp add: published_world [OF pub])
  from created_when_granted [OF create_env_published [OF env(2) pub env(3)] fits(2) al2(1) this al2(3,4) drv(1)
      sub_cqs_exist_published [OF drv(3) [folded cqs(3,4)] pub]]
  obtain attr2' w2 qp2 where 2: "create_qp dr al2 (Some y) attr2 ea2 w1 = Some (Some q, attr2', w2)"
    "published y ctx2 tbl2 q qp2 w1 w2" "qp_context_ptr (verbs_qp qp2) = Some y"
    "qp_send_cq (verbs_qp qp2) = Some b" "qp_recv_cq (verbs_qp qp2) = Some a"
    unfolding cqs by blast
  have "w_qps w2 q = Some qp2" "w_qps w2 p = Some qp"
    using al2(5) by (simp_all add: published_world [OF 2(2)] published_world [OF pub])
  then have "\<exists>s. (thread_step (objects_of w2))\<^sup>*\<^sup>*
      (start_threads (objects_of w2) (table_of w2) [[Destroy p], [Destroy q]]) s \<and> deadlocked (objects_of w2) s"
    using 1(3-5) 2(3-5) cqs env(3)
    by (intro crossed_deadlock [where x = x and y = y and a = a and b = b])
      (simp_all add: objects_of_def of_qp_def the_ptr_def)
  then show ?case using 1(1) 2(1) by blast
qed

section \<open>An instance\<close>

text \<open>Two contexts of one device, with a protection domain and a completion queue each.\<close>

definition cq_in :: "ptr \<Rightarrow> efa_cq" where
  "cq_in c = ref_cq\<lparr>verbs_cq := (verbs_cq ref_cq)\<lparr>cq_context_ptr := Some c\<rparr>\<rparr>"

definition crossed_world :: "ref_state world" where
  "crossed_world = (ref_world False)\<lparr>w_ctxs := [0 \<mapsto> ref_ctx, 20 \<mapsto> ref_ctx],
     w_pds := [2 \<mapsto> \<lparr>pd_context = Some 0, pd_handle = 5, pdn = 5\<rparr>,
       12 \<mapsto> \<lparr>pd_context = Some 20, pd_handle = 6, pdn = 6\<rparr>],
     w_cqs := [3 \<mapsto> cq_in 0, 13 \<mapsto> cq_in 20]\<rparr>"

definition crossed_attr :: "ptr \<Rightarrow> ptr \<Rightarrow> ptr \<Rightarrow> ibv_qp_init_attr_ex" where
  "crossed_attr pd s r = ref_attr\<lparr>iax_base := (iax_base ref_attr)\<lparr>ia_send_cq := Some s, ia_recv_cq := Some r\<rparr>,
     iax_pd := Some pd\<rparr>"

text \<open>The reference driver, which now grants every queue pair.\<close>

definition willing_driver :: "ref_state driver" where
  "willing_driver = ref_driver\<lparr>IOCTL_EFA_CREATE_QP :=
     (\<lambda>h i n out d. IOCTL_EFA_CREATE_QP ref_driver h i n out (d\<lparr>rs_refuse := False\<rparr>))\<rparr>"

lemma willing_asked: "asked_qp willing_driver h params d rep d' \<Longrightarrow>
    asked_qp ref_driver h params (d\<lparr>rs_refuse := False\<rparr>) rep d'"
  by (simp add: asked_qp_def willing_driver_def)

lemma willing_reply:
  assumes "asked_qp willing_driver h params d rep d'"
  shows "ioctl_status rep sizeof_EFA_QP_INFO = 0" "qi_SendSubCqIndex (outBuffer rep) = 0"
    "qi_RecvSubCqIndex (outBuffer rep) = 1"
  using willing_asked [OF assms]
  by (auto simp: asked_qp_def ref_driver_def unless_refused_def ioctl_sizes zero_QP_INFO_def)

lemma willing_grants: "grants_qps willing_driver"
  unfolding grants_qps_def using willing_reply(1) by blast

lemma crossed_subs:
  assumes "s = 3 \<or> s = 13" "r = 3 \<or> r = 13"
  shows "sub_cqs_exist willing_driver (w_cqs crossed_world) (Some s) (Some r)"
  using assms
  by (auto simp: sub_cqs_exist_def willing_reply has_sub_def crossed_world_def cq_in_def ref_cq_def)

lemma crossed_checks:
  "efa_check_qp_attr ref_ctx (crossed_attr 2 3 13) None = Some 0"
  "efa_check_qp_attr ref_ctx (crossed_attr 12 13 3) None = Some 0"
  "efa_check_qp_limits ref_ctx (crossed_attr pd s r) = 0"
  using ref_checks(2) by (code_simp, code_simp, simp add: crossed_attr_def efa_check_qp_limits_def)

lemma crossed_env:
  "create_env 0 ref_ctx (replicate 4 None) ref_dev (crossed_attr 2 3 13) None crossed_world"
  "create_env 20 ref_ctx (replicate 4 None) ref_dev (crossed_attr 12 13 3) None crossed_world"
  unfolding create_env_def crossed_checks
  by (simp_all add: crossed_world_def ref_world_def edev_at_def ref_ctx_def crossed_attr_def)

theorem two_contexts_deadlock_witness:
  "\<exists>attr' w1 attr2' w2 s.
     create_qp willing_driver (ref_allocs False) (Some 0) (crossed_attr 2 3 13) None crossed_world =
       Some (Some 4, attr', w1) \<and>
     create_qp willing_driver ((ref_allocs False)\<lparr>al_qp := Some 5\<rparr>) (Some 20) (crossed_attr 12 13 3) None w1 =
       Some (Some 5, attr2', w2) \<and>
     deadlocked (objects_of w2) s"
proof -
  have fits: "cap_fits ref_ctx (ia_cap (iax_base (crossed_attr pd s r)))" for pd s r
    using ref_fits by (simp add: crossed_attr_def)
  have free: "w_qps crossed_world p = None" for p by (simp add: crossed_world_def ref_world_def)
  have al: "al_qp (ref_allocs False) = Some 4" "rq_allocs_ok (ref_allocs False)" "sq_allocs_ok (ref_allocs False)"
    "al_qp ((ref_allocs False)\<lparr>al_qp := Some 5\<rparr>) = Some 5" "rq_allocs_ok ((ref_allocs False)\<lparr>al_qp := Some 5\<rparr>)"
    "sq_allocs_ok ((ref_allocs False)\<lparr>al_qp := Some 5\<rparr>)" "(4 :: ptr) \<noteq> 5" "(0 :: ptr) \<noteq> 20" "(3 :: ptr) \<noteq> 13"
    by (simp_all add: ref_allocs_def rq_allocs_ok_def sq_allocs_ok_def)
  have cq: "ia_send_cq (iax_base (crossed_attr pd s r)) = Some s" "ia_recv_cq (iax_base (crossed_attr pd s r)) = Some r"
    for pd s r by (simp_all add: crossed_attr_def)
  show ?thesis
    using two_contexts_deadlock [OF crossed_env al(8) fits fits al(1) free al(2,3) al(4) free al(5,6,7)
        willing_grants crossed_subs crossed_subs cq cq al(9)] by blast
qed

end
