(* ===== verification/Efa_Layout.thy ===== *)
theory Efa_Layout
  imports Efa_Ioctl
begin

text \<open>
  The layout of C structs, for the types the kernel interface is made of. Where a member lies
  depends on the platform: on the alignment of a 64-bit integer, on what \<open>__aligned_u64\<close> means, and
  on the length \<open>TRAILING_ARRAY_SIZE\<close> of an array that stands for what follows a struct.
\<close>

datatype cty =
    Scalar nat
  | Aligned_u64
  | Array nat cty
  | Trailing cty
  | Struct members
  | Union members
and members = End | Field string cty members

record abi =
  a_scalar :: nat
  a_aligned :: nat
  a_trailing :: nat

fun fields :: "(string \<times> cty) list \<Rightarrow> members" where
  "fields [] = End"
| "fields ((f, t) # fs) = Field f t (fields fs)"

definition c_struct :: "(string \<times> cty) list \<Rightarrow> cty" where
  "c_struct fs = Struct (fields fs)"

definition c_union :: "(string \<times> cty) list \<Rightarrow> cty" where
  "c_union fs = Union (fields fs)"

primrec c_align :: "abi \<Rightarrow> cty \<Rightarrow> nat" and m_align :: "abi \<Rightarrow> members \<Rightarrow> nat" where
  "c_align A (Scalar n) = min n (a_scalar A)"
| "c_align A Aligned_u64 = a_aligned A"
| "c_align A (Array n t) = c_align A t"
| "c_align A (Trailing t) = c_align A t"
| "c_align A (Struct ms) = m_align A ms"
| "c_align A (Union ms) = m_align A ms"
| "m_align A End = 1"
| "m_align A (Field f t ms) = max (c_align A t) (m_align A ms)"

text \<open>\<open>m_end\<close>: the end of the members of a struct laid out from an offset; \<open>m_max\<close>: the largest of a union.\<close>

fun c_size :: "abi \<Rightarrow> cty \<Rightarrow> nat" and m_end :: "abi \<Rightarrow> nat \<Rightarrow> members \<Rightarrow> nat"
  and m_max :: "abi \<Rightarrow> members \<Rightarrow> nat" where
  "c_size A (Scalar n) = n"
| "c_size A Aligned_u64 = 8"
| "c_size A (Array n t) = n * c_size A t"
| "c_size A (Trailing t) = a_trailing A * c_size A t"
| "c_size A (Struct ms) = pad_to (m_end A 0 ms) (m_align A ms)"
| "c_size A (Union ms) = pad_to (m_max A ms) (m_align A ms)"
| "m_end A off End = off"
| "m_end A off (Field f t ms) = m_end A (pad_to off (c_align A t) + c_size A t) ms"
| "m_max A End = 0"
| "m_max A (Field f t ms) = max (c_size A t) (m_max A ms)"

fun m_offsets :: "abi \<Rightarrow> nat \<Rightarrow> members \<Rightarrow> (string \<times> nat) list" where
  "m_offsets A off End = []"
| "m_offsets A off (Field f t ms) =
     (let o1 = pad_to off (c_align A t) in (f, o1) # m_offsets A (o1 + c_size A t) ms)"

fun c_offsets :: "abi \<Rightarrow> cty \<Rightarrow> (string \<times> nat) list" where
  "c_offsets A (Struct ms) = m_offsets A 0 ms"
| "c_offsets A t = []"

definition same_layout :: "abi \<Rightarrow> abi \<Rightarrow> cty \<Rightarrow> bool" where
  "same_layout A B t \<longleftrightarrow> c_size A t = c_size B t \<and> c_offsets A t = c_offsets B t"

section \<open>Layouts without padding\<close>

text \<open>Every member starts where the one before it ended, and the struct ends with its last member.\<close>

fun c_tight :: "abi \<Rightarrow> cty \<Rightarrow> bool" and m_tight :: "abi \<Rightarrow> nat \<Rightarrow> nat \<Rightarrow> members \<Rightarrow> bool"
  and u_tight :: "abi \<Rightarrow> nat \<Rightarrow> members \<Rightarrow> bool" where
  "c_tight A (Scalar n) \<longleftrightarrow> True"
| "c_tight A Aligned_u64 \<longleftrightarrow> True"
| "c_tight A (Array n t) \<longleftrightarrow> c_tight A t"
| "c_tight A (Trailing t) \<longleftrightarrow> c_tight A t"
| "c_tight A (Struct ms) \<longleftrightarrow> m_tight A (m_align A ms) 0 ms"
| "c_tight A (Union ms) \<longleftrightarrow> u_tight A (m_align A ms) ms \<and> m_max A ms mod m_align A ms = 0"
| "m_tight A al off End \<longleftrightarrow> off mod al = 0"
| "m_tight A al off (Field f t ms) \<longleftrightarrow>
     off mod c_align A t = 0 \<and> c_tight A t \<and> m_tight A al (off + c_size A t) ms"
| "u_tight A al End \<longleftrightarrow> True"
| "u_tight A al (Field f t ms) \<longleftrightarrow> c_tight A t \<and> u_tight A al ms"

definition pow2 :: "nat \<Rightarrow> bool" where
  "pow2 n \<longleftrightarrow> (\<exists>k. n = 2 ^ k)"

lemma pow2_dvd: "pow2 a \<Longrightarrow> pow2 b \<Longrightarrow> a \<le> b \<Longrightarrow> a dvd b"
  by (auto simp: pow2_def intro: le_imp_power_dvd)

lemma pow2_min_max: "pow2 a \<Longrightarrow> pow2 b \<Longrightarrow> pow2 (min a b) \<and> pow2 (max a b)"
  by (auto simp: min_def max_def)

lemma pow2_1 [simp]: "pow2 1" "pow2 (Suc 0)"
  by (auto simp: pow2_def intro: exI [of _ 0])

text \<open>Scalars of a power of two bytes.\<close>

primrec c_wf :: "cty \<Rightarrow> bool" and m_wf :: "members \<Rightarrow> bool" where
  "c_wf (Scalar n) \<longleftrightarrow> n = 1 \<or> n = 2 \<or> n = 4 \<or> n = 8"
| "c_wf Aligned_u64 \<longleftrightarrow> True"
| "c_wf (Array n t) \<longleftrightarrow> c_wf t"
| "c_wf (Trailing t) \<longleftrightarrow> c_wf t"
| "c_wf (Struct ms) \<longleftrightarrow> m_wf ms"
| "c_wf (Union ms) \<longleftrightarrow> m_wf ms"
| "m_wf End \<longleftrightarrow> True"
| "m_wf (Field f t ms) \<longleftrightarrow> c_wf t \<and> m_wf ms"

definition finer :: "abi \<Rightarrow> abi \<Rightarrow> bool" where
  "finer B A \<longleftrightarrow>
     pow2 (a_scalar B) \<and> pow2 (a_scalar A) \<and> a_scalar B \<le> a_scalar A \<and>
     pow2 (a_aligned B) \<and> pow2 (a_aligned A) \<and> a_aligned B \<le> a_aligned A \<and>
     a_trailing B = a_trailing A"

lemma pow2_small: "n = 1 \<or> n = 2 \<or> n = 4 \<or> n = 8 \<Longrightarrow> pow2 n"
  by (auto simp: pow2_def intro: exI [of _ 0] exI [of _ 1] exI [of _ 2] exI [of _ 3])

lemma c_align_pow2:
  assumes "pow2 (a_scalar A)" "pow2 (a_aligned A)"
  shows "c_wf t \<Longrightarrow> pow2 (c_align A t)" and "m_wf ms \<Longrightarrow> pow2 (m_align A ms)"
  using assms by (induction t and ms) (auto simp: pow2_min_max pow2_small)

lemma align_finer:
  assumes "finer B A"
  shows "c_align B t \<le> c_align A t" and "m_align B ms \<le> m_align A ms"
  using assms by (induction t and ms) (auto simp: finer_def)

lemma align_dvd:
  assumes "finer B A"
  shows "c_wf t \<Longrightarrow> c_align B t dvd c_align A t" and "m_wf ms \<Longrightarrow> m_align B ms dvd m_align A ms"
  using c_align_pow2 [of A] c_align_pow2 [of B] align_finer [OF assms] assms
  by (auto simp: finer_def intro!: pow2_dvd)

lemma pad_to_aligned: "off mod a = 0 \<Longrightarrow> pad_to off a = off"
proof (cases "a = 0")
  case False
  assume "off mod a = 0"
  then obtain k where k: "off = a * k" by (auto simp: mod_eq_0_iff_dvd)
  then have "off + a - 1 = (a - 1) + a * k" using False by simp
  moreover have "((a - 1) + a * k) div a = k + (a - 1) div a" by (rule div_mult_self2) (rule False)
  moreover have "(a - 1) div a = 0" using False by simp
  ultimately show ?thesis unfolding pad_to_def k by (simp only: mult.commute add_0_right)
qed (simp add: pad_to_def)

lemma pad_to_finer: "b dvd a \<Longrightarrow> off mod a = 0 \<Longrightarrow> pad_to off b = off"
  by (rule pad_to_aligned) (auto simp: mod_eq_0_iff_dvd intro: dvd_trans)

text \<open>A type without padding lies the same way under every finer alignment.\<close>

lemma tight_layout:
  assumes "finer B A"
  shows "c_wf t \<Longrightarrow> c_tight A t \<Longrightarrow> c_size B t = c_size A t"
    and "m_wf ms \<Longrightarrow>
      (\<forall>al off. m_tight A al off ms \<longrightarrow>
         m_end B off ms = m_end A off ms \<and> m_end A off ms mod al = 0 \<and> m_offsets B off ms = m_offsets A off ms) \<and>
      (\<forall>al. u_tight A al ms \<longrightarrow> m_max B ms = m_max A ms)"
proof (induction t and ms)
  case (Trailing t)
  then show ?case using assms by (simp add: finer_def)
next
  case (Struct ms)
  then have "m_end B 0 ms = m_end A 0 ms" "m_end A 0 ms mod m_align A ms = 0" by auto
  then show ?case using align_dvd(2) [OF assms, of ms] Struct.prems(1) by (simp add: pad_to_aligned pad_to_finer)
next
  case (Union ms)
  then have "m_max B ms = m_max A ms" "m_max A ms mod m_align A ms = 0" by auto
  then show ?case using align_dvd(2) [OF assms, of ms] Union.prems(1) by (simp add: pad_to_aligned pad_to_finer)
next
  case (Field f t ms)
  then show ?case using align_dvd(1) [OF assms, of t]
    by (auto simp: pad_to_aligned pad_to_finer Let_def)
qed auto

theorem tight_same_layout:
  assumes "finer B A" "c_wf t" "c_tight A t"
  shows "same_layout B A t"
proof (cases t)
  case (Struct ms)
  then have "m_offsets B 0 ms = m_offsets A 0 ms"
    using tight_layout(2) [OF assms(1), of ms] assms(2,3) by auto
  then show ?thesis using tight_layout(1) [OF assms] Struct by (simp add: same_layout_def)
qed (use tight_layout(1) [OF assms] in \<open>simp_all add: same_layout_def\<close>)

end
