(* ===== verification/Efa_Uverbs_Abi.thy ===== *)
theory Efa_Uverbs_Abi
  imports Efa_Layout
begin

text \<open>
  The structs of the kernel interface, member by member: \<open>include/ib_user_verbs.h\<close> in its order, then
  what \<open>include/kern-abi.h\<close> and \<open>include/efa-win-abi.h\<close> add. An unnamed member has the empty name. An
  integer in network order is laid out like one of its size.
\<close>

abbreviation c_u8 :: cty where "c_u8 \<equiv> Scalar 1"
abbreviation c_u16 :: cty where "c_u16 \<equiv> Scalar 2"
abbreviation c_u32 :: cty where "c_u32 \<equiv> Scalar 4"
abbreviation c_u64 :: cty where "c_u64 \<equiv> Scalar 8"

section \<open>\<open>ib_user_verbs.h\<close>\<close>

definition ib_uverbs_async_event_desc :: cty where
  "ib_uverbs_async_event_desc = c_struct
     [(''element'', Aligned_u64), (''event_type'', c_u32), (''reserved'', c_u32)]"

definition ib_uverbs_comp_event_desc :: cty where
  "ib_uverbs_comp_event_desc = c_struct
     [(''cq_handle'', Aligned_u64)]"

definition ib_uverbs_cq_moderation_caps :: cty where
  "ib_uverbs_cq_moderation_caps = c_struct
     [(''max_cq_moderation_count'', c_u16), (''max_cq_moderation_period'', c_u16),
      (''reserved'', c_u32)]"

definition ib_uverbs_cmd_hdr :: cty where
  "ib_uverbs_cmd_hdr = c_struct
     [(''command'', c_u32), (''in_words'', c_u16), (''out_words'', c_u16)]"

definition ib_uverbs_ex_cmd_hdr :: cty where
  "ib_uverbs_ex_cmd_hdr = c_struct
     [(''response'', Aligned_u64), (''provider_in_words'', c_u16), (''provider_out_words'', c_u16),
      (''cmd_hdr_reserved'', c_u32)]"

definition ib_uverbs_get_context :: cty where
  "ib_uverbs_get_context = c_struct
     [(''response'', Aligned_u64), (''driver_data'', Trailing Aligned_u64)]"

definition ib_uverbs_get_context_resp :: cty where
  "ib_uverbs_get_context_resp = c_struct
     [(''async_fd'', c_u32), (''num_comp_vectors'', c_u32), (''driver_data'', Trailing Aligned_u64)]"

definition ib_uverbs_query_device :: cty where
  "ib_uverbs_query_device = c_struct
     [(''response'', Aligned_u64), (''driver_data'', Trailing Aligned_u64)]"

definition ib_uverbs_query_device_resp :: cty where
  "ib_uverbs_query_device_resp = c_struct
     [(''fw_ver'', Aligned_u64), (''node_guid'', c_u64), (''sys_image_guid'', c_u64),
      (''max_mr_size'', Aligned_u64), (''page_size_cap'', Aligned_u64), (''vendor_id'', c_u32),
      (''vendor_part_id'', c_u32), (''hw_ver'', c_u32), (''max_qp'', c_u32), (''max_qp_wr'', c_u32),
      (''device_cap_flags'', c_u32), (''max_sge'', c_u32), (''max_sge_rd'', c_u32),
      (''max_cq'', c_u32), (''max_cqe'', c_u32), (''max_mr'', c_u32), (''max_pd'', c_u32),
      (''max_qp_rd_atom'', c_u32), (''max_ee_rd_atom'', c_u32), (''max_res_rd_atom'', c_u32),
      (''max_qp_init_rd_atom'', c_u32), (''max_ee_init_rd_atom'', c_u32), (''atomic_cap'', c_u32),
      (''max_ee'', c_u32), (''max_rdd'', c_u32), (''max_mw'', c_u32), (''max_raw_ipv6_qp'', c_u32),
      (''max_raw_ethy_qp'', c_u32), (''max_mcast_grp'', c_u32), (''max_mcast_qp_attach'', c_u32),
      (''max_total_mcast_qp_attach'', c_u32), (''max_ah'', c_u32), (''max_fmr'', c_u32),
      (''max_map_per_fmr'', c_u32), (''max_srq'', c_u32), (''max_srq_wr'', c_u32),
      (''max_srq_sge'', c_u32), (''max_pkeys'', c_u16), (''local_ca_ack_delay'', c_u8),
      (''phys_port_cnt'', c_u8), (''reserved'', Array 4 c_u8)]"

definition ib_uverbs_ex_query_device :: cty where
  "ib_uverbs_ex_query_device = c_struct
     [(''comp_mask'', c_u32), (''reserved'', c_u32)]"

definition ib_uverbs_odp_caps :: cty where
  "ib_uverbs_odp_caps = c_struct
     [(''general_caps'', Aligned_u64),
      (''per_transport_caps'', c_struct [(''rc_odp_caps'', c_u32), (''uc_odp_caps'', c_u32), (''ud_odp_caps'', c_u32)]),
      (''reserved'', c_u32)]"

definition ib_uverbs_rss_caps :: cty where
  "ib_uverbs_rss_caps = c_struct
     [(''supported_qpts'', c_u32), (''max_rwq_indirection_tables'', c_u32),
      (''max_rwq_indirection_table_size'', c_u32), (''reserved'', c_u32)]"

definition ib_uverbs_tm_caps :: cty where
  "ib_uverbs_tm_caps = c_struct
     [(''max_rndv_hdr_size'', c_u32), (''max_num_tags'', c_u32), (''flags'', c_u32),
      (''max_ops'', c_u32), (''max_sge'', c_u32), (''reserved'', c_u32)]"

definition ib_uverbs_ex_query_device_resp :: cty where
  "ib_uverbs_ex_query_device_resp = c_struct
     [(''base'', ib_uverbs_query_device_resp), (''comp_mask'', c_u32), (''response_length'', c_u32),
      (''odp_caps'', ib_uverbs_odp_caps), (''timestamp_mask'', Aligned_u64),
      (''hca_core_clock'', Aligned_u64), (''device_cap_flags_ex'', Aligned_u64),
      (''rss_caps'', ib_uverbs_rss_caps), (''max_wq_type_rq'', c_u32), (''raw_packet_caps'', c_u32),
      (''tm_caps'', ib_uverbs_tm_caps), (''cq_moderation_caps'', ib_uverbs_cq_moderation_caps),
      (''max_dm_size'', Aligned_u64), (''xrc_odp_caps'', c_u32), (''reserved'', c_u32)]"

definition ib_uverbs_query_port :: cty where
  "ib_uverbs_query_port = c_struct
     [(''response'', Aligned_u64), (''port_num'', c_u8), (''reserved'', Array 7 c_u8),
      (''driver_data'', Trailing Aligned_u64)]"

definition ib_uverbs_query_port_resp :: cty where
  "ib_uverbs_query_port_resp = c_struct
     [(''port_cap_flags'', c_u32), (''max_msg_sz'', c_u32), (''bad_pkey_cntr'', c_u32),
      (''qkey_viol_cntr'', c_u32), (''gid_tbl_len'', c_u32), (''pkey_tbl_len'', c_u16),
      (''lid'', c_u16), (''sm_lid'', c_u16), (''state'', c_u8), (''max_mtu'', c_u8),
      (''active_mtu'', c_u8), (''lmc'', c_u8), (''max_vl_num'', c_u8), (''sm_sl'', c_u8),
      (''subnet_timeout'', c_u8), (''init_type_reply'', c_u8), (''active_width'', c_u8),
      (''active_speed'', c_u8), (''phys_state'', c_u8), (''link_layer'', c_u8), (''flags'', c_u8),
      (''reserved'', c_u8)]"

definition ib_uverbs_alloc_pd :: cty where
  "ib_uverbs_alloc_pd = c_struct
     [(''response'', Aligned_u64), (''driver_data'', Trailing Aligned_u64)]"

definition ib_uverbs_alloc_pd_resp :: cty where
  "ib_uverbs_alloc_pd_resp = c_struct
     [(''pd_handle'', c_u32), (''driver_data'', Trailing c_u32)]"

definition ib_uverbs_dealloc_pd :: cty where
  "ib_uverbs_dealloc_pd = c_struct
     [(''pd_handle'', c_u32)]"

definition ib_uverbs_open_xrcd :: cty where
  "ib_uverbs_open_xrcd = c_struct
     [(''response'', Aligned_u64), (''fd'', c_u32), (''oflags'', c_u32),
      (''driver_data'', Trailing Aligned_u64)]"

definition ib_uverbs_open_xrcd_resp :: cty where
  "ib_uverbs_open_xrcd_resp = c_struct
     [(''xrcd_handle'', c_u32), (''driver_data'', Trailing c_u32)]"

definition ib_uverbs_close_xrcd :: cty where
  "ib_uverbs_close_xrcd = c_struct
     [(''xrcd_handle'', c_u32)]"

definition ib_uverbs_reg_mr :: cty where
  "ib_uverbs_reg_mr = c_struct
     [(''response'', Aligned_u64), (''start'', Aligned_u64), (''length'', Aligned_u64),
      (''hca_va'', Aligned_u64), (''pd_handle'', c_u32), (''access_flags'', c_u32),
      (''driver_data'', Trailing Aligned_u64)]"

definition ib_uverbs_reg_mr_resp :: cty where
  "ib_uverbs_reg_mr_resp = c_struct
     [(''mr_handle'', c_u32), (''lkey'', c_u32), (''rkey'', c_u32),
      (''driver_data'', Trailing c_u32)]"

definition ib_uverbs_rereg_mr :: cty where
  "ib_uverbs_rereg_mr = c_struct
     [(''response'', Aligned_u64), (''mr_handle'', c_u32), (''flags'', c_u32),
      (''start'', Aligned_u64), (''length'', Aligned_u64), (''hca_va'', Aligned_u64),
      (''pd_handle'', c_u32), (''access_flags'', c_u32), (''driver_data'', Trailing Aligned_u64)]"

definition ib_uverbs_rereg_mr_resp :: cty where
  "ib_uverbs_rereg_mr_resp = c_struct
     [(''lkey'', c_u32), (''rkey'', c_u32), (''driver_data'', Trailing Aligned_u64)]"

definition ib_uverbs_dereg_mr :: cty where
  "ib_uverbs_dereg_mr = c_struct
     [(''mr_handle'', c_u32)]"

definition ib_uverbs_alloc_mw :: cty where
  "ib_uverbs_alloc_mw = c_struct
     [(''response'', Aligned_u64), (''pd_handle'', c_u32), (''mw_type'', c_u8),
      (''reserved'', Array 3 c_u8), (''driver_data'', Trailing Aligned_u64)]"

definition ib_uverbs_alloc_mw_resp :: cty where
  "ib_uverbs_alloc_mw_resp = c_struct
     [(''mw_handle'', c_u32), (''rkey'', c_u32), (''driver_data'', Trailing Aligned_u64)]"

definition ib_uverbs_dealloc_mw :: cty where
  "ib_uverbs_dealloc_mw = c_struct
     [(''mw_handle'', c_u32)]"

definition ib_uverbs_create_comp_channel :: cty where
  "ib_uverbs_create_comp_channel = c_struct
     [(''response'', Aligned_u64)]"

definition ib_uverbs_create_comp_channel_resp :: cty where
  "ib_uverbs_create_comp_channel_resp = c_struct
     [(''fd'', c_u32)]"

definition ib_uverbs_create_cq :: cty where
  "ib_uverbs_create_cq = c_struct
     [(''response'', Aligned_u64), (''user_handle'', Aligned_u64), (''cqe'', c_u32),
      (''comp_vector'', c_u32), (''comp_channel'', c_u32), (''reserved'', c_u32),
      (''driver_data'', Trailing Aligned_u64)]"

definition ib_uverbs_ex_create_cq :: cty where
  "ib_uverbs_ex_create_cq = c_struct
     [(''user_handle'', Aligned_u64), (''cqe'', c_u32), (''comp_vector'', c_u32),
      (''comp_channel'', c_u32), (''comp_mask'', c_u32), (''flags'', c_u32), (''reserved'', c_u32)]"

definition ib_uverbs_create_cq_resp :: cty where
  "ib_uverbs_create_cq_resp = c_struct
     [(''cq_handle'', c_u32), (''cqe'', c_u32), (''driver_data'', Trailing Aligned_u64)]"

definition ib_uverbs_ex_create_cq_resp :: cty where
  "ib_uverbs_ex_create_cq_resp = c_struct
     [(''base'', ib_uverbs_create_cq_resp), (''comp_mask'', c_u32), (''response_length'', c_u32)]"

definition ib_uverbs_resize_cq :: cty where
  "ib_uverbs_resize_cq = c_struct
     [(''response'', Aligned_u64), (''cq_handle'', c_u32), (''cqe'', c_u32),
      (''driver_data'', Trailing Aligned_u64)]"

definition ib_uverbs_resize_cq_resp :: cty where
  "ib_uverbs_resize_cq_resp = c_struct
     [(''cqe'', c_u32), (''reserved'', c_u32), (''driver_data'', Trailing Aligned_u64)]"

definition ib_uverbs_poll_cq :: cty where
  "ib_uverbs_poll_cq = c_struct
     [(''response'', Aligned_u64), (''cq_handle'', c_u32), (''ne'', c_u32)]"

definition ib_uverbs_wc :: cty where
  "ib_uverbs_wc = c_struct
     [(''wr_id'', Aligned_u64), (''status'', c_u32), (''opcode'', c_u32), (''vendor_err'', c_u32),
      (''byte_len'', c_u32), (''ex'', c_union [(''imm_data'', c_u32), (''invalidate_rkey'', c_u32)]),
      (''qp_num'', c_u32), (''src_qp'', c_u32), (''wc_flags'', c_u32), (''pkey_index'', c_u16),
      (''slid'', c_u16), (''sl'', c_u8), (''dlid_path_bits'', c_u8), (''port_num'', c_u8),
      (''reserved'', c_u8)]"

definition ib_uverbs_poll_cq_resp :: cty where
  "ib_uverbs_poll_cq_resp = c_struct
     [(''count'', c_u32), (''reserved'', c_u32), (''wc'', Trailing ib_uverbs_wc)]"

definition ib_uverbs_req_notify_cq :: cty where
  "ib_uverbs_req_notify_cq = c_struct
     [(''cq_handle'', c_u32), (''solicited_only'', c_u32)]"

definition ib_uverbs_destroy_cq :: cty where
  "ib_uverbs_destroy_cq = c_struct
     [(''response'', Aligned_u64), (''cq_handle'', c_u32), (''reserved'', c_u32)]"

definition ib_uverbs_destroy_cq_resp :: cty where
  "ib_uverbs_destroy_cq_resp = c_struct
     [(''comp_events_reported'', c_u32), (''async_events_reported'', c_u32)]"

definition ib_uverbs_global_route :: cty where
  "ib_uverbs_global_route = c_struct
     [(''dgid'', Array 16 c_u8), (''flow_label'', c_u32), (''sgid_index'', c_u8),
      (''hop_limit'', c_u8), (''traffic_class'', c_u8), (''reserved'', c_u8)]"

definition ib_uverbs_ah_attr :: cty where
  "ib_uverbs_ah_attr = c_struct
     [(''grh'', ib_uverbs_global_route), (''dlid'', c_u16), (''sl'', c_u8),
      (''src_path_bits'', c_u8), (''static_rate'', c_u8), (''is_global'', c_u8),
      (''port_num'', c_u8), (''reserved'', c_u8)]"

definition ib_uverbs_qp_attr :: cty where
  "ib_uverbs_qp_attr = c_struct
     [(''qp_attr_mask'', c_u32), (''qp_state'', c_u32), (''cur_qp_state'', c_u32),
      (''path_mtu'', c_u32), (''path_mig_state'', c_u32), (''qkey'', c_u32), (''rq_psn'', c_u32),
      (''sq_psn'', c_u32), (''dest_qp_num'', c_u32), (''qp_access_flags'', c_u32),
      (''ah_attr'', ib_uverbs_ah_attr), (''alt_ah_attr'', ib_uverbs_ah_attr),
      (''max_send_wr'', c_u32), (''max_recv_wr'', c_u32), (''max_send_sge'', c_u32),
      (''max_recv_sge'', c_u32), (''max_inline_data'', c_u32), (''pkey_index'', c_u16),
      (''alt_pkey_index'', c_u16), (''en_sqd_async_notify'', c_u8), (''sq_draining'', c_u8),
      (''max_rd_atomic'', c_u8), (''max_dest_rd_atomic'', c_u8), (''min_rnr_timer'', c_u8),
      (''port_num'', c_u8), (''timeout'', c_u8), (''retry_cnt'', c_u8), (''rnr_retry'', c_u8),
      (''alt_port_num'', c_u8), (''alt_timeout'', c_u8), (''reserved'', Array 5 c_u8)]"

definition ib_uverbs_create_qp :: cty where
  "ib_uverbs_create_qp = c_struct
     [(''response'', Aligned_u64), (''user_handle'', Aligned_u64), (''pd_handle'', c_u32),
      (''send_cq_handle'', c_u32), (''recv_cq_handle'', c_u32), (''srq_handle'', c_u32),
      (''max_send_wr'', c_u32), (''max_recv_wr'', c_u32), (''max_send_sge'', c_u32),
      (''max_recv_sge'', c_u32), (''max_inline_data'', c_u32), (''sq_sig_all'', c_u8),
      (''qp_type'', c_u8), (''is_srq'', c_u8), (''reserved'', c_u8),
      (''driver_data'', Trailing Aligned_u64)]"

definition ib_uverbs_ex_create_qp :: cty where
  "ib_uverbs_ex_create_qp = c_struct
     [(''user_handle'', Aligned_u64), (''pd_handle'', c_u32), (''send_cq_handle'', c_u32),
      (''recv_cq_handle'', c_u32), (''srq_handle'', c_u32), (''max_send_wr'', c_u32),
      (''max_recv_wr'', c_u32), (''max_send_sge'', c_u32), (''max_recv_sge'', c_u32),
      (''max_inline_data'', c_u32), (''sq_sig_all'', c_u8), (''qp_type'', c_u8), (''is_srq'', c_u8),
      (''reserved'', c_u8), (''comp_mask'', c_u32), (''create_flags'', c_u32),
      (''rwq_ind_tbl_handle'', c_u32), (''source_qpn'', c_u32)]"

definition ib_uverbs_open_qp :: cty where
  "ib_uverbs_open_qp = c_struct
     [(''response'', Aligned_u64), (''user_handle'', Aligned_u64), (''pd_handle'', c_u32),
      (''qpn'', c_u32), (''qp_type'', c_u8), (''reserved'', Array 7 c_u8),
      (''driver_data'', Trailing Aligned_u64)]"

definition ib_uverbs_create_qp_resp :: cty where
  "ib_uverbs_create_qp_resp = c_struct
     [(''qp_handle'', c_u32), (''qpn'', c_u32), (''max_send_wr'', c_u32), (''max_recv_wr'', c_u32),
      (''max_send_sge'', c_u32), (''max_recv_sge'', c_u32), (''max_inline_data'', c_u32),
      (''reserved'', c_u32), (''driver_data'', Trailing c_u32)]"

definition ib_uverbs_ex_create_qp_resp :: cty where
  "ib_uverbs_ex_create_qp_resp = c_struct
     [(''base'', ib_uverbs_create_qp_resp), (''comp_mask'', c_u32), (''response_length'', c_u32)]"

definition ib_uverbs_qp_dest :: cty where
  "ib_uverbs_qp_dest = c_struct
     [(''dgid'', Array 16 c_u8), (''flow_label'', c_u32), (''dlid'', c_u16), (''reserved'', c_u16),
      (''sgid_index'', c_u8), (''hop_limit'', c_u8), (''traffic_class'', c_u8), (''sl'', c_u8),
      (''src_path_bits'', c_u8), (''static_rate'', c_u8), (''is_global'', c_u8),
      (''port_num'', c_u8)]"

definition ib_uverbs_query_qp :: cty where
  "ib_uverbs_query_qp = c_struct
     [(''response'', Aligned_u64), (''qp_handle'', c_u32), (''attr_mask'', c_u32),
      (''driver_data'', Trailing Aligned_u64)]"

definition ib_uverbs_query_qp_resp :: cty where
  "ib_uverbs_query_qp_resp = c_struct
     [(''dest'', ib_uverbs_qp_dest), (''alt_dest'', ib_uverbs_qp_dest), (''max_send_wr'', c_u32),
      (''max_recv_wr'', c_u32), (''max_send_sge'', c_u32), (''max_recv_sge'', c_u32),
      (''max_inline_data'', c_u32), (''qkey'', c_u32), (''rq_psn'', c_u32), (''sq_psn'', c_u32),
      (''dest_qp_num'', c_u32), (''qp_access_flags'', c_u32), (''pkey_index'', c_u16),
      (''alt_pkey_index'', c_u16), (''qp_state'', c_u8), (''cur_qp_state'', c_u8),
      (''path_mtu'', c_u8), (''path_mig_state'', c_u8), (''sq_draining'', c_u8),
      (''max_rd_atomic'', c_u8), (''max_dest_rd_atomic'', c_u8), (''min_rnr_timer'', c_u8),
      (''port_num'', c_u8), (''timeout'', c_u8), (''retry_cnt'', c_u8), (''rnr_retry'', c_u8),
      (''alt_port_num'', c_u8), (''alt_timeout'', c_u8), (''sq_sig_all'', c_u8),
      (''reserved'', Array 5 c_u8), (''driver_data'', Trailing Aligned_u64)]"

definition ib_uverbs_modify_qp :: cty where
  "ib_uverbs_modify_qp = c_struct
     [(''dest'', ib_uverbs_qp_dest), (''alt_dest'', ib_uverbs_qp_dest), (''qp_handle'', c_u32),
      (''attr_mask'', c_u32), (''qkey'', c_u32), (''rq_psn'', c_u32), (''sq_psn'', c_u32),
      (''dest_qp_num'', c_u32), (''qp_access_flags'', c_u32), (''pkey_index'', c_u16),
      (''alt_pkey_index'', c_u16), (''qp_state'', c_u8), (''cur_qp_state'', c_u8),
      (''path_mtu'', c_u8), (''path_mig_state'', c_u8), (''en_sqd_async_notify'', c_u8),
      (''max_rd_atomic'', c_u8), (''max_dest_rd_atomic'', c_u8), (''min_rnr_timer'', c_u8),
      (''port_num'', c_u8), (''timeout'', c_u8), (''retry_cnt'', c_u8), (''rnr_retry'', c_u8),
      (''alt_port_num'', c_u8), (''alt_timeout'', c_u8), (''reserved'', Array 2 c_u8),
      (''driver_data'', Trailing Aligned_u64)]"

definition ib_uverbs_ex_modify_qp :: cty where
  "ib_uverbs_ex_modify_qp = c_struct
     [(''base'', ib_uverbs_modify_qp), (''rate_limit'', c_u32), (''reserved'', c_u32)]"

definition ib_uverbs_ex_modify_qp_resp :: cty where
  "ib_uverbs_ex_modify_qp_resp = c_struct
     [(''comp_mask'', c_u32), (''response_length'', c_u32)]"

definition ib_uverbs_destroy_qp :: cty where
  "ib_uverbs_destroy_qp = c_struct
     [(''response'', Aligned_u64), (''qp_handle'', c_u32), (''reserved'', c_u32)]"

definition ib_uverbs_destroy_qp_resp :: cty where
  "ib_uverbs_destroy_qp_resp = c_struct
     [(''events_reported'', c_u32)]"

definition ib_uverbs_sge :: cty where
  "ib_uverbs_sge = c_struct
     [(''addr'', Aligned_u64), (''length'', c_u32), (''lkey'', c_u32)]"

definition ib_uverbs_send_wr :: cty where
  "ib_uverbs_send_wr = c_struct
     [(''wr_id'', Aligned_u64), (''num_sge'', c_u32), (''opcode'', c_u32), (''send_flags'', c_u32),
      (''ex'', c_union [(''imm_data'', c_u32), (''invalidate_rkey'', c_u32)]),
      (''wr'', c_union [(''rdma'', c_struct [(''remote_addr'', Aligned_u64), (''rkey'', c_u32), (''reserved'', c_u32)]),
         (''atomic'', c_struct [(''remote_addr'', Aligned_u64), (''compare_add'', Aligned_u64), (''swap'', Aligned_u64),
            (''rkey'', c_u32), (''reserved'', c_u32)]),
         (''ud'', c_struct [(''ah'', c_u32), (''remote_qpn'', c_u32), (''remote_qkey'', c_u32),
            (''reserved'', c_u32)])])]"

definition ib_uverbs_post_send :: cty where
  "ib_uverbs_post_send = c_struct
     [(''response'', Aligned_u64), (''qp_handle'', c_u32), (''wr_count'', c_u32),
      (''sge_count'', c_u32), (''wqe_size'', c_u32), (''send_wr'', Trailing ib_uverbs_send_wr)]"

definition ib_uverbs_post_send_resp :: cty where
  "ib_uverbs_post_send_resp = c_struct
     [(''bad_wr'', c_u32)]"

definition ib_uverbs_recv_wr :: cty where
  "ib_uverbs_recv_wr = c_struct
     [(''wr_id'', Aligned_u64), (''num_sge'', c_u32), (''reserved'', c_u32)]"

definition ib_uverbs_post_recv :: cty where
  "ib_uverbs_post_recv = c_struct
     [(''response'', Aligned_u64), (''qp_handle'', c_u32), (''wr_count'', c_u32),
      (''sge_count'', c_u32), (''wqe_size'', c_u32), (''recv_wr'', Trailing ib_uverbs_recv_wr)]"

definition ib_uverbs_post_recv_resp :: cty where
  "ib_uverbs_post_recv_resp = c_struct
     [(''bad_wr'', c_u32)]"

definition ib_uverbs_post_srq_recv :: cty where
  "ib_uverbs_post_srq_recv = c_struct
     [(''response'', Aligned_u64), (''srq_handle'', c_u32), (''wr_count'', c_u32),
      (''sge_count'', c_u32), (''wqe_size'', c_u32), (''recv'', Trailing ib_uverbs_recv_wr)]"

definition ib_uverbs_post_srq_recv_resp :: cty where
  "ib_uverbs_post_srq_recv_resp = c_struct
     [(''bad_wr'', c_u32)]"

definition ib_uverbs_create_ah :: cty where
  "ib_uverbs_create_ah = c_struct
     [(''response'', Aligned_u64), (''user_handle'', Aligned_u64), (''pd_handle'', c_u32),
      (''reserved'', c_u32), (''attr'', ib_uverbs_ah_attr), (''driver_data'', Trailing Aligned_u64)]"

definition ib_uverbs_create_ah_resp :: cty where
  "ib_uverbs_create_ah_resp = c_struct
     [(''ah_handle'', c_u32), (''driver_data'', Trailing c_u32)]"

definition ib_uverbs_destroy_ah :: cty where
  "ib_uverbs_destroy_ah = c_struct
     [(''ah_handle'', c_u32)]"

definition ib_uverbs_attach_mcast :: cty where
  "ib_uverbs_attach_mcast = c_struct
     [(''gid'', Array 16 c_u8), (''qp_handle'', c_u32), (''mlid'', c_u16), (''reserved'', c_u16),
      (''driver_data'', Trailing Aligned_u64)]"

definition ib_uverbs_detach_mcast :: cty where
  "ib_uverbs_detach_mcast = c_struct
     [(''gid'', Array 16 c_u8), (''qp_handle'', c_u32), (''mlid'', c_u16), (''reserved'', c_u16),
      (''driver_data'', Trailing Aligned_u64)]"

definition ib_uverbs_flow_spec_hdr :: cty where
  "ib_uverbs_flow_spec_hdr = c_struct
     [(''type'', c_u32), (''size'', c_u16), (''reserved'', c_u16),
      (''flow_spec_data'', Trailing Aligned_u64)]"

definition ib_uverbs_flow_eth_filter :: cty where
  "ib_uverbs_flow_eth_filter = c_struct
     [(''dst_mac'', Array 6 c_u8), (''src_mac'', Array 6 c_u8), (''ether_type'', c_u16),
      (''vlan_tag'', c_u16)]"

definition ib_uverbs_flow_spec_eth :: cty where
  "ib_uverbs_flow_spec_eth = c_struct
     [('''', c_union [(''hdr'', ib_uverbs_flow_spec_hdr),
         ('''', c_struct [(''type'', c_u32), (''size'', c_u16), (''reserved'', c_u16)])]),
      (''val'', ib_uverbs_flow_eth_filter), (''mask'', ib_uverbs_flow_eth_filter)]"

definition ib_uverbs_flow_ipv4_filter :: cty where
  "ib_uverbs_flow_ipv4_filter = c_struct
     [(''src_ip'', c_u32), (''dst_ip'', c_u32), (''proto'', c_u8), (''tos'', c_u8), (''ttl'', c_u8),
      (''flags'', c_u8)]"

definition ib_uverbs_flow_spec_ipv4 :: cty where
  "ib_uverbs_flow_spec_ipv4 = c_struct
     [('''', c_union [(''hdr'', ib_uverbs_flow_spec_hdr),
         ('''', c_struct [(''type'', c_u32), (''size'', c_u16), (''reserved'', c_u16)])]),
      (''val'', ib_uverbs_flow_ipv4_filter), (''mask'', ib_uverbs_flow_ipv4_filter)]"

definition ib_uverbs_flow_tcp_udp_filter :: cty where
  "ib_uverbs_flow_tcp_udp_filter = c_struct
     [(''dst_port'', c_u16), (''src_port'', c_u16)]"

definition ib_uverbs_flow_spec_tcp_udp :: cty where
  "ib_uverbs_flow_spec_tcp_udp = c_struct
     [('''', c_union [(''hdr'', ib_uverbs_flow_spec_hdr),
         ('''', c_struct [(''type'', c_u32), (''size'', c_u16), (''reserved'', c_u16)])]),
      (''val'', ib_uverbs_flow_tcp_udp_filter), (''mask'', ib_uverbs_flow_tcp_udp_filter)]"

definition ib_uverbs_flow_ipv6_filter :: cty where
  "ib_uverbs_flow_ipv6_filter = c_struct
     [(''src_ip'', Array 16 c_u8), (''dst_ip'', Array 16 c_u8), (''flow_label'', c_u32),
      (''next_hdr'', c_u8), (''traffic_class'', c_u8), (''hop_limit'', c_u8), (''reserved'', c_u8)]"

definition ib_uverbs_flow_spec_ipv6 :: cty where
  "ib_uverbs_flow_spec_ipv6 = c_struct
     [('''', c_union [(''hdr'', ib_uverbs_flow_spec_hdr),
         ('''', c_struct [(''type'', c_u32), (''size'', c_u16), (''reserved'', c_u16)])]),
      (''val'', ib_uverbs_flow_ipv6_filter), (''mask'', ib_uverbs_flow_ipv6_filter)]"

definition ib_uverbs_flow_spec_action_tag :: cty where
  "ib_uverbs_flow_spec_action_tag = c_struct
     [('''', c_union [(''hdr'', ib_uverbs_flow_spec_hdr),
         ('''', c_struct [(''type'', c_u32), (''size'', c_u16), (''reserved'', c_u16)])]),
      (''tag_id'', c_u32), (''reserved1'', c_u32)]"

definition ib_uverbs_flow_spec_action_drop :: cty where
  "ib_uverbs_flow_spec_action_drop = c_struct
     [('''', c_union [(''hdr'', ib_uverbs_flow_spec_hdr),
         ('''', c_struct [(''type'', c_u32), (''size'', c_u16), (''reserved'', c_u16)])])]"

definition ib_uverbs_flow_spec_action_handle :: cty where
  "ib_uverbs_flow_spec_action_handle = c_struct
     [('''', c_union [(''hdr'', ib_uverbs_flow_spec_hdr),
         ('''', c_struct [(''type'', c_u32), (''size'', c_u16), (''reserved'', c_u16)])]),
      (''handle'', c_u32), (''reserved1'', c_u32)]"

definition ib_uverbs_flow_spec_action_count :: cty where
  "ib_uverbs_flow_spec_action_count = c_struct
     [('''', c_union [(''hdr'', ib_uverbs_flow_spec_hdr),
         ('''', c_struct [(''type'', c_u32), (''size'', c_u16), (''reserved'', c_u16)])]),
      (''handle'', c_u32), (''reserved1'', c_u32)]"

definition ib_uverbs_flow_tunnel_filter :: cty where
  "ib_uverbs_flow_tunnel_filter = c_struct
     [(''tunnel_id'', c_u32)]"

definition ib_uverbs_flow_spec_tunnel :: cty where
  "ib_uverbs_flow_spec_tunnel = c_struct
     [('''', c_union [(''hdr'', ib_uverbs_flow_spec_hdr),
         ('''', c_struct [(''type'', c_u32), (''size'', c_u16), (''reserved'', c_u16)])]),
      (''val'', ib_uverbs_flow_tunnel_filter), (''mask'', ib_uverbs_flow_tunnel_filter)]"

definition ib_uverbs_flow_spec_esp_filter :: cty where
  "ib_uverbs_flow_spec_esp_filter = c_struct
     [(''spi'', c_u32), (''seq'', c_u32)]"

definition ib_uverbs_flow_spec_esp :: cty where
  "ib_uverbs_flow_spec_esp = c_struct
     [('''', c_union [(''hdr'', ib_uverbs_flow_spec_hdr),
         ('''', c_struct [(''type'', c_u32), (''size'', c_u16), (''reserved'', c_u16)])]),
      (''val'', ib_uverbs_flow_spec_esp_filter), (''mask'', ib_uverbs_flow_spec_esp_filter)]"

definition ib_uverbs_flow_gre_filter :: cty where
  "ib_uverbs_flow_gre_filter = c_struct
     [(''c_ks_res0_ver'', c_u16), (''protocol'', c_u16), (''key'', c_u32)]"

definition ib_uverbs_flow_spec_gre :: cty where
  "ib_uverbs_flow_spec_gre = c_struct
     [('''', c_union [(''hdr'', ib_uverbs_flow_spec_hdr),
         ('''', c_struct [(''type'', c_u32), (''size'', c_u16), (''reserved'', c_u16)])]),
      (''val'', ib_uverbs_flow_gre_filter), (''mask'', ib_uverbs_flow_gre_filter)]"

definition ib_uverbs_flow_mpls_filter :: cty where
  "ib_uverbs_flow_mpls_filter = c_struct
     [(''label'', c_u32)]"

definition ib_uverbs_flow_spec_mpls :: cty where
  "ib_uverbs_flow_spec_mpls = c_struct
     [('''', c_union [(''hdr'', ib_uverbs_flow_spec_hdr),
         ('''', c_struct [(''type'', c_u32), (''size'', c_u16), (''reserved'', c_u16)])]),
      (''val'', ib_uverbs_flow_mpls_filter), (''mask'', ib_uverbs_flow_mpls_filter)]"

definition ib_uverbs_flow_attr :: cty where
  "ib_uverbs_flow_attr = c_struct
     [(''type'', c_u32), (''size'', c_u16), (''priority'', c_u16), (''num_of_specs'', c_u8),
      (''reserved'', Array 2 c_u8), (''port'', c_u8), (''flags'', c_u32),
      (''flow_specs'', Trailing ib_uverbs_flow_spec_hdr)]"

definition ib_uverbs_create_flow :: cty where
  "ib_uverbs_create_flow = c_struct
     [(''comp_mask'', c_u32), (''qp_handle'', c_u32), (''flow_attr'', ib_uverbs_flow_attr)]"

definition ib_uverbs_create_flow_resp :: cty where
  "ib_uverbs_create_flow_resp = c_struct
     [(''comp_mask'', c_u32), (''flow_handle'', c_u32)]"

definition ib_uverbs_destroy_flow :: cty where
  "ib_uverbs_destroy_flow = c_struct
     [(''comp_mask'', c_u32), (''flow_handle'', c_u32)]"

definition ib_uverbs_create_srq :: cty where
  "ib_uverbs_create_srq = c_struct
     [(''response'', Aligned_u64), (''user_handle'', Aligned_u64), (''pd_handle'', c_u32),
      (''max_wr'', c_u32), (''max_sge'', c_u32), (''srq_limit'', c_u32),
      (''driver_data'', Trailing Aligned_u64)]"

definition ib_uverbs_create_xsrq :: cty where
  "ib_uverbs_create_xsrq = c_struct
     [(''response'', Aligned_u64), (''user_handle'', Aligned_u64), (''srq_type'', c_u32),
      (''pd_handle'', c_u32), (''max_wr'', c_u32), (''max_sge'', c_u32), (''srq_limit'', c_u32),
      (''max_num_tags'', c_u32), (''xrcd_handle'', c_u32), (''cq_handle'', c_u32),
      (''driver_data'', Trailing Aligned_u64)]"

definition ib_uverbs_create_srq_resp :: cty where
  "ib_uverbs_create_srq_resp = c_struct
     [(''srq_handle'', c_u32), (''max_wr'', c_u32), (''max_sge'', c_u32), (''srqn'', c_u32),
      (''driver_data'', Trailing c_u32)]"

definition ib_uverbs_modify_srq :: cty where
  "ib_uverbs_modify_srq = c_struct
     [(''srq_handle'', c_u32), (''attr_mask'', c_u32), (''max_wr'', c_u32), (''srq_limit'', c_u32),
      (''driver_data'', Trailing Aligned_u64)]"

definition ib_uverbs_query_srq :: cty where
  "ib_uverbs_query_srq = c_struct
     [(''response'', Aligned_u64), (''srq_handle'', c_u32), (''reserved'', c_u32),
      (''driver_data'', Trailing Aligned_u64)]"

definition ib_uverbs_query_srq_resp :: cty where
  "ib_uverbs_query_srq_resp = c_struct
     [(''max_wr'', c_u32), (''max_sge'', c_u32), (''srq_limit'', c_u32), (''reserved'', c_u32)]"

definition ib_uverbs_destroy_srq :: cty where
  "ib_uverbs_destroy_srq = c_struct
     [(''response'', Aligned_u64), (''srq_handle'', c_u32), (''reserved'', c_u32)]"

definition ib_uverbs_destroy_srq_resp :: cty where
  "ib_uverbs_destroy_srq_resp = c_struct
     [(''events_reported'', c_u32)]"

definition ib_uverbs_ex_create_wq :: cty where
  "ib_uverbs_ex_create_wq = c_struct
     [(''comp_mask'', c_u32), (''wq_type'', c_u32), (''user_handle'', Aligned_u64),
      (''pd_handle'', c_u32), (''cq_handle'', c_u32), (''max_wr'', c_u32), (''max_sge'', c_u32),
      (''create_flags'', c_u32), (''reserved'', c_u32)]"

definition ib_uverbs_ex_create_wq_resp :: cty where
  "ib_uverbs_ex_create_wq_resp = c_struct
     [(''comp_mask'', c_u32), (''response_length'', c_u32), (''wq_handle'', c_u32),
      (''max_wr'', c_u32), (''max_sge'', c_u32), (''wqn'', c_u32)]"

definition ib_uverbs_ex_destroy_wq :: cty where
  "ib_uverbs_ex_destroy_wq = c_struct
     [(''comp_mask'', c_u32), (''wq_handle'', c_u32)]"

definition ib_uverbs_ex_destroy_wq_resp :: cty where
  "ib_uverbs_ex_destroy_wq_resp = c_struct
     [(''comp_mask'', c_u32), (''response_length'', c_u32), (''events_reported'', c_u32),
      (''reserved'', c_u32)]"

definition ib_uverbs_ex_modify_wq :: cty where
  "ib_uverbs_ex_modify_wq = c_struct
     [(''attr_mask'', c_u32), (''wq_handle'', c_u32), (''wq_state'', c_u32),
      (''curr_wq_state'', c_u32), (''flags'', c_u32), (''flags_mask'', c_u32)]"

definition ib_uverbs_ex_create_rwq_ind_table :: cty where
  "ib_uverbs_ex_create_rwq_ind_table = c_struct
     [(''comp_mask'', c_u32), (''log_ind_tbl_size'', c_u32), (''wq_handles'', Trailing c_u32)]"

definition ib_uverbs_ex_create_rwq_ind_table_resp :: cty where
  "ib_uverbs_ex_create_rwq_ind_table_resp = c_struct
     [(''comp_mask'', c_u32), (''response_length'', c_u32), (''ind_tbl_handle'', c_u32),
      (''ind_tbl_num'', c_u32)]"

definition ib_uverbs_ex_destroy_rwq_ind_table :: cty where
  "ib_uverbs_ex_destroy_rwq_ind_table = c_struct
     [(''comp_mask'', c_u32), (''ind_tbl_handle'', c_u32)]"

definition ib_uverbs_cq_moderation :: cty where
  "ib_uverbs_cq_moderation = c_struct
     [(''cq_count'', c_u16), (''cq_period'', c_u16)]"

definition ib_uverbs_ex_modify_cq :: cty where
  "ib_uverbs_ex_modify_cq = c_struct
     [(''cq_handle'', c_u32), (''attr_mask'', c_u32), (''attr'', ib_uverbs_cq_moderation),
      (''reserved'', c_u32)]"

section \<open>\<open>kern-abi.h\<close>\<close>

definition ibv_kern_ipv4_filter :: cty where
  "ibv_kern_ipv4_filter = c_struct
     [(''src_ip'', c_u32), (''dst_ip'', c_u32)]"

definition ibv_kern_spec_ipv4 :: cty where
  "ibv_kern_spec_ipv4 = c_struct
     [(''type'', c_u32), (''size'', c_u16), (''reserved'', c_u16), (''val'', ibv_kern_ipv4_filter),
      (''mask'', ibv_kern_ipv4_filter)]"

definition ibv_kern_spec :: cty where
  "ibv_kern_spec = c_struct
     [('''', c_union [(''hdr'', ib_uverbs_flow_spec_hdr), (''eth'', ib_uverbs_flow_spec_eth),
         (''ipv4'', ibv_kern_spec_ipv4), (''ipv4_ext'', ib_uverbs_flow_spec_ipv4),
         (''esp'', ib_uverbs_flow_spec_esp), (''tcp_udp'', ib_uverbs_flow_spec_tcp_udp),
         (''ipv6'', ib_uverbs_flow_spec_ipv6), (''gre'', ib_uverbs_flow_spec_gre),
         (''tunnel'', ib_uverbs_flow_spec_tunnel), (''mpls'', ib_uverbs_flow_spec_mpls),
         (''flow_tag'', ib_uverbs_flow_spec_action_tag), (''drop'', ib_uverbs_flow_spec_action_drop),
         (''handle'', ib_uverbs_flow_spec_action_handle),
         (''flow_count'', ib_uverbs_flow_spec_action_count)])]"

definition ib_uverbs_modify_srq_v3 :: cty where
  "ib_uverbs_modify_srq_v3 = c_struct
     [(''srq_handle'', c_u32), (''attr_mask'', c_u32), (''max_wr'', c_u32), (''max_sge'', c_u32),
      (''srq_limit'', c_u32), (''reserved'', c_u32)]"

definition ibv_create_qp_resp_v3 :: cty where
  "ibv_create_qp_resp_v3 = c_struct
     [(''qp_handle'', c_u32), (''qpn'', c_u32)]"

definition ibv_create_qp_resp_v4 :: cty where
  "ibv_create_qp_resp_v4 = c_struct
     [(''qp_handle'', c_u32), (''qpn'', c_u32), (''max_send_wr'', c_u32), (''max_recv_wr'', c_u32),
      (''max_send_sge'', c_u32), (''max_recv_sge'', c_u32), (''max_inline_data'', c_u32)]"

definition ibv_create_srq_resp_v5 :: cty where
  "ibv_create_srq_resp_v5 = c_struct
     [(''srq_handle'', c_u32)]"

section \<open>\<open>efa-win-abi.h\<close>\<close>

definition efa_ibv_alloc_ucontext_cmd :: cty where
  "efa_ibv_alloc_ucontext_cmd = c_struct
     [(''comp_mask'', c_u32), (''reserved_20'', Array 4 c_u8)]"

definition efa_ibv_alloc_ucontext_resp :: cty where
  "efa_ibv_alloc_ucontext_resp = c_struct
     [(''comp_mask'', c_u32), (''cmds_supp_udata_mask'', c_u32), (''sub_cqs_per_cq'', c_u16),
      (''inline_buf_size'', c_u16), (''max_llq_size'', c_u32), (''max_tx_batch'', c_u16),
      (''min_sq_wr'', c_u16), (''reserved_a0'', Array 4 c_u8)]"

definition efa_ibv_alloc_pd_resp :: cty where
  "efa_ibv_alloc_pd_resp = c_struct
     [(''comp_mask'', c_u32), (''pdn'', c_u16), (''reserved_30'', Array 2 c_u8)]"

definition efa_ibv_create_cq :: cty where
  "efa_ibv_create_cq = c_struct
     [(''comp_mask'', c_u32), (''cq_entry_size'', c_u32), (''num_sub_cqs'', c_u16),
      (''reserved_50'', Array 6 c_u8)]"

definition efa_ibv_create_cq_resp :: cty where
  "efa_ibv_create_cq_resp = c_struct
     [(''comp_mask'', c_u32), (''reserved_20'', Array 4 c_u8), (''q_mmap_key'', Aligned_u64),
      (''q_mmap_size'', Aligned_u64), (''cq_idx'', c_u16), (''reserved_d0'', Array 6 c_u8)]"

definition efa_ibv_create_qp :: cty where
  "efa_ibv_create_qp = c_struct
     [(''comp_mask'', c_u32), (''rq_ring_size'', c_u32), (''sq_ring_size'', c_u32),
      (''driver_qp_type'', c_u32)]"

definition efa_ibv_create_qp_resp :: cty where
  "efa_ibv_create_qp_resp = c_struct
     [(''comp_mask'', c_u32), (''rq_db_offset'', c_u32), (''sq_db_offset'', c_u32),
      (''llq_desc_offset'', c_u32), (''rq_mmap_key'', Aligned_u64), (''rq_mmap_size'', Aligned_u64),
      (''rq_db_mmap_key'', Aligned_u64), (''sq_db_mmap_key'', Aligned_u64),
      (''llq_desc_mmap_key'', Aligned_u64), (''send_sub_cq_idx'', c_u16),
      (''recv_sub_cq_idx'', c_u16), (''reserved_1e0'', Array 4 c_u8)]"

definition efa_ibv_create_ah_resp :: cty where
  "efa_ibv_create_ah_resp = c_struct
     [(''comp_mask'', c_u32), (''efa_address_handle'', c_u16), (''reserved_30'', Array 2 c_u8)]"

definition efa_ibv_ex_query_device_resp :: cty where
  "efa_ibv_ex_query_device_resp = c_struct
     [(''comp_mask'', c_u32), (''max_sq_wr'', c_u32), (''max_rq_wr'', c_u32),
      (''max_sq_sge'', c_u16), (''max_rq_sge'', c_u16), (''max_rdma_size'', c_u32),
      (''device_caps'', c_u32)]"

section \<open>Tables\<close>

text \<open>All structs of \<open>ib_user_verbs.h\<close>.\<close>

definition uverbs_structs :: "cty list" where
  "uverbs_structs =
     [ib_uverbs_async_event_desc, ib_uverbs_comp_event_desc, ib_uverbs_cq_moderation_caps,
      ib_uverbs_cmd_hdr, ib_uverbs_ex_cmd_hdr, ib_uverbs_get_context, ib_uverbs_get_context_resp,
      ib_uverbs_query_device, ib_uverbs_query_device_resp, ib_uverbs_ex_query_device,
      ib_uverbs_odp_caps, ib_uverbs_rss_caps, ib_uverbs_tm_caps, ib_uverbs_ex_query_device_resp,
      ib_uverbs_query_port, ib_uverbs_query_port_resp, ib_uverbs_alloc_pd,
      ib_uverbs_alloc_pd_resp, ib_uverbs_dealloc_pd, ib_uverbs_open_xrcd,
      ib_uverbs_open_xrcd_resp, ib_uverbs_close_xrcd, ib_uverbs_reg_mr, ib_uverbs_reg_mr_resp,
      ib_uverbs_rereg_mr, ib_uverbs_rereg_mr_resp, ib_uverbs_dereg_mr, ib_uverbs_alloc_mw,
      ib_uverbs_alloc_mw_resp, ib_uverbs_dealloc_mw, ib_uverbs_create_comp_channel,
      ib_uverbs_create_comp_channel_resp, ib_uverbs_create_cq, ib_uverbs_ex_create_cq,
      ib_uverbs_create_cq_resp, ib_uverbs_ex_create_cq_resp, ib_uverbs_resize_cq,
      ib_uverbs_resize_cq_resp, ib_uverbs_poll_cq, ib_uverbs_wc, ib_uverbs_poll_cq_resp,
      ib_uverbs_req_notify_cq, ib_uverbs_destroy_cq, ib_uverbs_destroy_cq_resp,
      ib_uverbs_global_route, ib_uverbs_ah_attr, ib_uverbs_qp_attr, ib_uverbs_create_qp,
      ib_uverbs_ex_create_qp, ib_uverbs_open_qp, ib_uverbs_create_qp_resp,
      ib_uverbs_ex_create_qp_resp, ib_uverbs_qp_dest, ib_uverbs_query_qp,
      ib_uverbs_query_qp_resp, ib_uverbs_modify_qp, ib_uverbs_ex_modify_qp,
      ib_uverbs_ex_modify_qp_resp, ib_uverbs_destroy_qp, ib_uverbs_destroy_qp_resp,
      ib_uverbs_sge, ib_uverbs_send_wr, ib_uverbs_post_send, ib_uverbs_post_send_resp,
      ib_uverbs_recv_wr, ib_uverbs_post_recv, ib_uverbs_post_recv_resp, ib_uverbs_post_srq_recv,
      ib_uverbs_post_srq_recv_resp, ib_uverbs_create_ah, ib_uverbs_create_ah_resp,
      ib_uverbs_destroy_ah, ib_uverbs_attach_mcast, ib_uverbs_detach_mcast,
      ib_uverbs_flow_spec_hdr, ib_uverbs_flow_eth_filter, ib_uverbs_flow_spec_eth,
      ib_uverbs_flow_ipv4_filter, ib_uverbs_flow_spec_ipv4, ib_uverbs_flow_tcp_udp_filter,
      ib_uverbs_flow_spec_tcp_udp, ib_uverbs_flow_ipv6_filter, ib_uverbs_flow_spec_ipv6,
      ib_uverbs_flow_spec_action_tag, ib_uverbs_flow_spec_action_drop,
      ib_uverbs_flow_spec_action_handle, ib_uverbs_flow_spec_action_count,
      ib_uverbs_flow_tunnel_filter, ib_uverbs_flow_spec_tunnel, ib_uverbs_flow_spec_esp_filter,
      ib_uverbs_flow_spec_esp, ib_uverbs_flow_gre_filter, ib_uverbs_flow_spec_gre,
      ib_uverbs_flow_mpls_filter, ib_uverbs_flow_spec_mpls, ib_uverbs_flow_attr,
      ib_uverbs_create_flow, ib_uverbs_create_flow_resp, ib_uverbs_destroy_flow,
      ib_uverbs_create_srq, ib_uverbs_create_xsrq, ib_uverbs_create_srq_resp,
      ib_uverbs_modify_srq, ib_uverbs_query_srq, ib_uverbs_query_srq_resp, ib_uverbs_destroy_srq,
      ib_uverbs_destroy_srq_resp, ib_uverbs_ex_create_wq, ib_uverbs_ex_create_wq_resp,
      ib_uverbs_ex_destroy_wq, ib_uverbs_ex_destroy_wq_resp, ib_uverbs_ex_modify_wq,
      ib_uverbs_ex_create_rwq_ind_table, ib_uverbs_ex_create_rwq_ind_table_resp,
      ib_uverbs_ex_destroy_rwq_ind_table, ib_uverbs_cq_moderation, ib_uverbs_ex_modify_cq]"

text \<open>Those of \<open>kern-abi.h\<close>.\<close>

definition kern_structs :: "cty list" where
  "kern_structs =
     [ibv_kern_ipv4_filter, ibv_kern_spec_ipv4, ibv_kern_spec, ib_uverbs_modify_srq_v3,
      ibv_create_qp_resp_v3, ibv_create_qp_resp_v4, ibv_create_srq_resp_v5]"

text \<open>Those of \<open>efa-win-abi.h\<close>.\<close>

definition efa_abi_structs :: "cty list" where
  "efa_abi_structs =
     [efa_ibv_alloc_ucontext_cmd, efa_ibv_alloc_ucontext_resp, efa_ibv_alloc_pd_resp,
      efa_ibv_create_cq, efa_ibv_create_cq_resp, efa_ibv_create_qp, efa_ibv_create_qp_resp,
      efa_ibv_create_ah_resp, efa_ibv_ex_query_device_resp]"

lemmas uverbs_structs_defs =
  ib_uverbs_async_event_desc_def ib_uverbs_comp_event_desc_def ib_uverbs_cq_moderation_caps_def
  ib_uverbs_cmd_hdr_def ib_uverbs_ex_cmd_hdr_def ib_uverbs_get_context_def
  ib_uverbs_get_context_resp_def ib_uverbs_query_device_def ib_uverbs_query_device_resp_def
  ib_uverbs_ex_query_device_def ib_uverbs_odp_caps_def ib_uverbs_rss_caps_def
  ib_uverbs_tm_caps_def ib_uverbs_ex_query_device_resp_def ib_uverbs_query_port_def
  ib_uverbs_query_port_resp_def ib_uverbs_alloc_pd_def ib_uverbs_alloc_pd_resp_def
  ib_uverbs_dealloc_pd_def ib_uverbs_open_xrcd_def ib_uverbs_open_xrcd_resp_def
  ib_uverbs_close_xrcd_def ib_uverbs_reg_mr_def ib_uverbs_reg_mr_resp_def ib_uverbs_rereg_mr_def
  ib_uverbs_rereg_mr_resp_def ib_uverbs_dereg_mr_def ib_uverbs_alloc_mw_def
  ib_uverbs_alloc_mw_resp_def ib_uverbs_dealloc_mw_def ib_uverbs_create_comp_channel_def
  ib_uverbs_create_comp_channel_resp_def ib_uverbs_create_cq_def ib_uverbs_ex_create_cq_def
  ib_uverbs_create_cq_resp_def ib_uverbs_ex_create_cq_resp_def ib_uverbs_resize_cq_def
  ib_uverbs_resize_cq_resp_def ib_uverbs_poll_cq_def ib_uverbs_wc_def ib_uverbs_poll_cq_resp_def
  ib_uverbs_req_notify_cq_def ib_uverbs_destroy_cq_def ib_uverbs_destroy_cq_resp_def
  ib_uverbs_global_route_def ib_uverbs_ah_attr_def ib_uverbs_qp_attr_def ib_uverbs_create_qp_def
  ib_uverbs_ex_create_qp_def ib_uverbs_open_qp_def ib_uverbs_create_qp_resp_def
  ib_uverbs_ex_create_qp_resp_def ib_uverbs_qp_dest_def ib_uverbs_query_qp_def
  ib_uverbs_query_qp_resp_def ib_uverbs_modify_qp_def ib_uverbs_ex_modify_qp_def
  ib_uverbs_ex_modify_qp_resp_def ib_uverbs_destroy_qp_def ib_uverbs_destroy_qp_resp_def
  ib_uverbs_sge_def ib_uverbs_send_wr_def ib_uverbs_post_send_def ib_uverbs_post_send_resp_def
  ib_uverbs_recv_wr_def ib_uverbs_post_recv_def ib_uverbs_post_recv_resp_def
  ib_uverbs_post_srq_recv_def ib_uverbs_post_srq_recv_resp_def ib_uverbs_create_ah_def
  ib_uverbs_create_ah_resp_def ib_uverbs_destroy_ah_def ib_uverbs_attach_mcast_def
  ib_uverbs_detach_mcast_def ib_uverbs_flow_spec_hdr_def ib_uverbs_flow_eth_filter_def
  ib_uverbs_flow_spec_eth_def ib_uverbs_flow_ipv4_filter_def ib_uverbs_flow_spec_ipv4_def
  ib_uverbs_flow_tcp_udp_filter_def ib_uverbs_flow_spec_tcp_udp_def ib_uverbs_flow_ipv6_filter_def
  ib_uverbs_flow_spec_ipv6_def ib_uverbs_flow_spec_action_tag_def
  ib_uverbs_flow_spec_action_drop_def ib_uverbs_flow_spec_action_handle_def
  ib_uverbs_flow_spec_action_count_def ib_uverbs_flow_tunnel_filter_def
  ib_uverbs_flow_spec_tunnel_def ib_uverbs_flow_spec_esp_filter_def ib_uverbs_flow_spec_esp_def
  ib_uverbs_flow_gre_filter_def ib_uverbs_flow_spec_gre_def ib_uverbs_flow_mpls_filter_def
  ib_uverbs_flow_spec_mpls_def ib_uverbs_flow_attr_def ib_uverbs_create_flow_def
  ib_uverbs_create_flow_resp_def ib_uverbs_destroy_flow_def ib_uverbs_create_srq_def
  ib_uverbs_create_xsrq_def ib_uverbs_create_srq_resp_def ib_uverbs_modify_srq_def
  ib_uverbs_query_srq_def ib_uverbs_query_srq_resp_def ib_uverbs_destroy_srq_def
  ib_uverbs_destroy_srq_resp_def ib_uverbs_ex_create_wq_def ib_uverbs_ex_create_wq_resp_def
  ib_uverbs_ex_destroy_wq_def ib_uverbs_ex_destroy_wq_resp_def ib_uverbs_ex_modify_wq_def
  ib_uverbs_ex_create_rwq_ind_table_def ib_uverbs_ex_create_rwq_ind_table_resp_def
  ib_uverbs_ex_destroy_rwq_ind_table_def ib_uverbs_cq_moderation_def ib_uverbs_ex_modify_cq_def

lemmas efa_abi_structs_defs =
  efa_ibv_alloc_ucontext_cmd_def efa_ibv_alloc_ucontext_resp_def efa_ibv_alloc_pd_resp_def
  efa_ibv_create_cq_def efa_ibv_create_cq_resp_def efa_ibv_create_qp_def
  efa_ibv_create_qp_resp_def efa_ibv_create_ah_resp_def efa_ibv_ex_query_device_resp_def

end
