(* ===== verification/Efa_Abi.thy ===== *)
theory Efa_Abi
  imports Efa_Uverbs_Abi
begin

text \<open>
  The promises of the headers of the kernel interface about their own layout, checked: the comment of
  \<open>ib_user_verbs.h\<close> that all structs lie the same way on every architecture, that of
  \<open>efa-win-abi.h\<close> about the names of reserved members, and the static assertions of \<open>kern-abi.h\<close>. On
  Windows \<open>efacompat.h\<close> defines \<open>__aligned_u64\<close> with 64 for the 8 it has elsewhere, and the trailing
  arrays have one element.
\<close>

definition linux64 :: abi where
  "linux64 = \<lparr>a_scalar = 8, a_aligned = 8, a_trailing = 0\<rparr>"

definition linux32 :: abi where
  "linux32 = \<lparr>a_scalar = 4, a_aligned = 8, a_trailing = 0\<rparr>"

definition windows :: abi where
  "windows = \<lparr>a_scalar = 8, a_aligned = 64, a_trailing = 1\<rparr>"

section \<open>One layout on every architecture\<close>

lemma structs_tight: "list_all (\<lambda>t. c_tight linux64 t \<and> c_wf t) (uverbs_structs @ efa_abi_structs)"
  by code_simp

text \<open>
  C39: the kernel interface has one layout. None of its structs has padding, so on every architecture
  that aligns integers to a power of two of at most 8 bytes each has the same size and the same
  offsets as on 64-bit Linux.
\<close>

theorem kernel_abi_layout_fixed:
  assumes "finer B linux64" "t \<in> set (uverbs_structs @ efa_abi_structs)"
  shows "same_layout B linux64 t"
  using assms structs_tight by (intro tight_same_layout) (auto simp: list_all_iff)

lemma finer_linux32: "finer linux32 linux64"
  by (auto simp: finer_def linux32_def linux64_def intro: pow2_small)

theorem kernel_abi_layout_fixed_witness:
  "same_layout linux32 linux64 ib_uverbs_query_device_resp \<and>
   c_size linux32 ib_uverbs_query_device_resp = 176"
proof -
  have "ib_uverbs_query_device_resp \<in> set (uverbs_structs @ efa_abi_structs)" by (simp add: uverbs_structs_def)
  from kernel_abi_layout_fixed [OF finer_linux32 this]
  have "same_layout linux32 linux64 ib_uverbs_query_device_resp" .
  moreover have "c_size linux64 ib_uverbs_query_device_resp = 176" by code_simp
  ultimately show ?thesis by (simp add: same_layout_def)
qed

text \<open>
  The comment also asks for a multiple of 8 bytes from every struct of more than 4. Some have 12.
\<close>

theorem sizes_not_multiple_of_8:
  "(\<forall>t \<in> set uverbs_structs. 4 < c_size linux64 t \<and> c_size linux64 t mod 8 \<noteq> 0 \<longrightarrow> c_size linux64 t = 12) \<and>
   c_size linux64 ib_uverbs_reg_mr_resp = 12 \<and> c_size linux64 ib_uverbs_flow_ipv4_filter = 12"
proof -
  have "list_all (\<lambda>t. 4 < c_size linux64 t \<and> c_size linux64 t mod 8 \<noteq> 0 \<longrightarrow> c_size linux64 t = 12) uverbs_structs"
    by code_simp
  moreover have "c_size linux64 ib_uverbs_reg_mr_resp = 12" "c_size linux64 ib_uverbs_flow_ipv4_filter = 12"
    by code_simp+
  ultimately show ?thesis unfolding list_all_iff by blast
qed

section \<open>The layout on Windows\<close>

primrec plain :: "cty \<Rightarrow> bool" and m_plain :: "members \<Rightarrow> bool" where
  "plain (Scalar n) = True"
| "plain Aligned_u64 = False"
| "plain (Array n t) = plain t"
| "plain (Trailing t) = False"
| "plain (Struct ms) = m_plain ms"
| "plain (Union ms) = m_plain ms"
| "m_plain End = True"
| "m_plain (Field f t ms) = (plain t \<and> m_plain ms)"

text \<open>\<open>reserved_1e0\<close> says that the member begins at bit \<open>1e0\<close>.\<close>

fun hex_digit :: "char \<Rightarrow> nat" where
  "hex_digit c = (let n = of_char c in if n < 58 then n - 48 else n - 87)"

definition reserved_bits :: "string \<Rightarrow> nat option" where
  "reserved_bits f =
     (if take 9 f = ''reserved_'' then Some (foldl (\<lambda>n c. 16 * n + hex_digit c) 0 (drop 9 f)) else None)"

definition reserved_names_ok :: "abi \<Rightarrow> cty \<Rightarrow> bool" where
  "reserved_names_ok A t \<longleftrightarrow>
     list_all (\<lambda>(f, off). case reserved_bits f of None \<Rightarrow> True | Some n \<Rightarrow> n = 8 * off) (c_offsets A t)"

text \<open>
  C40: on Windows the structs with \<open>__aligned_u64\<close> members lie differently. A struct of the kernel
  interface has the same layout on Windows as on Linux exactly when it has no \<open>__aligned_u64\<close> and no
  trailing array, or is \<open>ib_uverbs_ex_create_qp\<close>, which fills 64 bytes by chance. On Linux every struct of \<open>efa-win-abi.h\<close> is a multiple of 8 bytes long and the
  name of every reserved member gives its offset, as the comment asks; on Windows the names are
  wrong in the replies to the creation of a completion queue and of a queue pair.
\<close>

theorem windows_abi_layout:
  "(\<forall>t \<in> set (uverbs_structs @ efa_abi_structs). 
      same_layout windows linux64 t \<longleftrightarrow> plain t \<or> t = ib_uverbs_ex_create_qp) \<and>
   (\<forall>t \<in> set efa_abi_structs. c_size linux64 t mod 8 = 0 \<and> reserved_names_ok linux64 t) \<and>
   (\<forall>t \<in> set efa_abi_structs. reserved_names_ok windows t \<longleftrightarrow> plain t) \<and>
   (\<forall>t \<in> set efa_abi_structs. plain t \<longleftrightarrow> t \<notin> {efa_ibv_create_cq_resp, efa_ibv_create_qp_resp}) \<and>
   c_size linux64 efa_ibv_create_qp_resp = 64 \<and> c_size windows efa_ibv_create_qp_resp = 384"
proof -
  have "list_all (\<lambda>t. same_layout windows linux64 t = (plain t \<or> t = ib_uverbs_ex_create_qp)) (uverbs_structs @ efa_abi_structs)"
    unfolding same_layout_def by code_simp
  moreover have "list_all (\<lambda>t. c_size linux64 t mod 8 = 0 \<and> reserved_names_ok linux64 t) efa_abi_structs" by code_simp
  moreover have "list_all (\<lambda>t. reserved_names_ok windows t = plain t) efa_abi_structs" by code_simp
  moreover have "list_all (\<lambda>t. plain t = (t \<notin> {efa_ibv_create_cq_resp, efa_ibv_create_qp_resp})) efa_abi_structs"
    by code_simp
  moreover have "c_size linux64 efa_ibv_create_qp_resp = 64" "c_size windows efa_ibv_create_qp_resp = 384"
    by code_simp+
  ultimately show ?thesis unfolding list_all_iff by blast
qed

theorem windows_abi_layout_witness:
  "\<not> same_layout windows linux64 efa_ibv_create_cq_resp \<and> same_layout windows linux64 efa_ibv_create_cq"
proof -
  have "efa_ibv_create_cq_resp \<in> set (uverbs_structs @ efa_abi_structs)"
    "efa_ibv_create_cq \<in> set (uverbs_structs @ efa_abi_structs)" by (simp_all add: efa_abi_structs_def)
  moreover have "\<not> (plain efa_ibv_create_cq_resp \<or> efa_ibv_create_cq_resp = ib_uverbs_ex_create_qp)"
    "plain efa_ibv_create_cq" by code_simp+
  ultimately show ?thesis using conjunct1 [OF windows_abi_layout] by blast
qed

section \<open>The static assertions\<close>

text \<open>\<open>struct empty\<close>: of no size in \<open>kern-abi.h\<close>, of one byte in \<open>win-ibv.h\<close>.\<close>

definition kabi_empty :: cty where
  "kabi_empty = c_struct []"

definition win_empty :: cty where
  "win_empty = c_struct [(''dummy'', c_u8)]"

definition ex_hdr :: cty where
  "ex_hdr = c_struct [(''hdr'', ib_uverbs_cmd_hdr), (''ex_hdr'', ib_uverbs_ex_cmd_hdr)]"

definition cmd_struct :: "cty \<Rightarrow> cty \<Rightarrow> cty" where
  "cmd_struct hdr kabi = c_struct [(''hdr'', hdr), ([], c_union [([], kabi), (''core_payload'', kabi)])]"

definition DECLARE_CMDX :: "abi \<Rightarrow> int \<Rightarrow> cty \<Rightarrow> cty \<Rightarrow> bool" where
  "DECLARE_CMDX A enum kabi kabi_resp \<longleftrightarrow>
     c_size A kabi_resp mod 4 = 0 \<and> enum \<noteq> - 1 \<and>
     c_size A (cmd_struct ib_uverbs_cmd_hdr kabi) = c_size A ib_uverbs_cmd_hdr + c_size A kabi"

definition DECLARE_CMD_EXX :: "abi \<Rightarrow> int \<Rightarrow> cty \<Rightarrow> cty \<Rightarrow> bool" where
  "DECLARE_CMD_EXX A enum kabi kabi_resp \<longleftrightarrow>
     enum \<noteq> - 1 \<and> c_size A kabi mod 8 = 0 \<and> c_size A kabi_resp mod 8 = 0 \<and>
     c_size A (cmd_struct ex_hdr kabi) = c_size A ex_hdr + c_size A kabi \<and>
     c_size A (cmd_struct ex_hdr kabi) mod 8 = 0"

definition drv_struct :: "cty \<Rightarrow> cty \<Rightarrow> cty" where
  "drv_struct core drv = c_struct [(''ibv'', core), ([], c_union [([], drv), (''drv_payload'', drv)])]"

definition DECLARE_DRV_CMD :: "abi \<Rightarrow> bool \<Rightarrow> cty \<Rightarrow> cty \<Rightarrow> cty \<Rightarrow> cty \<Rightarrow> bool" where
  "DECLARE_DRV_CMD A ex req resp kabi_req kabi_resp \<longleftrightarrow>
     (let cmd = cmd_struct (if ex then ex_hdr else ib_uverbs_cmd_hdr) req; al = (if ex then 8 else 4) in
      c_size A req mod c_align A kabi_req = 0 \<and>
      c_size A (drv_struct cmd kabi_req) = c_size A cmd + c_size A kabi_req \<and>
      c_size A (drv_struct cmd kabi_req) mod al = 0 \<and>
      c_size A resp mod c_align A kabi_resp = 0 \<and>
      c_size A (drv_struct resp kabi_resp) = c_size A resp + c_size A kabi_resp \<and>
      c_size A (drv_struct resp kabi_resp) mod al = 0)"

text \<open>The \<open>DECLARE_CMD\<close> and \<open>DECLARE_CMDX\<close> lines of \<open>kern-abi.h\<close>: command, request, response.\<close>

definition kern_cmds :: "(int \<times> cty \<times> cty) list" where
  "kern_cmds =
     [(14, ib_uverbs_alloc_mw, ib_uverbs_alloc_mw_resp),
      (3, ib_uverbs_alloc_pd, ib_uverbs_alloc_pd_resp),
      (30, ib_uverbs_attach_mcast, kabi_empty),
      (38, ib_uverbs_close_xrcd, kabi_empty),
      (5, ib_uverbs_create_ah, ib_uverbs_create_ah_resp),
      (17, ib_uverbs_create_comp_channel, ib_uverbs_create_comp_channel_resp),
      (18, ib_uverbs_create_cq, ib_uverbs_create_cq_resp),
      (24, ib_uverbs_create_qp, ib_uverbs_create_qp_resp),
      (32, ib_uverbs_create_srq, ib_uverbs_create_srq_resp),
      (39, ib_uverbs_create_xsrq, ib_uverbs_create_srq_resp),
      (16, ib_uverbs_dealloc_mw, kabi_empty),
      (4, ib_uverbs_dealloc_pd, kabi_empty),
      (13, ib_uverbs_dereg_mr, kabi_empty),
      (8, ib_uverbs_destroy_ah, kabi_empty),
      (20, ib_uverbs_destroy_cq, ib_uverbs_destroy_cq_resp),
      (27, ib_uverbs_destroy_qp, ib_uverbs_destroy_qp_resp),
      (35, ib_uverbs_destroy_srq, ib_uverbs_destroy_srq_resp),
      (31, ib_uverbs_detach_mcast, kabi_empty),
      (0, ib_uverbs_get_context, ib_uverbs_get_context_resp),
      (26, ib_uverbs_modify_qp, kabi_empty),
      (33, ib_uverbs_modify_srq, kabi_empty),
      (40, ib_uverbs_open_qp, ib_uverbs_create_qp_resp),
      (37, ib_uverbs_open_xrcd, ib_uverbs_open_xrcd_resp),
      (21, ib_uverbs_poll_cq, ib_uverbs_poll_cq_resp),
      (29, ib_uverbs_post_recv, ib_uverbs_post_recv_resp),
      (28, ib_uverbs_post_send, ib_uverbs_post_send_resp),
      (36, ib_uverbs_post_srq_recv, ib_uverbs_post_srq_recv_resp),
      (1, ib_uverbs_query_device, ib_uverbs_query_device_resp),
      (2, ib_uverbs_query_port, ib_uverbs_query_port_resp),
      (25, ib_uverbs_query_qp, ib_uverbs_query_qp_resp),
      (34, ib_uverbs_query_srq, ib_uverbs_query_srq_resp),
      (9, ib_uverbs_reg_mr, ib_uverbs_reg_mr_resp),
      (23, ib_uverbs_req_notify_cq, kabi_empty),
      (11, ib_uverbs_rereg_mr, ib_uverbs_rereg_mr_resp),
      (19, ib_uverbs_resize_cq, ib_uverbs_resize_cq_resp)]"

text \<open>Those for older versions of the interface.\<close>

definition kern_old_cmds :: "(int \<times> cty \<times> cty) list" where
  "kern_old_cmds =
     [(33, ib_uverbs_modify_srq_v3, kabi_empty),
      (32, ib_uverbs_create_srq, ibv_create_srq_resp_v5),
      (24, ib_uverbs_create_qp, ibv_create_qp_resp_v4),
      (24, ib_uverbs_create_qp, ibv_create_qp_resp_v3)]"

text \<open>The \<open>DECLARE_CMD_EX\<close> and \<open>DECLARE_CMD_EXX\<close> lines.\<close>

definition kern_ex_cmds :: "(int \<times> cty \<times> cty) list" where
  "kern_ex_cmds =
     [(18, ib_uverbs_ex_create_cq, ib_uverbs_ex_create_cq_resp),
      (50, ib_uverbs_create_flow, ib_uverbs_create_flow_resp),
      (24, ib_uverbs_ex_create_qp, ib_uverbs_ex_create_qp_resp),
      (55, ib_uverbs_ex_create_rwq_ind_table, ib_uverbs_ex_create_rwq_ind_table_resp),
      (52, ib_uverbs_ex_create_wq, ib_uverbs_ex_create_wq_resp),
      (51, ib_uverbs_destroy_flow, kabi_empty),
      (56, ib_uverbs_ex_destroy_rwq_ind_table, kabi_empty),
      (54, ib_uverbs_ex_destroy_wq, ib_uverbs_ex_destroy_wq_resp),
      (57, ib_uverbs_ex_modify_cq, kabi_empty),
      (26, ib_uverbs_ex_modify_qp, ib_uverbs_ex_modify_qp_resp),
      (53, ib_uverbs_ex_modify_wq, kabi_empty),
      (1, ib_uverbs_ex_query_device, ib_uverbs_ex_query_device_resp)]"

text \<open>
  The \<open>DECLARE_DRV_CMD\<close> lines of \<open>win-ibv.h\<close>: whether the command is an extended one, its request and
  response, and what the driver adds to each; \<open>emp\<close> is the \<open>struct empty\<close> in use.
\<close>

definition efa_drv_cmds :: "cty \<Rightarrow> (bool \<times> cty \<times> cty \<times> cty \<times> cty) list" where
  "efa_drv_cmds emp =
     [(False, ib_uverbs_alloc_pd, ib_uverbs_alloc_pd_resp, emp, efa_ibv_alloc_pd_resp),
      (True, ib_uverbs_ex_create_cq, ib_uverbs_ex_create_cq_resp, efa_ibv_create_cq, efa_ibv_create_cq_resp),
      (False, ib_uverbs_create_qp, ib_uverbs_create_qp_resp, efa_ibv_create_qp, efa_ibv_create_qp_resp),
      (False, ib_uverbs_create_ah, ib_uverbs_create_ah_resp, emp, efa_ibv_create_ah_resp),
      (True, ib_uverbs_ex_query_device, ib_uverbs_ex_query_device_resp, emp, efa_ibv_ex_query_device_resp),
      (False, ib_uverbs_get_context, ib_uverbs_get_context_resp, efa_ibv_alloc_ucontext_cmd, efa_ibv_alloc_ucontext_resp)]"

text \<open>
  The static assertions of \<open>kern-abi.h\<close> hold for all the commands it declares, and hold for the
  commands of this provider, declared in \<open>win-ibv.h\<close>, where they were left out. With the one-byte
  \<open>struct empty\<close> that header has, they would fail for three of the six.
\<close>

theorem abi_static_asserts:
  "(\<forall>(e, req, resp) \<in> set (kern_cmds @ kern_old_cmds). DECLARE_CMDX linux64 e req resp) \<and>
   (\<forall>(e, req, resp) \<in> set kern_ex_cmds. DECLARE_CMD_EXX linux64 e req resp) \<and>
   (\<forall>(ex, req, resp, dreq, dresp) \<in> set (efa_drv_cmds kabi_empty). DECLARE_DRV_CMD linux64 ex req resp dreq dresp) \<and>
   map (\<lambda>(ex, req, resp, dreq, dresp). DECLARE_DRV_CMD linux64 ex req resp dreq dresp) (efa_drv_cmds win_empty) =
     [False, True, True, False, False, True]"
proof -
  have "list_all (\<lambda>(e, req, resp). DECLARE_CMDX linux64 e req resp) (kern_cmds @ kern_old_cmds)" by code_simp
  moreover have "list_all (\<lambda>(e, req, resp). DECLARE_CMD_EXX linux64 e req resp) kern_ex_cmds" by code_simp
  moreover have "list_all (\<lambda>(ex, req, resp, dreq, dresp). DECLARE_DRV_CMD linux64 ex req resp dreq dresp)
      (efa_drv_cmds kabi_empty)" by code_simp
  moreover have "map (\<lambda>(ex, req, resp, dreq, dresp). DECLARE_DRV_CMD linux64 ex req resp dreq dresp)
      (efa_drv_cmds win_empty) = [False, True, True, False, False, True]" by code_simp
  ultimately show ?thesis unfolding list_all_iff by blast
qed

end
