(* ===== verification/Spec2Isabelle.thy ===== *)
theory Spec2Isabelle
  imports Efa_Util Efa_Io_Defs Efa_Mmio Efa_Objects Efa_Wq Efa_Cq Efa_Cq_Ring Efa_Poll Efa_Sq
    Efa_Payload Efa_Poster Efa_Send Efa_Capacity Efa_Session Efa_Abort Efa_Equiv Efa_Rq Efa_Exports Efa_Loader
    Efa_Driver Efa_Qp_Create Efa_Qp_Life Efa_Qp_Sizes Efa_Qp_Ready Efa_Qp_Contract Efa_Registry
    Efa_Cq_Rings Efa_Cq_Contract Efa_Resources Efa_Posting Efa_Delivery Efa_Qp_Edges Efa_Ah_Contract
    Efa_Device_Contract Efa_Loader_Contract Efa_Verbs_Inline Efa_Verbs_Contract
    Efa_Pthread Efa_Threads Efa_Concurrency Efa_Crossed Efa_Layout Efa_Uverbs_Abi Efa_Abi
begin

text \<open>
  A model of the EFA user-space provider for Windows: the library \<open>efawin.dll\<close> that posts work to
  an Elastic Fabric Adapter and polls its completions (\<open>src/efawin\<close>), the interface library that
  applications link and that loads the DLL (\<open>src/interface\<close>), and the headers they share
  (\<open>src/include\<close>, \<open>src/util\<close>). The platform is 64-bit Windows: \<open>_WIN32\<close> is defined, \<open>long\<close> has 32
  bits and pointers have 64.

  \<^bold>\<open>The program.\<close> An application calls a verb. A prototype of \<open>verbs.h\<close> is a function of the
  interface library, which forwards it through a table of functions to the export of the DLL
  (\<open>efawin/efawin.c\<close>); an inline verb looks up the operation in the context and calls it. The
  provider (\<open>efawin/verbs.c\<close>) then works on one of two paths. The data path posts descriptors into
  rings the device reads, rings doorbells, and polls completion rings the device writes; it makes
  no system call. The control path creates and destroys the objects; it goes through the command
  layer (\<open>efawin/ibv_win_cmd.c\<close>), which fills parameter structs and hands them to the kernel driver
  with \<open>DeviceIoControl\<close> (\<open>efawin/efawinif.c\<close>). The paths meet in the queue pair and in the table
  of queue pairs of a context, from which polling finds the queue a completion belongs to.

  \<^bold>\<open>How code becomes definitions.\<close> A struct is a \<open>record\<close>, an enum a \<open>datatype\<close> with its values, an
  integer a word of its width. A C function is a function of the state it reads and returns the
  state it leaves; return codes are \<open>int\<close>. Undefined behaviour (an access outside an array or
  through a null, stale or freed pointer, a double free, a division by zero, a shift by the width)
  is the value \<open>None\<close>, so a theorem that a call is \<open>Some\<close> also says that it is defined.
  What happens outside the program is an argument: the outcome of each allocation, the driver
  (\<open>'d driver\<close>, one function per request), the operating system that loads the DLL (\<open>'o os\<close>), the
  memory of the application (\<open>umem\<close>). Stores to device memory and doorbells are the events of a
  \<open>trace\<close>. A lock is a counter, since a \<open>CRITICAL_SECTION\<close> is recursive. Objects live in the maps
  of a \<open>world\<close> (\<open>Efa_World\<close>), from an address to the object; the static variables of
  \<open>efawin/efa_win_cmd.c\<close> are in \<open>process\<close>, those of the interface library in \<open>loader\<close>.

  \<^bold>\<open>The theories.\<close>

  \<^item> \<open>Efa_Prelude\<close>, \<open>Efa_Bytes\<close>: undefined behaviour, arrays, loops over a range, byte buffers.
  \<^item> \<open>Efa_Util\<close>: \<open>util/util.h\<close>, the bit-field macros of \<open>include/efa.h\<close> and the compatibility macros.
    \<open>roundup_pow_of_two\<close> ends for arguments up to \<open>2 ^ 31\<close>, with the least power of two but for 1,
    which gives 2, and never ends above.
  \<^item> \<open>Efa_Io_Defs\<close>: \<open>include/efa_io_defs.h\<close>, the descriptors shared with the device, and their bytes:
    the layouts can be parsed back.
  \<^item> \<open>Efa_Mmio\<close>: \<open>include/win-mmio.h\<close>, \<open>util/udma_barrier.h\<close>, the locks of \<open>include/pthread.h\<close>; what a
    copy to the device writes.
  \<^item> \<open>Efa_Objects\<close>: the structs of \<open>include/efa.h\<close> and of the verbs interface.
  \<^item> \<open>Efa_Wq\<close>: \<open>struct efa_wq\<close>, its pool of request indices and their tags. The pool refines a finite
    map from outstanding indices to tags; its initialisation is all or nothing.
  \<^item> \<open>Efa_Cq\<close>, \<open>Efa_Cq_Ring\<close>, \<open>Efa_Poll\<close>: polling. A sub-queue is a FIFO channel from the device, across
    every wrap of ring and phase; a completion is reported as the right work completion;
    the contracts of \<open>efa_poll_cq\<close>, of the rotation over sub-queues and of the polling session.
  \<^item> \<open>Efa_Sq\<close>, \<open>Efa_Payload\<close>, \<open>Efa_Poster\<close>, \<open>Efa_Send\<close>, \<open>Efa_Capacity\<close>, \<open>Efa_Session\<close>, \<open>Efa_Abort\<close>,
    \<open>Efa_Equiv\<close>: posting sends. The contents of an entry, which prefix of a list is posted and
    what the device sees, how much fits; the session interface: its copy loop ends and
    posts what is pending, an abandoned session leaves nothing, and a session equals
    the call of \<open>efa_post_send\<close> that says the same.
  \<^item> \<open>Efa_Rq\<close>: posting receives. \<open>Efa_Posting\<close>: arbitrary requests keep a queue pair
    well formed. Sends and receives share the locale \<open>poster\<close> of \<open>Efa_Poster\<close>.
  \<^item> \<open>Efa_Delivery\<close>: posting, device and polling together. Good sends for which there is room are
    completed: whatever order the device answers in, \<open>efa_poll_cq\<close> returns each with its tag and
    the queue has its room back.
  \<^item> \<open>Efa_Ioctl\<close>: \<open>include/EfaIoctl.h\<close> and \<open>efawin/efawinif.c\<close>; \<open>Efa_World\<close>, \<open>Efa_Cmd\<close>: the state of the
    control path and \<open>efawin/ibv_win_cmd.c\<close>; \<open>Efa_Driver\<close>: a reference driver and a small world, on
    which the witnesses run. It shows that what is assumed of a driver can hold.
  \<^item> \<open>Efa_Pd\<close>, \<open>Efa_Resources\<close>, \<open>Efa_Ah_Contract\<close>: protection domains, memory regions and address
    handles; the driver's books agree with the objects after any run (one locale for both), and what
    a refused address handle does.
  \<^item> \<open>Efa_Cq_Ctl\<close>, \<open>Efa_Cq_Rings\<close>, \<open>Efa_Cq_Contract\<close>: creating and destroying completion queues: what
    \<open>create_cq\<close> asks the driver for, and that the sub-queues it cuts the buffer into are channels that
    do not disturb each other.
  \<^item> \<open>Efa_Qp\<close>, \<open>Efa_Qp_Create\<close>, \<open>Efa_Qp_Life\<close>, \<open>Efa_Qp_Sizes\<close>, \<open>Efa_Qp_Ready\<close>, \<open>Efa_Qp_Contract\<close>,
    \<open>Efa_Qp_Edges\<close>: queue pairs. Creation is all or nothing, what it grants, destruction
    undoes it, a created queue pair takes the load it was asked for; a reset with
    requests outstanding, a refused destruction and a request for no receive elements. What is said
    of successful creations is said of sizes that fit (\<open>cap_fits\<close>): the checks of the code let others
    through, and \<open>create_qp_without_recv_sge\<close> shows what becomes of one kind of them.
  \<^item> \<open>Efa_Registry\<close>: the invariant of the queue pairs, the table and the reference counts of a context
    over every world that fitting creations, modifications, granted and refused destructions, posts
    and polls reach, and that polling finds only queue pairs that no destruction has taken down.
  \<^item> \<open>Efa_Query\<close>, \<open>Efa_Device\<close>, \<open>Efa_Device_Contract\<close>: queries, \<open>efawin/efa.c\<close>, \<open>efawin/efa_win_cmd.c\<close>;
    opening a device loses no handle on any path.
  \<^item> \<open>Efa_Exports\<close>: \<open>efawin/efawin.c\<close>. \<open>Efa_Loader\<close>, \<open>Efa_Loader_Contract\<close>: \<open>interface/efawin.c\<close>, and
    which code a verb reaches before, during and after the DLL is loaded.
  \<^item> \<open>Efa_Verbs_Inline\<close>, \<open>Efa_Verbs_Contract\<close>: the inline functions of \<open>verbs.h\<close> and what they do on a
    context of this library.
  \<^item> \<open>Efa_Pthread\<close>: the mutexes and threads of \<open>include/pthread.h\<close>. \<open>Efa_Threads\<close>, \<open>Efa_Concurrency\<close>:
    the calls of \<open>efawin/verbs.c\<close> under several threads, each call cut down to the locks it takes, the
    slot of the table it reads or writes, the work queues it touches and what it frees. For programs
    that keep to the rules of \<open>calls_ok\<close>, which the code relies on and does not enforce, in every
    interleaving no thread touches a freed queue pair, no deadlock is reached and all calls end. The
    rules: each queue pair is destroyed by at most one call and nobody posts to one that is; the
    completion queues of a queue pair are in its context; completions name queue pairs that report to
    the queue they are in; a polling session is one uninterrupted call. A destruction inside a polling
    session deadlocks. \<open>Efa_Crossed\<close>: so do two queue pairs with completion queues of another
    context, which \<open>create_qp\<close> creates without asking.
  \<^item> \<open>Efa_Layout\<close>, \<open>Efa_Uverbs_Abi\<close>, \<open>Efa_Abi\<close>: the structs of \<open>include/ib_user_verbs.h\<close>, \<open>include/kern-abi.h\<close>
    and \<open>include/efa-win-abi.h\<close> and where their members lie: on every architecture alike, as the
    headers promise, but not on Windows, where \<open>__aligned_u64\<close> has another meaning.

  \<^bold>\<open>Bounds.\<close> Loops over a list or a counter are structural, and no fuel is used. Two loops whose end
  is not evident are \<open>partial_function (option)\<close>, where \<open>None\<close> also stands for a run that does not end:
  the one of \<open>roundup_pow_of_two\<close>, which is shown to end for arguments up to \<open>2 ^ 31\<close> and for no other,
  and the copy loop of \<open>ibv_wr_complete\<close>, which is shown to end on every well-formed send queue. Sizes
  of queues are hypotheses where the code relies on them: a ring has a power of two of entries, at
  most as many as the counters distinguish; creation establishes them.

  \<^bold>\<open>Interfaces as locales.\<close> \<open>poster\<close> (a queue that accepts requests one by one) is interpreted by the
  send and by the receive path; the locales of \<open>Efa_Wq\<close>, \<open>Efa_Cq_Ring\<close> and \<open>Efa_Resources\<close> by the
  index pool, the completion ring, protection domains and memory regions; \<open>reg_field\<close> of \<open>Efa_Util\<close>
  by the bit fields of the descriptors.

  \<^bold>\<open>Threads.\<close> Outside \<open>Efa_Threads\<close>, \<open>Efa_Concurrency\<close> and \<open>Efa_Crossed\<close> an operation is one step, and the locks appear as
  what the code takes and releases. That the two views of the locks agree is shown for
  \<open>efa_lock_cqs\<close> and \<open>efa_unlock_cqs\<close>; \<open>Efa_Crossed\<close> takes the objects of the threads from a world.

  \<^bold>\<open>Not modelled.\<close> The order in which a device or another processor sees plain stores, beyond the order
  of the trace and of the steps. The prototypes, structs and enums of \<open>verbs.h\<close> and \<open>driver.h\<close> for
  verbs the library does not implement, the copy functions of device memory and the wrappers of
  functions that are only declared. The condition variables of \<open>include/pthread.h\<close>, which are other
  names for Windows functions and are never waited on. How \<open>#pragma pack\<close> acts on the request structs
  of \<open>include/win-ibv.h\<close>, which are never sent. Branches for other platforms.
\<close>

end
